(* ===== verification/Rust_Text.thy ===== *)
theory Rust_Text
  imports Mova_Prelude
begin

text \<open>
  The parts of Rust's \<open>str\<close> and integer parsing that the program uses. A \<open>&str\<close> is
  the list of its Unicode scalar values, a header value or a file is the list of its
  bytes; both are lists of naturals, and a literal is written \<open>lit ''abc''\<close>. The
  functions on slices are polymorphic in the element type.
\<close>

type_synonym ustr = "nat list"

definition lit :: "string \<Rightarrow> ustr" where
  "lit s = map of_char s"

lemma lit_simps [simp]:
  "lit [] = []"
  "lit (c # cs) = of_char c # lit cs"
  by (simp_all add: lit_def)

lemma length_lit [simp]: "length (lit s) = length s"
  by (simp add: lit_def)

lemma lit_append: "lit (a @ b) = lit a @ lit b"
  by (simp add: lit_def)

subsection \<open>Prefixes, suffixes and splits\<close>

definition starts_with :: "'a list \<Rightarrow> 'a list \<Rightarrow> bool" where
  "starts_with p xs = (take (length p) xs = p)"

definition ends_with :: "'a list \<Rightarrow> 'a list \<Rightarrow> bool" where
  "ends_with p xs = (length p \<le> length xs \<and> drop (length xs - length p) xs = p)"

definition strip_prefix :: "'a list \<Rightarrow> 'a list \<Rightarrow> 'a list option" where
  "strip_prefix p xs = (if starts_with p xs then Some (drop (length p) xs) else None)"

definition strip_suffix :: "'a list \<Rightarrow> 'a list \<Rightarrow> 'a list option" where
  "strip_suffix p xs = (if ends_with p xs then Some (take (length xs - length p) xs) else None)"

text \<open>\<open>split_once(c)\<close> and \<open>rsplit_once(c)\<close> for a single character.\<close>

fun split_once :: "'a \<Rightarrow> 'a list \<Rightarrow> ('a list \<times> 'a list) option" where
  "split_once c [] = None"
| "split_once c (x # xs) =
     (if x = c then Some ([], xs)
      else map_option (\<lambda>(a, b). (x # a, b)) (split_once c xs))"

definition rsplit_once :: "'a \<Rightarrow> 'a list \<Rightarrow> ('a list \<times> 'a list) option" where
  "rsplit_once c xs = map_option (\<lambda>(a, b). (rev b, rev a)) (split_once c (rev xs))"

text \<open>\<open>split_once\<close> for a string separator.\<close>

fun split_once_str :: "'a list \<Rightarrow> 'a list \<Rightarrow> ('a list \<times> 'a list) option" where
  "split_once_str p [] = (if p = [] then Some ([], []) else None)"
| "split_once_str p (x # xs) =
     (if starts_with p (x # xs) then Some ([], drop (length p) (x # xs))
      else map_option (\<lambda>(a, b). (x # a, b)) (split_once_str p xs))"

text \<open>\<open>split(P)\<close>: the pieces between the separators, one more than there are separators.\<close>

fun split_by :: "('a \<Rightarrow> bool) \<Rightarrow> 'a list \<Rightarrow> 'a list list" where
  "split_by P [] = [[]]"
| "split_by P (x # xs) =
     (if P x then [] # split_by P xs
      else (case split_by P xs of [] \<Rightarrow> [[x]] | q # qs \<Rightarrow> (x # q) # qs))"

fun contains_str :: "'a list \<Rightarrow> 'a list \<Rightarrow> bool" where
  "contains_str p [] = (p = [])"
| "contains_str p (x # xs) = (starts_with p (x # xs) \<or> contains_str p xs)"

lemma strip_prefix_append [simp]: "strip_prefix p (p @ xs) = Some xs"
  by (simp add: strip_prefix_def starts_with_def)

lemma strip_prefix_Some: "strip_prefix p xs = Some ys \<longleftrightarrow> xs = p @ ys"
  by (auto simp: strip_prefix_def starts_with_def) (metis append_take_drop_id)

lemma strip_suffix_append [simp]: "strip_suffix p (xs @ p) = Some xs"
  by (simp add: strip_suffix_def ends_with_def)

lemma strip_suffix_Some: "strip_suffix p xs = Some ys \<longleftrightarrow> xs = ys @ p"
  by (auto simp: strip_suffix_def ends_with_def) (metis append_take_drop_id)

lemma starts_with_iff: "starts_with p xs \<longleftrightarrow> (\<exists>ys. xs = p @ ys)"
  by (auto simp: starts_with_def) (metis append_take_drop_id)

lemma ends_with_iff: "ends_with p xs \<longleftrightarrow> (\<exists>ys. xs = ys @ p)"
  by (auto simp: ends_with_def) (metis append_take_drop_id)

lemma split_once_Some: "split_once c xs = Some (a, b) \<longleftrightarrow> xs = a @ c # b \<and> c \<notin> set a"
proof (induction xs arbitrary: a)
  case (Cons x xs)
  then show ?case by (cases a) auto
qed simp

lemma split_once_None: "split_once c xs = None \<longleftrightarrow> c \<notin> set xs"
  by (induction xs) auto

lemma split_once_append [simp]: "c \<notin> set a \<Longrightarrow> split_once c (a @ c # b) = Some (a, b)"
  by (simp add: split_once_Some)

lemma rsplit_once_Some: "rsplit_once c xs = Some (a, b) \<longleftrightarrow> xs = a @ c # b \<and> c \<notin> set b"
proof -
  have "rsplit_once c xs = Some (a, b) \<longleftrightarrow> split_once c (rev xs) = Some (rev b, rev a)"
    by (auto simp: rsplit_once_def)
  also have "\<dots> \<longleftrightarrow> rev xs = rev b @ c # rev a \<and> c \<notin> set b"
    by (simp add: split_once_Some)
  also have "\<dots> \<longleftrightarrow> xs = a @ c # b \<and> c \<notin> set b"
    by (metis append.assoc append_Cons append_Nil rev.simps(2) rev_append rev_rev_ident)
  finally show ?thesis .
qed

lemma split_by_nonempty [simp]: "split_by P xs \<noteq> []"
  by (induction xs) (auto split: list.splits)

lemma split_by_pieces: "p \<in> set (split_by P xs) \<Longrightarrow> x \<in> set p \<Longrightarrow> \<not> P x \<and> x \<in> set xs"
proof (induction xs arbitrary: p)
  case (Cons y ys)
  then show ?case by (fastforce split: list.splits if_splits)
qed simp

lemma split_by_no_sep: "(\<And>x. x \<in> set xs \<Longrightarrow> \<not> P x) \<Longrightarrow> split_by P xs = [xs]"
  by (induction xs) auto

subsection \<open>Characters\<close>

definition is_ascii_digit :: "nat \<Rightarrow> bool" where
  "is_ascii_digit c = (48 \<le> c \<and> c \<le> 57)"

definition is_ascii_upper :: "nat \<Rightarrow> bool" where
  "is_ascii_upper c = (65 \<le> c \<and> c \<le> 90)"

definition is_ascii_lower :: "nat \<Rightarrow> bool" where
  "is_ascii_lower c = (97 \<le> c \<and> c \<le> 122)"

definition is_ascii_alphanumeric :: "nat \<Rightarrow> bool" where
  "is_ascii_alphanumeric c = (is_ascii_digit c \<or> is_ascii_upper c \<or> is_ascii_lower c)"

definition to_ascii_lower :: "nat \<Rightarrow> nat" where
  "to_ascii_lower c = (if is_ascii_upper c then c + 32 else c)"

definition to_ascii_lowercase :: "ustr \<Rightarrow> ustr" where
  "to_ascii_lowercase s = map to_ascii_lower s"

definition is_ascii_str :: "ustr \<Rightarrow> bool" where
  "is_ascii_str s = list_all (\<lambda>c. c < 128) s"

text \<open>\<open>char::is_whitespace\<close>: the Unicode property White_Space.\<close>

definition is_whitespace :: "nat \<Rightarrow> bool" where
  "is_whitespace c \<longleftrightarrow>
     (9 \<le> c \<and> c \<le> 13) \<or> c = 32 \<or> c = 133 \<or> c = 160 \<or> c = 5760 \<or>
     (8192 \<le> c \<and> c \<le> 8202) \<or> c = 8232 \<or> c = 8233 \<or> c = 8239 \<or> c = 8287 \<or> c = 12288"

text \<open>The length in bytes of the UTF-8 form: what \<open>str::len\<close> counts.\<close>

definition utf8_width :: "nat \<Rightarrow> nat" where
  "utf8_width c = (if c < 128 then 1 else if c < 2048 then 2 else if c < 65536 then 3 else 4)"

definition byte_len :: "ustr \<Rightarrow> nat" where
  "byte_len s = sum_list (map utf8_width s)"

definition trim_start_matches :: "('a \<Rightarrow> bool) \<Rightarrow> 'a list \<Rightarrow> 'a list" where
  "trim_start_matches P s = dropWhile P s"

definition trim_end_matches :: "('a \<Rightarrow> bool) \<Rightarrow> 'a list \<Rightarrow> 'a list" where
  "trim_end_matches P s = rev (dropWhile P (rev s))"

definition trim_matches :: "('a \<Rightarrow> bool) \<Rightarrow> 'a list \<Rightarrow> 'a list" where
  "trim_matches P s = trim_end_matches P (trim_start_matches P s)"

definition trim :: "ustr \<Rightarrow> ustr" where
  "trim s = trim_matches is_whitespace s"

definition split_whitespace :: "ustr \<Rightarrow> ustr list" where
  "split_whitespace s = List.filter (\<lambda>t. t \<noteq> []) (split_by is_whitespace s)"

fun join :: "'a list \<Rightarrow> 'a list list \<Rightarrow> 'a list" where
  "join sep [] = []"
| "join sep [x] = x"
| "join sep (x # y # ys) = x @ sep @ join sep (y # ys)"

text \<open>
  \<open>str::lines\<close>: split at line feeds, drop the empty piece after a final line feed and a
  carriage return before one.
\<close>

definition text_lines :: "ustr \<Rightarrow> ustr list" where
  "text_lines s =
     (let pieces = split_by (\<lambda>c. c = 10) s;
          ended = butlast pieces;
          strip_cr = (\<lambda>l. case strip_suffix [13] l of None \<Rightarrow> l | Some l' \<Rightarrow> l')
      in map strip_cr ended @ (if last pieces = [] then [] else [last pieces]))"

lemma to_ascii_lower_idem [simp]: "to_ascii_lower (to_ascii_lower c) = to_ascii_lower c"
  by (auto simp: to_ascii_lower_def is_ascii_upper_def)

lemma to_ascii_lowercase_idem [simp]:
  "to_ascii_lowercase (to_ascii_lowercase s) = to_ascii_lowercase s"
  by (simp add: to_ascii_lowercase_def)

lemma byte_len_ge_length: "length s \<le> byte_len s"
  by (induction s) (auto simp: byte_len_def utf8_width_def)

lemma byte_len_ascii: "list_all (\<lambda>c. c < 128) s \<Longrightarrow> byte_len s = length s"
  by (induction s) (auto simp: byte_len_def utf8_width_def)

lemma trim_end_matches_set: "set (trim_end_matches P s) \<subseteq> set s"
  by (auto simp: trim_end_matches_def dest: set_dropWhileD)

lemma trim_start_matches_set: "set (trim_start_matches P s) \<subseteq> set s"
  by (auto simp: trim_start_matches_def dest: set_dropWhileD)

lemma trim_set: "set (trim s) \<subseteq> set s"
  using trim_end_matches_set trim_start_matches_set
  by (fastforce simp: trim_def trim_matches_def)

lemma split_whitespace_mem:
  assumes "t \<in> set (split_whitespace s)"
  shows "t \<noteq> []" and "\<And>c. c \<in> set t \<Longrightarrow> \<not> is_whitespace c \<and> c \<in> set s"
  using assms by (auto simp: split_whitespace_def dest: split_by_pieces)

subsection \<open>Integers\<close>

text \<open>
  The value of a digit string, and \<open>str::parse\<close> for the integer types: an optional \<open>+\<close>
  (for signed types also \<open>-\<close>), at least one digit, nothing else, and a value inside the
  type. \<open>parse_u16\<close>, \<open>parse_u64\<close> return naturals inside the type's range.
\<close>

definition digits_val :: "ustr \<Rightarrow> nat" where
  "digits_val s = foldl (\<lambda>v d. 10 * v + (d - 48)) 0 s"

definition parse_digits :: "ustr \<Rightarrow> nat option" where
  "parse_digits s = (if s \<noteq> [] \<and> list_all is_ascii_digit s then Some (digits_val s) else None)"

definition parse_unsigned :: "nat \<Rightarrow> ustr \<Rightarrow> nat option" where
  "parse_unsigned w s =
     (let body = (case s of [] \<Rightarrow> [] | c # cs \<Rightarrow> if c = 43 then cs else s)
      in opt_filter (\<lambda>v. v < 2 ^ w) (parse_digits body))"

definition parse_signed :: "nat \<Rightarrow> ustr \<Rightarrow> int option" where
  "parse_signed w s =
     (case s of
        [] \<Rightarrow> None
      | c # cs \<Rightarrow>
          if c = 45 then
            opt_filter (\<lambda>v. - (2 ^ (w - 1)) \<le> v) (map_option (\<lambda>v. - int v) (parse_digits cs))
          else
            opt_filter (\<lambda>v. v < 2 ^ (w - 1))
              (map_option int (parse_digits (if c = 43 then cs else s))))"

abbreviation parse_u16 :: "ustr \<Rightarrow> nat option" where
  "parse_u16 \<equiv> parse_unsigned 16"

abbreviation parse_u64 :: "ustr \<Rightarrow> nat option" where
  "parse_u64 \<equiv> parse_unsigned 64"

abbreviation parse_i32 :: "ustr \<Rightarrow> int option" where
  "parse_i32 \<equiv> parse_signed 32"

abbreviation parse_i64 :: "ustr \<Rightarrow> int option" where
  "parse_i64 \<equiv> parse_signed 64"

text \<open>\<open>to_string\<close> of an unsigned integer.\<close>

fun nat_text :: "nat \<Rightarrow> ustr" where
  "nat_text n = (if n < 10 then [48 + n] else nat_text (n div 10) @ [48 + n mod 10])"

declare nat_text.simps [simp del]

lemma digits_val_snoc: "digits_val (s @ [d]) = 10 * digits_val s + (d - 48)"
  by (simp add: digits_val_def)

lemma nat_text_digits: "nat_text n \<noteq> [] \<and> list_all is_ascii_digit (nat_text n)"
proof (induction n rule: nat_text.induct)
  case (1 n)
  show ?case
  proof (cases "n < 10")
    case True
    then show ?thesis by (simp add: nat_text.simps [of n] is_ascii_digit_def)
  next
    case False
    then show ?thesis
      using "1.IH" by (simp add: nat_text.simps [of n] is_ascii_digit_def)
  qed
qed

lemma digits_val_nat_text: "digits_val (nat_text n) = n"
proof (induction n rule: nat_text.induct)
  case (1 n)
  show ?case
  proof (cases "n < 10")
    case True
    then show ?thesis by (simp add: nat_text.simps [of n] digits_val_def)
  next
    case False
    then show ?thesis
      using "1.IH" by (simp add: nat_text.simps [of n] digits_val_snoc)
  qed
qed

lemma nat_text_head: "\<exists>d ds. nat_text n = d # ds \<and> is_ascii_digit d"
proof -
  from nat_text_digits obtain d ds where "nat_text n = d # ds"
    by (meson neq_Nil_conv)
  then show ?thesis using nat_text_digits [of n] by simp
qed

lemma parse_digits_nat_text [simp]: "parse_digits (nat_text n) = Some n"
  by (simp add: parse_digits_def nat_text_digits digits_val_nat_text)

lemma parse_unsigned_nat_text: "n < 2 ^ w \<Longrightarrow> parse_unsigned w (nat_text n) = Some n"
proof -
  assume n: "n < 2 ^ w"
  obtain d ds where d: "nat_text n = d # ds" and "is_ascii_digit d"
    using nat_text_head by blast
  then have "d \<noteq> 43" by (simp add: is_ascii_digit_def)
  with d have "parse_unsigned w (nat_text n) = opt_filter (\<lambda>v. v < 2 ^ w) (parse_digits (nat_text n))"
    by (simp add: parse_unsigned_def)
  with n show ?thesis by simp
qed

lemma parse_unsigned_bound: "parse_unsigned w s = Some v \<Longrightarrow> v < 2 ^ w"
  by (auto simp: parse_unsigned_def Let_def result_simps)

lemma parse_digits_chars: "parse_digits s = Some v \<Longrightarrow> c \<in> set s \<Longrightarrow> is_ascii_digit c"
  by (auto simp: parse_digits_def list_all_iff split: if_splits)

lemma nat_text_length_le: "n < 10 ^ k \<Longrightarrow> 0 < k \<Longrightarrow> length (nat_text n) \<le> k"
proof (induction n arbitrary: k rule: nat_text.induct)
  case (1 n)
  show ?case
  proof (cases "n < 10")
    case True
    then show ?thesis using "1.prems" by (simp add: nat_text.simps [of n])
  next
    case False
    with "1.prems" obtain k' where k: "k = Suc k'" "0 < k'"
      by (cases k; cases "k = 1") auto
    with "1.prems" False have "length (nat_text (n div 10)) \<le> k'"
      by (intro "1.IH") (auto simp: less_mult_imp_div_less mult.commute)
    with False k show ?thesis by (simp add: nat_text.simps [of n])
  qed
qed

subsection \<open>UTF-8\<close>

text \<open>\<open>std::str::from_utf8\<close>: shortest forms only, no surrogates, nothing above \<open>U+10FFFF\<close>.\<close>

definition is_cont_byte :: "nat \<Rightarrow> bool" where
  "is_cont_byte b = (128 \<le> b \<and> b < 192)"

fun utf8_decode :: "nat list \<Rightarrow> ustr option" where
  "utf8_decode [] = Some []"
| "utf8_decode (a # bs) =
     (if a < 128 then map_option (\<lambda>r. a # r) (utf8_decode bs)
      else if 192 \<le> a \<and> a < 224 then
        (case bs of
           b # rest \<Rightarrow>
             let c = (a - 192) * 64 + (b - 128)
             in if is_cont_byte b \<and> 128 \<le> c then map_option (\<lambda>r. c # r) (utf8_decode rest) else None
         | _ \<Rightarrow> None)
      else if 224 \<le> a \<and> a < 240 then
        (case bs of
           b # b' # rest \<Rightarrow>
             let c = (a - 224) * 4096 + (b - 128) * 64 + (b' - 128)
             in if is_cont_byte b \<and> is_cont_byte b' \<and> 2048 \<le> c \<and> \<not> (55296 \<le> c \<and> c \<le> 57343)
                then map_option (\<lambda>r. c # r) (utf8_decode rest) else None
         | _ \<Rightarrow> None)
      else if 240 \<le> a \<and> a < 248 then
        (case bs of
           b # b' # b'' # rest \<Rightarrow>
             let c = (a - 240) * 262144 + (b - 128) * 4096 + (b' - 128) * 64 + (b'' - 128)
             in if is_cont_byte b \<and> is_cont_byte b' \<and> is_cont_byte b'' \<and> 65536 \<le> c \<and> c \<le> 1114111
                then map_option (\<lambda>r. c # r) (utf8_decode rest) else None
         | _ \<Rightarrow> None)
      else None)"

definition utf8_char :: "nat \<Rightarrow> nat list" where
  "utf8_char c =
     (if c < 128 then [c]
      else if c < 2048 then [192 + c div 64, 128 + c mod 64]
      else if c < 65536 then [224 + c div 4096, 128 + c div 64 mod 64, 128 + c mod 64]
      else [240 + c div 262144, 128 + c div 4096 mod 64, 128 + c div 64 mod 64, 128 + c mod 64])"

definition is_scalar :: "nat \<Rightarrow> bool" where
  "is_scalar c = (c \<le> 1114111 \<and> \<not> (55296 \<le> c \<and> c \<le> 57343))"

definition utf8_bytes :: "ustr \<Rightarrow> nat list" where
  "utf8_bytes s = concat (map utf8_char s)"

lemma split_base64:
  "c div 4096 * 4096 + c div 64 mod 64 * 64 + c mod 64 = (c :: nat)"
  "c div 262144 * 262144 + c div 4096 mod 64 * 4096 + c div 64 mod 64 * 64 + c mod 64 = c"
proof -
  have a: "c div 4096 = c div 64 div 64" and b: "c div 262144 = c div 64 div 64 div 64"
    by (simp_all add: div_mult2_eq [symmetric])
  have "c div 64 div 64 * 64 + c div 64 mod 64 = c div 64" for c :: nat
    by (rule div_mult_mod_eq)
  from this [of c] this [of "c div 64"] div_mult_mod_eq [of c 64]
  show "c div 4096 * 4096 + c div 64 mod 64 * 64 + c mod 64 = c"
    and "c div 262144 * 262144 + c div 4096 mod 64 * 4096 + c div 64 mod 64 * 64 + c mod 64 = c"
    unfolding a b by linarith+
qed

lemma utf8_decode_char:
  assumes "is_scalar c"
  shows "utf8_decode (utf8_char c @ rest) = map_option (\<lambda>r. c # r) (utf8_decode rest)"
proof -
  consider "c < 128" | "128 \<le> c" "c < 2048" | "2048 \<le> c" "c < 65536" | "65536 \<le> c" by linarith
  then show ?thesis
  proof cases
    case 1
    then show ?thesis by (simp add: utf8_char_def)
  next
    case 2
    then have "c div 64 < 32" by (simp add: less_mult_imp_div_less)
    with 2 show ?thesis by (simp add: utf8_char_def is_cont_byte_def Let_def)
  next
    case 3
    then have "c div 4096 < 16" by (simp add: less_mult_imp_div_less)
    with 3 show ?thesis using assms split_base64(1) [of c]
      by (simp add: utf8_char_def is_cont_byte_def is_scalar_def Let_def)
  next
    case 4
    have "c div 262144 < 8" using assms by (simp add: is_scalar_def less_mult_imp_div_less)
    with 4 show ?thesis using assms split_base64(2) [of c]
      by (simp add: utf8_char_def is_cont_byte_def is_scalar_def Let_def)
  qed
qed

lemma utf8_roundtrip: "list_all is_scalar s \<Longrightarrow> utf8_decode (utf8_bytes s) = Some s"
  by (induction s) (simp_all add: utf8_bytes_def utf8_decode_char del: utf8_decode.simps(2))

lemma length_utf8_bytes: "length (utf8_bytes s) = byte_len s"
  by (induction s) (auto simp: utf8_bytes_def byte_len_def utf8_char_def utf8_width_def)

text \<open>The definitions that evaluate the text functions on concrete input.\<close>

lemmas str_eval = trim_def trim_matches_def trim_start_matches_def trim_end_matches_def
  is_whitespace_def starts_with_def ends_with_def strip_prefix_def strip_suffix_def
  rsplit_once_def is_ascii_digit_def is_ascii_upper_def is_ascii_lower_def
  is_ascii_alphanumeric_def to_ascii_lower_def to_ascii_lowercase_def byte_len_def utf8_width_def
  parse_unsigned_def parse_digits_def digits_val_def

end
