(* ===== verification/Std_Net.thy ===== *)
theory Std_Net
  imports Rust_Text
begin

text \<open>
  The parts of Rust's \<open>std::net\<close> that the remote target policy uses: addresses as
  octets and 16-bit segments, the address predicates of the standard library, and its
  textual parser and printer.
\<close>

unbundle bit_operations_syntax

type_synonym u8 = "8 word"
type_synonym u16 = "16 word"

datatype ipv4 = Ipv4 u8 u8 u8 u8
datatype ipv6 = Ipv6 u16 u16 u16 u16 u16 u16 u16 u16
datatype ip_addr = V4 ipv4 | V6 ipv6

record socket_addr =
  sock_ip :: ip_addr
  sock_port :: nat

fun segments :: "ipv6 \<Rightarrow> u16 list" where
  "segments (Ipv6 a b c d e f g h) = [a, b, c, d, e, f, g, h]"

fun ipv4_is_unspecified :: "ipv4 \<Rightarrow> bool" where
  "ipv4_is_unspecified x = (x = Ipv4 0 0 0 0)"

fun ipv6_is_unspecified :: "ipv6 \<Rightarrow> bool" where
  "ipv6_is_unspecified x = (x = Ipv6 0 0 0 0 0 0 0 0)"

fun ipv6_is_loopback :: "ipv6 \<Rightarrow> bool" where
  "ipv6_is_loopback x = (x = Ipv6 0 0 0 0 0 0 0 1)"

fun ipv6_is_unicast_link_local :: "ipv6 \<Rightarrow> bool" where
  "ipv6_is_unicast_link_local (Ipv6 a b c d e f g h) = (a AND 0xffc0 = 0xfe80)"

fun ipv6_is_multicast :: "ipv6 \<Rightarrow> bool" where
  "ipv6_is_multicast (Ipv6 a b c d e f g h) = (a AND 0xff00 = 0xff00)"

fun ipv6_is_unique_local :: "ipv6 \<Rightarrow> bool" where
  "ipv6_is_unique_local (Ipv6 a b c d e f g h) = (a AND 0xfe00 = 0xfc00)"

text \<open>The octets of a 16-bit segment, most significant first.\<close>

definition hi_octet :: "u16 \<Rightarrow> u8" where
  "hi_octet s = ucast (drop_bit 8 s)"

definition lo_octet :: "u16 \<Rightarrow> u8" where
  "lo_octet s = ucast s"

fun to_ipv4_mapped :: "ipv6 \<Rightarrow> ipv4 option" where
  "to_ipv4_mapped (Ipv6 a b c d e f g h) =
     (if [a, b, c, d, e] = [0, 0, 0, 0, 0] \<and> f = 0xffff
      then Some (Ipv4 (hi_octet g) (lo_octet g) (hi_octet h) (lo_octet h))
      else None)"

subsection \<open>Parsing\<close>

text \<open>
  The parser of \<open>core::net::parser\<close>: a reader takes the rest of the input and returns a
  value with what is left, or fails without consuming anything.
\<close>

type_synonym 'a reader = "ustr \<Rightarrow> ('a \<times> ustr) option"

definition read_char :: "nat \<Rightarrow> unit reader" where
  "read_char c s = (case s of [] \<Rightarrow> None | x # xs \<Rightarrow> if x = c then Some ((), xs) else None)"

definition hex_digit :: "nat \<Rightarrow> nat option" where
  "hex_digit c =
     (if is_ascii_digit c then Some (c - 48)
      else if 97 \<le> c \<and> c \<le> 102 then Some (c - 87)
      else if 65 \<le> c \<and> c \<le> 70 then Some (c - 55)
      else None)"

definition radix_digit :: "nat \<Rightarrow> nat \<Rightarrow> nat option" where
  "radix_digit r c = opt_filter (\<lambda>d. d < r) (hex_digit c)"

fun read_digits :: "nat \<Rightarrow> ustr \<Rightarrow> nat list \<times> ustr" where
  "read_digits r [] = ([], [])"
| "read_digits r (c # cs) =
     (case radix_digit r c of
        None \<Rightarrow> ([], c # cs)
      | Some d \<Rightarrow> (case read_digits r cs of (ds, rest) \<Rightarrow> (d # ds, rest)))"

text \<open>\<open>read_number(radix, max_digits, allow_zero_prefix)\<close> for a type with values below \<open>lim\<close>.\<close>

definition read_number :: "nat \<Rightarrow> nat option \<Rightarrow> bool \<Rightarrow> nat \<Rightarrow> nat reader" where
  "read_number r max_digits zero_ok lim s =
     (case read_digits r s of (ds, rest) \<Rightarrow>
        if ds = [] then None
        else if (case max_digits of None \<Rightarrow> False | Some m \<Rightarrow> m < length ds) then None
        else if \<not> zero_ok \<and> hd ds = 0 \<and> 1 < length ds then None
        else (let v = foldl (\<lambda>a d. r * a + d) 0 ds
              in if v < lim then Some (v, rest) else None))"

text \<open>\<open>read_separator(sep, index, inner)\<close>: the separator is expected from the second element on.\<close>

definition read_separator :: "nat \<Rightarrow> nat \<Rightarrow> 'a reader \<Rightarrow> 'a reader" where
  "read_separator sep i inner s =
     (if 0 < i then (case read_char sep s of None \<Rightarrow> None | Some (_, rest) \<Rightarrow> inner rest)
      else inner s)"

definition read_octet :: "nat \<Rightarrow> nat reader" where
  "read_octet i = read_separator 46 i (read_number 10 (Some 3) False 256)"

definition read_ipv4 :: "ipv4 reader" where
  "read_ipv4 s =
     (case read_octet 0 s of None \<Rightarrow> None | Some (a, s1) \<Rightarrow>
      case read_octet 1 s1 of None \<Rightarrow> None | Some (b, s2) \<Rightarrow>
      case read_octet 2 s2 of None \<Rightarrow> None | Some (c, s3) \<Rightarrow>
      case read_octet 3 s3 of None \<Rightarrow> None | Some (d, s4) \<Rightarrow>
        Some (Ipv4 (of_nat a) (of_nat b) (of_nat c) (of_nat d), s4))"

text \<open>
  \<open>read_groups\<close>: up to \<open>limit\<close> groups, the last two of which may be an embedded IPv4
  address; \<open>i\<close> counts the groups read. Returns the groups, whether an IPv4 address ended
  them, and the rest.
\<close>

fun read_groups :: "nat \<Rightarrow> nat \<Rightarrow> nat \<Rightarrow> ustr \<Rightarrow> u16 list \<times> bool \<times> ustr" where
  "read_groups 0 i limit s = ([], False, s)"
| "read_groups (Suc n) i limit s =
     (case (if i + 1 < limit then read_separator 58 i read_ipv4 s else None) of
        Some (Ipv4 a b c d, rest) \<Rightarrow>
          ([push_bit 8 (ucast a) OR ucast b, push_bit 8 (ucast c) OR ucast d], True, rest)
      | None \<Rightarrow>
          (case read_separator 58 i (read_number 16 (Some 4) True 65536) s of
             None \<Rightarrow> ([], False, s)
           | Some (g, rest) \<Rightarrow>
               (case read_groups n (Suc i) limit rest of
                  (gs, v4, rest') \<Rightarrow> (of_nat g # gs, v4, rest'))))"

fun ipv6_of_list :: "u16 list \<Rightarrow> ipv6 option" where
  "ipv6_of_list [a, b, c, d, e, f, g, h] = Some (Ipv6 a b c d e f g h)"
| "ipv6_of_list _ = None"

definition read_ipv6 :: "ipv6 reader" where
  "read_ipv6 s =
     (case read_groups 8 0 8 s of (front, front_v4, s1) \<Rightarrow>
        if length front = 8 then map_option (\<lambda>a. (a, s1)) (ipv6_of_list front)
        else if front_v4 then None
        else (case read_char 58 s1 of None \<Rightarrow> None | Some (_, s2) \<Rightarrow>
              case read_char 58 s2 of None \<Rightarrow> None | Some (_, s3) \<Rightarrow>
              (let limit = 8 - (length front + 1)
               in case read_groups limit 0 limit s3 of (back, _, s4) \<Rightarrow>
                    map_option (\<lambda>a. (a, s4))
                      (ipv6_of_list
                         (front @ replicate (8 - length front - length back) 0 @ back)))))"

definition read_port :: "nat reader" where
  "read_port s = (case read_char 58 s of None \<Rightarrow> None
     | Some (_, rest) \<Rightarrow> read_number 10 None True 65536 rest)"

definition read_socket_v4 :: "socket_addr reader" where
  "read_socket_v4 s =
     (case read_ipv4 s of None \<Rightarrow> None | Some (a, s1) \<Rightarrow>
      map_option (\<lambda>(p, rest). (\<lparr>sock_ip = V4 a, sock_port = p\<rparr>, rest)) (read_port s1))"

definition skip_scope_id :: "ustr \<Rightarrow> ustr" where
  "skip_scope_id s =
     (case read_char 37 s of None \<Rightarrow> s
      | Some (_, s1) \<Rightarrow> (case read_number 10 None True (2 ^ 32) s1 of None \<Rightarrow> s | Some (_, s2) \<Rightarrow> s2))"

definition read_socket_v6 :: "socket_addr reader" where
  "read_socket_v6 s =
     (case read_char 91 s of None \<Rightarrow> None | Some (_, s1) \<Rightarrow>
      case read_ipv6 s1 of None \<Rightarrow> None | Some (a, s2) \<Rightarrow>
      case read_char 93 (skip_scope_id s2) of None \<Rightarrow> None | Some (_, s3) \<Rightarrow>
      map_option (\<lambda>(p, rest). (\<lparr>sock_ip = V6 a, sock_port = p\<rparr>, rest)) (read_port s3))"

text \<open>\<open>parse_with\<close>: the reader has to consume the whole input.\<close>

definition parse_with :: "'a reader \<Rightarrow> ustr \<Rightarrow> 'a option" where
  "parse_with r s = (case r s of Some (v, []) \<Rightarrow> Some v | _ \<Rightarrow> None)"

definition parse_ip :: "ustr \<Rightarrow> ip_addr option" where
  "parse_ip = parse_with (\<lambda>s. case read_ipv4 s of
      Some (a, rest) \<Rightarrow> Some (V4 a, rest)
    | None \<Rightarrow> map_option (\<lambda>(a, rest). (V6 a, rest)) (read_ipv6 s))"

definition parse_socket_addr :: "ustr \<Rightarrow> socket_addr option" where
  "parse_socket_addr = parse_with (\<lambda>s. or_else (read_socket_v4 s) (read_socket_v6 s))"

subsection \<open>Printing\<close>

fun ipv4_text :: "ipv4 \<Rightarrow> ustr" where
  "ipv4_text (Ipv4 a b c d) =
     nat_text (unat a) @ [46] @ nat_text (unat b) @ [46] @ nat_text (unat c) @ [46] @ nat_text (unat d)"

definition hex_char :: "nat \<Rightarrow> nat" where
  "hex_char d = (if d < 10 then 48 + d else 87 + d)"

fun hex_text :: "nat \<Rightarrow> ustr" where
  "hex_text n = (if n < 16 then [hex_char n] else hex_text (n div 16) @ [hex_char (n mod 16)])"

declare hex_text.simps [simp del]

definition group_text :: "u16 list \<Rightarrow> ustr" where
  "group_text gs = join [58] (map (\<lambda>g. hex_text (unat g)) gs)"

text \<open>The longest run of zero groups, the first among equally long ones, as start and length.\<close>

definition zero_span_step :: "(nat \<times> nat) \<times> (nat \<times> nat) \<Rightarrow> nat \<times> u16 \<Rightarrow> (nat \<times> nat) \<times> (nat \<times> nat)" where
  "zero_span_step acc ig =
     (case acc of ((ls, ll), (cs, cl)) \<Rightarrow>
      case ig of (i, g) \<Rightarrow>
        if g = 0 then
          (let cs' = (if cl = 0 then i else cs); cl' = cl + 1
           in (if ll < cl' then (cs', cl') else (ls, ll), (cs', cl')))
        else ((ls, ll), (0, 0)))"

definition zero_span :: "u16 list \<Rightarrow> nat \<times> nat" where
  "zero_span gs = fst (foldl zero_span_step ((0, 0), (0, 0)) (enumerate 0 gs))"

definition ipv6_text :: "ipv6 \<Rightarrow> ustr" where
  "ipv6_text a =
     (case to_ipv4_mapped a of
        Some v4 \<Rightarrow> lit ''::ffff:'' @ ipv4_text v4
      | None \<Rightarrow>
          (case zero_span (segments a) of (start, len) \<Rightarrow>
             if 1 < len
             then group_text (take start (segments a)) @ [58, 58] @
                  group_text (drop (start + len) (segments a))
             else group_text (segments a)))"

fun ip_text :: "ip_addr \<Rightarrow> ustr" where
  "ip_text (V4 a) = ipv4_text a"
| "ip_text (V6 a) = ipv6_text a"

text \<open>A printed IPv4 address parses back to itself.\<close>

lemma hex_digit_decimal: "is_ascii_digit c \<Longrightarrow> radix_digit 10 c = Some (c - 48)"
  by (auto simp: radix_digit_def hex_digit_def is_ascii_digit_def)

lemma read_digits_decimal:
  assumes "list_all is_ascii_digit ds" and "\<And>c cs. rest = c # cs \<Longrightarrow> radix_digit 10 c = None"
  shows "read_digits 10 (ds @ rest) = (map (\<lambda>c. c - 48) ds, rest)"
  using assms
proof (induction ds)
  case Nil
  then show ?case by (cases rest) auto
next
  case (Cons d ds)
  then show ?case by (simp add: hex_digit_decimal)
qed

lemma foldl_digits: "foldl (\<lambda>a d. 10 * a + d) v (map (\<lambda>c. c - 48) s) = foldl (\<lambda>a c. 10 * a + (c - 48)) v s"
  by (induction s arbitrary: v) auto

lemma nat_text_length: "n < 1000 \<Longrightarrow> length (nat_text n) \<le> 3"
  by (simp add: nat_text.simps [of n] nat_text.simps [of "n div 10"]
      nat_text.simps [of "n div 10 div 10"])

lemma nat_text_no_zero_prefix:
  "hd (nat_text n) = 48 \<Longrightarrow> length (nat_text n) = 1"
proof (induction n rule: nat_text.induct)
  case (1 n)
  show ?case
  proof (cases "n < 10")
    case True
    then show ?thesis by (simp add: nat_text.simps [of n])
  next
    case False
    then have eq: "nat_text n = nat_text (n div 10) @ [48 + n mod 10]"
      by (simp add: nat_text.simps [of n])
    have ne: "nat_text (n div 10) \<noteq> []" using nat_text_digits by blast
    with eq "1.prems" have "hd (nat_text (n div 10)) = 48" by simp
    with "1.IH" False have "length (nat_text (n div 10)) = 1" by simp
    with \<open>hd (nat_text (n div 10)) = 48\<close> have "nat_text (n div 10) = [48]"
      by (cases "nat_text (n div 10)") auto
    then have "n div 10 = 0"
      using digits_val_nat_text [of "n div 10"] by (simp add: digits_val_def)
    with False show ?thesis by simp
  qed
qed

lemma read_number_nat_text:
  assumes "n < 256" and "\<And>c cs. rest = c # cs \<Longrightarrow> radix_digit 10 c = None"
  shows "read_number 10 (Some 3) False 256 (nat_text n @ rest) = Some (n, rest)"
proof -
  let ?ds = "map (\<lambda>c. c - 48) (nat_text n)"
  have digs: "list_all is_ascii_digit (nat_text n)" and ne: "nat_text n \<noteq> []"
    using nat_text_digits by blast+
  have rd: "read_digits 10 (nat_text n @ rest) = (?ds, rest)"
    using digs assms(2) by (rule read_digits_decimal)
  have val: "foldl (\<lambda>a d. 10 * a + d) 0 ?ds = n"
    using digits_val_nat_text [of n] by (simp add: foldl_digits digits_val_def)
  have len: "length ?ds \<le> 3" using nat_text_length [of n] assms(1) by simp
  have "\<not> (hd ?ds = 0 \<and> 1 < length ?ds)"
  proof
    assume z: "hd ?ds = 0 \<and> 1 < length ?ds"
    obtain d ds where d: "nat_text n = d # ds" and "is_ascii_digit d"
      using nat_text_head by blast
    with z have "d = 48" by (simp add: is_ascii_digit_def)
    with d have "length (nat_text n) = 1" by (intro nat_text_no_zero_prefix) simp
    with z show False by simp
  qed
  with rd val len ne assms(1) show ?thesis
    by (auto simp: read_number_def Let_def)
qed

lemma parse_ip_ipv4_text: "parse_ip (ipv4_text a) = Some (V4 a)"
proof -
  obtain x y z w where a: "a = Ipv4 x y z w" by (cases a)
  have lt: "unat (t :: u8) < 256" for t using unsigned_less [of t] by simp
  have dot: "radix_digit 10 46 = None"
    by (simp add: radix_digit_def hex_digit_def is_ascii_digit_def)
  have rd: "read_number 10 (Some 3) False 256 (nat_text (unat (t :: u8)) @ 46 # rest) = Some (unat t, 46 # rest)"
    for t rest by (rule read_number_nat_text [OF lt]) (use dot in auto)
  have rl: "read_number 10 (Some 3) False 256 (nat_text (unat (t :: u8))) = Some (unat t, [])"
    for t using read_number_nat_text [OF lt [of t], of "[]"] by simp
  show ?thesis
    by (simp add: a parse_ip_def parse_with_def read_ipv4_def read_octet_def
        read_separator_def read_char_def rd rl)
qed

text \<open>The definitions that evaluate the address parser on concrete input.\<close>

lemmas net_eval = parse_socket_addr_def parse_ip_def parse_with_def read_socket_v4_def
  read_socket_v6_def read_ipv4_def read_ipv6_def read_octet_def read_separator_def read_char_def
  read_number_def radix_digit_def hex_digit_def read_port_def skip_scope_id_def

end
