(* ===== verification/Remote_Errors.thy ===== *)
theory Remote_Errors
  imports Rust_Text
begin

text \<open>
  The failure vocabulary of remote playback (\<open>remote_stream/errors.rs\<close>): stable kinds,
  their public codes, and an error value that has no slot for a URL or a host name.
\<close>

datatype remote_error_kind =
    InvalidRequest
  | ReferenceTooLarge
  | ReferenceInvalid
  | CarrierNotFound
  | CarrierReadFailed
  | TargetForbidden
  | UserLimitExceeded
  | CapacityExhausted
  | SourceUnavailable
  | ResponseInvalid
  | SourceTimeout
  | RangeNotSupported

fun error_code :: "remote_error_kind \<Rightarrow> string" where
  "error_code InvalidRequest = ''invalid_request''"
| "error_code ReferenceTooLarge = ''strm_reference_too_large''"
| "error_code ReferenceInvalid = ''strm_reference_invalid''"
| "error_code CarrierNotFound = ''resource_not_found''"
| "error_code CarrierReadFailed = ''internal_error''"
| "error_code TargetForbidden = ''strm_target_forbidden''"
| "error_code UserLimitExceeded = ''strm_user_stream_limit_exceeded''"
| "error_code CapacityExhausted = ''strm_stream_capacity_exhausted''"
| "error_code SourceUnavailable = ''remote_source_unavailable''"
| "error_code ResponseInvalid = ''remote_response_invalid''"
| "error_code SourceTimeout = ''remote_source_timeout''"
| "error_code RangeNotSupported = ''remote_range_not_supported''"

record remote_error =
  err_kind :: remote_error_kind
  err_message :: string

definition invalid_request :: "string \<Rightarrow> remote_error" where
  "invalid_request m = \<lparr>err_kind = InvalidRequest, err_message = m\<rparr>"

definition target_forbidden :: remote_error where
  "target_forbidden = \<lparr>err_kind = TargetForbidden,
     err_message = ''the STRM target is forbidden by the remote streaming policy''\<rparr>"

definition source_unavailable :: remote_error where
  "source_unavailable = \<lparr>err_kind = SourceUnavailable,
     err_message = ''the remote media source is unavailable''\<rparr>"

definition response_invalid :: remote_error where
  "response_invalid = \<lparr>err_kind = ResponseInvalid,
     err_message = ''the remote media response is not a valid direct media response''\<rparr>"

definition source_timeout :: remote_error where
  "source_timeout = \<lparr>err_kind = SourceTimeout,
     err_message = ''the remote media source timed out''\<rparr>"

lemma err_kind_simps [domain_simps]:
  "err_kind (invalid_request m) = InvalidRequest"
  "err_kind target_forbidden = TargetForbidden"
  "err_kind source_unavailable = SourceUnavailable"
  "err_kind response_invalid = ResponseInvalid"
  "err_kind source_timeout = SourceTimeout"
  by (simp_all add: invalid_request_def target_forbidden_def source_unavailable_def
      response_invalid_def source_timeout_def)

text \<open>Clients branch on the code, so two kinds never share one.\<close>

lemma error_code_inj: "error_code k = error_code k' \<Longrightarrow> k = k'"
  by (cases k; cases k'; simp)

end
