(* ===== verification/Target_Policy.thy ===== *)
theory Target_Policy
  imports Std_Net Remote_Errors
begin

text \<open>
  The remote target policy of STRM playback (\<open>remote_stream/policy.rs\<close>) with the DNS
  resolver (\<open>remote_stream/resolver.rs\<close>): which hosts and addresses the server may
  contact. The \<open>url\<close> and \<open>sha2\<close> crates are parameters, the fields of \<open>url_crate\<close>;
  the operating system's name lookup is a parameter as well.
\<close>

record 'u url_crate =
  url_str :: "'u \<Rightarrow> ustr"
  url_scheme :: "'u \<Rightarrow> ustr"
  url_username :: "'u \<Rightarrow> ustr"
  url_password :: "'u \<Rightarrow> ustr option"
  url_fragment :: "'u \<Rightarrow> ustr option"
  url_port_or_known_default :: "'u \<Rightarrow> nat option"
  url_has_host :: "'u \<Rightarrow> bool"
  url_host_str :: "'u \<Rightarrow> ustr option"
  url_parse :: "ustr \<Rightarrow> 'u option"
  url_join :: "'u \<Rightarrow> ustr \<Rightarrow> 'u option"
  sha256_hex :: "ustr \<Rightarrow> ustr"

definition MAX_STRM_URL_BYTES :: nat where
  "MAX_STRM_URL_BYTES = 4096"

subsection \<open>Address classes\<close>

datatype ip_policy_class = Public | Private | PermanentlyForbidden

instantiation ip_policy_class :: linorder
begin

fun class_rank :: "ip_policy_class \<Rightarrow> nat" where
  "class_rank Public = 0"
| "class_rank Private = 1"
| "class_rank PermanentlyForbidden = 2"

definition less_eq_ip_policy_class :: "ip_policy_class \<Rightarrow> ip_policy_class \<Rightarrow> bool" where
  "less_eq_ip_policy_class a b = (class_rank a \<le> class_rank b)"

definition less_ip_policy_class :: "ip_policy_class \<Rightarrow> ip_policy_class \<Rightarrow> bool" where
  "less_ip_policy_class a b = (class_rank a < class_rank b)"

instance
proof
  fix a b :: ip_policy_class
  show "a \<le> b \<Longrightarrow> b \<le> a \<Longrightarrow> a = b"
    by (cases a; cases b; simp add: less_eq_ip_policy_class_def)
qed (auto simp: less_eq_ip_policy_class_def less_ip_policy_class_def)

end

fun classify_ipv4 :: "ipv4 \<Rightarrow> ip_policy_class" where
  "classify_ipv4 (Ipv4 a b c d) =
     (if a = 127 \<or> (a = 169 \<and> b = 254) \<or> 224 \<le> a \<or> ipv4_is_unspecified (Ipv4 a b c d)
         \<or> Ipv4 a b c d = Ipv4 100 100 100 200 \<or> Ipv4 a b c d = Ipv4 168 63 129 16
      then PermanentlyForbidden
      else if a = 10 \<or> (a = 172 \<and> 16 \<le> b \<and> b \<le> 31) \<or> (a = 192 \<and> b = 168)
         \<or> (a = 100 \<and> 64 \<le> b \<and> b \<le> 127)
      then Private
      else if a = 0 \<or> (a = 192 \<and> b = 0 \<and> c = 0) \<or> (a = 192 \<and> b = 0 \<and> c = 2)
         \<or> (a = 192 \<and> b = 88 \<and> c = 99) \<or> (a = 198 \<and> (b = 18 \<or> b = 19))
         \<or> (a = 198 \<and> b = 51 \<and> c = 100) \<or> (a = 203 \<and> b = 0 \<and> c = 113)
         \<or> (a = 255 \<and> b = 255 \<and> c = 255 \<and> d = 255)
      then PermanentlyForbidden
      else Public)"

text \<open>The two IPv6 metadata addresses, \<open>fd00:ec2::254\<close> and \<open>fd20:ce::254\<close>.\<close>

definition metadata_ipv6 :: "ipv6 list" where
  "metadata_ipv6 = [Ipv6 0xfd00 0x0ec2 0 0 0 0 0 0x254, Ipv6 0xfd20 0x00ce 0 0 0 0 0 0x254]"

definition classify_ipv6 :: "ipv6 \<Rightarrow> ip_policy_class" where
  "classify_ipv6 x =
     (case to_ipv4_mapped x of
        Some mapped \<Rightarrow> classify_ipv4 mapped
      | None \<Rightarrow>
          if ipv6_is_unspecified x \<or> ipv6_is_loopback x \<or> ipv6_is_unicast_link_local x
             \<or> ipv6_is_multicast x \<or> x \<in> set metadata_ipv6
          then PermanentlyForbidden
          else if ipv6_is_unique_local x then Private
          else
            (let s0 = segments x ! 0; s1 = segments x ! 1;
                 is_global_unicast = (s0 AND 0xe000 = 0x2000);
                 documentation = (s0 = 0x2001 \<and> s1 = 0x0db8);
                 ietf_special = (s0 = 0x2001 \<and> s1 < 0x0200);
                 six_to_four = (s0 = 0x2002)
             in if \<not> is_global_unicast \<or> documentation \<or> ietf_special \<or> six_to_four
                then PermanentlyForbidden else Public))"

fun classify_ip :: "ip_addr \<Rightarrow> ip_policy_class" where
  "classify_ip (V4 a) = classify_ipv4 a"
| "classify_ip (V6 a) = classify_ipv6 a"

subsection \<open>Host names and the allow list\<close>

definition normalize_connection_host :: "ustr \<Rightarrow> ustr" where
  "normalize_connection_host host =
     to_ascii_lowercase
       (case (case strip_prefix [91] host of None \<Rightarrow> None | Some v \<Rightarrow> strip_suffix [93] v) of
          None \<Rightarrow> host | Some v \<Rightarrow> v)"

definition normalize_host :: "ustr \<Rightarrow> ustr" where
  "normalize_host host = trim_end_matches (\<lambda>c. c = 46) (normalize_connection_host host)"

definition is_known_metadata_hostname :: "ustr \<Rightarrow> bool" where
  "is_known_metadata_hostname host =
     (host \<in> set [lit ''metadata'', lit ''metadata.google.internal'', lit ''metadata.goog'',
        lit ''instance-data'', lit ''instance-data.ec2.internal''])"

definition forbidden_hostname :: "ustr \<Rightarrow> bool" where
  "forbidden_hostname host =
     (host = lit ''localhost'' \<or> ends_with (lit ''.localhost'') host
      \<or> is_known_metadata_hostname host)"

definition is_valid_allowlist_hostname :: "ustr \<Rightarrow> bool" where
  "is_valid_allowlist_hostname host =
     (host \<noteq> [] \<and> byte_len host \<le> 253 \<and> 58 \<notin> set host
      \<and> \<not> starts_with [46] host \<and> \<not> ends_with [46] host
      \<and> list_all (\<lambda>label. label \<noteq> [] \<and> byte_len label \<le> 63
            \<and> list_all (\<lambda>c. is_ascii_alphanumeric c \<or> c = 45 \<or> c = 95) label
            \<and> is_ascii_alphanumeric (hd label) \<and> is_ascii_alphanumeric (last label))
          (split_by (\<lambda>c. c = 46) host))"

definition parse_allowed_host_port :: "ustr \<Rightarrow> string + ustr \<times> nat" where
  "parse_allowed_host_port value =
     (case parse_socket_addr value of
        Some address \<Rightarrow>
          if sock_port address = 0
          then Inl ''MOVA_STRM_ALLOWED_HOSTS ports must be greater than zero''
          else if classify_ip (sock_ip address) = PermanentlyForbidden
          then Inl ''MOVA_STRM_ALLOWED_HOSTS cannot allow a permanently forbidden address''
          else Inr (normalize_host (ip_text (sock_ip address)), sock_port address)
      | None \<Rightarrow>
          (case rsplit_once 58 value of
             None \<Rightarrow> Inl ''MOVA_STRM_ALLOWED_HOSTS entries must include an explicit port''
           | Some (host, port) \<Rightarrow>
               if \<not> is_valid_allowlist_hostname host
               then Inl ''MOVA_STRM_ALLOWED_HOSTS contains an invalid hostname''
               else (case opt_filter (\<lambda>p. 0 < p) (parse_u16 port) of
                       None \<Rightarrow> Inl ''MOVA_STRM_ALLOWED_HOSTS contains an invalid port''
                     | Some p \<Rightarrow>
                         let h = normalize_host host
                         in if forbidden_hostname h
                            then Inl ''MOVA_STRM_ALLOWED_HOSTS cannot allow a permanently forbidden hostname''
                            else Inr (h, p))))"

record target_policy =
  allowed_private_targets :: "(ustr \<times> nat) set"

definition parse_allowed_entry :: "ustr \<Rightarrow> string + ustr \<times> nat" where
  "parse_allowed_entry entry0 =
     (let entry = trim entry0
      in if entry = [] \<or> 42 \<in> set entry \<or> 47 \<in> set entry
         then Inl ''MOVA_STRM_ALLOWED_HOSTS entries must be exact host:port values''
         else parse_allowed_host_port entry)"

definition from_allowed_hosts :: "ustr option \<Rightarrow> string + target_policy" where
  "from_allowed_hosts value =
     (case opt_filter (\<lambda>v. v \<noteq> []) (map_option trim value) of
        None \<Rightarrow> Inr \<lparr>allowed_private_targets = {}\<rparr>
      | Some v \<Rightarrow>
          map_ok (\<lambda>targets. \<lparr>allowed_private_targets = set targets\<rparr>)
            (try_map parse_allowed_entry (split_by (\<lambda>c. c = 44) v)))"

subsection \<open>Name resolution\<close>

datatype dns_error = DnsFailed | DnsTimedOut

text \<open>What the blocking lookup under a timeout can come to.\<close>

datatype lookup_outcome =
    LookupTimedOut
  | LookupPanicked
  | LookupError
  | LookupAddresses "socket_addr list"

definition system_resolve :: "(ustr \<Rightarrow> nat \<Rightarrow> lookup_outcome) \<Rightarrow> ustr \<Rightarrow> nat \<Rightarrow> dns_error + socket_addr list" where
  "system_resolve os_lookup hostname port =
     (case os_lookup hostname port of
        LookupTimedOut \<Rightarrow> Inl DnsTimedOut
      | LookupPanicked \<Rightarrow> Inl DnsFailed
      | LookupError \<Rightarrow> Inl DnsFailed
      | LookupAddresses addresses \<Rightarrow> Inr (rev (remdups (rev addresses))))"

fun map_dns_error :: "dns_error \<Rightarrow> remote_error" where
  "map_dns_error DnsTimedOut = source_timeout"
| "map_dns_error DnsFailed = source_unavailable"

subsection \<open>Validation of one hop\<close>

record target_diagnostics =
  diag_scheme :: ustr
  diag_host_fingerprint :: ustr
  diag_port :: nat
  diag_reference_hash_prefix :: ustr

record 'u validated_target =
  vt_url :: 'u
  vt_hostname :: ustr
  vt_addresses :: "socket_addr list"
  vt_diagnostics :: target_diagnostics

fun check_addresses :: "nat \<Rightarrow> bool \<Rightarrow> socket_addr list \<Rightarrow> remote_error + unit" where
  "check_addresses port allow_private [] = Inr ()"
| "check_addresses port allow_private (a # as) =
     (if sock_port a \<noteq> port then Inl target_forbidden
      else (case classify_ip (sock_ip a) of
              Public \<Rightarrow> check_addresses port allow_private as
            | Private \<Rightarrow>
                if allow_private then check_addresses port allow_private as
                else Inl target_forbidden
            | PermanentlyForbidden \<Rightarrow> Inl target_forbidden))"

definition ip_literal :: "ustr \<Rightarrow> ip_addr option" where
  "ip_literal hostname =
     parse_ip (case (case strip_prefix [91] hostname of None \<Rightarrow> None | Some v \<Rightarrow> strip_suffix [93] v) of
                 None \<Rightarrow> hostname | Some v \<Rightarrow> v)"

definition validate_target ::
  "'u url_crate \<Rightarrow> (ustr \<Rightarrow> nat \<Rightarrow> dns_error + socket_addr list) \<Rightarrow> target_policy \<Rightarrow> 'u \<Rightarrow> ustr
     \<Rightarrow> remote_error + 'u validated_target" where
  "validate_target C resolve policy url reference_hash =
     (if MAX_STRM_URL_BYTES < byte_len (url_str C url) then Inl target_forbidden
      else if url_scheme C url \<noteq> lit ''http'' \<and> url_scheme C url \<noteq> lit ''https''
      then Inl target_forbidden
      else if url_username C url \<noteq> [] \<or> url_password C url \<noteq> None \<or> url_fragment C url \<noteq> None
      then Inl target_forbidden
      else
        and_then (ok_or target_forbidden (url_port_or_known_default C url)) (\<lambda>port.
        if port = 0 then Inl target_forbidden
        else if \<not> url_has_host C url then Inl target_forbidden
        else
          and_then (ok_or target_forbidden (url_host_str C url)) (\<lambda>host_str.
          let connection_hostname = normalize_connection_host host_str;
              policy_hostname = normalize_host connection_hostname
          in if forbidden_hostname policy_hostname then Inl target_forbidden
             else
               (let allow_private = ((policy_hostname, port) \<in> allowed_private_targets policy)
                in and_then
                     (case ip_literal connection_hostname of
                        Some address \<Rightarrow> Inr [\<lparr>sock_ip = address, sock_port = port\<rparr>]
                      | None \<Rightarrow> map_err map_dns_error (resolve connection_hostname port))
                     (\<lambda>addresses.
                        if addresses = [] then Inl source_unavailable
                        else
                          and_then (check_addresses port allow_private addresses) (\<lambda>_.
                          Inr \<lparr>vt_url = url,
                               vt_hostname = connection_hostname,
                               vt_addresses = addresses,
                               vt_diagnostics =
                                 \<lparr>diag_scheme = url_scheme C url,
                                  diag_host_fingerprint = take 12 (sha256_hex C policy_hostname),
                                  diag_port = port,
                                  diag_reference_hash_prefix = take 8 reference_hash\<rparr>\<rparr>))))))"

subsection \<open>The IPv4 classes against an address-block table\<close>

text \<open>
  The special-purpose blocks the code spells out octet by octet, written as address blocks
  of the 32-bit address space. The class of an address is a table look-up with the
  forbidden blocks first.
\<close>

definition quad :: "nat \<Rightarrow> nat \<Rightarrow> nat \<Rightarrow> nat \<Rightarrow> nat" where
  "quad a b c d = a * 2 ^ 24 + b * 2 ^ 16 + c * 2 ^ 8 + d"

fun ipv4_value :: "ipv4 \<Rightarrow> nat" where
  "ipv4_value (Ipv4 a b c d) = quad (unat a) (unat b) (unat c) (unat d)"
text \<open>\<open>(a, b, c, d, n)\<close> is the block \<open>a.b.c.d/n\<close>.\<close>

type_synonym cidr = "nat \<times> nat \<times> nat \<times> nat \<times> nat"

fun in_cidr :: "nat \<Rightarrow> cidr \<Rightarrow> bool" where
  "in_cidr v (a, b, c, d, n) = (v div 2 ^ (32 - n) = quad a b c d div 2 ^ (32 - n))"

definition forbidden_blocks :: "cidr list" where
  "forbidden_blocks =
     [(0, 0, 0, 0, 8), (127, 0, 0, 0, 8), (169, 254, 0, 0, 16), (224, 0, 0, 0, 3),
      (100, 100, 100, 200, 32), (168, 63, 129, 16, 32), (192, 0, 0, 0, 24), (192, 0, 2, 0, 24),
      (192, 88, 99, 0, 24), (198, 18, 0, 0, 15), (198, 51, 100, 0, 24), (203, 0, 113, 0, 24)]"

definition private_blocks :: "cidr list" where
  "private_blocks = [(10, 0, 0, 0, 8), (172, 16, 0, 0, 12), (192, 168, 0, 0, 16), (100, 64, 0, 0, 10)]"

definition class_by_table :: "nat \<Rightarrow> ip_policy_class" where
  "class_by_table v =
     (if list_ex (in_cidr v) forbidden_blocks then PermanentlyForbidden
      else if list_ex (in_cidr v) private_blocks then Private
      else Public)"

lemma quad_div:
  assumes "a < 256" "b < 256" "c < 256" "d < 256"
  shows
    "quad a b c d div 536870912 = a div 32"
    "quad a b c d div 16777216 = a"
    "quad a b c d div 4194304 = (a * 256 + b) div 64"
    "quad a b c d div 1048576 = (a * 256 + b) div 16"
    "quad a b c d div 131072 = (a * 256 + b) div 2"
    "quad a b c d div 65536 = a * 256 + b"
    "quad a b c d div 256 = a * 65536 + b * 256 + c"
  using assms by (simp_all add: quad_def)

lemma quad_inj:
  assumes "a < 256" "b < 256" "c < 256" "d < 256" "a' < 256" "b' < 256" "c' < 256" "d' < 256"
  shows "quad a b c d = quad a' b' c' d' \<longleftrightarrow> a = a' \<and> b = b' \<and> c = c' \<and> d = d'"
proof
  assume eq: "quad a b c d = quad a' b' c' d'"
  have "a = a'"
    using quad_div(2) [OF assms(1-4)] quad_div(2) [OF assms(5-8)] eq by simp
  moreover have "a * 256 + b = a' * 256 + b'"
    using quad_div(6) [OF assms(1-4)] quad_div(6) [OF assms(5-8)] eq by simp
  moreover have "a * 65536 + b * 256 + c = a' * 65536 + b' * 256 + c'"
    using quad_div(7) [OF assms(1-4)] quad_div(7) [OF assms(5-8)] eq by simp
  ultimately show "a = a' \<and> b = b' \<and> c = c' \<and> d = d'"
    using eq by (simp add: quad_def)
qed simp

lemma div_eq_range: "0 < k \<Longrightarrow> n div k = (q::nat) \<longleftrightarrow> q * k \<le> n \<and> n < q * k + k"
  by (metis add.commute add_less_cancel_left div_nat_eqI dividend_less_times_div le_add1
      mult.commute mult_Suc times_div_less_eq_dividend)

lemma base256:
  fixes a b x y :: nat
  assumes "b < 256" "y < 256"
  shows "a * 256 + b = x * 256 + y \<longleftrightarrow> a = x \<and> b = y"
proof
  assume eq: "a * 256 + b = x * 256 + y"
  have "(a * 256 + b) div 256 = (x * 256 + y) div 256" "(a * 256 + b) mod 256 = (x * 256 + y) mod 256"
    unfolding eq by (rule refl)+
  with assms show "a = x \<and> b = y" by simp
qed simp

lemma base256_3:
  fixes a b c x y z :: nat
  assumes "b < 256" "c < 256" "y < 256" "z < 256"
  shows "a * 65536 + b * 256 + c = x * 65536 + y * 256 + z \<longleftrightarrow> a = x \<and> b = y \<and> c = z"
  using base256 [of c z "a * 256 + b" "x * 256 + y"] base256 [of b y a x] assms by (simp add: mult.commute)

lemma base256_range:
  fixes a b x l h :: nat
  assumes "b < 256" "l < 256" "h \<le> 256"
  shows "x * 256 + l \<le> a * 256 + b \<and> a * 256 + b < x * 256 + h \<longleftrightarrow> a = x \<and> l \<le> b \<and> b < h"
  using assms by (cases a x rule: linorder_cases) auto

lemma in_cidr_octets:
  assumes "a < 256" "b < 256" "c < 256" "d < 256"
  shows
    "x < 256 \<Longrightarrow> in_cidr (quad a b c d) (x, 0, 0, 0, 8) \<longleftrightarrow> a = x"
    "in_cidr (quad a b c d) (224, 0, 0, 0, 3) \<longleftrightarrow> 224 \<le> a"
    "in_cidr (quad a b c d) (172, 16, 0, 0, 12) \<longleftrightarrow> a = 172 \<and> 16 \<le> b \<and> b \<le> 31"
    "in_cidr (quad a b c d) (100, 64, 0, 0, 10) \<longleftrightarrow> a = 100 \<and> 64 \<le> b \<and> b \<le> 127"
    "in_cidr (quad a b c d) (198, 18, 0, 0, 15) \<longleftrightarrow> a = 198 \<and> (b = 18 \<or> b = 19)"
    "x < 256 \<Longrightarrow> y < 256 \<Longrightarrow> in_cidr (quad a b c d) (x, y, 0, 0, 16) \<longleftrightarrow> a = x \<and> b = y"
    "x < 256 \<Longrightarrow> y < 256 \<Longrightarrow> z < 256 \<Longrightarrow>
       in_cidr (quad a b c d) (x, y, z, 0, 24) \<longleftrightarrow> a = x \<and> b = y \<and> c = z"
    "x < 256 \<Longrightarrow> y < 256 \<Longrightarrow> z < 256 \<Longrightarrow> w < 256 \<Longrightarrow>
       in_cidr (quad a b c d) (x, y, z, w, 32) \<longleftrightarrow> a = x \<and> b = y \<and> c = z \<and> d = w"
  subgoal using assms by (simp add: quad_div)
  subgoal using assms by (simp add: quad_div div_eq_range)
  subgoal using assms base256_range [of b 16 32 172 a] by (simp add: quad_div div_eq_range) linarith
  subgoal using assms base256_range [of b 64 128 100 a] by (simp add: quad_div div_eq_range) linarith
  subgoal using assms base256_range [of b 18 20 198 a] by (simp add: quad_div div_eq_range) linarith
  subgoal using assms by (simp add: quad_div base256)
  subgoal using assms by (simp add: quad_div base256_3)
  subgoal using assms by (simp add: quad_inj)
  done

lemma class_by_table_quad:
  assumes "a < 256" "b < 256" "c < 256" "d < 256"
  shows "class_by_table (quad a b c d) =
    (if a = 0 \<or> a = 127 \<or> a = 169 \<and> b = 254 \<or> 224 \<le> a
        \<or> a = 100 \<and> b = 100 \<and> c = 100 \<and> d = 200 \<or> a = 168 \<and> b = 63 \<and> c = 129 \<and> d = 16
        \<or> a = 192 \<and> b = 0 \<and> c = 0 \<or> a = 192 \<and> b = 0 \<and> c = 2 \<or> a = 192 \<and> b = 88 \<and> c = 99
        \<or> a = 198 \<and> (b = 18 \<or> b = 19) \<or> a = 198 \<and> b = 51 \<and> c = 100
        \<or> a = 203 \<and> b = 0 \<and> c = 113
     then PermanentlyForbidden
     else if a = 10 \<or> a = 172 \<and> 16 \<le> b \<and> b \<le> 31 \<or> a = 192 \<and> b = 168
        \<or> a = 100 \<and> 64 \<le> b \<and> b \<le> 127
     then Private else Public)"
  using assms by (simp del: in_cidr.simps add: class_by_table_def forbidden_blocks_def
      private_blocks_def in_cidr_octets)


text \<open>
  The octet tests of \<open>classify_ipv4\<close> are exactly the look-up in the table of
  special-purpose blocks: an address is \<open>Public\<close> only outside every block, and the
  forbidden blocks (loopback, link-local with the cloud metadata address, multicast and
  reserved space, documentation and benchmark networks) win over the private ones.
\<close>

theorem classify_ipv4_by_table: "classify_ipv4 a = class_by_table (ipv4_value a)"
proof -
  obtain x y z w where a: "a = Ipv4 x y z w" by (cases a)
  have lt: "unat (t :: u8) < 256" for t using unsigned_less [of t] by simp
  have eq: "ipv4_value a = quad (unat x) (unat y) (unat z) (unat w)"
    by (simp add: a)
  show ?thesis
    unfolding eq class_by_table_quad [OF lt lt lt lt]
    by (simp add: a word_le_nat_alt word_unat_eq_iff)
qed

definition ipv4_to_mapped :: "ipv4 \<Rightarrow> ipv6" where
  "ipv4_to_mapped a =
     (case a of Ipv4 x y z w \<Rightarrow>
        Ipv6 0 0 0 0 0 0xffff (push_bit 8 (ucast x) OR ucast y) (push_bit 8 (ucast z) OR ucast w))"

lemma octets_of_segment:
  "hi_octet (push_bit 8 (ucast (x :: u8)) OR ucast (y :: u8)) = x"
  "lo_octet (push_bit 8 (ucast (x :: u8)) OR ucast (y :: u8)) = y"
  by (rule bit_word_eqI, auto simp: hi_octet_def lo_octet_def bit_simps dest: bit_imp_le_length)+

lemma to_ipv4_mapped_roundtrip: "to_ipv4_mapped (ipv4_to_mapped a) = Some a"
  by (cases a) (simp add: ipv4_to_mapped_def octets_of_segment)

text \<open>
  An IPv4 address written in the IPv4-mapped IPv6 form gets the class of the IPv4
  address: the mapped notation is no way round the IPv4 blocks.
\<close>

theorem classify_mapped: "classify_ip (V6 (ipv4_to_mapped a)) = classify_ip (V4 a)"
  by (simp add: classify_ipv6_def to_ipv4_mapped_roundtrip)

subsection \<open>Validated targets\<close>

lemma check_addresses_iff:
  "check_addresses port allow as = Inr () \<longleftrightarrow>
     (\<forall>a \<in> set as. sock_port a = port \<and> classify_ip (sock_ip a) \<le> (if allow then Private else Public))"
  by (induction as)
    (auto simp: less_eq_ip_policy_class_def split: ip_policy_class.splits)

lemma check_addresses_err: "check_addresses port allow as = Inl e \<Longrightarrow> e = target_forbidden"
  by (induction as) (auto split: ip_policy_class.splits if_splits)

text \<open>
  What the streaming client may rely on: the abstract contract of a validated hop. The
  limit is \<open>Private\<close> only for a host and port pair that the operator listed.
\<close>

definition target_admissible :: "target_policy \<Rightarrow> 'u url_crate \<Rightarrow> 'u validated_target \<Rightarrow> bool" where
  "target_admissible policy C t \<longleftrightarrow>
     (let port = diag_port (vt_diagnostics t);
          host = normalize_host (vt_hostname t);
          limit = (if (host, port) \<in> allowed_private_targets policy then Private else Public)
      in url_scheme C (vt_url t) \<in> {lit ''http'', lit ''https''}
         \<and> url_username C (vt_url t) = [] \<and> url_password C (vt_url t) = None
         \<and> url_fragment C (vt_url t) = None
         \<and> byte_len (url_str C (vt_url t)) \<le> MAX_STRM_URL_BYTES
         \<and> 0 < port \<and> url_port_or_known_default C (vt_url t) = Some port
         \<and> \<not> forbidden_hostname host
         \<and> vt_addresses t \<noteq> []
         \<and> (\<forall>a \<in> set (vt_addresses t). sock_port a = port \<and> classify_ip (sock_ip a) \<le> limit))"

lemma validate_target_admissible:
  assumes "validate_target C resolve policy url h = Inr t"
  shows "vt_url t = url \<and> target_admissible policy C t"
  using assms
  by (auto simp: validate_target_def target_admissible_def Let_def check_addresses_iff result_simps
      split: if_splits)

text \<open>
  C2. Whatever URL and name resolver it is given, \<open>validate\<close> only returns targets that meet
  the contract: an http(s) URL without credentials and fragment, no local or metadata host
  name, and at least one address, every one of them public, or private for an allow-listed
  host and port, and never in a forbidden block.
\<close>

theorem validate_target_sound:
  assumes "validate_target C resolve policy url h = Inr t"
  shows "vt_url t = url \<and> target_admissible policy C t"
  using assms by (rule validate_target_admissible)

text \<open>
  An instance of the crate interface for the worked examples: a URL is its scheme, host and
  port, and joining a location replaces the host.
\<close>

definition demo_crate :: "(ustr \<times> ustr \<times> nat) url_crate" where
  "demo_crate =
     \<lparr>url_str = (\<lambda>(s, h, p). s @ [58, 47, 47] @ h), url_scheme = (\<lambda>(s, h, p). s),
      url_username = (\<lambda>_. []), url_password = (\<lambda>_. None), url_fragment = (\<lambda>_. None),
      url_port_or_known_default = (\<lambda>(s, h, p). Some p), url_has_host = (\<lambda>_. True),
      url_host_str = (\<lambda>(s, h, p). Some h),
      url_parse = (\<lambda>t. map_option (\<lambda>(s, h). (s, h, 80)) (split_once_str [58, 47, 47] t)),
      url_join = (\<lambda>(s, h, p) loc. if loc = [] then None else Some (s, loc, p)),
      sha256_hex = (\<lambda>t. t)\<rparr>"

lemmas policy_eval = validate_target_def normalize_host_def normalize_connection_host_def
  forbidden_hostname_def is_known_metadata_hostname_def ip_literal_def MAX_STRM_URL_BYTES_def
  classify_ipv6_def metadata_ipv6_def

lemma validate_demo:
  "validate_target demo_crate (\<lambda>_ _. Inl DnsFailed) \<lparr>allowed_private_targets = {(lit ''10.0.0.5'', 8096)}\<rparr>
     (lit ''http'', lit ''10.0.0.5'', 8096) (lit ''abc'') =
   Inr \<lparr>vt_url = (lit ''http'', lit ''10.0.0.5'', 8096), vt_hostname = lit ''10.0.0.5'',
        vt_addresses = [\<lparr>sock_ip = V4 (Ipv4 10 0 0 5), sock_port = 8096\<rparr>],
        vt_diagnostics = \<lparr>diag_scheme = lit ''http'', diag_host_fingerprint = lit ''10.0.0.5'',
           diag_port = 8096, diag_reference_hash_prefix = lit ''abc''\<rparr>\<rparr>"
  by (simp add: policy_eval demo_crate_def net_eval str_eval Let_def)

theorem validate_target_sound_witness:
  "\<exists>t. validate_target demo_crate (\<lambda>_ _. Inl DnsFailed)
         \<lparr>allowed_private_targets = {(lit ''10.0.0.5'', 8096)}\<rparr>
         (lit ''http'', lit ''10.0.0.5'', 8096) (lit ''abc'') = Inr t
       \<and> target_admissible \<lparr>allowed_private_targets = {(lit ''10.0.0.5'', 8096)}\<rparr> demo_crate t"
  using validate_target_sound [OF validate_demo] validate_demo by blast

subsection \<open>The allow list\<close>

lemma parse_allowed_host_port_ok:
  assumes "parse_allowed_host_port v = Inr (h, p)"
  shows "0 < p \<and> (parse_socket_addr v = None \<longrightarrow> \<not> forbidden_hostname h)
    \<and> (\<forall>a. parse_socket_addr v = Some a \<longrightarrow>
          p = sock_port a \<and> classify_ip (sock_ip a) \<le> Private \<and> h = normalize_host (ip_text (sock_ip a)))"
  using assms
  by (cases "classify_ip (sock_ip (the (parse_socket_addr v)))")
    (auto simp: parse_allowed_host_port_def Let_def result_simps less_eq_ip_policy_class_def
      split: option.splits if_splits)


lemma trim_no_comma: "44 \<notin> set e \<Longrightarrow> 44 \<notin> set (trim e)"
  using trim_set by blast

definition entry_admissible :: "ustr \<times> nat \<Rightarrow> bool" where
  "entry_admissible e \<longleftrightarrow>
     0 < snd e \<and>
     (\<not> forbidden_hostname (fst e)
      \<or> (\<exists>a. classify_ip a \<le> Private \<and> fst e = normalize_host (ip_text a)))"

text \<open>
  Parsing \<open>MOVA_STRM_ALLOWED_HOSTS\<close> accepts only pairs with a positive port and either a
  host that is no local or metadata name, or the printed form of an address outside the
  forbidden blocks.
\<close>

theorem from_allowed_hosts_sound:
  assumes "from_allowed_hosts v = Inr policy" and "e \<in> allowed_private_targets policy"
  shows "entry_admissible e"
proof -
  obtain t where "parse_allowed_entry t = Inr e"
    using assms by (auto simp: from_allowed_hosts_def map_ok_eq_Inr opt_filter_eq_Some
        split: option.splits dest: try_map_ok_mem)
  then have "parse_allowed_host_port (trim t) = Inr (fst e, snd e)"
    by (auto simp: parse_allowed_entry_def Let_def split: if_splits)
  from parse_allowed_host_port_ok [OF this] show ?thesis
    by (cases "parse_socket_addr (trim t)") (auto simp: entry_admissible_def)
qed

theorem from_allowed_hosts_sound_witness:
  "from_allowed_hosts (Some (lit ''nas.lan:8096'')) =
     Inr \<lparr>allowed_private_targets = {(lit ''nas.lan'', 8096)}\<rparr>
   \<and> entry_admissible (lit ''nas.lan'', 8096)"
proof -
  have ok: "from_allowed_hosts (Some (lit ''nas.lan:8096'')) =
      Inr \<lparr>allowed_private_targets = {(lit ''nas.lan'', 8096)}\<rparr>"
    by (simp add: from_allowed_hosts_def parse_allowed_entry_def parse_allowed_host_port_def
        is_valid_allowlist_hostname_def policy_eval net_eval str_eval)
  then show ?thesis using from_allowed_hosts_sound [OF ok, of "(lit ''nas.lan'', 8096)"] by simp
qed

text \<open>
  The check of forbidden address literals can be sidestepped in the configuration: with
  the port written \<open>+80\<close> the entry is no socket address but a host name and a number that
  \<open>u16::from_str\<close> accepts, so the metadata address is listed. Validation of a hop still
  refuses the address, since its class is looked up again.
\<close>

theorem plus_port_is_accepted:
  "from_allowed_hosts (Some (lit ''169.254.169.254:80'')) =
     Inl ''MOVA_STRM_ALLOWED_HOSTS cannot allow a permanently forbidden address''
   \<and> from_allowed_hosts (Some (lit ''169.254.169.254:+80'')) =
     Inr \<lparr>allowed_private_targets = {(lit ''169.254.169.254'', 80)}\<rparr>
   \<and> check_addresses 80 True [\<lparr>sock_ip = V4 (Ipv4 169 254 169 254), sock_port = 80\<rparr>] = Inl target_forbidden"
  by (intro conjI; simp add: from_allowed_hosts_def parse_allowed_entry_def
      parse_allowed_host_port_def is_valid_allowlist_hostname_def policy_eval net_eval str_eval)

end
