(* ===== verification/Stream_Limits.thy ===== *)
theory Stream_Limits
  imports Remote_Errors
begin

text \<open>
  Admission control of remote streams (\<open>remote_stream/limits.rs\<close>): one global semaphore,
  and one semaphore per user that the shared map only holds weakly. A semaphore of the map
  lives as long as a permit, or a call that has just looked it up, holds a strong
  reference to it. The steps of concurrent \<open>try_acquire\<close> calls interleave: the look-up
  runs under the mutex, the two permit acquisitions after it do not.

  Tokio's semaphore enters by its documented behaviour: a counter of available permits,
  \<open>try_acquire_owned\<close> takes one or fails at zero, and dropping a permit gives it back.
\<close>

subsection \<open>State\<close>

type_synonym sem_id = nat
type_synonym call_id = nat

text \<open>How far a call has come, and what it holds; every stage keeps the \<open>Arc\<close> alive.\<close>

datatype call =
    LookedUp int sem_id
  | HasUserPermit int sem_id
  | Streaming int sem_id

fun call_user :: "call \<Rightarrow> int" where
  "call_user (LookedUp u s) = u"
| "call_user (HasUserPermit u s) = u"
| "call_user (Streaming u s) = u"

fun call_sem :: "call \<Rightarrow> sem_id" where
  "call_sem (LookedUp u s) = s"
| "call_sem (HasUserPermit u s) = s"
| "call_sem (Streaming u s) = s"

fun holds_user_permit :: "call \<Rightarrow> bool" where
  "holds_user_permit (LookedUp u s) = False"
| "holds_user_permit (HasUserPermit u s) = True"
| "holds_user_permit (Streaming u s) = True"

fun holds_global_permit :: "call \<Rightarrow> bool" where
  "holds_global_permit (Streaming u s) = True"
| "holds_global_permit _ = False"

record limits =
  global_limit :: nat
  per_user_limit :: nat
  global_available :: nat
  users :: "int \<Rightarrow> sem_id option"
  sem_available :: "sem_id \<Rightarrow> nat"
  calls :: "(call_id \<times> call) list"
  next_sem :: sem_id

text \<open>\<open>RemoteStreamLimits::new\<close>; the two assertions reject a zero limit.\<close>

definition limits_new :: "nat \<Rightarrow> nat \<Rightarrow> limits option" where
  "limits_new global per_user =
     (if 0 < global \<and> 0 < per_user
      then Some \<lparr>global_limit = global, per_user_limit = per_user, global_available = global,
                 users = (\<lambda>_. None), sem_available = (\<lambda>_. 0), calls = [], next_sem = 0\<rparr>
      else None)"

definition DEFAULT_GLOBAL_STREAM_LIMIT :: nat where
  "DEFAULT_GLOBAL_STREAM_LIMIT = 64"

definition DEFAULT_PER_USER_STREAM_LIMIT :: nat where
  "DEFAULT_PER_USER_STREAM_LIMIT = 4"

subsection \<open>Steps\<close>

definition strong_count :: "limits \<Rightarrow> sem_id \<Rightarrow> nat" where
  "strong_count l s = length (List.filter (\<lambda>(c, k). call_sem k = s) (calls l))"

text \<open>\<open>users.retain(|_, semaphore| semaphore.strong_count() > 0)\<close>\<close>

definition retain_live :: "limits \<Rightarrow> limits" where
  "retain_live l = l\<lparr>users := (\<lambda>u. opt_filter (\<lambda>s. 0 < strong_count l s) (users l u))\<rparr>"

text \<open>
  The block under the mutex: drop dead entries, then upgrade the user's entry or put a new
  semaphore with all its permits there. The call holds the strong reference afterwards.
\<close>

definition lookup_user :: "limits \<Rightarrow> int \<Rightarrow> limits \<times> sem_id" where
  "lookup_user l0 u =
     (let l = retain_live l0
      in case users l u of
           Some s \<Rightarrow> (l, s)
         | None \<Rightarrow>
             (l\<lparr>users := (users l)(u := Some (next_sem l)),
                sem_available := (sem_available l)(next_sem l := per_user_limit l),
                next_sem := Suc (next_sem l)\<rparr>, next_sem l))"

definition set_call :: "limits \<Rightarrow> call_id \<Rightarrow> call \<Rightarrow> limits" where
  "set_call l c k = l\<lparr>calls := map (\<lambda>(c', k'). if c' = c then (c', k) else (c', k')) (calls l)\<rparr>"

definition end_call :: "limits \<Rightarrow> call_id \<Rightarrow> limits" where
  "end_call l c = l\<lparr>calls := List.filter (\<lambda>(c', k). c' \<noteq> c) (calls l)\<rparr>"

text \<open>A call enters and looks its user up.\<close>

definition begin_acquire :: "limits \<Rightarrow> call_id \<Rightarrow> int \<Rightarrow> limits" where
  "begin_acquire l c u =
     (case lookup_user l u of (l', s) \<Rightarrow> l'\<lparr>calls := (c, LookedUp u s) # calls l'\<rparr>)"

text \<open>\<open>user.try_acquire_owned()\<close>: on failure the reference goes with the call.\<close>

definition acquire_user :: "limits \<Rightarrow> call_id \<Rightarrow> int \<Rightarrow> sem_id \<Rightarrow> remote_error_kind + limits" where
  "acquire_user l c u s =
     (if 0 < sem_available l s
      then Inr ((set_call l c (HasUserPermit u s))
             \<lparr>sem_available := (sem_available l)(s := sem_available l s - 1)\<rparr>)
      else Inl UserLimitExceeded)"

definition release_user :: "limits \<Rightarrow> sem_id \<Rightarrow> limits" where
  "release_user l s = l\<lparr>sem_available := (sem_available l)(s := Suc (sem_available l s))\<rparr>"

text \<open>\<open>self.global.clone().try_acquire_owned()\<close>: on failure the user permit is dropped.\<close>

definition acquire_global :: "limits \<Rightarrow> call_id \<Rightarrow> int \<Rightarrow> sem_id \<Rightarrow> remote_error_kind + limits" where
  "acquire_global l c u s =
     (if 0 < global_available l
      then Inr ((set_call l c (Streaming u s))\<lparr>global_available := global_available l - 1\<rparr>)
      else Inl CapacityExhausted)"

text \<open>Dropping a \<open>RemoteStreamPermit\<close> gives both permits back.\<close>

definition drop_permit :: "limits \<Rightarrow> call_id \<Rightarrow> sem_id \<Rightarrow> limits" where
  "drop_permit l c s = (release_user (end_call l c) s)\<lparr>global_available := Suc (global_available l)\<rparr>"

inductive limits_step :: "limits \<Rightarrow> limits \<Rightarrow> bool" where
  enter: "c \<notin> fst ` set (calls l) \<Longrightarrow> limits_step l (begin_acquire l c u)"
| user_ok: "(c, LookedUp u s) \<in> set (calls l) \<Longrightarrow> acquire_user l c u s = Inr l' \<Longrightarrow> limits_step l l'"
| user_full: "(c, LookedUp u s) \<in> set (calls l) \<Longrightarrow> acquire_user l c u s = Inl e \<Longrightarrow>
    limits_step l (end_call l c)"
| global_ok: "(c, HasUserPermit u s) \<in> set (calls l) \<Longrightarrow> acquire_global l c u s = Inr l' \<Longrightarrow>
    limits_step l l'"
| global_full: "(c, HasUserPermit u s) \<in> set (calls l) \<Longrightarrow> acquire_global l c u s = Inl e \<Longrightarrow>
    limits_step l (release_user (end_call l c) s)"
| finish: "(c, Streaming u s) \<in> set (calls l) \<Longrightarrow> limits_step l (drop_permit l c s)"

inductive limits_reachable :: "nat \<Rightarrow> nat \<Rightarrow> limits \<Rightarrow> bool" for g p where
  start: "limits_new g p = Some l \<Longrightarrow> limits_reachable g p l"
| step: "limits_reachable g p l \<Longrightarrow> limits_step l l' \<Longrightarrow> limits_reachable g p l'"

text \<open>The whole call run without interleaving: \<open>try_acquire\<close>.\<close>

definition try_acquire :: "limits \<Rightarrow> call_id \<Rightarrow> int \<Rightarrow> limits \<times> (remote_error_kind + sem_id)" where
  "try_acquire l0 c u =
     (let l = begin_acquire l0 c u; s = snd (lookup_user l0 u)
      in case acquire_user l c u s of
           Inl e \<Rightarrow> (end_call l c, Inl e)
         | Inr l1 \<Rightarrow>
             (case acquire_global l1 c u s of
                Inl e \<Rightarrow> (release_user (end_call l1 c) s, Inl e)
              | Inr l2 \<Rightarrow> (l2, Inr s)))"

subsection \<open>Counting permits\<close>

definition count_calls :: "(call \<Rightarrow> bool) \<Rightarrow> limits \<Rightarrow> nat" where
  "count_calls P l = length (List.filter (\<lambda>(c, k). P k) (calls l))"

abbreviation user_permits :: "limits \<Rightarrow> sem_id \<Rightarrow> nat" where
  "user_permits l s \<equiv> count_calls (\<lambda>k. call_sem k = s \<and> holds_user_permit k) l"

abbreviation global_permits :: "limits \<Rightarrow> nat" where
  "global_permits l \<equiv> count_calls holds_global_permit l"

text \<open>The concurrent streams of a user, and of the server.\<close>

definition user_streams :: "limits \<Rightarrow> int \<Rightarrow> nat" where
  "user_streams l u = count_calls (\<lambda>k. call_user k = u \<and> holds_global_permit k) l"

definition total_streams :: "limits \<Rightarrow> nat" where
  "total_streams l = global_permits l"

text \<open>
  The invariant: call names are distinct; every permit taken from a semaphore is held by
  some call; and all calls of one user use one semaphore, the one the map still names,
  because the map keeps every semaphore that a call refers to.
\<close>

definition limits_inv :: "limits \<Rightarrow> bool" where
  "limits_inv l \<longleftrightarrow>
     distinct (map fst (calls l))
     \<and> (\<forall>(c, k) \<in> set (calls l). users l (call_user k) = Some (call_sem k))
     \<and> (\<forall>u s. users l u = Some s \<longrightarrow> s < next_sem l)
     \<and> (\<forall>u u' s. users l u = Some s \<longrightarrow> users l u' = Some s \<longrightarrow> u = u')
     \<and> (\<forall>u s. users l u = Some s \<longrightarrow> sem_available l s + user_permits l s = per_user_limit l)
     \<and> global_available l + global_permits l = global_limit l"

lemma count_map_update:
  assumes "distinct (map fst xs)" and "(c, k) \<in> set xs"
  shows "length (List.filter (\<lambda>(c, k). P k) (map (\<lambda>(c', k'). if c' = c then (c', k1) else (c', k')) xs))
      + (if P k then 1 else 0)
    = length (List.filter (\<lambda>(c, k). P k) xs) + (if P k1 then 1 else 0)"
  using assms
proof (induction xs)
  case (Cons x xs)
  show ?case
  proof (cases "fst x = c")
    case True
    with Cons.prems have "x = (c, k)" and notin: "c \<notin> fst ` set xs"
      by (auto simp: rev_image_eqI)
    have "map (\<lambda>(c', k'). if c' = c then (c', k1) else (c', k')) xs = xs"
      using notin by (intro map_idI) force
    with \<open>x = (c, k)\<close> show ?thesis by simp
  next
    case False
    with Cons show ?thesis by (cases x) auto
  qed
qed simp

lemma count_filter_remove:
  assumes "distinct (map fst xs)" and "(c, k) \<in> set xs"
  shows "length (List.filter (\<lambda>(c, k). P k) (List.filter (\<lambda>(c', k). c' \<noteq> c) xs)) + (if P k then 1 else 0)
    = length (List.filter (\<lambda>(c, k). P k) xs)"
  using assms
proof (induction xs)
  case (Cons x xs)
  show ?case
  proof (cases "fst x = c")
    case True
    with Cons.prems have "x = (c, k)" and notin: "c \<notin> fst ` set xs"
      by (auto simp: rev_image_eqI)
    have "List.filter (\<lambda>(c', k). c' \<noteq> c) xs = xs"
      using notin by (intro filter_True) force
    with \<open>x = (c, k)\<close> show ?thesis by simp
  next
    case False
    with Cons show ?thesis by (cases x) auto
  qed
qed simp

lemma count_set_call:
  assumes "distinct (map fst (calls l))" and "(c, k) \<in> set (calls l)"
  shows "count_calls P (set_call l c k1) + (if P k then 1 else 0) = count_calls P l + (if P k1 then 1 else 0)"
  using count_map_update [OF assms] by (simp add: count_calls_def set_call_def)

lemma count_end_call:
  assumes "distinct (map fst (calls l))" and "(c, k) \<in> set (calls l)"
  shows "count_calls P (end_call l c) + (if P k then 1 else 0) = count_calls P l"
  using count_filter_remove [OF assms] by (simp add: count_calls_def end_call_def)

lemma count_mono:
  assumes "\<And>c k. (c, k) \<in> set (calls l) \<Longrightarrow> P k \<Longrightarrow> Q k"
  shows "count_calls P l \<le> count_calls Q l"
proof -
  have "length (List.filter (\<lambda>(c, k). P k) xs) \<le> length (List.filter (\<lambda>(c, k). Q k) xs)"
    if "set xs \<subseteq> set (calls l)" for xs
    using that by (induction xs) (auto simp: assms)
  then show ?thesis by (simp add: count_calls_def)
qed

lemma count_cong_calls: "calls l = calls l' \<Longrightarrow> count_calls P l = count_calls P l'"
  by (simp add: count_calls_def)

lemma count_pos: "(c, k) \<in> set (calls l) \<Longrightarrow> P k \<Longrightarrow> 0 < count_calls P l"
  by (auto simp: count_calls_def filter_empty_conv)

lemma strong_count_pos: "(c, k) \<in> set (calls l) \<Longrightarrow> 0 < strong_count l (call_sem k)"
  by (auto simp: strong_count_def filter_empty_conv)

lemma fst_set_call: "map fst (calls (set_call l c k)) = map fst (calls l)"
  by (auto simp: set_call_def)

lemma set_set_call: "(c', k') \<in> set (calls (set_call l c k)) \<Longrightarrow> k' = k \<or> (c', k') \<in> set (calls l)"
  by (auto simp: set_call_def split: if_splits)

lemma set_end_call: "(c', k') \<in> set (calls (end_call l c)) \<Longrightarrow> (c', k') \<in> set (calls l)"
  by (auto simp: end_call_def)

lemma distinct_end_call: "distinct (map fst (calls l)) \<Longrightarrow> distinct (map fst (calls (end_call l c)))"
  by (simp add: end_call_def distinct_map_filter)

subsection \<open>The invariant\<close>

lemma limits_invD:
  assumes "limits_inv l"
  shows "distinct (map fst (calls l))"
    and "\<And>c k. (c, k) \<in> set (calls l) \<Longrightarrow> users l (call_user k) = Some (call_sem k)"
    and "\<And>u s. users l u = Some s \<Longrightarrow> s < next_sem l"
    and "\<And>u u' s. users l u = Some s \<Longrightarrow> users l u' = Some s \<Longrightarrow> u = u'"
    and "\<And>u s. users l u = Some s \<Longrightarrow> sem_available l s + user_permits l s = per_user_limit l"
    and "global_available l + global_permits l = global_limit l"
  using assms unfolding limits_inv_def by blast+

text \<open>
  All steps after the look-up leave the map alone: what is left to show of the invariant is
  the shape of the calls and the two balances.
\<close>

lemma limits_inv_frame:
  assumes inv: "limits_inv l"
    and frame: "users l' = users l" "next_sem l' = next_sem l"
      "per_user_limit l' = per_user_limit l" "global_limit l' = global_limit l"
    and shape: "distinct (map fst (calls l'))"
      "\<And>c k. (c, k) \<in> set (calls l') \<Longrightarrow> users l (call_user k) = Some (call_sem k)"
    and balance: "\<And>u s. users l u = Some s \<Longrightarrow>
        sem_available l' s + user_permits l' s = sem_available l s + user_permits l s"
      "global_available l' + global_permits l' = global_available l + global_permits l"
  shows "limits_inv l'"
  unfolding limits_inv_def frame
  using limits_invD(3-6) [OF inv] shape balance by (auto 0 3)

lemma limits_new_inv: "limits_new g p = Some l \<Longrightarrow> limits_inv l"
  by (auto simp: limits_new_def limits_inv_def count_calls_def split: if_splits)

lemma retain_live_inv:
  assumes "limits_inv l"
  shows "limits_inv (retain_live l)"
proof -
  let ?r = "retain_live l"
  note D = limits_invD [OF assms]
  have cnt: "count_calls P ?r = count_calls P l" for P
    by (rule count_cong_calls) (simp add: retain_live_def)
  have kept: "users ?r u = Some s \<Longrightarrow> users l u = Some s" for u s
    by (simp add: retain_live_def opt_filter_eq_Some)
  have frame: "calls ?r = calls l" "next_sem ?r = next_sem l" "sem_available ?r = sem_available l"
    "per_user_limit ?r = per_user_limit l" "global_available ?r = global_available l"
    "global_limit ?r = global_limit l"
    by (simp_all add: retain_live_def)
  have call: "users ?r (call_user k) = Some (call_sem k)" if "(c, k) \<in> set (calls l)" for c k
    using D(2) [OF that] strong_count_pos [OF that] by (simp add: retain_live_def)
  show ?thesis
    unfolding limits_inv_def cnt frame
  proof (intro conjI)
    show "\<forall>(c, k) \<in> set (calls l). users ?r (call_user k) = Some (call_sem k)" using call by blast
    show "\<forall>u u' s. users ?r u = Some s \<longrightarrow> users ?r u' = Some s \<longrightarrow> u = u'"
      using D(4) kept by blast
  qed (use D(1,3,5,6) kept in blast)+
qed

lemma fresh_sem_no_permits:
  assumes "limits_inv l"
  shows "count_calls (\<lambda>k. call_sem k = next_sem l \<and> Q k) l = 0"
proof -
  have "call_sem k \<noteq> next_sem l" if "(c, k) \<in> set (calls l)" for c k
    using limits_invD(2) [OF assms that] limits_invD(3) [OF assms] by fastforce
  then show ?thesis by (auto simp: count_calls_def filter_empty_conv)
qed

lemma lookup_user_inv:
  assumes inv: "limits_inv l" and look: "lookup_user l u = (l', s)"
  shows "limits_inv l'" and "users l' u = Some s" and "calls l' = calls l"
    and "global_available l' = global_available l" and "global_limit l' = global_limit l"
    and "per_user_limit l' = per_user_limit l"
proof -
  let ?r = "retain_live l"
  note D = limits_invD [OF retain_live_inv [OF inv]]
  show "calls l' = calls l" "global_available l' = global_available l"
    "global_limit l' = global_limit l" "per_user_limit l' = per_user_limit l"
    using look by (auto simp: lookup_user_def Let_def retain_live_def split: option.splits)
  show "users l' u = Some s"
    using look by (auto simp: lookup_user_def Let_def split: option.splits)
  show "limits_inv l'"
  proof (cases "users ?r u")
    case (Some s0)
    with look retain_live_inv [OF inv] show ?thesis by (simp add: lookup_user_def Let_def)
  next
    case None
    let ?n = "next_sem ?r"
    have l': "l' = ?r\<lparr>users := (users ?r)(u := Some ?n),
        sem_available := (sem_available ?r)(?n := per_user_limit ?r), next_sem := Suc ?n\<rparr>"
      using look None by (auto simp: lookup_user_def Let_def)
    have cnt: "count_calls P l' = count_calls P ?r" for P
      by (rule count_cong_calls) (simp add: l')
    have other: "users ?r u' = Some s' \<Longrightarrow> s' \<noteq> ?n \<and> s' < ?n" for u' s'
      using D(3) by fastforce
    have call: "users l' (call_user k) = Some (call_sem k)" if "(c, k) \<in> set (calls l')" for c k
      using D(2) [of c k] that None by (auto simp: l')
    note fresh = fresh_sem_no_permits [OF retain_live_inv [OF inv]]
    show ?thesis
      unfolding limits_inv_def cnt
    proof (intro conjI)
      show "distinct (map fst (calls l'))" using D(1) by (simp add: l')
      show "\<forall>(c, k) \<in> set (calls l'). users l' (call_user k) = Some (call_sem k)" using call by blast
      show "\<forall>u s. users l' u = Some s \<longrightarrow> s < next_sem l'" using other by (auto simp: l' less_Suc_eq)
      show "\<forall>u u' s. users l' u = Some s \<longrightarrow> users l' u' = Some s \<longrightarrow> u = u'"
        using D(4) by (auto simp: l' dest: other)
      show "\<forall>u s. users l' u = Some s \<longrightarrow> sem_available l' s + user_permits ?r s = per_user_limit l'"
        using D(5) other fresh by (auto simp: l')
      show "global_available l' + global_permits ?r = global_limit l'" using D(6) by (simp add: l')
    qed
  qed
qed

lemma begin_acquire_inv:
  assumes inv: "limits_inv l" and fresh: "c \<notin> fst ` set (calls l)"
  shows "limits_inv (begin_acquire l c u)"
proof -
  obtain l' s where look: "lookup_user l u = (l', s)" by fastforce
  note L = lookup_user_inv [OF inv look]
  note D = limits_invD [OF L(1)]
  have eq: "begin_acquire l c u = l'\<lparr>calls := (c, LookedUp u s) # calls l'\<rparr>"
    by (simp add: begin_acquire_def look)
  have cnt: "count_calls P (begin_acquire l c u) = count_calls P l'" if "\<not> P (LookedUp u s)" for P
    using that by (simp add: eq count_calls_def)
  show ?thesis
    unfolding limits_inv_def
    using D L(2,3) fresh by (auto simp: cnt) (auto simp: eq)
qed

lemma set_call_inv_shape:
  assumes inv: "limits_inv l" and mem: "(c, k) \<in> set (calls l)"
    and same: "call_user k1 = call_user k" "call_sem k1 = call_sem k"
  shows "distinct (map fst (calls (set_call l c k1)))"
    and "(c', k') \<in> set (calls (set_call l c k1)) \<Longrightarrow> users l (call_user k') = Some (call_sem k')"
  using limits_invD(1) [OF inv] limits_invD(2) [OF inv] mem same
  by (auto simp: fst_set_call dest!: set_set_call)

lemma acquire_user_inv:
  assumes inv: "limits_inv l" and mem: "(c, LookedUp u s) \<in> set (calls l)"
    and acq: "acquire_user l c u s = Inr l'"
  shows "limits_inv l'"
proof (rule limits_inv_frame [OF inv])
  note D = limits_invD(1) [OF inv]
  have pos: "0 < sem_available l s"
    and l': "l' = (set_call l c (HasUserPermit u s))\<lparr>sem_available := (sem_available l)(s := sem_available l s - 1)\<rparr>"
    using acq by (auto simp: acquire_user_def split: if_splits)
  have cs: "calls l' = calls (set_call l c (HasUserPermit u s))" by (simp add: l')
  show "users l' = users l" "next_sem l' = next_sem l"
      "per_user_limit l' = per_user_limit l" "global_limit l' = global_limit l"
    by (simp_all add: l' set_call_def)
  show "distinct (map fst (calls l'))"
    "(c', k') \<in> set (calls l') \<Longrightarrow> users l (call_user k') = Some (call_sem k')" for c' k'
    unfolding cs using set_call_inv_shape [OF inv mem, of "HasUserPermit u s"] by auto
  have av: "sem_available l' s' = (if s' = s then sem_available l s - 1 else sem_available l s')" for s'
    by (simp add: l' set_call_def)
  show "sem_available l' s' + user_permits l' s' = sem_available l s' + user_permits l s'" for s'
    using count_set_call [OF D mem, of "\<lambda>k. call_sem k = s' \<and> holds_user_permit k" "HasUserPermit u s"] pos
    by (auto simp: count_cong_calls [OF cs] av)
  show "global_available l' + global_permits l' = global_available l + global_permits l"
    using count_set_call [OF D mem, of holds_global_permit "HasUserPermit u s"]
    by (simp add: count_cong_calls [OF cs]) (simp add: l' set_call_def)
qed

lemma acquire_global_inv:
  assumes inv: "limits_inv l" and mem: "(c, HasUserPermit u s) \<in> set (calls l)"
    and acq: "acquire_global l c u s = Inr l'"
  shows "limits_inv l'"
proof (rule limits_inv_frame [OF inv])
  note D = limits_invD(1) [OF inv]
  have pos: "0 < global_available l"
    and l': "l' = (set_call l c (Streaming u s))\<lparr>global_available := global_available l - 1\<rparr>"
    using acq by (auto simp: acquire_global_def split: if_splits)
  have cs: "calls l' = calls (set_call l c (Streaming u s))" by (simp add: l')
  show "users l' = users l" "next_sem l' = next_sem l"
      "per_user_limit l' = per_user_limit l" "global_limit l' = global_limit l"
    by (simp_all add: l' set_call_def)
  show "distinct (map fst (calls l'))"
    "(c', k') \<in> set (calls l') \<Longrightarrow> users l (call_user k') = Some (call_sem k')" for c' k'
    unfolding cs using set_call_inv_shape [OF inv mem, of "Streaming u s"] by auto
  show "sem_available l' s' + user_permits l' s' = sem_available l s' + user_permits l s'" for s'
    using count_set_call [OF D mem, of "\<lambda>k. call_sem k = s' \<and> holds_user_permit k" "Streaming u s"]
    by (auto simp: count_cong_calls [OF cs]) (simp_all add: l' set_call_def)
  have av: "global_available l' = global_available l - 1"
    by (simp add: l' set_call_def)
  show "global_available l' + global_permits l' = global_available l + global_permits l"
    using count_set_call [OF D mem, of holds_global_permit "Streaming u s"] pos
    by (auto simp: count_cong_calls [OF cs] av)
qed

text \<open>A call that ends without a user permit, and one that ends and gives it back.\<close>

lemma end_call_shape:
  assumes inv: "limits_inv l"
  shows "distinct (map fst (calls (end_call l c)))"
    and "(c', k') \<in> set (calls (end_call l c)) \<Longrightarrow> users l (call_user k') = Some (call_sem k')"
  using limits_invD(1,2) [OF inv] distinct_end_call set_end_call by blast+

lemma end_call_inv:
  assumes inv: "limits_inv l" and mem: "(c, LookedUp u s) \<in> set (calls l)"
  shows "limits_inv (end_call l c)"
proof (rule limits_inv_frame [OF inv])
  note D = limits_invD(1) [OF inv]
  show "users (end_call l c) = users l" "next_sem (end_call l c) = next_sem l"
      "per_user_limit (end_call l c) = per_user_limit l" "global_limit (end_call l c) = global_limit l"
    by (simp_all add: end_call_def)
  show "sem_available (end_call l c) s' + user_permits (end_call l c) s' = sem_available l s' + user_permits l s'" for s'
    using count_end_call [OF D mem, of "\<lambda>k. call_sem k = s' \<and> holds_user_permit k"]
    by simp (simp add: end_call_def)
  show "global_available (end_call l c) + global_permits (end_call l c) = global_available l + global_permits l"
    using count_end_call [OF D mem, of holds_global_permit] by simp (simp add: end_call_def)
qed (use end_call_shape [OF inv] in auto)

lemma release_user_inv:
  assumes inv: "limits_inv l" and mem: "(c, HasUserPermit u s) \<in> set (calls l)"
  shows "limits_inv (release_user (end_call l c) s)"
proof (rule limits_inv_frame [OF inv])
  let ?l' = "release_user (end_call l c) s"
  note D = limits_invD(1) [OF inv]
  have cs: "calls ?l' = calls (end_call l c)" by (simp add: release_user_def)
  show "users ?l' = users l" "next_sem ?l' = next_sem l"
      "per_user_limit ?l' = per_user_limit l" "global_limit ?l' = global_limit l"
    by (simp_all add: end_call_def release_user_def)
  show "sem_available ?l' s' + user_permits ?l' s' = sem_available l s' + user_permits l s'" for s'
    using count_end_call [OF D mem, of "\<lambda>k. call_sem k = s' \<and> holds_user_permit k"]
    by (auto simp: count_cong_calls [OF cs]) (auto simp: release_user_def end_call_def)
  show "global_available ?l' + global_permits ?l' = global_available l + global_permits l"
    using count_end_call [OF D mem, of holds_global_permit]
    by (simp add: count_cong_calls [OF cs]) (simp add: release_user_def end_call_def)
  show "distinct (map fst (calls ?l'))"
    "(c', k') \<in> set (calls ?l') \<Longrightarrow> users l (call_user k') = Some (call_sem k')" for c' k'
    unfolding cs using end_call_shape [OF inv] by auto
qed

lemma drop_permit_inv:
  assumes inv: "limits_inv l" and mem: "(c, Streaming u s) \<in> set (calls l)"
  shows "limits_inv (drop_permit l c s)"
proof (rule limits_inv_frame [OF inv])
  let ?l' = "drop_permit l c s"
  note D = limits_invD(1) [OF inv]
  have cs: "calls ?l' = calls (end_call l c)" by (simp add: drop_permit_def release_user_def)
  show "users ?l' = users l" "next_sem ?l' = next_sem l"
      "per_user_limit ?l' = per_user_limit l" "global_limit ?l' = global_limit l"
    by (simp_all add: end_call_def release_user_def drop_permit_def)
  show "sem_available ?l' s' + user_permits ?l' s' = sem_available l s' + user_permits l s'" for s'
    using count_end_call [OF D mem, of "\<lambda>k. call_sem k = s' \<and> holds_user_permit k"]
    by (auto simp: count_cong_calls [OF cs]) (auto simp: drop_permit_def release_user_def end_call_def)
  show "global_available ?l' + global_permits ?l' = global_available l + global_permits l"
    using count_end_call [OF D mem, of holds_global_permit]
    by (simp add: count_cong_calls [OF cs]) (simp add: drop_permit_def release_user_def end_call_def)
  show "distinct (map fst (calls ?l'))"
    "(c', k') \<in> set (calls ?l') \<Longrightarrow> users l (call_user k') = Some (call_sem k')" for c' k'
    unfolding cs using end_call_shape [OF inv] by auto
qed

lemma limits_step_inv: "limits_step l l' \<Longrightarrow> limits_inv l \<Longrightarrow> limits_inv l'"
  by (induction rule: limits_step.induct)
    (blast intro: begin_acquire_inv acquire_user_inv acquire_global_inv end_call_inv
       release_user_inv drop_permit_inv)+

lemma limits_step_config:
  "limits_step l l' \<Longrightarrow> global_limit l' = global_limit l \<and> per_user_limit l' = per_user_limit l"
  by (induction rule: limits_step.induct)
    (auto simp: begin_acquire_def lookup_user_def Let_def retain_live_def acquire_user_def
       acquire_global_def set_call_def end_call_def release_user_def drop_permit_def
       split: option.splits if_splits prod.splits)

lemma limits_reachable_inv:
  "limits_reachable g p l \<Longrightarrow> limits_inv l \<and> global_limit l = g \<and> per_user_limit l = p"
proof (induction rule: limits_reachable.induct)
  case (start l)
  then show ?case using limits_new_inv by (auto simp: limits_new_def split: if_splits)
next
  case (step l l')
  then show ?case using limits_step_inv limits_step_config by metis
qed

lemma user_streams_le:
  assumes "limits_inv l"
  shows "user_streams l u \<le> per_user_limit l"
proof (cases "users l u")
  case None
  then have "user_streams l u = 0"
    using limits_invD(2) [OF assms] by (fastforce simp: user_streams_def count_calls_def filter_empty_conv)
  then show ?thesis by simp
next
  case (Some s)
  have "user_streams l u \<le> user_permits l s"
    unfolding user_streams_def
  proof (rule count_mono)
    fix c k assume "(c, k) \<in> set (calls l)" and "call_user k = u \<and> holds_global_permit k"
    with limits_invD(2) [OF assms] Some show "call_sem k = s \<and> holds_user_permit k"
      by (cases k) fastforce+
  qed
  also have "\<dots> \<le> per_user_limit l"
    using limits_invD(5) [OF assms Some] by linarith
  finally show ?thesis .
qed

text \<open>
  C3. However the concurrent \<open>try_acquire\<close> calls and permit drops interleave, no user ever has
  more concurrent remote streams than the per-user limit, and the server never has more
  than the global limit. Dropping dead map entries never gives a user a second semaphore
  while a stream of theirs is open.
\<close>

theorem stream_limits_hold:
  assumes "limits_reachable g p l"
  shows "user_streams l u \<le> p \<and> total_streams l \<le> g"
proof -
  from limits_reachable_inv [OF assms]
  have inv: "limits_inv l" and cfg: "global_limit l = g" "per_user_limit l = p" by auto
  from limits_invD(6) [OF inv] have "total_streams l \<le> g"
    by (simp add: total_streams_def flip: cfg)
  with user_streams_le [OF inv] cfg show ?thesis by simp
qed

theorem stream_limits_hold_witness:
  "\<exists>l. limits_reachable 2 1 l \<and> calls l = [(0, LookedUp 7 0)] \<and> user_streams l 7 \<le> 1 \<and> total_streams l \<le> 2"
proof -
  obtain l0 where new: "limits_new 2 1 = Some l0" and c0: "calls l0 = []" "users l0 = (\<lambda>_. None)" "next_sem l0 = 0"
    by (simp add: limits_new_def)
  have reach: "limits_reachable 2 1 (begin_acquire l0 0 7)"
    by (rule limits_reachable.step [OF limits_reachable.start [OF new] limits_step.enter]) (simp add: c0)
  moreover have "calls (begin_acquire l0 0 7) = [(0, LookedUp 7 0)]"
    using c0 by (simp add: begin_acquire_def lookup_user_def retain_live_def)
  ultimately show ?thesis using stream_limits_hold [OF reach] by blast
qed

subsection \<open>A call without interleaving\<close>

definition quiescent :: "limits \<Rightarrow> bool" where
  "quiescent l \<longleftrightarrow> limits_inv l \<and> (\<forall>(c, k) \<in> set (calls l). holds_global_permit k)"

lemma count_eq:
  assumes "\<And>c k. (c, k) \<in> set (calls l) \<Longrightarrow> P k \<longleftrightarrow> Q k"
  shows "count_calls P l = count_calls Q l"
  using count_mono [of l P Q] count_mono [of l Q P] assms by (meson le_antisym)

lemma quiescent_user_permits:
  assumes "quiescent l" and "users l u = Some s"
  shows "user_permits l s = user_streams l u"
  unfolding user_streams_def
proof (rule count_eq)
  fix c k assume mem: "(c, k) \<in> set (calls l)"
  then have "holds_global_permit k" and inv: "limits_inv l" using assms(1) by (auto simp: quiescent_def)
  then have "holds_user_permit k" by (cases k) auto
  with limits_invD(2) [OF inv mem] limits_invD(4) [OF inv] assms(2) \<open>holds_global_permit k\<close>
  show "call_sem k = s \<and> holds_user_permit k \<longleftrightarrow> call_user k = u \<and> holds_global_permit k"
    by auto
qed

lemma try_acquire_cases:
  assumes q: "quiescent l" and fresh: "c \<notin> fst ` set (calls l)"
  obtains (user_full) l' where "try_acquire l c u = (l', Inl UserLimitExceeded)"
      "per_user_limit l \<le> user_streams l u" "calls l' = calls l" "quiescent l'"
  | (global_full) l' where "try_acquire l c u = (l', Inl CapacityExhausted)"
      "user_streams l u < per_user_limit l" "global_limit l \<le> total_streams l"
      "calls l' = calls l" "quiescent l'"
  | (ok) l' s where "try_acquire l c u = (l', Inr s)"
      "user_streams l u < per_user_limit l" "total_streams l < global_limit l"
      "calls l' = (c, Streaming u s) # calls l" "quiescent l'"
proof -
  have inv: "limits_inv l" and st: "\<And>c k. (c, k) \<in> set (calls l) \<Longrightarrow> holds_global_permit k"
    using q by (auto simp: quiescent_def)
  obtain l1 s where look: "lookup_user l u = (l1, s)" by fastforce
  note L = lookup_user_inv [OF inv look]
  have q1: "quiescent l1" using L(1,3) st by (auto simp: quiescent_def)
  let ?b = "begin_acquire l c u"
  have b: "?b = l1\<lparr>calls := (c, LookedUp u s) # calls l1\<rparr>" by (simp add: begin_acquire_def look)
  have binv: "limits_inv ?b" using inv fresh by (rule begin_acquire_inv)
  have drop_id: "List.filter (\<lambda>(c', k). c' \<noteq> c) (calls l) = calls l"
    using fresh by (intro filter_True) force
  have map_id: "map (\<lambda>(c', k'). if c' = c then (c', x) else (c', k')) (calls l) = calls l" for x
    using fresh by (intro map_idI) force
  have avail: "sem_available l1 s + user_streams l u = per_user_limit l"
    using limits_invD(5) [OF L(1,2)] quiescent_user_permits [OF q1 L(2)] L(3,6)
    by (simp add: user_streams_def count_calls_def)
  have gavail: "global_available l1 + total_streams l = global_limit l"
    using limits_invD(6) [OF L(1)] L(3,5) by (simp add: total_streams_def count_calls_def)
  have mem: "(c, LookedUp u s) \<in> set (calls ?b)" by (simp add: b)
  show ?thesis
  proof (cases "0 < sem_available l1 s")
    case False
    have "try_acquire l c u = (end_call ?b c, Inl UserLimitExceeded)"
      using False by (simp add: try_acquire_def look acquire_user_def b)
    moreover have "calls (end_call ?b c) = calls l" by (simp add: end_call_def b L(3) drop_id)
    moreover from this have "quiescent (end_call ?b c)"
      using end_call_inv [OF binv mem] st by (auto simp: quiescent_def)
    ultimately show ?thesis using user_full avail False by simp
  next
    case True
    let ?u = "(set_call ?b c (HasUserPermit u s))\<lparr>sem_available := (sem_available ?b)(s := sem_available ?b s - 1)\<rparr>"
    have acq: "acquire_user ?b c u s = Inr ?u" using True by (simp add: acquire_user_def b)
    have uinv: "limits_inv ?u" using binv mem acq by (rule acquire_user_inv)
    have umem: "(c, HasUserPermit u s) \<in> set (calls ?u)" by (simp add: set_call_def b)
    show ?thesis
    proof (cases "0 < global_available l1")
      case False
      let ?e = "release_user (end_call ?u c) s"
      have "try_acquire l c u = (?e, Inl CapacityExhausted)"
        using False by (simp add: try_acquire_def look acq) (simp add: acquire_global_def set_call_def b)
      moreover have "calls ?e = calls l"
        by (simp add: release_user_def end_call_def set_call_def b L(3) drop_id map_id)
      moreover from this have "quiescent ?e"
        using release_user_inv [OF uinv umem] st by (auto simp: quiescent_def)
      ultimately show ?thesis using global_full avail gavail False True by simp
    next
      case gpos: True
      let ?g = "(set_call ?u c (Streaming u s))\<lparr>global_available := global_available ?u - 1\<rparr>"
      have acqg: "acquire_global ?u c u s = Inr ?g"
        using gpos by (simp add: acquire_global_def set_call_def b)
      have "try_acquire l c u = (?g, Inr s)" by (simp only: try_acquire_def Let_def look acq acqg snd_conv sum.case)
      moreover have "calls ?g = (c, Streaming u s) # calls l"
        by (simp add: set_call_def b L(3) map_id)
      moreover from this have "quiescent ?g"
        using acquire_global_inv [OF uinv umem acqg] st by (auto simp: quiescent_def)
      ultimately show ?thesis using ok avail gavail True gpos by simp
    qed
  qed
qed

lemma quiescent_drop:
  assumes "quiescent l" and "(c, Streaming u s) \<in> set (calls l)"
  shows "quiescent (drop_permit l c s)"
  using assms drop_permit_inv [of l c u s]
  by (auto simp: quiescent_def drop_permit_def release_user_def end_call_def)

subsection \<open>The interface for streaming\<close>

text \<open>
  What the streaming service relies on: an admission either adds one stream of that user
  or changes no count, a release takes the stream away again, and the counts stay below the
  caps.
\<close>

locale admission_control =
  fixes admit :: "'s \<Rightarrow> nat \<Rightarrow> int \<Rightarrow> 's \<times> (remote_error_kind + 'p)"
    and release :: "'s \<Rightarrow> nat \<Rightarrow> 'p \<Rightarrow> 's"
    and fresh :: "'s \<Rightarrow> nat \<Rightarrow> bool"
    and ok_state :: "'s \<Rightarrow> bool"
    and streams :: "'s \<Rightarrow> int \<Rightarrow> nat"
    and user_cap :: "'s \<Rightarrow> nat"
  assumes admit_ok: "ok_state s \<Longrightarrow> fresh s c \<Longrightarrow> admit s c u = (s', Inr p) \<Longrightarrow>
      ok_state s' \<and> streams s' u' = streams s u' + (if u' = u then 1 else 0)"
    and admit_err: "ok_state s \<Longrightarrow> fresh s c \<Longrightarrow> admit s c u = (s', Inl e) \<Longrightarrow>
      ok_state s' \<and> streams s' u' = streams s u'"
    and admit_release: "ok_state s \<Longrightarrow> fresh s c \<Longrightarrow> admit s c u = (s', Inr p) \<Longrightarrow>
      ok_state (release s' c p) \<and> streams (release s' c p) u' = streams s u'"
    and capped: "ok_state s \<Longrightarrow> streams s u \<le> user_cap s"
begin

text \<open>
  A request that is admitted, works, and either keeps its permit or drops it: the counts
  grow exactly when the permit is kept.
\<close>

lemma admitted_work:
  assumes "ok_state s" and "fresh s c"
    and "after = (case admit s c u of (s', Inl e) \<Rightarrow> s'
           | (s', Inr p) \<Rightarrow> if keep p then s' else release s' c p)"
  shows "ok_state after \<and>
    streams after u' = streams s u' +
      (case snd (admit s c u) of Inl e \<Rightarrow> 0 | Inr p \<Rightarrow> if keep p \<and> u' = u then 1 else 0)"
proof (cases "admit s c u")
  case (Pair s' r)
  then show ?thesis
    using assms admit_ok [OF assms(1,2)] admit_err [OF assms(1,2)] admit_release [OF assms(1,2)]
    by (cases r) auto
qed

end

lemma streams_cons:
  "calls l' = (c, Streaming u s) # calls l \<Longrightarrow> user_streams l' u' = user_streams l u' + (if u' = u then 1 else 0)"
  by (simp add: user_streams_def count_calls_def)

lemma drop_added_stream:
  assumes "calls l' = (c, Streaming u s) # calls l" and "c \<notin> fst ` set (calls l)"
  shows "calls (drop_permit l' c s) = calls l"
proof -
  have "List.filter (\<lambda>(c', k). c' \<noteq> c) (calls l) = calls l"
    using assms(2) by (intro filter_True) force
  with assms(1) show ?thesis by (simp add: drop_permit_def release_user_def end_call_def)
qed

interpretation stream_admission: admission_control try_acquire drop_permit
  "\<lambda>l c. c \<notin> fst ` set (calls l)" quiescent user_streams per_user_limit
proof (unfold_locales, goal_cases)
  case (1 l c u l' s u')
  then show ?case
    by (cases rule: try_acquire_cases [OF 1(1,2), of u]) (auto simp: streams_cons)
next
  case (2 l c u l' e u')
  then show ?case
    by (cases rule: try_acquire_cases [OF 2(1,2), of u]) (auto simp: user_streams_def count_calls_def)
next
  case (3 l c u l' s u')
  then show ?case
  proof (cases rule: try_acquire_cases [OF 3(1,2), of u, case_names user_full global_full ok])
    case (ok l'' s'')
    with 3 have calls: "calls l' = (c, Streaming u s) # calls l" and "quiescent l'" by auto
    then have "quiescent (drop_permit l' c s)" using quiescent_drop [of l' c u s] by simp
    with drop_added_stream [OF calls 3(2)] show ?thesis by (simp add: user_streams_def count_calls_def)
  qed auto
next
  case (4 l u)
  then show ?case using user_streams_le by (auto simp: quiescent_def)
qed

text \<open>
  With no other call in between, \<open>try_acquire\<close> refuses a user exactly at the per-user
  limit, then the server exactly at the global limit, and leaves the counts alone when it
  refuses: a rejected call does not leak the user permit it had already taken.
\<close>

theorem try_acquire_exact:
  assumes "quiescent l" and "c \<notin> fst ` set (calls l)"
  shows "snd (try_acquire l c u) =
      (if per_user_limit l \<le> user_streams l u then Inl UserLimitExceeded
       else if global_limit l \<le> total_streams l then Inl CapacityExhausted
       else Inr (snd (lookup_user l u)))
    \<and> user_streams (fst (try_acquire l c u)) u' =
        user_streams l u' + (if u' = u \<and> is_ok (snd (try_acquire l c u)) then 1 else 0)"
proof (cases rule: try_acquire_cases [OF assms, of u, case_names user_full global_full ok])
  case (ok l' s)
  moreover have "s = snd (lookup_user l u)"
    using ok(1) by (auto simp: try_acquire_def Let_def split: sum.splits)
  ultimately show ?thesis by (simp add: streams_cons)
qed (auto simp: user_streams_def count_calls_def)

theorem try_acquire_exact_witness:
  "\<exists>l. limits_new 1 1 = Some l \<and> snd (try_acquire l 0 7) = Inr 0
     \<and> user_streams (fst (try_acquire l 0 7)) 7 = 1"
proof -
  obtain l where new: "limits_new 1 1 = Some l"
    and l: "calls l = []" "users l = (\<lambda>_. None)" "next_sem l = 0" "per_user_limit l = 1" "global_limit l = 1"
    by (simp add: limits_new_def)
  have q: "quiescent l" using limits_new_inv [OF new] l by (simp add: quiescent_def)
  have zero: "user_streams l 7 = 0" "total_streams l = 0"
    using l by (simp_all add: user_streams_def total_streams_def count_calls_def)
  have "snd (lookup_user l 7) = 0" by (simp add: lookup_user_def retain_live_def l)
  with new zero l try_acquire_exact [OF q, of 0 7 7] show ?thesis by auto
qed

end
