(* ===== verification/Rust_Path.thy ===== *)
theory Rust_Path
  imports Rust_Text "HOL-Library.Sublist" "HOL-Library.List_Lexorder" "HOL-Library.Char_ord"
begin

text \<open>
  Paths and the file system as the program sees them. A \<open>Path\<close> is the list of its
  components, the root directory being the component \<open>/\<close>; comparing, \<open>starts_with\<close> and
  \<open>strip_prefix\<close> work on components, so they are equality and \<open>prefix\<close> of lists. The file
  system at one moment is a record of what its look-ups answer.
\<close>

type_synonym path = "ustr list"

text \<open>\<open>Path::components\<close>: empty and \<open>.\<close> components vanish, a leading \<open>.\<close> excepted.\<close>

definition normal_components :: "ustr list \<Rightarrow> path" where
  "normal_components cs = List.filter (\<lambda>c. c \<noteq> [] \<and> c \<noteq> [46]) cs"

definition path_of_text :: "ustr \<Rightarrow> path" where
  "path_of_text t =
     (let pieces = split_by (\<lambda>c. c = 47) t in
      if starts_with [47] t then [47] # normal_components pieces
      else if hd pieces = [46] then [46] # normal_components (tl pieces)
      else normal_components pieces)"

definition path_text :: "path \<Rightarrow> ustr" where
  "path_text p = (case p of [] \<Rightarrow> [] | c # cs \<Rightarrow> if c = [47] then 47 # join [47] cs else join [47] p)"

definition root_dir :: path where
  "root_dir = [[47]]"

definition is_normal_component :: "ustr \<Rightarrow> bool" where
  "is_normal_component c = (c \<noteq> [47] \<and> c \<noteq> [46] \<and> c \<noteq> [46, 46])"

text \<open>\<open>Path::file_stem\<close> and \<open>Path::extension\<close> of a single component.\<close>

definition file_stem :: "ustr \<Rightarrow> ustr option" where
  "file_stem name =
     (if name = [] \<or> \<not> is_normal_component name then None
      else case rsplit_once 46 name of
             None \<Rightarrow> Some name
           | Some (front, after) \<Rightarrow> if front = [] then Some name else Some front)"

definition file_extension :: "ustr \<Rightarrow> ustr option" where
  "file_extension name =
     (if name = [] \<or> \<not> is_normal_component name then None
      else case rsplit_once 46 name of
             None \<Rightarrow> None
           | Some (front, after) \<Rightarrow> if front = [] then None else Some after)"

subsection \<open>The file system\<close>

text \<open>The kinds of I/O errors that the callers tell apart; \<open>IoLoop\<close> is \<open>ELOOP\<close>.\<close>

datatype io_error = IoNotFound | IoNotADirectory | IoLoop | IoInterrupted | IoOther

datatype file_kind = RegularFile | Directory | OtherFile

record file_metadata =
  fm_kind :: file_kind
  fm_len :: nat

text \<open>
  \<open>fs_read_first\<close> is opening a directory and reading its first entry, if there is one.
\<close>

record file_system =
  fs_canonicalize :: "path \<Rightarrow> io_error + path"
  fs_metadata :: "path \<Rightarrow> io_error + file_metadata"
  fs_open :: "path \<Rightarrow> io_error + nat list"
  fs_read_first :: "path \<Rightarrow> io_error + unit"

subsection \<open>Ordered maps\<close>

text \<open>
  A \<open>BTreeMap\<close> is the list of its entries in key order. \<open>btree_upsert\<close> is the entry
  interface: the new value is computed from the old one, if there is one.
\<close>

fun btree_upsert :: "'k::linorder \<Rightarrow> ('v option \<Rightarrow> 'v) \<Rightarrow> ('k \<times> 'v) list \<Rightarrow> ('k \<times> 'v) list" where
  "btree_upsert k f [] = [(k, f None)]"
| "btree_upsert k f ((k', v) # m) =
     (if k = k' then (k', f (Some v)) # m
      else if k < k' then (k, f None) # (k', v) # m
      else (k', v) # btree_upsert k f m)"

definition btree_ok :: "('k::linorder \<times> 'v) list \<Rightarrow> bool" where
  "btree_ok m = sorted_wrt (<) (map fst m)"

lemma btree_upsert_keys: "fst ` set (btree_upsert k f m) = insert k (fst ` set m)"
proof (induction m)
  case (Cons a m)
  obtain k' v where "a = (k', v)" by (cases a)
  then show ?case
    by (cases "k = k'"; cases "k < k'") (simp_all add: Cons.IH insert_commute)
qed simp

lemma btree_upsert_ok: "btree_ok m \<Longrightarrow> btree_ok (btree_upsert k f m)"
  unfolding btree_ok_def
proof (induction m)
  case (Cons a m)
  obtain k' v where a: "a = (k', v)" by (cases a)
  have keys: "set (map fst (btree_upsert k f m)) = insert k (set (map fst m))"
    using btree_upsert_keys [of k f m] by simp
  consider "k = k'" | "k < k'" | "k' < k" by fastforce
  then show ?case
  proof cases
    case 1
    then show ?thesis using Cons.prems a by simp
  next
    case 2
    then show ?thesis using Cons.prems a by auto
  next
    case 3
    then have "btree_upsert k f (a # m) = (k', v) # btree_upsert k f m" using a by auto
    moreover have "\<forall>x \<in> set (map fst (btree_upsert k f m)). k' < x"
      unfolding keys using Cons.prems a 3 by simp
    moreover have "sorted_wrt (<) (map fst (btree_upsert k f m))" using Cons by simp
    ultimately show ?thesis by simp
  qed
qed simp

lemma btree_upsert_lookup:
  assumes "btree_ok m"
  shows "map_of (btree_upsert k f m) x = (if x = k then Some (f (map_of m k)) else map_of m x)"
  using assms unfolding btree_ok_def
proof (induction m)
  case (Cons a m)
  obtain k' v where a: "a = (k', v)" by (cases a)
  have "k < k' \<Longrightarrow> map_of m k = None"
    using Cons.prems a by (fastforce simp: map_of_eq_None_iff)
  with Cons a show ?case by auto
qed simp

lemma btree_distinct: "btree_ok m \<Longrightarrow> distinct (map fst m)"
  by (simp add: btree_ok_def strict_sorted_iff)

end
