(* ===== verification/Strm_Reference.thy ===== *)
theory Strm_Reference
  imports Target_Policy Rust_Path
begin

text \<open>
  Reading the reference of a STRM carrier (\<open>mova-scan/src/strm.rs\<close>): a text file whose one
  non-empty line is an HTTP(S) URL without credentials and fragment.
\<close>

datatype strm_reference_error =
    Empty
  | TooLarge
  | InvalidUtf8
  | MultipleLines
  | InvalidUrl
  | UnsupportedScheme
  | CredentialsNotAllowed

fun strm_error_code :: "strm_reference_error \<Rightarrow> string" where
  "strm_error_code Empty = ''strm_reference_empty''"
| "strm_error_code TooLarge = ''strm_reference_too_large''"
| "strm_error_code InvalidUtf8 = ''strm_reference_invalid_utf8''"
| "strm_error_code MultipleLines = ''strm_reference_multiple_lines''"
| "strm_error_code InvalidUrl = ''strm_reference_invalid_url''"
| "strm_error_code UnsupportedScheme = ''strm_reference_unsupported_scheme''"
| "strm_error_code CredentialsNotAllowed = ''strm_reference_credentials_not_allowed''"

datatype read_reference_error = ReadIo io_error | ReadInvalid strm_reference_error

record 'u http_strm_reference =
  ref_url :: 'u
  reference_hash :: ustr

definition MAX_STRM_FILE_BYTES :: nat where
  "MAX_STRM_FILE_BYTES = 8 * 1024"

text \<open>The part between \<open>://\<close> and the next slash, question mark or hash.\<close>

definition url_authority :: "ustr \<Rightarrow> ustr option" where
  "url_authority t =
     map_option (\<lambda>(_, remainder). hd (split_by (\<lambda>c. c = 47 \<or> c = 63 \<or> c = 35) remainder))
       (split_once_str [58, 47, 47] t)"

definition parse_http_strm_reference ::
  "'u url_crate \<Rightarrow> nat list \<Rightarrow> strm_reference_error + 'u http_strm_reference" where
  "parse_http_strm_reference C bytes =
     (if MAX_STRM_FILE_BYTES < length bytes then Inl TooLarge
      else and_then (ok_or InvalidUtf8 (utf8_decode bytes)) (\<lambda>text0.
        let t = trim (case strip_prefix [65279] text0 of None \<Rightarrow> text0 | Some r \<Rightarrow> r)
        in if t = [] then Inl Empty
           else
             (case List.filter (\<lambda>l. l \<noteq> []) (map trim (text_lines t)) of
                [] \<Rightarrow> Inl Empty
              | reference_text # others \<Rightarrow>
                  if others \<noteq> [] then Inl MultipleLines
                  else if MAX_STRM_URL_BYTES < byte_len reference_text then Inl InvalidUrl
                  else and_then (ok_or InvalidUrl (url_parse C reference_text)) (\<lambda>url.
                    if url_scheme C url \<noteq> lit ''http'' \<and> url_scheme C url \<noteq> lit ''https''
                    then Inl UnsupportedScheme
                    else and_then (ok_or InvalidUrl (url_authority reference_text)) (\<lambda>authority.
                      if authority = [] \<or> \<not> url_has_host C url then Inl InvalidUrl
                      else if 64 \<in> set authority \<or> url_username C url \<noteq> [] \<or> url_password C url \<noteq> None
                      then Inl CredentialsNotAllowed
                      else if url_fragment C url \<noteq> None then Inl InvalidUrl
                      else Inr \<lparr>ref_url = url, reference_hash = sha256_hex C reference_text\<rparr>)))))"

text \<open>\<open>file.take(MAX_STRM_FILE_BYTES + 1)\<close>: at most one byte beyond the limit is read.\<close>

definition read_http_strm_reference ::
  "'u url_crate \<Rightarrow> (io_error + nat list) \<Rightarrow> read_reference_error + 'u http_strm_reference" where
  "read_http_strm_reference C file =
     (case file of
        Inl e \<Rightarrow> Inl (ReadIo e)
      | Inr bytes \<Rightarrow>
          map_err ReadInvalid (parse_http_strm_reference C (take (MAX_STRM_FILE_BYTES + 1) bytes)))"

definition reference_admissible :: "'u url_crate \<Rightarrow> 'u http_strm_reference \<Rightarrow> bool" where
  "reference_admissible C r \<longleftrightarrow>
     url_scheme C (ref_url r) \<in> {lit ''http'', lit ''https''}
     \<and> url_has_host C (ref_url r) \<and> url_username C (ref_url r) = []
     \<and> url_password C (ref_url r) = None \<and> url_fragment C (ref_url r) = None"

lemma parse_http_strm_reference_ok:
  assumes "parse_http_strm_reference C bytes = Inr r"
  shows "reference_admissible C r
    \<and> (\<exists>t. url_parse C t = Some (ref_url r) \<and> reference_hash r = sha256_hex C t
         \<and> byte_len t \<le> MAX_STRM_URL_BYTES \<and> (\<forall>a. url_authority t = Some a \<longrightarrow> 64 \<notin> set a))"
  using assms
  by (auto simp: parse_http_strm_reference_def reference_admissible_def Let_def result_simps
      split: if_splits list.splits)

lemma bounded_read_enough:
  "parse_http_strm_reference C (take (MAX_STRM_FILE_BYTES + 1) bytes) = parse_http_strm_reference C bytes"
  by (auto simp: parse_http_strm_reference_def)

text \<open>
  C31. Reading a carrier never needs more than one byte beyond the size limit: the bounded
  read decides every file as the unbounded one would, files over the limit are refused
  whatever they hold, and an accepted reference is an http(s) URL with a host and without
  user name, password and fragment, whose text has no \<open>@\<close> in its authority.
\<close>

theorem read_reference_sound:
  "read_http_strm_reference C (Inr bytes) = map_err ReadInvalid (parse_http_strm_reference C bytes)
   \<and> (MAX_STRM_FILE_BYTES < length bytes \<longrightarrow>
        read_http_strm_reference C (Inr bytes) = Inl (ReadInvalid TooLarge))
   \<and> (\<forall>r. read_http_strm_reference C (Inr bytes) = Inr r \<longrightarrow>
        reference_admissible C r
        \<and> (\<exists>t. url_parse C t = Some (ref_url r) \<and> byte_len t \<le> MAX_STRM_URL_BYTES
              \<and> (\<forall>a. url_authority t = Some a \<longrightarrow> 64 \<notin> set a)))"
proof -
  have eq: "read_http_strm_reference C (Inr bytes) = map_err ReadInvalid (parse_http_strm_reference C bytes)"
    by (simp add: read_http_strm_reference_def bounded_read_enough del: One_nat_def)
  moreover have "MAX_STRM_FILE_BYTES < length bytes \<Longrightarrow> parse_http_strm_reference C bytes = Inl TooLarge"
    by (simp add: parse_http_strm_reference_def)
  moreover have "reference_admissible C r
      \<and> (\<exists>t. url_parse C t = Some (ref_url r) \<and> byte_len t \<le> MAX_STRM_URL_BYTES
            \<and> (\<forall>a. url_authority t = Some a \<longrightarrow> 64 \<notin> set a))"
    if "parse_http_strm_reference C bytes = Inr r" for r
    using parse_http_strm_reference_ok [OF that] by blast
  ultimately show ?thesis
    by (simp add: map_err_eq_Inr)
qed

lemma strm_demo:
  "read_http_strm_reference demo_crate (Inr (utf8_bytes (lit ''http://a.b/c'')))
     = Inr \<lparr>ref_url = (lit ''http'', lit ''a.b/c'', 80), reference_hash = lit ''http://a.b/c''\<rparr>"
  by (simp add: read_http_strm_reference_def parse_http_strm_reference_def utf8_bytes_def utf8_char_def
      MAX_STRM_FILE_BYTES_def MAX_STRM_URL_BYTES_def text_lines_def url_authority_def demo_crate_def
      str_eval Let_def)

theorem read_reference_sound_witness:
  "\<exists>r. read_http_strm_reference demo_crate (Inr (utf8_bytes (lit ''http://a.b/c''))) = Inr r
     \<and> reference_admissible demo_crate r"
  using read_reference_sound [of demo_crate "utf8_bytes (lit ''http://a.b/c'')"] strm_demo by blast

end
