(* ===== verification/Remote_Request.thy ===== *)
theory Remote_Request
  imports Remote_Errors
begin

text \<open>
  The playback request of a client (\<open>RemoteStreamRequest\<close> and \<open>RemoteByteRange\<close> of
  \<open>remote_stream/mod.rs\<close>): the method, the validated byte range and the validator of
  a conditional range. The conversions of the \<open>http\<close> crate between header values and
  strings are parameters, the fields of \<open>header_crate\<close>.
\<close>

record header_crate =
  hv_to_str :: "nat list \<Rightarrow> ustr option"
  hv_from_str :: "ustr \<Rightarrow> nat list option"

text \<open>
  What the documentation of \<open>HeaderValue::from_str\<close> promises: a string of visible ASCII
  characters is a header value, and its bytes are the characters.
\<close>

definition visible_ascii :: "nat \<Rightarrow> bool" where
  "visible_ascii c = (32 \<le> c \<and> c < 127)"

definition from_str_keeps_ascii :: "header_crate \<Rightarrow> bool" where
  "from_str_keeps_ascii H \<longleftrightarrow> (\<forall>s. list_all visible_ascii s \<longrightarrow> hv_from_str H s = Some s)"

definition MAX_RANGE_HEADER_BYTES :: nat where
  "MAX_RANGE_HEADER_BYTES = 256"

definition MAX_IF_RANGE_HEADER_BYTES :: nat where
  "MAX_IF_RANGE_HEADER_BYTES = 1024"

datatype remote_stream_method = Get | Head

datatype remote_byte_range_kind =
    FromTo (range_start: nat) (range_end: nat)
  | From (range_start: nat)
  | Suffix (suffix_length: nat)

record remote_byte_range =
  raw :: "nat list"
  kind :: remote_byte_range_kind

record remote_stream_request =
  req_method :: remote_stream_method
  range :: "remote_byte_range option"
  if_range :: "nat list option"

definition parse_range_number :: "ustr \<Rightarrow> remote_error + nat" where
  "parse_range_number value =
     (if value = [] \<or> \<not> list_all is_ascii_digit value
      then Inl (invalid_request ''invalid Range header'')
      else ok_or (invalid_request ''invalid Range header'') (parse_u64 value))"

definition parse_positive_range_number :: "ustr \<Rightarrow> remote_error + nat" where
  "parse_positive_range_number value =
     and_then (parse_range_number value) (\<lambda>v.
       if v = 0 then Inl (invalid_request ''invalid Range header'') else Inr v)"

definition range_kind :: "ustr \<Rightarrow> ustr \<Rightarrow> remote_error + remote_byte_range_kind" where
  "range_kind start_text end_text =
     (case (start_text = [], end_text = []) of
        (True, True) \<Rightarrow> Inl (invalid_request ''invalid Range header'')
      | (True, False) \<Rightarrow> map_ok Suffix (parse_positive_range_number end_text)
      | (False, True) \<Rightarrow> map_ok From (parse_range_number start_text)
      | (False, False) \<Rightarrow>
          and_then (parse_range_number start_text) (\<lambda>s.
          and_then (parse_range_number end_text) (\<lambda>e.
            if e < s then Inl (invalid_request ''invalid Range header'')
            else Inr (FromTo s e))))"

definition parse_byte_range :: "header_crate \<Rightarrow> ustr \<Rightarrow> remote_error + remote_byte_range" where
  "parse_byte_range H value =
     (if value = [] \<or> MAX_RANGE_HEADER_BYTES < byte_len value \<or> \<not> is_ascii_str value
      then Inl (invalid_request ''invalid Range header'')
      else
        and_then (ok_or (invalid_request ''unsupported Range header'')
          (strip_prefix (lit ''bytes='') value)) (\<lambda>specification.
        if 44 \<in> set specification
        then Inl (invalid_request ''multiple byte ranges are not supported'')
        else
          and_then (ok_or (invalid_request ''invalid Range header'')
            (split_once 45 specification)) (\<lambda>(start_text, end_text).
          and_then (range_kind start_text end_text) (\<lambda>k.
          and_then (ok_or (invalid_request ''invalid Range header'') (hv_from_str H value)) (\<lambda>v.
            Inr \<lparr>raw = v, kind = k\<rparr>)))))"

definition explicitly_starts_at_zero :: "remote_byte_range \<Rightarrow> bool" where
  "explicitly_starts_at_zero r =
     (case kind r of FromTo s _ \<Rightarrow> s = 0 | From s \<Rightarrow> s = 0 | Suffix _ \<Rightarrow> False)"

definition parse_if_range :: "header_crate \<Rightarrow> ustr \<Rightarrow> remote_error + nat list" where
  "parse_if_range H value =
     (if value = [] \<or> MAX_IF_RANGE_HEADER_BYTES < byte_len value
      then Inl (invalid_request ''invalid If-Range header'')
      else ok_or (invalid_request ''invalid If-Range header'') (hv_from_str H value))"

definition new_request ::
  "header_crate \<Rightarrow> remote_stream_method \<Rightarrow> ustr option \<Rightarrow> ustr option
     \<Rightarrow> remote_error + remote_stream_request" where
  "new_request H m range_text if_range_text =
     and_then (opt_try (parse_byte_range H) range_text) (\<lambda>r.
     and_then (if r \<noteq> None then opt_try (parse_if_range H) if_range_text else Inr None) (\<lambda>i.
       Inr \<lparr>req_method = m, range = r, if_range = i\<rparr>))"

text \<open>\<open>RemoteStreamRequest::probe\<close>; \<open>None\<close> is the panic of its \<open>expect\<close>.\<close>

definition probe_request :: "header_crate \<Rightarrow> remote_stream_request option" where
  "probe_request H =
     (case new_request H Get (Some (lit ''bytes=0-0'')) None of Inl _ \<Rightarrow> None | Inr r \<Rightarrow> Some r)"

subsection \<open>What an accepted request satisfies\<close>

fun range_kind_ok :: "remote_byte_range_kind \<Rightarrow> bool" where
  "range_kind_ok (FromTo s e) = (s \<le> e \<and> e < 2 ^ 64)"
| "range_kind_ok (From s) = (s < 2 ^ 64)"
| "range_kind_ok (Suffix n) = (0 < n \<and> n < 2 ^ 64)"

text \<open>The header text of a range.\<close>

fun range_text :: "remote_byte_range_kind \<Rightarrow> ustr" where
  "range_text (FromTo s e) = lit ''bytes='' @ nat_text s @ [45] @ nat_text e"
| "range_text (From s) = lit ''bytes='' @ nat_text s @ [45]"
| "range_text (Suffix n) = lit ''bytes='' @ [45] @ nat_text n"

definition request_ok :: "remote_stream_request \<Rightarrow> bool" where
  "request_ok q \<longleftrightarrow>
     (\<forall>r. range q = Some r \<longrightarrow> range_kind_ok (kind r)) \<and> (range q = None \<longrightarrow> if_range q = None)"

lemma parse_u64_digits:
  assumes "list_all is_ascii_digit s" "s \<noteq> []"
  shows "parse_u64 s = (if digits_val s < 2 ^ 64 then Some (digits_val s) else None)"
proof -
  obtain c cs where c: "s = c # cs" using assms(2) by (cases s) auto
  then have "c \<noteq> 43" using assms(1) by (simp add: is_ascii_digit_def)
  with c assms show ?thesis by (simp add: parse_unsigned_def parse_digits_def)
qed

lemma parse_range_number_ok:
  "parse_range_number s = Inr n \<longleftrightarrow> s \<noteq> [] \<and> list_all is_ascii_digit s \<and> n = digits_val s \<and> n < 2 ^ 64"
  by (auto simp: parse_range_number_def parse_u64_digits result_simps)

lemma parse_positive_range_number_ok:
  "parse_positive_range_number s = Inr n \<longleftrightarrow> parse_range_number s = Inr n \<and> 0 < n"
  by (auto simp: parse_positive_range_number_def result_simps)

lemma range_kind_sound: "range_kind s e = Inr k \<Longrightarrow> range_kind_ok k"
  by (auto simp: range_kind_def result_simps parse_range_number_ok parse_positive_range_number_ok
      split: bool.splits if_splits)

lemma parse_byte_range_sound:
  assumes "parse_byte_range H s = Inr r"
  shows "range_kind_ok (kind r) \<and> hv_from_str H s = Some (raw r)
    \<and> is_ascii_str s \<and> length s \<le> MAX_RANGE_HEADER_BYTES"
  using assms range_kind_sound byte_len_ge_length [of s]
  by (auto simp: parse_byte_range_def result_simps split: if_splits)

lemma new_request_ok: "new_request H m rt it = Inr q \<Longrightarrow> request_ok q \<and> req_method q = m"
  by (auto simp: new_request_def request_ok_def result_simps parse_byte_range_sound
      split: option.splits if_splits dest!: parse_byte_range_sound)

lemma probe_request_ok:
  assumes "probe_request H = Some q"
  shows "request_ok q" "req_method q = Get" "if_range q = None"
    "\<exists>r. range q = Some r \<and> kind r = FromTo 0 0"
  using assms
  by (auto simp: probe_request_def new_request_def parse_byte_range_def range_kind_def
      parse_range_number_def parse_positive_range_number_def str_eval is_ascii_str_def
      MAX_RANGE_HEADER_BYTES_def request_ok_def result_simps split: sum.splits option.splits)

lemma digits_no_char: "list_all is_ascii_digit s \<Longrightarrow> \<not> is_ascii_digit c \<Longrightarrow> c \<notin> set s"
  by (auto simp: list_all_iff)

lemma parse_range_number_nat_text: "n < 2 ^ 64 \<Longrightarrow> parse_range_number (nat_text n) = Inr n"
  using nat_text_digits [of n] by (simp add: parse_range_number_ok digits_val_nat_text)

lemma digit_visible: "list_all is_ascii_digit s \<Longrightarrow> list_all visible_ascii s"
  by (auto simp: list_all_iff is_ascii_digit_def visible_ascii_def)

lemma range_text_visible: "list_all visible_ascii (range_text k)"
  using nat_text_digits digit_visible by (cases k) (auto simp: visible_ascii_def)

lemma range_text_length:
  assumes "range_kind_ok k"
  shows "length (range_text k) \<le> 47"
proof -
  have len: "length (nat_text n) \<le> 20" if "n < 2 ^ 64" for n
  proof (rule nat_text_length_le)
    have "(2 :: nat) ^ 64 \<le> 10 ^ 20" by simp
    with that show "n < 10 ^ 20" by (rule less_le_trans)
  qed simp
  show ?thesis
  proof (cases k)
    case (FromTo s e)
    with assms have "s < 2 ^ 64" "e < 2 ^ 64" by auto
    with len [of s] len [of e] FromTo show ?thesis by simp
  next
    case (From s)
    with assms len [of s] show ?thesis by simp
  next
    case (Suffix n)
    with assms len [of n] show ?thesis by simp
  qed
qed

lemma range_kind_text:
  assumes "range_kind_ok k"
  shows "\<exists>s e. range_text k = lit ''bytes='' @ s @ [45] @ e \<and> 45 \<notin> set s
    \<and> 44 \<notin> set (s @ [45] @ e) \<and> range_kind s e = Inr k"
proof -
  have no: "45 \<notin> set (nat_text n)" "44 \<notin> set (nat_text n)" "nat_text n \<noteq> []" for n
  proof -
    have d: "list_all is_ascii_digit (nat_text n)" using nat_text_digits by blast
    show "45 \<notin> set (nat_text n)" by (rule digits_no_char [OF d]) (simp add: is_ascii_digit_def)
    show "44 \<notin> set (nat_text n)" by (rule digits_no_char [OF d]) (simp add: is_ascii_digit_def)
    show "nat_text n \<noteq> []" using nat_text_digits by blast
  qed
  show ?thesis
  proof (cases k)
    case (FromTo s e)
    with assms have "s < 2 ^ 64" "e < 2 ^ 64" "\<not> e < s" by auto
    then show ?thesis
      using no FromTo by (intro exI [of _ "nat_text s"] exI [of _ "nat_text e"])
        (simp add: range_kind_def parse_range_number_nat_text)
  next
    case (From s)
    with assms show ?thesis
      using no by (intro exI [of _ "nat_text s"] exI [of _ "[]"])
        (simp add: range_kind_def parse_range_number_nat_text)
  next
    case (Suffix n)
    with assms show ?thesis
      using no by (intro exI [of _ "[]"] exI [of _ "nat_text n"])
        (simp add: range_kind_def parse_range_number_nat_text parse_positive_range_number_def)
  qed
qed

text \<open>
  Printing any byte range whose numbers fit 64 bits (an interval in order, an open
  interval, a non-empty suffix) and parsing the header text gives back the same range with
  the text itself as the header to send upstream, and every range the parser accepts is of
  that form, whatever the header text was.
\<close>

theorem byte_range_roundtrip:
  assumes "from_str_keeps_ascii H"
  shows "(\<forall>k. range_kind_ok k \<longrightarrow>
            parse_byte_range H (range_text k) = Inr \<lparr>raw = range_text k, kind = k\<rparr>)
       \<and> (\<forall>s r. parse_byte_range H s = Inr r \<longrightarrow> range_kind_ok (kind r))"
proof (intro conjI allI impI)
  fix k assume k: "range_kind_ok k"
  obtain s e where t: "range_text k = lit ''bytes='' @ s @ [45] @ e" and "45 \<notin> set s"
    and c: "44 \<notin> set (s @ [45] @ e)" and rk: "range_kind s e = Inr k"
    using range_kind_text [OF k] by blast
  then have so: "split_once 45 (s @ [45] @ e) = Some (s, e)" by simp
  have vis: "list_all visible_ascii (range_text k)" by (rule range_text_visible)
  then have asc: "list_all (\<lambda>c. c < 128) (range_text k)"
    by (auto simp: list_all_iff visible_ascii_def)
  then have "byte_len (range_text k) \<le> 47"
    using range_text_length [OF k] by (simp add: byte_len_ascii)
  moreover have "hv_from_str H (range_text k) = Some (range_text k)"
    using assms vis by (simp add: from_str_keeps_ascii_def)
  moreover have "range_text k \<noteq> []" by (simp add: t)
  moreover have "strip_prefix (lit ''bytes='') (range_text k) = Some (s @ [45] @ e)"
    unfolding t by (rule strip_prefix_append)
  ultimately show "parse_byte_range H (range_text k) = Inr \<lparr>raw = range_text k, kind = k\<rparr>"
    using asc c so rk unfolding parse_byte_range_def
    by (simp add: MAX_RANGE_HEADER_BYTES_def is_ascii_str_def)
next
  fix s r assume "parse_byte_range H s = Inr r"
  then show "range_kind_ok (kind r)" using parse_byte_range_sound by blast
qed

text \<open>An \<open>http\<close> crate that accepts exactly the visible ASCII strings.\<close>

definition ascii_headers :: header_crate where
  "ascii_headers =
     \<lparr>hv_to_str = (\<lambda>v. if list_all (\<lambda>c. visible_ascii c \<or> c = 9) v then Some v else None),
      hv_from_str = (\<lambda>s. if list_all visible_ascii s then Some s else None)\<rparr>"

lemma ascii_to_str:
  "hv_to_str ascii_headers v = (if list_all (\<lambda>c. visible_ascii c \<or> c = 9) v then Some v else None)"
  by (simp add: ascii_headers_def)

lemma ascii_headers_keep: "from_str_keeps_ascii ascii_headers"
  by (simp add: from_str_keeps_ascii_def ascii_headers_def)

theorem byte_range_roundtrip_witness:
  "parse_byte_range ascii_headers (range_text (FromTo 5 9))
     = Inr \<lparr>raw = range_text (FromTo 5 9), kind = FromTo 5 9\<rparr>"
  using byte_range_roundtrip [OF ascii_headers_keep] by (simp del: range_text.simps)

text \<open>Under the documented behaviour the probe request exists, so its \<open>expect\<close> does not panic.\<close>

lemma probe_request_total:
  assumes "from_str_keeps_ascii H"
  shows "probe_request H = Some \<lparr>req_method = Get,
    range = Some \<lparr>raw = lit ''bytes=0-0'', kind = FromTo 0 0\<rparr>, if_range = None\<rparr>"
proof -
  have "hv_from_str H (lit ''bytes=0-0'') = Some (lit ''bytes=0-0'')"
    using assms by (simp add: from_str_keeps_ascii_def visible_ascii_def)
  then show ?thesis
    by (simp add: probe_request_def new_request_def parse_byte_range_def range_kind_def
      parse_range_number_def str_eval is_ascii_str_def MAX_RANGE_HEADER_BYTES_def)
qed

end
