(* ===== verification/Remote_Response.thy ===== *)
theory Remote_Response
  imports Remote_Request
begin

text \<open>
  The validation of an upstream response before anything of it reaches a client
  (\<open>remote_stream/client.rs\<close>): status, encoding and media type, the headers that may be
  forwarded, and the consistency of \<open>Content-Range\<close> and \<open>Content-Length\<close> with the request.
  A response is its status and its header list, with lower-case names.
\<close>

type_synonym header_map = "(string \<times> nat list) list"

record upstream_response =
  up_status :: nat
  up_headers :: header_map

datatype response_header_name =
    ContentType | ContentLength | ContentRange | AcceptRanges | Etag | LastModified

fun header_name_str :: "response_header_name \<Rightarrow> string" where
  "header_name_str ContentType = ''content-type''"
| "header_name_str ContentLength = ''content-length''"
| "header_name_str ContentRange = ''content-range''"
| "header_name_str AcceptRanges = ''accept-ranges''"
| "header_name_str Etag = ''etag''"
| "header_name_str LastModified = ''last-modified''"

type_synonym response_header = "response_header_name \<times> nat list"

record validated_response =
  vr_status :: nat
  vr_headers :: "response_header list"
  vr_response :: "upstream_response option"

subsection \<open>Reading headers\<close>

definition get_all :: "header_map \<Rightarrow> string \<Rightarrow> nat list list" where
  "get_all hs name = map snd (List.filter (\<lambda>(n, _). n = name) hs)"

definition one_header :: "header_map \<Rightarrow> string \<Rightarrow> remote_error + nat list option" where
  "one_header hs name =
     (case get_all hs name of
        [] \<Rightarrow> Inr None
      | [v] \<Rightarrow> Inr (Some v)
      | _ \<Rightarrow> Inl response_invalid)"

definition parse_optional_content_length ::
  "header_crate \<Rightarrow> header_map \<Rightarrow> remote_error + nat option" where
  "parse_optional_content_length H hs =
     and_then (one_header hs ''content-length'')
       (opt_try (\<lambda>v. ok_or response_invalid (Option.bind (hv_to_str H v) parse_u64)))"

record satisfied_content_range =
  cr_start :: nat
  cr_end :: nat
  cr_total :: "nat option"

definition header_text :: "header_crate \<Rightarrow> header_map \<Rightarrow> string \<Rightarrow> remote_error + ustr" where
  "header_text H hs name =
     and_then (one_header hs name) (\<lambda>v.
     and_then (ok_or response_invalid v) (\<lambda>v.
       ok_or response_invalid (hv_to_str H v)))"

definition parse_satisfied_content_range ::
  "header_crate \<Rightarrow> header_map \<Rightarrow> remote_error + satisfied_content_range" where
  "parse_satisfied_content_range H hs =
     and_then (header_text H hs ''content-range'') (\<lambda>value.
     and_then (ok_or response_invalid (strip_prefix (lit ''bytes '') value)) (\<lambda>value.
     and_then (ok_or response_invalid (split_once 47 value)) (\<lambda>(interval, total_text).
     and_then (ok_or response_invalid (split_once 45 interval)) (\<lambda>(start_text, end_text).
     and_then (ok_or response_invalid (parse_u64 start_text)) (\<lambda>s.
     and_then (ok_or response_invalid (parse_u64 end_text)) (\<lambda>e.
       if e < s then Inl response_invalid
       else
         and_then
           (if total_text = [42] then Inr None
            else and_then (ok_or response_invalid (parse_u64 total_text)) (\<lambda>t.
              if t = 0 \<or> t \<le> e then Inl response_invalid else Inr (Some t)))
           (\<lambda>tot. Inr \<lparr>cr_start = s, cr_end = e, cr_total = tot\<rparr>)))))))"

definition parse_unsatisfied_content_range_total ::
  "header_crate \<Rightarrow> header_map \<Rightarrow> remote_error + nat" where
  "parse_unsatisfied_content_range_total H hs =
     and_then (header_text H hs ''content-range'') (\<lambda>value.
       ok_or response_invalid (Option.bind (strip_prefix (lit ''bytes */'') value) parse_u64))"

definition parse_unsatisfied_content_range :: "header_crate \<Rightarrow> header_map \<Rightarrow> remote_error + ustr" where
  "parse_unsatisfied_content_range H hs =
     map_ok (\<lambda>tot. lit ''bytes */'' @ nat_text tot) (parse_unsatisfied_content_range_total H hs)"

definition validate_content_range_against_request ::
  "satisfied_content_range \<Rightarrow> remote_byte_range \<Rightarrow> remote_error + unit" where
  "validate_content_range_against_request actual requested =
     ensure response_invalid
       (case kind requested of
          FromTo s e \<Rightarrow>
            cr_start actual = s
            \<and> cr_end actual = (case cr_total actual of None \<Rightarrow> e | Some tot \<Rightarrow> min e (tot - 1))
        | From s \<Rightarrow>
            cr_start actual = s
            \<and> (case cr_total actual of None \<Rightarrow> True | Some tot \<Rightarrow> cr_end actual = tot - 1)
        | Suffix len \<Rightarrow>
            (case cr_total actual of None \<Rightarrow> False
             | Some tot \<Rightarrow> cr_start actual = tot - len \<and> cr_end actual = tot - 1))"

subsection \<open>Media checks and the forwarded headers\<close>

definition validate_content_encoding :: "header_crate \<Rightarrow> header_map \<Rightarrow> remote_error + unit" where
  "validate_content_encoding H hs =
     and_then (one_header hs ''content-encoding'') (\<lambda>v. case v of
        None \<Rightarrow> Inr ()
      | Some v \<Rightarrow>
          and_then (ok_or response_invalid (hv_to_str H v)) (\<lambda>value.
            ensure response_invalid (to_ascii_lowercase (trim value) = lit ''identity'')))"

definition is_hls_type :: "ustr \<Rightarrow> bool" where
  "is_hls_type t =
     (contains_str (lit ''mpegurl'') t
      \<or> t \<in> set [lit ''application/m3u8'', lit ''audio/m3u8'', lit ''video/m3u8''])"

definition is_allowed_media_type :: "ustr \<Rightarrow> bool" where
  "is_allowed_media_type t =
     (starts_with (lit ''video/'') t \<or> starts_with (lit ''audio/'') t
      \<or> t \<in> set [lit ''application/octet-stream'', lit ''application/mp4'', lit ''application/x-matroska''])"

definition media_type_of :: "ustr \<Rightarrow> ustr" where
  "media_type_of value = to_ascii_lowercase (trim (hd (split_by (\<lambda>c. c = 59) value)))"

definition validate_media_content_type :: "header_crate \<Rightarrow> header_map \<Rightarrow> remote_error + unit" where
  "validate_media_content_type H hs =
     and_then (one_header hs ''content-type'') (\<lambda>v. case v of
        None \<Rightarrow> Inr ()
      | Some v \<Rightarrow>
          and_then (ok_or response_invalid (hv_to_str H v)) (\<lambda>value.
            let media_type = media_type_of value
            in if media_type = [] then Inl response_invalid
               else if is_hls_type media_type \<or> \<not> is_allowed_media_type media_type
               then Inl response_invalid else Inr ()))"

definition safe_header_table :: "(string \<times> response_header_name) list" where
  "safe_header_table =
     [(''content-type'', ContentType), (''content-length'', ContentLength),
      (''content-range'', ContentRange), (''accept-ranges'', AcceptRanges),
      (''etag'', Etag), (''last-modified'', LastModified)]"

definition collect_one :: "header_map \<Rightarrow> string \<times> response_header_name \<Rightarrow> remote_error + response_header list" where
  "collect_one hs = (\<lambda>(source, target).
     map_ok (\<lambda>v. case v of None \<Rightarrow> [] | Some b \<Rightarrow> [(target, b)]) (one_header hs source))"

definition collect_safe_response_headers ::
  "header_crate \<Rightarrow> header_map \<Rightarrow> remote_error + response_header list" where
  "collect_safe_response_headers H hs =
     and_then (map_ok concat (try_map (collect_one hs) safe_header_table)) (\<lambda>output.
     and_then (parse_optional_content_length H hs) (\<lambda>_.
     and_then (one_header hs ''accept-ranges'') (\<lambda>v. case v of
        None \<Rightarrow> Inr output
      | Some v \<Rightarrow>
          and_then (ok_or response_invalid (hv_to_str H v)) (\<lambda>value.
          and_then (ensure response_invalid
              (to_ascii_lowercase (trim value) \<in> set [lit ''bytes'', lit ''none''])) (\<lambda>_.
            Inr output)))))"

definition range_not_supported :: remote_error where
  "range_not_supported = \<lparr>err_kind = RangeNotSupported,
     err_message = ''the remote source ignored a non-zero byte range''\<rparr>"

text \<open>The \<open>206\<close> branch: \<open>checked_sub\<close> and \<open>checked_add\<close> are those of \<open>u64\<close>.\<close>

definition check_partial ::
  "header_crate \<Rightarrow> header_map \<Rightarrow> remote_stream_request \<Rightarrow> remote_error + unit" where
  "check_partial H hs q =
     and_then (ok_or response_invalid (range q)) (\<lambda>requested.
     and_then (parse_satisfied_content_range H hs) (\<lambda>actual.
     and_then (validate_content_range_against_request actual requested) (\<lambda>_.
     and_then (parse_optional_content_length H hs) (\<lambda>len. case len of
        None \<Rightarrow> Inr ()
      | Some n \<Rightarrow>
          if cr_end actual < cr_start actual \<or> 2 ^ 64 \<le> cr_end actual - cr_start actual + 1
             \<or> n \<noteq> cr_end actual - cr_start actual + 1
          then Inl response_invalid else Inr ()))))"

definition full_headers ::
  "header_map \<Rightarrow> remote_stream_request \<Rightarrow> response_header list \<Rightarrow> remote_error + response_header list" where
  "full_headers hs q headers =
     and_then (one_header hs ''content-range'') (\<lambda>cr.
       if cr \<noteq> None then Inl response_invalid
       else if (case range q of None \<Rightarrow> False | Some r \<Rightarrow> \<not> explicitly_starts_at_zero r)
               \<and> if_range q = None
       then Inl range_not_supported
       else if range q \<noteq> None
       then Inr (List.filter (\<lambda>(n, _). n \<noteq> AcceptRanges \<and> n \<noteq> ContentRange) headers)
       else Inr headers)"

definition validate_upstream_response ::
  "header_crate \<Rightarrow> upstream_response \<Rightarrow> remote_stream_request \<Rightarrow> remote_error + validated_response" where
  "validate_upstream_response H resp q =
     (let hs = up_headers resp; status = up_status resp in
      if status = 416 then
        if range q = None then Inl response_invalid
        else map_ok (\<lambda>v. \<lparr>vr_status = status, vr_headers = [(ContentRange, v)], vr_response = None\<rparr>)
               (parse_unsatisfied_content_range H hs)
      else if status \<noteq> 200 \<and> status \<noteq> 206 then Inl source_unavailable
      else
        and_then (validate_content_encoding H hs) (\<lambda>_.
        and_then (validate_media_content_type H hs) (\<lambda>_.
        and_then (collect_safe_response_headers H hs) (\<lambda>headers.
        and_then
          (if status = 206 then map_ok (\<lambda>_. headers) (check_partial H hs q)
           else full_headers hs q headers) (\<lambda>headers.
          Inr \<lparr>vr_status = status, vr_headers = headers, vr_response = Some resp\<rparr>)))))"

text \<open>
  The answer to a probe that stands in for a HEAD request. The outer \<open>None\<close> is the panic of
  \<open>RemoteStreamRequest::probe\<close>.
\<close>

definition probe_headers :: "satisfied_content_range \<Rightarrow> response_header list \<Rightarrow> response_header list" where
  "probe_headers r headers =
     List.filter (\<lambda>(n, _). n \<noteq> ContentLength \<and> n \<noteq> ContentRange \<and> n \<noteq> AcceptRanges) headers
     @ (case cr_total r of None \<Rightarrow> [] | Some tot \<Rightarrow> [(ContentLength, nat_text tot)])
     @ [(AcceptRanges, lit ''bytes'')]"

definition full_size_view :: "header_crate \<Rightarrow> validated_response \<Rightarrow> remote_error + validated_response" where
  "full_size_view H validated =
     (if vr_status validated = 206 then
        and_then (ok_or response_invalid (vr_response validated)) (\<lambda>response.
        and_then (parse_satisfied_content_range H (up_headers response)) (\<lambda>r.
          Inr (validated\<lparr>vr_status := 200, vr_headers := probe_headers r (vr_headers validated)\<rparr>)))
      else Inr validated)"

definition validate_head_probe_response ::
  "header_crate \<Rightarrow> upstream_response \<Rightarrow> (remote_error + validated_response) option" where
  "validate_head_probe_response H resp =
     (if up_status resp = 416 then
        Some (and_then (parse_unsatisfied_content_range_total H (up_headers resp)) (\<lambda>tot.
          if tot \<noteq> 0 then Inl response_invalid
          else Inr \<lparr>vr_status = 200,
                    vr_headers = [(ContentLength, lit ''0''), (AcceptRanges, lit ''bytes'')],
                    vr_response = None\<rparr>))
      else
        (case probe_request H of
           None \<Rightarrow> None
         | Some q \<Rightarrow>
             Some (and_then (validate_upstream_response H resp q) (\<lambda>validated.
               and_then (full_size_view H validated)
                 (\<lambda>validated. Inr (validated\<lparr>vr_response := None\<rparr>))))))"

subsection \<open>The bytes a range asks for\<close>

text \<open>The positions of a resource of \<open>n\<close> bytes that a range selects.\<close>

fun selected_bytes :: "remote_byte_range_kind \<Rightarrow> nat \<Rightarrow> nat set" where
  "selected_bytes (FromTo s e) n = {i. i < n \<and> s \<le> i \<and> i \<le> e}"
| "selected_bytes (From s) n = {i. i < n \<and> s \<le> i}"
| "selected_bytes (Suffix len) n = {i. i < n \<and> n \<le> i + len}"

lemma interval_eq_iff:
  fixes s e a b :: nat
  assumes "s \<le> e"
  shows "{s..e} = {i. a \<le> i \<and> i \<le> b} \<longleftrightarrow> s = a \<and> e = b"
proof
  have m: "i \<in> {i. a \<le> i \<and> i \<le> b} \<longleftrightarrow> a \<le> i \<and> i \<le> b" for i by simp
  assume eq: "{s..e} = {i. a \<le> i \<and> i \<le> b}"
  have "s \<in> {s..e}" "e \<in> {s..e}" using assms by simp_all
  then have ab: "a \<le> s" "e \<le> b" unfolding eq m by simp_all
  then have "a \<in> {s..e}" "b \<in> {s..e}" unfolding eq m using assms by linarith+
  with ab show "s = a \<and> e = b" by simp
next
  assume "s = a \<and> e = b"
  then show "{s..e} = {i. a \<le> i \<and> i \<le> b}" by auto
qed

lemma selected_bytes_interval:
  assumes "0 < n"
  shows "selected_bytes (FromTo s e) n = {i. s \<le> i \<and> i \<le> min e (n - 1)}"
    "selected_bytes (From s) n = {i. s \<le> i \<and> i \<le> n - 1}"
    "selected_bytes (Suffix len) n = {i. n - len \<le> i \<and> i \<le> n - 1}"
  using assms by auto

lemma range_check_known:
  assumes "s \<le> e" "e < n"
  shows "validate_content_range_against_request \<lparr>cr_start = s, cr_end = e, cr_total = Some n\<rparr> r = Inr ()
    \<longleftrightarrow> {s..e} = selected_bytes (kind r) n"
proof -
  have n: "0 < n" using assms by simp
  show ?thesis
    by (cases "kind r") (simp_all only: selected_bytes_interval [OF n] interval_eq_iff [OF assms(1)]
        validate_content_range_against_request_def ensure_eq_Inr satisfied_content_range.simps
        remote_byte_range_kind.case option.case)
qed

lemma range_check_unknown:
  "validate_content_range_against_request \<lparr>cr_start = s, cr_end = e, cr_total = None\<rparr> r = Inr ()
    \<longleftrightarrow> (case kind r of FromTo a b \<Rightarrow> s = a \<and> e = b | From a \<Rightarrow> s = a | Suffix _ \<Rightarrow> False)"
  by (cases "kind r") (simp_all add: validate_content_range_against_request_def result_simps)

text \<open>
  The check of \<open>Content-Range\<close> against the requested range is exact: a declared
  interval inside a resource of known size is accepted just when its bytes are the bytes
  the range selects, and when the size is unknown (\<open>*\<close>) a suffix is refused and an
  interval must be the requested one.
\<close>

theorem content_range_check_exact:
  assumes "s \<le> e"
  shows "(\<forall>n > e.
      validate_content_range_against_request \<lparr>cr_start = s, cr_end = e, cr_total = Some n\<rparr> r = Inr ()
        \<longleftrightarrow> {s..e} = selected_bytes (kind r) n)
    \<and> (validate_content_range_against_request \<lparr>cr_start = s, cr_end = e, cr_total = None\<rparr> r = Inr ()
        \<longleftrightarrow> (case kind r of FromTo a b \<Rightarrow> s = a \<and> e = b | From a \<Rightarrow> s = a | Suffix _ \<Rightarrow> False))"
  using range_check_known [OF assms] range_check_unknown by blast

theorem content_range_check_exact_witness:
  "(2 :: nat) \<le> 5 \<and> validate_content_range_against_request
     \<lparr>cr_start = 2, cr_end = 5, cr_total = Some 6\<rparr> \<lparr>raw = [], kind = FromTo 2 900\<rparr> = Inr ()"
proof -
  have "{2..5} = selected_bytes (kind \<lparr>raw = [], kind = FromTo 2 900\<rparr>) 6" by auto
  then show ?thesis
    using content_range_check_exact [of 2 5 "\<lparr>raw = [], kind = FromTo 2 900\<rparr>"] by auto
qed

subsection \<open>What a validated response guarantees\<close>

lemma one_header_Some: "one_header hs name = Inr (Some v) \<longleftrightarrow> get_all hs name = [v]"
  by (auto simp: one_header_def split: list.splits)

lemma one_header_None: "one_header hs name = Inr None \<longleftrightarrow> get_all hs name = []"
  by (auto simp: one_header_def split: list.splits)

lemma parse_u64_bound: "parse_u64 t = Some v \<Longrightarrow> v < 18446744073709551616"
  by (drule parse_unsigned_bound) simp

lemma parse_satisfied_content_range_ok:
  assumes "parse_satisfied_content_range H hs = Inr c"
  shows "cr_start c \<le> cr_end c \<and> cr_end c < 2 ^ 64
    \<and> (\<forall>n. cr_total c = Some n \<longrightarrow> cr_end c < n \<and> n < 2 ^ 64)"
  using assms
  by (auto simp: parse_satisfied_content_range_def result_simps not_less
      split: prod.splits if_splits dest: parse_u64_bound)

text \<open>The declared interval is a part of the resource, and it is what the client asked for.\<close>

definition interval_as_requested :: "satisfied_content_range \<Rightarrow> remote_byte_range_kind \<Rightarrow> bool" where
  "interval_as_requested c k \<longleftrightarrow>
     (case cr_total c of
        Some n \<Rightarrow> {cr_start c..cr_end c} = selected_bytes k n
      | None \<Rightarrow> (case k of FromTo a b \<Rightarrow> cr_start c = a \<and> cr_end c = b
                | From a \<Rightarrow> cr_start c = a | Suffix _ \<Rightarrow> False))"

lemma validated_interval_as_requested:
  assumes "parse_satisfied_content_range H hs = Inr c"
    and "validate_content_range_against_request c r = Inr ()"
  shows "interval_as_requested c (kind r)"
proof -
  obtain s e t where c: "c = \<lparr>cr_start = s, cr_end = e, cr_total = t\<rparr>" by (cases c)
  have ok: "s \<le> e" "\<And>n. t = Some n \<Longrightarrow> e < n"
    using parse_satisfied_content_range_ok [OF assms(1)] c by auto
  show ?thesis
  proof (cases t)
    case None
    then show ?thesis using assms(2) c
      by (cases "kind r") (simp_all add: interval_as_requested_def range_check_unknown)
  next
    case (Some n)
    then show ?thesis using assms(2) c range_check_known [OF ok(1) ok(2)]
      by (simp add: interval_as_requested_def)
  qed
qed

text \<open>What the code demands of a \<open>206\<close> response to the request \<open>q\<close>.\<close>

definition partial_ok :: "header_crate \<Rightarrow> header_map \<Rightarrow> remote_stream_request \<Rightarrow> bool" where
  "partial_ok H hs q \<longleftrightarrow>
     (\<exists>r c. range q = Some r \<and> parse_satisfied_content_range H hs = Inr c
        \<and> interval_as_requested c (kind r)
        \<and> (\<forall>v. get_all hs ''content-length'' = [v] \<longrightarrow>
              Option.bind (hv_to_str H v) parse_u64 = Some (card {cr_start c..cr_end c})))"

lemma check_partial_ok:
  assumes "check_partial H hs q = Inr u"
  shows "partial_ok H hs q"
proof -
  from assms obtain r c len where r: "range q = Some r" and c: "parse_satisfied_content_range H hs = Inr c"
    and v: "validate_content_range_against_request c r = Inr ()"
    and l: "parse_optional_content_length H hs = Inr len"
    and n: "\<And>n. len = Some n \<Longrightarrow> n = cr_end c - cr_start c + 1"
    by (auto simp: check_partial_def result_simps split: option.splits if_splits)
  have "cr_start c \<le> cr_end c" using parse_satisfied_content_range_ok [OF c] by simp
  then have card: "card {cr_start c..cr_end c} = cr_end c - cr_start c + 1" by simp
  have "Option.bind (hv_to_str H b) parse_u64 = Some (card {cr_start c..cr_end c})"
    if "get_all hs ''content-length'' = [b]" for b
  proof -
    from that have "one_header hs ''content-length'' = Inr (Some b)" by (simp add: one_header_Some)
    with l obtain m where "Option.bind (hv_to_str H b) parse_u64 = Some m" "len = Some m"
      by (auto simp: parse_optional_content_length_def result_simps)
    with n card show ?thesis by simp
  qed
  with r c validated_interval_as_requested [OF c v] show ?thesis
    unfolding partial_ok_def by blast
qed

text \<open>The forwarded headers: known names, each once, with the one value upstream sent.\<close>

definition headers_from :: "header_map \<Rightarrow> response_header list \<Rightarrow> bool" where
  "headers_from hs out \<longleftrightarrow>
     distinct (map fst out) \<and> (\<forall>(n, v) \<in> set out. get_all hs (header_name_str n) = [v])"

lemma collect_one_ok:
  "collect_one hs (source, target) = Inr out \<longleftrightarrow>
     get_all hs source = [] \<and> out = [] \<or> (\<exists>v. get_all hs source = [v] \<and> out = [(target, v)])"
  by (auto simp: collect_one_def one_header_def result_simps split: list.splits)

lemma headers_from_Cons:
  "headers_from hs ((n, v) # out) \<longleftrightarrow>
     n \<notin> fst ` set out \<and> get_all hs (header_name_str n) = [v] \<and> headers_from hs out"
  by (auto simp: headers_from_def)

lemma collected_headers:
  assumes "try_map (collect_one hs) tab = Inr outs" "distinct (map snd tab)"
    and "\<forall>(source, target) \<in> set tab. source = header_name_str target"
  shows "headers_from hs (concat outs) \<and> fst ` set (concat outs) \<subseteq> snd ` set tab"
  using assms
proof (induction tab arbitrary: outs)
  case (Cons x tab)
  obtain source target where x: "x = (source, target)" by (cases x)
  with Cons.prems(1) obtain o1 os where o: "collect_one hs (source, target) = Inr o1"
    and os: "try_map (collect_one hs) tab = Inr os" and outs: "outs = o1 # os"
    by (auto split: sum.splits)
  have IH: "headers_from hs (concat os)" "fst ` set (concat os) \<subseteq> snd ` set tab"
    using Cons.IH [OF os] Cons.prems(2,3) by auto
  have src: "source = header_name_str target" using Cons.prems(3) x by simp
  from o consider "o1 = []" | v where "get_all hs source = [v]" "o1 = [(target, v)]"
    unfolding collect_one_ok by blast
  then show ?case
  proof cases
    case 1
    then show ?thesis using IH outs x by auto
  next
    case 2
    have "target \<notin> fst ` set (concat os)" using IH(2) Cons.prems(2) x by auto
    moreover have "concat outs = (target, v) # concat os" using outs 2 by simp
    ultimately show ?thesis using IH x 2 src by (auto simp: headers_from_Cons)
  qed
qed (simp add: headers_from_def)

lemma collect_safe_ok:
  assumes "collect_safe_response_headers H hs = Inr out"
  shows "headers_from hs out"
proof -
  from assms obtain outs where "try_map (collect_one hs) safe_header_table = Inr outs" "out = concat outs"
    by (auto simp: collect_safe_response_headers_def result_simps split: option.splits)
  moreover have "distinct (map snd safe_header_table)"
    and "\<forall>(source, target) \<in> set safe_header_table. source = header_name_str target"
    by (simp_all add: safe_header_table_def)
  ultimately show ?thesis using collected_headers by blast
qed

lemma headers_from_filter: "headers_from hs out \<Longrightarrow> headers_from hs (List.filter P out)"
  by (auto simp: headers_from_def distinct_map_filter)

text \<open>Only direct media in its identity encoding is forwarded.\<close>

definition media_ok :: "header_crate \<Rightarrow> header_map \<Rightarrow> bool" where
  "media_ok H hs \<longleftrightarrow>
     (\<forall>v. v \<in> set (get_all hs ''content-type'') \<longrightarrow>
        (\<exists>t. hv_to_str H v = Some t \<and> is_allowed_media_type (media_type_of t)
             \<and> \<not> is_hls_type (media_type_of t)))
     \<and> (\<forall>v. v \<in> set (get_all hs ''content-encoding'') \<longrightarrow>
        (\<exists>t. hv_to_str H v = Some t \<and> to_ascii_lowercase (trim t) = lit ''identity''))"

lemma media_checks_ok:
  assumes "validate_content_encoding H hs = Inr ()" "validate_media_content_type H hs = Inr ()"
  shows "media_ok H hs"
proof -
  have "\<exists>t. hv_to_str H v = Some t \<and> to_ascii_lowercase (trim t) = lit ''identity''"
    if v: "v \<in> set (get_all hs ''content-encoding'')" for v
    using assms(1) v
    by (auto simp: validate_content_encoding_def result_simps one_header_def split: list.splits)
  moreover have "\<exists>t. hv_to_str H v = Some t \<and> is_allowed_media_type (media_type_of t)
             \<and> \<not> is_hls_type (media_type_of t)"
    if v: "v \<in> set (get_all hs ''content-type'')" for v
    using assms(2) v
    by (auto simp: validate_media_content_type_def result_simps one_header_def Let_def
        split: list.splits if_splits)
  ultimately show ?thesis by (simp add: media_ok_def)
qed

lemma full_headers_ok:
  assumes "full_headers hs q headers = Inr out" "headers_from hs headers"
  shows "headers_from hs out \<and> ContentRange \<notin> fst ` set out
    \<and> get_all hs ''content-range'' = []
    \<and> (case range q of None \<Rightarrow> True
       | Some r \<Rightarrow> (explicitly_starts_at_zero r \<or> if_range q \<noteq> None) \<and> AcceptRanges \<notin> fst ` set out)"
proof -
  from assms(1) have cr: "get_all hs ''content-range'' = []"
    by (auto simp: full_headers_def result_simps one_header_None split: if_splits)
  have "ContentRange \<notin> fst ` set headers"
  proof
    assume "ContentRange \<in> fst ` set headers"
    then obtain v where "(ContentRange, v) \<in> set headers" by auto
    with assms(2) have "get_all hs (header_name_str ContentRange) = [v]"
      unfolding headers_from_def by blast
    with cr show False by simp
  qed
  with assms cr show ?thesis
    by (auto simp: full_headers_def result_simps headers_from_filter split: if_splits option.splits)
qed

text \<open>What each of the three accepted statuses lets through.\<close>

definition response_sound ::
  "header_crate \<Rightarrow> upstream_response \<Rightarrow> remote_stream_request \<Rightarrow> validated_response \<Rightarrow> bool" where
  "response_sound H resp q v \<longleftrightarrow>
     (let hs = up_headers resp in
      vr_status v = up_status resp \<and>
      (if up_status resp = 416 then
         range q \<noteq> None \<and> vr_response v = None
         \<and> (\<exists>n < 2 ^ 64. vr_headers v = [(ContentRange, lit ''bytes */'' @ nat_text n)])
       else
         vr_response v = Some resp \<and> media_ok H hs \<and> headers_from hs (vr_headers v)
         \<and> (if up_status resp = 206 then partial_ok H hs q
            else up_status resp = 200 \<and> get_all hs ''content-range'' = []
              \<and> (case range q of None \<Rightarrow> True
                 | Some r \<Rightarrow> (explicitly_starts_at_zero r \<or> if_range q \<noteq> None)
                     \<and> AcceptRanges \<notin> fst ` set (vr_headers v)))))"

lemma validate_upstream_response_sound:
  assumes "validate_upstream_response H resp q = Inr v"
  shows "response_sound H resp q v"
proof (cases "up_status resp = 416")
  case True
  with assms obtain n where "parse_unsatisfied_content_range_total H (up_headers resp) = Inr n"
    and v: "range q \<noteq> None"
      "v = \<lparr>vr_status = 416, vr_headers = [(ContentRange, lit ''bytes */'' @ nat_text n)], vr_response = None\<rparr>"
    by (auto simp: validate_upstream_response_def parse_unsatisfied_content_range_def result_simps
        Let_def split: if_splits)
  then have "n < 2 ^ 64"
    by (auto simp: parse_unsatisfied_content_range_total_def result_simps bind_eq_Some_conv
        dest: parse_u64_bound)
  with v True show ?thesis by (auto simp: response_sound_def)
next
  case False
  let ?hs = "up_headers resp"
  show ?thesis
  proof (cases "up_status resp = 206")
    case True
    with assms obtain headers where m: "validate_content_encoding H ?hs = Inr ()"
        "validate_media_content_type H ?hs = Inr ()"
      and h: "collect_safe_response_headers H ?hs = Inr headers"
      and p: "check_partial H ?hs q = Inr ()"
      and v: "v = \<lparr>vr_status = 206, vr_headers = headers, vr_response = Some resp\<rparr>"
      by (auto simp: validate_upstream_response_def Let_def result_simps)
    from collect_safe_ok [OF h] media_checks_ok [OF m] check_partial_ok [OF p] v True
    show ?thesis by (simp add: response_sound_def)
  next
    case not206: False
    with assms False obtain headers out where st: "up_status resp = 200"
      and m: "validate_content_encoding H ?hs = Inr ()" "validate_media_content_type H ?hs = Inr ()"
      and h: "collect_safe_response_headers H ?hs = Inr headers"
      and f: "full_headers ?hs q headers = Inr out"
      and v: "v = \<lparr>vr_status = 200, vr_headers = out, vr_response = Some resp\<rparr>"
      by (auto simp: validate_upstream_response_def Let_def result_simps split: if_split_asm)
    from full_headers_ok [OF f collect_safe_ok [OF h]] media_checks_ok [OF m] v st
    show ?thesis by (cases "range q") (simp_all add: response_sound_def)
  qed
qed

text \<open>
  C30. Nothing of an upstream response reaches the client unless it fits the request: a
  \<open>206\<close> answers a range request, declares exactly the bytes that the range selects and has
  no other length; a full \<open>200\<close> in answer to a range is passed on only when the range
  starts at byte zero or is conditional, and then without advertising seeking; a \<open>416\<close> needs a range and is rebuilt from the declared size alone. Bodies are direct
  media in the identity encoding, never a playlist, and every forwarded header is the one
  value upstream sent under that name.
\<close>

theorem forwarded_response_sound:
  assumes "validate_upstream_response H resp q = Inr v"
  shows "response_sound H resp q v"
  using assms by (rule validate_upstream_response_sound)

definition demo_partial :: upstream_response where
  "demo_partial = \<lparr>up_status = 206, up_headers =
     [(''content-range'', lit ''bytes 2-5/6''), (''content-length'', lit ''4''), (''x-a'', lit ''b'')]\<rparr>"

definition demo_range_request :: remote_stream_request where
  "demo_range_request =
     \<lparr>req_method = Get, range = Some \<lparr>raw = lit ''bytes=2-900'', kind = FromTo 2 900\<rparr>, if_range = None\<rparr>"

lemma demo_partial_accepted:
  "validate_upstream_response ascii_headers demo_partial demo_range_request
     = Inr \<lparr>vr_status = 206, vr_headers = [(ContentLength, lit ''4''), (ContentRange, lit ''bytes 2-5/6'')],
            vr_response = Some demo_partial\<rparr>"
  by (simp add: validate_upstream_response_def demo_partial_def demo_range_request_def
      validate_content_encoding_def validate_media_content_type_def one_header_def get_all_def
      collect_safe_response_headers_def collect_one_def safe_header_table_def check_partial_def
      parse_satisfied_content_range_def header_text_def parse_optional_content_length_def
      validate_content_range_against_request_def ascii_to_str visible_ascii_def
      str_eval Let_def)

theorem forwarded_response_sound_witness:
  "response_sound ascii_headers demo_partial demo_range_request
     \<lparr>vr_status = 206, vr_headers = [(ContentLength, lit ''4''), (ContentRange, lit ''bytes 2-5/6'')],
      vr_response = Some demo_partial\<rparr>"
  using forwarded_response_sound [OF demo_partial_accepted] by simp

subsection \<open>HEAD answered by a probe\<close>

lemma probed_interval:
  assumes "parse_satisfied_content_range H hs = Inr c" and "interval_as_requested c (FromTo 0 0)"
  shows "cr_start c = 0 \<and> cr_end c = 0"
proof -
  have ok: "cr_start c \<le> cr_end c" "\<And>n. cr_total c = Some n \<Longrightarrow> 0 < n"
    using parse_satisfied_content_range_ok [OF assms(1)] by auto
  show ?thesis
  proof (cases "cr_total c")
    case None
    then show ?thesis using assms(2) by (simp add: interval_as_requested_def)
  next
    case (Some n)
    have "{cr_start c..cr_end c} = {i. 0 \<le> i \<and> i \<le> min 0 (n - 1)}"
      using assms(2) Some by (simp add: interval_as_requested_def selected_bytes_interval [OF ok(2)]
          del: selected_bytes.simps)
    then show ?thesis unfolding interval_eq_iff [OF ok(1)] by simp
  qed
qed

lemma probe_headers_view:
  shows "headers_from hs h \<Longrightarrow> distinct (map fst (probe_headers c h))"
    and "ContentRange \<notin> fst ` set (probe_headers c h)"
    and "(ContentLength, b) \<in> set (probe_headers c h) \<longleftrightarrow> map_option nat_text (cr_total c) = Some b"
  by (cases "cr_total c"; auto simp: probe_headers_def headers_from_def distinct_map_filter)+

text \<open>
  A HEAD request that is answered through a one-byte probe is a bodyless \<open>200\<close> with
  each header once and no \<open>Content-Range\<close>; when the source answered the probe with \<open>206\<close>,
  the announced length is the size of the whole resource, not the one byte probed, and is
  left out when the source does not tell the size; an empty resource is announced as such.
\<close>

theorem head_probe_sound:
  assumes "validate_head_probe_response H resp = Some (Inr v)"
  shows "vr_status v = 200 \<and> vr_response v = None \<and> distinct (map fst (vr_headers v))
    \<and> ContentRange \<notin> fst ` set (vr_headers v)
    \<and> (up_status resp = 206 \<longrightarrow>
         (\<exists>c. parse_satisfied_content_range H (up_headers resp) = Inr c
            \<and> cr_start c = 0 \<and> cr_end c = 0
            \<and> (\<forall>b. (ContentLength, b) \<in> set (vr_headers v) \<longleftrightarrow> map_option nat_text (cr_total c) = Some b)))
    \<and> (up_status resp = 416 \<longrightarrow> (ContentLength, lit ''0'') \<in> set (vr_headers v))"
proof (cases "up_status resp = 416")
  case True
  with assms show ?thesis
    by (auto simp: validate_head_probe_response_def result_simps split: if_splits)
next
  case False
  with assms obtain q w u where q: "probe_request H = Some q"
    and w: "validate_upstream_response H resp q = Inr w"
    and step: "full_size_view H w = Inr u"
    and vu: "v = u\<lparr>vr_response := None\<rparr>"
    by (auto simp: validate_head_probe_response_def result_simps split: option.splits if_splits)
  have vn: "vr_response v = None" by (simp add: vu)
  note snd_w = validate_upstream_response_sound [OF w]
  obtain rb where rb: "range q = Some rb" "kind rb = FromTo 0 0"
    using probe_request_ok [OF q] by blast
  show ?thesis
  proof (cases "up_status resp = 206")
    case True
    with snd_w obtain c where wr: "vr_response w = Some resp" "vr_status w = 206"
      and hf: "headers_from (up_headers resp) (vr_headers w)"
      and c: "parse_satisfied_content_range H (up_headers resp) = Inr c"
      and iv: "interval_as_requested c (kind rb)"
      using rb by (auto simp: response_sound_def Let_def partial_ok_def)
    have "vr_status v = 200" "vr_headers v = probe_headers c (vr_headers w)"
      using step wr c vu by (auto simp: full_size_view_def)
    then show ?thesis
      using True vn c probed_interval [OF c] iv rb(2) probe_headers_view(1) [OF hf] probe_headers_view(2,3) by simp
  next
    case False
    with \<open>up_status resp \<noteq> 416\<close> snd_w rb have w200: "vr_status w = 200"
      and hf: "headers_from (up_headers resp) (vr_headers w)"
      and nocr: "get_all (up_headers resp) ''content-range'' = []" and s200: "up_status resp = 200"
      by (auto simp: response_sound_def Let_def)
    with step have vh: "vr_status v = 200" "vr_headers v = vr_headers w"
      using vu by (auto simp: full_size_view_def)
    have "ContentRange \<notin> fst ` set (vr_headers w)"
      using hf nocr by (force simp: headers_from_def)
    with vh vn hf s200 show ?thesis by (simp add: headers_from_def)
  qed
qed

definition demo_probe_answer :: upstream_response where
  "demo_probe_answer = \<lparr>up_status = 206, up_headers =
     [(''content-range'', lit ''bytes 0-0/6''), (''content-length'', lit ''1'')]\<rparr>"

lemma demo_probe_accepted:
  "validate_head_probe_response ascii_headers demo_probe_answer
     = Some (Inr \<lparr>vr_status = 200, vr_headers = [(ContentLength, lit ''6''), (AcceptRanges, lit ''bytes'')],
                  vr_response = None\<rparr>)"
  by (simp add: validate_head_probe_response_def probe_request_total [OF ascii_headers_keep]
      validate_upstream_response_def demo_probe_answer_def
      validate_content_encoding_def validate_media_content_type_def one_header_def get_all_def
      collect_safe_response_headers_def collect_one_def safe_header_table_def check_partial_def
      parse_satisfied_content_range_def header_text_def parse_optional_content_length_def
      validate_content_range_against_request_def ascii_to_str visible_ascii_def
      probe_headers_def full_size_view_def nat_text.simps str_eval Let_def)

theorem head_probe_sound_witness:
  "up_status demo_probe_answer = 206 \<and> (ContentLength, lit ''6'') \<in>
     set [(ContentLength, lit ''6''), (AcceptRanges, lit ''bytes'')]"
  using head_probe_sound [OF demo_probe_accepted] by (simp add: demo_probe_answer_def)

end
