(* ===== verification/Remote_Stream.thy ===== *)
theory Remote_Stream
  imports Target_Policy Stream_Limits Strm_Reference Remote_Response
begin

text \<open>
  Opening a remote stream (\<open>StrmStreamingService\<close> of \<open>remote_stream/mod.rs\<close> and
  \<open>RemoteHttpClient\<close> of \<open>remote_stream/client.rs\<close>): admission, reading the carrier, and the
  loop that validates a target, sends the request, follows redirects and falls back from
  HEAD to a probe. What DNS and the upstream servers answer at each hop is a parameter, so
  the theorems hold against answers that change from hop to hop.
\<close>

definition MAX_REDIRECTS :: nat where
  "MAX_REDIRECTS = 3"

subsection \<open>Configuration\<close>

record streaming_config =
  cfg_allowed_hosts :: "ustr option"
  cfg_user_agent :: ustr

definition new_config :: "ustr \<Rightarrow> ustr option \<Rightarrow> string + streaming_config" where
  "new_config build_version allowed_hosts =
     and_then (from_allowed_hosts allowed_hosts) (\<lambda>_.
       let v = trim build_version
       in if v = [] then Inl ''the Mova build version cannot be empty''
          else Inr \<lparr>cfg_allowed_hosts = opt_filter (\<lambda>a. a \<noteq> []) (map_option trim allowed_hosts),
                    cfg_user_agent = lit ''mova/'' @ v\<rparr>)"

record stream_service =
  svc_policy :: target_policy
  svc_user_agent :: "nat list"

definition new_service :: "header_crate \<Rightarrow> streaming_config \<Rightarrow> string + stream_service" where
  "new_service H config =
     and_then (from_allowed_hosts (cfg_allowed_hosts config)) (\<lambda>policy.
     and_then (ok_or ''the STRM User-Agent contains invalid HTTP header bytes''
         (hv_from_str H (cfg_user_agent config))) (\<lambda>agent.
       Inr \<lparr>svc_policy = policy, svc_user_agent = agent\<rparr>))"

subsection \<open>One upstream request\<close>

text \<open>
  The request handed to the HTTP client: no proxy, no redirects of its own, and the socket
  addresses a host name is pinned to (\<open>None\<close> when the host is an address already).
\<close>

record 'u upstream_request =
  us_method :: remote_stream_method
  us_url :: 'u
  us_headers :: header_map
  us_pinned :: "(ustr \<times> socket_addr list) option"

definition client_for_target :: "'u validated_target \<Rightarrow> (ustr \<times> socket_addr list) option" where
  "client_for_target target =
     (if parse_ip (vt_hostname target) = None then Some (vt_hostname target, vt_addresses target)
      else None)"

definition upstream_request_of ::
  "nat list \<Rightarrow> 'u validated_target \<Rightarrow> remote_stream_request \<Rightarrow> 'u upstream_request" where
  "upstream_request_of agent target q =
     \<lparr>us_method = req_method q, us_url = vt_url target,
      us_headers =
        [(''user-agent'', agent), (''accept'', lit ''*/*''), (''accept-encoding'', lit ''identity'')]
        @ (case range q of None \<Rightarrow> []
           | Some r \<Rightarrow>
               [(''range'', raw r)]
               @ (case if_range q of None \<Rightarrow> [] | Some v \<Rightarrow> [(''if-range'', v)])),
      us_pinned = client_for_target target\<rparr>"

datatype send_outcome =
    ClientBuildFailed
  | HeadersTimedOut
  | SendTimedOut
  | SendFailed
  | Answered upstream_response

definition send ::
  "nat list \<Rightarrow> ('u upstream_request \<Rightarrow> send_outcome) \<Rightarrow> 'u validated_target \<Rightarrow> remote_stream_request
     \<Rightarrow> remote_error + upstream_response" where
  "send agent answer target q =
     (case answer (upstream_request_of agent target q) of
        ClientBuildFailed \<Rightarrow> Inl source_unavailable
      | HeadersTimedOut \<Rightarrow> Inl source_timeout
      | SendTimedOut \<Rightarrow> Inl source_timeout
      | SendFailed \<Rightarrow> Inl source_unavailable
      | Answered r \<Rightarrow> Inr r)"

subsection \<open>Redirects\<close>

definition is_redirect :: "nat \<Rightarrow> bool" where
  "is_redirect status = (status \<in> set [301, 302, 303, 307, 308])"

definition resolve_redirect ::
  "'u url_crate \<Rightarrow> header_crate \<Rightarrow> 'u \<Rightarrow> header_map \<Rightarrow> remote_error + 'u" where
  "resolve_redirect C H current_url hs =
     and_then (header_text H hs ''location'') (\<lambda>location.
     and_then (ok_or response_invalid (url_join C current_url location)) (\<lambda>next_url.
       if url_scheme C current_url = lit ''https'' \<and> url_scheme C next_url = lit ''http''
       then Inl target_forbidden else Inr next_url))"

subsection \<open>The loop\<close>

text \<open>
  A hop is a request that was sent. The loop returns the hops, and the answer; \<open>None\<close> is the
  panic of the probe's \<open>expect\<close>. \<open>gate n url\<close> is the policy check of the \<open>n\<close>-th hop and
  \<open>answer n\<close> the upstream world at that hop.
\<close>

type_synonym 'u hop = "'u validated_target \<times> remote_stream_request"

type_synonym 'u loop_result =
  "'u hop list \<times> (remote_error + validated_response \<times> target_diagnostics) option"

definition after_hop :: "'u hop \<Rightarrow> 'u loop_result \<Rightarrow> 'u loop_result" where
  "after_hop h r = (h # fst r, snd r)"

definition conclude ::
  "header_crate \<Rightarrow> bool \<Rightarrow> upstream_response \<Rightarrow> 'u validated_target \<Rightarrow> remote_stream_request
     \<Rightarrow> (remote_error + validated_response \<times> target_diagnostics) option" where
  "conclude H head_probe response target wire =
     map_option (map_ok (\<lambda>v. (v, vt_diagnostics target)))
       (if head_probe then validate_head_probe_response H response
        else Some (validate_upstream_response H response wire))"

function open_loop ::
  "'u url_crate \<Rightarrow> header_crate \<Rightarrow> nat list \<Rightarrow> (nat \<Rightarrow> 'u \<Rightarrow> remote_error + 'u validated_target)
     \<Rightarrow> (nat \<Rightarrow> 'u upstream_request \<Rightarrow> send_outcome)
     \<Rightarrow> 'u \<Rightarrow> nat \<Rightarrow> remote_stream_request \<Rightarrow> bool \<Rightarrow> nat \<Rightarrow> 'u loop_result" where
  "open_loop C H agent gate answer current_url redirects wire head_probe n =
     (case gate n current_url of
        Inl e \<Rightarrow> ([], Some (Inl e))
      | Inr target \<Rightarrow>
          (case send agent (answer n) target wire of
             Inl e \<Rightarrow> ([(target, wire)], Some (Inl e))
           | Inr response \<Rightarrow>
               if is_redirect (up_status response) then
                 if MAX_REDIRECTS \<le> redirects then ([(target, wire)], Some (Inl source_unavailable))
                 else
                   (case resolve_redirect C H current_url (up_headers response) of
                      Inl e \<Rightarrow> ([(target, wire)], Some (Inl e))
                    | Inr next_url \<Rightarrow>
                        after_hop (target, wire)
                          (open_loop C H agent gate answer next_url (redirects + 1) wire head_probe (n + 1)))
               else if req_method wire = Head \<and> (up_status response = 405 \<or> up_status response = 501) then
                 (case probe_request H of
                    None \<Rightarrow> ([(target, wire)], None)
                  | Some probe \<Rightarrow>
                      after_hop (target, wire)
                        (open_loop C H agent gate answer current_url redirects probe True (n + 1)))
               else ([(target, wire)], conclude H head_probe response target wire)))"
  by pat_completeness auto

text \<open>Every turn of the loop uses up a redirect or turns the HEAD request into the probe.\<close>

definition turns_left :: "nat \<Rightarrow> remote_stream_request \<Rightarrow> nat" where
  "turns_left redirects wire = (MAX_REDIRECTS - redirects) + (if req_method wire = Head then 1 else 0)"

termination open_loop
proof (relation "measure (\<lambda>(C, H, agent, gate, answer, url, redirects, wire, probing, n).
    turns_left redirects wire)", goal_cases)
  case 3
  then show ?case using probe_request_ok by (auto simp: turns_left_def)
qed (auto simp: turns_left_def)

declare open_loop.simps [simp del]

record 'u world =
  dns_at :: "nat \<Rightarrow> ustr \<Rightarrow> nat \<Rightarrow> dns_error + socket_addr list"
  answer_at :: "nat \<Rightarrow> 'u upstream_request \<Rightarrow> send_outcome"

definition policy_gate ::
  "'u url_crate \<Rightarrow> stream_service \<Rightarrow> 'u world \<Rightarrow> ustr \<Rightarrow> nat \<Rightarrow> 'u \<Rightarrow> remote_error + 'u validated_target" where
  "policy_gate C S W hash n url = validate_target C (dns_at W n) (svc_policy S) url hash"

definition open_reference ::
  "'u url_crate \<Rightarrow> header_crate \<Rightarrow> stream_service \<Rightarrow> 'u world \<Rightarrow> 'u http_strm_reference
     \<Rightarrow> remote_stream_request \<Rightarrow> 'u loop_result" where
  "open_reference C H S W reference q =
     open_loop C H (svc_user_agent S) (policy_gate C S W (reference_hash reference)) (answer_at W)
       (ref_url reference) 0 q False 0"

text \<open>
  \<open>RemoteStreamResponse::from_validated\<close>: the body, and with it the permit, is kept when there
  is an upstream body and the client did not ask for the head only.
\<close>

definition keeps_permit :: "remote_stream_request \<Rightarrow> validated_response \<Rightarrow> bool" where
  "keeps_permit q v = (req_method q \<noteq> Head \<and> vr_response v \<noteq> None)"

definition carrier_read_failed :: remote_error where
  "carrier_read_failed =
     \<lparr>err_kind = CarrierReadFailed, err_message = ''the STRM carrier could not be read''\<rparr>"

fun map_reference_error :: "read_reference_error \<Rightarrow> remote_error" where
  "map_reference_error (ReadInvalid TooLarge) =
     \<lparr>err_kind = ReferenceTooLarge, err_message = ''the STRM carrier exceeds the maximum allowed size''\<rparr>"
| "map_reference_error (ReadInvalid _) =
     \<lparr>err_kind = ReferenceInvalid,
      err_message = ''the STRM carrier no longer contains a valid HTTP or HTTPS reference''\<rparr>"
| "map_reference_error (ReadIo e) =
     (if e = IoNotFound
      then \<lparr>err_kind = CarrierNotFound, err_message = ''the STRM carrier no longer exists''\<rparr>
      else carrier_read_failed)"

text \<open>The messages of the two admission errors of \<open>limits.rs\<close>.\<close>

definition limit_error :: "remote_error_kind \<Rightarrow> remote_error" where
  "limit_error k =
     \<lparr>err_kind = k,
      err_message = (if k = UserLimitExceeded then ''the user already has the maximum number of STRM streams''
        else ''the server has no remaining STRM streaming capacity'')\<rparr>"

text \<open>
  What the call answers: an error, a response with or without a body to stream, or a
  panic. The carrier is \<open>None\<close> when the blocking task that reads it panics.
\<close>

datatype open_answer = Failed remote_error | Opened validated_response bool | Panicked

definition answer_of ::
  "remote_stream_request \<Rightarrow> (remote_error + validated_response \<times> target_diagnostics) option \<Rightarrow> open_answer" where
  "answer_of q r =
     (case r of
        None \<Rightarrow> Panicked
      | Some (Inl e) \<Rightarrow> Failed e
      | Some (Inr (v, _)) \<Rightarrow> Opened v (keeps_permit q v))"

definition serve_carrier ::
  "'u url_crate \<Rightarrow> header_crate \<Rightarrow> stream_service \<Rightarrow> 'u world \<Rightarrow> (io_error + nat list) option
     \<Rightarrow> remote_stream_request \<Rightarrow> open_answer" where
  "serve_carrier C H S W carrier q =
     (case carrier of
        None \<Rightarrow> Failed carrier_read_failed
      | Some file \<Rightarrow>
          (case read_http_strm_reference C file of
             Inl e \<Rightarrow> Failed (map_reference_error e)
           | Inr reference \<Rightarrow> answer_of q (snd (open_reference C H S W reference q))))"

fun has_body :: "open_answer \<Rightarrow> bool" where
  "has_body (Opened v b) = b"
| "has_body _ = False"

text \<open>
  The whole call: the permit is taken first, and dropped when the call ends without a body
  that carries it.
\<close>

definition open_carrier ::
  "'u url_crate \<Rightarrow> header_crate \<Rightarrow> stream_service \<Rightarrow> 'u world \<Rightarrow> (io_error + nat list) option
     \<Rightarrow> limits \<Rightarrow> call_id \<Rightarrow> int \<Rightarrow> remote_stream_request \<Rightarrow> limits \<times> open_answer" where
  "open_carrier C H S W carrier l c user_id q =
     (case try_acquire l c user_id of
        (l', Inl e) \<Rightarrow> (l', Failed (limit_error e))
      | (l', Inr permit) \<Rightarrow>
          (let a = serve_carrier C H S W carrier q
           in (if has_body a then l' else drop_permit l' c permit, a)))"

subsection \<open>The hops of the loop\<close>

lemma fst_after_hop [simp]: "fst (after_hop h r) = h # fst r"
  and snd_after_hop [simp]: "snd (after_hop h r) = snd r"
  by (simp_all add: after_hop_def)

lemma send_Inr: "send agent answer t q = Inr r \<longleftrightarrow> answer (upstream_request_of agent t q) = Answered r"
  by (auto simp: send_def split: send_outcome.splits)

text \<open>The four ways a turn of the loop can go on.\<close>

lemma open_loop_cases [case_names stop redirected probed]:
  fixes C :: "'u url_crate"
  assumes "open_loop C H agent gate answer url redirects wire probing n = out"
  obtains (stop) hops where "fst out = hops" "length hops \<le> 1"
      "\<And>h. h \<in> set hops \<Longrightarrow> snd h = wire \<and> gate n url = Inr (fst h)"
      "\<And>v d. snd out = Some (Inr (v, d)) \<Longrightarrow>
         (\<exists>resp h. hops = [h] \<and> answer n (upstream_request_of agent (fst h) wire) = Answered resp
            \<and> (if probing then validate_head_probe_response H resp = Some (Inr v)
               else validate_upstream_response H resp wire = Inr v))"
      "snd out = None \<Longrightarrow> probe_request H = None"
  | (redirected) target next_url where "gate n url = Inr target" "redirects < MAX_REDIRECTS"
      "\<not> (url_scheme C url = lit ''https'' \<and> url_scheme C next_url = lit ''http'')"
      "out = after_hop (target, wire)
         (open_loop C H agent gate answer next_url (redirects + 1) wire probing (n + 1))"
  | (probed) target probe where "gate n url = Inr target" "req_method wire = Head"
      "probe_request H = Some probe"
      "out = after_hop (target, wire) (open_loop C H agent gate answer url redirects probe True (n + 1))"
proof (cases "gate n url")
  case (Inl e)
  with assms show ?thesis by (intro stop [of "[]"]) (auto simp: open_loop.simps)
next
  case gate: (Inr target)
  show ?thesis
  proof (cases "send agent (answer n) target wire")
    case (Inl e)
    with gate assms show ?thesis by (intro stop [of "[(target, wire)]"]) (auto simp: open_loop.simps)
  next
    case sent: (Inr response)
    note eq = open_loop.simps [of C H agent gate answer url redirects wire probing n]
    consider (full) "is_redirect (up_status response)" "MAX_REDIRECTS \<le> redirects"
      | (bad) e where "is_redirect (up_status response)" "\<not> MAX_REDIRECTS \<le> redirects"
          "resolve_redirect C H url (up_headers response) = Inl e"
      | (follow) u where "is_redirect (up_status response)" "\<not> MAX_REDIRECTS \<le> redirects"
          "resolve_redirect C H url (up_headers response) = Inr u"
      | (head) "\<not> is_redirect (up_status response)" "req_method wire = Head"
          "up_status response = 405 \<or> up_status response = 501"
      | (final) "\<not> is_redirect (up_status response)"
          "\<not> (req_method wire = Head \<and> (up_status response = 405 \<or> up_status response = 501))"
      by (cases "resolve_redirect C H url (up_headers response)") blast+
    then show ?thesis
    proof cases
      case full
      with gate sent assms eq show ?thesis by (intro stop [of "[(target, wire)]"]) auto
    next
      case bad
      with gate sent assms eq show ?thesis by (intro stop [of "[(target, wire)]"]) auto
    next
      case follow
      with gate sent assms eq show ?thesis
        by (intro redirected [of target u]) (auto simp: resolve_redirect_def result_simps split: if_splits)
    next
      case head
      show ?thesis
      proof (cases "probe_request H")
        case None
        with head gate sent assms eq show ?thesis by (intro stop [of "[(target, wire)]"]) auto
      next
        case (Some p)
        with head gate sent assms eq show ?thesis by (intro probed [of target p]) auto
      qed
    next
      case final
      then have out: "out = ([(target, wire)], conclude H probing response target wire)"
        using gate sent assms eq by auto
      have "answer n (upstream_request_of agent target wire) = Answered response"
        using sent by (simp add: send_Inr)
      moreover have "snd out = None \<Longrightarrow> probe_request H = None"
        using out by (auto simp: conclude_def validate_head_probe_response_def split: if_splits option.splits)
      moreover have "if probing then validate_head_probe_response H response = Some (Inr v)
          else validate_upstream_response H response wire = Inr v"
        if "snd out = Some (Inr (v, d))" for v d
        using that out by (auto simp: conclude_def result_simps)
      ultimately show ?thesis using out gate by (intro stop [of "[(target, wire)]"]) auto
    qed
  qed
qed

lemma turns_left_redirect: "redirects < MAX_REDIRECTS \<Longrightarrow> turns_left (redirects + 1) wire < turns_left redirects wire"
  by (simp add: turns_left_def)

lemma turns_left_probe:
  "probe_request H = Some probe \<Longrightarrow> req_method wire = Head \<Longrightarrow> turns_left redirects probe < turns_left redirects wire"
  using probe_request_ok(2) by (simp add: turns_left_def)

lemma open_loop_length:
  "length (fst (open_loop C H agent gate answer url redirects wire probing n)) \<le> Suc (turns_left redirects wire)"
proof (induction "turns_left redirects wire" arbitrary: url redirects wire probing n rule: less_induct)
  case less
  show ?case
  proof (cases rule: open_loop_cases [OF refl, of C H agent gate answer url redirects wire probing n,
        case_names stop redirected probed])
    case stop
    then show ?thesis by simp
  next
    case (redirected target next_url)
    note lt = turns_left_redirect [OF redirected(2), of wire]
    from less.hyps [OF lt, of next_url probing "n + 1"] lt redirected(4) show ?thesis by simp
  next
    case (probed target probe)
    note lt = turns_left_probe [OF probed(3,2), of redirects]
    from less.hyps [OF lt, of url True "n + 1"] lt probed(4) show ?thesis by simp
  qed
qed

lemma open_loop_no_panic:
  assumes "probe_request H \<noteq> None"
  shows "snd (open_loop C H agent gate answer url redirects wire probing n) \<noteq> None"
proof (induction "turns_left redirects wire" arbitrary: url redirects wire probing n rule: less_induct)
  case less
  show ?case
  proof (cases rule: open_loop_cases [OF refl, of C H agent gate answer url redirects wire probing n,
        case_names stop redirected probed])
    case stop
    then show ?thesis using assms by blast
  next
    case (redirected target next_url)
    from less.hyps [OF turns_left_redirect [OF redirected(2)]] redirected(4) show ?thesis by simp
  next
    case (probed target probe)
    from less.hyps [OF turns_left_probe [OF probed(3,2)]] probed(4) show ?thesis by simp
  qed
qed

text \<open>
  The request on the wire: the client's own until a HEAD request is replaced by the probe,
  which is never replaced again.
\<close>

lemma open_loop_wire:
  assumes "probing \<Longrightarrow> req_method wire = Get"
    and "h \<in> set (fst (open_loop C H agent gate answer url redirects wire probing n))"
  shows "snd h = wire \<or> (req_method wire = Head \<and> probe_request H = Some (snd h))"
  using assms
proof (induction "turns_left redirects wire" arbitrary: url redirects wire probing n h rule: less_induct)
  case less
  show ?case
  proof (cases rule: open_loop_cases [OF refl, of C H agent gate answer url redirects wire probing n,
        case_names stop redirected probed])
    case stop
    then show ?thesis using less.prems by blast
  next
    case (redirected target next_url)
    from less.hyps [OF turns_left_redirect [OF redirected(2)] less.prems(1), of probing h] redirected(4) less.prems
    show ?thesis by (auto simp del: One_nat_def)
  next
    case (probed target probe)
    have "snd h' = probe" if "h' \<in> set (fst (open_loop C H agent gate answer url redirects probe True (n + 1)))" for h'
      using less.hyps [OF turns_left_probe [OF probed(3,2)] _ that] probe_request_ok(2) [OF probed(3)] by auto
    moreover have "h = (target, wire)
        \<or> h \<in> set (fst (open_loop C H agent gate answer url redirects probe True (n + 1)))"
      using probed(4) less.prems(2) by simp
    ultimately show ?thesis using probed(2,3) by (metis snd_conv)
  qed
qed

text \<open>A response is the validated answer to the last hop.\<close>

lemma open_loop_response:
  assumes "probing \<Longrightarrow> req_method wire = Get"
    and "snd (open_loop C H agent gate answer url redirects wire probing n) = Some (Inr (v, d))"
  shows "\<exists>resp. if probing then validate_head_probe_response H resp = Some (Inr v)
      else validate_upstream_response H resp wire = Inr v
        \<or> (req_method wire = Head \<and> validate_head_probe_response H resp = Some (Inr v))"
  using assms
proof (induction "turns_left redirects wire" arbitrary: url redirects wire probing n rule: less_induct)
  case less
  show ?case
  proof (cases rule: open_loop_cases [OF refl, of C H agent gate answer url redirects wire probing n,
        case_names stop redirected probed])
    case (stop hops)
    with less.prems(2) show ?thesis by (cases probing) fastforce+
  next
    case (redirected target next_url)
    from less.hyps [OF turns_left_redirect [OF redirected(2)] less.prems(1)] redirected(4) less.prems(2)
    show ?thesis by simp
  next
    case (probed target probe)
    have get: "req_method probe = Get" using probe_request_ok(2) [OF probed(3)] .
    have "\<not> probing" using less.prems(1) probed(2) by auto
    moreover have "\<exists>resp. validate_head_probe_response H resp = Some (Inr v)"
      using less.hyps [OF turns_left_probe [OF probed(3,2)], of True url "n + 1"] get probed(4) less.prems(2)
      by simp
    ultimately show ?thesis using probed(2) by auto
  qed
qed

subsection \<open>The policy at every hop\<close>

text \<open>
  What the loop needs of the policy check: a target it lets through has the URL that was
  checked and is good, whatever good means to the provider.
\<close>

locale target_gate =
  fixes C :: "'u url_crate"
    and gate :: "nat \<Rightarrow> 'u \<Rightarrow> remote_error + 'u validated_target"
    and good :: "'u validated_target \<Rightarrow> bool"
  assumes gate_sound: "gate n url = Inr t \<Longrightarrow> vt_url t = url \<and> good t"
begin

lemma every_hop_good:
  assumes "h \<in> set (fst (open_loop C H agent gate answer url redirects wire probing n))"
  shows "good (fst h)"
  using assms
proof (induction "turns_left redirects wire" arbitrary: url redirects wire probing n rule: less_induct)
  case less
  show ?case
  proof (cases rule: open_loop_cases [OF refl, of C H agent gate answer url redirects wire probing n,
        case_names stop redirected probed])
    case (stop hops)
    then show ?thesis using less.prems gate_sound by blast
  next
    case (redirected target next_url)
    from less.hyps [OF turns_left_redirect [OF redirected(2)]] redirected(4) less.prems
      gate_sound [OF redirected(1)]
    show ?thesis by (auto simp del: One_nat_def)
  next
    case (probed target probe)
    from less.hyps [OF turns_left_probe [OF probed(3,2)]] probed(4) less.prems gate_sound [OF probed(1)]
    show ?thesis by auto
  qed
qed

text \<open>Once a hop used https, no later one uses http.\<close>

lemma first_hop_url:
  assumes "fst (open_loop C H agent gate answer url redirects wire probing n) = h # hs"
  shows "vt_url (fst h) = url"
proof (cases rule: open_loop_cases [OF refl, of C H agent gate answer url redirects wire probing n,
      case_names stop redirected probed])
  case (stop hops)
  then show ?thesis using assms gate_sound by (metis list.set_intros(1))
next
  case (redirected target next_url)
  then show ?thesis using assms gate_sound [OF redirected(1)] by auto
next
  case (probed target probe)
  then show ?thesis using assms gate_sound [OF probed(1)] by auto
qed

lemma no_downgrade:
  "successively (\<lambda>h h'. \<not> (url_scheme C (vt_url (fst h)) = lit ''https''
      \<and> url_scheme C (vt_url (fst h')) = lit ''http''))
    (fst (open_loop C H agent gate answer url redirects wire probing n))"
proof (induction "turns_left redirects wire" arbitrary: url redirects wire probing n rule: less_induct)
  case less
  show ?case
  proof (cases rule: open_loop_cases [OF refl, of C H agent gate answer url redirects wire probing n,
        case_names stop redirected probed])
    case (stop hops)
    then show ?thesis by (cases hops) auto
  next
    case (redirected target next_url)
    let ?r = "fst (open_loop C H agent gate answer next_url (redirects + 1) wire probing (n + 1))"
    let ?P = "\<lambda>h h'. \<not> (url_scheme C (vt_url (fst h)) = lit ''https''
      \<and> url_scheme C (vt_url (fst h')) = lit ''http'')"
    have IH: "successively ?P ?r" by (rule less.hyps [OF turns_left_redirect [OF redirected(2)]])
    have "?P (target, wire) h" if "?r = h # hs" for h hs
      using first_hop_url [OF that] gate_sound [OF redirected(1)] redirected(3) by simp
    with IH have "successively ?P ((target, wire) # ?r)"
      by (cases ?r) (simp_all only: successively.simps simp_thms)
    then show ?thesis by (simp only: redirected(4) fst_after_hop)
  next
    case (probed target probe)
    let ?r = "fst (open_loop C H agent gate answer url redirects probe True (n + 1))"
    let ?P = "\<lambda>h h'. \<not> (url_scheme C (vt_url (fst h)) = lit ''https''
      \<and> url_scheme C (vt_url (fst h')) = lit ''http'')"
    have IH: "successively ?P ?r" by (rule less.hyps [OF turns_left_probe [OF probed(3,2)]])
    have "?P (target, wire) h" if "?r = h # hs" for h hs
      using first_hop_url [OF that] gate_sound [OF probed(1)] by auto
    with IH have "successively ?P ((target, wire) # ?r)"
      by (cases ?r) (simp_all only: successively.simps simp_thms)
    then show ?thesis by (simp only: probed(4) fst_after_hop)
  qed
qed

end

text \<open>
  A host that is an address already is not pinned, so the address must be the validated one.
\<close>

lemma parse_ip_no_digit:
  assumes "hex_digit c = None" "c \<noteq> 58"
  shows "parse_ip (c # s) = None"
proof -
  have num: "read_number r m z lim (c # s) = None" for r m z lim
    by (simp add: read_number_def radix_digit_def assms)
  have v4: "read_ipv4 (c # s) = None"
    by (simp add: read_ipv4_def read_octet_def read_separator_def num)
  have "read_groups (Suc 7) 0 8 (c # s) = ([], False, c # s)"
    unfolding read_groups.simps(2) by (simp add: read_separator_def v4 num)
  then have "read_ipv6 (c # s) = None"
    using assms(2) by (simp add: read_ipv6_def read_char_def)
  with v4 show ?thesis by (simp add: parse_ip_def parse_with_def)
qed

lemma parse_ip_bracket: "parse_ip (91 # s) = None"
  by (rule parse_ip_no_digit) (simp_all add: hex_digit_def is_ascii_digit_def)

lemma literal_host_address:
  assumes "validate_target C resolve policy url h = Inr t" and "parse_ip (vt_hostname t) = Some a"
  shows "\<exists>p. vt_addresses t = [\<lparr>sock_ip = a, sock_port = p\<rparr>]"
proof -
  let ?h = "vt_hostname t"
  have "strip_prefix [91] ?h = None"
    using assms(2) parse_ip_bracket by (cases "strip_prefix [91] ?h") (auto simp: strip_prefix_Some)
  then have "ip_literal ?h = Some a" using assms(2) by (simp add: ip_literal_def)
  with assms(1) show ?thesis
    by (auto simp: validate_target_def Let_def result_simps split: if_splits)
qed

text \<open>The addresses the socket of a hop may use are validated ones.\<close>

definition hop_target_ok :: "target_policy \<Rightarrow> 'u url_crate \<Rightarrow> 'u validated_target \<Rightarrow> bool" where
  "hop_target_ok policy C t \<longleftrightarrow>
     target_admissible policy C t
     \<and> (case client_for_target t of
          Some (host, addresses) \<Rightarrow> host = vt_hostname t \<and> addresses = vt_addresses t
        | None \<Rightarrow> (\<exists>a p. parse_ip (vt_hostname t) = Some a
                   \<and> vt_addresses t = [\<lparr>sock_ip = a, sock_port = p\<rparr>]))"

lemma validate_target_hop_ok:
  assumes "validate_target C resolve policy url h = Inr t"
  shows "vt_url t = url \<and> hop_target_ok policy C t"
  using validate_target_admissible [OF assms] literal_host_address [OF assms]
  by (auto simp: hop_target_ok_def client_for_target_def)

interpretation policy_check: target_gate C "policy_gate C S W hash" "hop_target_ok (svc_policy S) C"
  for C S W hash
  by unfold_locales (simp add: policy_gate_def validate_target_hop_ok)

text \<open>
  C6. Opening a reference sends at most five upstream requests, whatever the servers and the
  name service answer: three redirects, one probe and the last. Each goes to a target that
  passed the policy at that very hop and only to the socket addresses validated there; the
  first goes to the URL of the carrier, none follows an https hop with an http one, and each
  carries the client's own request or, for a HEAD request, the probe.
\<close>

theorem open_reference_hops:
  "length (fst (open_reference C H S W ref q)) \<le> 5
   \<and> (\<forall>(t, w) \<in> set (fst (open_reference C H S W ref q)).
        hop_target_ok (svc_policy S) C t
        \<and> (w = q \<or> req_method q = Head \<and> probe_request H = Some w))
   \<and> successively (\<lambda>(t, _) (t', _). \<not> (url_scheme C (vt_url t) = lit ''https''
        \<and> url_scheme C (vt_url t') = lit ''http'')) (fst (open_reference C H S W ref q))
   \<and> (\<forall>t w hs. fst (open_reference C H S W ref q) = (t, w) # hs \<longrightarrow> vt_url t = ref_url ref)"
proof -
  let ?hops = "fst (open_reference C H S W ref q)"
  have "length ?hops \<le> Suc (turns_left 0 q)"
    unfolding open_reference_def by (rule open_loop_length)
  then have "length ?hops \<le> 5" by (simp add: turns_left_def MAX_REDIRECTS_def split: if_splits)
  moreover have "\<forall>(t, w) \<in> set ?hops. hop_target_ok (svc_policy S) C t
      \<and> (w = q \<or> req_method q = Head \<and> probe_request H = Some w)"
    using policy_check.every_hop_good open_loop_wire [of False q]
    by (fastforce simp: open_reference_def)
  moreover have "successively (\<lambda>(t, _) (t', _). \<not> (url_scheme C (vt_url t) = lit ''https''
        \<and> url_scheme C (vt_url t') = lit ''http'')) ?hops"
    using policy_check.no_downgrade by (simp add: open_reference_def case_prod_beta)
  moreover have "\<forall>t w hs. ?hops = (t, w) # hs \<longrightarrow> vt_url t = ref_url ref"
    using policy_check.first_hop_url by (fastforce simp: open_reference_def)
  ultimately show ?thesis by blast
qed

text \<open>
  Opening a reference always comes to an answer without panicking, and a response is
  one that was validated: against the client's own request, or, when a HEAD request was
  refused by the source, as the view of the full resource that the probe gives. A GET
  request is never answered from a probe.
\<close>

theorem open_reference_answers:
  assumes "from_str_keeps_ascii H"
  shows "\<exists>r. snd (open_reference C H S W ref q) = Some r
    \<and> (\<forall>v d. r = Inr (v, d) \<longrightarrow>
         (\<exists>resp. response_sound H resp q v
            \<or> req_method q = Head \<and> validate_head_probe_response H resp = Some (Inr v)))"
proof -
  have "snd (open_reference C H S W ref q) \<noteq> None"
    unfolding open_reference_def by (rule open_loop_no_panic) (simp add: probe_request_total [OF assms])
  then obtain r where r: "snd (open_reference C H S W ref q) = Some r" by blast
  have "\<exists>resp. response_sound H resp q v
      \<or> req_method q = Head \<and> validate_head_probe_response H resp = Some (Inr v)"
    if "r = Inr (v, d)" for v d
    using open_loop_response [of False q C H _ _ _ _ 0 0 v d] r that validate_upstream_response_sound
    unfolding open_reference_def by fastforce
  with r show ?thesis by blast
qed

text \<open>
  A world to run the loop in: the first server redirects, the second refuses HEAD and then
  answers the probe.
\<close>

definition demo_service :: stream_service where
  "demo_service = \<lparr>svc_policy = \<lparr>allowed_private_targets = {}\<rparr>, svc_user_agent = lit ''mova/1''\<rparr>"

definition demo_world :: "(ustr \<times> ustr \<times> nat) world" where
  "demo_world =
     \<lparr>dns_at = (\<lambda>n h p. Inr [\<lparr>sock_ip = V4 (Ipv4 9 9 9 9), sock_port = p\<rparr>]),
      answer_at = (\<lambda>n q.
        if n = 0 then Answered \<lparr>up_status = 302, up_headers = [(''location'', lit ''w.z'')]\<rparr>
        else if us_method q = Head then Answered \<lparr>up_status = 405, up_headers = []\<rparr>
        else Answered demo_probe_answer)\<rparr>"

definition demo_reference :: "(ustr \<times> ustr \<times> nat) http_strm_reference" where
  "demo_reference = \<lparr>ref_url = (lit ''https'', lit ''x.y'', 443), reference_hash = lit ''00''\<rparr>"

definition head_request :: remote_stream_request where
  "head_request = \<lparr>req_method = Head, range = None, if_range = None\<rparr>"

lemma demo_gate:
  assumes "h = lit ''x.y'' \<or> h = lit ''w.z''"
  shows "policy_gate demo_crate demo_service demo_world hash n (lit ''https'', h, 443) =
    Inr \<lparr>vt_url = (lit ''https'', h, 443), vt_hostname = h,
         vt_addresses = [\<lparr>sock_ip = V4 (Ipv4 9 9 9 9), sock_port = 443\<rparr>],
         vt_diagnostics = \<lparr>diag_scheme = lit ''https'', diag_host_fingerprint = h, diag_port = 443,
           diag_reference_hash_prefix = take 8 hash\<rparr>\<rparr>"
  using assms parse_ip_no_digit [of 120] parse_ip_no_digit [of 119]
  by (elim disjE) (simp_all add: policy_gate_def demo_crate_def demo_service_def demo_world_def
      policy_eval str_eval Let_def hex_digit_def)

lemma demo_open:
  "\<exists>d. snd (open_reference demo_crate ascii_headers demo_service demo_world demo_reference head_request)
     = Some (Inr (\<lparr>vr_status = 200, vr_headers = [(ContentLength, lit ''6''), (AcceptRanges, lit ''bytes'')],
                   vr_response = None\<rparr>, d))
   \<and> length (fst (open_reference demo_crate ascii_headers demo_service demo_world demo_reference head_request)) = 3"
proof -
  have join: "resolve_redirect demo_crate ascii_headers (lit ''https'', lit ''x.y'', 443)
      [(''location'', lit ''w.z'')] = Inr (lit ''https'', lit ''w.z'', 443)"
    by (simp add: resolve_redirect_def header_text_def one_header_def get_all_def ascii_to_str
        visible_ascii_def demo_crate_def)
  have answers: "answer_at demo_world n r =
      (if n = 0 then Answered \<lparr>up_status = 302, up_headers = [(''location'', lit ''w.z'')]\<rparr>
       else if us_method r = Head then Answered \<lparr>up_status = 405, up_headers = []\<rparr>
       else Answered demo_probe_answer)" for n r
    by (simp add: demo_world_def)
  have "up_status demo_probe_answer = 206" by (simp add: demo_probe_answer_def)
  then show ?thesis
    using demo_probe_accepted
    by (simp add: open_reference_def demo_reference_def demo_gate join head_request_def
        open_loop.simps send_def upstream_request_of_def answers is_redirect_def
        MAX_REDIRECTS_def probe_request_total [OF ascii_headers_keep] conclude_def del: lit_simps)
qed

theorem open_reference_hops_witness:
  "\<exists>t w hs. fst (open_reference demo_crate ascii_headers demo_service demo_world demo_reference head_request)
       = (t, w) # hs \<and> vt_url t = (lit ''https'', lit ''x.y'', 443)
     \<and> hop_target_ok (svc_policy demo_service) demo_crate t"
proof -
  let ?hops = "fst (open_reference demo_crate ascii_headers demo_service demo_world demo_reference head_request)"
  have "length ?hops = 3" using demo_open by blast
  then obtain t w hs where hops: "?hops = (t, w) # hs" by (cases ?hops) auto
  note h = open_reference_hops [of demo_crate ascii_headers demo_service demo_world demo_reference head_request]
  from h hops have "vt_url t = ref_url demo_reference" by blast
  moreover from h hops have "hop_target_ok (svc_policy demo_service) demo_crate t" by (auto simp: Ball_def)
  ultimately show ?thesis using hops by (auto simp: demo_reference_def)
qed

theorem open_reference_answers_witness:
  "\<exists>r. snd (open_reference demo_crate ascii_headers demo_service demo_world demo_reference head_request) = Some r"
  using open_reference_answers [OF ascii_headers_keep] by blast

text \<open>
  The permits: a call that is refused, fails, panics or answers without a body leaves the
  user's number of streams as it was, and one that answers with a body, always to a GET
  request, adds exactly one stream of that user and of nobody else. A user at the limit is
  refused before the carrier is read.
\<close>

theorem open_carrier_permits:
  assumes "quiescent l" and "c \<notin> fst ` set (calls l)"
    and "open_carrier C H S W carrier l c u q = (l', a)"
  shows "quiescent l'
    \<and> user_streams l' u' = user_streams l u' + (if has_body a \<and> u' = u then 1 else 0)
    \<and> (has_body a \<longrightarrow> req_method q = Get)
    \<and> (per_user_limit l \<le> user_streams l u \<longrightarrow> a = Failed (limit_error UserLimitExceeded))"
proof -
  let ?served = "serve_carrier C H S W carrier q"
  have body: "has_body ?served \<Longrightarrow> req_method q = Get"
    by (cases "req_method q") (auto simp: serve_carrier_def answer_of_def keeps_permit_def
        split: option.splits sum.splits)
  have l': "l' = (case try_acquire l c u of (s', Inl e) \<Rightarrow> s'
           | (s', Inr p) \<Rightarrow> if has_body ?served then s' else drop_permit s' c p)"
    and a: "a = (case snd (try_acquire l c u) of Inl e \<Rightarrow> Failed (limit_error e) | Inr p \<Rightarrow> ?served)"
    using assms(3) by (auto simp: open_carrier_def Let_def split: prod.splits sum.splits)
  note work = stream_admission.admitted_work [OF assms(1,2) l', of u']
  have full: "snd (try_acquire l c u) = Inl UserLimitExceeded" if "per_user_limit l \<le> user_streams l u"
    using that by (cases rule: try_acquire_cases [OF assms(1,2), of u]) simp_all
  show ?thesis
  proof (cases "snd (try_acquire l c u)")
    case (Inl e)
    then show ?thesis using work a full by auto
  next
    case (Inr p)
    then show ?thesis using work a body full by auto
  qed
qed

theorem open_carrier_permits_witness:
  "\<exists>l l'. limits_new 1 1 = Some l
     \<and> open_carrier demo_crate ascii_headers demo_service demo_world None l 0 7 head_request
         = (l', Failed carrier_read_failed)
     \<and> user_streams l' 7 = user_streams l 7"
proof -
  obtain l where new: "limits_new 1 1 = Some l"
    and l: "calls l = []" "users l = (\<lambda>_. None)" "per_user_limit l = 1" "global_limit l = 1"
    by (simp add: limits_new_def)
  have q: "quiescent l" using limits_new_inv [OF new] l by (simp add: quiescent_def)
  obtain l' a where o: "open_carrier demo_crate ascii_headers demo_service demo_world None l 0 7 head_request = (l', a)"
    by fastforce
  have "a = Failed carrier_read_failed"
    using o l new
    by (cases rule: try_acquire_cases [OF q, of 0 7])
      (auto simp: open_carrier_def serve_carrier_def user_streams_def total_streams_def count_calls_def Let_def)
  with o new open_carrier_permits [OF q _ o, of 7] l show ?thesis by auto
qed

end
