(* ===== verification/Api_Errors.thy ===== *)
theory Api_Errors
  imports Remote_Errors
begin

text \<open>
  The errors of the application layer (\<open>mova-application/src/error.rs\<close>) and their HTTP
  form (\<open>mova-server/src/error.rs\<close>): the conversion to \<open>ApiError\<close>, the response that is
  built from it, and the middleware that gives every other error response the same shape.
\<close>

subsection \<open>Application errors\<close>

text \<open>
  The parameters of an error are a JSON object; only integers, strings and arrays of strings
  occur in it.
\<close>

datatype json_value = JNumber int | JString ustr | JStrings "ustr list"

type_synonym error_params = "(string \<times> json_value) list"

datatype business_error_kind = Validation | Conflict | Unauthorized | Forbidden | NotFound

record business_error =
  be_kind :: business_error_kind
  be_code :: string
  be_params :: error_params
  be_diagnostic_message :: ustr

datatype auth_token_error_code =
    TokenExpired | InvalidToken | InvalidRefreshToken | RefreshTokenExpired | SessionRevoked

fun auth_token_code_str :: "auth_token_error_code \<Rightarrow> string" where
  "auth_token_code_str TokenExpired = ''token_expired''"
| "auth_token_code_str InvalidToken = ''invalid_token''"
| "auth_token_code_str InvalidRefreshToken = ''invalid_refresh_token''"
| "auth_token_code_str RefreshTokenExpired = ''refresh_token_expired''"
| "auth_token_code_str SessionRevoked = ''session_revoked''"

fun auth_token_message :: "auth_token_error_code \<Rightarrow> ustr" where
  "auth_token_message TokenExpired = lit ''Access token expired''"
| "auth_token_message InvalidToken = lit ''Invalid access token''"
| "auth_token_message InvalidRefreshToken = lit ''Invalid refresh token''"
| "auth_token_message RefreshTokenExpired = lit ''Refresh token expired''"
| "auth_token_message SessionRevoked = lit ''Session revoked''"

datatype application_error =
    AppBusiness business_error
  | AppValidation ustr
  | AppConflict ustr
  | AppUnauthorized ustr
  | AppAuthToken auth_token_error_code ustr
  | AppForbidden ustr
  | AppNotFound ustr
  | AppUnexpected ustr

definition business :: "business_error_kind \<Rightarrow> string \<Rightarrow> error_params \<Rightarrow> ustr \<Rightarrow> application_error" where
  "business k code params message =
     AppBusiness \<lparr>be_kind = k, be_code = code, be_params = params, be_diagnostic_message = message\<rparr>"

definition auth_token :: "auth_token_error_code \<Rightarrow> application_error" where
  "auth_token code = AppAuthToken code (auth_token_message code)"

subsection \<open>HTTP errors\<close>

datatype api_error =
    ApiBusiness nat string error_params ustr
  | BadRequest ustr
  | ApiConflict ustr
  | ApiUnauthorized ustr
  | UnauthorizedCode auth_token_error_code ustr
  | ApiForbidden ustr
  | ApiNotFound ustr
  | TooManyRequests ustr nat
  | ServiceUnavailable ustr
  | RangeNotSatisfiable ustr nat
  | Internal

fun business_status :: "business_error_kind \<Rightarrow> nat" where
  "business_status Validation = 400"
| "business_status Conflict = 409"
| "business_status Unauthorized = 401"
| "business_status Forbidden = 403"
| "business_status NotFound = 404"

fun from_application_error :: "application_error \<Rightarrow> api_error" where
  "from_application_error (AppBusiness e) =
     ApiBusiness (business_status (be_kind e)) (be_code e) (be_params e) (be_diagnostic_message e)"
| "from_application_error (AppValidation m) = BadRequest m"
| "from_application_error (AppConflict m) = ApiConflict m"
| "from_application_error (AppUnauthorized m) = ApiUnauthorized m"
| "from_application_error (AppAuthToken code m) = UnauthorizedCode code m"
| "from_application_error (AppForbidden m) = ApiForbidden m"
| "from_application_error (AppNotFound m) = ApiNotFound m"
| "from_application_error (AppUnexpected source) = Internal"

fun remote_stream_status :: "remote_error_kind \<Rightarrow> nat" where
  "remote_stream_status InvalidRequest = 400"
| "remote_stream_status ReferenceTooLarge = 413"
| "remote_stream_status ReferenceInvalid = 422"
| "remote_stream_status TargetForbidden = 403"
| "remote_stream_status RangeNotSupported = 416"
| "remote_stream_status UserLimitExceeded = 429"
| "remote_stream_status SourceUnavailable = 502"
| "remote_stream_status ResponseInvalid = 502"
| "remote_stream_status SourceTimeout = 504"
| "remote_stream_status CapacityExhausted = 503"
| "remote_stream_status CarrierNotFound = 404"
| "remote_stream_status CarrierReadFailed = 500"

definition from_remote_stream_error :: "remote_error \<Rightarrow> api_error" where
  "from_remote_stream_error e =
     (if err_kind e = CarrierNotFound then ApiNotFound (lit (err_message e))
      else if err_kind e = CarrierReadFailed then Internal
      else ApiBusiness (remote_stream_status (err_kind e)) (error_code (err_kind e)) []
             (lit (err_message e)))"

subsection \<open>Responses\<close>

record api_envelope =
  env_code :: nat
  env_error_code :: string
  env_params :: error_params
  env_message :: ustr

datatype response_body = JsonBody api_envelope | RawBody "nat list"

record http_response =
  resp_status :: nat
  resp_headers :: "(string \<times> nat list) list"
  resp_body :: response_body

text \<open>\<open>(status, Json(..)).into_response()\<close>\<close>

definition json_response :: "api_envelope \<Rightarrow> http_response" where
  "json_response env =
     \<lparr>resp_status = env_code env, resp_headers = [(''content-type'', lit ''application/json'')],
      resp_body = JsonBody env\<rparr>"

definition envelope :: "nat \<Rightarrow> string \<Rightarrow> error_params \<Rightarrow> ustr \<Rightarrow> api_envelope" where
  "envelope status code params message =
     \<lparr>env_code = status, env_error_code = code, env_params = params, env_message = message\<rparr>"

fun error_parts :: "api_error \<Rightarrow> api_envelope \<times> nat option \<times> nat option" where
  "error_parts (ApiBusiness status code params m) = (envelope status code params m, None, None)"
| "error_parts (BadRequest m) = (envelope 400 ''invalid_request'' [] m, None, None)"
| "error_parts (ApiConflict m) = (envelope 409 ''resource_conflict'' [] m, None, None)"
| "error_parts (ApiUnauthorized m) = (envelope 401 ''unauthorized'' [] m, None, None)"
| "error_parts (UnauthorizedCode code m) = (envelope 401 (auth_token_code_str code) [] m, None, None)"
| "error_parts (ApiForbidden m) = (envelope 403 ''forbidden'' [] m, None, None)"
| "error_parts (ApiNotFound m) = (envelope 404 ''resource_not_found'' [] m, None, None)"
| "error_parts (TooManyRequests m s) =
     (envelope 429 ''rate_limited'' [(''retry_after_seconds'', JNumber (int s))] m, Some s, None)"
| "error_parts (ServiceUnavailable m) = (envelope 503 ''service_unavailable'' [] m, None, None)"
| "error_parts (RangeNotSatisfiable m n) =
     (envelope 416 ''range_not_satisfiable'' [(''file_size'', JNumber (int n))] m, None, Some n)"
| "error_parts Internal = (envelope 500 ''internal_error'' [] (lit ''internal server error''), None, None)"

text \<open>
  The two header values consist of digits and of \<open>bytes */\<close> with digits, which the header
  type accepts, so the fall-back values never apply.
\<close>

definition into_response :: "api_error \<Rightarrow> http_response" where
  "into_response e =
     (case error_parts e of (env, retry_after_seconds, content_range) \<Rightarrow>
        (json_response env)\<lparr>resp_headers := resp_headers (json_response env)
           @ (case retry_after_seconds of None \<Rightarrow> [] | Some s \<Rightarrow> [(''retry-after'', nat_text s)])
           @ (case content_range of None \<Rightarrow> []
              | Some n \<Rightarrow> [(''content-range'', lit ''bytes */'' @ nat_text n)])\<rparr>)"

definition is_client_error :: "nat \<Rightarrow> bool" where
  "is_client_error status = (400 \<le> status \<and> status < 500)"

definition is_server_error :: "nat \<Rightarrow> bool" where
  "is_server_error status = (500 \<le> status \<and> status < 600)"

definition default_error_code :: "nat \<Rightarrow> string" where
  "default_error_code status =
     (if status = 401 then ''unauthorized''
      else if status = 403 then ''forbidden''
      else if status = 404 then ''resource_not_found''
      else if status = 409 then ''resource_conflict''
      else if status = 429 then ''rate_limited''
      else if status = 503 then ''service_unavailable''
      else if status = 416 then ''range_not_satisfiable''
      else if is_client_error status then ''invalid_request''
      else ''internal_error'')"

text \<open>
  The middleware. The reading of a header as text and the canonical reason of a status are
  the \<open>http\<close> crate's. A body of more than 64 KiB is not read.
\<close>

definition is_json_response :: "(nat list \<Rightarrow> ustr option) \<Rightarrow> http_response \<Rightarrow> bool" where
  "is_json_response to_str r =
     (case map_of (resp_headers r) ''content-type'' of
        None \<Rightarrow> False
      | Some v \<Rightarrow>
          (case to_str v of None \<Rightarrow> False | Some t \<Rightarrow> starts_with (lit ''application/json'') t))"

fun raw_text :: "response_body \<Rightarrow> ustr option" where
  "raw_text (JsonBody env) = None"
| "raw_text (RawBody bytes) = (if 64 * 1024 < length bytes then None else utf8_decode bytes)"

definition normalize_error_response ::
  "(nat list \<Rightarrow> ustr option) \<Rightarrow> (nat \<Rightarrow> ustr option) \<Rightarrow> http_response \<Rightarrow> http_response" where
  "normalize_error_response to_str canonical_reason r =
     (let status = resp_status r in
      if \<not> is_client_error status \<and> \<not> is_server_error status then r
      else if is_json_response to_str r then r
      else
        let message =
              (case opt_filter (\<lambda>m. trim m \<noteq> []) (raw_text (resp_body r)) of
                 Some m \<Rightarrow> m
               | None \<Rightarrow> (case canonical_reason status of None \<Rightarrow> lit ''request failed'' | Some m \<Rightarrow> m));
            n = json_response (envelope status (default_error_code status) [] message)
        in n\<lparr>resp_headers := resp_headers n @
             List.filter (\<lambda>(h, _). h \<noteq> ''content-type'' \<and> h \<noteq> ''content-length'') (resp_headers r)\<rparr>)"

subsection \<open>The contract of the clients\<close>

text \<open>
  An error response as the clients read it: an error status, a JSON envelope that repeats
  the status, and an error code.
\<close>

definition error_contract :: "http_response \<Rightarrow> bool" where
  "error_contract r \<longleftrightarrow>
     (is_client_error (resp_status r) \<or> is_server_error (resp_status r))
     \<and> map_of (resp_headers r) ''content-type'' = Some (lit ''application/json'')
     \<and> (\<exists>env. resp_body r = JsonBody env \<and> env_code env = resp_status r \<and> env_error_code env \<noteq> [])"

definition response_envelope :: "http_response \<Rightarrow> api_envelope option" where
  "response_envelope r = (case resp_body r of JsonBody env \<Rightarrow> Some env | RawBody _ \<Rightarrow> None)"

lemma into_response_simps [simp]:
  "resp_status (into_response e) = env_code (fst (error_parts e))"
  "resp_body (into_response e) = JsonBody (fst (error_parts e))"
  "map_of (resp_headers (into_response e)) ''content-type'' = Some (lit ''application/json'')"
  by (auto simp: into_response_def json_response_def split: prod.splits)

text \<open>
  Every failure of a remote stream reaches the client as a JSON error with the status
  assigned to its kind and the stable code of its kind, also the two kinds that are
  converted on a path of their own; the text of a carrier read failure is not passed on.
\<close>

theorem remote_error_contract:
  "resp_status (into_response (from_remote_stream_error e)) = remote_stream_status (err_kind e)
   \<and> error_contract (into_response (from_remote_stream_error e))
   \<and> (\<exists>env. response_envelope (into_response (from_remote_stream_error e)) = Some env
        \<and> env_error_code env = error_code (err_kind e)
        \<and> env_message env = (if err_kind e = CarrierReadFailed then lit ''internal server error''
                             else lit (err_message e)))"
  by (cases "err_kind e")
    (simp_all add: from_remote_stream_error_def error_contract_def response_envelope_def
      envelope_def is_client_error_def is_server_error_def)

text \<open>
  The HTTP form of an application error meets the contract exactly when it is not a
  business error with an empty code, and an unexpected error tells the client nothing of
  its cause.
\<close>

theorem application_error_contract:
  "(error_contract (into_response (from_application_error e))
      \<longleftrightarrow> (\<nexists>b. e = AppBusiness b \<and> be_code b = []))
   \<and> into_response (from_application_error (AppUnexpected s)) = into_response Internal"
proof (cases e)
  case (AppBusiness b)
  then show ?thesis
    by (cases "be_kind b") (simp_all add: error_contract_def envelope_def is_client_error_def)
next
  case (AppAuthToken c m)
  then show ?thesis by (cases c) (simp_all add: error_contract_def envelope_def is_client_error_def)
qed (simp_all add: error_contract_def envelope_def is_client_error_def is_server_error_def)

lemma default_error_code_nonempty: "default_error_code s \<noteq> []"
  by (simp add: default_error_code_def)

text \<open>
  The middleware gives every error response of the framework the contract's shape with
  its status kept, and leaves the responses of the program's own errors and all responses
  that are no errors as they are.
\<close>

theorem middleware_contract:
  assumes "to_str (lit ''application/json'') = Some (lit ''application/json'')"
  shows "(\<not> is_json_response to_str r \<and> (is_client_error (resp_status r) \<or> is_server_error (resp_status r))
          \<longrightarrow> error_contract (normalize_error_response to_str reason r)
            \<and> resp_status (normalize_error_response to_str reason r) = resp_status r)
       \<and> (\<not> is_client_error (resp_status r) \<and> \<not> is_server_error (resp_status r)
          \<longrightarrow> normalize_error_response to_str reason r = r)
       \<and> normalize_error_response to_str reason (into_response e) = into_response e"
proof (intro conjI impI)
  assume "\<not> is_json_response to_str r \<and> (is_client_error (resp_status r) \<or> is_server_error (resp_status r))"
  then show "error_contract (normalize_error_response to_str reason r)"
    and "resp_status (normalize_error_response to_str reason r) = resp_status r"
    using default_error_code_nonempty
    by (auto simp: normalize_error_response_def error_contract_def json_response_def envelope_def Let_def)
next
  have "is_json_response to_str (into_response e)"
    using assms by (simp add: is_json_response_def starts_with_def)
  then show "normalize_error_response to_str reason (into_response e) = into_response e"
    by (simp add: normalize_error_response_def Let_def)
qed (simp add: normalize_error_response_def)

definition demo_not_found :: http_response where
  "demo_not_found = \<lparr>resp_status = 404, resp_headers = [(''x-a'', lit ''b'')], resp_body = RawBody []\<rparr>"

theorem middleware_contract_witness:
  "error_contract (normalize_error_response (\<lambda>v. Some v) (\<lambda>_. None) demo_not_found)"
  using middleware_contract [of "\<lambda>v. Some v" demo_not_found "\<lambda>_. None" Internal]
  by (simp add: demo_not_found_def is_json_response_def is_client_error_def)

end
