(* ===== verification/Auth_Rate_Limit.thy ===== *)
theory Auth_Rate_Limit
  imports Api_Errors "HOL-Library.AList"
begin

text \<open>
  The limiter of failed authentication attempts (\<open>mova-server/src/auth_rate_limit.rs\<close>) and
  its use by the login handlers (\<open>handlers/auth.rs\<close>). Instants and durations are naturals
  counting nanoseconds; \<open>duration_since\<close> saturates at zero, as natural subtraction does.
  The hash map is an association list; the order in which the standard library iterates
  over it is the parameter \<open>order\<close>.
\<close>

record auth_settings =
  max_failures :: nat
  window :: nat
  lockout :: nat
  max_keys :: nat

definition default_auth_settings :: auth_settings where
  "default_auth_settings =
     \<lparr>max_failures = 5, window = 5 * 60 * 10 ^ 9, lockout = 15 * 60 * 10 ^ 9, max_keys = 4096\<rparr>"

record auth_entry =
  window_started_at :: nat
  failed_attempts :: nat
  blocked_until :: "nat option"
  last_seen_at :: nat

type_synonym auth_entries = "(ustr \<times> auth_entry) list"

definition new_entry :: "nat \<Rightarrow> auth_entry" where
  "new_entry now =
     \<lparr>window_started_at = now, failed_attempts = 0, blocked_until = None, last_seen_at = now\<rparr>"

definition remaining_seconds :: "nat \<Rightarrow> nat \<Rightarrow> nat" where
  "remaining_seconds now deadline =
     (let remaining = deadline - now
      in remaining div 10 ^ 9 + (if 0 < remaining mod 10 ^ 9 then 1 else 0))"

definition record_success :: "ustr \<Rightarrow> auth_entries \<Rightarrow> auth_entries" where
  "record_success key entries = AList.delete key entries"

definition check_at :: "auth_settings \<Rightarrow> ustr \<Rightarrow> nat \<Rightarrow> auth_entries \<Rightarrow> auth_entries \<times> (nat + unit)" where
  "check_at S key now entries =
     (case map_of entries key of
        None \<Rightarrow> (entries, Inr ())
      | Some e0 \<Rightarrow>
          (let e = e0\<lparr>last_seen_at := now\<rparr> in
           case blocked_until e of
             Some b \<Rightarrow>
               if now < b then (AList.update key e entries, Inl (remaining_seconds now b))
               else (AList.update key (new_entry now) entries, Inr ())
           | None \<Rightarrow>
               (AList.update key
                  (if window S \<le> now - window_started_at e then new_entry now else e) entries,
                Inr ())))"

definition make_room ::
  "auth_settings \<Rightarrow> (auth_entries \<Rightarrow> auth_entries) \<Rightarrow> nat \<Rightarrow> ustr \<Rightarrow> auth_entries \<Rightarrow> auth_entries" where
  "make_room S order now incoming_key entries =
     (if incoming_key \<in> fst ` set entries \<or> length entries < max_keys S then entries
      else
        let retention = max (window S) (lockout S) * 2;
            kept = List.filter (\<lambda>(_, e).
                (case blocked_until e of None \<Rightarrow> False | Some b \<Rightarrow> now < b)
                \<or> now - last_seen_at e < retention) entries
        in if length kept < max_keys S then kept
           else (case min_by_key (\<lambda>(_, e). last_seen_at e) (order kept) of
                   None \<Rightarrow> kept
                 | Some (oldest_key, _) \<Rightarrow> AList.delete oldest_key kept))"

text \<open>The end of \<open>record_failure_at\<close>: count, and lock at the threshold.\<close>

definition count_failure ::
  "auth_settings \<Rightarrow> ustr \<Rightarrow> nat \<Rightarrow> auth_entries \<Rightarrow> auth_entry \<Rightarrow> auth_entries \<times> nat option" where
  "count_failure S key now entries e0 =
     (let e = e0\<lparr>failed_attempts := min (failed_attempts e0 + 1) (2 ^ 32 - 1)\<rparr> in
      if failed_attempts e < max_failures S then (AList.update key e entries, None)
      else
        let b = now + lockout S
        in (AList.update key (e\<lparr>blocked_until := Some b\<rparr>) entries, Some (remaining_seconds now b)))"

definition record_failure_at ::
  "auth_settings \<Rightarrow> (auth_entries \<Rightarrow> auth_entries) \<Rightarrow> ustr \<Rightarrow> nat \<Rightarrow> auth_entries
     \<Rightarrow> auth_entries \<times> nat option" where
  "record_failure_at S order key now entries0 =
     (let entries = make_room S order now key entries0;
          e0 = (case map_of entries key of None \<Rightarrow> new_entry now | Some e \<Rightarrow> e);
          e = e0\<lparr>last_seen_at := now\<rparr>
      in case blocked_until e of
           Some b \<Rightarrow>
             if now < b then (AList.update key e entries, Some (remaining_seconds now b))
             else count_failure S key now entries (new_entry now)
         | None \<Rightarrow>
             count_failure S key now entries
               (if window S \<le> now - window_started_at e then new_entry now else e))"

subsection \<open>The handlers\<close>

text \<open>\<open>to_lowercase\<close> and SHA-256 are parameters.\<close>

definition account_rate_limit_key :: "(ustr \<Rightarrow> ustr) \<Rightarrow> (ustr \<Rightarrow> ustr) \<Rightarrow> ustr \<Rightarrow> ustr" where
  "account_rate_limit_key to_lowercase sha256 username =
     lit ''account:'' @ sha256 (to_lowercase (trim username))"

definition auth_rate_limit_error :: "nat \<Rightarrow> api_error" where
  "auth_rate_limit_error s =
     TooManyRequests (lit ''too many authentication attempts; try again later'') s"

fun is_counted_auth_failure :: "application_error \<Rightarrow> bool \<Rightarrow> bool" where
  "is_counted_auth_failure (AppUnauthorized _) c = True"
| "is_counted_auth_failure (AppValidation _) c = c"
| "is_counted_auth_failure (AppBusiness e) c =
     (case be_kind e of Unauthorized \<Rightarrow> True | Validation \<Rightarrow> c | _ \<Rightarrow> False)"
| "is_counted_auth_failure _ c = False"

definition enforce_auth_rate_limit ::
  "auth_settings \<Rightarrow> ustr \<Rightarrow> nat \<Rightarrow> auth_entries \<Rightarrow> auth_entries \<times> (api_error + unit)" where
  "enforce_auth_rate_limit S key now entries =
     (case check_at S key now entries of (entries', r) \<Rightarrow> (entries', map_err auth_rate_limit_error r))"

definition resolve_auth_attempt ::
  "auth_settings \<Rightarrow> (auth_entries \<Rightarrow> auth_entries) \<Rightarrow> ustr \<Rightarrow> bool \<Rightarrow> nat \<Rightarrow> application_error + 'a
     \<Rightarrow> auth_entries \<Rightarrow> auth_entries \<times> (api_error + 'a)" where
  "resolve_auth_attempt S order key count_validation now result entries =
     (case result of
        Inr v \<Rightarrow> (record_success key entries, Inr v)
      | Inl e \<Rightarrow>
          if is_counted_auth_failure e count_validation then
            (case record_failure_at S order key now entries of
               (entries', Some s) \<Rightarrow> (entries', Inl (auth_rate_limit_error s))
             | (entries', None) \<Rightarrow> (entries', Inl (from_application_error e)))
          else (entries, Inl (from_application_error e)))"

text \<open>One attempt without interleaving: the check, the password check, and its outcome.\<close>

definition auth_attempt ::
  "auth_settings \<Rightarrow> (auth_entries \<Rightarrow> auth_entries) \<Rightarrow> ustr \<Rightarrow> bool \<Rightarrow> nat \<Rightarrow> application_error + 'a
     \<Rightarrow> auth_entries \<Rightarrow> auth_entries \<times> (api_error + 'a)" where
  "auth_attempt S order key count_validation now result entries =
     (case enforce_auth_rate_limit S key now entries of
        (entries', Inl e) \<Rightarrow> (entries', Inl e)
      | (entries', Inr _) \<Rightarrow> resolve_auth_attempt S order key count_validation now result entries')"

subsection \<open>The table stays bounded\<close>

text \<open>
  All that is known of the iteration order of a hash map: it visits exactly the entries.
\<close>

definition iterates :: "(auth_entries \<Rightarrow> auth_entries) \<Rightarrow> bool" where
  "iterates order \<longleftrightarrow> (\<forall>xs. set (order xs) = set xs)"

definition table_ok :: "auth_settings \<Rightarrow> auth_entries \<Rightarrow> bool" where
  "table_ok S entries \<longleftrightarrow> distinct (map fst entries) \<and> length entries \<le> max 1 (max_keys S)"

lemma keys_card: "distinct (map fst entries) \<Longrightarrow> length entries = card (fst ` set entries)"
  by (metis distinct_card length_map set_map)

lemma distinct_keys_filter: "distinct (map fst xs) \<Longrightarrow> distinct (map fst (List.filter P xs))"
  by (induction xs) auto

lemma length_update:
  assumes "distinct (map fst entries)"
  shows "length (AList.update k e entries) = (if k \<in> fst ` set entries then length entries else Suc (length entries))"
proof -
  have "length (AList.update k e entries) = card (insert k (fst ` set entries))"
    using keys_card [OF distinct_update [OF assms]] by (simp add: dom_update)
  with assms show ?thesis by (simp add: keys_card insert_absorb)
qed

lemma length_delete:
  assumes "distinct (map fst entries)" "k \<in> fst ` set entries"
  shows "length (AList.delete k entries) = length entries - 1"
proof -
  have "length (AList.delete k entries) = length (remove1 k (map fst entries))"
    using assms(1) by (metis delete_keys distinct_remove1_removeAll length_map)
  with assms(2) show ?thesis by (simp add: length_remove1)
qed

lemma make_room_ok:
  assumes "iterates order" "table_ok S entries"
  shows "distinct (map fst (make_room S order now k entries))
    \<and> (k \<notin> fst ` set (make_room S order now k entries) \<longrightarrow>
         Suc (length (make_room S order now k entries)) \<le> max 1 (max_keys S))
    \<and> length (make_room S order now k entries) \<le> max 1 (max_keys S)"
proof (cases "k \<in> fst ` set entries \<or> length entries < max_keys S")
  case True
  then show ?thesis using assms(2) by (auto simp: make_room_def table_ok_def)
next
  case False
  define kept where "kept = List.filter (\<lambda>(_, e).
                (case blocked_until e of None \<Rightarrow> False | Some b \<Rightarrow> now < b)
                \<or> now - last_seen_at e < max (window S) (lockout S) * 2) entries"
  have kd: "distinct (map fst kept)" and kl: "length kept \<le> max 1 (max_keys S)"
    using assms(2) by (auto simp: kept_def table_ok_def distinct_keys_filter intro: order_trans [OF length_filter_le])
  have room: "make_room S order now k entries =
      (if length kept < max_keys S then kept
       else (case min_by_key (\<lambda>(_, e). last_seen_at e) (order kept) of
               None \<Rightarrow> kept | Some (o', _) \<Rightarrow> AList.delete o' kept))"
    unfolding kept_def using False by (simp add: make_room_def Let_def)
  show ?thesis
  proof (cases "length kept < max_keys S \<or> kept = []")
    case True
    moreover have "order [] = []" using assms(1) by (metis iterates_def set_empty)
    ultimately show ?thesis using kd room by (auto simp: not_less)
  next
    case False
    then have "order kept \<noteq> []" using assms(1) by (metis iterates_def set_empty)
    then obtain o' e where m: "min_by_key (\<lambda>(_, e). last_seen_at e) (order kept) = Some (o', e)"
      by (metis min_by_key_None_iff not_None_eq surj_pair)
    then have mem: "o' \<in> fst ` set kept"
      using min_by_key_in [OF m] assms(1) by (force simp: iterates_def)
    have "make_room S order now k entries = AList.delete o' kept" using False room m by auto
    moreover have "length (AList.delete o' kept) = length kept - 1"
      using kd mem by (rule length_delete)
    ultimately show ?thesis using kd kl mem False by (auto simp: distinct_delete)
  qed
qed

inductive auth_reachable :: "auth_settings \<Rightarrow> (auth_entries \<Rightarrow> auth_entries) \<Rightarrow> auth_entries \<Rightarrow> bool"
  for S order where
  empty: "auth_reachable S order []"
| check: "auth_reachable S order es \<Longrightarrow> auth_reachable S order (fst (check_at S key now es))"
| failure: "auth_reachable S order es \<Longrightarrow> auth_reachable S order (fst (record_failure_at S order key now es))"
| success: "auth_reachable S order es \<Longrightarrow> auth_reachable S order (record_success key es)"

lemma map_of_key: "map_of es k = Some e \<Longrightarrow> k \<in> fst ` set es"
  by (metis domI dom_map_of_conv_image_fst)

lemma check_at_update:
  "fst (check_at S key now es) = es
   \<or> (key \<in> fst ` set es \<and> (\<exists>e. fst (check_at S key now es) = AList.update key e es))"
proof (cases "map_of es key")
  case (Some e)
  then show ?thesis
    using map_of_key [OF Some] by (cases "blocked_until e") (auto simp: check_at_def Let_def)
qed (simp add: check_at_def)

lemma table_ok_update: "table_ok S es \<Longrightarrow> k \<in> fst ` set es \<Longrightarrow> table_ok S (AList.update k e es)"
  by (simp add: table_ok_def distinct_update length_update)

lemma check_at_ok: "table_ok S es \<Longrightarrow> table_ok S (fst (check_at S key now es))"
  using check_at_update [of S key now es] table_ok_update by metis

lemma count_failure_update: "\<exists>e. fst (count_failure S key now es e0) = AList.update key e es"
  unfolding count_failure_def Let_def by (simp only: if_distrib [of fst] fst_conv split: if_split) blast

lemma record_failure_update:
  "\<exists>e. fst (record_failure_at S order key now es) = AList.update key e (make_room S order now key es)"
proof -
  have "(\<exists>e. fst (if P then (AList.update key e1 es', Some s) else count_failure S key now es' e2)
        = AList.update key e es')" for P e1 es' s e2
    using count_failure_update [of S key now es' e2] by (cases P) auto
  then show ?thesis
    using count_failure_update [of S key now "make_room S order now key es"]
    unfolding record_failure_at_def Let_def by (simp only: split: option.split) simp
qed

lemma record_failure_ok:
  assumes "iterates order" "table_ok S es"
  shows "table_ok S (fst (record_failure_at S order key now es))"
proof -
  obtain e where "fst (record_failure_at S order key now es) = AList.update key e (make_room S order now key es)"
    using record_failure_update by blast
  then show ?thesis
    using make_room_ok [OF assms, of now key] by (auto simp: table_ok_def distinct_update length_update)
qed

text \<open>
  Whatever keys the clients make up and in whatever order checks, failures and successes
  come, the table never has two entries for a key and never grows beyond its limit (one
  entry where the limit is configured as zero).
\<close>

theorem auth_table_bounded:
  assumes "auth_reachable S order es" and "iterates order"
  shows "distinct (map fst es) \<and> length es \<le> max 1 (max_keys S)"
proof -
  from assms(1) have "table_ok S es"
  proof induction
    case (success es key)
    then show ?case
      by (auto simp: table_ok_def record_success_def distinct_delete intro: order_trans [OF length_delete_le])
  qed (auto simp: table_ok_def [of S "[]"] check_at_ok record_failure_ok assms(2))
  then show ?thesis by (simp add: table_ok_def)
qed

theorem auth_table_bounded_witness:
  "length (fst (record_failure_at \<lparr>max_failures = 1, window = 2, lockout = 3, max_keys = 1\<rparr> (\<lambda>x. x) [7] 0 [])) \<le> 1"
  using auth_table_bounded [OF auth_reachable.failure [OF auth_reachable.empty], of "\<lambda>x. x"
      "\<lparr>max_failures = 1, window = 2, lockout = 3, max_keys = 1\<rparr>" "[7]" 0]
  by (simp add: iterates_def)

subsection \<open>Guesses are limited\<close>

text \<open>
  Attempts one after the other; the log says for each whether its password was tested at
  all.
\<close>

type_synonym attempt = "ustr \<times> nat \<times> bool \<times> (application_error + unit)"

fun run_attempts ::
  "auth_settings \<Rightarrow> (auth_entries \<Rightarrow> auth_entries) \<Rightarrow> attempt list \<Rightarrow> auth_entries \<Rightarrow> (ustr \<times> bool) list" where
  "run_attempts S order [] es = []"
| "run_attempts S order ((key, now, counts, result) # as) es =
     (key, is_ok (snd (enforce_auth_rate_limit S key now es)))
       # run_attempts S order as (fst (auth_attempt S order key counts now result es))"

definition tested :: "ustr \<Rightarrow> (ustr \<times> bool) list \<Rightarrow> nat" where
  "tested k log = length (List.filter (\<lambda>(k', t). k' = k \<and> t) log)"

definition attempts_on :: "ustr \<Rightarrow> attempt list \<Rightarrow> nat" where
  "attempts_on k as = length (List.filter (\<lambda>(k', _). k' = k) as)"

text \<open>
  The attempts of one period: all keys in a set the table has room for, all times within
  the window and the lockout from \<open>t0\<close>, and those on \<open>k\<close> counted failures.
\<close>

definition failing_period :: "auth_settings \<Rightarrow> ustr set \<Rightarrow> ustr \<Rightarrow> nat \<Rightarrow> attempt list \<Rightarrow> bool" where
  "failing_period S K k t0 as \<longleftrightarrow>
     (\<forall>(key, now, counts, result) \<in> set as.
        key \<in> K \<and> t0 \<le> now \<and> now < t0 + min (window S) (lockout S)
        \<and> (key = k \<longrightarrow> (\<exists>e. result = Inl e \<and> is_counted_auth_failure e counts)))"

definition roomy :: "auth_settings \<Rightarrow> ustr set \<Rightarrow> auth_entries \<Rightarrow> bool" where
  "roomy S K es \<longleftrightarrow> finite K \<and> card K \<le> max_keys S \<and> fst ` set es \<subseteq> K \<and> distinct (map fst es)"

text \<open>After \<open>n\<close> tested failures of \<open>k\<close>.\<close>

definition after_failures :: "auth_settings \<Rightarrow> ustr \<Rightarrow> nat \<Rightarrow> nat \<Rightarrow> auth_entries \<Rightarrow> bool" where
  "after_failures S k t0 n es \<longleftrightarrow>
     (case map_of es k of
        None \<Rightarrow> n = 0
      | Some e \<Rightarrow>
          t0 \<le> window_started_at e
          \<and> (case blocked_until e of
               None \<Rightarrow> failed_attempts e = n \<and> n < max 1 (max_failures S)
             | Some b \<Rightarrow> t0 + lockout S \<le> b \<and> n = max 1 (max_failures S)))"

lemma make_room_id:
  assumes "roomy S K es" "key \<in> K"
  shows "make_room S order now key es = es"
proof (cases "key \<in> fst ` set es")
  case False
  then have "fst ` set es \<subset> K" using assms by (auto simp: roomy_def)
  then have "length es < max_keys S"
    using assms(1) psubset_card_mono [of K "fst ` set es"] by (simp add: roomy_def keys_card)
  then show ?thesis by (simp add: make_room_def)
qed (simp add: make_room_def)

lemma check_at_map:
  "key \<noteq> k \<Longrightarrow> map_of (fst (check_at S key now es)) k = map_of es k"
  using check_at_update [of S key now es] by (auto simp: update_conv')

lemma roomy_update: "roomy S K es \<Longrightarrow> k \<in> K \<Longrightarrow> roomy S K (AList.update k e es)"
  by (simp add: roomy_def dom_update distinct_update)

lemma roomy_key: "roomy S K es \<Longrightarrow> k \<in> fst ` set es \<Longrightarrow> k \<in> K"
  unfolding roomy_def by blast

lemma check_at_roomy: "roomy S K es \<Longrightarrow> roomy S K (fst (check_at S key now es))"
  using check_at_update [of S key now es] roomy_update roomy_key by metis

lemma resolve_cases:
  obtains "fst (resolve_auth_attempt S order key c now result es) = es"
  | "fst (resolve_auth_attempt S order key c now result es) = record_success key es"
  | "fst (resolve_auth_attempt S order key c now result es) = fst (record_failure_at S order key now es)"
proof (cases result)
  case (Inr v)
  then show ?thesis using that(2) by (simp add: resolve_auth_attempt_def)
next
  case (Inl e)
  show ?thesis
  proof (cases "is_counted_auth_failure e c")
    case True
    then show ?thesis using Inl that(3)
      by (auto simp: resolve_auth_attempt_def split: prod.splits option.splits)
  next
    case False
    then show ?thesis using Inl that(1) by (simp add: resolve_auth_attempt_def)
  qed
qed

lemma resolve_keeps:
  assumes "roomy S K es" "key \<in> K"
  shows "roomy S K (fst (resolve_auth_attempt S order key c now result es))
    \<and> (k \<noteq> key \<longrightarrow> map_of (fst (resolve_auth_attempt S order key c now result es)) k = map_of es k)"
proof (cases rule: resolve_cases [of S order key c now result es])
  case 1
  then show ?thesis using assms by simp
next
  case 2
  then show ?thesis using assms dom_delete_subset [of key es]
    by (auto simp: record_success_def roomy_def distinct_delete)
next
  case 3
  obtain e where "fst (record_failure_at S order key now es) = AList.update key e es"
    using record_failure_update make_room_id [OF assms] by metis
  then show ?thesis using 3 assms by (auto simp: roomy_def dom_update distinct_update update_conv')
qed

lemma auth_attempt_keeps:
  assumes "roomy S K es" "key \<in> K"
  shows "roomy S K (fst (auth_attempt S order key c now result es))
    \<and> (k \<noteq> key \<longrightarrow> map_of (fst (auth_attempt S order key c now result es)) k = map_of es k)"
proof -
  obtain es' r where ch: "check_at S key now es = (es', r)" by fastforce
  have r': "roomy S K es'" and m: "k \<noteq> key \<Longrightarrow> map_of es' k = map_of es k"
    using check_at_roomy [OF assms(1), of key now] check_at_map [of key k S now es] ch by auto
  show ?thesis
  proof (cases r)
    case (Inl a)
    then show ?thesis using r' m ch by (simp add: auth_attempt_def enforce_auth_rate_limit_def)
  next
    case (Inr u)
    then show ?thesis using resolve_keeps [OF r' assms(2), of order c now result] m ch
      by (simp add: auth_attempt_def enforce_auth_rate_limit_def)
  qed
qed

text \<open>The key under attack: the check passes exactly while the count is below the limit.\<close>

lemma check_at_after:
  assumes "after_failures S k t0 n es" "t0 \<le> now" "now < t0 + min (window S) (lockout S)"
  shows "is_ok (snd (check_at S k now es)) \<longleftrightarrow> n < max 1 (max_failures S)"
    and "after_failures S k t0 n (fst (check_at S k now es))"
proof -
  have "is_ok (snd (check_at S k now es)) = (n < max 1 (max_failures S))
      \<and> after_failures S k t0 n (fst (check_at S k now es))"
  proof (cases "map_of es k")
    case None
    then show ?thesis using assms(1) by (simp add: check_at_def after_failures_def)
  next
    case (Some e)
    show ?thesis
    proof (cases "blocked_until e")
      case None
      with Some assms show ?thesis
        by (auto simp: check_at_def after_failures_def Let_def update_conv')
    next
      case (Some b)
      with \<open>map_of es k = Some e\<close> assms show ?thesis
        by (auto simp: check_at_def after_failures_def Let_def update_conv')
    qed
  qed
  then show "is_ok (snd (check_at S k now es)) \<longleftrightarrow> n < max 1 (max_failures S)"
    and "after_failures S k t0 n (fst (check_at S k now es))" by blast+
qed

lemma record_failure_after:
  assumes "after_failures S k t0 n es" "n < max 1 (max_failures S)" "max_failures S < 2 ^ 32"
    and "t0 \<le> now" "now < t0 + min (window S) (lockout S)" "make_room S order now k es = es"
  shows "after_failures S k t0 (Suc n) (fst (record_failure_at S order k now es))"
proof -
  have small: "min (n + 1) (2 ^ 32 - 1) = Suc n" using assms(2,3) by simp
  obtain e0 where e0: "fst (record_failure_at S order k now es) = fst (count_failure S k now es e0)"
    and f: "failed_attempts e0 = n" "t0 \<le> window_started_at e0" "blocked_until e0 = None"
  proof (cases "map_of es k")
    case None
    then show ?thesis
      using that [of "new_entry now"] assms
      by (simp add: record_failure_at_def new_entry_def after_failures_def)
  next
    case (Some e)
    with assms(1,2,4,5) have "blocked_until e = None" "failed_attempts e = n" "t0 \<le> window_started_at e"
      by (auto simp: after_failures_def split: option.splits)
    moreover from this have "\<not> window S \<le> now - window_started_at e"
      using assms(4,5) min.cobounded1 [of "window S" "lockout S"] by linarith
    ultimately show ?thesis using Some that [of "e\<lparr>last_seen_at := now\<rparr>"] assms(4,5,6)
      by (simp add: record_failure_at_def)
  qed
  show ?thesis
  proof (cases "Suc n < max_failures S")
    case True
    then show ?thesis
      using e0 f small by (simp add: count_failure_def after_failures_def update_conv')
  next
    case False
    then show ?thesis
      using e0 f small assms(2,4) by (auto simp: count_failure_def after_failures_def update_conv' Let_def)
  qed
qed

lemma Suc_min_diff:
  fixes m n x :: nat
  shows "n < m \<Longrightarrow> Suc (min x (m - Suc n)) = min (Suc x) (m - n)"
  by (cases "x \<le> m - Suc n") (auto simp: min_def)

lemma run_attempts_tested:
  assumes "failing_period S K k t0 as" "roomy S K es" "after_failures S k t0 n es" "max_failures S < 2 ^ 32"
  shows "tested k (run_attempts S order as es) = min (attempts_on k as) (max 1 (max_failures S) - n)"
  using assms
proof (induction as arbitrary: es n)
  case Nil
  then show ?case by (simp add: tested_def attempts_on_def)
next
  case (Cons a as)
  obtain key now c result where a: "a = (key, now, c, result)" by (cases a)
  from Cons.prems(1) a have p: "failing_period S K k t0 as" "key \<in> K" "t0 \<le> now"
      "now < t0 + min (window S) (lockout S)"
    and bad: "key = k \<Longrightarrow> \<exists>e. result = Inl e \<and> is_counted_auth_failure e c"
    by (auto simp: failing_period_def)
  let ?es = "fst (auth_attempt S order key c now result es)"
  have r: "roomy S K ?es" using auth_attempt_keeps [OF Cons.prems(2) p(2)] by blast
  show ?case
  proof (cases "key = k")
    case False
    have "map_of ?es k = map_of es k"
      using conjunct2 [OF auth_attempt_keeps [OF Cons.prems(2) p(2), of order c now result k]] False by simp
    with Cons.prems(3) have "after_failures S k t0 n ?es" by (simp only: after_failures_def)
    from Cons.IH [OF p(1) r this Cons.prems(4)] False a show ?thesis
      by (simp add: tested_def attempts_on_def)
  next
    case True
    obtain es' res where ch: "check_at S k now es = (es', res)" by fastforce
    note after = check_at_after [OF Cons.prems(3) p(3,4), unfolded ch, simplified]
    show ?thesis
    proof (cases "n < max 1 (max_failures S)")
      case False
      then obtain s where "res = Inl s" using after by (cases res) auto
      with ch True have "?es = es'" "\<not> is_ok (snd (enforce_auth_rate_limit S k now es))"
        by (simp_all add: auth_attempt_def enforce_auth_rate_limit_def)
      with Cons.IH [OF p(1) r, of n] after(2) Cons.prems(4) False a True show ?thesis
        by (simp add: tested_def attempts_on_def)
    next
      case n: True
      then obtain u where res: "res = Inr u" using after by (cases res) auto
      obtain e where e: "result = Inl e" "is_counted_auth_failure e c" using bad True by blast
      have r': "roomy S K es'" using check_at_roomy [OF Cons.prems(2), of k now] ch by simp
      have "?es = fst (record_failure_at S order k now es')"
        using ch True res e
        by (auto simp: auth_attempt_def enforce_auth_rate_limit_def resolve_auth_attempt_def
            split: prod.splits option.splits)
      moreover have "after_failures S k t0 (Suc n) (fst (record_failure_at S order k now es'))"
        using record_failure_after [OF after(2) n Cons.prems(4) p(3,4)] make_room_id [OF r'] p(2) True
        by blast
      ultimately have "tested k (run_attempts S order as ?es) =
          min (attempts_on k as) (max 1 (max_failures S) - Suc n)"
        using Cons.IH [OF p(1) r, of "Suc n"] Cons.prems(4) by simp
      moreover have "is_ok (snd (enforce_auth_rate_limit S k now es))"
        using ch res by (simp add: enforce_auth_rate_limit_def)
      moreover have "Suc (min x (max 1 (max_failures S) - Suc n)) = min (Suc x) (max 1 (max_failures S) - n)" for x
        using Suc_min_diff [OF n] .
      ultimately show ?thesis using a True n by (simp add: tested_def attempts_on_def)
    qed
  qed
qed

text \<open>
  C27. Guessing is limited: from an empty table, within one window and one lockout from \<open>t0\<close>, of any number of
  failing attempts on an account, made one after the other and mixed with any attempts on
  other accounts, exactly the first \<open>max_failures\<close> (one at least) get their password tested,
  as long as the table has room for the accounts that are tried. (When it has not, \<open>flood_lifts_lockout\<close>
  shows that a lockout can end early.)
\<close>

theorem guesses_limited:
  assumes "failing_period S K k t0 as" and "finite K" "card K \<le> max_keys S" and "max_failures S < 2 ^ 32"
  shows "tested k (run_attempts S order as []) = min (attempts_on k as) (max 1 (max_failures S))"
  using run_attempts_tested [of S K k t0 as "[]" 0] assms
  by (simp add: roomy_def after_failures_def)

definition wrong_password :: "nat \<Rightarrow> attempt" where
  "wrong_password t = (lit ''a'', t, True, Inl (AppUnauthorized []))"

theorem guesses_limited_witness:
  "tested (lit ''a'') (run_attempts default_auth_settings (\<lambda>x. x)
     (map wrong_password [1, 2, 3, 4, 5, 6, 7]) []) = 5"
  using guesses_limited [of default_auth_settings "{lit ''a''}" "lit ''a''" 0
      "map wrong_password [1, 2, 3, 4, 5, 6, 7]" "\<lambda>x. x"]
  by (simp add: failing_period_def default_auth_settings_def wrong_password_def attempts_on_def)

text \<open>
  A table of two keys: account \<open>7\<close> is locked at time 0, then attempts fail on \<open>8\<close> and \<open>9\<close>.
\<close>

definition small_settings :: auth_settings where
  "small_settings = \<lparr>max_failures = 1, window = 60, lockout = 120, max_keys = 2\<rparr>"

definition locked_entry :: "nat \<Rightarrow> auth_entry" where
  "locked_entry t = \<lparr>window_started_at = t, failed_attempts = 1, blocked_until = Some (t + 120), last_seen_at = t\<rparr>"

lemma fail_new_key:
  assumes "make_room small_settings (\<lambda>x. x) t [k] es = es'" "map_of es' [k] = None"
  shows "fst (record_failure_at small_settings (\<lambda>x. x) [k] t es) = AList.update [k] (locked_entry t) es'"
  using assms
  by (simp add: record_failure_at_def count_failure_def new_entry_def locked_entry_def
      small_settings_def Let_def)

text \<open>
  The room matters: when the table is full of live entries, a failure under a new key
  evicts the least recently seen entry even if it is locked, although the sweep before it
  keeps every locked entry. Locking an account and then failing under as many other names
  as the table holds lifts the lockout.
\<close>

theorem flood_lifts_lockout:
  "\<exists>locked flooded. locked = fst (record_failure_at small_settings (\<lambda>x. x) [7] 0 [])
     \<and> flooded = fst (record_failure_at small_settings (\<lambda>x. x) [9] 2
                  (fst (record_failure_at small_settings (\<lambda>x. x) [8] 1 locked)))
     \<and> snd (check_at small_settings [7] 3 locked) = Inl 1
     \<and> snd (check_at small_settings [7] 3 flooded) = Inr ()"
proof -
  have l: "fst (record_failure_at small_settings (\<lambda>x. x) [7] 0 []) = [([7], locked_entry 0)]"
    using fail_new_key [of 0 7 "[]" "[]"] by (simp add: make_room_def small_settings_def)
  have b: "fst (record_failure_at small_settings (\<lambda>x. x) [8] 1 [([7], locked_entry 0)])
      = [([7], locked_entry 0), ([8], locked_entry 1)]"
    using fail_new_key [of 1 8 "[([7], locked_entry 0)]" "[([7], locked_entry 0)]"]
    by (simp add: make_room_def small_settings_def)
  have "make_room small_settings (\<lambda>x. x) 2 [9] [([7], locked_entry 0), ([8], locked_entry 1)]
      = [([8], locked_entry 1)]"
    by (simp add: make_room_def small_settings_def locked_entry_def Let_def)
  then have f: "fst (record_failure_at small_settings (\<lambda>x. x) [9] 2 [([7], locked_entry 0), ([8], locked_entry 1)])
      = [([8], locked_entry 1), ([9], locked_entry 2)]"
    using fail_new_key [of 2 9] by simp
  have c1: "snd (check_at small_settings [7] 3 [([7], locked_entry 0)]) = Inl 1"
    and c2: "snd (check_at small_settings [7] 3 [([8], locked_entry 1), ([9], locked_entry 2)]) = Inr ()"
    by (simp_all add: check_at_def locked_entry_def remaining_seconds_def Let_def)
  show ?thesis
    by (rule exI [of _ "[([7], locked_entry 0)]"],
        rule exI [of _ "[([8], locked_entry 1), ([9], locked_entry 2)]"])
      (simp only: l b f c1 c2 simp_thms)
qed

end
