(* ===== verification/Media_Stream.thy ===== *)
theory Media_Stream
  imports Remote_Stream Api_Errors "HOL-Library.AList"
begin

text \<open>
  Serving a media file (\<open>mova-server/src/handlers/media_files.rs\<close>) from a path that is
  resolved inside its library (\<open>mova-server/src/media_path.rs\<close>): local files with byte
  ranges, STRM carriers through the remote streaming service. The file system is the
  parameter \<open>fs\<close>: what canonicalising, inspecting and reading a path gives at the time of
  the request.
\<close>

subsection \<open>Trusted paths\<close>

datatype library_media_path_error =
    LibraryRoot io_error
  | MediaSource io_error
  | OutsideLibraryRoot
  | NotRegularFile

definition resolve_regular_file_within_library ::
  "file_system \<Rightarrow> path \<Rightarrow> path \<Rightarrow> library_media_path_error + path" where
  "resolve_regular_file_within_library fs file_path library_root =
     and_then (map_err LibraryRoot (fs_canonicalize fs library_root)) (\<lambda>canonical_root.
     and_then (map_err LibraryRoot (fs_metadata fs canonical_root)) (\<lambda>root_metadata.
       if fm_kind root_metadata \<noteq> Directory then Inl (LibraryRoot IoNotADirectory)
       else
         and_then (map_err MediaSource (fs_canonicalize fs file_path)) (\<lambda>canonical_source.
           if \<not> prefix canonical_root canonical_source then Inl OutsideLibraryRoot
           else
             and_then (map_err MediaSource (fs_metadata fs canonical_source)) (\<lambda>source_metadata.
               if fm_kind source_metadata \<noteq> RegularFile then Inl NotRegularFile
               else Inr canonical_source))))"

definition map_stream_file_io_error :: "io_error \<Rightarrow> ustr \<Rightarrow> api_error" where
  "map_stream_file_io_error e m = (if e = IoNotFound then ApiNotFound m else Internal)"

datatype media_source_kind = LocalFile | Strm

record media_file =
  mf_id :: nat
  mf_file_path :: ustr
  mf_source_kind :: media_source_kind
  mf_container :: "ustr option"

definition media_not_found :: "media_file \<Rightarrow> ustr" where
  "media_not_found mf = lit ''media file not found on disk for id '' @ nat_text (mf_id mf)"

definition resolve_trusted_media_source :: "file_system \<Rightarrow> media_file \<Rightarrow> ustr \<Rightarrow> api_error + path" where
  "resolve_trusted_media_source fs mf library_root =
     (case resolve_regular_file_within_library fs (path_of_text (mf_file_path mf)) (path_of_text library_root) of
        Inr p \<Rightarrow> Inr p
      | Inl (LibraryRoot e) \<Rightarrow> Inl Internal
      | Inl (MediaSource e) \<Rightarrow> Inl (map_stream_file_io_error e (media_not_found mf))
      | Inl OutsideLibraryRoot \<Rightarrow> Inl (ApiNotFound (media_not_found mf))
      | Inl NotRegularFile \<Rightarrow> Inl (ApiNotFound (media_not_found mf)))"

subsection \<open>Byte ranges of local files\<close>

text \<open>\<open>RequestedRange\<close> is the pair of the first and the last position.\<close>

definition invalid_range :: api_error where
  "invalid_range = BadRequest (lit ''invalid Range header'')"

definition parse_range_u64 :: "ustr \<Rightarrow> api_error + nat" where
  "parse_range_u64 t = ok_or invalid_range (parse_u64 t)"

definition requested_interval :: "ustr \<Rightarrow> ustr \<Rightarrow> nat \<Rightarrow> api_error + nat \<times> nat" where
  "requested_interval start_part end_part file_size =
     (if start_part = [] then
        and_then (parse_range_u64 end_part) (\<lambda>suffix_length.
          if suffix_length = 0 then Inl invalid_range
          else Inr (file_size - suffix_length, file_size - 1))
      else
        and_then (parse_range_u64 start_part) (\<lambda>s.
        and_then (if end_part = [] then Inr (file_size - 1) else parse_range_u64 end_part) (\<lambda>e.
          Inr (s, min e (file_size - 1)))))"

definition parse_requested_range ::
  "header_crate \<Rightarrow> nat list option \<Rightarrow> nat \<Rightarrow> api_error + (nat \<times> nat) option" where
  "parse_requested_range H range_header file_size =
     (case range_header of
        None \<Rightarrow> Inr None
      | Some v \<Rightarrow>
          if file_size = 0
          then Inl (RangeNotSatisfiable (lit ''range requests are not valid for empty files'') file_size)
          else
            and_then (ok_or invalid_range (hv_to_str H v)) (\<lambda>t.
            and_then (ok_or (BadRequest (lit ''unsupported Range header'')) (strip_prefix (lit ''bytes='') t))
              (\<lambda>range_spec.
              if 44 \<in> set range_spec
              then Inl (BadRequest (lit ''multiple byte ranges are not supported''))
              else
                and_then (ok_or invalid_range (split_once 45 range_spec)) (\<lambda>(start_part, end_part).
                and_then (requested_interval start_part end_part file_size) (\<lambda>(s, e).
                  if file_size \<le> s \<or> e < s
                  then Inl (RangeNotSatisfiable (lit ''requested byte range is not satisfiable'') file_size)
                  else Inr (Some (s, e)))))))"

subsection \<open>Responses\<close>

datatype stream_body = NoBody | FileBytes "nat list" | RemoteBytes upstream_response

record stream_response =
  st_status :: nat
  st_headers :: "(string \<times> nat list) list"
  st_body :: stream_body

definition content_type_for_media_file :: "media_file \<Rightarrow> ustr" where
  "content_type_for_media_file mf =
     (case mf_container mf of
        None \<Rightarrow> lit ''application/octet-stream''
      | Some c \<Rightarrow>
          if c = lit ''mp4'' \<or> c = lit ''m4v'' then lit ''video/mp4''
          else if c = lit ''mov'' then lit ''video/quicktime''
          else if c = lit ''webm'' then lit ''video/webm''
          else if c = lit ''mkv'' then lit ''video/x-matroska''
          else if c = lit ''avi'' then lit ''video/x-msvideo''
          else if c = lit ''wmv'' then lit ''video/x-ms-wmv''
          else if c = lit ''flv'' then lit ''video/x-flv''
          else if c = lit ''mpeg'' \<or> c = lit ''mpg'' then lit ''video/mpeg''
          else lit ''application/octet-stream'')"

definition build_file_stream_response ::
  "header_crate \<Rightarrow> file_system \<Rightarrow> path \<Rightarrow> ustr \<Rightarrow> header_map \<Rightarrow> bool \<Rightarrow> ustr \<Rightarrow> api_error + stream_response" where
  "build_file_stream_response H fs file_path content_type headers head_only not_found_message =
     and_then (map_err (\<lambda>e. map_stream_file_io_error e not_found_message) (fs_metadata fs file_path)) (\<lambda>metadata.
     if fm_kind metadata \<noteq> RegularFile
     then Inl (ApiNotFound (lit ''media file path is not a regular file: '' @ path_text file_path))
     else
       let file_size = fm_len metadata;
           range_header = (case get_all headers ''range'' of [] \<Rightarrow> None | v # _ \<Rightarrow> Some v) in
       and_then (parse_requested_range H range_header file_size) (\<lambda>requested_range.
       let (status, s, e) =
             (case requested_range of
                Some (s, e) \<Rightarrow> (206, s, e)
              | None \<Rightarrow> if file_size = 0 then (200, 0, 0) else (200, 0, file_size - 1));
           content_length = (if file_size = 0 then 0 else e - s + 1)
       in and_then
            (if head_only \<or> file_size = 0 then Inr NoBody
             else map_ok (\<lambda>content. FileBytes (take content_length (drop s content)))
                    (map_err (\<lambda>e. map_stream_file_io_error e not_found_message) (fs_open fs file_path)))
            (\<lambda>body.
              Inr \<lparr>st_status = status,
                   st_headers =
                     [(''accept-ranges'', lit ''bytes''), (''content-type'', content_type),
                      (''content-length'', nat_text content_length)]
                     @ (if status = 206
                        then [(''content-range'',
                               lit ''bytes '' @ nat_text s @ [45] @ nat_text e @ [47] @ nat_text file_size)]
                        else []),
                   st_body = body\<rparr>)))"

definition build_unmaterialized_audio_track_head_response :: "ustr \<Rightarrow> stream_response" where
  "build_unmaterialized_audio_track_head_response content_type =
     \<lparr>st_status = 200,
      st_headers = [(''content-type'', content_type), (''cache-control'', lit ''no-store''),
        (''accept-ranges'', lit ''none'')],
      st_body = NoBody\<rparr>"

definition remote_request_header ::
  "header_crate \<Rightarrow> header_map \<Rightarrow> string \<Rightarrow> ustr \<Rightarrow> api_error + ustr option" where
  "remote_request_header H headers name display_name =
     (case get_all headers name of
        [] \<Rightarrow> Inr None
      | [v] \<Rightarrow>
          map_ok Some (ok_or (BadRequest (lit ''invalid '' @ display_name @ lit '' header'')) (hv_to_str H v))
      | _ \<Rightarrow> Inl (BadRequest (lit ''multiple '' @ display_name @ lit '' headers are not supported'')))"

definition apply_remote_response_security_headers :: "header_map \<Rightarrow> header_map" where
  "apply_remote_response_security_headers headers =
     AList.update ''x-content-type-options'' (lit ''nosniff'')
       (AList.update ''cache-control'' (lit ''private, no-store'') headers)"

text \<open>
  \<open>HeaderValue::from_bytes\<close> is the crate's. The body task forwards the chunks of the
  upstream body until the client or the upstream ends.
\<close>

fun insert_headers ::
  "(nat list \<Rightarrow> nat list option) \<Rightarrow> response_header list \<Rightarrow> header_map \<Rightarrow> api_error + header_map" where
  "insert_headers from_bytes [] hs = Inr hs"
| "insert_headers from_bytes ((n, v) # rest) hs =
     (case from_bytes v of
        None \<Rightarrow> Inl Internal
      | Some v' \<Rightarrow> insert_headers from_bytes rest (AList.update (header_name_str n) v' hs))"

definition build_remote_stream_response ::
  "(nat list \<Rightarrow> nat list option) \<Rightarrow> validated_response \<Rightarrow> bool \<Rightarrow> api_error + stream_response" where
  "build_remote_stream_response from_bytes v with_body =
     (if \<not> (100 \<le> vr_status v \<and> vr_status v \<le> 999) then Inl Internal
      else
        map_ok (\<lambda>hs. \<lparr>st_status = vr_status v, st_headers = apply_remote_response_security_headers hs,
            st_body = (case vr_response v of
                         Some r \<Rightarrow> if with_body then RemoteBytes r else NoBody
                       | None \<Rightarrow> NoBody)\<rparr>)
          (insert_headers from_bytes (vr_headers v) []))"

subsection \<open>The handler\<close>

text \<open>
  What the handler is run in: the crates, the streaming service and the world it talks to,
  the file system, and the parts that are not modelled, the track look-up in the database
  (the media file a track belongs to) and the preparation of a track's variant by
  \<open>ffmpeg\<close> (\<open>env_materialize\<close>), with the cache entry of a variant.
\<close>

record 'u stream_env =
  env_crate :: "'u url_crate"
  env_http :: header_crate
  env_from_bytes :: "nat list \<Rightarrow> nat list option"
  env_service :: stream_service
  env_world :: "'u world"
  env_fs :: file_system
  env_track_owner :: "nat \<Rightarrow> api_error + nat"
  env_variant_path :: "media_file \<Rightarrow> nat \<Rightarrow> path"
  env_variant_usable :: "path \<Rightarrow> api_error + bool"
  env_materialize :: "media_file \<Rightarrow> nat \<Rightarrow> path \<Rightarrow> api_error + path"

definition strm_request ::
  "'u stream_env \<Rightarrow> media_file \<Rightarrow> ustr \<Rightarrow> header_map \<Rightarrow> bool \<Rightarrow> api_error + path \<times> remote_stream_request" where
  "strm_request E mf library_root headers head_only =
     and_then (resolve_trusted_media_source (env_fs E) mf library_root) (\<lambda>carrier_path.
     and_then (remote_request_header (env_http E) headers ''range'' (lit ''Range'')) (\<lambda>range_text.
     and_then (remote_request_header (env_http E) headers ''if-range'' (lit ''If-Range'')) (\<lambda>if_range_text.
     and_then (map_err from_remote_stream_error
         (new_request (env_http E) (if head_only then Head else Get) range_text if_range_text)) (\<lambda>request.
       Inr (carrier_path, request)))))"

definition local_stream ::
  "'u stream_env \<Rightarrow> media_file \<Rightarrow> ustr \<Rightarrow> nat option \<Rightarrow> header_map \<Rightarrow> bool \<Rightarrow> api_error + stream_response" where
  "local_stream E mf library_root audio_track_id headers head_only =
     and_then (resolve_trusted_media_source (env_fs E) mf library_root) (\<lambda>source_path.
     let content_type = content_type_for_media_file mf in
     case audio_track_id of
       None \<Rightarrow>
         build_file_stream_response (env_http E) (env_fs E) source_path content_type headers head_only
           (lit ''media file not found on disk for id '' @ nat_text (mf_id mf) @ lit '': ''
             @ mf_file_path mf)
     | Some track \<Rightarrow>
         and_then (env_track_owner E track) (\<lambda>owner.
         if owner \<noteq> mf_id mf
         then Inl (ApiNotFound (lit ''audio track '' @ nat_text track
                @ lit '' does not belong to media file '' @ nat_text (mf_id mf)))
         else
           (let missing = (\<lambda>p. lit ''audio track stream not found on disk for media file ''
                  @ nat_text (mf_id mf) @ lit '': '' @ path_text p);
                serve = (\<lambda>p. build_file_stream_response (env_http E) (env_fs E) p content_type
                  headers head_only (missing p))
            in if head_only then
                 (let cached = env_variant_path E mf track
                  in and_then (env_variant_usable E cached) (\<lambda>usable.
                       if usable then serve cached
                       else Inr (build_unmaterialized_audio_track_head_response content_type)))
               else and_then (env_materialize E mf track source_path) serve)))"

text \<open>
  \<open>access\<close> is the outcome of \<open>require_media_file_with_library_access\<close>: the media file and
  the root of its library, or why the user may not have them. The result \<open>None\<close> is a panic.
\<close>

definition build_media_file_stream_response ::
  "'u stream_env \<Rightarrow> api_error + media_file \<times> ustr \<Rightarrow> int \<Rightarrow> nat option \<Rightarrow> header_map \<Rightarrow> bool
     \<Rightarrow> limits \<Rightarrow> call_id \<Rightarrow> limits \<times> (api_error + stream_response) option" where
  "build_media_file_stream_response E access user_id audio_track_id headers head_only l c =
     (case access of
        Inl e \<Rightarrow> (l, Some (Inl e))
      | Inr (mf, library_root) \<Rightarrow>
          if mf_source_kind mf = Strm then
            if audio_track_id \<noteq> None
            then (l, Some (Inl (from_application_error
                   (business Validation ''strm_audio_track_selection_unsupported'' []
                     (lit ''STRM media does not support embedded audio-track selection'')))))
            else
              (case strm_request E mf library_root headers head_only of
                 Inl e \<Rightarrow> (l, Some (Inl e))
               | Inr (carrier_path, request) \<Rightarrow>
                   (case open_carrier (env_crate E) (env_http E) (env_service E) (env_world E)
                           (Some (fs_open (env_fs E) carrier_path)) l c user_id request of
                      (l', Failed e) \<Rightarrow> (l', Some (Inl (from_remote_stream_error e)))
                    | (l', Opened v with_body) \<Rightarrow>
                        (l', Some (build_remote_stream_response (env_from_bytes E) v with_body))
                    | (l', Panicked) \<Rightarrow> (l', None)))
          else (l, Some (local_stream E mf library_root audio_track_id headers head_only)))"

subsection \<open>Properties\<close>

lemma resolve_ok_iff:
  "resolve_regular_file_within_library fs file root = Inr p \<longleftrightarrow>
     (\<exists>r mr ms. fs_canonicalize fs root = Inr r \<and> fs_metadata fs r = Inr mr \<and> fm_kind mr = Directory
        \<and> fs_canonicalize fs file = Inr p \<and> prefix r p
        \<and> fs_metadata fs p = Inr ms \<and> fm_kind ms = RegularFile)"
  by (auto simp: resolve_regular_file_within_library_def result_simps)

text \<open>
  C21. A path from the database is only used after it was resolved: what the handlers get is
  the canonical path of the file, it lies inside the canonical root of its library, and it
  is a regular file. A path that leads out of the library, by \<open>..\<close> or through a link, is
  answered as if the file did not exist.
\<close>

theorem trusted_source_inside_library:
  "(\<forall>p. resolve_trusted_media_source fs mf root = Inr p \<longrightarrow>
      (\<exists>r m. fs_canonicalize fs (path_of_text root) = Inr r \<and> fs_canonicalize fs (path_of_text (mf_file_path mf)) = Inr p
        \<and> prefix r p \<and> fs_metadata fs p = Inr m \<and> fm_kind m = RegularFile))
   \<and> (\<forall>r m p. fs_canonicalize fs (path_of_text root) = Inr r \<and> fs_metadata fs r = Inr m \<and> fm_kind m = Directory
        \<and> fs_canonicalize fs (path_of_text (mf_file_path mf)) = Inr p \<and> \<not> prefix r p \<longrightarrow>
        resolve_trusted_media_source fs mf root = Inl (ApiNotFound (media_not_found mf)))"
proof (intro conjI allI impI)
  fix p assume "resolve_trusted_media_source fs mf root = Inr p"
  then have "resolve_regular_file_within_library fs (path_of_text (mf_file_path mf)) (path_of_text root) = Inr p"
    by (auto simp: resolve_trusted_media_source_def split: sum.splits library_media_path_error.splits)
  then show "\<exists>r m. fs_canonicalize fs (path_of_text root) = Inr r \<and> fs_canonicalize fs (path_of_text (mf_file_path mf)) = Inr p
        \<and> prefix r p \<and> fs_metadata fs p = Inr m \<and> fm_kind m = RegularFile"
    by (auto simp: resolve_ok_iff)
next
  fix r m p
  assume "fs_canonicalize fs (path_of_text root) = Inr r \<and> fs_metadata fs r = Inr m \<and> fm_kind m = Directory
        \<and> fs_canonicalize fs (path_of_text (mf_file_path mf)) = Inr p \<and> \<not> prefix r p"
  then show "resolve_trusted_media_source fs mf root = Inl (ApiNotFound (media_not_found mf))"
    by (simp add: resolve_trusted_media_source_def resolve_regular_file_within_library_def)
qed

text \<open>A file system with one library \<open>m\<close> that holds the file \<open>a\<close>.\<close>

definition demo_fs :: "nat list \<Rightarrow> file_system" where
  "demo_fs content =
     \<lparr>fs_canonicalize = Inr,
      fs_metadata = (\<lambda>p. if p = [lit ''m''] then Inr \<lparr>fm_kind = Directory, fm_len = 0\<rparr>
        else if p = [lit ''m'', lit ''a''] then Inr \<lparr>fm_kind = RegularFile, fm_len = length content\<rparr>
        else Inl IoNotFound),
      fs_open = (\<lambda>p. if p = [lit ''m'', lit ''a''] then Inr content else Inl IoNotFound),
      fs_read_first = (\<lambda>_. Inr ())\<rparr>"

definition demo_file :: media_file where
  "demo_file = \<lparr>mf_id = 7, mf_file_path = lit ''m/a'', mf_source_kind = LocalFile, mf_container = None\<rparr>"

theorem trusted_source_inside_library_witness:
  "resolve_trusted_media_source (demo_fs [7]) demo_file (lit ''m'') = Inr [lit ''m'', lit ''a'']
   \<and> (\<exists>r. fs_canonicalize (demo_fs [7]) (path_of_text (lit ''m'')) = Inr r \<and> prefix r [lit ''m'', lit ''a''])"
proof -
  have "resolve_trusted_media_source (demo_fs [7]) demo_file (lit ''m'') = Inr [lit ''m'', lit ''a'']"
    by (simp add: resolve_trusted_media_source_def resolve_regular_file_within_library_def demo_fs_def
        demo_file_def path_of_text_def normal_components_def str_eval Let_def)
  with trusted_source_inside_library [of "demo_fs [7]" demo_file "lit ''m''"] show ?thesis by blast
qed

lemma parse_requested_range_bounds:
  assumes "parse_requested_range H h n = Inr (Some (s, e))"
  shows "s \<le> e \<and> e < n"
  using assms
  by (auto simp: parse_requested_range_def requested_interval_def result_simps
      split: option.splits if_splits)

lemma range_text_parts:
  assumes "range_kind_ok k"
  obtains st en where "range_text k = lit ''bytes='' @ st @ [45] @ en" "44 \<notin> set (st @ [45] @ en)"
    "split_once 45 (st @ [45] @ en) = Some (st, en)"
    "st = (case k of FromTo s _ \<Rightarrow> nat_text s | From s \<Rightarrow> nat_text s | Suffix _ \<Rightarrow> [])"
    "en = (case k of FromTo _ e \<Rightarrow> nat_text e | From _ \<Rightarrow> [] | Suffix n \<Rightarrow> nat_text n)"
proof -
  obtain st en where t: "range_text k = lit ''bytes='' @ st @ [45] @ en" and a: "45 \<notin> set st"
      "44 \<notin> set (st @ [45] @ en)"
    using range_kind_text [OF assms] by blast
  let ?st = "case k of FromTo s _ \<Rightarrow> nat_text s | From s \<Rightarrow> nat_text s | Suffix _ \<Rightarrow> []"
  let ?en = "case k of FromTo _ e \<Rightarrow> nat_text e | From _ \<Rightarrow> [] | Suffix n \<Rightarrow> nat_text n"
  have no: "45 \<notin> set (nat_text n)" for n
    by (rule digits_no_char [of "nat_text n"]) (simp_all add: nat_text_digits is_ascii_digit_def)
  have t': "range_text k = lit ''bytes='' @ ?st @ [45] @ ?en" by (cases k) simp_all
  have "split_once 45 (?st @ [45] @ ?en) = Some (?st, ?en)" using no by (cases k) simp_all
  moreover have "st @ [45] @ en = ?st @ [45] @ ?en" using t t' by simp
  ultimately show ?thesis using that [of ?st ?en] a(2) t' by metis
qed

lemma parse_range_u64_text: "n < 2 ^ 64 \<Longrightarrow> parse_range_u64 (nat_text n) = Inr n"
  by (simp add: parse_range_u64_def parse_unsigned_nat_text)

lemma nat_text_nonempty: "nat_text n \<noteq> []"
  using nat_text_digits by blast

definition unsatisfiable :: "nat \<Rightarrow> api_error" where
  "unsatisfiable n = RangeNotSatisfiable (lit ''requested byte range is not satisfiable'') n"

lemma requested_interval_text:
  assumes "range_kind_ok k" "0 < n"
  shows "requested_interval
      (case k of FromTo s _ \<Rightarrow> nat_text s | From s \<Rightarrow> nat_text s | Suffix _ \<Rightarrow> [])
      (case k of FromTo _ e \<Rightarrow> nat_text e | From _ \<Rightarrow> [] | Suffix n \<Rightarrow> nat_text n) n
    = Inr (case k of FromTo s e \<Rightarrow> (s, min e (n - 1)) | From s \<Rightarrow> (s, n - 1)
           | Suffix l \<Rightarrow> (n - l, n - 1))"
  using assms by (cases k) (auto simp: requested_interval_def parse_range_u64_text nat_text_nonempty)

lemma interval_ends:
  assumes "0 < (n :: nat)" "S = {i. i < n \<and> a \<le> i \<and> i \<le> b}"
  shows "S = {} \<longleftrightarrow> n \<le> a \<or> min b (n - 1) < a" and "S \<noteq> {} \<Longrightarrow> Min S = a \<and> Max S = min b (n - 1)"
proof -
  have S: "S = {a..min b (n - 1)}" using assms by auto
  show "S = {} \<longleftrightarrow> n \<le> a \<or> min b (n - 1) < a" unfolding S using assms(1) by auto
  assume "S \<noteq> {}"
  then have "a \<le> min b (n - 1)" unfolding S by simp
  then show "Min S = a \<and> Max S = min b (n - 1)" unfolding S by (simp add: Min_eq_iff Max_eq_iff)
qed

text \<open>
  The ranges of local files are those of the same specification as the remote ones: for
  the header text of any range, the interval that is served has the first and the last of
  the bytes that the range selects of the file, and the answer is \<open>416\<close> exactly when it
  selects none.
\<close>

theorem local_range_exact:
  assumes "hv_to_str H (range_text k) = Some (range_text k)" and "range_kind_ok k" and "0 < n"
  shows "parse_requested_range H (Some (range_text k)) n =
    (if selected_bytes k n = {} then Inl (unsatisfiable n)
     else Inr (Some (Min (selected_bytes k n), Max (selected_bytes k n))))"
proof -
  obtain st en where t: "range_text k = lit ''bytes='' @ st @ [45] @ en"
    and c: "44 \<notin> set (st @ [45] @ en)" and so: "split_once 45 (st @ [45] @ en) = Some (st, en)"
    and st: "st = (case k of FromTo s _ \<Rightarrow> nat_text s | From s \<Rightarrow> nat_text s | Suffix _ \<Rightarrow> [])"
    and en: "en = (case k of FromTo _ e \<Rightarrow> nat_text e | From _ \<Rightarrow> [] | Suffix n \<Rightarrow> nat_text n)"
    by (rule range_text_parts [OF assms(2)])
  define a b where "a = (case k of FromTo s e \<Rightarrow> s | From s \<Rightarrow> s | Suffix l \<Rightarrow> n - l)"
    and "b = (case k of FromTo s e \<Rightarrow> e | From s \<Rightarrow> n - 1 | Suffix l \<Rightarrow> n - 1)"
  have iv: "requested_interval st en n = Inr (a, min b (n - 1))"
    using requested_interval_text [OF assms(2,3)] unfolding st en a_def b_def by (cases k) simp_all
  have strip: "strip_prefix (lit ''bytes='') (range_text k) = Some (st @ [45] @ en)"
    unfolding t by (rule strip_prefix_append)
  have "parse_requested_range H (Some (range_text k)) n =
      (if n \<le> a \<or> min b (n - 1) < a then Inl (unsatisfiable n) else Inr (Some (a, min b (n - 1))))"
    using assms(1,3) c so iv strip by (simp add: parse_requested_range_def unsatisfiable_def del: lit_simps)
  moreover have "selected_bytes k n = {i. i < n \<and> a \<le> i \<and> i \<le> b}"
    using assms(3) unfolding a_def b_def by (cases k) auto
  note ends = interval_ends [OF assms(3) this]
  ultimately show ?thesis using ends by simp
qed

theorem local_range_exact_witness:
  "parse_requested_range ascii_headers (Some (range_text (Suffix 4))) 10 = Inr (Some (6, 9))"
proof -
  have s: "selected_bytes (Suffix 4) 10 = {6..9}" by auto
  have ascii: "hv_to_str ascii_headers (range_text k) = Some (range_text k)" for k
    using range_text_visible [of k] by (auto simp: ascii_to_str list_all_iff)
  have "range_kind_ok (Suffix 4)" by simp
  from local_range_exact [OF ascii this, of 10] show ?thesis
    unfolding s by (simp del: range_text.simps selected_bytes.simps add: Min_eq_iff Max_eq_iff)
qed

text \<open>
  What a local file response carries: with the size from the metadata equal to the
  length of the content, the body of a \<open>200\<close> is the whole file and that of a \<open>206\<close> the bytes
  of the interval that \<open>Content-Range\<close> declares, an interval inside the file, and
  \<open>Content-Length\<close> is the length of the body in both cases, so the subtractions in the code
  never wrap.
\<close>

theorem local_body_exact:
  assumes "build_file_stream_response H fs p ct headers False nf = Inr r"
    and "fs_metadata fs p = Inr \<lparr>fm_kind = RegularFile, fm_len = length content\<rparr>"
    and "fs_open fs p = Inr content"
  shows "\<exists>b. st_body r = (if content = [] then NoBody else FileBytes b)
    \<and> map_of (st_headers r) ''content-length'' = Some (nat_text (length b))
    \<and> (st_status r = 200 \<and> b = content
       \<or> (\<exists>s e. st_status r = 206 \<and> s \<le> e \<and> e < length content
            \<and> b = map ((!) content) [s..<Suc e]
            \<and> map_of (st_headers r) ''content-range'' =
                Some (lit ''bytes '' @ nat_text s @ [45] @ nat_text e @ [47] @ nat_text (length content))))"
proof -
  let ?h = "case get_all headers ''range'' of [] \<Rightarrow> None | v # _ \<Rightarrow> Some v"
  from assms obtain rr where rr: "parse_requested_range H ?h (length content) = Inr rr"
    by (auto simp: build_file_stream_response_def Let_def result_simps)
  show ?thesis
  proof (cases rr)
    case None
    show ?thesis
    proof (cases "content = []")
      case True
      with None rr assms show ?thesis by (auto simp: build_file_stream_response_def Let_def)
    next
      case False
      then have len: "length content - 1 + 1 = length content" by (cases content) auto
      with None rr assms False show ?thesis
        by (intro exI [of _ content]) (auto simp: build_file_stream_response_def Let_def)
    qed
  next
    case (Some se)
    obtain s e where se: "se = (s, e)" by (cases se)
    have b: "s \<le> e" "e < length content" using parse_requested_range_bounds rr Some se by auto
    have body: "take (e - s + 1) (drop s content) = map ((!) content) [s..<Suc e]"
      by (rule nth_equalityI) (use b in \<open>auto simp del: upt_Suc\<close>)
    from b have ne: "content \<noteq> []" by auto
    let ?b = "map ((!) content) [s..<Suc e]"
    let ?cr = "lit ''bytes '' @ nat_text s @ [45] @ nat_text e @ [47] @ nat_text (length content)"
    have "build_file_stream_response H fs p ct headers False nf = Inr \<lparr>st_status = 206,
        st_headers = [(''accept-ranges'', lit ''bytes''), (''content-type'', ct),
          (''content-length'', nat_text (e - s + 1)), (''content-range'', ?cr)],
        st_body = FileBytes ?b\<rparr>"
      unfolding body [symmetric]
      using Some se rr assms(2,3) ne
      by (simp add: build_file_stream_response_def Let_def del: lit_simps)
    then have r: "st_status r = 206" "map_of (st_headers r) ''content-length'' = Some (nat_text (length ?b))"
        "map_of (st_headers r) ''content-range'' = Some ?cr" "st_body r = FileBytes ?b"
      using b assms(1) by (auto simp: Suc_diff_le)
    show ?thesis using r b ne by (intro exI [of _ ?b]) (simp del: upt_Suc lit_simps, blast)
  qed
qed

lemma demo_local_body:
  "\<exists>r. build_file_stream_response ascii_headers (demo_fs [7, 8, 9]) [lit ''m'', lit ''a''] []
     [(''range'', lit ''bytes=1-'')] False [] = Inr r \<and> st_body r = FileBytes [8, 9]"
  by (simp add: build_file_stream_response_def demo_fs_def get_all_def parse_requested_range_def
      requested_interval_def parse_range_u64_def ascii_to_str visible_ascii_def str_eval Let_def)

theorem local_body_exact_witness:
  "\<exists>r. build_file_stream_response ascii_headers (demo_fs [7, 8, 9]) [lit ''m'', lit ''a''] []
     [(''range'', lit ''bytes=1-'')] False [] = Inr r
     \<and> map_of (st_headers r) ''content-length'' = Some (nat_text 2)"
proof -
  obtain r where r: "build_file_stream_response ascii_headers (demo_fs [7, 8, 9]) [lit ''m'', lit ''a''] []
     [(''range'', lit ''bytes=1-'')] False [] = Inr r" "st_body r = FileBytes [8, 9]"
    using demo_local_body by blast
  have "fs_metadata (demo_fs [7, 8, 9]) [lit ''m'', lit ''a''] = Inr \<lparr>fm_kind = RegularFile, fm_len = length [7, 8, 9 :: nat]\<rparr>"
    "fs_open (demo_fs [7, 8, 9]) [lit ''m'', lit ''a''] = Inr [7, 8, 9]"
    by (simp_all add: demo_fs_def)
  from local_body_exact [OF r(1) this] r show ?thesis by (auto simp: numeral_2_eq_2)
qed

text \<open>
  Every response of the remote service that the handler passes on may not be cached or
  sniffed, has the validated status, and has each validated header with its value under its
  own name; the validated response says whether there is a body.
\<close>

theorem remote_response_headers:
  assumes "build_remote_stream_response from_bytes v with_body = Inr r"
    and "distinct (map fst (vr_headers v))"
  shows "st_status r = vr_status v
    \<and> map_of (st_headers r) ''cache-control'' = Some (lit ''private, no-store'')
    \<and> map_of (st_headers r) ''x-content-type-options'' = Some (lit ''nosniff'')
    \<and> (\<forall>(n, x) \<in> set (vr_headers v). map_of (st_headers r) (header_name_str n) = from_bytes x)
    \<and> (st_body r = NoBody \<longleftrightarrow> \<not> (with_body \<and> vr_response v \<noteq> None))"
proof -
  from assms(1) obtain hs where hs: "insert_headers from_bytes (vr_headers v) [] = Inr hs"
    and r: "r = \<lparr>st_status = vr_status v, st_headers = apply_remote_response_security_headers hs,
            st_body = (case vr_response v of
                         Some r \<Rightarrow> if with_body then RemoteBytes r else NoBody
                       | None \<Rightarrow> NoBody)\<rparr>"
    by (auto simp: build_remote_stream_response_def result_simps split: if_splits)
  have inj: "header_name_str n = header_name_str m \<longleftrightarrow> n = m" for n m
    by (cases n; cases m) simp_all
  have ins: "insert_headers from_bytes xs h0 = Inr h \<Longrightarrow> distinct (map fst xs) \<Longrightarrow>
      (\<forall>(n, x) \<in> set xs. map_of h (header_name_str n) = from_bytes x)
      \<and> (\<forall>k. k \<notin> header_name_str ` fst ` set xs \<longrightarrow> map_of h k = map_of h0 k)" for xs h0 h
  proof (induction xs arbitrary: h0)
    case (Cons y ys)
    obtain n x where y: "y = (n, x)" by (cases y)
    with Cons.prems obtain x' where x': "from_bytes x = Some x'"
      and ih: "insert_headers from_bytes ys (AList.update (header_name_str n) x' h0) = Inr h"
      by (auto split: option.splits)
    have fresh: "header_name_str n \<notin> header_name_str ` fst ` set ys"
      using Cons.prems(2) y by (metis (no_types, lifting) distinct.simps(2) fst_conv imageE inj
          list.set_map list.simps(9))
    from Cons.IH [OF ih] Cons.prems(2) have IH: "\<forall>(n, x) \<in> set ys. map_of h (header_name_str n) = from_bytes x"
      "\<forall>k. k \<notin> header_name_str ` fst ` set ys \<longrightarrow> map_of h k = map_of (AList.update (header_name_str n) x' h0) k"
      by simp_all
    from IH(2) fresh have "map_of h (header_name_str n) = Some x'" by (simp add: update_conv')
    with IH x' y fresh show ?case by (auto simp: update_conv')
  qed simp
  from ins [OF hs assms(2)] have "\<forall>(n, x) \<in> set (vr_headers v). map_of hs (header_name_str n) = from_bytes x"
    by blast
  moreover have "header_name_str n \<noteq> ''cache-control'' \<and> header_name_str n \<noteq> ''x-content-type-options''" for n
    by (cases n) simp_all
  ultimately show ?thesis
    unfolding r by (auto simp: apply_remote_response_security_headers_def update_conv' split: option.splits)
qed

theorem remote_response_headers_witness:
  "\<exists>r. build_remote_stream_response Some \<lparr>vr_status = 206, vr_headers = [(ContentLength, lit ''4'')],
     vr_response = Some demo_partial\<rparr> True = Inr r
     \<and> map_of (st_headers r) ''content-length'' = Some (lit ''4'') \<and> st_body r \<noteq> NoBody"
proof -
  obtain r where r: "build_remote_stream_response Some \<lparr>vr_status = 206,
      vr_headers = [(ContentLength, lit ''4'')], vr_response = Some demo_partial\<rparr> True = Inr r"
    by (simp add: build_remote_stream_response_def)
  from remote_response_headers [OF r] r show ?thesis by simp
qed

end
