(* ===== verification/Mount_Table.thy ===== *)
theory Mount_Table
  imports Rust_Path
begin

text \<open>
  Storage facts (\<open>mova-scan/src/storage.rs\<close>) and the names that are never media
  (\<open>mova-scan/src/ignore.rs\<close>): the kernel's mount table, which mount holds a path, and what
  a look-up says about a path of the catalog.
\<close>

subsection \<open>Mounts\<close>

record mount_entry =
  mount_point :: path
  fs_type :: ustr
  mount_source :: ustr

definition NETWORK_FILESYSTEM_TYPES :: "ustr list" where
  "NETWORK_FILESYSTEM_TYPES = [lit ''cifs'', lit ''smb3'', lit ''smbfs'', lit ''nfs'', lit ''nfs4'',
     lit ''fuse.rclone'', lit ''fuse.sshfs'']"

definition is_network_filesystem :: "ustr \<Rightarrow> bool" where
  "is_network_filesystem t = (t \<in> set NETWORK_FILESYSTEM_TYPES)"

definition is_network :: "mount_entry \<Rightarrow> bool" where
  "is_network e = is_network_filesystem (fs_type e)"

definition same_storage_as :: "mount_entry \<Rightarrow> mount_entry \<Rightarrow> bool" where
  "same_storage_as a b = (fs_type a = fs_type b \<and> mount_source a = mount_source b)"

type_synonym mount_table = "mount_entry list"

text \<open>Later entries are mounted on top of earlier ones.\<close>

definition mount_at :: "mount_table \<Rightarrow> path \<Rightarrow> mount_entry option" where
  "mount_at table p = find (\<lambda>e. mount_point e = p) (rev table)"

definition holding_step :: "path \<Rightarrow> mount_entry option \<Rightarrow> mount_entry \<Rightarrow> mount_entry option" where
  "holding_step p holding e =
     (if \<not> prefix (mount_point e) p then holding
      else (case holding of
              None \<Rightarrow> Some e
            | Some c \<Rightarrow> if length (mount_point c) < length (mount_point e) then Some e else holding))"

definition mount_holding :: "mount_table \<Rightarrow> path \<Rightarrow> mount_entry option" where
  "mount_holding table p = foldl (holding_step p) None (rev table)"

text \<open>\<open>sort\<close> followed by \<open>dedup\<close>, which drops repeated neighbours, is \<open>remdups_adj \<circ> sort\<close>.\<close>

definition mounts_below :: "mount_table \<Rightarrow> path \<Rightarrow> mount_entry list" where
  "mounts_below table p =
     List.map_filter (mount_at table)
       (remdups_adj (sort
          (map mount_point (List.filter (\<lambda>e. mount_point e \<noteq> p \<and> prefix p (mount_point e)) table))))"

subsection \<open>Reading the table\<close>

text \<open>\<open>String::from_utf8_lossy\<close>: each maximal invalid piece becomes \<open>U+FFFD\<close>.\<close>

definition second_byte_ok :: "nat \<Rightarrow> nat \<Rightarrow> bool" where
  "second_byte_ok a b =
     (if a = 224 then 160 \<le> b \<and> b < 192
      else if a = 237 then 128 \<le> b \<and> b < 160
      else if a = 240 then 144 \<le> b \<and> b < 192
      else if a = 244 then 128 \<le> b \<and> b < 144
      else is_cont_byte b)"

text \<open>The length of the piece at the front, and the character it stands for if it is valid.\<close>

fun utf8_piece :: "nat list \<Rightarrow> nat \<times> nat option" where
  "utf8_piece [] = (1, None)"
| "utf8_piece (a # bs) =
     (if a < 128 then (1, Some a)
      else if 194 \<le> a \<and> a < 224 then
        (case bs of
           b # _ \<Rightarrow> if is_cont_byte b then (2, Some ((a - 192) * 64 + (b - 128))) else (1, None)
         | [] \<Rightarrow> (1, None))
      else if 224 \<le> a \<and> a < 240 then
        (case bs of
           b # b' # _ \<Rightarrow>
             if \<not> second_byte_ok a b then (1, None)
             else if is_cont_byte b'
             then (3, Some ((a - 224) * 4096 + (b - 128) * 64 + (b' - 128)))
             else (2, None)
         | [b] \<Rightarrow> if second_byte_ok a b then (2, None) else (1, None)
         | [] \<Rightarrow> (1, None))
      else if 240 \<le> a \<and> a < 245 then
        (case bs of
           b # b' # b'' # _ \<Rightarrow>
             if \<not> second_byte_ok a b then (1, None)
             else if \<not> is_cont_byte b' then (2, None)
             else if is_cont_byte b''
             then (4, Some ((a - 240) * 262144 + (b - 128) * 4096 + (b' - 128) * 64 + (b'' - 128)))
             else (3, None)
         | [b, b'] \<Rightarrow>
             if \<not> second_byte_ok a b then (1, None)
             else if is_cont_byte b' then (3, None) else (2, None)
         | [b] \<Rightarrow> if second_byte_ok a b then (2, None) else (1, None)
         | [] \<Rightarrow> (1, None))
      else (1, None))"

lemma utf8_piece_positive: "0 < fst (utf8_piece bs)"
  by (cases bs) (auto split: list.split)

function from_utf8_lossy :: "nat list \<Rightarrow> ustr" where
  "from_utf8_lossy bs =
     (if bs = [] then []
      else (case utf8_piece bs of
              (n, c) \<Rightarrow> (case c of None \<Rightarrow> 65533 | Some c \<Rightarrow> c) # from_utf8_lossy (drop n bs)))"
  by pat_completeness auto

lemma utf8_piece_shrinks: "bs \<noteq> [] \<Longrightarrow> (n, c) = utf8_piece bs \<Longrightarrow> length bs - n < length bs"
  using utf8_piece_positive [of bs] by (cases bs) (auto simp del: utf8_piece.simps dest: sym)

termination from_utf8_lossy
  by (relation "measure length") (simp_all add: utf8_piece_shrinks)

declare from_utf8_lossy.simps [simp del]

definition is_octal :: "nat \<Rightarrow> bool" where
  "is_octal d = (48 \<le> d \<and> d \<le> 55)"

text \<open>
  The loop over the bytes: a backslash with three octal digits whose value fits a byte is
  that byte. The index is the position of the list that is left.
\<close>

fun unescape_bytes :: "nat list \<Rightarrow> nat list" where
  "unescape_bytes (b # d1 # d2 # d3 # rest) =
     (let value = (d1 - 48) * 64 + (d2 - 48) * 8 + (d3 - 48) in
      if b = 92 \<and> is_octal d1 \<and> is_octal d2 \<and> is_octal d3 \<and> value < 256
      then value # unescape_bytes rest
      else b # unescape_bytes (d1 # d2 # d3 # rest))"
| "unescape_bytes (b # rest) = b # unescape_bytes rest"
| "unescape_bytes [] = []"

definition unescape_mountinfo_field :: "ustr \<Rightarrow> ustr" where
  "unescape_mountinfo_field field = from_utf8_lossy (unescape_bytes (utf8_bytes field))"

definition parse_mountinfo_line :: "ustr \<Rightarrow> mount_entry option" where
  "parse_mountinfo_line line =
     (let fields = split_by (\<lambda>c. c = 32) line in
      if length fields \<le> 4 then None
      else
        let mp = fields ! 4 in
        (case dropWhile (\<lambda>f. f \<noteq> [45]) (drop 5 fields) of
           _ # t # s # _ \<Rightarrow>
             if mp = [] \<or> t = [] then None
             else Some \<lparr>mount_point = path_of_text (unescape_mountinfo_field mp),
                        fs_type = unescape_mountinfo_field t,
                        mount_source = unescape_mountinfo_field s\<rparr>
         | _ \<Rightarrow> None))"

definition parse_mount_table :: "ustr \<Rightarrow> mount_table" where
  "parse_mount_table text = List.map_filter parse_mountinfo_line (text_lines text)"

text \<open>\<open>read_current\<close> on the text that reading \<open>/proc/self/mountinfo\<close> gave.\<close>

definition read_current :: "io_error + ustr \<Rightarrow> io_error + mount_table" where
  "read_current file =
     and_then file (\<lambda>text.
       let table = parse_mount_table text
       in if table = [] then Inl IoOther else Inr table)"

subsection \<open>Catalog paths\<close>

definition is_absent_entry_error :: "io_error \<Rightarrow> bool" where
  "is_absent_entry_error e = (e = IoNotFound \<or> e = IoNotADirectory \<or> e = IoLoop)"

definition probe_directory :: "file_system \<Rightarrow> path \<Rightarrow> io_error + unit" where
  "probe_directory fs p = fs_read_first fs p"

datatype catalog_path_presence = Present | Absent | LookupFailed io_error

definition presence_of_metadata :: "io_error + file_metadata \<Rightarrow> catalog_path_presence" where
  "presence_of_metadata r =
     (case r of
        Inr m \<Rightarrow> if fm_kind m = RegularFile then Present else Absent
      | Inl e \<Rightarrow> if is_absent_entry_error e then Absent else LookupFailed e)"

definition catalog_path_presence :: "file_system \<Rightarrow> path \<Rightarrow> path \<Rightarrow> catalog_path_presence" where
  "catalog_path_presence fs p canonical_root =
     (case fs_canonicalize fs p of
        Inl e \<Rightarrow> if is_absent_entry_error e then Absent else LookupFailed e
      | Inr canonical_path \<Rightarrow>
          if \<not> prefix canonical_root canonical_path then Absent
          else presence_of_metadata (fs_metadata fs canonical_path))"

definition known_file_presence :: "file_system \<Rightarrow> path \<Rightarrow> catalog_path_presence" where
  "known_file_presence fs p = presence_of_metadata (fs_metadata fs p)"

subsection \<open>Ignored names\<close>

definition IGNORED_DIRECTORY_NAMES :: "ustr list" where
  "IGNORED_DIRECTORY_NAMES = [lit ''#recycle'', lit ''#snapshot'', lit ''@eadir'', lit ''@recycle'',
     lit ''@recently-snapshot'', lit ''$recycle.bin'', lit ''system volume information'',
     lit ''lost+found'', lit ''extras'', lit ''trailers'', lit ''samples'', lit ''sample'',
     lit ''featurettes'', lit ''behind the scenes'', lit ''deleted scenes'', lit ''interviews'']"

definition IGNORED_FILE_NAMES :: "ustr list" where
  "IGNORED_FILE_NAMES = [lit ''thumbs.db'', lit ''desktop.ini'']"

definition IGNORED_VIDEO_STEMS :: "ustr list" where
  "IGNORED_VIDEO_STEMS = [lit ''sample'', lit ''trailer'']"

definition IGNORED_VIDEO_STEM_SUFFIXES :: "ustr list" where
  "IGNORED_VIDEO_STEM_SUFFIXES = [lit ''-sample'', lit ''-trailer'', lit ''.sample'', lit ''.trailer'']"

text \<open>\<open>None\<close> is a name that is not UTF-8.\<close>

definition is_ignored_entry_name :: "ustr option \<Rightarrow> bool" where
  "is_ignored_entry_name name =
     (case name of
        None \<Rightarrow> False
      | Some n \<Rightarrow>
          starts_with [46] n
          \<or> to_ascii_lowercase n \<in> set IGNORED_DIRECTORY_NAMES
          \<or> to_ascii_lowercase n \<in> set IGNORED_FILE_NAMES)"

definition is_ignored_video_file_name :: "ustr \<Rightarrow> bool" where
  "is_ignored_video_file_name name =
     (case file_stem name of
        None \<Rightarrow> False
      | Some stem0 \<Rightarrow>
          let stem = to_ascii_lowercase stem0
          in stem \<in> set IGNORED_VIDEO_STEMS \<or> list_ex (\<lambda>s. ends_with s stem) IGNORED_VIDEO_STEM_SUFFIXES)"

fun ignored_components :: "path \<Rightarrow> bool" where
  "ignored_components [] = False"
| "ignored_components (c # cs) =
     (if \<not> is_normal_component c then ignored_components cs
      else is_ignored_entry_name (Some c) \<or> (cs = [] \<and> is_ignored_video_file_name c)
           \<or> ignored_components cs)"

definition is_ignored_media_path :: "path \<Rightarrow> path \<Rightarrow> bool" where
  "is_ignored_media_path root p =
     (case strip_prefix root p of None \<Rightarrow> False | Some relative \<Rightarrow> ignored_components relative)"

subsection \<open>The mount that holds a path\<close>

lemma mount_at_Some:
  "mount_at table p = Some e \<Longrightarrow> e \<in> set table \<and> mount_point e = p"
  by (auto simp: mount_at_def find_Some_iff in_set_conv_nth rev_nth)
    (metis Suc_diff_Suc diff_Suc_less diff_less_Suc length_rev less_nat_zero_code not_less_eq
      old.nat.exhaust zero_less_diff)

lemma mount_at_None: "mount_at table p = None \<longleftrightarrow> (\<forall>e \<in> set table. mount_point e \<noteq> p)"
  by (auto simp: mount_at_def find_None_iff)

text \<open>What the fold has found when it has seen the entries \<open>seen\<close>, topmost first.\<close>

definition holds_best :: "path \<Rightarrow> mount_entry list \<Rightarrow> mount_entry option \<Rightarrow> bool" where
  "holds_best p seen h \<longleftrightarrow>
     (case h of
        None \<Rightarrow> \<forall>x \<in> set seen. \<not> prefix (mount_point x) p
      | Some e \<Rightarrow> find (\<lambda>x. mount_point x = mount_point e) seen = Some e \<and> prefix (mount_point e) p
          \<and> (\<forall>x \<in> set seen. prefix (mount_point x) p \<longrightarrow> length (mount_point x) \<le> length (mount_point e)))"

lemma find_append: "find P (xs @ ys) = (case find P xs of None \<Rightarrow> find P ys | Some x \<Rightarrow> Some x)"
  by (induction xs) auto

lemma holding_step_best:
  assumes "holds_best p seen h"
  shows "holds_best p (seen @ [e]) (holding_step p h e)"
proof (cases h)
  case None
  have "find (\<lambda>x. mount_point x = mount_point e) seen = None" if "prefix (mount_point e) p"
    using that assms None by (fastforce simp: holds_best_def find_None_iff)
  then show ?thesis
    using assms None by (auto simp: holds_best_def holding_step_def find_append)
next
  case (Some c)
  have "find (\<lambda>x. mount_point x = mount_point e) seen = None"
    if "prefix (mount_point e) p" "length (mount_point c) < length (mount_point e)"
    using that assms Some by (fastforce simp: holds_best_def find_None_iff)
  then show ?thesis
    using assms Some by (auto simp: holds_best_def holding_step_def find_append)
qed

lemma fold_best: "holds_best p seen h \<Longrightarrow> holds_best p (seen @ xs) (foldl (holding_step p) h xs)"
proof (induction xs arbitrary: seen h)
  case (Cons x xs)
  from Cons.IH [OF holding_step_best [OF Cons.prems]] show ?case by simp
qed simp

lemma mount_holding_best: "holds_best p (rev table) (mount_holding table p)"
  using fold_best [of p "[]" None "rev table"] by (simp add: mount_holding_def holds_best_def)

text \<open>
  The mount that holds a path is found exactly: there is none only when no mount point is
  the path or an ancestor of it; otherwise it is the topmost mount of its mount point, and
  every other mount point on the way to the path is that one or an ancestor of it.
\<close>

theorem mount_holding_exact:
  "(mount_holding table p = None \<longleftrightarrow> (\<forall>x \<in> set table. \<not> prefix (mount_point x) p))
   \<and> (\<forall>e. mount_holding table p = Some e \<longrightarrow>
        e \<in> set table \<and> mount_at table (mount_point e) = Some e \<and> prefix (mount_point e) p
        \<and> (\<forall>x \<in> set table. prefix (mount_point x) p \<longrightarrow> prefix (mount_point x) (mount_point e)))"
proof (intro conjI allI impI)
  note best = mount_holding_best [of p table]
  show "mount_holding table p = None \<longleftrightarrow> (\<forall>x \<in> set table. \<not> prefix (mount_point x) p)"
  proof (cases "mount_holding table p")
    case (Some e)
    with best have "mount_at table (mount_point e) = Some e" "prefix (mount_point e) p"
      by (auto simp: holds_best_def mount_at_def)
    with mount_at_Some [of table "mount_point e" e] Some show ?thesis by auto
  qed (use best in \<open>auto simp: holds_best_def\<close>)
  fix e assume e: "mount_holding table p = Some e"
  with best have at: "mount_at table (mount_point e) = Some e" and pre: "prefix (mount_point e) p"
    and deep: "\<And>x. x \<in> set table \<Longrightarrow> prefix (mount_point x) p \<Longrightarrow> length (mount_point x) \<le> length (mount_point e)"
    by (auto simp: holds_best_def mount_at_def)
  show "mount_at table (mount_point e) = Some e" "prefix (mount_point e) p" by fact+
  show "e \<in> set table" using mount_at_Some [OF at] by simp
  show "\<forall>x \<in> set table. prefix (mount_point x) p \<longrightarrow> prefix (mount_point x) (mount_point e)"
    using deep pre prefix_length_prefix by blast
qed

theorem mount_holding_exact_witness:
  "mount_at [\<lparr>mount_point = root_dir, fs_type = [], mount_source = []\<rparr>] root_dir
     = Some \<lparr>mount_point = root_dir, fs_type = [], mount_source = []\<rparr>"
proof -
  have "mount_holding [\<lparr>mount_point = root_dir, fs_type = [], mount_source = []\<rparr>] [[47], [109]]
      = Some \<lparr>mount_point = root_dir, fs_type = [], mount_source = []\<rparr>"
    by (simp add: mount_holding_def holding_step_def root_dir_def)
  with mount_holding_exact [of "[\<lparr>mount_point = root_dir, fs_type = [], mount_source = []\<rparr>]" "[[47], [109]]"]
  show ?thesis by force
qed

lemma mounts_below_points:
  "mount_point ` set (mounts_below table p) =
     {m. m \<noteq> p \<and> prefix p m \<and> (\<exists>e \<in> set table. mount_point e = m)}"
proof -
  have "m \<in> mount_point ` set (mounts_below table p) \<longleftrightarrow>
      m \<noteq> p \<and> prefix p m \<and> (\<exists>e \<in> set table. mount_point e = m)" for m
  proof
    assume "m \<in> mount_point ` set (mounts_below table p)"
    then obtain e x where "mount_at table (mount_point x) = Some e" "m = mount_point e"
        "x \<in> set table" "mount_point x \<noteq> p" "prefix p (mount_point x)"
      by (auto simp: mounts_below_def map_filter_def)
    with mount_at_Some [of table "mount_point x" e] show
      "m \<noteq> p \<and> prefix p m \<and> (\<exists>e \<in> set table. mount_point e = m)" by auto
  next
    assume "m \<noteq> p \<and> prefix p m \<and> (\<exists>e \<in> set table. mount_point e = m)"
    then obtain x where x: "x \<in> set table" "mount_point x = m" "m \<noteq> p" "prefix p m" by blast
    then obtain e where e: "mount_at table m = Some e" using mount_at_None by fastforce
    with x have "e \<in> set (mounts_below table p)" by (force simp: mounts_below_def map_filter_def)
    with mount_at_Some [OF e] show "m \<in> mount_point ` set (mounts_below table p)" by blast
  qed
  then show ?thesis by blast
qed

subsection \<open>Reading what the kernel writes\<close>

text \<open>The kernel's escaping of a field, and a line of the table.\<close>

definition escape_char :: "nat \<Rightarrow> nat list" where
  "escape_char c =
     (if c = 32 \<or> c = 9 \<or> c = 10 \<or> c = 92
      then [92, 48 + c div 64, 48 + c div 8 mod 8, 48 + c mod 8] else [c])"

definition escape_field :: "ustr \<Rightarrow> ustr" where
  "escape_field s = concat (map escape_char s)"

definition mountinfo_line :: "ustr \<Rightarrow> ustr list \<Rightarrow> ustr list \<Rightarrow> ustr \<Rightarrow> ustr \<Rightarrow> ustr list \<Rightarrow> ustr" where
  "mountinfo_line mp ids optional t src super =
     join [32] (ids @ [escape_field mp] @ optional @ [[45], escape_field t, escape_field src] @ super)"

lemma unescape_plain: "b \<noteq> 92 \<Longrightarrow> unescape_bytes (b # r) = b # unescape_bytes r"
  by (cases "b # r" rule: unescape_bytes.cases) auto

lemma unescape_escape: "unescape_bytes (concat (map escape_char bs)) = bs"
proof (induction bs)
  case (Cons b bs)
  let ?r = "concat (map escape_char bs)"
  show ?case
  proof (cases "b = 32 \<or> b = 9 \<or> b = 10 \<or> b = 92")
    case True
    then show ?thesis using Cons by (auto simp: escape_char_def is_octal_def Let_def)
  next
    case False
    with Cons show ?thesis by (simp add: escape_char_def unescape_plain)
  qed
qed simp

lemma utf8_bytes_escape: "utf8_bytes (escape_field s) = concat (map escape_char (utf8_bytes s))"
proof (induction s)
  case (Cons c s)
  have ascii: "utf8_bytes (escape_char c) = concat (map escape_char (utf8_char c))" if "c < 128"
    using that by (auto simp: escape_char_def utf8_bytes_def utf8_char_def)
  have high: "utf8_bytes (escape_char c) = concat (map escape_char (utf8_char c))" if "\<not> c < 128"
    using that by (auto simp: escape_char_def utf8_bytes_def utf8_char_def)
  show ?case using Cons ascii high by (auto simp: escape_field_def utf8_bytes_def)
qed (simp add: escape_field_def utf8_bytes_def)

lemma mod_of_div:
  fixes q :: nat
  assumes "q div 64 = k"
  shows "q = 64 * k + q mod 64"
  using mult_div_mod_eq [of 64 q] assms by simp

lemma three_byte_second:
  assumes "2048 \<le> c" "c < 65536" "is_scalar c"
  shows "second_byte_ok (224 + c div 4096) (128 + c div 64 mod 64)"
proof -
  define q where "q = c div 64"
  have d: "c div 4096 = q div 64" by (simp add: q_def div_mult2_eq [symmetric])
  have m: "q mod 64 < 64" by simp
  have lo: "32 \<le> q" using assms(1) div_le_mono [of 2048 c 64] by (simp add: q_def)
  show ?thesis
  proof (cases "q div 64 = 0")
    case True
    then have "32 \<le> q mod 64" using lo mod_of_div [OF True] by simp
    with True d show ?thesis using m by (simp add: second_byte_ok_def q_def)
  next
    case nz: False
    show ?thesis
    proof (cases "q div 64 = 13")
      case True
      have "c < 55296"
      proof (rule ccontr)
        assume "\<not> c < 55296"
        then have "57344 \<le> c" using assms(3) by (auto simp: is_scalar_def)
        then have "14 \<le> q div 64" using div_le_mono [of 57344 c 4096] d by simp
        with True show False by simp
      qed
      then have "q < 864" by (simp add: q_def less_mult_imp_div_less)
      with mod_of_div [OF True] have "q mod 64 < 32" by linarith
      with True d show ?thesis by (simp add: second_byte_ok_def q_def)
    next
      case False
      have "q div 64 < 16" using assms(2) d by (simp add: less_mult_imp_div_less flip: d)
      with nz False d m show ?thesis by (auto simp: second_byte_ok_def is_cont_byte_def q_def)
    qed
  qed
qed

lemma four_byte_second:
  assumes "65536 \<le> c" "is_scalar c"
  shows "second_byte_ok (240 + c div 262144) (128 + c div 4096 mod 64)"
proof -
  define q where "q = c div 4096"
  have d: "c div 262144 = q div 64" by (simp add: q_def div_mult2_eq [symmetric])
  have m: "q mod 64 < 64" by simp
  have lo: "16 \<le> q" using assms(1) div_le_mono [of 65536 c 4096] by (simp add: q_def)
  have hi: "q < 272" using assms(2) by (simp add: q_def is_scalar_def less_mult_imp_div_less)
  then have b: "q div 64 < 5" by (simp add: less_mult_imp_div_less)
  consider "q div 64 = 0" | "q div 64 = 4" | "q div 64 \<noteq> 0" "q div 64 < 4" using b by linarith
  then show ?thesis
  proof cases
    case 1
    then have "16 \<le> q mod 64" using lo mod_of_div [OF 1] by simp
    with 1 d m show ?thesis by (simp add: second_byte_ok_def q_def)
  next
    case 2
    with mod_of_div [OF 2] hi have "q mod 64 < 16" by linarith
    with 2 d show ?thesis by (simp add: second_byte_ok_def q_def)
  next
    case 3
    with d m show ?thesis by (auto simp: second_byte_ok_def is_cont_byte_def q_def)
  qed
qed

lemma utf8_piece_char:
  assumes "is_scalar c"
  shows "utf8_piece (utf8_char c @ rest) = (length (utf8_char c), Some c)"
proof -
  consider "c < 128" | "128 \<le> c" "c < 2048" | "2048 \<le> c" "c < 65536" | "65536 \<le> c" by linarith
  then show ?thesis
  proof cases
    case 1
    then show ?thesis by (simp add: utf8_char_def)
  next
    case 2
    then have "c div 64 < 32" "2 \<le> c div 64"
      using div_le_mono [of 128 c 64] by (simp_all add: less_mult_imp_div_less)
    with 2 show ?thesis by (simp add: utf8_char_def is_cont_byte_def)
  next
    case 3
    have b: "c div 4096 < 16" using 3 by (simp add: less_mult_imp_div_less)
    with 3 three_byte_second [OF 3 assms] show ?thesis using split_base64(1) [of c]
      by (simp add: utf8_char_def is_cont_byte_def)
  next
    case 4
    have b: "c div 262144 < 5" using assms by (simp add: is_scalar_def less_mult_imp_div_less)
    with 4 four_byte_second [OF 4 assms] show ?thesis using split_base64(2) [of c]
      by (simp add: utf8_char_def is_cont_byte_def)
  qed
qed

lemma from_utf8_lossy_bytes: "list_all is_scalar s \<Longrightarrow> from_utf8_lossy (utf8_bytes s) = s"
proof (induction s)
  case (Cons c s)
  then have "is_scalar c" by simp
  moreover have "utf8_char c \<noteq> []" by (simp add: utf8_char_def)
  ultimately show ?case
    using Cons by (simp add: utf8_bytes_def from_utf8_lossy.simps [of "utf8_char c @ _"] utf8_piece_char)
qed (simp add: utf8_bytes_def from_utf8_lossy.simps)

lemma unescape_field: "list_all is_scalar s \<Longrightarrow> unescape_mountinfo_field (escape_field s) = s"
  by (simp add: unescape_mountinfo_field_def utf8_bytes_escape unescape_escape from_utf8_lossy_bytes)

lemma split_by_append_sep:
  "(\<And>x. x \<in> set a \<Longrightarrow> \<not> P x) \<Longrightarrow> P s \<Longrightarrow> split_by P (a @ s # b) = a # split_by P b"
  by (induction a) auto

lemma split_by_join:
  assumes "ps \<noteq> []" "\<And>p. p \<in> set ps \<Longrightarrow> 32 \<notin> set p"
  shows "split_by (\<lambda>c. c = 32) (join [32] ps) = ps"
  using assms
proof (induction ps rule: induct_list012)
  case (3 x y ys)
  have "split_by (\<lambda>c. c = 32) (x @ 32 # join [32] (y # ys)) = x # split_by (\<lambda>c. c = 32) (join [32] (y # ys))"
    by (rule split_by_append_sep) (use 3 in auto)
  with 3 show ?case by simp
qed (auto intro: split_by_no_sep)

lemma escape_field_no_space: "32 \<notin> set (escape_field s)"
proof
  assume "32 \<in> set (escape_field s)"
  then obtain c where "32 \<in> set (escape_char c)" by (auto simp: escape_field_def)
  moreover have "c div 64 < 200" if "c \<le> 92" using that by (simp add: less_mult_imp_div_less)
  ultimately show False by (auto simp: escape_char_def split: if_splits)
qed

lemma escape_field_empty: "escape_field s = [] \<longleftrightarrow> s = []"
  by (cases s) (auto simp: escape_field_def escape_char_def)

text \<open>
  Reading back what the kernel writes: of a line of the mount table, whatever the ids, the
  optional fields and the options are, the mount point, the type and the source are read
  exactly as they were, also when they hold blanks, tabs, line ends or backslashes.
\<close>

theorem mountinfo_line_roundtrip:
  assumes "length ids = 4" and "\<forall>f \<in> set ids \<union> set optional \<union> set super. 32 \<notin> set f"
    and "[45] \<notin> set optional" and "list_all is_scalar (mp @ t @ src)" and "mp \<noteq> []" and "t \<noteq> []"
  shows "parse_mountinfo_line (mountinfo_line mp ids optional t src super)
    = Some \<lparr>mount_point = path_of_text mp, fs_type = t, mount_source = src\<rparr>"
proof -
  let ?fields = "ids @ [escape_field mp] @ optional @ [[45], escape_field t, escape_field src] @ super"
  have fields: "split_by (\<lambda>c. c = 32) (mountinfo_line mp ids optional t src super) = ?fields"
    unfolding mountinfo_line_def
    by (rule split_by_join) (use assms(2) escape_field_no_space in auto)
  have nth: "?fields ! 4 = escape_field mp" using assms(1) by (simp add: nth_append)
  have drop: "drop 5 ?fields = optional @ [[45], escape_field t, escape_field src] @ super"
    using assms(1) by simp
  have "dropWhile (\<lambda>f. f \<noteq> [45]) (optional @ [45] # rest) = [45] # rest" for rest
    using assms(3) by (induction optional) auto
  then have "dropWhile (\<lambda>f. f \<noteq> [45]) (drop 5 ?fields) = [45] # escape_field t # escape_field src # super"
    unfolding drop by simp
  moreover have "\<not> length ?fields \<le> 4" using assms(1) by simp
  moreover have "list_all is_scalar mp" "list_all is_scalar t" "list_all is_scalar src"
    using assms(4) by auto
  ultimately show ?thesis
    unfolding parse_mountinfo_line_def Let_def fields nth
    using assms(5,6) by (simp add: unescape_field escape_field_empty)
qed

theorem mountinfo_line_roundtrip_witness:
  "parse_mountinfo_line (mountinfo_line (lit ''/a b'') [[49], [50], [51], [47]] [] (lit ''nfs'') (lit ''h:/x'') [[114]])
     = Some \<lparr>mount_point = path_of_text (lit ''/a b''), fs_type = lit ''nfs'', mount_source = lit ''h:/x''\<rparr>"
  using mountinfo_line_roundtrip [of "[[49], [50], [51], [47]]" "[]" "[[114]]" "lit ''/a b''" "lit ''nfs''"
      "lit ''h:/x''"] by (simp add: is_scalar_def)

end
