(* ===== verification/Library_Storage.thy ===== *)
theory Library_Storage
  imports Mount_Table
begin

text \<open>
  When a scan may treat a catalog path as deleted (\<open>mova-application/src/library_storage.rs\<close>
  and the finalization of \<open>scan_jobs.rs\<close> with \<open>mova-db/src/media_items/sync.rs\<close>): the storage
  of a library is judged region by region against its record, and missing paths are looked
  up again before anything is removed. What the environment answers at the time of a check
  (mount table, file system, database) is the record \<open>storage_env\<close>.
\<close>

subsection \<open>Data\<close>

record storage_issue =
  reason_code :: string
  issue_mount_point :: ustr
  expected_fs_type :: "ustr option"
  expected_source :: "ustr option"
  actual_fs_type :: "ustr option"
  actual_source :: "ustr option"
  diagnostic_message :: "ustr option"

record mount_record =
  mr_mount_point :: ustr
  mr_fs_type :: ustr
  mr_source :: ustr

datatype region_verdict = Healthy | Removed | Abnormal storage_issue

fun is_dead :: "region_verdict \<Rightarrow> bool" where
  "is_dead Healthy = False"
| "is_dead _ = True"

fun verdict_kind :: "region_verdict \<Rightarrow> string" where
  "verdict_kind Healthy = ''healthy''"
| "verdict_kind Removed = ''removed''"
| "verdict_kind (Abnormal _) = ''abnormal''"

fun is_abnormal :: "region_verdict \<Rightarrow> bool" where
  "is_abnormal (Abnormal _) = True"
| "is_abnormal _ = False"

record storage_region =
  sr_mount_point :: path
  sr_recorded :: "mount_entry option"
  sr_current :: "mount_entry option"
  sr_holds_root :: bool
  sr_verdict :: region_verdict

record storage_plan =
  sp_root_path :: path
  sp_regions :: "storage_region list"
  sp_root_missing :: bool

datatype storage_assessment =
    Unavailable storage_issue
  | RemovedFromDeployment "ustr list"
  | Available storage_plan

definition storage_issue_of ::
  "string \<Rightarrow> path \<Rightarrow> mount_entry option \<Rightarrow> mount_entry option \<Rightarrow> ustr option \<Rightarrow> storage_issue" where
  "storage_issue_of code mp expected actual diagnostic =
     \<lparr>reason_code = code, issue_mount_point = path_text mp,
      expected_fs_type = map_option fs_type expected, expected_source = map_option mount_source expected,
      actual_fs_type = map_option fs_type actual, actual_source = map_option mount_source actual,
      diagnostic_message = diagnostic\<rparr>"

subsection \<open>The plan of a scan\<close>

text \<open>
  \<open>None\<close> is the panic of the \<open>expect\<close>; plans that an assessment returns always have a root
  region (lemma \<open>assess_has_root\<close>), so the \<open>None\<close> branches below are never taken.
\<close>

definition root_region :: "storage_plan \<Rightarrow> storage_region option" where
  "root_region plan = find sr_holds_root (sp_regions plan)"

definition root_is_network :: "storage_plan \<Rightarrow> bool" where
  "root_is_network plan =
     (case root_region plan of
        None \<Rightarrow> False
      | Some r \<Rightarrow> (case or_else (sr_recorded r) (sr_current r) of None \<Rightarrow> False | Some e \<Rightarrow> is_network e))"

definition skips_traversal :: "storage_plan \<Rightarrow> bool" where
  "skips_traversal plan =
     (sp_root_missing plan
      \<or> (case root_region plan of None \<Rightarrow> False | Some r \<Rightarrow> is_abnormal (sr_verdict r)))"

definition excluded_directories :: "storage_plan \<Rightarrow> path list" where
  "excluded_directories plan =
     map sr_mount_point (List.filter (\<lambda>r. \<not> sr_holds_root r \<and> is_dead (sr_verdict r)) (sp_regions plan))"

definition region_holding :: "storage_plan \<Rightarrow> path \<Rightarrow> storage_region option" where
  "region_holding plan p =
     or_else
       (max_by_key (\<lambda>r. length (sr_mount_point r))
          (List.filter (\<lambda>r. prefix (sr_mount_point r) p) (sp_regions plan)))
       (root_region plan)"

definition is_dead_path :: "storage_plan \<Rightarrow> path \<Rightarrow> bool" where
  "is_dead_path plan p =
     (case region_holding plan p of None \<Rightarrow> False | Some r \<Rightarrow> is_dead (sr_verdict r))"

datatype discovery_failure_decision = Abort | SkipPath

definition failure_decision :: "storage_plan \<Rightarrow> path \<Rightarrow> discovery_failure_decision" where
  "failure_decision plan p =
     (if p = sp_root_path plan
         \<and> map_option sr_verdict (root_region plan) = Some Healthy
         \<and> root_is_network plan
      then Abort else SkipPath)"

definition outage_issue :: "(io_error \<Rightarrow> ustr) \<Rightarrow> storage_plan \<Rightarrow> path \<Rightarrow> io_error \<Rightarrow> storage_issue option" where
  "outage_issue io_text plan p e =
     map_option (\<lambda>r. storage_issue_of ''storage_unreadable'' (sr_mount_point r) (sr_recorded r)
         (sr_current r) (Some (path_text p @ lit '': '' @ io_text e)))
       (root_region plan)"

definition record_of_entry :: "mount_entry \<Rightarrow> mount_record" where
  "record_of_entry e =
     \<lparr>mr_mount_point = path_text (mount_point e), mr_fs_type = fs_type e, mr_source = mount_source e\<rparr>"

definition root_abnormal :: "storage_plan \<Rightarrow> bool" where
  "root_abnormal plan = (case root_region plan of None \<Rightarrow> False | Some r \<Rightarrow> is_abnormal (sr_verdict r))"

definition current_root :: "storage_plan \<Rightarrow> path option" where
  "current_root plan =
     map_option sr_mount_point
       (max_by_key (\<lambda>r. length (sr_mount_point r))
          (List.filter (\<lambda>r. prefix (sr_mount_point r) (sp_root_path plan))
             (List.filter (\<lambda>r. sr_current r \<noteq> None) (sp_regions plan))))"

definition region_record :: "storage_plan \<Rightarrow> storage_region \<Rightarrow> mount_entry option" where
  "region_record plan r =
     (let below_root = (sr_mount_point r \<noteq> sp_root_path plan \<and> prefix (sp_root_path plan) (sr_mount_point r))
      in if sr_holds_root r \<and> root_abnormal plan then sr_recorded r
         else if sr_verdict r = Healthy
              \<and> (below_root \<or> (\<not> root_abnormal plan \<and> current_root plan = Some (sr_mount_point r)))
         then sr_current r
         else None)"

definition storage_record :: "storage_plan \<Rightarrow> mount_record list" where
  "storage_record plan = map record_of_entry (List.map_filter (region_record plan) (sp_regions plan))"

definition root_signature ::
  "storage_plan \<Rightarrow> (path \<times> mount_entry option \<times> string) option \<times> bool" where
  "root_signature plan =
     (map_option (\<lambda>r. (sr_mount_point r, sr_current r, verdict_kind (sr_verdict r))) (root_region plan),
      sp_root_missing plan)"

definition same_root_storage_as :: "storage_plan \<Rightarrow> storage_plan \<Rightarrow> bool" where
  "same_root_storage_as a b = (root_signature a = root_signature b)"

subsection \<open>Regions\<close>

definition insert_region ::
  "mount_table \<Rightarrow> (path \<times> storage_region) list \<Rightarrow> path \<times> mount_entry option \<Rightarrow> (path \<times> storage_region) list" where
  "insert_region table regions = (\<lambda>(mp, recorded).
     btree_upsert mp
       (\<lambda>old.
          let r = (case old of
                     Some r \<Rightarrow> r
                   | None \<Rightarrow> \<lparr>sr_mount_point = mp, sr_recorded = None, sr_current = mount_at table mp,
                              sr_holds_root = False, sr_verdict = Healthy\<rparr>)
          in if recorded \<noteq> None then r\<lparr>sr_recorded := recorded\<rparr> else r)
       regions)"

definition entry_of_record :: "mount_record \<Rightarrow> mount_entry" where
  "entry_of_record r =
     \<lparr>mount_point = path_of_text (mr_mount_point r), fs_type = mr_fs_type r, mount_source = mr_source r\<rparr>"

definition root_mount_point :: "path \<Rightarrow> mount_table \<Rightarrow> mount_record list \<Rightarrow> path option" where
  "root_mount_point root_path table recorded =
     or_else
       (max_by_key length
          (List.filter (\<lambda>mp. prefix mp root_path) (map (\<lambda>r. path_of_text (mr_mount_point r)) recorded)))
       (map_option mount_point (mount_holding table root_path))"

definition region_map ::
  "path \<Rightarrow> mount_table \<Rightarrow> mount_record list \<Rightarrow> (path \<times> storage_region) list" where
  "region_map root_path table recorded =
     foldl (insert_region table) []
       (map (\<lambda>r. (path_of_text (mr_mount_point r), Some (entry_of_record r))) recorded
        @ (case mount_holding table root_path of None \<Rightarrow> [] | Some e \<Rightarrow> [(mount_point e, None)])
        @ map (\<lambda>e. (mount_point e, None)) (mounts_below table root_path))"

definition build_regions :: "path \<Rightarrow> mount_table \<Rightarrow> mount_record list \<Rightarrow> storage_region list" where
  "build_regions root_path table recorded =
     map (\<lambda>(k, r). if root_mount_point root_path table recorded = Some k then r\<lparr>sr_holds_root := True\<rparr> else r)
       (region_map root_path table recorded)"

subsection \<open>Probing a region\<close>

record region_probe =
  rp_mount_point :: path
  rp_recorded :: "mount_entry option"
  rp_current :: "mount_entry option"
  rp_actual_holder :: "mount_entry option"
  rp_holds_root :: bool
  rp_root_path :: path
  rp_needs_known_files :: bool
  rp_known_files :: "ustr list"
  rp_has_record :: bool
  rp_in_container :: bool

definition probe_abnormal ::
  "(io_error \<Rightarrow> ustr) \<Rightarrow> region_probe \<Rightarrow> string \<Rightarrow> mount_entry option \<Rightarrow> io_error option \<Rightarrow> region_verdict" where
  "probe_abnormal io_text p code actual e =
     Abnormal (storage_issue_of code (rp_mount_point p) (rp_recorded p) actual (map_option io_text e))"

text \<open>The first file that is present decides; otherwise the last failure counts.\<close>

fun known_files_loop :: "file_system \<Rightarrow> ustr list \<Rightarrow> io_error option \<Rightarrow> io_error + bool" where
  "known_files_loop fs [] last_failure =
     (case last_failure of Some e \<Rightarrow> Inl e | None \<Rightarrow> Inr False)"
| "known_files_loop fs (f # files) last_failure =
     (case known_file_presence fs (path_of_text f) of
        Present \<Rightarrow> Inr True
      | Absent \<Rightarrow> known_files_loop fs files last_failure
      | LookupFailed e \<Rightarrow> known_files_loop fs files (Some e))"

definition known_files_present :: "file_system \<Rightarrow> region_probe \<Rightarrow> io_error + bool" where
  "known_files_present fs p = known_files_loop fs (rp_known_files p) None"

definition run_probe_directories :: "(io_error \<Rightarrow> ustr) \<Rightarrow> file_system \<Rightarrow> region_probe \<Rightarrow> region_verdict \<times> bool" where
  "run_probe_directories io_text fs p =
     (let unreadable = (\<lambda>e. (probe_abnormal io_text p ''storage_unreadable'' (rp_current p) (Some e), False))
      in case probe_directory fs (if rp_holds_root p then rp_root_path p else rp_mount_point p) of
           Inr _ \<Rightarrow> (Healthy, False)
         | Inl e \<Rightarrow>
             if rp_holds_root p \<and> e = IoNotFound then
               (case probe_directory fs (rp_mount_point p) of
                  Inr _ \<Rightarrow> (Healthy, True)
                | Inl e' \<Rightarrow> unreadable e')
             else unreadable e)"

definition run_probe :: "(io_error \<Rightarrow> ustr) \<Rightarrow> file_system \<Rightarrow> region_probe \<Rightarrow> region_verdict \<times> bool" where
  "run_probe io_text fs p =
     (case rp_current p of
        None \<Rightarrow>
          if rp_in_container p \<and> rp_mount_point p \<noteq> root_dir then (Removed, False)
          else (probe_abnormal io_text p ''storage_not_connected'' (rp_actual_holder p) None, False)
      | Some current \<Rightarrow>
          if rp_needs_known_files p \<and> rp_known_files p \<noteq> [] then
            (case known_files_present fs p of
               Inr True \<Rightarrow> run_probe_directories io_text fs p
             | Inr False \<Rightarrow>
                 (probe_abnormal io_text p
                    (if rp_has_record p then ''storage_not_connected'' else ''storage_unverified'')
                    (Some current) None, False)
             | Inl e \<Rightarrow>
                 (probe_abnormal io_text p ''storage_unreadable'' (Some current) (Some e), False))
          else run_probe_directories io_text fs p)"

subsection \<open>The assessment\<close>

datatype db_error = DbError

record storage_env =
  se_mount_table :: "io_error + mount_table"
  se_in_container :: bool
  se_fs :: file_system
  se_io_text :: "io_error \<Rightarrow> ustr"
  se_timed_out :: "path \<Rightarrow> bool"
  se_recorded :: "db_error + mount_record list"
  se_sample :: "ustr \<Rightarrow> ustr list \<Rightarrow> db_error + ustr list"

definition needs_known_files :: "bool \<Rightarrow> storage_region \<Rightarrow> bool" where
  "needs_known_files has_record r =
     (sr_holds_root r
      \<and> (case (sr_recorded r, sr_current r) of
           (Some recorded, Some current) \<Rightarrow> \<not> same_storage_as recorded current
         | (None, Some _) \<Rightarrow> \<not> has_record
         | _ \<Rightarrow> False))"

definition deeper_regions :: "bool \<Rightarrow> storage_region list \<Rightarrow> storage_region \<Rightarrow> ustr list" where
  "deeper_regions has_record regions r =
     List.filter (\<lambda>other. has_record \<and> path_of_text other \<noteq> sr_mount_point r
         \<and> prefix (sr_mount_point r) (path_of_text other))
       (map (\<lambda>r. path_text (sr_mount_point r)) regions)"

definition probe_region ::
  "storage_env \<Rightarrow> path \<Rightarrow> mount_table \<Rightarrow> bool \<Rightarrow> storage_region list \<Rightarrow> storage_region
     \<Rightarrow> db_error + region_verdict \<times> bool" where
  "probe_region E root_path table has_record regions r =
     (let needs = needs_known_files has_record r in
      and_then
        (if needs then
           se_sample E (if has_record then path_text (sr_mount_point r) else [47])
             (deeper_regions has_record regions r)
         else Inr [])
        (\<lambda>known_files.
          Inr (if se_timed_out E (sr_mount_point r) then
                 (Abnormal (storage_issue_of ''storage_timeout'' (sr_mount_point r) (sr_recorded r)
                    (sr_current r) (Some (lit ''the storage did not answer within 20 seconds''))), False)
               else
                 run_probe (se_io_text E) (se_fs E)
                   \<lparr>rp_mount_point = sr_mount_point r, rp_recorded = sr_recorded r,
                    rp_current = sr_current r, rp_actual_holder = mount_holding table (sr_mount_point r),
                    rp_holds_root = sr_holds_root r, rp_root_path = root_path,
                    rp_needs_known_files = needs, rp_known_files = known_files,
                    rp_has_record = has_record, rp_in_container = se_in_container E\<rparr>)))"

definition judge_region ::
  "storage_env \<Rightarrow> path \<Rightarrow> mount_table \<Rightarrow> bool \<Rightarrow> storage_region list \<Rightarrow> storage_region
     \<Rightarrow> db_error + storage_region \<times> bool" where
  "judge_region E root_path table has_record regions r =
     map_ok (\<lambda>(v, missing). (r\<lparr>sr_verdict := v\<rparr>, missing)) (probe_region E root_path table has_record regions r)"

definition configured_regions :: "storage_plan \<Rightarrow> storage_region list" where
  "configured_regions plan =
     List.filter (\<lambda>r. sr_recorded r \<noteq> None \<and> sr_mount_point r \<noteq> root_dir) (sp_regions plan)"

definition decide :: "path \<Rightarrow> storage_region list \<Rightarrow> bool \<Rightarrow> bool \<Rightarrow> storage_assessment" where
  "decide root_path regions root_missing in_container =
     (let plan = \<lparr>sp_root_path = root_path, sp_regions = regions, sp_root_missing = root_missing\<rparr>;
          configured = configured_regions plan;
          later =
            (if in_container \<and> configured \<noteq> [] \<and> list_all (\<lambda>r. sr_verdict r = Removed) configured
             then RemovedFromDeployment (map (\<lambda>r. path_text (sr_mount_point r)) configured)
             else Available plan)
      in case root_region plan of
           None \<Rightarrow> later
         | Some root \<Rightarrow>
             (case sr_verdict root of
                Abnormal issue \<Rightarrow>
                  if root_is_network plan \<or> sr_recorded root = None then Unavailable issue else later
              | _ \<Rightarrow> later))"

definition root_path_missing :: "(storage_region \<times> bool) list \<Rightarrow> bool" where
  "root_path_missing judged =
     foldl (\<lambda>root_missing (r, missing). if sr_holds_root r then missing else root_missing) False judged"

definition assess_library_storage :: "storage_env \<Rightarrow> ustr \<Rightarrow> db_error + storage_assessment" where
  "assess_library_storage E library_root =
     (let root_path = path_of_text library_root in
      case se_mount_table E of
        Inl e \<Rightarrow>
          Inr (Unavailable (storage_issue_of ''mount_table_unavailable'' root_path None None
            (Some (se_io_text E e))))
      | Inr table \<Rightarrow>
          and_then (se_recorded E) (\<lambda>recorded.
            let regions = build_regions root_path table recorded in
            if \<not> list_ex sr_holds_root regions then
              Inr (Unavailable (storage_issue_of ''mount_table_unavailable'' root_path None None
                (Some (lit ''no mount holds the library root''))))
            else
              and_then (try_map (judge_region E root_path table (recorded \<noteq> []) regions) regions)
                (\<lambda>judged.
                  Inr (decide root_path (map fst judged) (root_path_missing judged) (se_in_container E)))))"

subsection \<open>Missing paths\<close>

definition path_is_under :: "ustr \<Rightarrow> ustr \<Rightarrow> bool" where
  "path_is_under p directory0 =
     (let directory = trim_end_matches (\<lambda>c. c = 47) directory0 in
      p = directory
      \<or> (case strip_prefix directory p of None \<Rightarrow> False | Some rest \<Rightarrow> starts_with [47] rest))"

definition path_in_scope :: "ustr list option \<Rightarrow> ustr \<Rightarrow> bool" where
  "path_in_scope scope p =
     (case scope of None \<Rightarrow> True | Some ds \<Rightarrow> list_ex (path_is_under p) ds)"

text \<open>
  The directories of a scoped scan: inside the root, sorted, without repetitions and without
  one that another covers.
\<close>

definition keep_uncovered :: "ustr list \<Rightarrow> ustr list \<Rightarrow> ustr list" where
  "keep_uncovered kept0 directories =
     foldl (\<lambda>kept d. if list_ex (path_is_under d) kept then kept else kept @ [d]) kept0 directories"

definition scope_from_requested :: "ustr \<Rightarrow> ustr list option \<Rightarrow> ustr list option" where
  "scope_from_requested root_path requested =
     (case requested of
        None \<Rightarrow> None
      | Some ds \<Rightarrow>
          (let root = trim_end_matches (\<lambda>c. c = 47) root_path;
               directories =
                 List.filter (\<lambda>d. d \<noteq> [] \<and> d \<noteq> root \<and> path_is_under d root)
                   (map (trim_end_matches (\<lambda>c. c = 47)) ds)
           in Some (keep_uncovered [] (remdups_adj (sort directories)))))"

datatype missing_path_verification =
    Verified "ustr list" storage_plan
  | StorageChanged "storage_issue option"

text \<open>How the blocking look-up under its own timeout ends.\<close>

datatype lookup_end = LookupDone | LookupPanicked | LookupTimedOut

fun is_lookup_failure :: "catalog_path_presence \<Rightarrow> bool" where
  "is_lookup_failure (LookupFailed _) = True"
| "is_lookup_failure _ = False"

datatype verify_error = VerifyDb db_error | WorkerPanicked

definition missing_candidates ::
  "storage_plan \<Rightarrow> ustr \<Rightarrow> ustr list \<Rightarrow> ustr list option \<Rightarrow> ustr list \<Rightarrow> ustr list" where
  "missing_candidates current library_root observed scope catalog =
     List.filter (\<lambda>p. \<not> is_ignored_media_path (path_of_text library_root) (path_of_text p))
       (List.filter (\<lambda>p. \<not> is_dead_path current (path_of_text p))
         (List.filter (path_in_scope scope)
           (List.filter (\<lambda>p. p \<notin> set observed) catalog)))"

text \<open>The look-up of the candidates in a blocking task, after which the root is probed again.\<close>

definition look_up_candidates ::
  "storage_env \<Rightarrow> path \<Rightarrow> storage_plan \<Rightarrow> ustr list \<Rightarrow> missing_path_verification" where
  "look_up_candidates E root current candidates =
     (let canonical_root = (case fs_canonicalize (se_fs E) root of Inr r \<Rightarrow> r | Inl _ \<Rightarrow> root);
          presence = (\<lambda>p. catalog_path_presence (se_fs E) (path_of_text p) canonical_root);
          present_paths = List.filter (\<lambda>p. presence p = Present) candidates;
          failed = list_ex (\<lambda>p. is_lookup_failure (presence p)) candidates
      in case (if failed then probe_directory (se_fs E) root else Inr ()) of
           Inr _ \<Rightarrow> Verified present_paths current
         | Inl e \<Rightarrow>
             if failure_decision current (sp_root_path current) = Abort
             then StorageChanged (outage_issue (se_io_text E) current (sp_root_path current) e)
             else Verified present_paths current)"

definition verify_missing_media_paths ::
  "storage_env \<Rightarrow> ustr \<Rightarrow> storage_plan \<Rightarrow> ustr list \<Rightarrow> ustr list option \<Rightarrow> (db_error + ustr list) \<Rightarrow> lookup_end
     \<Rightarrow> verify_error + missing_path_verification" where
  "verify_missing_media_paths E library_root plan observed scope catalog ending =
     and_then (map_err VerifyDb (assess_library_storage E library_root)) (\<lambda>assessment.
       case assessment of
         Unavailable issue \<Rightarrow> Inr (StorageChanged (Some issue))
       | RemovedFromDeployment _ \<Rightarrow> Inr (StorageChanged None)
       | Available current \<Rightarrow>
           if \<not> same_root_storage_as current plan then Inr (StorageChanged None)
           else
             and_then (map_err VerifyDb catalog) (\<lambda>catalog.
             let candidates = missing_candidates current library_root observed scope catalog in
             if candidates = [] then Inr (Verified [] current)
             else
               (case ending of
                  LookupPanicked \<Rightarrow> Inl WorkerPanicked
                | LookupTimedOut \<Rightarrow> Inr (StorageChanged None)
                | LookupDone \<Rightarrow>
                    Inr (look_up_candidates E (path_of_text library_root) current candidates))))"

text \<open>
  The finalization of a scan: what the database drops is every catalog path that is neither
  discovered nor retained and lies in the scope.
\<close>

definition missing_in_sync :: "ustr list \<Rightarrow> ustr list \<Rightarrow> ustr list option \<Rightarrow> ustr list \<Rightarrow> ustr list" where
  "missing_in_sync discovered retained scope existing =
     List.filter (path_in_scope scope)
       (List.filter (\<lambda>p. p \<notin> set discovered \<union> set retained) existing)"

definition finalize_removals ::
  "storage_env \<Rightarrow> ustr \<Rightarrow> storage_plan \<Rightarrow> ustr list \<Rightarrow> ustr list \<Rightarrow> ustr list option \<Rightarrow> (db_error + ustr list)
     \<Rightarrow> lookup_end \<Rightarrow> ustr list \<Rightarrow> ustr list" where
  "finalize_removals E library_root plan discovered unparsed scope catalog ending existing =
     (case verify_missing_media_paths E library_root plan (discovered @ unparsed) scope catalog ending of
        Inr (Verified present_paths current) \<Rightarrow>
          missing_in_sync discovered (unparsed @ present_paths) scope existing
      | _ \<Rightarrow> [])"

subsection \<open>Well-formed regions\<close>

definition region_of :: "mount_table \<Rightarrow> path \<times> storage_region \<Rightarrow> bool" where
  "region_of table = (\<lambda>(k, r). sr_mount_point r = k \<and> \<not> sr_holds_root r
     \<and> sr_current r = mount_at table k \<and> sr_verdict r = Healthy)"

lemma insert_region_ok:
  assumes "btree_ok m" "list_all (region_of table) m"
  shows "btree_ok (insert_region table m (k, e)) \<and> list_all (region_of table) (insert_region table m (k, e))
    \<and> fst ` set (insert_region table m (k, e)) = insert k (fst ` set m)"
proof -
  let ?f = "\<lambda>old. let r = (case old of
                     Some r \<Rightarrow> r
                   | None \<Rightarrow> \<lparr>sr_mount_point = k, sr_recorded = None, sr_current = mount_at table k,
                              sr_holds_root = False, sr_verdict = Healthy\<rparr>)
          in if e \<noteq> None then r\<lparr>sr_recorded := e\<rparr> else r"
  have eq: "insert_region table m (k, e) = btree_upsert k ?f m" by (simp add: insert_region_def)
  have ok: "btree_ok (btree_upsert k ?f m)" by (rule btree_upsert_ok [OF assms(1)])
  have "region_of table (x, r)" if "(x, r) \<in> set (btree_upsert k ?f m)" for x r
  proof -
    have "map_of (btree_upsert k ?f m) x = Some r"
      using that btree_distinct [OF ok] by simp
    then have c: "if x = k then r = ?f (map_of m k) else map_of m x = Some r"
      by (auto simp: btree_upsert_lookup [OF assms(1)] split: if_splits)
    have old: "region_of table (y, r')" if "map_of m y = Some r'" for y r'
      using map_of_SomeD [OF that] assms(2) by (auto simp: list_all_iff)
    show ?thesis
    proof (cases "x = k")
      case True
      then show ?thesis using c old [of k] by (cases "map_of m k") (auto simp: region_of_def Let_def)
    next
      case False
      then show ?thesis using c old by simp
    qed
  qed
  then show ?thesis
    unfolding eq using ok btree_upsert_keys [of k ?f m] by (auto simp: list_all_iff)
qed

lemma fold_regions_ok:
  assumes "btree_ok m" "list_all (region_of table) m"
  shows "btree_ok (foldl (insert_region table) m xs) \<and> list_all (region_of table) (foldl (insert_region table) m xs)
    \<and> fst ` set (foldl (insert_region table) m xs) = fst ` set m \<union> fst ` set xs"
  using assms
proof (induction xs arbitrary: m)
  case (Cons x xs)
  obtain k e where "x = (k, e)" by (cases x)
  with Cons insert_region_ok [OF Cons.prems, of k e] show ?case by simp
qed simp

lemma region_map_ok:
  "btree_ok (region_map root table recorded) \<and> list_all (region_of table) (region_map root table recorded)
   \<and> fst ` set (region_map root table recorded) =
       {path_of_text (mr_mount_point r) | r. r \<in> set recorded}
       \<union> {mount_point e | e. mount_holding table root = Some e}
       \<union> {m. m \<noteq> root \<and> prefix root m \<and> (\<exists>e \<in> set table. mount_point e = m)}"
proof -
  have "btree_ok ([] :: (path \<times> storage_region) list)" by (simp add: btree_ok_def)
  from fold_regions_ok [OF this, of table]
  have f: "btree_ok (foldl (insert_region table) [] xs) \<and> list_all (region_of table) (foldl (insert_region table) [] xs)
      \<and> fst ` set (foldl (insert_region table) [] xs) = fst ` set xs" for xs
    by simp
  have below: "(\<lambda>e. mount_point e) ` set (mounts_below table root)
      = {m. m \<noteq> root \<and> prefix root m \<and> (\<exists>e \<in> set table. mount_point e = m)}"
    by (rule mounts_below_points)
  let ?xs = "map (\<lambda>r. (path_of_text (mr_mount_point r), Some (entry_of_record r))) recorded
        @ (case mount_holding table root of None \<Rightarrow> [] | Some e \<Rightarrow> [(mount_point e, None)])
        @ map (\<lambda>e. (mount_point e, None)) (mounts_below table root)"
  have keys: "fst ` set ?xs = {path_of_text (mr_mount_point r) | r. r \<in> set recorded}
       \<union> {mount_point e | e. mount_holding table root = Some e}
       \<union> {m. m \<noteq> root \<and> prefix root m \<and> (\<exists>e \<in> set table. mount_point e = m)}"
    unfolding below [symmetric] set_append image_Un list.set_map image_image fst_conv Un_assoc
    by (cases "mount_holding table root") auto
  show ?thesis
    unfolding keys [symmetric] region_map_def by (rule f)
qed

lemma build_regions_distinct:
  "distinct (map sr_mount_point (build_regions root table recorded))
   \<and> sorted_wrt (<) (map sr_mount_point (build_regions root table recorded))
   \<and> (\<forall>r \<in> set (build_regions root table recorded).
        sr_current r = mount_at table (sr_mount_point r) \<and> sr_verdict r = Healthy
        \<and> (sr_holds_root r \<longleftrightarrow> root_mount_point root table recorded = Some (sr_mount_point r)))
   \<and> sr_mount_point ` set (build_regions root table recorded) = fst ` set (region_map root table recorded)"
proof -
  let ?m = "region_map root table recorded"
  note m = region_map_ok [of root table recorded]
  have mp: "sr_mount_point r = k" "\<not> sr_holds_root r" "sr_current r = mount_at table k" "sr_verdict r = Healthy"
    if "(k, r) \<in> set ?m" for k r
    using m that by (auto simp: list_all_iff region_of_def)
  have points: "map sr_mount_point (build_regions root table recorded) = map fst ?m"
    using mp by (auto simp: build_regions_def)
  have "distinct (map fst ?m)" using m btree_distinct by blast
  moreover have "sr_current r = mount_at table (sr_mount_point r) \<and> sr_verdict r = Healthy
        \<and> (sr_holds_root r \<longleftrightarrow> root_mount_point root table recorded = Some (sr_mount_point r))"
    if r: "r \<in> set (build_regions root table recorded)" for r
  proof -
    from r obtain k r' where kr: "(k, r') \<in> set ?m"
      and eq: "r = (if root_mount_point root table recorded = Some k then r'\<lparr>sr_holds_root := True\<rparr> else r')"
      by (auto simp: build_regions_def)
    show ?thesis using mp [OF kr] by (cases "root_mount_point root table recorded = Some k") (simp_all add: eq)
  qed
  moreover have "sr_mount_point ` set (build_regions root table recorded) = fst ` set ?m"
    using points by (metis set_map)
  moreover have "sorted_wrt (<) (map fst ?m)" using m by (simp add: btree_ok_def)
  ultimately show ?thesis using points by simp
qed

text \<open>
  C39. The regions of a library: one for each recorded mount, for the mount that holds the root
  now, and for every mount below the root, each once, in path order and with its current
  mount; exactly one region holds the root as soon as the record or the mount table covers
  the root, and it is the deepest recorded mount on the way to the root if there is one.
\<close>

theorem build_regions_wf:
  "sorted_wrt (<) (map sr_mount_point (build_regions root table recorded))
   \<and> sr_mount_point ` set (build_regions root table recorded) =
       {path_of_text (mr_mount_point r) | r. r \<in> set recorded}
       \<union> {mount_point e | e. mount_holding table root = Some e}
       \<union> {m. m \<noteq> root \<and> prefix root m \<and> (\<exists>e \<in> set table. mount_point e = m)}
   \<and> (\<forall>r \<in> set (build_regions root table recorded). sr_current r = mount_at table (sr_mount_point r)
        \<and> (sr_holds_root r \<longleftrightarrow> root_mount_point root table recorded = Some (sr_mount_point r)))
   \<and> (list_ex sr_holds_root (build_regions root table recorded) \<longleftrightarrow>
        (\<exists>r \<in> set recorded. prefix (path_of_text (mr_mount_point r)) root) \<or> mount_holding table root \<noteq> None)"
proof -
  note b = build_regions_distinct [of root table recorded] and m = region_map_ok [of root table recorded]
  let ?rmp = "root_mount_point root table recorded"
  have rmp_in: "k \<in> sr_mount_point ` set (build_regions root table recorded)" if "?rmp = Some k" for k
  proof -
    from that consider
        "k \<in> set (map (\<lambda>r. path_of_text (mr_mount_point r)) recorded)"
      | e where "mount_holding table root = Some e" "k = mount_point e"
      unfolding root_mount_point_def or_else_eq_Some by (auto dest!: max_by_key_in)
    then show ?thesis using b m by cases auto
  qed
  have ex: "list_ex sr_holds_root (build_regions root table recorded) \<longleftrightarrow> ?rmp \<noteq> None"
  proof
    assume "list_ex sr_holds_root (build_regions root table recorded)"
    then obtain r where "r \<in> set (build_regions root table recorded)" "sr_holds_root r"
      unfolding list_ex_iff by blast
    with b show "?rmp \<noteq> None" by simp
  next
    assume "?rmp \<noteq> None"
    then obtain k where k: "?rmp = Some k" by blast
    from rmp_in [OF k] obtain r where r: "r \<in> set (build_regions root table recorded)" "sr_mount_point r = k"
      by blast
    with b k have "sr_holds_root r" by simp
    with r show "list_ex sr_holds_root (build_regions root table recorded)"
      unfolding list_ex_iff by blast
  qed
  have none: "?rmp = None \<longleftrightarrow>
      \<not> (\<exists>r \<in> set recorded. prefix (path_of_text (mr_mount_point r)) root) \<and> mount_holding table root = None"
    unfolding root_mount_point_def or_else_eq_None by (auto simp: filter_empty_conv)
  show ?thesis
  proof (intro conjI)
    show "\<forall>r \<in> set (build_regions root table recorded). sr_current r = mount_at table (sr_mount_point r)
        \<and> (sr_holds_root r \<longleftrightarrow> ?rmp = Some (sr_mount_point r))"
      using b by blast
    show "list_ex sr_holds_root (build_regions root table recorded) \<longleftrightarrow>
        (\<exists>r \<in> set recorded. prefix (path_of_text (mr_mount_point r)) root) \<or> mount_holding table root \<noteq> None"
      unfolding ex none by simp
  qed (use b m in simp_all)
qed

subsection \<open>What an assessment decides\<close>

lemma build_regions_root:
  assumes "r \<in> set (build_regions root table recorded)" "sr_holds_root r"
  shows "find sr_holds_root (build_regions root table recorded) = Some r"
proof -
  note b = build_regions_distinct [of root table recorded]
  have "find sr_holds_root (build_regions root table recorded) \<noteq> None"
    using assms by (auto simp: find_None_iff)
  then obtain r' where r': "find sr_holds_root (build_regions root table recorded) = Some r'" by blast
  then have in': "r' \<in> set (build_regions root table recorded)" "sr_holds_root r'"
    by (auto simp: find_Some_iff)
  from assms in' b have "sr_mount_point r' = sr_mount_point r" by simp
  with assms(1) in'(1) b have "r' = r" by (metis distinct_map inj_on_def)
  with r' show ?thesis by simp
qed

definition judged_as ::
  "storage_env \<Rightarrow> path \<Rightarrow> mount_table \<Rightarrow> bool \<Rightarrow> storage_region list \<Rightarrow> storage_region
     \<Rightarrow> storage_region \<times> bool \<Rightarrow> bool" where
  "judged_as E root table has_record regions r j \<longleftrightarrow>
     (case probe_region E root table has_record regions r of
        Inl _ \<Rightarrow> False
      | Inr (v, m) \<Rightarrow> j = (r\<lparr>sr_verdict := v\<rparr>, m))"

lemma judge_region_ok:
  "judge_region E root table has_record regions r = Inr j \<Longrightarrow> judged_as E root table has_record regions r j"
  by (auto simp: judge_region_def judged_as_def result_simps)

lemma judged_regions:
  "try_map (judge_region E root table has_record regions) rs = Inr js \<Longrightarrow>
     list_all2 (judged_as E root table has_record regions) rs js"
  by (rule list_all2_mono [OF try_map_ok_list_all2]) (auto intro: judge_region_ok)

lemma judged_root:
  "list_all2 (judged_as E root table has_record regions) rs js \<Longrightarrow> find sr_holds_root rs = Some r \<Longrightarrow>
     \<exists>v m. probe_region E root table has_record regions r = Inr (v, m)
       \<and> find sr_holds_root (map fst js) = Some (r\<lparr>sr_verdict := v\<rparr>)"
  by (induction rs js rule: list_all2_induct)
    (auto simp: judged_as_def split: sum.splits prod.splits if_splits)

lemma root_after_judging:
  assumes "try_map (judge_region E root table has_record regions) (build_regions root table recorded) = Inr js"
    "r \<in> set (build_regions root table recorded)" "sr_holds_root r"
  obtains v m where "probe_region E root table has_record regions r = Inr (v, m)"
    "find sr_holds_root (map fst js) = Some (r\<lparr>sr_verdict := v\<rparr>)"
  using judged_root [OF judged_regions [OF assms(1)] build_regions_root [OF assms(2,3)]] by blast

lemma decide_abnormal_network:
  assumes "find sr_holds_root regions = Some (r\<lparr>sr_verdict := Abnormal issue\<rparr>)"
    "or_else (sr_recorded r) (sr_current r) = Some e" "is_network e"
  shows "decide root regions missing in_container = Unavailable issue"
  using assms by (simp add: decide_def root_region_def root_is_network_def Let_def)

lemma finalize_needs_available:
  "(\<And>p. assess_library_storage E root \<noteq> Inr (Available p)) \<Longrightarrow>
     finalize_removals E root plan discovered unparsed scope catalog ending existing = []"
  by (cases "assess_library_storage E root")
    (auto simp: finalize_removals_def verify_missing_media_paths_def split: storage_assessment.splits)

text \<open>A probe of the root that the storage does not answer is abnormal.\<close>

lemma run_probe_silent:
  assumes "rp_holds_root p" "probe_directory fs (rp_root_path p) = Inl e" "e \<noteq> IoNotFound"
    "rp_current p \<noteq> None"
  shows "is_abnormal (fst (run_probe io_text fs p))"
  using assms
  by (auto simp: run_probe_def run_probe_directories_def probe_abnormal_def Let_def
      split: option.splits sum.splits bool.splits)

definition root_unreachable :: "storage_env \<Rightarrow> path \<Rightarrow> storage_region \<Rightarrow> bool" where
  "root_unreachable E root r \<longleftrightarrow>
     se_timed_out E (sr_mount_point r)
     \<or> (sr_current r = None \<and> (\<not> se_in_container E \<or> sr_mount_point r = root_dir))
     \<or> (sr_current r \<noteq> None
        \<and> (case probe_directory (se_fs E) root of Inl e \<Rightarrow> e \<noteq> IoNotFound | Inr _ \<Rightarrow> False))"

lemma probe_unreachable:
  assumes "root_unreachable E root r" "sr_holds_root r"
    "probe_region E root table has_record regions r = Inr (v, m)"
  shows "is_abnormal v"
proof -
  from assms(3) obtain known where v: "(if se_timed_out E (sr_mount_point r) then
                 (Abnormal (storage_issue_of ''storage_timeout'' (sr_mount_point r) (sr_recorded r)
                    (sr_current r) (Some (lit ''the storage did not answer within 20 seconds''))), False)
               else
                 run_probe (se_io_text E) (se_fs E)
                   \<lparr>rp_mount_point = sr_mount_point r, rp_recorded = sr_recorded r,
                    rp_current = sr_current r, rp_actual_holder = mount_holding table (sr_mount_point r),
                    rp_holds_root = sr_holds_root r, rp_root_path = root,
                    rp_needs_known_files = needs_known_files has_record r, rp_known_files = known,
                    rp_has_record = has_record, rp_in_container = se_in_container E\<rparr>) = (v, m)"
    by (auto simp: probe_region_def Let_def result_simps)
  show ?thesis
  proof (cases "se_timed_out E (sr_mount_point r)")
    case True
    with v show ?thesis by auto
  next
    case False
    note v = v [unfolded if_not_P [OF False]]
    show ?thesis
    proof (cases "sr_current r")
      case None
      with assms(1) False v show ?thesis
        by (auto simp: root_unreachable_def run_probe_def probe_abnormal_def)
    next
      case (Some c)
      with assms(1) False obtain e where "probe_directory (se_fs E) root = Inl e" "e \<noteq> IoNotFound"
        by (auto simp: root_unreachable_def split: sum.splits)
      with run_probe_silent [of _ "se_fs E" e "se_io_text E"] assms(2) Some v show ?thesis
        by (metis fst_conv option.distinct(1) region_probe.select_convs)
    qed
  qed
qed

lemma network_root_unavailable:
  assumes "se_mount_table E = Inr table" "se_recorded E = Inr recorded"
    "r \<in> set (build_regions (path_of_text root) table recorded)" "sr_holds_root r"
    "or_else (sr_recorded r) (sr_current r) = Some e" "is_network e"
    "root_unreachable E (path_of_text root) r"
  shows "assess_library_storage E root \<noteq> Inr (Available p)"
proof
  assume available: "assess_library_storage E root = Inr (Available p)"
  have "list_ex sr_holds_root (build_regions (path_of_text root) table recorded)"
    using assms(3,4) unfolding list_ex_iff by blast
  with available assms(1,2) obtain js where
    js: "try_map (judge_region E (path_of_text root) table (recorded \<noteq> []) (build_regions (path_of_text root) table recorded))
           (build_regions (path_of_text root) table recorded) = Inr js"
    and d: "decide (path_of_text root) (map fst js) (root_path_missing js) (se_in_container E) = Available p"
    by (auto simp: assess_library_storage_def Let_def result_simps)
  from root_after_judging [OF js assms(3,4)] obtain v m where
    v: "probe_region E (path_of_text root) table (recorded \<noteq> []) (build_regions (path_of_text root) table recorded) r
          = Inr (v, m)" "find sr_holds_root (map fst js) = Some (r\<lparr>sr_verdict := v\<rparr>)"
    by blast
  have "is_abnormal v" by (rule probe_unreachable [OF assms(7,4) v(1)])
  then obtain issue where "v = Abnormal issue" by (cases v) auto
  with decide_abnormal_network [OF _ assms(5,6)] v(2) d show False by (metis storage_assessment.distinct(3))
qed

text \<open>
  C16. A network share that is down never empties a catalog: if the storage that holds the
  root of the library is (by its record, or else by the mount table) a network mount and it
  does not answer in time, has vanished outside a container, or fails a read of the root with
  anything but \<open>NotFound\<close>, the finalization of a scan removes no path, whatever the scan saw.
\<close>

theorem network_outage_keeps_catalog:
  assumes "se_mount_table E = Inr table" "se_recorded E = Inr recorded"
    "r \<in> set (build_regions (path_of_text root) table recorded)" "sr_holds_root r"
    "or_else (sr_recorded r) (sr_current r) = Some e" "is_network e"
    "root_unreachable E (path_of_text root) r"
  shows "finalize_removals E root plan discovered unparsed scope catalog ending existing = []"
  by (rule finalize_needs_available) (rule network_root_unavailable [OF assms])

text \<open>What a look-up may conclude \<open>missing\<close> from.\<close>

definition not_found :: "storage_env \<Rightarrow> storage_plan \<Rightarrow> path \<Rightarrow> path \<Rightarrow> bool" where
  "not_found E current root p =
     (case catalog_path_presence (se_fs E) p
             (case fs_canonicalize (se_fs E) root of Inr r \<Rightarrow> r | Inl _ \<Rightarrow> root) of
        Present \<Rightarrow> False
      | Absent \<Rightarrow> True
      | LookupFailed _ \<Rightarrow>
          is_ok (probe_directory (se_fs E) root)
          \<or> failure_decision current (sp_root_path current) \<noteq> Abort)"

lemma look_up_not_found:
  assumes "look_up_candidates E root current cands = Verified present plan" "p \<in> set cands" "p \<notin> set present"
  shows "not_found E current root (path_of_text p)"
proof -
  define croot where "croot = (case fs_canonicalize (se_fs E) root of Inr r \<Rightarrow> r | Inl _ \<Rightarrow> root)"
  note l = assms(1) [unfolded look_up_candidates_def Let_def croot_def [symmetric]]
  from l have present:
      "present = List.filter (\<lambda>p. catalog_path_presence (se_fs E) (path_of_text p) croot = Present) cands"
    by (auto split: sum.splits if_splits)
  show ?thesis
  proof (cases "catalog_path_presence (se_fs E) (path_of_text p) croot")
    case Present
    with present assms(2,3) show ?thesis by simp
  next
    case Absent
    then show ?thesis by (simp add: not_found_def croot_def)
  next
    case (LookupFailed e)
    with assms(2) have
        "list_ex (\<lambda>p. is_lookup_failure (catalog_path_presence (se_fs E) (path_of_text p) croot)) cands"
      unfolding list_ex_iff by force
    with l LookupFailed show ?thesis
      by (cases "probe_directory (se_fs E) root")
        (auto simp: not_found_def croot_def [symmetric] split: if_splits)
  qed
qed

lemma look_up_same_plan: "look_up_candidates E root current cands = Verified present plan \<Longrightarrow> plan = current"
  unfolding look_up_candidates_def Let_def by (auto split: sum.splits if_splits)

lemma verified_plan:
  assumes "verify_missing_media_paths E root plan observed scope catalog ending = Inr (Verified present current)"
  shows "assess_library_storage E root = Inr (Available current) \<and> same_root_storage_as current plan
    \<and> (\<exists>known. catalog = Inr known)"
proof -
  from assms obtain a where a: "assess_library_storage E root = Inr a"
    by (auto simp: verify_missing_media_paths_def result_simps)
  with assms obtain c where c: "a = Available c" "same_root_storage_as c plan"
    by (cases a) (auto simp: verify_missing_media_paths_def split: if_splits)
  with assms a obtain known where k: "catalog = Inr known"
    by (cases catalog) (auto simp: verify_missing_media_paths_def)
  from assms a c k have "c = current"
    by (auto simp: verify_missing_media_paths_def Let_def dest: look_up_same_plan
        split: if_splits lookup_end.splits)
  with a c k show ?thesis by blast
qed

lemma finalize_removals_mem:
  "p \<in> set (finalize_removals E root plan discovered unparsed scope catalog ending existing) \<longleftrightarrow>
     (\<exists>present current. verify_missing_media_paths E root plan (discovered @ unparsed) scope catalog ending
          = Inr (Verified present current)
        \<and> p \<in> set (missing_in_sync discovered (unparsed @ present) scope existing))"
proof (cases "verify_missing_media_paths E root plan (discovered @ unparsed) scope catalog ending")
  case (Inr v)
  then show ?thesis by (cases v) (auto simp: finalize_removals_def)
qed (simp add: finalize_removals_def)

text \<open>
  C1. What a finalization removes: only paths of the catalog that the scan neither discovered
  nor saw, inside the scope, while the assessment made at the end finds the storage available
  and the root on the same storage as at the beginning. A path the check looked at is gone
  only if its storage region is dead, its name is ignored, or the look-up did not find a
  regular file; a look-up that failed counts as missing only if the root itself still answers,
  or is not on healthy network storage.
\<close>

theorem removal_sound:
  assumes "p \<in> set (finalize_removals E root plan discovered unparsed scope catalog ending existing)"
  shows "p \<in> set existing \<and> p \<notin> set discovered \<and> p \<notin> set unparsed \<and> path_in_scope scope p
    \<and> (\<exists>current known. assess_library_storage E root = Inr (Available current)
         \<and> same_root_storage_as current plan \<and> catalog = Inr known
         \<and> (p \<in> set known \<longrightarrow>
              is_dead_path current (path_of_text p)
              \<or> is_ignored_media_path (path_of_text root) (path_of_text p)
              \<or> not_found E current (path_of_text root) (path_of_text p)))"
proof -
  from assms obtain present current where
    v: "verify_missing_media_paths E root plan (discovered @ unparsed) scope catalog ending
          = Inr (Verified present current)"
    and p: "p \<in> set existing" "p \<notin> set discovered" "p \<notin> set unparsed" "p \<notin> set present" "path_in_scope scope p"
    unfolding finalize_removals_mem by (auto simp: missing_in_sync_def)
  from verified_plan [OF v] obtain known where a: "assess_library_storage E root = Inr (Available current)"
    and same: "same_root_storage_as current plan" and known: "catalog = Inr known" by blast
  define cands where "cands = missing_candidates current root (discovered @ unparsed) scope known"
  have looked: "not_found E current (path_of_text root) (path_of_text p)" if c: "p \<in> set cands"
  proof -
    from c have "cands \<noteq> []" by auto
    with v a same known have "look_up_candidates E (path_of_text root) current cands = Verified present current"
      by (auto simp: verify_missing_media_paths_def cands_def [symmetric] split: lookup_end.splits)
    from look_up_not_found [OF this c p(4)] show ?thesis .
  qed
  moreover have "p \<in> set cands \<or> is_dead_path current (path_of_text p)
      \<or> is_ignored_media_path (path_of_text root) (path_of_text p)" if "p \<in> set known"
    using that p by (auto simp: cands_def missing_candidates_def)
  ultimately show ?thesis using a same known p
    by blast
qed

lemma list_all2_mem1: "list_all2 P xs ys \<Longrightarrow> x \<in> set xs \<Longrightarrow> \<exists>y \<in> set ys. P x y"
  by (induction rule: list_all2_induct) auto

lemma decide_removed:
  assumes "decide root regions missing in_container = RemovedFromDeployment points"
  shows "in_container \<and> points \<noteq> []
    \<and> (\<forall>r \<in> set regions. sr_recorded r \<noteq> None \<longrightarrow> sr_mount_point r \<noteq> root_dir \<longrightarrow> sr_verdict r = Removed)"
  using assms
  by (auto simp: decide_def configured_regions_def Let_def list_all_iff filter_empty_conv
      split: option.splits region_verdict.splits if_splits)
    (metis option.distinct(1))+

lemma run_probe_directories_kept: "fst (run_probe_directories io_text fs p) \<noteq> Removed"
  by (auto simp: run_probe_directories_def probe_abnormal_def Let_def split: sum.splits)

lemma probe_removed:
  assumes "probe_region E root table has_record regions r = Inr (Removed, m)"
  shows "sr_current r = None"
proof (rule ccontr)
  assume "sr_current r \<noteq> None"
  then obtain c where c: "sr_current r = Some c" by blast
  have "fst (run_probe io_text fs p) \<noteq> Removed" if "rp_current p = Some c" for io_text fs p
    using that run_probe_directories_kept
    by (auto simp: run_probe_def probe_abnormal_def split: sum.splits bool.splits)
  from this [of "\<lparr>rp_mount_point = _, rp_recorded = _, rp_current = Some c, rp_actual_holder = _,
        rp_holds_root = _, rp_root_path = _, rp_needs_known_files = _, rp_known_files = _,
        rp_has_record = _, rp_in_container = _\<rparr>"]
  show False using assms c
    by (auto simp: probe_region_def Let_def result_simps split: if_splits) (metis fst_conv)+
qed

lemma insert_region_lookup:
  assumes "btree_ok m"
  shows "map_of (insert_region table m (k, e)) x =
    (if x = k then
       Some (let r = (case map_of m k of
                        Some r \<Rightarrow> r
                      | None \<Rightarrow> \<lparr>sr_mount_point = k, sr_recorded = None, sr_current = mount_at table k,
                                 sr_holds_root = False, sr_verdict = Healthy\<rparr>)
             in if e \<noteq> None then r\<lparr>sr_recorded := e\<rparr> else r)
     else map_of m x)"
  using btree_upsert_lookup [OF assms] by (simp add: insert_region_def)

definition has_recorded :: "(path \<times> storage_region) list \<Rightarrow> path \<Rightarrow> bool" where
  "has_recorded m k = (case map_of m k of None \<Rightarrow> False | Some r \<Rightarrow> sr_recorded r \<noteq> None)"

lemma insert_region_recorded:
  assumes "btree_ok m" "has_recorded m k \<or> (\<exists>e. x = (k, Some e))"
  shows "has_recorded (insert_region table m x) k"
  using assms(2)
  by (cases x) (auto simp: has_recorded_def insert_region_lookup [OF assms(1)] Let_def split: option.splits)

lemma fold_regions_recorded:
  assumes "btree_ok m" "list_all (region_of table) m" "has_recorded m k \<or> (\<exists>e. (k, Some e) \<in> set xs)"
  shows "has_recorded (foldl (insert_region table) m xs) k"
  using assms
proof (induction xs arbitrary: m)
  case (Cons x xs)
  obtain k' e' where x: "x = (k', e')" by (cases x)
  from insert_region_ok [OF Cons.prems(1,2), of k' e'] Cons.IH [of "insert_region table m x"]
    insert_region_recorded [OF Cons.prems(1), of k x table] Cons.prems(3)
  show ?case unfolding x by auto
qed simp

lemma recorded_region:
  assumes "m \<in> set recorded"
  shows "\<exists>r \<in> set (build_regions root table recorded).
    sr_mount_point r = path_of_text (mr_mount_point m) \<and> sr_recorded r \<noteq> None"
proof -
  let ?k = "path_of_text (mr_mount_point m)"
  have "has_recorded (region_map root table recorded) ?k"
    unfolding region_map_def
    by (rule fold_regions_recorded) (use assms in \<open>auto simp: btree_ok_def image_iff\<close>)
  then obtain r where r: "map_of (region_map root table recorded) ?k = Some r" "sr_recorded r \<noteq> None"
    by (auto simp: has_recorded_def split: option.splits)
  let ?r = "if root_mount_point root table recorded = Some ?k then r\<lparr>sr_holds_root := True\<rparr> else r"
  from map_of_SomeD [OF r(1)] have mem: "(?k, r) \<in> set (region_map root table recorded)" .
  then have "?r \<in> set (build_regions root table recorded)"
    unfolding build_regions_def by (force simp del: not_None_eq)
  moreover from mem region_map_ok [of root table recorded] have "sr_mount_point r = ?k"
    by (auto simp: list_all_iff region_of_def)
  then have "sr_mount_point ?r = ?k \<and> sr_recorded ?r \<noteq> None"
    using r(2) by (cases "root_mount_point root table recorded = Some ?k") simp_all
  ultimately show ?thesis by blast
qed

text \<open>
  A library counts as removed from the deployment only in a container, when it has at
  least one recorded mount other than \<open>/\<close> and not a single one of them is mounted any more.
\<close>

theorem removed_from_deployment_sound:
  assumes "assess_library_storage E root = Inr (RemovedFromDeployment points)"
  shows "se_in_container E \<and> points \<noteq> []
    \<and> (\<exists>table recorded. se_mount_table E = Inr table \<and> se_recorded E = Inr recorded
         \<and> (\<forall>m \<in> set recorded. path_of_text (mr_mount_point m) \<noteq> root_dir \<longrightarrow>
              mount_at table (path_of_text (mr_mount_point m)) = None))"
proof -
  from assms obtain table recorded js where env: "se_mount_table E = Inr table" "se_recorded E = Inr recorded"
    and js: "try_map (judge_region E (path_of_text root) table (recorded \<noteq> []) (build_regions (path_of_text root) table recorded))
           (build_regions (path_of_text root) table recorded) = Inr js"
    and d: "decide (path_of_text root) (map fst js) (root_path_missing js) (se_in_container E)
              = RemovedFromDeployment points"
    by (auto simp: assess_library_storage_def Let_def result_simps split: sum.splits if_splits)
  from decide_removed [OF d] have c: "se_in_container E" "points \<noteq> []"
    and gone: "\<And>r. r \<in> set (map fst js) \<Longrightarrow> sr_recorded r \<noteq> None \<Longrightarrow> sr_mount_point r \<noteq> root_dir \<Longrightarrow>
                 sr_verdict r = Removed"
    by blast+
  have "mount_at table (path_of_text (mr_mount_point m)) = None"
    if m: "m \<in> set recorded" "path_of_text (mr_mount_point m) \<noteq> root_dir" for m
  proof -
    from recorded_region [OF m(1)] obtain r where
      r: "r \<in> set (build_regions (path_of_text root) table recorded)"
         "sr_mount_point r = path_of_text (mr_mount_point m)" "sr_recorded r \<noteq> None"
      by blast
    from list_all2_mem1 [OF judged_regions [OF js] r(1)] obtain j where
      j: "j \<in> set js" "judged_as E (path_of_text root) table (recorded \<noteq> [])
            (build_regions (path_of_text root) table recorded) r j"
      by blast
    then obtain v mi where v: "probe_region E (path_of_text root) table (recorded \<noteq> [])
            (build_regions (path_of_text root) table recorded) r = Inr (v, mi)" "fst j = r\<lparr>sr_verdict := v\<rparr>"
      by (auto simp: judged_as_def split: sum.splits prod.splits)
    have "fst j \<in> set (map fst js)" using j(1) by simp
    from gone [OF this] v(2) r m(2) have "v = Removed" by simp
    from probe_removed [OF v(1) [unfolded this]] build_regions_distinct [of "path_of_text root" table recorded] r
    show ?thesis by simp
  qed
  with env c show ?thesis by blast
qed

subsection \<open>A library on one share\<close>

definition demo_storage ::
  "mount_table \<Rightarrow> mount_record list \<Rightarrow> bool \<Rightarrow> io_error + unit \<Rightarrow> storage_env" where
  "demo_storage table recorded container answer =
     \<lparr>se_mount_table = Inr table, se_in_container = container,
      se_fs = \<lparr>fs_canonicalize = (\<lambda>p. if p = [[47], [109]] then Inr p else Inl IoNotFound),
               fs_metadata = (\<lambda>_. Inl IoNotFound), fs_open = (\<lambda>_. Inl IoNotFound),
               fs_read_first = (\<lambda>_. answer)\<rparr>,
      se_io_text = (\<lambda>_. []), se_timed_out = (\<lambda>_. False), se_recorded = Inr recorded,
      se_sample = (\<lambda>_ _. Inr [])\<rparr>"

definition demo_share :: mount_entry where
  "demo_share = \<lparr>mount_point = [[47], [109]], fs_type = lit ''nfs'', mount_source = lit ''s''\<rparr>"

definition demo_root_region :: storage_region where
  "demo_root_region = \<lparr>sr_mount_point = [[47], [109]], sr_recorded = None, sr_current = Some demo_share,
     sr_holds_root = True, sr_verdict = Healthy\<rparr>"

lemma demo_root_path: "path_of_text [47, 109] = [[47], [109]]"
  by (simp add: path_of_text_def normal_components_def str_eval)

lemma demo_regions: "build_regions [[47], [109]] [demo_share] [] = [demo_root_region]"
  by (simp add: build_regions_def region_map_def root_mount_point_def mount_holding_def holding_step_def
      mounts_below_def insert_region_def mount_at_def demo_share_def demo_root_region_def map_filter_simps)

lemma demo_network: "is_network demo_share"
  by (simp add: demo_share_def is_network_def is_network_filesystem_def NETWORK_FILESYSTEM_TYPES_def)

theorem network_outage_keeps_catalog_witness:
  "finalize_removals (demo_storage [demo_share] [] False (Inl IoOther)) [47, 109]
     \<lparr>sp_root_path = [[47], [109]], sp_regions = [demo_root_region], sp_root_missing = False\<rparr>
     [] [] None (Inr [[47, 109, 47, 97]]) LookupDone [[47, 109, 47, 97]] = []"
  by (rule network_outage_keeps_catalog
        [where table = "[demo_share]" and recorded = "[]" and r = demo_root_region and e = demo_share])
    (simp_all add: demo_root_path demo_regions demo_storage_def root_unreachable_def probe_directory_def
      demo_root_region_def demo_network)

theorem build_regions_wf_witness:
  "mount_at [demo_share] [[47], [109]] = Some demo_share
   \<and> root_mount_point [[47], [109]] [demo_share] [] = Some [[47], [109]]"
  using build_regions_wf [of "[[47], [109]]" "[demo_share]" "[]"]
  unfolding demo_regions by (simp add: demo_root_region_def)

definition demo_plan :: storage_plan where
  "demo_plan = \<lparr>sp_root_path = [[47], [109]], sp_regions = [demo_root_region], sp_root_missing = False\<rparr>"

lemma demo_assessment:
  "assess_library_storage (demo_storage [demo_share] [] False (Inr ())) [47, 109] = Inr (Available demo_plan)"
  by (simp add: assess_library_storage_def demo_root_path demo_regions demo_storage_def demo_root_region_def
      judge_region_def probe_region_def needs_known_files_def run_probe_def run_probe_directories_def
      probe_directory_def decide_def root_region_def configured_regions_def root_path_missing_def
      demo_plan_def Let_def)

lemma demo_path: "path_of_text [47, 109, 47, 97] = [[47], [109], [97]]"
  by (simp add: path_of_text_def normal_components_def str_eval)

lemma demo_candidates: "missing_candidates demo_plan [47, 109] [] None [[47, 109, 47, 97]] = [[47, 109, 47, 97]]"
  by (simp add: missing_candidates_def demo_path demo_root_path path_in_scope_def is_dead_path_def
      region_holding_def demo_plan_def demo_root_region_def is_ignored_media_path_def
      is_normal_component_def is_ignored_entry_name_def IGNORED_DIRECTORY_NAMES_def IGNORED_FILE_NAMES_def
      is_ignored_video_file_name_def file_stem_def IGNORED_VIDEO_STEMS_def IGNORED_VIDEO_STEM_SUFFIXES_def
      to_ascii_lowercase_def to_ascii_lower_def is_ascii_upper_def rsplit_once_def str_eval Let_def)

lemma demo_look_up:
  "look_up_candidates (demo_storage [demo_share] [] False (Inr ())) [[47], [109]] demo_plan [[47, 109, 47, 97]]
     = Verified [] demo_plan"
  by (simp add: look_up_candidates_def catalog_path_presence_def demo_path demo_storage_def
      is_absent_entry_error_def Let_def)

lemma demo_removal:
  "finalize_removals (demo_storage [demo_share] [] False (Inr ())) [47, 109] demo_plan [] [] None
     (Inr [[47, 109, 47, 97]]) LookupDone [[47, 109, 47, 97]] = [[47, 109, 47, 97]]"
  by (simp add: finalize_removals_def verify_missing_media_paths_def demo_assessment same_root_storage_as_def
      demo_candidates demo_root_path demo_look_up missing_in_sync_def path_in_scope_def)

theorem removal_sound_witness:
  "\<exists>current known. assess_library_storage (demo_storage [demo_share] [] False (Inr ())) [47, 109]
       = Inr (Available current)
     \<and> same_root_storage_as current demo_plan \<and> (Inr [[47, 109, 47, 97]] :: db_error + ustr list) = Inr known"
proof -
  have "[47, 109, 47, 97] \<in> set (finalize_removals (demo_storage [demo_share] [] False (Inr ())) [47, 109]
      demo_plan [] [] None (Inr [[47, 109, 47, 97]]) LookupDone [[47, 109, 47, 97]])"
    by (simp add: demo_removal)
  from removal_sound [OF this] show ?thesis by blast
qed

definition demo_overlay :: mount_entry where
  "demo_overlay = \<lparr>mount_point = [[47]], fs_type = lit ''ext4'', mount_source = lit ''d''\<rparr>"

definition demo_record :: mount_record where
  "demo_record = \<lparr>mr_mount_point = [47, 109], mr_fs_type = lit ''nfs'', mr_source = lit ''s''\<rparr>"

lemma demo_removed_regions:
  "build_regions [[47], [109]] [demo_overlay] [demo_record] =
     [\<lparr>sr_mount_point = [[47]], sr_recorded = None, sr_current = Some demo_overlay, sr_holds_root = False,
       sr_verdict = Healthy\<rparr>,
      \<lparr>sr_mount_point = [[47], [109]], sr_recorded = Some (entry_of_record demo_record), sr_current = None,
       sr_holds_root = True, sr_verdict = Healthy\<rparr>]"
  by (simp add: build_regions_def region_map_def root_mount_point_def mount_holding_def holding_step_def
      mounts_below_def insert_region_def mount_at_def demo_overlay_def demo_record_def demo_root_path
      map_filter_simps)

theorem removed_from_deployment_sound_witness:
  "mount_at [demo_overlay] [[47], [109]] = None"
proof -
  have "assess_library_storage (demo_storage [demo_overlay] [demo_record] True (Inr ())) [47, 109]
      = Inr (RemovedFromDeployment [[47, 109]])"
    by (simp add: assess_library_storage_def demo_root_path demo_removed_regions demo_storage_def
      judge_region_def probe_region_def needs_known_files_def run_probe_def run_probe_directories_def
      probe_directory_def decide_def root_region_def configured_regions_def root_path_missing_def
      root_dir_def path_text_def Let_def)
  from removed_from_deployment_sound [OF this] show ?thesis
    by (simp add: demo_storage_def demo_record_def demo_root_path root_dir_def)
qed

end
