(* ===== verification/Db_Program.thy ===== *)
theory Db_Program
  imports Mova_Prelude
begin

text \<open>
  Request handlers as programs over a shared store. A handler awaits one statement or
  transaction of the database after the other, and other handlers run between them; each
  awaited call is one atomic \<open>Step\<close>, which also supplies what the handler takes from outside
  at that point: the clock, random bytes, and whether an advisory lock is free. \<open>run\<close> executes a handler alone; \<open>reach\<close>
  interleaves any number of them, started at any time and dropped at any point, as the server
  does when a client disconnects. The locale \<open>evolution\<close> reasons about the interleavings: a
  preorder on stores that every step follows from a store with the invariant is what a handler
  may rely on between its steps.
\<close>

record tick =
  tk_now :: nat
  tk_random :: "nat list"
  tk_lock :: bool

datatype ('s, 'a) prog = Ret 'a | Step "tick \<Rightarrow> 's \<Rightarrow> 's \<times> ('s, 'a) prog"

primrec bind :: "('s, 'a) prog \<Rightarrow> ('a \<Rightarrow> ('s, 'b) prog) \<Rightarrow> ('s, 'b) prog" where
  "bind (Ret x) f = f x"
| "bind (Step g) f = Step (\<lambda>t s. map_prod id (\<lambda>p. bind p f) (g t s))"

text \<open>The \<open>?\<close> of the handlers: an error ends the handler with it.\<close>

definition bind_ok :: "('s, 'e + 'a) prog \<Rightarrow> ('a \<Rightarrow> ('s, 'e + 'b) prog) \<Rightarrow> ('s, 'e + 'b) prog" where
  "bind_ok p f = bind p (\<lambda>r. case r of Inl e \<Rightarrow> Ret (Inl e) | Inr x \<Rightarrow> f x)"

definition stmt :: "(tick \<Rightarrow> 's \<Rightarrow> 's \<times> 'a) \<Rightarrow> ('s, 'a) prog" where
  "stmt f = Step (\<lambda>t s. map_prod id Ret (f t s))"

text \<open>
  A query leaves the store; an update always succeeds; a write may fail and then leaves the
  store as it was.
\<close>

definition query :: "('s \<Rightarrow> 'a) \<Rightarrow> ('s, 'e + 'a) prog" where
  "query f = stmt (\<lambda>t s. (s, Inr (f s)))"

definition exec :: "('s \<Rightarrow> nat \<Rightarrow> 's \<times> 'a) \<Rightarrow> ('s, 'e + 'a) prog" where
  "exec f = stmt (\<lambda>t s. map_prod id Inr (f s (tk_now t)))"

definition try_exec :: "('d \<Rightarrow> 'e) \<Rightarrow> ('s \<Rightarrow> nat \<Rightarrow> 'd + 's \<times> 'a) \<Rightarrow> ('s, 'e + 'a) prog" where
  "try_exec h f =
     stmt (\<lambda>t s. case f s (tk_now t) of Inl d \<Rightarrow> (s, Inl (h d)) | Inr (s', x) \<Rightarrow> (s', Inr x))"

definition clock :: "('s, 'e + nat) prog" where
  "clock = stmt (\<lambda>t s. (s, Inr (tk_now t)))"

definition random_bytes :: "nat \<Rightarrow> ('s, 'e + nat list) prog" where
  "random_bytes n = stmt (\<lambda>t s. (s, Inr (take n (tk_random t))))"

lemma snds_iff [simp]: "x \<in> Basic_BNFs.snds p \<longleftrightarrow> x = snd p"
  by (auto simp: prod_set_defs)

lemma prog_induct [case_names Ret Step, induct type: prog]:
  assumes "\<And>x. P (Ret x)" and "\<And>g. (\<And>t s. P (snd (g t s))) \<Longrightarrow> P (Step g)"
  shows "P p"
proof (induction p rule: prog.induct)
  case (Step g)
  have "P (snd (g t s))" for t s
    by (rule Step.IH [of "g t" "g t s"]) simp_all
  then show ?case by (rule assms)
qed (rule assms)

subsection \<open>Running a handler alone\<close>

text \<open>The ticks that are left, the new store and the result.\<close>

primrec eval :: "('s, 'a) prog \<Rightarrow> (nat \<Rightarrow> tick) \<Rightarrow> 's \<Rightarrow> (nat \<Rightarrow> tick) \<times> 's \<times> 'a" where
  "eval (Ret x) = (\<lambda>ts s. (ts, s, x))"
| "eval (Step g) =
     (\<lambda>ts s. case map_prod id eval (g (ts 0) s) of (s', k) \<Rightarrow> k (\<lambda>i. ts (Suc i)) s')"

definition run :: "('s, 'a) prog \<Rightarrow> (nat \<Rightarrow> tick) \<Rightarrow> 's \<Rightarrow> 's \<times> 'a" where
  "run p ts s = snd (eval p ts s)"

lemma eval_Step: "eval (Step g) ts s = eval (snd (g (ts 0) s)) (\<lambda>i. ts (Suc i)) (fst (g (ts 0) s))"
  by (cases "g (ts 0) s") simp

declare eval.simps(2) [simp del] eval_Step [simp]

lemma eval_bind [simp]:
  "eval (bind p f) ts s = (case eval p ts s of (ts', s', x) \<Rightarrow> eval (f x) ts' s')"
  by (induction p arbitrary: ts s) simp_all

lemma eval_bind_ok [simp]:
  "eval (bind_ok p f) ts s =
     (case eval p ts s of
        (ts', s', Inl e) \<Rightarrow> (ts', s', Inl e) | (ts', s', Inr x) \<Rightarrow> eval (f x) ts' s')"
  by (simp add: bind_ok_def split: prod.splits sum.splits)

lemma eval_stmt [simp]: "eval (stmt f) ts s = (\<lambda>i. ts (Suc i), f (ts 0) s)"
  by (simp add: stmt_def)

lemma eval_calls [simp]:
  "eval (query q) ts s = (\<lambda>i. ts (Suc i), s, Inr (q s))"
  "eval (exec u) ts s = (\<lambda>i. ts (Suc i), map_prod id Inr (u s (tk_now (ts 0))))"
  "eval (try_exec h w) ts s =
     (\<lambda>i. ts (Suc i), case w s (tk_now (ts 0)) of Inl d \<Rightarrow> (s, Inl (h d)) | Inr (s', x) \<Rightarrow> (s', Inr x))"
  "eval clock ts s = (\<lambda>i. ts (Suc i), s, Inr (tk_now (ts 0)))"
  "eval (random_bytes n) ts s = (\<lambda>i. ts (Suc i), s, Inr (take n (tk_random (ts 0))))"
  by (simp_all add: query_def exec_def try_exec_def clock_def random_bytes_def)

subsection \<open>Interleaving\<close>

text \<open>
  The store and the handlers under way: a handler starts, takes its next step, or is dropped.
\<close>

inductive reach :: "(('s, 'a) prog \<Rightarrow> bool) \<Rightarrow> 's \<Rightarrow> 's \<Rightarrow> ('s, 'a) prog list \<Rightarrow> bool"
  for startable s0 where
  init: "reach startable s0 s0 []"
| start: "reach startable s0 s ps \<Longrightarrow> startable p \<Longrightarrow> reach startable s0 s (p # ps)"
| step: "reach startable s0 s (as @ Step g # bs)
    \<Longrightarrow> reach startable s0 (fst (g t s)) (as @ snd (g t s) # bs)"
| stop: "reach startable s0 s (as @ p # bs) \<Longrightarrow> reach startable s0 s (as @ bs)"

text \<open>A handler that runs alone to its end is one of the interleavings.\<close>

lemma reach_run:
  "reach startable s0 s (p # ps) \<Longrightarrow> \<exists>x. reach startable s0 (fst (run p ts s)) (Ret x # ps)"
proof (induction p arbitrary: ts s)
  case (Step g)
  have "reach startable s0 (fst (g (ts 0) s)) (snd (g (ts 0) s) # ps)"
    using reach.step [of startable s0 s "[]" g ps "ts 0"] Step.prems by simp
  from Step.IH [OF this, where ts = "\<lambda>i. ts (Suc i)"] show ?case by (simp add: run_def)
qed (auto simp: run_def)

text \<open>
  \<open>rg R p s Q\<close>: started in \<open>s\<close>, with the store moving along \<open>R\<close> between the steps, every step
  of \<open>p\<close> is along \<open>R\<close>, and \<open>Q\<close> holds of the result and the store after the last one.
\<close>

inductive rg :: "('s \<Rightarrow> 's \<Rightarrow> bool) \<Rightarrow> ('s, 'a) prog \<Rightarrow> 's \<Rightarrow> ('a \<Rightarrow> 's \<Rightarrow> bool) \<Rightarrow> bool"
  for R where
  rg_Ret: "Q x s \<Longrightarrow> rg R (Ret x) s Q"
| rg_Step: "(\<And>t s'. R s s' \<Longrightarrow> R s' (fst (g t s')) \<and> rg R (snd (g t s')) (fst (g t s')) Q)
    \<Longrightarrow> rg R (Step g) s Q"

inductive_simps rg_Ret_simp [simp]: "rg R (Ret x) s Q"
inductive_simps rg_Step_simp: "rg R (Step g) s Q"

lemma rg_weaken: "rg R p s Q \<Longrightarrow> (\<And>x s'. Q x s' \<Longrightarrow> Q' x s') \<Longrightarrow> rg R p s Q'"
  by (induction rule: rg.induct) (auto intro: rg.intros)

lemma rg_stmt:
  assumes "\<And>t s'. R s s' \<Longrightarrow> R s' (fst (f t s')) \<and> Q (snd (f t s')) (fst (f t s'))"
  shows "rg R (stmt f) s Q"
  unfolding stmt_def by (rule rg_Step) (use assms in \<open>simp add: case_prod_beta\<close>)

text \<open>
  \<open>each P p\<close>: every step of \<open>p\<close> satisfies \<open>P\<close>, whatever the store; for the handlers that
  owe nothing to what they read.
\<close>

inductive each :: "('s \<Rightarrow> 's \<Rightarrow> bool) \<Rightarrow> ('s, 'a) prog \<Rightarrow> bool" for P where
  each_Ret: "each P (Ret x)"
| each_Step: "(\<And>t s. P s (fst (g t s)) \<and> each P (snd (g t s))) \<Longrightarrow> each P (Step g)"

lemma each_rg: "each P p \<Longrightarrow> (\<And>s s'. P s s' \<Longrightarrow> R s s') \<Longrightarrow> rg R p s (\<lambda>_ _. True)"
  by (induction arbitrary: s rule: each.induct) (auto intro: rg.intros)

lemma each_mono: "each P p \<Longrightarrow> (\<And>s s'. P s s' \<Longrightarrow> P' s s') \<Longrightarrow> each P' p"
  by (induction rule: each.induct) (auto intro: each.intros)

text \<open>The effect of a handler that runs alone.\<close>

lemma each_eval:
  assumes "\<And>s. P s s" and "\<And>a b c. P a b \<Longrightarrow> P b c \<Longrightarrow> P a c"
  shows "each P p \<Longrightarrow> P s (fst (snd (eval p ts s)))"
proof (induction arbitrary: s ts rule: each.induct)
  case (each_Step g)
  have "P s (fst (g (ts 0) s))" using each_Step.IH by blast
  moreover have "P (fst (g (ts 0) s)) (fst (snd (eval (Step g) ts s)))"
    unfolding eval_Step using each_Step.IH by blast
  ultimately show ?case by (rule assms(2))
qed (simp add: assms(1))

lemma each_bind: "each P p \<Longrightarrow> (\<And>x. each P (f x)) \<Longrightarrow> each P (bind p f)"
proof (induction rule: each.induct)
  case (each_Step g)
  then show ?case by (auto intro!: each.each_Step simp: case_prod_beta)
qed simp

lemma each_bind_ok: "each P p \<Longrightarrow> (\<And>x. each P (f x)) \<Longrightarrow> each P (bind_ok p f)"
  unfolding bind_ok_def by (rule each_bind) (auto intro: each_Ret split: sum.split)

lemma each_stmt: "(\<And>t s. P s (fst (f t s))) \<Longrightarrow> each P (stmt f)"
  unfolding stmt_def by (rule each_Step) (simp add: case_prod_beta each_Ret)

lemma each_exec: "(\<And>s n. P s (fst (u s n))) \<Longrightarrow> each P (exec u)"
  unfolding exec_def by (rule each_stmt) simp

lemma each_try_exec:
  assumes "\<And>s. P s s" and "\<And>s n s' x. w s n = Inr (s', x) \<Longrightarrow> P s s'"
  shows "each P (try_exec h w)"
  unfolding try_exec_def by (rule each_stmt) (auto intro: assms split: sum.split)

lemma each_reads:
  assumes "\<And>s. P s s"
  shows "each P (query q)" "each P clock" "each P (random_bytes n)"
  unfolding query_def clock_def random_bytes_def by (auto intro!: each_stmt assms)

lemmas each_rules = each_Ret each_bind each_bind_ok each_exec each_try_exec each_reads

locale evolution =
  fixes R :: "'s \<Rightarrow> 's \<Rightarrow> bool" and I :: "'s \<Rightarrow> bool"
  assumes evolves_refl: "R s s"
    and evolves_trans: "R s s' \<Longrightarrow> R s' s'' \<Longrightarrow> R s s''"
    and evolves_inv: "I s \<Longrightarrow> R s s' \<Longrightarrow> I s'"
begin

lemma bind_rule:
  assumes "rg R p s Q" and "\<And>x s'. R s s' \<Longrightarrow> Q x s' \<Longrightarrow> rg R (f x) s' Q'"
  shows "rg R (bind p f) s Q'"
  using assms
proof (induction rule: rg.induct)
  case (rg_Step s g Q)
  show ?case unfolding bind.simps
  proof (rule rg.rg_Step)
    fix t s' assume s': "R s s'"
    let ?s = "fst (g t s')"
    have "R s' ?s" using rg_Step.IH s' by blast
    then have "R s ?s" using s' evolves_trans by blast
    then have "rg R (bind (snd (g t s')) f) ?s Q'"
      using rg_Step.IH [OF s'] rg_Step.prems evolves_trans by blast
    then show "R s' (fst (map_prod id (\<lambda>p. bind p f) (g t s')))
        \<and> rg R (snd (map_prod id (\<lambda>p. bind p f) (g t s'))) (fst (map_prod id (\<lambda>p. bind p f) (g t s'))) Q'"
      using \<open>R s' ?s\<close> by (simp add: case_prod_beta)
  qed
qed (simp add: evolves_refl)

lemma bind_ok_rule:
  assumes "rg R p s (\<lambda>r s'. case r of Inl e \<Rightarrow> Q' (Inl e) s' | Inr x \<Rightarrow> Q x s')"
    and "\<And>x s'. R s s' \<Longrightarrow> Q x s' \<Longrightarrow> rg R (f x) s' Q'"
  shows "rg R (bind_ok p f) s Q'"
  unfolding bind_ok_def
  by (rule bind_rule [OF assms(1)]) (auto split: sum.splits intro: assms(2))

lemma read_rule: "(\<And>s'. R s s' \<Longrightarrow> Q (Inr (q s')) s') \<Longrightarrow> rg R (query q) s Q"
  unfolding query_def by (rule rg_stmt) (simp add: evolves_refl)

lemma exec_rule:
  "(\<And>n s'. R s s' \<Longrightarrow> R s' (fst (u s' n)) \<and> Q (Inr (snd (u s' n))) (fst (u s' n)))
    \<Longrightarrow> rg R (exec u) s Q"
  unfolding exec_def by (rule rg_stmt) simp

lemma try_exec_rule:
  assumes "\<And>n s' d. R s s' \<Longrightarrow> w s' n = Inl d \<Longrightarrow> Q (Inl (h d)) s'"
    and "\<And>n s' s'' x. R s s' \<Longrightarrow> w s' n = Inr (s'', x) \<Longrightarrow> R s' s'' \<and> Q (Inr x) s''"
  shows "rg R (try_exec h w) s Q"
  unfolding try_exec_def
  by (rule rg_stmt) (auto intro: assms evolves_refl dest: assms split: sum.split)

lemma clock_rule: "(\<And>n s'. R s s' \<Longrightarrow> Q (Inr n) s') \<Longrightarrow> rg R clock s Q"
  unfolding clock_def by (rule rg_stmt) (simp add: evolves_refl)

lemma random_rule: "(\<And>b s'. R s s' \<Longrightarrow> Q (Inr b) s') \<Longrightarrow> rg R (random_bytes n) s Q"
  unfolding random_bytes_def by (rule rg_stmt) (simp add: evolves_refl)

text \<open>Interleaved handlers that keep to \<open>R\<close> from stores in \<open>I\<close> take the store along \<open>R\<close>.\<close>

lemma move: "rg R p s (\<lambda>_ _. True) \<Longrightarrow> R s s' \<Longrightarrow> rg R p s' (\<lambda>_ _. True)"
  by (cases p) (auto simp: rg_Step_simp intro: evolves_trans)

lemma reach_evolves:
  assumes "\<And>p s. startable p \<Longrightarrow> I s \<Longrightarrow> rg R p s (\<lambda>_ _. True)" and "I s0"
  shows "reach startable s0 s ps \<Longrightarrow> R s0 s \<and> (\<forall>p\<in>set ps. rg R p s (\<lambda>_ _. True))"
proof (induction rule: reach.induct)
  case (step s as g bs t)
  have *: "R s (fst (g t s)) \<and> rg R (snd (g t s)) (fst (g t s)) (\<lambda>_ _. True)"
    using step.IH evolves_refl by (fastforce simp: rg_Step_simp)
  then show ?case using step.IH evolves_trans move by auto blast+
next
  case (start s ps p)
  then show ?case using assms evolves_inv by auto
qed (auto simp: evolves_refl)

end

end
