(* ===== verification/User_Store.thy ===== *)
theory User_Store
  imports Rust_Text "HOL-Library.List_Lexorder"
begin

text \<open>
  Users, roles and visibility (\<open>mova-domain/src/user.rs\<close>, \<open>user_profile.rs\<close>) and the tables that
  hold users, their library grants and their sessions with the statements run on them
  (\<open>mova-db/src/users.rs\<close>, over the schema of \<open>migrations/0001_init.sql\<close>). A statement or
  transaction maps the tables to the new tables and its result, or fails and leaves them as
  they were; \<open>now\<close> is the clock of the database in it.
\<close>

subsection \<open>Users\<close>

datatype user_role = Owner | Admin | Viewer

fun role_str :: "user_role \<Rightarrow> string" where
  "role_str Owner = ''owner''"
| "role_str Admin = ''admin''"
| "role_str Viewer = ''viewer''"

fun is_admin :: "user_role \<Rightarrow> bool" where
  "is_admin Viewer = False"
| "is_admin _ = True"

fun is_owner :: "user_role \<Rightarrow> bool" where
  "is_owner Owner = True"
| "is_owner _ = False"

text \<open>The text of the column back to a role; \<open>None\<close> is the panic.\<close>

definition parse_user_role :: "string \<Rightarrow> user_role option" where
  "parse_user_role s =
     (if s = ''owner'' then Some Owner else if s = ''admin'' then Some Admin
      else if s = ''viewer'' then Some Viewer else None)"

lemma parse_role_str: "parse_user_role (role_str r) = Some r"
  by (cases r) (simp_all add: parse_user_role_def)

record user =
  user_id :: int
  username :: ustr
  nickname :: ustr
  role :: user_role
  is_enabled :: bool
  created_at :: nat
  updated_at :: nat

record user_profile =
  profile_user :: user
  library_ids :: "int list"

datatype library_visibility = AllLibraries | Restricted "int list"

fun restricted_library_ids :: "library_visibility \<Rightarrow> int list option" where
  "restricted_library_ids AllLibraries = None"
| "restricted_library_ids (Restricted ids) = Some ids"

fun allows_library :: "library_visibility \<Rightarrow> int \<Rightarrow> bool" where
  "allows_library AllLibraries l = True"
| "allows_library (Restricted ids) l = (l \<in> set ids)"

definition profile_is_admin :: "user_profile \<Rightarrow> bool" where
  "profile_is_admin p = is_admin (role (profile_user p))"

definition library_visibility :: "user_profile \<Rightarrow> library_visibility" where
  "library_visibility p = (if profile_is_admin p then AllLibraries else Restricted (library_ids p))"

definition can_access_library :: "user_profile \<Rightarrow> int \<Rightarrow> bool" where
  "can_access_library p l = allows_library (library_visibility p) l"

subsection \<open>The tables\<close>

record user_row =
  row_user :: user
  username_normalized :: ustr
  password_hash :: ustr

record web_session =
  ws_token_hash :: ustr
  ws_user_id :: int
  ws_expires_at :: nat
  ws_created_at :: nat
  ws_last_seen_at :: nat

record native_session =
  ns_id :: int
  ns_user_id :: int
  access_token_hash :: ustr
  refresh_token_hash :: ustr
  access_token_expires_at :: nat
  refresh_token_expires_at :: nat
  revoked_at :: "nat option"
  ns_created_at :: nat
  last_used_at :: nat
  user_agent :: "ustr option"
  device_name :: "ustr option"
  client_type :: ustr

record used_token =
  ut_token_hash :: ustr
  ut_session_id :: int
  ut_expires_at :: nat

record user_store =
  st_users :: "user_row list"
  st_next_user :: int
  st_libraries :: "int list"
  st_access :: "(int \<times> int) list"
  st_web :: "web_session list"
  st_native :: "native_session list"
  st_next_native :: int
  st_used :: "used_token list"

text \<open>
  What the callers tell apart of a failed statement: a unique constraint (\<open>23505\<close>), or
  anything else. Statements fail here only for what they do to the tables; a lost connection
  is not modelled.
\<close>

datatype store_error = UniqueViolation | StoreFailure

definition row_id :: "user_row \<Rightarrow> int" where
  "row_id r = user_id (row_user r)"

definition row_role :: "user_row \<Rightarrow> user_role" where
  "row_role r = role (row_user r)"

definition find_user :: "user_store \<Rightarrow> int \<Rightarrow> user_row option" where
  "find_user st i = find (\<lambda>r. row_id r = i) (st_users st)"

definition user_exists :: "user_store \<Rightarrow> int \<Rightarrow> bool" where
  "user_exists st i = (find_user st i \<noteq> None)"

subsection \<open>Reading users\<close>

definition count_admin_users :: "user_store \<Rightarrow> nat" where
  "count_admin_users st = length (List.filter (\<lambda>r. is_admin (row_role r)) (st_users st))"

definition count_enabled_admin_users :: "user_store \<Rightarrow> nat" where
  "count_enabled_admin_users st =
     length (List.filter (\<lambda>r. is_admin (row_role r) \<and> is_enabled (row_user r)) (st_users st))"

definition list_library_ids_for_user :: "user_store \<Rightarrow> int \<Rightarrow> int list" where
  "list_library_ids_for_user st i = sort (map snd (List.filter (\<lambda>(u, l). u = i) (st_access st)))"

definition profile_of_row :: "user_store \<Rightarrow> user_row \<Rightarrow> user_profile" where
  "profile_of_row st r =
     \<lparr>profile_user = row_user r, library_ids = list_library_ids_for_user st (row_id r)\<rparr>"

definition list_users :: "user_store \<Rightarrow> user_profile list" where
  "list_users st =
     map (profile_of_row st) (sort_key (\<lambda>r. created_at (row_user r)) (sort_key row_id (st_users st)))"

definition db_get_user :: "user_store \<Rightarrow> int \<Rightarrow> user_profile option" where
  "db_get_user st i = map_option (profile_of_row st) (find_user st i)"

record authentication_record =
  ar_user :: user
  ar_password_hash :: ustr
  ar_library_ids :: "int list"

definition authentication_of_row :: "user_store \<Rightarrow> user_row \<Rightarrow> authentication_record" where
  "authentication_of_row st r =
     \<lparr>ar_user = row_user r, ar_password_hash = password_hash r,
      ar_library_ids = list_library_ids_for_user st (row_id r)\<rparr>"

definition get_user_by_username :: "user_store \<Rightarrow> ustr \<Rightarrow> authentication_record option" where
  "get_user_by_username st n =
     map_option (authentication_of_row st) (find (\<lambda>r. username_normalized r = n) (st_users st))"

definition get_user_authentication_record :: "user_store \<Rightarrow> int \<Rightarrow> authentication_record option" where
  "get_user_authentication_record st i = map_option (authentication_of_row st) (find_user st i)"

subsection \<open>Writing users\<close>

record create_user_params =
  cu_username :: ustr
  cu_username_normalized :: ustr
  cu_nickname :: ustr
  cu_password_hash :: ustr
  cu_role :: user_role
  cu_is_enabled :: bool
  cu_library_ids :: "int list"

record update_user_params =
  uu_role :: user_role
  uu_is_enabled :: bool
  uu_library_ids :: "int list"

text \<open>
  The constraints of the table: the widths of the columns in characters, and the checks.
  \<open>btrim\<close> strips blanks only; \<open>lower\<close> of the database is a parameter.
\<close>

definition btrim :: "ustr \<Rightarrow> ustr" where
  "btrim t = trim_matches (\<lambda>c. c = 32) t"

definition user_row_ok :: "(ustr \<Rightarrow> ustr) \<Rightarrow> user_row \<Rightarrow> bool" where
  "user_row_ok lower r =
     (length (username (row_user r)) \<le> 254 \<and> length (username_normalized r) \<le> 254
      \<and> length (nickname (row_user r)) \<le> 128 \<and> length (password_hash r) \<le> 255
      \<and> btrim (username (row_user r)) \<noteq> [] \<and> btrim (username_normalized r) \<noteq> []
      \<and> username_normalized r = lower (btrim (username (row_user r))))"

text \<open>The unique user name, and the partial unique index on the role \<open>owner\<close>.\<close>

definition user_row_unique :: "user_row list \<Rightarrow> user_row \<Rightarrow> bool" where
  "user_row_unique rows r =
     (\<not> list_ex (\<lambda>x. username_normalized x = username_normalized r) rows
      \<and> (row_role r = Owner \<longrightarrow> \<not> list_ex (\<lambda>x. row_role x = Owner) rows))"

fun write_user_library_access :: "user_store \<Rightarrow> int \<Rightarrow> int list \<Rightarrow> store_error + user_store" where
  "write_user_library_access st u [] = Inr st"
| "write_user_library_access st u (l # ls) =
     (if (u, l) \<in> set (st_access st) then Inl UniqueViolation
      else if l \<notin> set (st_libraries st) then Inl StoreFailure
      else write_user_library_access (st\<lparr>st_access := st_access st @ [(u, l)]\<rparr>) u ls)"

definition new_user_row :: "user_store \<Rightarrow> create_user_params \<Rightarrow> nat \<Rightarrow> user_row" where
  "new_user_row st p now =
     \<lparr>row_user = \<lparr>user_id = st_next_user st, username = cu_username p, nickname = cu_nickname p,
        role = cu_role p, is_enabled = cu_is_enabled p, created_at = now, updated_at = now\<rparr>,
      username_normalized = cu_username_normalized p, password_hash = cu_password_hash p\<rparr>"

definition db_create_user ::
  "(ustr \<Rightarrow> ustr) \<Rightarrow> user_store \<Rightarrow> create_user_params \<Rightarrow> nat \<Rightarrow> store_error + user_store \<times> user_profile" where
  "db_create_user lower st p now =
     (let r = new_user_row st p now in
      if \<not> user_row_ok lower r then Inl StoreFailure
      else if \<not> user_row_unique (st_users st) r then Inl UniqueViolation
      else
        map_ok (\<lambda>st'. (st', \<lparr>profile_user = row_user r, library_ids = cu_library_ids p\<rparr>))
          (write_user_library_access
             (st\<lparr>st_users := st_users st @ [r], st_next_user := st_next_user st + 1\<rparr>)
             (row_id r) (cu_library_ids p)))"

definition set_row :: "user_store \<Rightarrow> int \<Rightarrow> (user_row \<Rightarrow> user_row) \<Rightarrow> user_store" where
  "set_row st i f = st\<lparr>st_users := map (\<lambda>r. if row_id r = i then f r else r) (st_users st)\<rparr>"

definition revoke_where :: "user_store \<Rightarrow> nat \<Rightarrow> (native_session \<Rightarrow> bool) \<Rightarrow> user_store" where
  "revoke_where st now P =
     st\<lparr>st_native := map (\<lambda>n. if P n
            then n\<lparr>revoked_at := Some (case revoked_at n of None \<Rightarrow> now | Some t \<Rightarrow> t)\<rparr> else n)
          (st_native st)\<rparr>"

definition delete_web_where :: "user_store \<Rightarrow> (web_session \<Rightarrow> bool) \<Rightarrow> user_store" where
  "delete_web_where st P = st\<lparr>st_web := List.filter (\<lambda>w. \<not> P w) (st_web st)\<rparr>"

definition revoke_native_client_sessions_for_user :: "user_store \<Rightarrow> int \<Rightarrow> nat \<Rightarrow> user_store" where
  "revoke_native_client_sessions_for_user st i now = revoke_where st now (\<lambda>n. ns_user_id n = i)"

definition revoke_all_sessions :: "user_store \<Rightarrow> int \<Rightarrow> nat \<Rightarrow> user_store" where
  "revoke_all_sessions st i now =
     revoke_native_client_sessions_for_user (delete_web_where st (\<lambda>w. ws_user_id w = i)) i now"

definition update_row :: "update_user_params \<Rightarrow> nat \<Rightarrow> user_row \<Rightarrow> user_row" where
  "update_row p now r =
     r\<lparr>row_user := (row_user r)\<lparr>role := uu_role p, is_enabled := uu_is_enabled p, updated_at := now\<rparr>\<rparr>"

definition db_update_user ::
  "user_store \<Rightarrow> int \<Rightarrow> update_user_params \<Rightarrow> nat \<Rightarrow> store_error + user_store \<times> user_profile" where
  "db_update_user st i p now =
     (case find_user st i of
        None \<Rightarrow> Inl StoreFailure
      | Some r \<Rightarrow>
          if uu_role p = Owner \<and> list_ex (\<lambda>x. row_id x \<noteq> i \<and> row_role x = Owner) (st_users st)
          then Inl UniqueViolation
          else
            map_ok (\<lambda>st'. (if uu_is_enabled p then st' else revoke_all_sessions st' i now,
                \<lparr>profile_user = row_user (update_row p now r), library_ids = uu_library_ids p\<rparr>))
              (write_user_library_access
                 ((set_row st i (update_row p now))
                    \<lparr>st_access := List.filter (\<lambda>(u, l). u \<noteq> i) (st_access st)\<rparr>)
                 i (uu_library_ids p)))"

definition update_user_nickname ::
  "user_store \<Rightarrow> int \<Rightarrow> ustr \<Rightarrow> nat \<Rightarrow> store_error + user_store \<times> user_profile" where
  "update_user_nickname st i n now =
     (case find_user st i of
        None \<Rightarrow> Inl StoreFailure
      | Some r \<Rightarrow>
          if 128 < length n then Inl StoreFailure
          else
            (let f = (\<lambda>r. r\<lparr>row_user := (row_user r)\<lparr>nickname := n, updated_at := now\<rparr>\<rparr>);
                 st' = set_row st i f
             in Inr (st', profile_of_row st' (f r))))"

text \<open>
  The foreign keys \<open>on delete cascade\<close>: grants, sessions and used tokens go with the user.
\<close>

definition db_delete_user :: "user_store \<Rightarrow> int \<Rightarrow> user_store \<times> bool" where
  "db_delete_user st i =
     (let gone = map ns_id (List.filter (\<lambda>n. ns_user_id n = i) (st_native st)) in
      (st\<lparr>st_users := List.filter (\<lambda>r. row_id r \<noteq> i) (st_users st),
          st_access := List.filter (\<lambda>(u, l). u \<noteq> i) (st_access st),
          st_web := List.filter (\<lambda>w. ws_user_id w \<noteq> i) (st_web st),
          st_native := List.filter (\<lambda>n. ns_user_id n \<noteq> i) (st_native st),
          st_used := List.filter (\<lambda>t. ut_session_id t \<notin> set gone) (st_used st)\<rparr>,
       user_exists st i))"

subsection \<open>Web sessions\<close>

text \<open>The format check on token hashes: 64 lower-case hexadecimal digits.\<close>

definition token_hash_ok :: "ustr \<Rightarrow> bool" where
  "token_hash_ok h = (length h = 64 \<and> list_all (\<lambda>c. 48 \<le> c \<and> c \<le> 57 \<or> 97 \<le> c \<and> c \<le> 102) h)"

record create_session_params =
  cs_token_hash :: ustr
  cs_user_id :: int
  cs_expires_at :: nat

definition create_session :: "user_store \<Rightarrow> create_session_params \<Rightarrow> nat \<Rightarrow> store_error + user_store" where
  "create_session st p now =
     (if \<not> (token_hash_ok (cs_token_hash p) \<and> now < cs_expires_at p) then Inl StoreFailure
      else if list_ex (\<lambda>w. ws_token_hash w = cs_token_hash p) (st_web st) then Inl UniqueViolation
      else if \<not> user_exists st (cs_user_id p) then Inl StoreFailure
      else Inr (st\<lparr>st_web := st_web st @ [\<lparr>ws_token_hash = cs_token_hash p, ws_user_id = cs_user_id p,
                  ws_expires_at = cs_expires_at p, ws_created_at = now, ws_last_seen_at = now\<rparr>]\<rparr>))"

definition update_user_password_and_revoke_sessions ::
  "user_store \<Rightarrow> int \<Rightarrow> ustr \<Rightarrow> create_session_params option \<Rightarrow> nat \<Rightarrow> store_error + user_store" where
  "update_user_password_and_revoke_sessions st i h replacement now =
     (if (case replacement of None \<Rightarrow> False | Some p \<Rightarrow> cs_user_id p \<noteq> i) then Inl StoreFailure
      else if \<not> user_exists st i \<or> 255 < length h then Inl StoreFailure
      else
        (let st' = revoke_all_sessions
               (set_row st i (\<lambda>r. r\<lparr>password_hash := h, row_user := (row_user r)\<lparr>updated_at := now\<rparr>\<rparr>)) i now
         in case replacement of None \<Rightarrow> Inr st' | Some p \<Rightarrow> create_session st' p now))"

text \<open>Five minutes, in nanoseconds.\<close>

definition touch_interval :: nat where
  "touch_interval = 5 * 60 * 10 ^ 9"

definition get_user_by_session_token_hash ::
  "user_store \<Rightarrow> ustr \<Rightarrow> nat \<Rightarrow> user_store \<times> (user_profile \<times> nat) option" where
  "get_user_by_session_token_hash st h now =
     (case find (\<lambda>w. ws_token_hash w = h \<and> now < ws_expires_at w \<and> user_exists st (ws_user_id w)) (st_web st) of
        None \<Rightarrow> (st, None)
      | Some w \<Rightarrow>
          (st\<lparr>st_web := map (\<lambda>x. if ws_token_hash x = h \<and> ws_last_seen_at x + touch_interval \<le> now
                 then x\<lparr>ws_last_seen_at := now\<rparr> else x) (st_web st)\<rparr>,
           map_option (\<lambda>r. (profile_of_row st r, ws_expires_at w)) (find_user st (ws_user_id w))))"

definition delete_session_by_token_hash :: "user_store \<Rightarrow> ustr \<Rightarrow> user_store" where
  "delete_session_by_token_hash st h = delete_web_where st (\<lambda>w. ws_token_hash w = h)"

subsection \<open>Native client sessions\<close>

record create_native_params =
  cn_user_id :: int
  cn_access_token_hash :: ustr
  cn_refresh_token_hash :: ustr
  cn_access_token_expires_at :: nat
  cn_refresh_token_expires_at :: nat
  cn_user_agent :: "ustr option"
  cn_device_name :: "ustr option"
  cn_client_type :: ustr

definition native_row_ok :: "native_session \<Rightarrow> bool" where
  "native_row_ok n =
     (token_hash_ok (access_token_hash n) \<and> token_hash_ok (refresh_token_hash n)
      \<and> ns_created_at n < access_token_expires_at n
      \<and> access_token_expires_at n \<le> refresh_token_expires_at n
      \<and> (case device_name n of None \<Rightarrow> True | Some d \<Rightarrow> length d \<le> 128)
      \<and> length (client_type n) \<le> 32 \<and> btrim (client_type n) \<noteq> [])"

definition native_row_unique :: "native_session list \<Rightarrow> native_session \<Rightarrow> bool" where
  "native_row_unique rows n =
     (\<not> list_ex (\<lambda>x. access_token_hash x = access_token_hash n
              \<or> refresh_token_hash x = refresh_token_hash n) rows)"

definition create_native_client_session ::
  "user_store \<Rightarrow> create_native_params \<Rightarrow> nat \<Rightarrow> store_error + user_store" where
  "create_native_client_session st p now =
     (let n = \<lparr>ns_id = st_next_native st, ns_user_id = cn_user_id p,
               access_token_hash = cn_access_token_hash p, refresh_token_hash = cn_refresh_token_hash p,
               access_token_expires_at = cn_access_token_expires_at p,
               refresh_token_expires_at = cn_refresh_token_expires_at p,
               revoked_at = None, ns_created_at = now, last_used_at = now,
               user_agent = cn_user_agent p, device_name = cn_device_name p,
               client_type = cn_client_type p\<rparr>
      in if \<not> native_row_ok n then Inl StoreFailure
         else if \<not> native_row_unique (st_native st) n then Inl UniqueViolation
         else if \<not> user_exists st (cn_user_id p) then Inl StoreFailure
         else Inr (st\<lparr>st_native := st_native st @ [n], st_next_native := st_next_native st + 1\<rparr>))"

record native_session_user =
  nu_session_id :: int
  nu_user :: user_profile
  nu_access_token_expires_at :: nat
  nu_refresh_token_expires_at :: nat
  nu_revoked_at :: "nat option"

text \<open>The join of sessions and users under a predicate on the session.\<close>

definition native_session_user_select ::
  "user_store \<Rightarrow> (native_session \<Rightarrow> bool) \<Rightarrow> native_session_user option" where
  "native_session_user_select st P =
     (case find (\<lambda>n. P n \<and> user_exists st (ns_user_id n)) (st_native st) of
        None \<Rightarrow> None
      | Some n \<Rightarrow>
          map_option (\<lambda>r. \<lparr>nu_session_id = ns_id n, nu_user = profile_of_row st r,
              nu_access_token_expires_at = access_token_expires_at n,
              nu_refresh_token_expires_at = refresh_token_expires_at n,
              nu_revoked_at = revoked_at n\<rparr>)
            (find_user st (ns_user_id n)))"

definition get_user_by_native_access_token_hash :: "user_store \<Rightarrow> ustr \<Rightarrow> native_session_user option" where
  "get_user_by_native_access_token_hash st h = native_session_user_select st (\<lambda>n. access_token_hash n = h)"

definition get_native_client_session_by_refresh_token_hash ::
  "user_store \<Rightarrow> ustr \<Rightarrow> native_session_user option" where
  "get_native_client_session_by_refresh_token_hash st h =
     native_session_user_select st (\<lambda>n. refresh_token_hash n = h)"

definition get_used_native_refresh_token :: "user_store \<Rightarrow> ustr \<Rightarrow> used_token option" where
  "get_used_native_refresh_token st h = find (\<lambda>t. ut_token_hash t = h) (st_used st)"

definition touch_native_client_session :: "user_store \<Rightarrow> int \<Rightarrow> nat \<Rightarrow> user_store" where
  "touch_native_client_session st i now =
     st\<lparr>st_native := map (\<lambda>n. if ns_id n = i \<and> last_used_at n + touch_interval \<le> now
            then n\<lparr>last_used_at := now\<rparr> else n) (st_native st)\<rparr>"

definition revoke_native_client_session :: "user_store \<Rightarrow> int \<Rightarrow> nat \<Rightarrow> user_store" where
  "revoke_native_client_session st i now = revoke_where st now (\<lambda>n. ns_id n = i)"

definition revoke_native_client_session_by_refresh_token_hash :: "user_store \<Rightarrow> ustr \<Rightarrow> nat \<Rightarrow> user_store" where
  "revoke_native_client_session_by_refresh_token_hash st h now =
     revoke_where st now (\<lambda>n. refresh_token_hash n = h)"

datatype rotation_outcome = Rotated | Replayed | Expired | Missing

record rotate_params =
  rt_session_id :: int
  rt_old_refresh_token_hash :: ustr
  rt_old_refresh_token_expires_at :: nat
  rt_new_access_token_hash :: ustr
  rt_new_refresh_token_hash :: ustr
  rt_access_token_expires_at :: nat
  rt_refresh_token_expires_at :: nat

definition rotatable :: "rotate_params \<Rightarrow> nat \<Rightarrow> native_session \<Rightarrow> bool" where
  "rotatable p now n =
     (ns_id n = rt_session_id p \<and> refresh_token_hash n = rt_old_refresh_token_hash p
      \<and> revoked_at n = None \<and> now < refresh_token_expires_at n)"

definition rotated_row :: "rotate_params \<Rightarrow> nat \<Rightarrow> native_session \<Rightarrow> native_session" where
  "rotated_row p now n =
     n\<lparr>access_token_hash := rt_new_access_token_hash p,
       refresh_token_hash := rt_new_refresh_token_hash p,
       access_token_expires_at := rt_access_token_expires_at p,
       refresh_token_expires_at := rt_refresh_token_expires_at p,
       last_used_at := now\<rparr>"

text \<open>
  The transaction: the guarded update; where it hits no row the session is read again, and
  a session that is there with another token, or revoked, is revoked as replayed.
\<close>

definition rotate_native_client_session_tokens ::
  "user_store \<Rightarrow> rotate_params \<Rightarrow> nat \<Rightarrow> store_error + user_store \<times> rotation_outcome" where
  "rotate_native_client_session_tokens st p now =
     (case find (rotatable p now) (st_native st) of
        Some n \<Rightarrow>
          (let n' = rotated_row p now n in
           if \<not> native_row_ok n' then Inl StoreFailure
           else if \<not> native_row_unique (List.filter (\<lambda>x. ns_id x \<noteq> ns_id n) (st_native st)) n'
           then Inl UniqueViolation
           else
             Inr (st\<lparr>st_native := map (\<lambda>x. if rotatable p now x then rotated_row p now x else x) (st_native st),
                   st_used := (if now < rt_old_refresh_token_expires_at p
                       \<and> \<not> list_ex (\<lambda>t. ut_token_hash t = rt_old_refresh_token_hash p) (st_used st)
                     then st_used st @ [\<lparr>ut_token_hash = rt_old_refresh_token_hash p,
                            ut_session_id = rt_session_id p,
                            ut_expires_at = rt_old_refresh_token_expires_at p\<rparr>]
                     else st_used st)\<rparr>, Rotated))
      | None \<Rightarrow>
          (case find (\<lambda>n. ns_id n = rt_session_id p) (st_native st) of
             None \<Rightarrow> Inr (st, Missing)
           | Some n \<Rightarrow>
               if refresh_token_hash n = rt_old_refresh_token_hash p
                 \<and> refresh_token_expires_at n \<le> now \<and> revoked_at n = None
               then Inr (st, Expired)
               else Inr (revoke_native_client_session st (rt_session_id p) now, Replayed)))"

subsection \<open>Cleanup\<close>

text \<open>
  At most \<open>batch_size\<close> rows of a kind go, the oldest first; the order among the rest is kept.
  \<open>None\<close> is the error of the argument checks; a lock that is held elsewhere skips the work.
\<close>

record cleanup_outcome =
  co_lock_acquired :: bool
  co_user_sessions :: nat
  co_native_sessions :: nat
  co_used_tokens :: nat

definition reached_batch_limit :: "cleanup_outcome \<Rightarrow> int \<Rightarrow> bool" where
  "reached_batch_limit c batch_size =
     (0 < batch_size
      \<and> (batch_size \<le> int (co_user_sessions c) \<or> batch_size \<le> int (co_native_sessions c)
         \<or> batch_size \<le> int (co_used_tokens c)))"

definition oldest :: "nat \<Rightarrow> ('a \<Rightarrow> nat) \<Rightarrow> ('a \<Rightarrow> 'k::linorder) \<Rightarrow> ('a \<Rightarrow> bool) \<Rightarrow> 'a list \<Rightarrow> 'a list" where
  "oldest limit at tie P xs = take limit (sort_key at (sort_key tie (List.filter P xs)))"

definition retired :: "nat \<Rightarrow> nat \<Rightarrow> native_session \<Rightarrow> bool" where
  "retired now retention n =
     (refresh_token_expires_at n \<le> now
      \<or> (case revoked_at n of None \<Rightarrow> False | Some t \<Rightarrow> t + retention \<le> now))"

definition retired_at :: "native_session \<Rightarrow> nat" where
  "retired_at n = (case revoked_at n of Some t \<Rightarrow> t | None \<Rightarrow> refresh_token_expires_at n)"

definition cleanup_auth_sessions ::
  "user_store \<Rightarrow> int \<Rightarrow> int \<Rightarrow> bool \<Rightarrow> nat \<Rightarrow> (user_store \<times> cleanup_outcome) option" where
  "cleanup_auth_sessions st batch_size retention_seconds lock now =
     (if batch_size \<le> 0 \<or> retention_seconds < 0 then None
      else if \<not> lock then
        Some (st, \<lparr>co_lock_acquired = False, co_user_sessions = 0, co_native_sessions = 0, co_used_tokens = 0\<rparr>)
      else
        (let limit = nat batch_size;
             retention = nat retention_seconds * 10 ^ 9;
             web = oldest limit ws_expires_at ws_token_hash (\<lambda>w. ws_expires_at w \<le> now) (st_web st);
             native = oldest limit retired_at ns_id (retired now retention) (st_native st);
             used = List.filter (\<lambda>t. ut_session_id t \<notin> set (map ns_id native)) (st_used st);
             old = oldest limit ut_expires_at ut_token_hash (\<lambda>t. ut_expires_at t \<le> now) used
         in Some
           (st\<lparr>st_web := List.filter (\<lambda>w. ws_token_hash w \<notin> set (map ws_token_hash web)) (st_web st),
               st_native := List.filter (\<lambda>n. ns_id n \<notin> set (map ns_id native)) (st_native st),
               st_used := List.filter (\<lambda>t. ut_token_hash t \<notin> set (map ut_token_hash old)) used\<rparr>,
            \<lparr>co_lock_acquired = True, co_user_sessions = length web, co_native_sessions = length native,
             co_used_tokens = length old\<rparr>)))"

end
