(* ===== verification/User_Management.thy ===== *)
theory User_Management
  imports Db_Program User_Store Api_Errors
begin

text \<open>
  Accounts and their management (\<open>mova-application/src/users.rs\<close>): the checks on what a request
  brings, the ranks of the roles, and the operations as programs over the tables of
  \<open>User_Store\<close>. Argon2, SHA-256, UUIDs and the lower case of Unicode are parameters
  (\<open>auth_env\<close>). Under every interleaving there is one owner, who stays enabled, from the
  bootstrap on; and nobody changes an account that is not of a lower rank.
\<close>

type_synonym 'a action = "(user_store, application_error + 'a) prog"

record auth_env =
  lowercase :: "ustr \<Rightarrow> ustr"
  db_lower :: "ustr \<Rightarrow> ustr"
  argon2_hash :: "nat list \<Rightarrow> nat list \<Rightarrow> ustr option"
  argon2_verify :: "ustr \<Rightarrow> nat list \<Rightarrow> bool option"
  sha256 :: "nat list \<Rightarrow> nat list"
  uuid_text :: "nat list \<Rightarrow> ustr"

definition MIN_PASSWORD_LENGTH :: nat where "MIN_PASSWORD_LENGTH = 8"
definition MAX_USERNAME_LENGTH :: nat where "MAX_USERNAME_LENGTH = 254"
definition MAX_NICKNAME_LENGTH :: nat where "MAX_NICKNAME_LENGTH = 128"

subsection \<open>Errors\<close>

text \<open>The cause of an internal error only goes to the log.\<close>

definition unexpected :: application_error where
  "unexpected = AppUnexpected []"

fun map_user_write_error :: "store_error \<Rightarrow> application_error" where
  "map_user_write_error UniqueViolation =
     business Conflict ''account_already_exists'' [] (lit ''username already exists'')"
| "map_user_write_error StoreFailure = unexpected"

definition int_text :: "int \<Rightarrow> ustr" where
  "int_text i = (if i < 0 then 45 # nat_text (nat (- i)) else nat_text (nat i))"

definition user_not_found :: "int \<Rightarrow> application_error" where
  "user_not_found i =
     business NotFound ''user_not_found'' [(''user_id'', JNumber i)] (lit ''user not found: '' @ int_text i)"

subsection \<open>Checks on requests\<close>

definition normalize_username :: "ustr \<Rightarrow> application_error + ustr" where
  "normalize_username value =
     (let v = trim value in
      if v = [] then
        Inl (business Validation ''field_required'' [(''field'', JString (lit ''account''))]
               (lit ''username cannot be empty''))
      else if MAX_USERNAME_LENGTH < length v then
        Inl (business Validation ''field_too_long''
               [(''field'', JString (lit ''account'')), (''max'', JNumber (int MAX_USERNAME_LENGTH))]
               (lit ''username must be at most '' @ nat_text MAX_USERNAME_LENGTH @ lit '' characters long''))
      else Inr v)"

definition normalize_username_key :: "auth_env \<Rightarrow> ustr \<Rightarrow> ustr" where
  "normalize_username_key E value = lowercase E (trim value)"

definition normalize_nickname :: "ustr option \<Rightarrow> ustr \<Rightarrow> application_error + ustr" where
  "normalize_nickname value fallback =
     (let n = (case opt_filter (\<lambda>v. v \<noteq> []) (map_option trim value) of None \<Rightarrow> fallback | Some v \<Rightarrow> v) in
      if MAX_NICKNAME_LENGTH < length n then
        Inl (business Validation ''field_too_long''
               [(''field'', JString (lit ''nickname'')), (''max'', JNumber (int MAX_NICKNAME_LENGTH))]
               (lit ''nickname must be at most '' @ nat_text MAX_NICKNAME_LENGTH @ lit '' characters long''))
      else Inr n)"

definition validate_password :: "string \<Rightarrow> ustr \<Rightarrow> application_error + unit" where
  "validate_password field_name value =
     (if byte_len value < MIN_PASSWORD_LENGTH then
        Inl (business Validation ''field_too_short''
               [(''field'', JString (lit field_name)), (''min'', JNumber (int MIN_PASSWORD_LENGTH))]
               (lit field_name @ lit '' must be at least '' @ nat_text MIN_PASSWORD_LENGTH
                @ lit '' characters long''))
      else Inr ())"

definition normalize_user_role :: "ustr \<Rightarrow> application_error + user_role" where
  "normalize_user_role value =
     (let v = to_ascii_lowercase (trim value) in
      if v = lit ''admin'' then Inr Admin
      else if v = lit ''viewer'' then Inr Viewer
      else Inl (business Validation ''invalid_role''
                  [(''allowed'', JStrings [lit ''admin'', lit ''viewer''])]
                  (lit ''user role must be `admin` or `viewer`'')))"

definition normalize_library_ids :: "int list \<Rightarrow> int list" where
  "normalize_library_ids ids = remdups_adj (sort (List.filter (\<lambda>l. 0 < l) ids))"

subsection \<open>Ranks\<close>

definition user_management_level :: "user_profile \<Rightarrow> nat" where
  "user_management_level p =
     (case role (profile_user p) of Owner \<Rightarrow> 2 | Admin \<Rightarrow> 1 | Viewer \<Rightarrow> 0)"

definition validate_user_management_scope :: "user_profile \<Rightarrow> user_profile \<Rightarrow> application_error + unit" where
  "validate_user_management_scope actor target =
     (if user_id (profile_user actor) = user_id (profile_user target) then
        Inl (business Conflict ''self_management_not_allowed'' [(''operation'', JString (lit ''manage_user''))]
               (lit ''current user cannot manage themselves through user management''))
      else if user_management_level actor \<le> user_management_level target then
        Inl (business Forbidden ''insufficient_privilege''
               [(''actor_role'', JString (lit (role_str (role (profile_user actor))))),
                (''target_role'', JString (lit (role_str (role (profile_user target)))))]
               (lit ''users can only manage accounts with a lower privilege level''))
      else Inr ())"

definition validate_role_assignment :: "user_profile \<Rightarrow> user_role \<Rightarrow> application_error + unit" where
  "validate_role_assignment actor next =
     (if \<not> is_admin (role (profile_user actor)) then
        Inl (business Forbidden ''admin_required'' [] (lit ''administrator permission required''))
      else if is_owner next then
        Inl (business Forbidden ''owner_role_not_assignable'' []
               (lit ''the system owner role cannot be assigned through user management''))
      else if is_admin next \<and> \<not> is_owner (role (profile_user actor)) then
        Inl (business Forbidden ''owner_required'' [(''operation'', JString (lit ''assign_admin''))]
               (lit ''only the system owner can assign administrator role''))
      else Inr ())"

definition enabled_admin_is_removed :: "user_role \<Rightarrow> bool \<Rightarrow> user_role \<Rightarrow> bool \<Rightarrow> bool" where
  "enabled_admin_is_removed existing enabled next next_enabled =
     (is_admin existing \<and> enabled \<and> (\<not> is_admin next \<or> \<not> next_enabled))"

subsection \<open>Reading accounts\<close>

definition get_user :: "int \<Rightarrow> user_profile action" where
  "get_user i = bind_ok (query (\<lambda>st. db_get_user st i)) (\<lambda>u. Ret (ok_or (user_not_found i) u))"

definition list_all_users :: "user_profile list action" where
  "list_all_users = query list_users"

definition bootstrap_required :: "bool action" where
  "bootstrap_required = bind_ok (query count_admin_users) (\<lambda>n. Ret (Inr (n = 0)))"

text \<open>\<open>get_library\<close> of \<open>libraries.rs\<close>, of which only the existence matters here.\<close>

definition require_library :: "int \<Rightarrow> unit action" where
  "require_library l =
     bind_ok (query (\<lambda>st. l \<in> set (st_libraries st)))
       (\<lambda>b. Ret (ensure (AppNotFound (lit ''library not found: '' @ int_text l)) b))"

fun require_libraries :: "int list \<Rightarrow> unit action" where
  "require_libraries [] = Ret (Inr ())"
| "require_libraries (l # ls) = bind_ok (require_library l) (\<lambda>u. require_libraries ls)"

definition validate_library_access :: "user_role \<Rightarrow> int list \<Rightarrow> unit action" where
  "validate_library_access r ids = (if is_admin r then Ret (Inr ()) else require_libraries ids)"

definition validate_admin_retention :: "user_profile \<Rightarrow> user_role \<Rightarrow> bool \<Rightarrow> unit action" where
  "validate_admin_retention existing next next_enabled =
     (if \<not> enabled_admin_is_removed (role (profile_user existing)) (is_enabled (profile_user existing))
            next next_enabled
      then Ret (Inr ())
      else bind_ok (query count_enabled_admin_users)
        (\<lambda>n. if n \<le> 1 then
               Ret (Inl (business Conflict ''last_admin_required'' []
                           (lit ''cannot remove or disable the last enabled admin'')))
             else Ret (Inr ())))"

subsection \<open>Passwords and tokens\<close>

text \<open>A salt of sixteen random bytes; \<open>None\<close> of the parameters is their error.\<close>

definition hash_password :: "auth_env \<Rightarrow> ustr \<Rightarrow> ustr action" where
  "hash_password E password =
     bind_ok (random_bytes 16) (\<lambda>salt. Ret (ok_or unexpected (argon2_hash E (utf8_bytes password) salt)))"

definition verify_password :: "auth_env \<Rightarrow> ustr \<Rightarrow> ustr \<Rightarrow> application_error + bool" where
  "verify_password E h password = ok_or unexpected (argon2_verify E h (utf8_bytes password))"

definition hex_digit :: "nat \<Rightarrow> nat" where
  "hex_digit d = (if d < 10 then 48 + d else 87 + d)"

definition hex_encode :: "nat list \<Rightarrow> ustr" where
  "hex_encode bytes = concat (map (\<lambda>b. [hex_digit (b div 16), hex_digit (b mod 16)]) bytes)"

definition hash_token :: "auth_env \<Rightarrow> ustr \<Rightarrow> ustr" where
  "hash_token E token = hex_encode (sha256 E (utf8_bytes token))"

subsection \<open>Web sessions\<close>

record auth_session =
  as_user :: user_profile
  as_token :: ustr
  as_expires_at :: nat

definition create_session_for_user :: "auth_env \<Rightarrow> user_profile \<Rightarrow> nat \<Rightarrow> auth_session action" where
  "create_session_for_user E user session_ttl =
     bind_ok (random_bytes 16) (\<lambda>r. let token = uuid_text E r in
     bind_ok clock (\<lambda>now. let expires_at = now + session_ttl in
     bind_ok (try_exec (\<lambda>e. unexpected)
                (\<lambda>st n. map_ok (\<lambda>st'. (st', ()))
                   (create_session st \<lparr>cs_token_hash = hash_token E token,
                        cs_user_id = user_id (profile_user user), cs_expires_at = expires_at\<rparr> n)))
       (\<lambda>u. Ret (Inr \<lparr>as_user = user, as_token = token, as_expires_at = expires_at\<rparr>))))"

subsection \<open>Managing accounts\<close>

record bootstrap_input =
  bi_username :: ustr
  bi_password :: ustr

definition bootstrap_admin :: "auth_env \<Rightarrow> bootstrap_input \<Rightarrow> nat \<Rightarrow> auth_session action" where
  "bootstrap_admin E input session_ttl =
     bind_ok bootstrap_required (\<lambda>required.
     if \<not> required then
       Ret (Inl (business Conflict ''bootstrap_unavailable'' []
                   (lit ''bootstrap is no longer available because an admin account already exists'')))
     else
     bind_ok (Ret (normalize_username (bi_username input))) (\<lambda>name.
     bind_ok (Ret (normalize_nickname None name)) (\<lambda>nick.
     bind_ok (Ret (validate_password ''password'' (bi_password input))) (\<lambda>u.
     bind_ok (hash_password E (bi_password input)) (\<lambda>h.
     bind_ok (try_exec map_user_write_error
                (\<lambda>st n. db_create_user (db_lower E) st
                   \<lparr>cu_username = name, cu_username_normalized = normalize_username_key E name,
                    cu_nickname = nick, cu_password_hash = h, cu_role = Owner, cu_is_enabled = True,
                    cu_library_ids = []\<rparr> n))
       (\<lambda>user. create_session_for_user E user session_ttl))))))"

record create_user_input =
  ci_username :: ustr
  ci_password :: ustr
  ci_role :: ustr
  ci_is_enabled :: bool
  ci_library_ids :: "int list"

definition create_user :: "auth_env \<Rightarrow> int \<Rightarrow> create_user_input \<Rightarrow> user_profile action" where
  "create_user E actor_id input =
     bind_ok (Ret (normalize_username (ci_username input))) (\<lambda>name.
     bind_ok (Ret (validate_password ''password'' (ci_password input))) (\<lambda>u.
     bind_ok (Ret (normalize_user_role (ci_role input))) (\<lambda>r.
     bind_ok (get_user actor_id) (\<lambda>actor.
     bind_ok (Ret (validate_role_assignment actor r)) (\<lambda>u.
     let ids = normalize_library_ids (ci_library_ids input) in
     bind_ok (validate_library_access r ids) (\<lambda>u.
     bind_ok (hash_password E (ci_password input)) (\<lambda>h.
     try_exec map_user_write_error
       (\<lambda>st n. db_create_user (db_lower E) st
          \<lparr>cu_username = name, cu_username_normalized = normalize_username_key E name,
           cu_nickname = name, cu_password_hash = h, cu_role = r,
           cu_is_enabled = ci_is_enabled input,
           cu_library_ids = (if is_admin r then [] else ids)\<rparr> n))))))))"

record update_user_input =
  ui_role :: "ustr option"
  ui_is_enabled :: "bool option"
  ui_library_ids :: "int list option"

definition update_user :: "int \<Rightarrow> int \<Rightarrow> update_user_input \<Rightarrow> user_profile action" where
  "update_user actor_id i input =
     bind_ok (get_user i) (\<lambda>existing.
     bind_ok (get_user actor_id) (\<lambda>actor.
     bind_ok (Ret (validate_user_management_scope actor existing)) (\<lambda>u.
     bind_ok (Ret (case ui_role input of
                     Some r \<Rightarrow> normalize_user_role r
                   | None \<Rightarrow> Inr (role (profile_user existing)))) (\<lambda>r.
     bind_ok (Ret (validate_role_assignment actor r)) (\<lambda>u.
     let enabled = (case ui_is_enabled input of None \<Rightarrow> is_enabled (profile_user existing) | Some b \<Rightarrow> b) in
     bind_ok (validate_admin_retention existing r enabled) (\<lambda>u.
     let ids = (if is_admin r then []
                else normalize_library_ids
                  (case ui_library_ids input of None \<Rightarrow> library_ids existing | Some ids \<Rightarrow> ids)) in
     bind_ok (validate_library_access r ids) (\<lambda>u.
     try_exec map_user_write_error
       (\<lambda>st n. db_update_user st i
          \<lparr>uu_role = r, uu_is_enabled = enabled, uu_library_ids = ids\<rparr> n))))))))"

definition self_management :: "string \<Rightarrow> ustr \<Rightarrow> application_error" where
  "self_management operation message =
     business Conflict ''self_management_not_allowed'' [(''operation'', JString (lit operation))] message"

definition delete_user :: "int \<Rightarrow> int \<Rightarrow> unit action" where
  "delete_user actor_id i =
     (if actor_id = i then
        Ret (Inl (self_management ''delete'' (lit ''current user cannot delete themselves'')))
      else
        bind_ok (get_user i) (\<lambda>existing.
        bind_ok (get_user actor_id) (\<lambda>actor.
        bind_ok (Ret (validate_user_management_scope actor existing)) (\<lambda>u.
        bind_ok (validate_admin_retention existing (role (profile_user existing)) False) (\<lambda>u.
        bind_ok (exec (\<lambda>st n. db_delete_user st i)) (\<lambda>deleted.
        Ret (ensure (user_not_found i) deleted)))))))"

definition reset_user_password :: "auth_env \<Rightarrow> int \<Rightarrow> int \<Rightarrow> ustr \<Rightarrow> unit action" where
  "reset_user_password E actor_id i new_password =
     (if actor_id = i then
        Ret (Inl (self_management ''reset_password''
          (lit ''current user must use the personal password endpoint to change their own password'')))
      else
        bind_ok (get_user i) (\<lambda>target_user.
        bind_ok (get_user actor_id) (\<lambda>actor.
        bind_ok (Ret (validate_user_management_scope actor target_user)) (\<lambda>u.
        bind_ok (Ret (validate_password ''new_password'' new_password)) (\<lambda>u.
        bind_ok (hash_password E new_password) (\<lambda>h.
        try_exec (\<lambda>e. unexpected)
          (\<lambda>st n. map_ok (\<lambda>st'. (st', ())) (update_user_password_and_revoke_sessions st i h None n))))))))"

definition update_own_profile :: "int \<Rightarrow> ustr \<Rightarrow> user_profile action" where
  "update_own_profile i nick =
     bind_ok (get_user i) (\<lambda>existing.
     bind_ok (Ret (normalize_nickname (Some nick) (username (profile_user existing)))) (\<lambda>n.
     try_exec map_user_write_error (\<lambda>st now. update_user_nickname st i n now)))"

end
