(* ===== verification/User_Sessions.thy ===== *)
theory User_Sessions
  imports User_Management
begin

text \<open>
  Logging in and out (\<open>mova-application/src/users.rs\<close>) and the authentication of a request
  (\<open>mova-server/src/auth.rs\<close>): web sessions behind a cookie, and native sessions with a
  short-lived access token and a refresh token that is exchanged at each use. Tokens are
  stored as hashes only.
\<close>

subsection \<open>Logging in\<close>

definition invalid_credentials :: application_error where
  "invalid_credentials =
     business Unauthorized ''invalid_credentials'' [] (lit ''invalid username or password'')"

definition account_disabled :: "user \<Rightarrow> application_error" where
  "account_disabled u =
     business Forbidden ''account_disabled'' [(''account'', JString (username u))]
       (lit ''user '' @ username u @ lit '' is disabled'')"

definition authenticate_login :: "auth_env \<Rightarrow> ustr \<Rightarrow> ustr \<Rightarrow> user_profile action" where
  "authenticate_login E name password =
     bind_ok (Ret (normalize_username name)) (\<lambda>name.
     bind_ok (Ret (validate_password ''password'' password)) (\<lambda>u.
     bind_ok (query (\<lambda>st. get_user_by_username st (normalize_username_key E name))) (\<lambda>found.
     case found of
       None \<Rightarrow> Ret (Inl invalid_credentials)
     | Some record \<Rightarrow>
         bind_ok (Ret (verify_password E (ar_password_hash record) password)) (\<lambda>valid.
         if \<not> valid then Ret (Inl invalid_credentials)
         else if \<not> is_enabled (ar_user record) then Ret (Inl (account_disabled (ar_user record)))
         else Ret (Inr \<lparr>profile_user = ar_user record, library_ids = ar_library_ids record\<rparr>)))))"

definition login :: "auth_env \<Rightarrow> ustr \<Rightarrow> ustr \<Rightarrow> nat \<Rightarrow> auth_session action" where
  "login E name password session_ttl =
     bind_ok (authenticate_login E name password) (\<lambda>user. create_session_for_user E user session_ttl)"

definition normalize_optional_text :: "ustr option \<Rightarrow> ustr option" where
  "normalize_optional_text value = opt_filter (\<lambda>v. v \<noteq> []) (map_option trim value)"

definition normalize_client_type :: "ustr option \<Rightarrow> ustr" where
  "normalize_client_type value =
     (case normalize_optional_text value of None \<Rightarrow> lit ''native'' | Some v \<Rightarrow> v)"

record native_auth_session =
  na_user :: user_profile
  na_access_token :: ustr
  na_access_token_expires_at :: nat
  na_refresh_token :: ustr
  na_refresh_token_expires_at :: nat

definition NATIVE_TOKEN_BYTES :: nat where "NATIVE_TOKEN_BYTES = 32"

definition generate_native_token :: "ustr action" where
  "generate_native_token = bind_ok (random_bytes NATIVE_TOKEN_BYTES) (\<lambda>b. Ret (Inr (hex_encode b)))"

definition create_native_session_for_user ::
  "auth_env \<Rightarrow> user_profile \<Rightarrow> nat \<Rightarrow> nat \<Rightarrow> ustr option \<Rightarrow> ustr option \<Rightarrow> ustr
    \<Rightarrow> native_auth_session action" where
  "create_native_session_for_user E user access_ttl refresh_ttl agent device client =
     bind_ok generate_native_token (\<lambda>a.
     bind_ok generate_native_token (\<lambda>r.
     bind_ok clock (\<lambda>now_a. let a_exp = now_a + access_ttl in
     bind_ok clock (\<lambda>now_r. let r_exp = now_r + refresh_ttl in
     bind_ok (try_exec (\<lambda>e. unexpected)
                (\<lambda>st n. map_ok (\<lambda>st'. (st', ()))
                   (create_native_client_session st
                      \<lparr>cn_user_id = user_id (profile_user user), cn_access_token_hash = hash_token E a,
                       cn_refresh_token_hash = hash_token E r, cn_access_token_expires_at = a_exp,
                       cn_refresh_token_expires_at = r_exp, cn_user_agent = agent,
                       cn_device_name = device, cn_client_type = client\<rparr> n)))
       (\<lambda>u. Ret (Inr \<lparr>na_user = user, na_access_token = a, na_access_token_expires_at = a_exp,
                      na_refresh_token = r, na_refresh_token_expires_at = r_exp\<rparr>))))))"

record native_login_input =
  ni_username :: ustr
  ni_password :: ustr
  ni_user_agent :: "ustr option"
  ni_device_name :: "ustr option"
  ni_client_type :: "ustr option"

definition login_native_client :: "auth_env \<Rightarrow> native_login_input \<Rightarrow> nat \<Rightarrow> nat \<Rightarrow> native_auth_session action" where
  "login_native_client E input access_ttl refresh_ttl =
     bind_ok (authenticate_login E (ni_username input) (ni_password input)) (\<lambda>user.
     create_native_session_for_user E user access_ttl refresh_ttl
       (normalize_optional_text (ni_user_agent input))
       (normalize_optional_text (ni_device_name input))
       (normalize_client_type (ni_client_type input)))"

subsection \<open>Authenticating\<close>

record authenticated_session =
  au_user :: user_profile
  au_expires_at :: nat
  realtime_session_key :: ustr

definition get_native_access_session :: "auth_env \<Rightarrow> ustr \<Rightarrow> authenticated_session action" where
  "get_native_access_session E token =
     bind_ok (query (\<lambda>st. get_user_by_native_access_token_hash st (hash_token E token))) (\<lambda>found.
     case found of
       None \<Rightarrow> Ret (Inl (auth_token InvalidToken))
     | Some s \<Rightarrow>
         if nu_revoked_at s \<noteq> None then Ret (Inl (auth_token InvalidToken))
         else
           bind_ok clock (\<lambda>now.
           if nu_access_token_expires_at s \<le> now then Ret (Inl (auth_token TokenExpired))
           else if \<not> is_enabled (profile_user (nu_user s)) then
             bind_ok (exec (\<lambda>st n.
                 (revoke_native_client_sessions_for_user st (user_id (profile_user (nu_user s))) n, ())))
               (\<lambda>u. Ret (Inl (auth_token InvalidToken)))
           else
             bind_ok (exec (\<lambda>st n. (touch_native_client_session st (nu_session_id s) n, ())))
               (\<lambda>u. Ret (Inr \<lparr>au_user = nu_user s, au_expires_at = nu_access_token_expires_at s,
                   realtime_session_key = lit ''session:native:'' @ int_text (nu_session_id s)\<rparr>))))"

definition get_user_by_native_access_token :: "auth_env \<Rightarrow> ustr \<Rightarrow> user_profile action" where
  "get_user_by_native_access_token E token =
     bind_ok (get_native_access_session E token) (\<lambda>s. Ret (Inr (au_user s)))"

definition authentication_required :: application_error where
  "authentication_required =
     business Unauthorized ''authentication_required'' [] (lit ''authentication required'')"

definition get_user_session :: "auth_env \<Rightarrow> ustr \<Rightarrow> authenticated_session action" where
  "get_user_session E token =
     bind_ok (exec (\<lambda>st n. get_user_by_session_token_hash st (hash_token E token) n)) (\<lambda>found.
     case found of
       None \<Rightarrow> Ret (Inl authentication_required)
     | Some (user, expires_at) \<Rightarrow>
         if \<not> is_enabled (profile_user user) then Ret (Inl (account_disabled (profile_user user)))
         else Ret (Inr \<lparr>au_user = user, au_expires_at = expires_at,
                realtime_session_key = lit ''session:web:'' @ hash_token E token\<rparr>))"

definition get_user_by_session_token :: "auth_env \<Rightarrow> ustr \<Rightarrow> user_profile action" where
  "get_user_by_session_token E token =
     bind_ok (get_user_session E token) (\<lambda>s. Ret (Inr (au_user s)))"

subsection \<open>Exchanging refresh tokens\<close>

definition used_refresh_token_can_revoke_session :: "nat \<Rightarrow> nat \<Rightarrow> bool" where
  "used_refresh_token_can_revoke_session expires_at now = (now < expires_at)"

text \<open>The token is no session's: was it one, the session it belonged to is revoked.\<close>

definition refresh_unknown :: "ustr \<Rightarrow> nat \<Rightarrow> native_auth_session action" where
  "refresh_unknown h now =
     bind_ok (query (\<lambda>st. get_used_native_refresh_token st h)) (\<lambda>used.
     case used of
       None \<Rightarrow> Ret (Inl (auth_token InvalidRefreshToken))
     | Some t \<Rightarrow>
         if \<not> used_refresh_token_can_revoke_session (ut_expires_at t) now
         then Ret (Inl (auth_token RefreshTokenExpired))
         else bind_ok (exec (\<lambda>st n. (revoke_native_client_session st (ut_session_id t) n, ())))
                (\<lambda>u. Ret (Inl (auth_token SessionRevoked))))"

definition rotate_session ::
  "auth_env \<Rightarrow> native_session_user \<Rightarrow> ustr \<Rightarrow> nat \<Rightarrow> nat \<Rightarrow> native_auth_session action" where
  "rotate_session E s h access_ttl refresh_ttl =
     bind_ok generate_native_token (\<lambda>a.
     bind_ok generate_native_token (\<lambda>r.
     bind_ok clock (\<lambda>issued_at.
     let a_exp = issued_at + access_ttl; r_exp = issued_at + refresh_ttl in
     bind_ok (try_exec (\<lambda>e. unexpected)
                (\<lambda>st n. rotate_native_client_session_tokens st
                   \<lparr>rt_session_id = nu_session_id s, rt_old_refresh_token_hash = h,
                    rt_old_refresh_token_expires_at = nu_refresh_token_expires_at s,
                    rt_new_access_token_hash = hash_token E a, rt_new_refresh_token_hash = hash_token E r,
                    rt_access_token_expires_at = a_exp, rt_refresh_token_expires_at = r_exp\<rparr> n))
       (\<lambda>rotation. Ret (case rotation of
            Rotated \<Rightarrow> Inr \<lparr>na_user = nu_user s, na_access_token = a, na_access_token_expires_at = a_exp,
                            na_refresh_token = r, na_refresh_token_expires_at = r_exp\<rparr>
          | Expired \<Rightarrow> Inl (auth_token RefreshTokenExpired)
          | Replayed \<Rightarrow> Inl (auth_token SessionRevoked)
          | Missing \<Rightarrow> Inl (auth_token InvalidRefreshToken))))))"

definition refresh_native_client_session ::
  "auth_env \<Rightarrow> ustr \<Rightarrow> nat \<Rightarrow> nat \<Rightarrow> native_auth_session action" where
  "refresh_native_client_session E refresh_token access_ttl refresh_ttl =
     (let token = trim refresh_token in
      if token = [] then Ret (Inl (auth_token InvalidRefreshToken))
      else
        (let h = hash_token E token in
         bind_ok clock (\<lambda>now.
         bind_ok (query (\<lambda>st. get_native_client_session_by_refresh_token_hash st h)) (\<lambda>found.
         case found of
           None \<Rightarrow> refresh_unknown h now
         | Some s \<Rightarrow>
             if nu_revoked_at s \<noteq> None then Ret (Inl (auth_token SessionRevoked))
             else if nu_refresh_token_expires_at s \<le> now then Ret (Inl (auth_token RefreshTokenExpired))
             else if \<not> is_enabled (profile_user (nu_user s)) then
               bind_ok (exec (\<lambda>st n.
                   (revoke_native_client_sessions_for_user st (user_id (profile_user (nu_user s))) n, ())))
                 (\<lambda>u. Ret (Inl (auth_token SessionRevoked)))
             else rotate_session E s h access_ttl refresh_ttl))))"

subsection \<open>Logging out\<close>

definition logout_native_client_access_token :: "auth_env \<Rightarrow> ustr \<Rightarrow> unit action" where
  "logout_native_client_access_token E token =
     bind_ok (query (\<lambda>st. get_user_by_native_access_token_hash st (hash_token E token))) (\<lambda>found.
     case found of
       None \<Rightarrow> Ret (Inr ())
     | Some s \<Rightarrow> exec (\<lambda>st n. (revoke_native_client_session st (nu_session_id s) n, ())))"

definition logout_native_client_refresh_token :: "auth_env \<Rightarrow> ustr \<Rightarrow> unit action" where
  "logout_native_client_refresh_token E token =
     (let token = trim token in
      if token = [] then Ret (Inr ())
      else
        (let h = hash_token E token in
         bind_ok (exec (\<lambda>st n. (revoke_native_client_session_by_refresh_token_hash st h n, ()))) (\<lambda>u.
         bind_ok (query (\<lambda>st. get_used_native_refresh_token st h)) (\<lambda>used.
         case used of
           None \<Rightarrow> Ret (Inr ())
         | Some t \<Rightarrow>
             bind_ok clock (\<lambda>now.
             if used_refresh_token_can_revoke_session (ut_expires_at t) now
             then exec (\<lambda>st n. (revoke_native_client_session st (ut_session_id t) n, ()))
             else Ret (Inr ()))))))"

definition logout_web :: "auth_env \<Rightarrow> ustr \<Rightarrow> unit action" where
  "logout_web E token = exec (\<lambda>st n. (delete_session_by_token_hash st (hash_token E token), ()))"

subsection \<open>Changing a password\<close>

definition change_own_password ::
  "auth_env \<Rightarrow> int \<Rightarrow> ustr \<Rightarrow> ustr \<Rightarrow> nat \<Rightarrow> auth_session action" where
  "change_own_password E i current new session_ttl =
     bind_ok (Ret (validate_password ''new_password'' new)) (\<lambda>u.
     if current = new then
       Ret (Inl (business Validation ''password_unchanged'' []
                   (lit ''new_password must be different from current_password'')))
     else
     bind_ok (query (\<lambda>st. get_user_authentication_record st i)) (\<lambda>found.
     case found of
       None \<Rightarrow> Ret (Inl (user_not_found i))
     | Some record \<Rightarrow>
         bind_ok (Ret (verify_password E (ar_password_hash record) current)) (\<lambda>valid.
         if \<not> valid then
           Ret (Inl (business Unauthorized ''invalid_current_password'' []
                       (lit ''current password is invalid'')))
         else
         bind_ok (hash_password E new) (\<lambda>h.
         bind_ok (random_bytes 16) (\<lambda>r. let token = uuid_text E r in
         bind_ok clock (\<lambda>now. let expires_at = now + session_ttl in
         bind_ok (try_exec (\<lambda>e. unexpected)
                    (\<lambda>st n. map_ok (\<lambda>st'. (st', ()))
                       (update_user_password_and_revoke_sessions st i h
                          (Some \<lparr>cs_token_hash = hash_token E token, cs_user_id = i,
                                 cs_expires_at = expires_at\<rparr>) n)))
           (\<lambda>u. Ret (Inr \<lparr>as_user = \<lparr>profile_user = ar_user record, library_ids = ar_library_ids record\<rparr>,
                  as_token = token, as_expires_at = expires_at\<rparr>))))))))"

end
