(* ===== verification/User_Requests.thy ===== *)
theory User_Requests
  imports User_Sessions
begin

text \<open>
  The requests that work on accounts and sessions, from the extractors of
  \<open>mova-server/src/auth.rs\<close> through the handlers of \<open>handlers/auth.rs\<close> and
  \<open>handlers/users.rs\<close> to the tables, and the clean-up task of \<open>session_housekeeping.rs\<close>. What
  the server runs is any interleaving of them.
\<close>

subsection \<open>Credentials\<close>

datatype auth_credential = Bearer ustr | SessionCookie ustr

text \<open>
  What a request carries: the \<open>Authorization\<close> header as far as it is text, and the trimmed
  value of the session cookie.
\<close>

record credentials =
  authorization :: "ustr option"
  session_cookie :: "ustr option"

definition session_token :: "credentials \<Rightarrow> ustr option" where
  "session_token c = opt_filter (\<lambda>v. v \<noteq> []) (session_cookie c)"

text \<open>\<open>splitn(2, char::is_whitespace)\<close>: the scheme before the first blank, the token after it.\<close>

fun split_scheme :: "ustr \<Rightarrow> (ustr \<times> ustr) option" where
  "split_scheme [] = None"
| "split_scheme (c # s) =
     (if is_whitespace c then Some ([], s) else map_option (\<lambda>(a, b). (c # a, b)) (split_scheme s))"

definition bearer_token :: "credentials \<Rightarrow> ustr option" where
  "bearer_token c =
     (case authorization c of
        None \<Rightarrow> None
      | Some a \<Rightarrow>
          (case split_scheme (trim a) of
             None \<Rightarrow> None
           | Some (scheme, rest) \<Rightarrow>
               (let token = trim rest in
                if to_ascii_lowercase scheme \<noteq> lit ''bearer'' \<or> token = [] then None else Some token)))"

definition request_auth_credential :: "credentials \<Rightarrow> api_error + auth_credential" where
  "request_auth_credential c =
     ok_or (ApiUnauthorized (lit ''authentication required''))
       (or_else (map_option Bearer (bearer_token c)) (map_option SessionCookie (session_token c)))"

type_synonym 'a handler = "(user_store, api_error + 'a) prog"

definition api :: "'a action \<Rightarrow> 'a handler" where
  "api p = bind p (\<lambda>r. Ret (map_err from_application_error r))"

definition authenticate_credential :: "auth_env \<Rightarrow> auth_credential \<Rightarrow> authenticated_session handler" where
  "authenticate_credential E c =
     (case c of
        Bearer token \<Rightarrow> api (get_native_access_session E token)
      | SessionCookie token \<Rightarrow> api (get_user_session E token))"

definition require_auth_context :: "auth_env \<Rightarrow> credentials \<Rightarrow> authenticated_session handler" where
  "require_auth_context E c =
     bind_ok (Ret (request_auth_credential c)) (\<lambda>credential. authenticate_credential E credential)"

definition require_user :: "auth_env \<Rightarrow> credentials \<Rightarrow> user_profile handler" where
  "require_user E c = bind_ok (require_auth_context E c) (\<lambda>s. Ret (Inr (au_user s)))"

definition require_admin :: "auth_env \<Rightarrow> credentials \<Rightarrow> user_profile handler" where
  "require_admin E c =
     bind_ok (require_user E c) (\<lambda>user.
     if \<not> profile_is_admin user then Ret (Inl (ApiForbidden (lit ''admin permission required'')))
     else Ret (Inr user))"

text \<open>In nanoseconds: thirty days, two hours, thirty days.\<close>

definition SESSION_TTL :: nat where "SESSION_TTL = 30 * 86400 * 10 ^ 9"
definition NATIVE_ACCESS_TOKEN_TTL :: nat where "NATIVE_ACCESS_TOKEN_TTL = 2 * 3600 * 10 ^ 9"
definition NATIVE_REFRESH_TOKEN_TTL :: nat where "NATIVE_REFRESH_TOKEN_TTL = 30 * 86400 * 10 ^ 9"

subsection \<open>Handlers\<close>

text \<open>
  What a handler answers with: the domain value that the response is rendered from, and the
  session cookie it sets or clears. The request bodies are the decoded ones; the body of a
  logout is optional and decoded by the parameter \<open>decode\<close>.
\<close>

datatype reply =
    BootstrapStatus bool
  | UserReply user_profile
  | UsersReply "user_profile list"
  | SessionReply auth_session
  | TokensReply native_auth_session
  | LoggedOut
  | NothingToTell

definition parse_logout_request ::
  "(nat list \<Rightarrow> ustr option option) \<Rightarrow> nat list \<Rightarrow> api_error + ustr option option" where
  "parse_logout_request decode body =
     (if body = [] then Inr None
      else map_ok Some (ok_or (BadRequest (lit ''invalid logout request body'')) (decode body)))"

definition logout_credential :: "auth_env \<Rightarrow> auth_credential \<Rightarrow> unit handler" where
  "logout_credential E c =
     (case c of
        Bearer token \<Rightarrow> api (logout_native_client_access_token E token)
      | SessionCookie token \<Rightarrow> api (logout_web E token))"

definition logout :: "auth_env \<Rightarrow> (nat list \<Rightarrow> ustr option option) \<Rightarrow> credentials \<Rightarrow> nat list \<Rightarrow> reply handler" where
  "logout E decode c body =
     bind_ok (case request_auth_credential c of Inl e \<Rightarrow> Ret (Inr ()) | Inr cr \<Rightarrow> logout_credential E cr) (\<lambda>u.
     bind_ok (Ret (parse_logout_request decode body)) (\<lambda>request.
     bind_ok (case request of
                Some (Some token) \<Rightarrow> api (logout_native_client_refresh_token E token)
              | _ \<Rightarrow> Ret (Inr ()))
       (\<lambda>u. Ret (Inr LoggedOut))))"

definition reply_with :: "('a \<Rightarrow> reply) \<Rightarrow> 'a action \<Rightarrow> reply handler" where
  "reply_with f p = bind_ok (api p) (\<lambda>x. Ret (Inr (f x)))"

abbreviation acting_id :: "user_profile \<Rightarrow> int" where
  "acting_id p \<equiv> user_id (profile_user p)"

definition get_bootstrap_status_handler :: "reply handler" where
  "get_bootstrap_status_handler = reply_with BootstrapStatus bootstrap_required"

definition bootstrap_admin_handler :: "auth_env \<Rightarrow> bootstrap_input \<Rightarrow> reply handler" where
  "bootstrap_admin_handler E input = reply_with SessionReply (bootstrap_admin E input SESSION_TTL)"

text \<open>
  The logins and the password change stand behind the rate limit of \<open>Auth_Rate_Limit\<close>, which
  turns attempts away before they get here.
\<close>

definition login_attempt :: "auth_env \<Rightarrow> ustr \<Rightarrow> ustr \<Rightarrow> reply handler" where
  "login_attempt E name password = reply_with SessionReply (login E name password SESSION_TTL)"

definition token_login_attempt :: "auth_env \<Rightarrow> native_login_input \<Rightarrow> reply handler" where
  "token_login_attempt E input =
     reply_with TokensReply (login_native_client E input NATIVE_ACCESS_TOKEN_TTL NATIVE_REFRESH_TOKEN_TTL)"

definition refresh_token_handler :: "auth_env \<Rightarrow> ustr \<Rightarrow> reply handler" where
  "refresh_token_handler E token =
     reply_with TokensReply
       (refresh_native_client_session E token NATIVE_ACCESS_TOKEN_TTL NATIVE_REFRESH_TOKEN_TTL)"

definition current_user_handler :: "auth_env \<Rightarrow> credentials \<Rightarrow> reply handler" where
  "current_user_handler E c = bind_ok (require_user E c) (\<lambda>user. Ret (Inr (UserReply user)))"

definition update_own_profile_handler :: "auth_env \<Rightarrow> credentials \<Rightarrow> ustr \<Rightarrow> reply handler" where
  "update_own_profile_handler E c nick =
     bind_ok (require_user E c) (\<lambda>user. reply_with UserReply (update_own_profile (acting_id user) nick))"

definition change_password_attempt :: "auth_env \<Rightarrow> credentials \<Rightarrow> ustr \<Rightarrow> ustr \<Rightarrow> reply handler" where
  "change_password_attempt E c current new =
     bind_ok (require_user E c) (\<lambda>user.
       reply_with SessionReply (change_own_password E (acting_id user) current new SESSION_TTL))"

definition list_users_handler :: "auth_env \<Rightarrow> credentials \<Rightarrow> reply handler" where
  "list_users_handler E c = bind_ok (require_admin E c) (\<lambda>user. reply_with UsersReply list_all_users)"

record create_user_request =
  cr_username :: ustr
  cr_password :: ustr
  cr_role :: ustr
  cr_is_enabled :: "bool option"
  cr_library_ids :: "int list option"

definition create_user_handler :: "auth_env \<Rightarrow> credentials \<Rightarrow> create_user_request \<Rightarrow> reply handler" where
  "create_user_handler E c request =
     bind_ok (require_admin E c) (\<lambda>user.
       reply_with UserReply (create_user E (acting_id user)
         \<lparr>ci_username = cr_username request, ci_password = cr_password request, ci_role = cr_role request,
          ci_is_enabled = (case cr_is_enabled request of None \<Rightarrow> True | Some b \<Rightarrow> b),
          ci_library_ids = (case cr_library_ids request of None \<Rightarrow> [] | Some ids \<Rightarrow> ids)\<rparr>))"

definition update_user_handler :: "auth_env \<Rightarrow> credentials \<Rightarrow> int \<Rightarrow> update_user_input \<Rightarrow> reply handler" where
  "update_user_handler E c i input =
     bind_ok (require_admin E c) (\<lambda>user. reply_with UserReply (update_user (acting_id user) i input))"

definition reset_user_password_handler :: "auth_env \<Rightarrow> credentials \<Rightarrow> int \<Rightarrow> ustr \<Rightarrow> reply handler" where
  "reset_user_password_handler E c i new =
     bind_ok (require_admin E c) (\<lambda>user.
       reply_with (\<lambda>u. NothingToTell) (reset_user_password E (acting_id user) i new))"

definition delete_user_handler :: "auth_env \<Rightarrow> credentials \<Rightarrow> int \<Rightarrow> reply handler" where
  "delete_user_handler E c i =
     bind_ok (require_admin E c) (\<lambda>user. reply_with (\<lambda>u. NothingToTell) (delete_user (acting_id user) i))"

text \<open>The requests and the handlers they are routed to.\<close>

datatype request =
    GetBootstrapStatus
  | BootstrapAdmin bootstrap_input
  | Login ustr ustr
  | TokenLogin native_login_input
  | RefreshToken ustr
  | Logout credentials "nat list"
  | CurrentUser credentials
  | UpdateOwnProfile credentials ustr
  | ChangePassword credentials ustr ustr
  | ListUsers credentials
  | CreateUser credentials create_user_request
  | UpdateUser credentials int update_user_input
  | ResetUserPassword credentials int ustr
  | DeleteUser credentials int

fun handle :: "auth_env \<Rightarrow> (nat list \<Rightarrow> ustr option option) \<Rightarrow> request \<Rightarrow> reply handler" where
  "handle E decode GetBootstrapStatus = get_bootstrap_status_handler"
| "handle E decode (BootstrapAdmin input) = bootstrap_admin_handler E input"
| "handle E decode (Login name password) = login_attempt E name password"
| "handle E decode (TokenLogin input) = token_login_attempt E input"
| "handle E decode (RefreshToken token) = refresh_token_handler E token"
| "handle E decode (Logout c body) = logout E decode c body"
| "handle E decode (CurrentUser c) = current_user_handler E c"
| "handle E decode (UpdateOwnProfile c nick) = update_own_profile_handler E c nick"
| "handle E decode (ChangePassword c current new) = change_password_attempt E c current new"
| "handle E decode (ListUsers c) = list_users_handler E c"
| "handle E decode (CreateUser c request) = create_user_handler E c request"
| "handle E decode (UpdateUser c i input) = update_user_handler E c i input"
| "handle E decode (ResetUserPassword c i new) = reset_user_password_handler E c i new"
| "handle E decode (DeleteUser c i) = delete_user_handler E c i"

declare handle.simps [simp del]

lemmas handle_unfold [simp] = handle.simps [unfolded get_bootstrap_status_handler_def bootstrap_admin_handler_def
  login_attempt_def token_login_attempt_def refresh_token_handler_def current_user_handler_def
  update_own_profile_handler_def change_password_attempt_def list_users_handler_def create_user_handler_def
  update_user_handler_def reset_user_password_handler_def delete_user_handler_def]

subsection \<open>Housekeeping\<close>

definition CLEANUP_BATCH_SIZE :: int where "CLEANUP_BATCH_SIZE = 1000"
definition REVOKED_SESSION_RETENTION_SECONDS :: int where
  "REVOKED_SESSION_RETENTION_SECONDS = 7 * 24 * 60 * 60"
definition MAX_BATCHES_PER_RUN :: nat where "MAX_BATCHES_PER_RUN = 32"

definition cleanup_batch :: "(user_store, unit + cleanup_outcome) prog" where
  "cleanup_batch =
     stmt (\<lambda>t st. case cleanup_auth_sessions st CLEANUP_BATCH_SIZE REVOKED_SESSION_RETENTION_SECONDS
                        (tk_lock t) (tk_now t) of
                    None \<Rightarrow> (st, Inl ()) | Some (st', c) \<Rightarrow> (st', Inr c))"

fun cleanup_batches :: "nat \<Rightarrow> (user_store, unit + unit) prog" where
  "cleanup_batches 0 = Ret (Inr ())"
| "cleanup_batches (Suc k) =
     bind_ok cleanup_batch (\<lambda>c.
       if \<not> co_lock_acquired c then Ret (Inr ())
       else if \<not> reached_batch_limit c CLEANUP_BATCH_SIZE then Ret (Inr ())
       else cleanup_batches k)"

definition run_cleanup :: "(user_store, unit + unit) prog" where
  "run_cleanup = cleanup_batches MAX_BATCHES_PER_RUN"

text \<open>
  Other parts of the server add libraries, and delete them with their grants
  (\<open>on delete cascade\<close>).
\<close>

definition add_library :: "int \<Rightarrow> user_store \<Rightarrow> user_store" where
  "add_library l st = st\<lparr>st_libraries := st_libraries st @ [l]\<rparr>"

definition drop_library :: "int \<Rightarrow> user_store \<Rightarrow> user_store" where
  "drop_library l st =
     st\<lparr>st_libraries := List.filter (\<lambda>x. x \<noteq> l) (st_libraries st),
        st_access := List.filter (\<lambda>(u, x). x \<noteq> l) (st_access st)\<rparr>"

inductive server_task :: "auth_env \<Rightarrow> (nat list \<Rightarrow> ustr option option) \<Rightarrow> (user_store, unit) prog \<Rightarrow> bool"
  for E decode where
  request: "server_task E decode (bind (handle E decode r) (\<lambda>x. Ret ()))"
| housekeeping: "server_task E decode (bind run_cleanup (\<lambda>x. Ret ()))"
| library_added: "server_task E decode (stmt (\<lambda>t st. (add_library l st, ())))"
| library_dropped: "server_task E decode (stmt (\<lambda>t st. (drop_library l st, ())))"

definition empty_store :: user_store where
  "empty_store = \<lparr>st_users = [], st_next_user = 1, st_libraries = [], st_access = [], st_web = [],
     st_native = [], st_next_native = 1, st_used = []\<rparr>"

text \<open>The stores the server can reach from the empty database.\<close>

definition reachable :: "auth_env \<Rightarrow> (nat list \<Rightarrow> ustr option option) \<Rightarrow> user_store \<Rightarrow> bool" where
  "reachable E decode st = (\<exists>ps. reach (server_task E decode) empty_store st ps)"

end
