(* ===== verification/User_Invariants.thy ===== *)
theory User_Invariants
  imports User_Requests
begin

text \<open>
  What the management of accounts guarantees: from the bootstrap on there is exactly one owner,
  who stays enabled, however the requests interleave; and a management operation only touches
  accounts of a lower rank.
\<close>

subsection \<open>Accounts\<close>

definition account :: "user_row \<Rightarrow> int \<times> user_role \<times> bool" where
  "account r = (row_id r, row_role r, is_enabled (row_user r))"

definition accounts :: "user_store \<Rightarrow> (int \<times> user_role \<times> bool) list" where
  "accounts st = map account (st_users st)"

definition same_rows :: "user_store \<Rightarrow> user_store \<Rightarrow> bool" where
  "same_rows st st' = (st_users st' = st_users st \<and> st_next_user st' = st_next_user st)"

definition same_accounts :: "user_store \<Rightarrow> user_store \<Rightarrow> bool" where
  "same_accounts st st' = (accounts st' = accounts st \<and> st_next_user st' = st_next_user st)"

lemma same_rows_refl [simp]: "same_rows st st"
  by (simp add: same_rows_def)

lemma same_accounts_refl [simp]: "same_accounts st st"
  by (simp add: same_accounts_def)

lemma same_rows_accounts: "same_rows st st' \<Longrightarrow> same_accounts st st'"
  by (simp add: same_rows_def same_accounts_def accounts_def)

text \<open>The row of user \<open>i\<close> changes in other columns than those of its account.\<close>

definition touches_row :: "int \<Rightarrow> user_store \<Rightarrow> user_store \<Rightarrow> bool" where
  "touches_row i st st' =
     (st_next_user st' = st_next_user st
      \<and> (\<exists>f. (\<forall>r. account (f r) = account r)
           \<and> st_users st' = map (\<lambda>r. if row_id r = i then f r else r) (st_users st)))"

lemma touches_row_accounts: "touches_row i st st' \<Longrightarrow> same_accounts st st'"
  by (auto simp: touches_row_def same_accounts_def accounts_def)

lemma same_rows_touches: "same_rows st st' \<Longrightarrow> touches_row i st st'"
  by (auto simp: touches_row_def same_rows_def intro: exI [of _ "\<lambda>r. r"])

lemma touches_row_refl [simp]: "touches_row i st st"
  by (simp add: same_rows_touches)

lemma write_access_users:
  "write_user_library_access st u ls = Inr st'
    \<Longrightarrow> st_users st' = st_users st \<and> st_next_user st' = st_next_user st"
  by (induction ls arbitrary: st) (auto split: if_splits)

lemma session_statements_users [simp]:
  "st_users (revoke_where st n P) = st_users st" "st_next_user (revoke_where st n P) = st_next_user st"
  "st_users (delete_web_where st Q) = st_users st" "st_next_user (delete_web_where st Q) = st_next_user st"
  "st_users (revoke_all_sessions st i n) = st_users st"
  "st_next_user (revoke_all_sessions st i n) = st_next_user st"
  by (simp_all add: revoke_where_def delete_web_where_def revoke_all_sessions_def
      revoke_native_client_sessions_for_user_def)

lemma same_rows_session_statements:
  "same_rows st (revoke_native_client_sessions_for_user st i n)"
  "same_rows st (revoke_native_client_session st i n)"
  "same_rows st (revoke_native_client_session_by_refresh_token_hash st h n)"
  "same_rows st (delete_session_by_token_hash st h)"
  "same_rows st (touch_native_client_session st i n)"
  "same_rows st (fst (get_user_by_session_token_hash st h n))"
  by (auto simp: same_rows_def revoke_native_client_sessions_for_user_def revoke_native_client_session_def
        revoke_native_client_session_by_refresh_token_hash_def delete_session_by_token_hash_def
        touch_native_client_session_def get_user_by_session_token_hash_def split: option.split)

lemma same_rows_create_session: "create_session st p n = Inr st' \<Longrightarrow> same_rows st st'"
  by (auto simp: same_rows_def create_session_def split: if_splits)

lemma same_rows_create_native:
  "create_native_client_session st p n = Inr st' \<Longrightarrow> same_rows st st'"
  by (auto simp: same_rows_def create_native_client_session_def Let_def split: if_splits)

lemma same_rows_rotate:
  "rotate_native_client_session_tokens st p n = Inr (st', x) \<Longrightarrow> same_rows st st'"
  by (auto simp: same_rows_def rotate_native_client_session_tokens_def Let_def
        revoke_native_client_session_def split: if_splits option.splits)

lemma touches_row_password:
  assumes "update_user_password_and_revoke_sessions st i h c n = Inr st'"
  shows "touches_row i st st'"
proof -
  let ?f = "\<lambda>r. r\<lparr>password_hash := h, row_user := (row_user r)\<lparr>updated_at := n\<rparr>\<rparr>"
  have "same_rows (revoke_all_sessions (set_row st i ?f) i n) st'"
    using assms same_rows_create_session
    by (auto simp: update_user_password_and_revoke_sessions_def Let_def split: if_splits option.splits)
  moreover have "account (?f r) = account r" for r
    by (simp add: account_def row_id_def row_role_def)
  ultimately show ?thesis by (auto simp: touches_row_def same_rows_def set_row_def intro: exI [of _ ?f])
qed

lemma touches_row_nickname:
  assumes "update_user_nickname st i m n = Inr (st', x)"
  shows "touches_row i st st'"
proof -
  let ?f = "\<lambda>r. r\<lparr>row_user := (row_user r)\<lparr>nickname := m, updated_at := n\<rparr>\<rparr>"
  have "st' = set_row st i ?f"
    using assms by (auto simp: update_user_nickname_def Let_def split: option.splits if_splits)
  moreover have "account (?f r) = account r" for r
    by (simp add: account_def row_id_def row_role_def)
  ultimately show ?thesis by (auto simp: touches_row_def set_row_def intro: exI [of _ ?f])
qed

lemma same_rows_cleanup:
  "cleanup_auth_sessions st b ret lock n = Some (st', c) \<Longrightarrow> same_rows st st'"
  by (auto simp: same_rows_def cleanup_auth_sessions_def Let_def split: if_splits)

subsection \<open>Handlers that leave the accounts alone\<close>

text \<open>First those that only read, then those that only work on sessions.\<close>

lemma reads_accounts:
  assumes "\<And>st. P st st"
  shows "each P (get_user i)" and "each P bootstrap_required" and "each P (hash_password E pw)"
    and "each P list_all_users" and "each P (authenticate_login E name pw)" and "each P generate_native_token"
  by (auto simp: get_user_def bootstrap_required_def hash_password_def list_all_users_def
      authenticate_login_def generate_native_token_def assms intro!: each_rules split: option.split)

lemma reads_libraries: "(\<And>st. P st st) \<Longrightarrow> each P (require_libraries ls)"
  by (induction ls) (auto simp: require_library_def intro!: each_rules)

lemma reads_checks:
  assumes "\<And>st. P st st"
  shows "each P (validate_library_access r ids)" and "each P (validate_admin_retention u r b)"
  by (auto simp: validate_library_access_def validate_admin_retention_def assms intro!: each_rules reads_libraries)

lemmas reads_rules = reads_accounts reads_checks

abbreviation leaves_rows :: "(user_store, 'a) prog \<Rightarrow> bool" where
  "leaves_rows \<equiv> each same_rows"

abbreviation leaves_accounts :: "(user_store, 'a) prog \<Rightarrow> bool" where
  "leaves_accounts \<equiv> each same_accounts"

lemma rows_accounts: "leaves_rows p \<Longrightarrow> leaves_accounts p"
  by (rule each_mono [of same_rows]) (auto intro: same_rows_accounts)

lemma row_accounts: "each (touches_row i) p \<Longrightarrow> leaves_accounts p"
  by (rule each_mono [of "touches_row i"]) (auto intro: touches_row_accounts)

lemma leaves_create_session: "leaves_rows (create_session_for_user E u ttl)"
  by (auto simp: create_session_for_user_def Let_def result_simps
      intro!: each_rules dest: same_rows_create_session)

lemma leaves_login: "leaves_rows (login E name pw ttl)"
  by (auto simp: login_def intro!: each_rules reads_rules leaves_create_session)

lemma leaves_native_login: "leaves_rows (login_native_client E input a r)"
  by (auto simp: login_native_client_def create_native_session_for_user_def Let_def result_simps
      intro!: each_rules reads_rules dest: same_rows_create_native)

lemma leaves_native_access: "leaves_rows (get_native_access_session E t)"
  by (auto simp: get_native_access_session_def same_rows_session_statements
      intro!: each_rules split: option.split)

lemma leaves_web_access: "leaves_rows (get_user_session E t)"
  by (auto simp: get_user_session_def same_rows_session_statements
      intro!: each_rules split: option.split)

lemma leaves_rotate: "leaves_rows (rotate_session E s h a r)"
  by (auto simp: rotate_session_def Let_def intro!: each_rules reads_rules dest: same_rows_rotate)

lemma leaves_refresh: "leaves_rows (refresh_native_client_session E t a r)"
  by (auto simp: refresh_native_client_session_def refresh_unknown_def Let_def same_rows_session_statements
      intro!: each_rules leaves_rotate split: option.split)

lemma leaves_logouts:
  "leaves_rows (logout_native_client_access_token E t)"
  "leaves_rows (logout_native_client_refresh_token E t)"
  "leaves_rows (logout_web E t)"
  by (auto simp: logout_native_client_access_token_def logout_native_client_refresh_token_def logout_web_def
      Let_def same_rows_session_statements intro!: each_rules split: option.split)

lemma leaves_cleanup: "leaves_rows (cleanup_batches k)"
proof (induction k)
  case (Suc k)
  have "leaves_rows cleanup_batch"
    unfolding cleanup_batch_def
    by (rule each_stmt) (auto split: option.split dest: same_rows_cleanup)
  then show ?case using Suc by (auto intro!: each_rules)
qed (simp add: each_Ret)

lemma touches_try_password:
  "each (touches_row i) (try_exec (\<lambda>e. unexpected)
     (\<lambda>st n. map_ok (\<lambda>st'. (st', ())) (update_user_password_and_revoke_sessions st i h p n)))"
  by (rule each_try_exec) (auto simp: result_simps dest: touches_row_password)

lemma touches_change_password: "each (touches_row i) (change_own_password E i c m ttl)"
  by (auto simp: change_own_password_def Let_def
      intro!: each_Ret each_bind_ok each_reads reads_rules touches_try_password split: option.split)

lemma touches_own_profile: "each (touches_row i) (update_own_profile i m)"
  by (auto simp: update_own_profile_def intro!: each_rules reads_rules dest: touches_row_nickname)

lemma touches_reset_password: "each (touches_row i) (reset_user_password E a i pw)"
  by (auto simp: reset_user_password_def intro!: each_Ret each_bind_ok reads_rules touches_try_password)

lemma leaves_api: "each P p \<Longrightarrow> each P (api p)"
  unfolding api_def by (intro each_bind each_Ret)

lemma leaves_reply: "each P p \<Longrightarrow> each P (reply_with f p)"
  unfolding reply_with_def by (intro each_bind_ok each_Ret leaves_api)

lemma leaves_require:
  "leaves_rows (require_user E c)" "leaves_rows (require_admin E c)"
  by (auto simp: require_admin_def require_user_def require_auth_context_def authenticate_credential_def
      intro!: each_rules leaves_api leaves_native_access leaves_web_access split: auth_credential.split)

lemmas require_accounts = leaves_require [THEN rows_accounts]

lemma leaves_logout: "leaves_rows (logout E decode c body)"
  by (auto simp: logout_def logout_credential_def intro!: each_rules leaves_api leaves_logouts
      split: auth_credential.split option.split sum.split)

subsection \<open>The owner\<close>

definition owner_id :: "user_store \<Rightarrow> int \<Rightarrow> bool" where
  "owner_id st i = (\<exists>b. (i, Owner, b) \<in> set (accounts st))"

definition owner_wf :: "user_store \<Rightarrow> bool" where
  "owner_wf st =
     (distinct (map fst (accounts st)) \<and> (\<forall>a\<in>set (accounts st). fst a < st_next_user st)
      \<and> (accounts st = [] \<or> (\<exists>i. (i, Owner, True) \<in> set (accounts st)))
      \<and> (\<forall>i j. owner_id st i \<longrightarrow> owner_id st j \<longrightarrow> i = j))"

text \<open>Ids are not given out again, the owner stays the owner, and nobody else becomes it.\<close>

definition owner_evolves :: "user_store \<Rightarrow> user_store \<Rightarrow> bool" where
  "owner_evolves st st' =
     (owner_wf st \<longrightarrow> owner_wf st' \<and> st_next_user st \<le> st_next_user st'
        \<and> (\<forall>i. owner_id st i \<longrightarrow> owner_id st' i)
        \<and> (\<forall>i. i < st_next_user st \<longrightarrow> owner_id st' i \<longrightarrow> owner_id st i))"

interpretation owner: evolution owner_evolves owner_wf
proof
  fix st st' st'' assume "owner_evolves st st'" and "owner_evolves st' st''"
  then show "owner_evolves st st''"
    unfolding owner_evolves_def by (meson order_trans less_le_trans)
qed (auto simp: owner_evolves_def)

lemma same_accounts_evolves: "same_accounts st st' \<Longrightarrow> owner_evolves st st'"
  by (simp add: same_accounts_def owner_evolves_def owner_wf_def owner_id_def)

abbreviation keeps_owner :: "(user_store, 'a) prog \<Rightarrow> user_store \<Rightarrow> bool" where
  "keeps_owner p st \<equiv> rg owner_evolves p st (\<lambda>_ _. True)"

lemma leaves_keeps_owner: "leaves_accounts p \<Longrightarrow> keeps_owner p st"
  by (rule each_rg [of same_accounts]) (auto intro: same_accounts_evolves)

text \<open>What a handler knows of an account it has read: it is the owner's or never will be.\<close>

definition known :: "user_store \<Rightarrow> int \<Rightarrow> user_profile \<Rightarrow> bool" where
  "known st i u =
     (user_id (profile_user u) = i
      \<and> (owner_wf st \<longrightarrow> i < st_next_user st \<and> accounts st \<noteq> []
           \<and> (owner_id st i \<longleftrightarrow> role (profile_user u) = Owner)))"

lemma find_user_account:
  assumes "find_user st i = Some r"
  shows "r \<in> set (st_users st)" and "row_id r = i" and "account r \<in> set (accounts st)"
  using assms by (auto simp: find_user_def find_Some_iff accounts_def)

lemma known_db_get_user:
  assumes "db_get_user st i = Some u"
  shows "known st i u"
proof -
  obtain r where r: "find_user st i = Some r" "profile_user u = row_user r"
    using assms by (auto simp: db_get_user_def profile_of_row_def)
  note row = find_user_account [OF r(1)]
  have "user_id (row_user r) = i" using row(2) by (simp add: row_id_def)
  moreover have "i < st_next_user st" "accounts st \<noteq> []" if "owner_wf st"
    using that row(2,3) by (auto simp: owner_wf_def account_def)
  moreover have "owner_id st i \<longleftrightarrow> role (row_user r) = Owner" if "owner_wf st"
  proof
    assume "owner_id st i"
    then obtain b where b: "(i, Owner, b) \<in> set (accounts st)" by (auto simp: owner_id_def)
    have "inj_on fst (set (accounts st))" using that by (simp add: owner_wf_def distinct_map)
    then have "account r = (i, Owner, b)" by (rule inj_onD) (use b row in \<open>simp_all add: account_def\<close>)
    then show "role (row_user r) = Owner" by (simp add: account_def row_role_def)
  next
    assume "role (row_user r) = Owner"
    then show "owner_id st i" using row by (auto simp: owner_id_def account_def row_role_def)
  qed
  ultimately show ?thesis using r(2) by (simp add: known_def)
qed

lemma known_evolves: "known st i u \<Longrightarrow> owner_wf st \<Longrightarrow> owner_evolves st st' \<Longrightarrow> known st' i u"
proof -
  assume k: "known st i u" and wf: "owner_wf st" and ev: "owner_evolves st st'"
  from wf k have old: "i < st_next_user st" "accounts st \<noteq> []" "owner_id st i \<longleftrightarrow> role (profile_user u) = Owner"
    by (simp_all add: known_def)
  from wf ev have new: "owner_wf st'" "st_next_user st \<le> st_next_user st'"
      "\<And>j. owner_id st j \<Longrightarrow> owner_id st' j" "\<And>j. j < st_next_user st \<Longrightarrow> owner_id st' j \<Longrightarrow> owner_id st j"
    by (simp_all add: owner_evolves_def)
  from wf old(2) obtain j where "owner_id st j" by (auto simp: owner_wf_def owner_id_def)
  from new(3) [OF this] have "accounts st' \<noteq> []" by (auto simp: owner_id_def)
  then show ?thesis using k old new unfolding known_def by (metis less_le_trans)
qed

text \<open>
  The writes: a new account below the owner's rank, the account of the owner itself, and the
  change or removal of an account that is not the owner's.
\<close>

lemma create_user_accounts:
  assumes "db_create_user lower st p n = Inr (st', u)"
  shows "accounts st' = accounts st @ [(st_next_user st, cu_role p, cu_is_enabled p)]"
    and "st_next_user st' = st_next_user st + 1"
    and "cu_role p = Owner \<Longrightarrow> \<not> owner_id st i"
  using assms write_access_users
  by (auto simp: db_create_user_def Let_def accounts_def account_def new_user_row_def row_id_def row_role_def
      owner_id_def user_row_unique_def list_ex_iff result_simps split: if_splits)

lemma create_user_evolves:
  assumes "db_create_user lower st p n = Inr (st', u)"
    and "cu_role p = Owner \<Longrightarrow> cu_is_enabled p" and "cu_role p \<noteq> Owner \<Longrightarrow> accounts st \<noteq> []"
  shows "owner_evolves st st'"
  unfolding owner_evolves_def
proof (intro impI conjI allI)
  assume wf: "owner_wf st"
  note facts = create_user_accounts [OF assms(1)]
  have owner: "owner_id st' i \<longleftrightarrow> owner_id st i \<or> i = st_next_user st \<and> cu_role p = Owner" for i
    using facts(1) by (auto simp: owner_id_def)
  have fresh: "fst a < st_next_user st" if "a \<in> set (accounts st)" for a
    using wf that by (simp add: owner_wf_def)
  have "\<exists>i. (i, Owner, True) \<in> set (accounts st')"
    using wf assms(2,3) facts(1) by (cases "cu_role p = Owner") (auto simp: owner_wf_def)
  moreover have "distinct (map fst (accounts st'))" "\<forall>a\<in>set (accounts st'). fst a < st_next_user st'"
    using wf fresh facts(1,2) by (auto simp: owner_wf_def) (force, force)
  moreover have "\<forall>i j. owner_id st' i \<longrightarrow> owner_id st' j \<longrightarrow> i = j"
    using wf owner facts(3) unfolding owner_wf_def by metis
  ultimately show "owner_wf st'" by (simp add: owner_wf_def)
  show "st_next_user st \<le> st_next_user st'" using facts(2) by simp
  show "owner_id st' i" if "owner_id st i" for i using owner that by simp
  show "owner_id st i" if "i < st_next_user st" "owner_id st' i" for i using owner that by auto
qed

lemma change_account_evolves:
  assumes "accounts st' = map (\<lambda>a. if fst a = i then (i, r, b) else a) (accounts st)"
    and "st_next_user st' = st_next_user st" and "r \<noteq> Owner" and "\<not> owner_id st i"
  shows "owner_evolves st st'"
  unfolding owner_evolves_def
proof (intro impI conjI allI)
  assume wf: "owner_wf st"
  have owner: "owner_id st' j \<longleftrightarrow> owner_id st j" for j
    using assms(3,4) by (force simp: owner_id_def assms(1) split: if_splits)
  have ids: "map fst (accounts st') = map fst (accounts st)" by (simp add: assms(1))
  have "distinct (map fst (accounts st'))" using wf unfolding ids by (simp add: owner_wf_def)
  moreover have "\<forall>a\<in>set (accounts st'). fst a < st_next_user st'"
    using wf assms(2) by (auto simp: owner_wf_def assms(1) split: if_splits)
  moreover have "accounts st' = [] \<or> (\<exists>j. (j, Owner, True) \<in> set (accounts st'))"
    using wf assms(4) by (force simp: owner_wf_def owner_id_def assms(1))
  moreover have "\<forall>i j. owner_id st' i \<longrightarrow> owner_id st' j \<longrightarrow> i = j"
    using wf owner unfolding owner_wf_def by metis
  ultimately show "owner_wf st'" by (simp add: owner_wf_def)
  show "st_next_user st \<le> st_next_user st'" using assms(2) by simp
  show "owner_id st' j" if "owner_id st j" for j using owner that by simp
  show "owner_id st j" if "owner_id st' j" for j using owner that by simp
qed

lemma remove_account_evolves:
  assumes "accounts st' = List.filter (\<lambda>a. fst a \<noteq> i) (accounts st)"
    and "st_next_user st' = st_next_user st" and "\<not> owner_id st i"
  shows "owner_evolves st st'"
  unfolding owner_evolves_def
proof (intro impI conjI allI)
  assume wf: "owner_wf st"
  have owner: "owner_id st' j \<longleftrightarrow> owner_id st j" for j
    using assms(3) by (auto simp: owner_id_def assms(1))
  have "distinct (map fst (accounts st'))" "\<forall>a\<in>set (accounts st'). fst a < st_next_user st'"
    using wf assms(2) by (auto simp: owner_wf_def assms(1) distinct_map_filter)
  moreover have "accounts st' = [] \<or> (\<exists>j. (j, Owner, True) \<in> set (accounts st'))"
    using wf assms(3) by (auto simp: owner_wf_def owner_id_def assms(1))
  moreover have "\<forall>i j. owner_id st' i \<longrightarrow> owner_id st' j \<longrightarrow> i = j"
    using wf owner unfolding owner_wf_def by metis
  ultimately show "owner_wf st'" by (simp add: owner_wf_def)
  show "st_next_user st \<le> st_next_user st'" using assms(2) by simp
  show "owner_id st' j" if "owner_id st j" for j using owner that by simp
  show "owner_id st j" if "owner_id st' j" for j using owner that by simp
qed

lemma update_user_rows:
  assumes "db_update_user st i p n = Inr (st', u)"
  shows "st_users st' = st_users (set_row st i (update_row p n))" and "st_next_user st' = st_next_user st"
proof -
  let ?s = "(set_row st i (update_row p n))\<lparr>st_access := List.filter (\<lambda>(u, l). u \<noteq> i) (st_access st)\<rparr>"
  obtain s where s: "write_user_library_access ?s i (uu_library_ids p) = Inr s"
      and st': "st_users st' = st_users s" "st_next_user st' = st_next_user s"
    using assms by (auto simp: db_update_user_def result_simps split: option.splits if_splits)
  show "st_users st' = st_users (set_row st i (update_row p n))" "st_next_user st' = st_next_user st"
    using write_access_users [OF s] st' by (simp_all add: set_row_def)
qed

lemma update_user_accounts:
  assumes "db_update_user st i p n = Inr (st', u)"
  shows "accounts st' = map (\<lambda>a. if fst a = i then (i, uu_role p, uu_is_enabled p) else a) (accounts st)"
    and "st_next_user st' = st_next_user st"
  using update_user_rows [OF assms]
  by (simp_all add: accounts_def set_row_def update_row_def account_def row_id_def row_role_def)

lemma delete_user_accounts:
  "accounts (fst (db_delete_user st i)) = List.filter (\<lambda>a. fst a \<noteq> i) (accounts st)"
  "st_next_user (fst (db_delete_user st i)) = st_next_user st"
  by (simp_all add: db_delete_user_def Let_def accounts_def account_def filter_map comp_def)

subsection \<open>The management operations keep the owner\<close>

definition read_user :: "int \<Rightarrow> (application_error + user_profile) \<Rightarrow> user_store \<Rightarrow> bool" where
  "read_user i r st = (case r of Inl e \<Rightarrow> True | Inr u \<Rightarrow> known st i u)"

lemma get_user_rule: "rg owner_evolves (get_user i) st (read_user i)"
  unfolding get_user_def
  by (rule owner.bind_ok_rule [where Q = "\<lambda>u st. \<forall>v. u = Some v \<longrightarrow> known st i v"])
    (auto simp: read_user_def known_db_get_user ok_or_def intro!: owner.read_rule split: option.split)

lemma get_user_bind:
  assumes "owner_wf st"
    and "\<And>u st'. owner_wf st' \<Longrightarrow> owner_evolves st st' \<Longrightarrow> known st' i u \<Longrightarrow> keeps_owner (f u) st'"
  shows "keeps_owner (bind_ok (get_user i) f) st"
  by (rule owner.bind_ok_rule [where Q = "\<lambda>u st. known st i u"])
    (auto intro: rg_weaken [OF get_user_rule] assms owner.evolves_inv simp: read_user_def split: sum.splits)

lemma quiet_bind:
  assumes "owner_wf st" and "leaves_accounts p"
    and "\<And>x st'. owner_wf st' \<Longrightarrow> owner_evolves st st' \<Longrightarrow> keeps_owner (f x) st'"
  shows "keeps_owner (bind_ok p f) st"
  by (rule owner.bind_ok_rule [where Q = "\<lambda>x st. True"])
    (auto intro: rg_weaken [OF leaves_keeps_owner [OF assms(2)]] assms(1,3) owner.evolves_inv split: sum.split)

lemma check_bind: "(\<And>x. r = Inr x \<Longrightarrow> keeps_owner (f x) st) \<Longrightarrow> keeps_owner (bind_ok (Ret r) f) st"
  by (cases r) (simp_all add: bind_ok_def)

lemma write_rule:
  assumes "owner_wf st"
    and "\<And>st1 n st2 x. owner_wf st1 \<Longrightarrow> owner_evolves st st1 \<Longrightarrow> w st1 n = Inr (st2, x) \<Longrightarrow> owner_evolves st1 st2"
  shows "keeps_owner (try_exec h w) st"
  by (rule owner.try_exec_rule) (use owner.evolves_inv [OF assms(1)] assms(2) in \<open>blast+\<close>)

lemma scope_not_owner:
  "validate_user_management_scope actor target = Inr u \<Longrightarrow> role (profile_user target) \<noteq> Owner"
  by (cases "role (profile_user actor)")
    (auto simp: validate_user_management_scope_def user_management_level_def split: if_splits)

lemma assignment_not_owner: "validate_role_assignment actor r = Inr u \<Longrightarrow> r \<noteq> Owner"
  by (auto simp: validate_role_assignment_def split: if_splits)

lemma known_not_owner:
  "known st i u \<Longrightarrow> role (profile_user u) \<noteq> Owner \<Longrightarrow> owner_evolves st st' \<Longrightarrow> owner_wf st \<Longrightarrow> \<not> owner_id st' i"
proof -
  assume k: "known st i u" and r: "role (profile_user u) \<noteq> Owner" and ev: "owner_evolves st st'" and wf: "owner_wf st"
  have "owner_wf st'" using ev wf by (simp add: owner_evolves_def)
  then show ?thesis using known_evolves [OF k wf ev] r by (simp add: known_def)
qed

lemma bootstrap_keeps_owner: "owner_wf st \<Longrightarrow> keeps_owner (bootstrap_admin E input ttl) st"
proof -
  have w: "keeps_owner (bind_ok (try_exec map_user_write_error
        (\<lambda>st n. db_create_user (db_lower E) st p n)) (\<lambda>user. create_session_for_user E user ttl)) st"
    if "cu_role p = Owner" "cu_is_enabled p" for p st
    by (rule owner.bind_ok_rule [where Q = "\<lambda>x st. True"], rule owner.try_exec_rule)
      (use that in \<open>auto intro: create_user_evolves leaves_keeps_owner rows_accounts leaves_create_session\<close>)
  assume "owner_wf st"
  then show ?thesis
    unfolding bootstrap_admin_def
    by (intro quiet_bind reads_accounts(2) same_accounts_refl)
      (auto intro!: check_bind quiet_bind reads_accounts(3) same_accounts_refl w split: if_split)
qed

lemma create_user_keeps_owner:
  assumes "owner_wf st"
  shows "keeps_owner (create_user E a input) st"
proof -
  have w: "keeps_owner (bind_ok (validate_library_access r ids) (\<lambda>u.
        bind_ok (hash_password E pw) (\<lambda>h. try_exec map_user_write_error
          (\<lambda>st n. db_create_user (db_lower E) st (p h) n)))) st"
    if wf: "owner_wf st" and actor: "known st a u" and r: "\<And>h. cu_role (p h) \<noteq> Owner" for u p st ids r pw
  proof (intro quiet_bind reads_checks(1) same_accounts_refl reads_accounts(3) same_accounts_refl write_rule wf)
    fix st1 st2 h st3 n st4 x
    assume "owner_evolves st st1" "owner_evolves st1 st2" "owner_evolves st2 st3"
      and ok: "db_create_user (db_lower E) st3 (p h) n = Inr (st4, x)"
    then have ev: "owner_evolves st st3" using owner.evolves_trans by blast
    have "accounts st3 \<noteq> []"
      using known_evolves [OF actor wf ev] owner.evolves_inv [OF wf ev] by (simp add: known_def)
    then show "owner_evolves st3 st4" using create_user_evolves [OF ok] r by blast
  qed
  show ?thesis
    unfolding create_user_def Let_def
    by (intro check_bind get_user_bind assms w) (auto dest: assignment_not_owner)
qed

lemma target_not_owner:
  assumes "owner_wf st" and "known st i u" and "owner_evolves st st'"
    and "validate_user_management_scope v u = Inr x"
  shows "\<not> owner_id st' i \<and> i < st_next_user st'"
  using known_not_owner [OF assms(2) scope_not_owner [OF assms(4)] assms(3,1)] assms
  by (auto simp: known_def owner_evolves_def)

lemma update_user_keeps_owner:
  assumes "owner_wf st"
  shows "keeps_owner (update_user a i input) st"
proof -
  have w: "keeps_owner (bind_ok (validate_admin_retention existing r b) (\<lambda>u.
        bind_ok (validate_library_access r ids) (\<lambda>u. try_exec map_user_write_error
          (\<lambda>st n. db_update_user st i \<lparr>uu_role = r, uu_is_enabled = b, uu_library_ids = ids'\<rparr> n)))) st"
    if wf: "owner_wf st" and target: "\<not> owner_id st i" "i < st_next_user st" and r: "r \<noteq> Owner"
    for existing r b ids ids' st
  proof (intro quiet_bind reads_checks(2) reads_checks(1) same_accounts_refl write_rule wf)
    fix st1 st2 st3 n st4 x
    assume "owner_evolves st st1" "owner_evolves st1 st2" "owner_evolves st2 st3"
      and ok: "db_update_user st3 i \<lparr>uu_role = r, uu_is_enabled = b, uu_library_ids = ids'\<rparr> n = Inr (st4, x)"
    then have "owner_evolves st st3" using owner.evolves_trans by blast
    then have "\<not> owner_id st3 i" using target wf by (auto simp: owner_evolves_def)
    then show "owner_evolves st3 st4"
      using change_account_evolves [OF update_user_accounts [OF ok]] r by simp
  qed
  show ?thesis
    unfolding update_user_def Let_def
    by (intro check_bind get_user_bind assms w)
      (use target_not_owner in \<open>auto dest: assignment_not_owner\<close>)
qed

lemma delete_user_keeps_owner:
  assumes "owner_wf st"
  shows "keeps_owner (delete_user a i) st"
proof -
  have d: "keeps_owner (bind_ok (exec (\<lambda>st n. db_delete_user st i)) (\<lambda>b. Ret (ensure (user_not_found i) b))) st"
    if "owner_wf st" "\<not> owner_id st i" "i < st_next_user st" for st
  proof (rule owner.bind_ok_rule [where Q = "\<lambda>x st. True"], rule owner.exec_rule)
    fix st' n assume "owner_evolves st st'"
    then have "\<not> owner_id st' i" using that by (auto simp: owner_evolves_def)
    then show "owner_evolves st' (fst (db_delete_user st' i))
        \<and> (case Inr (snd (db_delete_user st' i)) of Inl (e :: application_error) \<Rightarrow> True | Inr x \<Rightarrow> True)"
      using remove_account_evolves [OF delete_user_accounts] by simp
  qed simp
  have w: "keeps_owner (bind_ok (validate_admin_retention existing r False)
        (\<lambda>u. bind_ok (exec (\<lambda>st n. db_delete_user st i)) (\<lambda>b. Ret (ensure (user_not_found i) b)))) st"
    if wf: "owner_wf st" and target: "\<not> owner_id st i" "i < st_next_user st" for existing r st
  proof (rule quiet_bind [OF wf reads_checks(2) [OF same_accounts_refl]])
    fix x st' assume "owner_wf st'" and ev: "owner_evolves st st'"
    moreover have "\<not> owner_id st' i" "i < st_next_user st'" using target wf ev by (auto simp: owner_evolves_def)
    ultimately show "keeps_owner (bind_ok (exec (\<lambda>st n. db_delete_user st i))
        (\<lambda>b. Ret (ensure (user_not_found i) b))) st'" by (intro d)
  qed
  show ?thesis
    unfolding delete_user_def
    by (auto intro!: check_bind get_user_bind assms w dest: target_not_owner)
qed

subsection \<open>Every request keeps the owner\<close>

lemma reply_keeps_owner:
  assumes "keeps_owner p st"
  shows "keeps_owner (reply_with f p) st"
  unfolding reply_with_def api_def
  by (rule owner.bind_ok_rule [where Q = "\<lambda>x st. True"],
      rule owner.bind_rule [OF assms]) (auto split: sum.split)

text \<open>The requests that change no row, the ones on the own row, and the management requests.\<close>

fun sessions_only :: "request \<Rightarrow> bool" where
  "sessions_only (BootstrapAdmin input) = False"
| "sessions_only (UpdateOwnProfile c nick) = False"
| "sessions_only (ChangePassword c current new) = False"
| "sessions_only (CreateUser c input) = False"
| "sessions_only (UpdateUser c i input) = False"
| "sessions_only (ResetUserPassword c i new) = False"
| "sessions_only (DeleteUser c i) = False"
| "sessions_only _ = True"

lemma handle_leaves_rows: "sessions_only r \<Longrightarrow> leaves_rows (handle E decode r)"
  by (cases r) (auto intro!: leaves_require leaves_reply leaves_logout each_rules leaves_login leaves_native_login
      leaves_refresh reads_rules)

lemma acting_leaves_accounts:
  assumes "\<And>u. \<exists>i. each (touches_row i) (p u)"
  shows "leaves_accounts (bind_ok (require_user E c) (\<lambda>u. reply_with f (p u)))"
    and "leaves_accounts (bind_ok (require_admin E c) (\<lambda>u. reply_with f (p u)))"
proof -
  have "leaves_accounts (p u)" for u using assms row_accounts by blast
  then show "leaves_accounts (bind_ok (require_user E c) (\<lambda>u. reply_with f (p u)))"
    and "leaves_accounts (bind_ok (require_admin E c) (\<lambda>u. reply_with f (p u)))"
    by (auto intro!: each_bind_ok leaves_reply require_accounts)
qed

lemma handle_leaves_accounts:
  assumes "\<And>input. r \<noteq> BootstrapAdmin input" and "\<And>c input. r \<noteq> CreateUser c input"
    and "\<And>c i input. r \<noteq> UpdateUser c i input" and "\<And>c i. r \<noteq> DeleteUser c i"
  shows "leaves_accounts (handle E decode r)"
proof (cases "sessions_only r")
  case True
  then show ?thesis by (intro rows_accounts handle_leaves_rows)
next
  case False
  then show ?thesis
    using assms
    by (cases r) (auto intro!: acting_leaves_accounts exI touches_own_profile touches_change_password
        touches_reset_password)
qed

lemma handle_keeps_owner:
  assumes "owner_wf st"
  shows "keeps_owner (handle E decode r) st"
proof (cases "leaves_accounts (handle E decode r)")
  case True
  then show ?thesis by (rule leaves_keeps_owner)
next
  case False
  then consider input where "r = BootstrapAdmin input" | c input where "r = CreateUser c input"
    | c i input where "r = UpdateUser c i input" | c i where "r = DeleteUser c i"
    using handle_leaves_accounts by blast
  then show ?thesis
    using assms
    by cases (auto intro!: quiet_bind require_accounts reply_keeps_owner bootstrap_keeps_owner
        create_user_keeps_owner update_user_keeps_owner delete_user_keeps_owner)
qed

lemma task_keeps_owner: "server_task E decode p \<Longrightarrow> owner_wf st \<Longrightarrow> keeps_owner p st"
proof (induction rule: server_task.induct)
  case (request r)
  show ?case by (rule owner.bind_rule [OF handle_keeps_owner [OF request]]) simp
next
  case housekeeping
  show ?case unfolding run_cleanup_def
    by (intro leaves_keeps_owner each_bind rows_accounts leaves_cleanup each_Ret)
next
  case (library_added l)
  show ?case by (intro leaves_keeps_owner each_stmt) (simp add: add_library_def same_accounts_def accounts_def)
next
  case (library_dropped l)
  show ?case by (intro leaves_keeps_owner each_stmt) (simp add: drop_library_def same_accounts_def accounts_def)
qed

lemma reachable_owner_wf: "reachable E decode st \<Longrightarrow> owner_wf st"
proof -
  have "owner_wf empty_store" by (simp add: owner_wf_def empty_store_def accounts_def owner_id_def)
  moreover assume "reachable E decode st"
  ultimately show ?thesis
    using owner.reach_evolves [of "server_task E decode" empty_store st] task_keeps_owner owner.evolves_inv
    unfolding reachable_def by blast
qed

lemma owner_row: "x \<in> set (st_users st) \<Longrightarrow> row_role x = Owner \<Longrightarrow> owner_id st (row_id x)"
proof -
  assume "x \<in> set (st_users st)" and r: "row_role x = Owner"
  then have "account x \<in> set (accounts st)" by (simp add: accounts_def)
  then show ?thesis using r by (auto simp: owner_id_def account_def)
qed

text \<open>
  C22. Whatever requests, housekeeping runs and library changes interleave, with any of them
  dropped half-way: as soon as there is a user there is exactly one owner, and the owner is
  enabled. So the server can never lock its administrators out.
\<close>

theorem one_enabled_owner:
  assumes "reachable E decode st" and "st_users st \<noteq> []"
  shows "\<exists>r. {x \<in> set (st_users st). row_role x = Owner} = {r} \<and> is_enabled (row_user r)"
proof -
  have wf: "owner_wf st" by (rule reachable_owner_wf [OF assms(1)])
  then have "\<exists>i. (i, Owner, True) \<in> set (accounts st)" using assms(2) by (simp add: owner_wf_def accounts_def)
  then obtain r where r: "r \<in> set (st_users st)" "row_role r = Owner" "is_enabled (row_user r)"
    by (auto simp: accounts_def account_def)
  have "x = r" if "x \<in> set (st_users st)" "row_role x = Owner" for x
  proof -
    have "owner_id st (row_id x)" "owner_id st (row_id r)"
      using that r by (simp_all add: owner_row)
    then have "row_id x = row_id r" using wf by (auto simp: owner_wf_def)
    moreover have "inj_on row_id (set (st_users st))"
      using wf by (simp add: owner_wf_def accounts_def account_def comp_def distinct_map)
    ultimately show ?thesis using that r by (auto dest: inj_onD)
  qed
  then show ?thesis using r by blast
qed

text \<open>A server whose password hash is the password and whose token hash is the token.\<close>

definition demo_env :: auth_env where
  "demo_env =
     \<lparr>lowercase = to_ascii_lowercase, db_lower = to_ascii_lowercase,
      argon2_hash = (\<lambda>p salt. Some p), argon2_verify = (\<lambda>h p. Some (h = p)),
      sha256 = (\<lambda>b. take 32 (b @ replicate 32 0)), uuid_text = (\<lambda>b. b)\<rparr>"

definition demo_tick :: "nat \<Rightarrow> tick" where
  "demo_tick n = \<lparr>tk_now = n, tk_random = [n], tk_lock = True\<rparr>"

lemmas request_eval = run_def reply_with_def api_def Let_def str_eval to_ascii_lowercase_def to_ascii_lower_def
  is_ascii_upper_def normalize_username_def
  normalize_nickname_def normalize_username_key_def MAX_USERNAME_LENGTH_def MAX_NICKNAME_LENGTH_def
  validate_password_def MIN_PASSWORD_LENGTH_def hash_password_def db_create_user_def new_user_row_def
  user_row_ok_def user_row_unique_def btrim_def create_session_for_user_def create_session_def token_hash_ok_def
  hash_token_def hex_encode_def hex_digit_def utf8_bytes_def utf8_char_def byte_len_def utf8_width_def
  user_exists_def find_user_def row_id_def row_role_def demo_env_def demo_tick_def empty_store_def SESSION_TTL_def

text \<open>The request that creates the owner.\<close>

definition boot :: request where
  "boot = (BootstrapAdmin \<lparr>bi_username = lit ''root'', bi_password = lit ''password''\<rparr>)"
lemma boot_run: "st_users (fst (run (handle demo_env (decode :: nat list \<Rightarrow> ustr option option) boot) demo_tick empty_store)) = [
  \<lparr>row_user = \<lparr>user_id = 1, username = lit ''root'', nickname = lit ''root'', role = Owner,
       is_enabled = True, created_at = 2, updated_at = 2\<rparr>, username_normalized = lit ''root'', password_hash = lit ''password''\<rparr>]"
  by (simp add: boot_def bootstrap_admin_def bootstrap_required_def count_admin_users_def request_eval)

lemma reachable_request:
  "reachable E decode (fst (run (bind (handle E decode r) (\<lambda>x. Ret ())) ts empty_store))"
proof -
  let ?p = "bind (handle E decode r) (\<lambda>x. Ret ())"
  have "reach (server_task E decode) empty_store empty_store [?p]"
    by (intro reach.start reach.init server_task.request)
  from reach_run [OF this, of ts] show ?thesis unfolding reachable_def by blast
qed

theorem one_enabled_owner_witness:
  "let st = fst (run (bind (handle demo_env (\<lambda>b. None) boot) (\<lambda>x. Ret ())) demo_tick empty_store)
   in \<exists>r. {x \<in> set (st_users st). row_role x = Owner} = {r} \<and> is_enabled (row_user r)"
proof -
  let ?p = "bind (handle demo_env (\<lambda>b. None) boot) (\<lambda>x. Ret ())"
  have r: "reachable demo_env (\<lambda>b. None) (fst (run ?p demo_tick empty_store))"
    by (rule reachable_request)
  have "st_users (fst (run ?p demo_tick empty_store)) \<noteq> []"
    using boot_run by (simp add: run_def case_prod_beta)
  from one_enabled_owner [OF r this] show ?thesis by (simp add: Let_def)
qed
end
