(* ===== verification/User_Ranks.thy ===== *)
theory User_Ranks
  imports User_Invariants
begin

text \<open>
  Who can change an account: apart from the bootstrap, a request run to its end only changes
  the row of the user it authenticates as, or rows of a lower rank. Also what becomes of an
  account whose name is longer than a nickname may be.
\<close>

subsection \<open>Effects of handlers that run alone\<close>

lemma rows_eval: "leaves_rows p \<Longrightarrow> st_users (fst (snd (eval p ts st))) = st_users st"
  using each_eval [of same_rows p st ts] by (simp add: same_rows_def)

lemma find_map_row:
  assumes "\<And>r. row_id (f r) = row_id r"
  shows "find (\<lambda>r. row_id r = j) (map (\<lambda>r. if row_id r = i then f r else r) rs) =
    map_option (\<lambda>r. if j = i then f r else r) (find (\<lambda>r. row_id r = j) rs)"
  by (induction rs) (auto simp: assms)

lemma touches_find_user:
  assumes "touches_row i s s'"
  shows "j \<noteq> i \<Longrightarrow> find_user s' j = find_user s j"
    and "map_option account (find_user s' j) = map_option account (find_user s j)"
proof -
  obtain f where f: "\<And>r. account (f r) = account r"
      and u: "st_users s' = map (\<lambda>r. if row_id r = i then f r else r) (st_users s)"
    using assms by (auto simp: touches_row_def)
  have "row_id (f r) = row_id r" for r using f [of r] by (simp add: account_def)
  then have "find_user s' j = map_option (\<lambda>r. if j = i then f r else r) (find_user s j)"
    by (simp add: find_user_def u find_map_row)
  then show "j \<noteq> i \<Longrightarrow> find_user s' j = find_user s j"
    and "map_option account (find_user s' j) = map_option account (find_user s j)"
    by (cases "find_user s j", simp_all add: f)+
qed

lemma touches_eval:
  assumes "each (touches_row i) p"
  shows "j \<noteq> i \<Longrightarrow> find_user (fst (snd (eval p ts st))) j = find_user st j"
    and "map_option account (find_user (fst (snd (eval p ts st))) j) = map_option account (find_user st j)"
proof -
  define same where "same = (\<lambda>s s'. (j \<noteq> i \<longrightarrow> find_user s' j = find_user s j)
    \<and> map_option account (find_user s' j) = map_option account (find_user s j))"
  have "each same p"
    by (rule each_mono [OF assms]) (simp add: same_def touches_find_user)
  then have "same st (fst (snd (eval p ts st)))" by (rule each_eval [rotated 2]) (auto simp: same_def)
  then show "j \<noteq> i \<Longrightarrow> find_user (fst (snd (eval p ts st))) j = find_user st j"
    and "map_option account (find_user (fst (snd (eval p ts st))) j) = map_option account (find_user st j)"
    by (simp_all add: same_def)
qed

lemma touches_other:
  "each (touches_row j) p \<Longrightarrow> find_user (fst (snd (eval p ts st))) i \<noteq> find_user st i \<Longrightarrow> j = i"
  using touches_eval(1) by metis

text \<open>What a handler has behind it when it comes to change a row: all its reads went well.\<close>

lemma bind_effect:
  assumes "leaves_rows p" and "find_user (fst (snd (eval (bind_ok p f) ts st))) i \<noteq> find_user st i"
  obtains ts1 st1 x where "eval p ts st = (ts1, st1, Inr x)" and "st_users st1 = st_users st"
    and "find_user (fst (snd (eval (f x) ts1 st1))) i \<noteq> find_user st1 i"
    and "fst (snd (eval (bind_ok p f) ts st)) = fst (snd (eval (f x) ts1 st1))"
  using assms rows_eval [OF assms(1), of ts st]
  by (auto simp: find_user_def split: prod.splits sum.splits)

lemma check_effect:
  assumes "find_user (fst (snd (eval (bind_ok (Ret r) f) ts st))) i \<noteq> find_user st i"
  obtains x where "r = Inr x" and "find_user (fst (snd (eval (f x) ts st))) i \<noteq> find_user st i"
    and "fst (snd (eval (bind_ok (Ret r) f) ts st)) = fst (snd (eval (f x) ts st))"
  using assms by (cases r) auto

lemma get_user_effect:
  assumes "find_user (fst (snd (eval (bind_ok (get_user a) f) ts st))) i \<noteq> find_user st i"
  obtains ts1 r where "find_user st a = Some r"
    and "find_user (fst (snd (eval (f (profile_of_row st r)) ts1 st))) i \<noteq> find_user st i"
    and "fst (snd (eval (bind_ok (get_user a) f) ts st)) = fst (snd (eval (f (profile_of_row st r)) ts1 st))"
  using assms by (cases "find_user st a") (auto simp: get_user_def db_get_user_def)

lemma read_effect:
  assumes "each (\<lambda>s s'. s' = s) p"
    and "find_user (fst (snd (eval (bind_ok p f) ts st))) i \<noteq> find_user st i"
  obtains ts1 x where "find_user (fst (snd (eval (f x) ts1 st))) i \<noteq> find_user st i"
    and "fst (snd (eval (bind_ok p f) ts st)) = fst (snd (eval (f x) ts1 st))"
  using assms each_eval [of "\<lambda>s s'. s' = s" p st ts] by (auto split: prod.splits sum.splits)

lemma reply_effect:
  "fst (snd (eval (reply_with f p) ts st)) = fst (snd (eval p ts st))"
  by (simp add: reply_with_def api_def split: prod.split sum.split)

lemma level_of_row [simp]:
  "user_management_level (profile_of_row st r) = (case row_role r of Owner \<Rightarrow> 2 | Admin \<Rightarrow> 1 | Viewer \<Rightarrow> 0)"
  by (simp add: user_management_level_def profile_of_row_def row_role_def)

lemma role_of_row [simp]: "role (profile_user (profile_of_row st r)) = row_role r"
  by (simp add: profile_of_row_def row_role_def)

definition rank :: "user_role \<Rightarrow> nat" where
  "rank r = (case r of Owner \<Rightarrow> 2 | Admin \<Rightarrow> 1 | Viewer \<Rightarrow> 0)"

lemma assignment_rank: "validate_role_assignment actor r = Inr u \<Longrightarrow> rank r < user_management_level actor"
  by (cases r; cases "role (profile_user actor)")
    (auto simp: validate_role_assignment_def rank_def user_management_level_def split: if_splits)

lemma scope_rank:
  "validate_user_management_scope actor target = Inr u
    \<Longrightarrow> user_management_level target < user_management_level actor"
  by (auto simp: validate_user_management_scope_def split: if_splits)

text \<open>\<open>below a st st' i\<close>: user \<open>i\<close> ranks below user \<open>a\<close>, before and after.\<close>

definition below :: "int \<Rightarrow> user_store \<Rightarrow> user_store \<Rightarrow> int \<Rightarrow> bool" where
  "below a st st' i =
     (\<exists>actor. find_user st a = Some actor
        \<and> (\<forall>row. find_user st i = Some row \<or> find_user st' i = Some row
             \<longrightarrow> rank (row_role row) < rank (row_role actor)))"

lemma find_user_eq: "st_users st = st_users st' \<Longrightarrow> find_user st i = find_user st' i"
  by (simp add: find_user_def)

lemma find_user_row_id: "find_user st i = Some r \<Longrightarrow> row_id r = i"
  by (auto simp: find_user_def find_Some_iff)

lemma find_user_set_row:
  "(\<And>r. row_id (f r) = row_id r) \<Longrightarrow>
    find_user (set_row st i f) j = map_option (\<lambda>r. if j = i then f r else r) (find_user st j)"
  by (simp add: find_user_def set_row_def find_map_row)

lemma update_user_below:
  assumes "find_user (fst (snd (eval (update_user a i input) ts st))) j \<noteq> find_user st j"
  shows "below a st (fst (snd (eval (update_user a i input) ts st))) j"
proof -
  let ?st' = "fst (snd (eval (update_user a i input) ts st))"
  obtain target actor r p n u where
      t: "find_user st i = Some target" and a: "find_user st a = Some actor"
      and scope: "validate_user_management_scope (profile_of_row st actor) (profile_of_row st target) = Inr ()"
      and assign: "validate_role_assignment (profile_of_row st actor) r = Inr ()"
      and w: "db_update_user st i p n = Inr (?st', u)" "uu_role p = r"
    using assms unfolding update_user_def Let_def
    by (elim get_user_effect check_effect read_effect [OF reads_checks(2) [of "\<lambda>s s'. s' = s", OF refl]]
          read_effect [OF reads_checks(1) [of "\<lambda>s s'. s' = s", OF refl]])
      (auto split: sum.splits)
  have "find_user ?st' k = map_option (\<lambda>r. if k = i then update_row p n r else r) (find_user st k)" for k
    using find_user_eq [OF update_user_rows(1) [OF w(1)]]
    by (simp add: find_user_set_row update_row_def row_id_def)
  moreover from this have "j = i" using assms by (cases "j = i") (simp_all add: option.map_ident)
  ultimately show ?thesis
    using t a scope_rank [OF scope] assignment_rank [OF assign] w(2)
    by (auto simp: below_def rank_def update_row_def row_role_def)
qed

lemma find_filter_row:
  "find (\<lambda>r. row_id r = j) (List.filter (\<lambda>r. row_id r \<noteq> i) rs) =
    (if j = i then None else find (\<lambda>r. row_id r = j) rs)"
  by (induction rs) auto

lemma delete_user_below:
  assumes "find_user (fst (snd (eval (delete_user a i) ts st))) j \<noteq> find_user st j"
  shows "below a st (fst (snd (eval (delete_user a i) ts st))) j"
proof -
  let ?st' = "fst (snd (eval (delete_user a i) ts st))"
  have "a \<noteq> i" using assms by (auto simp: delete_user_def)
  then obtain target actor where
      t: "find_user st i = Some target" and a: "find_user st a = Some actor"
      and scope: "validate_user_management_scope (profile_of_row st actor) (profile_of_row st target) = Inr ()"
      and w: "?st' = fst (db_delete_user st i)"
    using assms unfolding delete_user_def if_not_P [OF \<open>a \<noteq> i\<close>]
    by (elim get_user_effect check_effect read_effect [OF reads_checks(2) [of "\<lambda>s s'. s' = s", OF refl]])
      (auto simp: case_prod_beta split: sum.splits)
  have "find_user ?st' k = (if k = i then None else find_user st k)" for k
    by (simp add: w find_user_def db_delete_user_def Let_def find_filter_row)
  moreover from this have "j = i" using assms by (auto split: if_splits)
  ultimately show ?thesis
    using t a scope_rank [OF scope] by (auto simp: below_def rank_def)
qed

lemma reset_password_below:
  assumes "find_user (fst (snd (eval (reset_user_password E a i pw) ts st))) j \<noteq> find_user st j"
  shows "below a st (fst (snd (eval (reset_user_password E a i pw) ts st))) j"
proof -
  let ?st' = "fst (snd (eval (reset_user_password E a i pw) ts st))"
  have "j = i" using assms touches_eval [OF touches_reset_password] by blast
  have "a \<noteq> i" using assms by (auto simp: reset_user_password_def)
  then obtain target actor where
      t: "find_user st i = Some target" and a: "find_user st a = Some actor"
      and scope: "validate_user_management_scope (profile_of_row st actor) (profile_of_row st target) = Inr ()"
    using assms unfolding reset_user_password_def if_not_P [OF \<open>a \<noteq> i\<close>]
    by (elim get_user_effect check_effect) auto
  have "map_option account (find_user ?st' i) = map_option account (find_user st i)"
    by (rule touches_eval [OF touches_reset_password])
  then have "row_role r = row_role target" if "find_user ?st' i = Some r" for r
    using t that by (simp add: account_def)
  then show ?thesis
    using t a scope_rank [OF scope] \<open>j = i\<close> by (auto simp: below_def rank_def)
qed

lemma find_snoc: "find P (xs @ [y]) = (case find P xs of None \<Rightarrow> (if P y then Some y else None) | Some x \<Rightarrow> Some x)"
  by (induction xs) auto

lemma create_user_below:
  assumes "find_user (fst (snd (eval (create_user E a input) ts st))) j \<noteq> find_user st j"
  shows "below a st (fst (snd (eval (create_user E a input) ts st))) j"
proof -
  let ?st' = "fst (snd (eval (create_user E a input) ts st))"
  obtain actor r p n u where a: "find_user st a = Some actor"
      and assign: "validate_role_assignment (profile_of_row st actor) r = Inr ()"
      and w: "db_create_user (db_lower E) st p n = Inr (?st', u)" "cu_role p = r"
    using assms unfolding create_user_def Let_def
    by (elim get_user_effect check_effect read_effect [OF reads_checks(1) [of "\<lambda>s s'. s' = s", OF refl]]
          read_effect [OF reads_accounts(3) [of "\<lambda>s s'. s' = s", OF refl]])
      (auto split: sum.splits)
  have "st_users ?st' = st_users st @ [new_user_row st p n]"
    using w(1) write_access_users by (auto simp: db_create_user_def Let_def result_simps split: if_splits)
  then have "find_user ?st' j = (case find_user st j of
      None \<Rightarrow> (if row_id (new_user_row st p n) = j then Some (new_user_row st p n) else None) | Some r \<Rightarrow> Some r)"
    by (simp add: find_user_def find_snoc)
  then show ?thesis
    using a assms assignment_rank [OF assign] w(2)
    by (auto simp: below_def rank_def new_user_row_def row_role_def split: option.splits if_splits)
qed

subsection \<open>Every request\<close>

fun credentials_of :: "request \<Rightarrow> credentials option" where
  "credentials_of (Logout c body) = Some c"
| "credentials_of (CurrentUser c) = Some c"
| "credentials_of (UpdateOwnProfile c nick) = Some c"
| "credentials_of (ChangePassword c current new) = Some c"
| "credentials_of (ListUsers c) = Some c"
| "credentials_of (CreateUser c input) = Some c"
| "credentials_of (UpdateUser c i input) = Some c"
| "credentials_of (ResetUserPassword c i new) = Some c"
| "credentials_of (DeleteUser c i) = Some c"
| "credentials_of _ = None"

text \<open>The user a request authenticates as, when it starts with these tables and ticks.\<close>

definition authenticates :: "auth_env \<Rightarrow> request \<Rightarrow> (nat \<Rightarrow> tick) \<Rightarrow> user_store \<Rightarrow> user_profile \<Rightarrow> bool" where
  "authenticates E r ts st u =
     (case credentials_of r of None \<Rightarrow> False | Some c \<Rightarrow> snd (run (require_user E c) ts st) = Inr u)"

lemma require_user_effect:
  assumes "find_user (fst (snd (eval (bind_ok (require_user E c) f) ts st))) i \<noteq> find_user st i"
  obtains ts1 st1 u where "snd (run (require_user E c) ts st) = Inr u" and "st_users st1 = st_users st"
    and "find_user (fst (snd (eval (f u) ts1 st1))) i \<noteq> find_user st1 i"
    and "fst (snd (eval (bind_ok (require_user E c) f) ts st)) = fst (snd (eval (f u) ts1 st1))"
  using assms by (rule bind_effect [OF leaves_require(1)]) (simp add: run_def)

lemma require_admin_effect:
  assumes "find_user (fst (snd (eval (bind_ok (require_admin E c) f) ts st))) i \<noteq> find_user st i"
  obtains ts1 st1 u where "snd (run (require_user E c) ts st) = Inr u" and "st_users st1 = st_users st"
    and "find_user (fst (snd (eval (f u) ts1 st1))) i \<noteq> find_user st1 i"
    and "fst (snd (eval (bind_ok (require_admin E c) f) ts st)) = fst (snd (eval (f u) ts1 st1))"
proof (rule bind_effect [OF leaves_require(2) assms])
  fix ts1 st1 u
  assume "eval (require_admin E c) ts st = (ts1, st1, Inr u)"
  then have "snd (run (require_user E c) ts st) = Inr u"
    by (auto simp: require_admin_def run_def split: prod.splits sum.splits if_splits)
  moreover assume "st_users st1 = st_users st"
    and "find_user (fst (snd (eval (f u) ts1 st1))) i \<noteq> find_user st1 i"
    and "fst (snd (eval (bind_ok (require_admin E c) f) ts st)) = fst (snd (eval (f u) ts1 st1))"
  ultimately show thesis by (rule that)
qed

lemma below_rows: "st_users st1 = st_users st \<Longrightarrow> below a st1 st' i \<Longrightarrow> below a st st' i"
  by (simp add: below_def find_user_def)

text \<open>
  C23. Nobody touches an account that is not of a lower rank: when a request has changed, added
  or removed the row of a user, it was the bootstrap of a server without administrators, or it
  authenticated as that very user, or as a user who ranks above the row, both as it was and as
  it is now. In particular no administrator makes another one, or ends up with a higher role.
\<close>

theorem changes_are_authorized:
  assumes "find_user (fst (run (handle E decode r) ts st)) i \<noteq> find_user st i"
  shows "(\<exists>input. r = BootstrapAdmin input \<and> count_admin_users st = 0)
    \<or> (\<exists>u. authenticates E r ts st u
          \<and> (acting_id u = i \<or> below (acting_id u) st (fst (run (handle E decode r) ts st)) i))"
proof (cases r)
  case (BootstrapAdmin input)
  have "count_admin_users st = 0"
  proof (rule ccontr)
    assume "count_admin_users st \<noteq> 0"
    then show False using assms by (simp add: BootstrapAdmin run_def reply_effect bootstrap_admin_def bootstrap_required_def)
  qed
  then show ?thesis by (simp add: BootstrapAdmin)
next
  case (UpdateOwnProfile c nick)
  show ?thesis
    using assms unfolding UpdateOwnProfile run_def handle_unfold
    by (elim require_user_effect) (auto simp: authenticates_def reply_effect run_def
      dest: touches_other [OF touches_own_profile])
next
  case (ChangePassword c current new)
  show ?thesis
    using assms unfolding ChangePassword run_def handle_unfold
    by (elim require_user_effect) (auto simp: authenticates_def reply_effect run_def
      dest: touches_other [OF touches_change_password])
next
  case (CreateUser c input)
  show ?thesis
    using assms unfolding CreateUser run_def handle_unfold
    by (elim require_admin_effect) (auto simp: authenticates_def reply_effect run_def
      intro: below_rows create_user_below)
next
  case (UpdateUser c j input)
  show ?thesis
    using assms unfolding UpdateUser run_def handle_unfold
    by (elim require_admin_effect) (auto simp: authenticates_def reply_effect run_def
      intro: below_rows update_user_below)
next
  case (ResetUserPassword c j new)
  show ?thesis
    using assms unfolding ResetUserPassword run_def handle_unfold
    by (elim require_admin_effect) (auto simp: authenticates_def reply_effect run_def
      intro: below_rows reset_password_below)
next
  case (DeleteUser c j)
  show ?thesis
    using assms unfolding DeleteUser run_def handle_unfold
    by (elim require_admin_effect) (auto simp: authenticates_def reply_effect run_def
      intro: below_rows delete_user_below)
qed (use assms rows_eval [OF handle_leaves_rows, of r E decode ts st] in \<open>simp_all add: run_def find_user_def\<close>)

text \<open>The owner, logged in on the web, makes an administrator.\<close>

definition demo_store :: user_store where
  "demo_store = empty_store
     \<lparr>st_users := [\<lparr>row_user = \<lparr>user_id = 1, username = lit ''root'', nickname = lit ''root'', role = Owner,
                      is_enabled = True, created_at = 0, updated_at = 0\<rparr>,
                    username_normalized = lit ''root'', password_hash = lit ''password''\<rparr>],
      st_next_user := 2,
      st_web := [\<lparr>ws_token_hash = hash_token demo_env (lit ''cookie''), ws_user_id = 1,
                   ws_expires_at = 100, ws_created_at = 0, ws_last_seen_at = 0\<rparr>]\<rparr>"

definition demo_cookie :: credentials where
  "demo_cookie = \<lparr>authorization = None, session_cookie = Some (lit ''cookie'')\<rparr>"

definition demo_create :: request where
  "demo_create = CreateUser demo_cookie
     \<lparr>cr_username = lit ''anna'', cr_password = lit ''password'', cr_role = lit ''admin'',
      cr_is_enabled = None, cr_library_ids = None\<rparr>"

lemma demo_create_run:
  "find_user (fst (run (handle demo_env (\<lambda>b. None) demo_create) demo_tick demo_store)) 2 \<noteq> find_user demo_store 2"
  by (simp add: request_eval demo_store_def demo_create_def demo_cookie_def require_admin_def require_user_def
      require_auth_context_def request_auth_credential_def bearer_token_def session_token_def
      authenticate_credential_def get_user_session_def get_user_by_session_token_hash_def create_user_def
      profile_is_admin_def profile_of_row_def get_user_def db_get_user_def validate_role_assignment_def
      normalize_user_role_def validate_library_access_def normalize_library_ids_def list_library_ids_for_user_def)

theorem changes_are_authorized_witness:
  "authenticates demo_env demo_create demo_tick demo_store (profile_of_row demo_store (hd (st_users demo_store)))
    \<and> below 1 demo_store (fst (run (handle demo_env (\<lambda>b. None) demo_create) demo_tick demo_store)) 2"
proof -
  have a: "authenticates demo_env demo_create demo_tick demo_store (profile_of_row demo_store (hd (st_users demo_store)))"
    by (simp add: authenticates_def demo_create_def request_eval demo_store_def demo_cookie_def require_user_def
        require_auth_context_def request_auth_credential_def bearer_token_def session_token_def
        authenticate_credential_def get_user_session_def get_user_by_session_token_hash_def profile_of_row_def)
  moreover have "acting_id u = 1" if "authenticates demo_env demo_create demo_tick demo_store u" for u
    using that a by (auto simp: authenticates_def demo_create_def profile_of_row_def demo_store_def)
  ultimately show ?thesis
    using changes_are_authorized [OF demo_create_run] by (auto simp: demo_create_def)
qed

end
