(* ===== verification/User_Access.thy ===== *)
theory User_Access
  imports User_Ranks
begin

text \<open>
  What a session is worth: whom a request can authenticate as, what ends sessions, and what
  using a refresh token twice does. Also what becomes of an account whose name is longer than
  a nickname may be.
\<close>

subsection \<open>Authentication\<close>

text \<open>The session that stands behind a credential at some time.\<close>

fun vouches :: "auth_env \<Rightarrow> user_store \<Rightarrow> nat \<Rightarrow> auth_credential \<Rightarrow> int \<Rightarrow> bool" where
  "vouches E st now (Bearer token) i =
     list_ex (\<lambda>n. access_token_hash n = hash_token E token \<and> ns_user_id n = i \<and> revoked_at n = None
        \<and> now < access_token_expires_at n) (st_native st)"
| "vouches E st now (SessionCookie token) i =
     list_ex (\<lambda>w. ws_token_hash w = hash_token E token \<and> ws_user_id w = i \<and> now < ws_expires_at w) (st_web st)"

lemma native_access_sound:
  assumes "snd (run (get_native_access_session E t) ts st) = Inr s"
  shows "\<exists>row. find_user st (acting_id (au_user s)) = Some row \<and> au_user s = profile_of_row st row
    \<and> is_enabled (row_user row) \<and> vouches E st (tk_now (ts 1)) (Bearer t) (acting_id (au_user s))"
proof -
  obtain n where found: "find (\<lambda>n. access_token_hash n = hash_token E t \<and> user_exists st (ns_user_id n)) (st_native st) = Some n"
    using assms by (auto simp: run_def get_native_access_session_def get_user_by_native_access_token_hash_def
        native_session_user_select_def split: option.splits)
  then have n: "n \<in> set (st_native st)" "access_token_hash n = hash_token E t" "user_exists st (ns_user_id n)"
    by (auto simp: find_Some_iff)
  then obtain row where row: "find_user st (ns_user_id n) = Some row" by (auto simp: user_exists_def)
  have id: "user_id (row_user row) = ns_user_id n" using find_user_row_id [OF row] by (simp add: row_id_def)
  have "au_user s = profile_of_row st row \<and> revoked_at n = None \<and> tk_now (ts 1) < access_token_expires_at n
      \<and> is_enabled (row_user row)"
    using assms found row
    by (auto simp: run_def get_native_access_session_def get_user_by_native_access_token_hash_def
        native_session_user_select_def profile_of_row_def split: if_splits)
  then show ?thesis using n row id by (auto simp: profile_of_row_def list_ex_iff)
qed

lemma web_access_sound:
  assumes "snd (run (get_user_session E t) ts st) = Inr s"
  shows "\<exists>row. find_user st (acting_id (au_user s)) = Some row \<and> au_user s = profile_of_row st row
    \<and> is_enabled (row_user row) \<and> vouches E st (tk_now (ts 0)) (SessionCookie t) (acting_id (au_user s))"
proof -
  let ?now = "tk_now (ts 0)"
  obtain w where found: "find (\<lambda>w. ws_token_hash w = hash_token E t \<and> ?now < ws_expires_at w
      \<and> user_exists st (ws_user_id w)) (st_web st) = Some w"
    using assms by (auto simp: run_def get_user_session_def get_user_by_session_token_hash_def split: option.splits)
  then have w: "w \<in> set (st_web st)" "ws_token_hash w = hash_token E t" "?now < ws_expires_at w"
      "user_exists st (ws_user_id w)"
    by (auto simp: find_Some_iff)
  then obtain row where row: "find_user st (ws_user_id w) = Some row" by (auto simp: user_exists_def)
  have id: "user_id (row_user row) = ws_user_id w" using find_user_row_id [OF row] by (simp add: row_id_def)
  have "au_user s = profile_of_row st row \<and> is_enabled (row_user row)"
    using assms found row
    by (auto simp: run_def get_user_session_def get_user_by_session_token_hash_def profile_of_row_def split: if_splits)
  then show ?thesis using w row id by (auto simp: profile_of_row_def list_ex_iff)
qed

lemma require_user_session:
  assumes "snd (run (require_user E c) ts st) = Inr u"
  obtains (native) t s where "request_auth_credential c = Inr (Bearer t)" and "u = au_user s"
      and "snd (run (get_native_access_session E t) ts st) = Inr s"
  | (web) t s where "request_auth_credential c = Inr (SessionCookie t)" and "u = au_user s"
      and "snd (run (get_user_session E t) ts st) = Inr s"
proof (cases "request_auth_credential c")
  case (Inl e)
  then show thesis using assms by (simp add: run_def require_user_def require_auth_context_def)
next
  case (Inr credential)
  then show thesis
    using assms that by (cases credential) (auto simp: run_def require_user_def require_auth_context_def
        authenticate_credential_def api_def result_simps split: prod.splits sum.splits)
qed

text \<open>
  C24. A request is only served as a user who exists and is enabled, with the role and the grants
  in the tables, and only on the strength of
  a session of that user that is stored under the hash of the presented token, has not been
  revoked and has not expired by the clock at that point.
\<close>

theorem authenticated_user_sound:
  assumes "snd (run (require_user E c) ts st) = Inr u"
  shows "\<exists>credential row. request_auth_credential c = Inr credential
    \<and> find_user st (acting_id u) = Some row \<and> u = profile_of_row st row \<and> is_enabled (row_user row)
    \<and> vouches E st (tk_now (ts (case credential of Bearer t \<Rightarrow> 1 | SessionCookie t \<Rightarrow> 0))) credential (acting_id u)"
  using assms
proof (cases rule: require_user_session)
  case (native t s)
  then show ?thesis using native_access_sound by fastforce
next
  case (web t s)
  then show ?thesis using web_access_sound by fastforce
qed

lemma demo_authenticates:
  "snd (run (require_user demo_env demo_cookie) demo_tick demo_store) = Inr (profile_of_row demo_store (hd (st_users demo_store)))"
  by (simp add: request_eval demo_store_def demo_cookie_def require_user_def
      require_auth_context_def request_auth_credential_def bearer_token_def session_token_def
      authenticate_credential_def get_user_session_def get_user_by_session_token_hash_def profile_of_row_def)

theorem authenticated_user_sound_witness:
  "\<exists>credential. vouches demo_env demo_store (tk_now (demo_tick (case credential of Bearer t \<Rightarrow> 1 | SessionCookie t \<Rightarrow> 0)))
     credential 1"
proof -
  have "acting_id (profile_of_row demo_store (hd (st_users demo_store))) = 1"
    by (simp add: profile_of_row_def demo_store_def)
  then show ?thesis using authenticated_user_sound [OF demo_authenticates] by auto
qed

subsection \<open>The end of sessions\<close>

text \<open>All sessions of user \<open>i\<close> are gone or revoked, but the web sessions with a hash in \<open>keep\<close>.\<close>

definition signed_out :: "ustr list \<Rightarrow> user_store \<Rightarrow> int \<Rightarrow> bool" where
  "signed_out keep st i =
     (list_all (\<lambda>w. ws_user_id w = i \<longrightarrow> ws_token_hash w \<in> set keep) (st_web st)
      \<and> list_all (\<lambda>n. ns_user_id n = i \<longrightarrow> revoked_at n \<noteq> None) (st_native st))"

lemma signed_out_revoke_all: "signed_out [] (revoke_all_sessions st i n) i"
proof -
  let ?s = "revoke_all_sessions st i n"
  have web: "st_web ?s = List.filter (\<lambda>w. ws_user_id w \<noteq> i) (st_web st)"
    by (simp add: revoke_all_sessions_def revoke_native_client_sessions_for_user_def revoke_where_def delete_web_where_def)
  have native: "st_native ?s = map (\<lambda>x. if ns_user_id x = i
      then x\<lparr>revoked_at := Some (case revoked_at x of None \<Rightarrow> n | Some t \<Rightarrow> t)\<rparr> else x) (st_native st)"
    by (simp add: revoke_all_sessions_def revoke_native_client_sessions_for_user_def revoke_where_def delete_web_where_def)
  have "list_all (\<lambda>w. ws_user_id w = i \<longrightarrow> ws_token_hash w \<in> set []) (st_web ?s)"
    unfolding web by (simp add: list_all_iff)
  moreover have "list_all (\<lambda>x. ns_user_id x = i \<longrightarrow> revoked_at x \<noteq> None) (st_native ?s)"
    unfolding native list.pred_map comp_def by (simp add: list_all_iff)
  ultimately show ?thesis unfolding signed_out_def ..
qed

lemma signed_out_create_session:
  assumes "create_session st p n = Inr st'" and "signed_out [] st i"
  shows "signed_out [cs_token_hash p] st' i"
proof -
  have "\<exists>w. ws_token_hash w = cs_token_hash p \<and> st_web st' = st_web st @ [w] \<and> st_native st' = st_native st"
    using assms(1) unfolding create_session_def by (simp split: if_splits) auto
  then show ?thesis using assms(2) by (auto simp: signed_out_def list_all_iff)
qed

lemma signed_out_password:
  assumes "update_user_password_and_revoke_sessions st i h c n = Inr st'"
  shows "signed_out (case c of None \<Rightarrow> [] | Some p \<Rightarrow> [cs_token_hash p]) st' i"
proof -
  let ?s = "revoke_all_sessions (set_row st i (\<lambda>r. r\<lparr>password_hash := h, row_user := (row_user r)\<lparr>updated_at := n\<rparr>\<rparr>)) i n"
  have "(case c of None \<Rightarrow> Inr ?s | Some p \<Rightarrow> create_session ?s p n) = Inr st'"
    using assms by (simp add: update_user_password_and_revoke_sessions_def Let_def split: if_splits)
  moreover have "signed_out [] ?s i" by (rule signed_out_revoke_all)
  ultimately show ?thesis using signed_out_create_session by (cases c) auto
qed

lemma signed_out_update:
  "db_update_user st i p n = Inr (st', u) \<Longrightarrow> \<not> is_enabled (profile_user u) \<Longrightarrow> signed_out [] st' i"
  by (auto simp: db_update_user_def result_simps signed_out_revoke_all update_row_def split: option.splits if_splits)

lemma signed_out_delete: "map_prod id f (db_delete_user st i) = (st', x) \<Longrightarrow> signed_out [] st' i"
  by (auto simp: signed_out_def db_delete_user_def Let_def list_all_iff)

lemma bind_ok_result:
  assumes "eval (bind_ok p f) ts st = (ts', st', Inr y)"
  obtains ts1 st1 x where "eval p ts st = (ts1, st1, Inr x)" and "eval (f x) ts1 st1 = (ts', st', Inr y)"
  using assms by (auto split: prod.splits sum.splits)

lemma reply_result:
  assumes "eval (reply_with f p) ts st = (ts', st', Inr y)"
  obtains x where "eval p ts st = (ts', st', Inr x)" and "y = f x"
  using assms by (auto simp: reply_with_def api_def result_simps split: prod.splits sum.splits)

lemma run_result: "run p ts st = (st', x) \<longleftrightarrow> (\<exists>ts'. eval p ts st = (ts', st', x))"
  by (cases "eval p ts st") (auto simp: run_def)

lemma change_password_signs_out:
  assumes "eval (change_own_password E i current new ttl) ts st = (ts', st', Inr s)"
  shows "signed_out [hash_token E (as_token s)] st' i" and "acting_id (as_user s) = i"
proof -
  show "acting_id (as_user s) = i"
    using assms unfolding change_own_password_def Let_def
    by (auto simp: get_user_authentication_record_def authentication_of_row_def result_simps
        dest!: find_user_row_id [unfolded row_id_def] split: if_splits sum.splits option.splits prod.splits)
  show "signed_out [hash_token E (as_token s)] st' i"
    using assms unfolding change_own_password_def Let_def
    by (auto simp: result_simps dest!: signed_out_password split: if_splits sum.splits option.splits prod.splits)
qed

text \<open>The user whose sessions a successful request ends, and the token hash it leaves.\<close>

fun ends_sessions :: "auth_env \<Rightarrow> request \<Rightarrow> reply \<Rightarrow> (int \<times> ustr list) option" where
  "ends_sessions E (ChangePassword c current new) (SessionReply s) =
     Some (acting_id (as_user s), [hash_token E (as_token s)])"
| "ends_sessions E (ResetUserPassword c i new) x = Some (i, [])"
| "ends_sessions E (DeleteUser c i) x = Some (i, [])"
| "ends_sessions E (UpdateUser c i input) (UserReply u) =
     (if is_enabled (profile_user u) then None else Some (i, []))"
| "ends_sessions E _ _ = None"

text \<open>
  A password change, a password reset, disabling an account and deleting it end every
  session of the user, on the web and native, at the moment they take effect; only the session
  that a password change answers with is left.
\<close>

theorem sessions_end:
  assumes "run (handle E decode r) ts st = (st', Inr x)" and "ends_sessions E r x = Some (i, keep)"
  shows "signed_out keep st' i"
proof (cases r)
  case (ChangePassword c current new)
  then show ?thesis
    using assms by (auto simp: run_result change_password_signs_out simp del: eval_bind_ok
        elim!: bind_ok_result reply_result)
next
  case (ResetUserPassword c j new)
  then show ?thesis
    using assms by (auto simp: run_result reset_user_password_def result_simps simp del: eval_bind_ok
        elim!: bind_ok_result reply_result dest!: signed_out_password split: if_splits sum.splits)
next
  case (DeleteUser c j)
  then show ?thesis
    using assms by (auto simp: run_result delete_user_def simp del: eval_bind_ok
        elim!: bind_ok_result reply_result dest!: signed_out_delete split: if_splits)
next
  case (UpdateUser c j input)
  then show ?thesis
    using assms by (auto simp: run_result update_user_def Let_def simp del: eval_bind_ok
        elim!: bind_ok_result reply_result dest!: signed_out_update split: if_splits sum.splits)
qed (use assms in auto)

text \<open>The owner resets the password of a viewer who is logged in on the web.\<close>

definition demo_viewer :: user_row where
  "demo_viewer = \<lparr>row_user = \<lparr>user_id = 2, username = lit ''anna'', nickname = lit ''anna'', role = Viewer,
       is_enabled = True, created_at = 0, updated_at = 0\<rparr>,
     username_normalized = lit ''anna'', password_hash = lit ''password''\<rparr>"

definition demo_native :: native_session where
  "demo_native = \<lparr>ns_id = 1, ns_user_id = 2, access_token_hash = hash_token demo_env (lit ''a''),
     refresh_token_hash = hash_token demo_env (lit ''r''), access_token_expires_at = 50,
     refresh_token_expires_at = 90, revoked_at = None, ns_created_at = 0, last_used_at = 0,
     user_agent = None, device_name = None, client_type = lit ''native''\<rparr>"

definition demo_users :: user_store where
  "demo_users = demo_store\<lparr>st_users := st_users demo_store @ [demo_viewer], st_next_user := 3,
     st_native := [demo_native], st_next_native := 2\<rparr>"

lemma demo_reset_run:
  "snd (run (handle demo_env (\<lambda>b. None) (ResetUserPassword demo_cookie 2 (lit ''password2''))) demo_tick demo_users)
    = Inr NothingToTell"
  by (simp add: request_eval demo_users_def demo_viewer_def demo_store_def demo_cookie_def require_admin_def require_user_def
      require_auth_context_def request_auth_credential_def bearer_token_def session_token_def
      authenticate_credential_def get_user_session_def get_user_by_session_token_hash_def reset_user_password_def
      profile_is_admin_def profile_of_row_def get_user_def db_get_user_def validate_user_management_scope_def
      user_management_level_def update_user_password_and_revoke_sessions_def)

theorem sessions_end_witness:
  "signed_out [] (fst (run (handle demo_env (\<lambda>b. None) (ResetUserPassword demo_cookie 2 (lit ''password2'')))
     demo_tick demo_users)) 2"
proof -
  have "run (handle demo_env (\<lambda>b. None) (ResetUserPassword demo_cookie 2 (lit ''password2''))) demo_tick demo_users
      = (fst (run (handle demo_env (\<lambda>b. None) (ResetUserPassword demo_cookie 2 (lit ''password2''))) demo_tick demo_users),
         Inr NothingToTell)"
    using demo_reset_run by (metis prod.collapse)
  then show ?thesis by (rule sessions_end) simp
qed

subsection \<open>Using a refresh token twice\<close>

lemma refresh_success:
  assumes "run (refresh_native_client_session E T a r) ts st = (st', Inr s)"
  obtains n p now where "n \<in> set (st_native st)" and "refresh_token_hash n = hash_token E (trim T)"
    and "rt_session_id p = ns_id n" and "rt_old_refresh_token_hash p = hash_token E (trim T)"
    and "rt_old_refresh_token_expires_at p = refresh_token_expires_at n"
    and "rt_new_refresh_token_hash p = hash_token E (na_refresh_token s)" and "trim T \<noteq> []"
    and "rotate_native_client_session_tokens st p now = Inr (st', Rotated)"
proof -
  let ?h = "hash_token E (trim T)"
  obtain n where found: "find (\<lambda>n. refresh_token_hash n = ?h \<and> user_exists st (ns_user_id n)) (st_native st) = Some n"
    using assms
    by (auto simp: run_result refresh_native_client_session_def refresh_unknown_def Let_def
        get_native_client_session_by_refresh_token_hash_def native_session_user_select_def split: option.splits if_splits)
  then have n: "n \<in> set (st_native st)" "refresh_token_hash n = ?h" "user_exists st (ns_user_id n)"
    by (auto simp: find_Some_iff)
  then obtain row where row: "find_user st (ns_user_id n) = Some row" by (auto simp: user_exists_def)
  show thesis
    using assms found row n
    by (auto simp: run_result refresh_native_client_session_def rotate_session_def generate_native_token_def Let_def
        get_native_client_session_by_refresh_token_hash_def native_session_user_select_def
        split: if_splits sum.splits prod.splits rotation_outcome.splits intro!: that [of n])
qed

text \<open>An exchange moves the session from the old token to the new one and remembers the old one.\<close>

lemma rotate_rotated:
  assumes "rotate_native_client_session_tokens st p now = Inr (st', Rotated)"
  shows "st_native st' = map (\<lambda>x. if rotatable p now x then rotated_row p now x else x) (st_native st)"
    and "\<forall>x\<in>set (st_native st). ns_id x \<noteq> rt_session_id p
           \<longrightarrow> refresh_token_hash x \<noteq> rt_new_refresh_token_hash p"
    and "st_users st' = st_users st"
    and "\<exists>n\<in>set (st_native st). rotatable p now n"
    and "now < rt_old_refresh_token_expires_at p \<Longrightarrow> \<forall>t\<in>set (st_used st). ut_token_hash t \<noteq> rt_old_refresh_token_hash p
      \<Longrightarrow> st_used st' = st_used st @ [\<lparr>ut_token_hash = rt_old_refresh_token_hash p,
             ut_session_id = rt_session_id p, ut_expires_at = rt_old_refresh_token_expires_at p\<rparr>]"
proof -
  obtain n where n: "find (rotatable p now) (st_native st) = Some n"
    using assms by (auto simp: rotate_native_client_session_tokens_def split: option.splits if_splits)
  have "ns_id n = rt_session_id p" using n by (auto simp: find_Some_iff rotatable_def)
  moreover from n have "n \<in> set (st_native st) \<and> rotatable p now n" by (auto simp: find_Some_iff)
  ultimately show "st_native st' = map (\<lambda>x. if rotatable p now x then rotated_row p now x else x) (st_native st)"
    and "\<forall>x\<in>set (st_native st). ns_id x \<noteq> rt_session_id p
           \<longrightarrow> refresh_token_hash x \<noteq> rt_new_refresh_token_hash p"
    and "st_users st' = st_users st"
    and "\<exists>n\<in>set (st_native st). rotatable p now n"
    and "now < rt_old_refresh_token_expires_at p \<Longrightarrow> \<forall>t\<in>set (st_used st). ut_token_hash t \<noteq> rt_old_refresh_token_hash p
      \<Longrightarrow> st_used st' = st_used st @ [\<lparr>ut_token_hash = rt_old_refresh_token_hash p,
             ut_session_id = rt_session_id p, ut_expires_at = rt_old_refresh_token_expires_at p\<rparr>]"
    using assms n
    by (auto simp: rotate_native_client_session_tokens_def Let_def native_row_unique_def list_ex_iff rotated_row_def
        split: if_splits)
qed

lemma refresh_spent:
  assumes "run (refresh_native_client_session E T a r) ts st = (st', y)" and "trim T \<noteq> []"
    and "\<forall>n\<in>set (st_native st). refresh_token_hash n \<noteq> hash_token E (trim T)"
    and "find (\<lambda>t. ut_token_hash t = hash_token E (trim T)) (st_used st) = Some t" and "tk_now (ts 0) < ut_expires_at t"
  shows "y = Inl (auth_token SessionRevoked)"
    and "st' = revoke_native_client_session st (ut_session_id t) (tk_now (ts 3))"
proof -
  have "find (\<lambda>n. refresh_token_hash n = hash_token E (trim T) \<and> user_exists st (ns_user_id n)) (st_native st) = None"
    using assms(3) by (auto simp: find_None_iff)
  then show "y = Inl (auth_token SessionRevoked)"
    and "st' = revoke_native_client_session st (ut_session_id t) (tk_now (ts 3))"
    using assms
    by (auto simp: run_def refresh_native_client_session_def refresh_unknown_def Let_def
        get_native_client_session_by_refresh_token_hash_def native_session_user_select_def
        get_used_native_refresh_token_def used_refresh_token_can_revoke_session_def numeral_3_eq_3)
qed

text \<open>
  C29. A refresh token is good for one exchange: using it again directly after the exchange and before it would
  have expired is answered with \<open>session_revoked\<close>, and the session with the tokens it was exchanged for is
  revoked. (Refresh hashes of sessions are unique in the table, the presented token is not
  already known as used, and the new token does not hash like the old one.)
\<close>

theorem refresh_token_reuse:
  assumes "run (refresh_native_client_session E T a r) ts st = (st1, Inr s)"
    and "run (refresh_native_client_session E T a' r') ts' st1 = (st2, y)"
    and "distinct (map refresh_token_hash (st_native st))"
    and "\<forall>t\<in>set (st_used st). ut_token_hash t \<noteq> hash_token E (trim T)"
    and "hash_token E (na_refresh_token s) \<noteq> hash_token E (trim T)"
    and "\<forall>n\<in>set (st_native st). refresh_token_hash n = hash_token E (trim T)
           \<longrightarrow> tk_now (ts' 0) < refresh_token_expires_at n"
  shows "y = Inl (auth_token SessionRevoked)
    \<and> (\<forall>n\<in>set (st_native st2). refresh_token_hash n = hash_token E (na_refresh_token s) \<longrightarrow> revoked_at n \<noteq> None)"
proof -
  let ?h = "hash_token E (trim T)"
  obtain n p now where n: "n \<in> set (st_native st)" "refresh_token_hash n = ?h"
    and p: "rt_session_id p = ns_id n" "rt_old_refresh_token_hash p = ?h"
      "rt_old_refresh_token_expires_at p = refresh_token_expires_at n"
      "rt_new_refresh_token_hash p = hash_token E (na_refresh_token s)" and T: "trim T \<noteq> []"
    and rot: "rotate_native_client_session_tokens st p now = Inr (st1, Rotated)"
    using refresh_success [OF assms(1)] by metis
  note effect = rotate_rotated [OF rot]
  have only_n: "x = n" if "x \<in> set (st_native st)" "refresh_token_hash x = ?h" for x
    using assms(3) that n by (metis distinct_map inj_onD)
  have rn: "rotatable p now n" using effect(4) only_n p by (auto simp: rotatable_def)
  have "now < refresh_token_expires_at n" using rn by (simp add: rotatable_def)
  then have used: "st_used st1 = st_used st @ [\<lparr>ut_token_hash = ?h, ut_session_id = ns_id n,
      ut_expires_at = refresh_token_expires_at n\<rparr>]"
    using effect(5) assms(4) p by simp
  have gone: "\<forall>x\<in>set (st_native st1). refresh_token_hash x \<noteq> ?h"
    using assms(5) only_n rn p unfolding effect(1) by (auto simp: rotated_row_def)
  have "find (\<lambda>t. ut_token_hash t = ?h) (st_used st) = None" using assms(4) by (simp add: find_None_iff)
  then have "find (\<lambda>t. ut_token_hash t = ?h) (st_used st1) = Some \<lparr>ut_token_hash = ?h, ut_session_id = ns_id n,
      ut_expires_at = refresh_token_expires_at n\<rparr>"
    by (simp add: used find_snoc)
  from refresh_spent [OF assms(2) T gone this] assms(6) n
  have y: "y = Inl (auth_token SessionRevoked)"
    and st2: "st2 = revoke_native_client_session st1 (ns_id n) (tk_now (ts' 3))" by simp_all
  have "ns_id x = ns_id n" if "x \<in> set (st_native st1)" "refresh_token_hash x = hash_token E (na_refresh_token s)" for x
    using that effect(2) p unfolding effect(1) by (auto simp: rotated_row_def rotatable_def split: if_splits)
  then have "\<forall>x\<in>set (st_native st2). refresh_token_hash x = hash_token E (na_refresh_token s) \<longrightarrow> revoked_at x \<noteq> None"
    unfolding st2 revoke_native_client_session_def revoke_where_def by (auto split: if_splits)
  then show ?thesis using y by simp
qed

abbreviation demo_refresh :: "user_store \<Rightarrow> user_store \<times> (application_error + native_auth_session)" where
  "demo_refresh \<equiv> run (refresh_native_client_session demo_env (lit ''r'') 10 20) demo_tick"

lemma concat_zeros:
  "list_all P (concat (replicate k [c, c])) \<longleftrightarrow> k = 0 \<or> P c" "length (concat (replicate k [c, c])) = 2 * k"
  by (induction k) auto

lemma demo_refresh_first:
  "snd (demo_refresh demo_users) = Inr
     \<lparr>na_user = profile_of_row demo_users demo_viewer, na_access_token = lit ''02'',
      na_access_token_expires_at = 14, na_refresh_token = lit ''03'', na_refresh_token_expires_at = 24\<rparr>"
  by (simp add: request_eval demo_users_def demo_viewer_def demo_store_def demo_native_def
      refresh_native_client_session_def get_native_client_session_by_refresh_token_hash_def
      native_session_user_select_def rotate_session_def generate_native_token_def NATIVE_TOKEN_BYTES_def
      rotate_native_client_session_tokens_def rotatable_def rotated_row_def native_row_ok_def
      native_row_unique_def profile_of_row_def list_library_ids_for_user_def concat_zeros)

lemma demo_hash_new: "hash_token demo_env (lit ''03'') \<noteq> hash_token demo_env (trim (lit ''r''))"
  by (simp add: request_eval)

theorem refresh_token_reuse_witness:
  "snd (demo_refresh (fst (demo_refresh demo_users))) = Inl (auth_token SessionRevoked)"
proof -
  let ?st1 = "fst (demo_refresh demo_users)"
  have "demo_refresh demo_users = (?st1, Inr
     \<lparr>na_user = profile_of_row demo_users demo_viewer, na_access_token = lit ''02'',
      na_access_token_expires_at = 14, na_refresh_token = lit ''03'', na_refresh_token_expires_at = 24\<rparr>)"
    using demo_refresh_first by (metis prod.collapse)
  moreover have "demo_refresh ?st1 = (fst (demo_refresh ?st1), snd (demo_refresh ?st1))" by simp
  moreover have "distinct (map refresh_token_hash (st_native demo_users))"
    "\<forall>t\<in>set (st_used demo_users). ut_token_hash t \<noteq> hash_token demo_env (trim (lit ''r''))"
    "\<forall>n\<in>set (st_native demo_users). refresh_token_hash n = hash_token demo_env (trim (lit ''r''))
       \<longrightarrow> tk_now (demo_tick 0) < refresh_token_expires_at n"
    by (simp_all add: demo_users_def demo_store_def empty_store_def demo_native_def demo_tick_def)
  moreover have "hash_token demo_env (na_refresh_token
     \<lparr>na_user = profile_of_row demo_users demo_viewer, na_access_token = lit ''02'',
      na_access_token_expires_at = 14, na_refresh_token = lit ''03'', na_refresh_token_expires_at = 24\<rparr>)
     \<noteq> hash_token demo_env (trim (lit ''r''))"
    using demo_hash_new by simp
  ultimately have "snd (demo_refresh ?st1) = Inl (auth_token SessionRevoked) \<and>
      (\<forall>n\<in>set (st_native (fst (demo_refresh ?st1))). refresh_token_hash n = hash_token demo_env (na_refresh_token
       \<lparr>na_user = profile_of_row demo_users demo_viewer, na_access_token = lit ''02'',
        na_access_token_expires_at = 14, na_refresh_token = lit ''03'', na_refresh_token_expires_at = 24\<rparr>)
        \<longrightarrow> revoked_at n \<noteq> None)"
    by (intro refresh_token_reuse)
  then show ?thesis ..
qed

subsection \<open>Names longer than a nickname\<close>

text \<open>
  An account whose trimmed name has more than 128 characters cannot be created, although
  names of up to 254 are accepted: \<open>create_user\<close> takes the name as the nickname without
  the length check of \<open>normalize_nickname\<close>, the column is too narrow, and the request of a user
  who may create the account is answered as an internal error.
\<close>

theorem long_name_is_an_internal_error:
  assumes "128 < length (trim (ci_username input))" and "length (trim (ci_username input)) \<le> 254"
    and "8 \<le> byte_len (ci_password input)" and "normalize_user_role (ci_role input) = Inr r"
    and "find_user st a = Some actor" and "validate_role_assignment (profile_of_row st actor) r = Inr ()"
    and "ci_library_ids input = []" and "\<forall>salt. argon2_hash E (utf8_bytes (ci_password input)) salt \<noteq> None"
  shows "run (create_user E a input) ts st = (st, Inl unexpected)"
proof -
  have "trim (ci_username input) \<noteq> []" using assms(1) by auto
  moreover obtain h where "argon2_hash E (utf8_bytes (ci_password input)) (take 16 (tk_random (ts 1))) = Some h"
    using assms(8) by (meson not_None_eq)
  ultimately show ?thesis
    using assms
    by (simp add: run_def create_user_def normalize_username_def MAX_USERNAME_LENGTH_def validate_password_def
        MIN_PASSWORD_LENGTH_def Let_def get_user_def db_get_user_def validate_library_access_def
        normalize_library_ids_def hash_password_def db_create_user_def user_row_ok_def new_user_row_def)
qed

lemma trim_xs: "trim (replicate k 120) = replicate k 120"
  by (cases k) (simp_all add: str_eval replicate_append_same [symmetric] del: replicate_Suc)

theorem long_name_is_an_internal_error_witness:
  "run (create_user demo_env 1 \<lparr>ci_username = replicate 200 120, ci_password = lit ''password'',
       ci_role = lit ''viewer'', ci_is_enabled = True, ci_library_ids = []\<rparr>) demo_tick demo_store
    = (demo_store, Inl unexpected)"
proof (rule long_name_is_an_internal_error)
  show "find_user demo_store 1 = Some (hd (st_users demo_store))"
    by (simp add: find_user_def demo_store_def row_id_def)
  show "validate_role_assignment (profile_of_row demo_store (hd (st_users demo_store))) Viewer = Inr ()"
    by (simp add: validate_role_assignment_def row_role_def demo_store_def)
qed (simp_all add: trim_xs request_eval normalize_user_role_def)

end
