(* ===== verification/Library_Access.thy ===== *)
theory Library_Access
  imports User_Access
begin

text \<open>
  Which resources of the catalog a user gets (\<open>mova-application/src/access.rs\<close>), over the
  queries of \<open>mova-db\<close> that read a resource with its library and whether it is visible. Of a row
  only its id and library matter; its other columns are of any type.
\<close>

subsection \<open>The catalog\<close>

record 'c library_row =
  lib_id :: int
  lib_columns :: 'c

record 'c resource_row =
  res_id :: int
  res_library_id :: int
  res_columns :: 'c

record ('l, 'i, 'f, 's) catalog =
  ct_libraries :: "'l library_row list"
  ct_items :: "'i resource_row list"
  ct_files :: "'f resource_row list"
  ct_seasons :: "'s resource_row list"

datatype 'a visibility_result = Visible 'a | VisForbidden int | VisMissing

text \<open>\<open>$2::bigint[] is null or id = any($2)\<close>\<close>

definition is_visible :: "int list option \<Rightarrow> int \<Rightarrow> bool" where
  "is_visible visible l = (case visible of None \<Rightarrow> True | Some ids \<Rightarrow> l \<in> set ids)"

definition get_library_with_visibility ::
  "'l library_row list \<Rightarrow> int \<Rightarrow> int list option \<Rightarrow> 'l library_row visibility_result" where
  "get_library_with_visibility libraries i visible =
     (case find (\<lambda>l. lib_id l = i) libraries of
        None \<Rightarrow> VisMissing
      | Some l \<Rightarrow> if is_visible visible (lib_id l) then Visible l else VisForbidden i)"

text \<open>The join of a table with the libraries, for one id.\<close>

definition joined :: "'c resource_row list \<Rightarrow> 'l library_row list \<Rightarrow> int \<Rightarrow> ('c resource_row \<times> 'l library_row) option" where
  "joined rows libraries i =
     find_map (\<lambda>r. if res_id r = i
        then map_option (\<lambda>l. (r, l)) (find (\<lambda>l. lib_id l = res_library_id r) libraries) else None) rows"

definition with_visibility ::
  "int list option \<Rightarrow> ('c resource_row \<times> 'l library_row) option
    \<Rightarrow> ('c resource_row \<times> 'l library_row) visibility_result" where
  "with_visibility visible found =
     (case found of
        None \<Rightarrow> VisMissing
      | Some (r, l) \<Rightarrow>
          if \<not> is_visible visible (res_library_id r) then VisForbidden (res_library_id r) else Visible (r, l))"

text \<open>The ratings of an item come from a second query, the parameter \<open>rate\<close>.\<close>

definition get_media_item_with_library_visibility ::
  "('i resource_row \<Rightarrow> 'i resource_row) \<Rightarrow> ('l, 'i, 'f, 's) catalog \<Rightarrow> int \<Rightarrow> int list option
    \<Rightarrow> ('i resource_row \<times> 'l library_row) visibility_result" where
  "get_media_item_with_library_visibility rate ct i visible =
     (case with_visibility visible (joined (ct_items ct) (ct_libraries ct) i) of
        Visible (r, l) \<Rightarrow> Visible (rate r, l)
      | VisForbidden l \<Rightarrow> VisForbidden l
      | VisMissing \<Rightarrow> VisMissing)"

definition get_media_file_with_library_visibility ::
  "('l, 'i, 'f, 's) catalog \<Rightarrow> int \<Rightarrow> int list option \<Rightarrow> ('f resource_row \<times> 'l library_row) visibility_result" where
  "get_media_file_with_library_visibility ct i visible =
     with_visibility visible (joined (ct_files ct) (ct_libraries ct) i)"

definition get_season_with_library_visibility ::
  "('l, 'i, 'f, 's) catalog \<Rightarrow> int \<Rightarrow> int list option \<Rightarrow> ('s resource_row \<times> 'l library_row) visibility_result" where
  "get_season_with_library_visibility ct i visible =
     with_visibility visible (joined (ct_seasons ct) (ct_libraries ct) i)"

subsection \<open>Authorization\<close>

definition library_forbidden :: "user_profile \<Rightarrow> int \<Rightarrow> application_error" where
  "library_forbidden user l =
     AppForbidden (lit ''user '' @ username (profile_user user) @ lit '' cannot access library '' @ int_text l)"

definition authorized :: "user_profile \<Rightarrow> ustr \<Rightarrow> 'a visibility_result \<Rightarrow> application_error + 'a" where
  "authorized user missing v =
     (case v of
        Visible x \<Rightarrow> Inr x
      | VisForbidden l \<Rightarrow> Inl (library_forbidden user l)
      | VisMissing \<Rightarrow> Inl (AppNotFound missing))"

definition visible_ids :: "user_profile \<Rightarrow> int list option" where
  "visible_ids user = restricted_library_ids (library_visibility user)"

definition authorize_library ::
  "('l, 'i, 'f, 's) catalog \<Rightarrow> user_profile \<Rightarrow> int \<Rightarrow> application_error + 'l library_row" where
  "authorize_library ct user i =
     authorized user (lit ''library not found: '' @ int_text i)
       (get_library_with_visibility (ct_libraries ct) i (visible_ids user))"

definition authorize_media_item_with_library ::
  "('i resource_row \<Rightarrow> 'i resource_row) \<Rightarrow> ('l, 'i, 'f, 's) catalog \<Rightarrow> user_profile \<Rightarrow> int
    \<Rightarrow> application_error + 'i resource_row \<times> 'l library_row" where
  "authorize_media_item_with_library rate ct user i =
     authorized user (lit ''media item not found: '' @ int_text i)
       (get_media_item_with_library_visibility rate ct i (visible_ids user))"

definition authorize_media_file_with_library ::
  "('l, 'i, 'f, 's) catalog \<Rightarrow> user_profile \<Rightarrow> int \<Rightarrow> application_error + 'f resource_row \<times> 'l library_row" where
  "authorize_media_file_with_library ct user i =
     authorized user (lit ''media file not found: '' @ int_text i)
       (get_media_file_with_library_visibility ct i (visible_ids user))"

definition authorize_season_with_library ::
  "('l, 'i, 'f, 's) catalog \<Rightarrow> user_profile \<Rightarrow> int \<Rightarrow> application_error + 's resource_row \<times> 'l library_row" where
  "authorize_season_with_library ct user i =
     authorized user (lit ''season not found: '' @ int_text i)
       (get_season_with_library_visibility ct i (visible_ids user))"

subsection \<open>Exactness\<close>

text \<open>An administrator, or a viewer with a grant of the library.\<close>

definition may_see :: "user_store \<Rightarrow> int \<Rightarrow> int \<Rightarrow> bool" where
  "may_see st i l =
     (case find_user st i of
        None \<Rightarrow> False
      | Some row \<Rightarrow> is_admin (row_role row) \<or> (i, l) \<in> set (st_access st))"

lemma visible_may_see:
  assumes "snd (run (require_user E c) ts st) = Inr u"
  shows "is_visible (visible_ids u) = may_see st (acting_id u)"
proof -
  obtain row where row: "find_user st (acting_id u) = Some row" "u = profile_of_row st row"
    using assms by (cases rule: require_user_session) (use native_access_sound web_access_sound in blast)+
  then have "row_id row = acting_id u" by (simp add: profile_of_row_def row_id_def)
  then show ?thesis
    using row
    by (auto simp: fun_eq_iff is_visible_def visible_ids_def library_visibility_def profile_is_admin_def may_see_def
        list_library_ids_for_user_def row_role_def profile_of_row_def image_iff)
qed

lemma find_library_id: "find (\<lambda>l. lib_id l = i) ls = Some l \<Longrightarrow> lib_id l = i"
  by (auto simp: find_Some_iff)

lemma joined_library: "joined rows ls i = Some (r, l) \<Longrightarrow> lib_id l = res_library_id r \<and> res_id r = i"
  by (auto simp: joined_def dest!: find_map_Some_ex find_library_id split: if_splits)

text \<open>
  What every authorization answers: the resource just when the user may see its library.
\<close>

definition exact_answer ::
  "(int \<Rightarrow> bool) \<Rightarrow> application_error \<Rightarrow> (int \<Rightarrow> application_error) \<Rightarrow> ('a \<times> int) option \<Rightarrow> application_error + 'a" where
  "exact_answer sees missing forbidden found =
     (case found of
        None \<Rightarrow> Inl missing
      | Some (x, l) \<Rightarrow> if sees l then Inr x else Inl (forbidden l))"

text \<open>
  C28. Libraries, items, files and seasons are only handed to a request that authenticated as
  an administrator, or as a user with a grant of the library they belong to in the tables of
  that moment, and then always; otherwise the answer is \<open>403\<close>, or \<open>404\<close> when there is no such
  resource with a library.
\<close>

theorem catalog_access_exact:
  assumes "snd (run (require_user E c) ts st) = Inr u"
  shows "authorize_library ct u i =
       exact_answer (may_see st (acting_id u)) (AppNotFound (lit ''library not found: '' @ int_text i)) (library_forbidden u)
         (map_option (\<lambda>l. (l, lib_id l)) (find (\<lambda>l. lib_id l = i) (ct_libraries ct)))
   \<and> authorize_media_item_with_library rate ct u i =
       exact_answer (may_see st (acting_id u)) (AppNotFound (lit ''media item not found: '' @ int_text i)) (library_forbidden u)
         (map_option (\<lambda>(r, l). ((rate r, l), lib_id l)) (joined (ct_items ct) (ct_libraries ct) i))
   \<and> authorize_media_file_with_library ct u i =
       exact_answer (may_see st (acting_id u)) (AppNotFound (lit ''media file not found: '' @ int_text i)) (library_forbidden u)
         (map_option (\<lambda>(r, l). ((r, l), lib_id l)) (joined (ct_files ct) (ct_libraries ct) i))
   \<and> authorize_season_with_library ct u i =
       exact_answer (may_see st (acting_id u)) (AppNotFound (lit ''season not found: '' @ int_text i)) (library_forbidden u)
         (map_option (\<lambda>(r, l). ((r, l), lib_id l)) (joined (ct_seasons ct) (ct_libraries ct) i))"
  unfolding visible_may_see [OF assms, symmetric]
  by (auto simp: authorize_library_def get_library_with_visibility_def authorize_media_item_with_library_def
      get_media_item_with_library_visibility_def authorize_media_file_with_library_def
      get_media_file_with_library_visibility_def authorize_season_with_library_def
      get_season_with_library_visibility_def authorized_def exact_answer_def with_visibility_def
      dest: joined_library find_library_id split: option.splits)

definition demo_catalog :: "(unit, unit, unit, unit) catalog" where
  "demo_catalog = \<lparr>ct_libraries = [\<lparr>lib_id = 7, lib_columns = ()\<rparr>], ct_items = [],
     ct_files = [\<lparr>res_id = 3, res_library_id = 7, res_columns = ()\<rparr>], ct_seasons = []\<rparr>"

theorem catalog_access_exact_witness:
  "authorize_media_file_with_library demo_catalog (profile_of_row demo_store (hd (st_users demo_store))) 3
    = Inr (\<lparr>res_id = 3, res_library_id = 7, res_columns = ()\<rparr>, \<lparr>lib_id = 7, lib_columns = ()\<rparr>)"
proof -
  have "may_see demo_store 1 7" "acting_id (profile_of_row demo_store (hd (st_users demo_store))) = 1"
    by (simp_all add: may_see_def find_user_def demo_store_def row_id_def row_role_def profile_of_row_def)
  moreover have "joined (ct_files demo_catalog) (ct_libraries demo_catalog) 3
      = Some (\<lparr>res_id = 3, res_library_id = 7, res_columns = ()\<rparr>, \<lparr>lib_id = 7, lib_columns = ()\<rparr>)"
    by (simp add: joined_def demo_catalog_def)
  ultimately show ?thesis
    using catalog_access_exact [OF demo_authenticates, of demo_catalog 3 id] by (simp add: exact_answer_def)
qed

end
