(* ===== verification/Name_Tokens.thy ===== *)
theory Name_Tokens
  imports Rust_Text
begin

text \<open>
  The tokens of file and folder names (\<open>mova-scan/src/parse.rs\<close>): years, season and episode
  markers, release tags, season and collection folders, and the title and year that a name
  spells. Names are lists of code points. What decides a token are ASCII digits and letters and a
  few other characters, so lengths in bytes are lengths in characters wherever a test can
  still succeed. \<open>char::is_alphanumeric\<close> is the parameter \<open>alnum\<close>.
\<close>

subsection \<open>Characters and words\<close>

definition is_filename_word_separator_char :: "nat \<Rightarrow> bool" where
  "is_filename_word_separator_char c = (c \<in> {46, 95, 45, 8211, 8212})"

definition is_separator_token_char :: "nat \<Rightarrow> bool" where
  "is_separator_token_char c = (c \<in> {45, 124, 58, 65306, 183, 8226, 126, 8211, 8212, 47, 92})"

definition is_separator_token :: "ustr \<Rightarrow> bool" where
  "is_separator_token t = (t \<noteq> [] \<and> list_all is_separator_token_char t)"

text \<open>Round, square, curly and angle brackets with their wide forms.\<close>

definition is_bracket_char :: "nat \<Rightarrow> bool" where
  "is_bracket_char c =
     (c \<in> {40, 41, 91, 93, 123, 125, 60, 62, 65288, 65289, 12304, 12305, 12298, 12299})"

definition trim_wrapping_punctuation :: "ustr \<Rightarrow> ustr" where
  "trim_wrapping_punctuation t = trim_matches (\<lambda>c. is_bracket_char c \<or> c = 34 \<or> c = 39) t"

definition words_text :: "ustr list \<Rightarrow> ustr" where
  "words_text ts = join [32] ts"

definition normalize_words :: "ustr \<Rightarrow> ustr" where
  "normalize_words s = words_text (split_whitespace s)"

definition blank_separators :: "ustr \<Rightarrow> ustr" where
  "blank_separators s = map (\<lambda>c. if is_filename_word_separator_char c then 32 else c) s"

text \<open>\<open>str::replace\<close> of a non-empty pattern.\<close>

fun replace_str :: "ustr \<Rightarrow> ustr \<Rightarrow> ustr \<Rightarrow> ustr" where
  "replace_str p r [] = []"
| "replace_str p r (c # s) =
     (if p \<noteq> [] \<and> starts_with p (c # s) then r @ replace_str p r (drop (length p - 1) s)
      else c # replace_str p r s)"

definition decode_basic_html_entities :: "ustr \<Rightarrow> ustr" where
  "decode_basic_html_entities s =
     replace_str (lit ''&amp;'') [38]
       (replace_str (lit ''&quot;'') [34]
          (replace_str (lit ''&apos;'') [39]
             (replace_str (lit ''&#39;'') [39] s)))"

subsection \<open>Numbers\<close>

definition parse_year_token :: "ustr \<Rightarrow> int option" where
  "parse_year_token t =
     (let u = trim_matches is_bracket_char t in
      if length u \<noteq> 4 \<or> \<not> list_all is_ascii_digit u then None
      else case parse_i32 u of
             None \<Rightarrow> None
           | Some y \<Rightarrow> if 1900 \<le> y \<and> y \<le> 2100 then Some y else None)"

definition is_short_number_token :: "ustr \<Rightarrow> bool" where
  "is_short_number_token t = (t \<noteq> [] \<and> length t \<le> 3 \<and> list_all is_ascii_digit t)"

definition parse_short_number_token :: "ustr \<Rightarrow> int option" where
  "parse_short_number_token t =
     (let u = trim_wrapping_punctuation t in if is_short_number_token u then parse_i32 u else None)"

definition parse_episode_only_number :: "ustr \<Rightarrow> int option" where
  "parse_episode_only_number t =
     (if t \<noteq> [] \<and> length t \<le> 4 \<and> list_all is_ascii_digit t then parse_i32 t else None)"

text \<open>Two numbers around a separating letter, both sides digits only.\<close>

definition digit_pair :: "ustr \<Rightarrow> ustr \<Rightarrow> (int \<times> int) option" where
  "digit_pair a b =
     (if a \<noteq> [] \<and> b \<noteq> [] \<and> list_all is_ascii_digit a \<and> list_all is_ascii_digit b
      then case (parse_i32 a, parse_i32 b) of (Some x, Some y) \<Rightarrow> Some (x, y) | _ \<Rightarrow> None
      else None)"

definition split_at_first :: "(nat \<Rightarrow> bool) \<Rightarrow> ustr \<Rightarrow> (ustr \<times> ustr) option" where
  "split_at_first P t =
     (if list_ex P t then Some (takeWhile (\<lambda>c. \<not> P c) t, tl (dropWhile (\<lambda>c. \<not> P c) t)) else None)"

text \<open>\<open>S01E02\<close>.\<close>

definition parse_series_token :: "ustr \<Rightarrow> (int \<times> int) option" where
  "parse_series_token t =
     (case t of
        [] \<Rightarrow> None
      | c # s \<Rightarrow>
          if length t < 4 \<or> c \<notin> {83, 115} then None
          else case split_at_first (\<lambda>x. x = 69 \<or> x = 101) s of
                 None \<Rightarrow> None
               | Some (season, episode) \<Rightarrow> digit_pair season episode)"

text \<open>\<open>1x02\<close>.\<close>

definition parse_x_episode_token :: "ustr \<Rightarrow> (int \<times> int) option" where
  "parse_x_episode_token t =
     (case split_at_first (\<lambda>x. x = 120) (to_ascii_lowercase t) of
        None \<Rightarrow> None
      | Some (season, episode) \<Rightarrow> digit_pair season episode)"

record episode_token =
  title_prefix :: "ustr option"
  season_number :: int
  episode_number :: int

definition full_marker :: "ustr \<Rightarrow> (int \<times> int) option" where
  "full_marker t = or_else (parse_series_token t) (parse_x_episode_token t)"

text \<open>A marker glued to a title, as in \<open>TitleS01E02\<close>.\<close>

definition parse_embedded_episode_token :: "(nat \<Rightarrow> bool) \<Rightarrow> ustr \<Rightarrow> episode_token option" where
  "parse_embedded_episode_token alnum t =
     find_map (\<lambda>k.
         if \<not> list_ex alnum (take k t) then None
         else map_option (\<lambda>(s, e). \<lparr>title_prefix = Some (take k t), season_number = s, episode_number = e\<rparr>)
                (full_marker (drop k t)))
       [1..<length t]"

definition parse_episode_token_marker :: "(nat \<Rightarrow> bool) \<Rightarrow> ustr \<Rightarrow> episode_token option" where
  "parse_episode_token_marker alnum t =
     (case full_marker t of
        Some (s, e) \<Rightarrow> Some \<lparr>title_prefix = None, season_number = s, episode_number = e\<rparr>
      | None \<Rightarrow> parse_embedded_episode_token alnum t)"

definition parse_year_after_episode_token :: "ustr list \<Rightarrow> nat \<Rightarrow> int option" where
  "parse_year_after_episode_token ts start = find_map parse_year_token (drop start ts)"

subsection \<open>Release tags\<close>

definition release_tags :: "ustr list" where
  "release_tags = map lit
     [''8k'', ''4k'', ''2160p'', ''1440p'', ''1080p'', ''720p'', ''480p'', ''web'', ''webdl'', ''web-dl'', ''webrip'',
      ''x264'', ''x265'', ''h264'', ''h265'', ''hevc'', ''avc'', ''av1'', ''bluray'', ''bdrip'', ''hdrip'', ''dvdrip'',
      ''remux'', ''hdr'', ''hdr10'', ''hdr10+'', ''dv'', ''dovi'', ''sdr'', ''nf'', ''amzn'', ''dsnp'', ''hmax'', ''atvp'',
      ''pcok'', ''aac'', ''dts'', ''atmos'', ''truehd'', ''eac3'', ''ac3'', ''10bit'', ''8bit'']"

definition is_release_token :: "ustr \<Rightarrow> bool" where
  "is_release_token t =
     (t = lit ''iT''
      \<or> (let l = to_ascii_lowercase t in
          l \<in> set release_tags
          \<or> (case strip_prefix (lit ''ddp'') l of None \<Rightarrow> False | Some s \<Rightarrow> list_all is_ascii_digit s)
          \<or> (case strip_suffix (lit ''audio'') l of
               None \<Rightarrow> False | Some p \<Rightarrow> p \<noteq> [] \<and> list_all is_ascii_digit p)))"

definition technical_tags :: "ustr list" where
  "technical_tags = map lit
     [''4k'', ''8k'', ''2160p'', ''1440p'', ''1080p'', ''720p'', ''480p'', ''uhd'', ''web'', ''dl'', ''rip'', ''webrip'',
      ''webdl'', ''blu'', ''ray'', ''bluray'', ''bdrip'', ''remux'', ''dv'', ''dovi'', ''dolby'', ''vision'', ''hdr'',
      ''hdr10'', ''hdr10+'', ''sdr'', ''avc'', ''av1'', ''hevc'', ''x264'', ''x265'', ''h264'', ''h265'', ''10bit'', ''8bit'']"

definition is_technical_directory_token :: "ustr \<Rightarrow> bool" where
  "is_technical_directory_token t = (t \<in> set technical_tags)"

definition is_technical_directory_name :: "ustr \<Rightarrow> bool" where
  "is_technical_directory_name value =
     (let ts = split_whitespace (to_ascii_lowercase (normalize_words (blank_separators (trim value)))) in
      ts \<noteq> [] \<and> list_all is_technical_directory_token ts)"

subsection \<open>Titles and years\<close>

definition split_trailing_year_suffix :: "ustr \<Rightarrow> (ustr \<times> int) option" where
  "split_trailing_year_suffix t =
     (let u = trim_wrapping_punctuation t in
      if length u \<le> 4 then None
      else case parse_year_token (drop (length u - 4) u) of
             None \<Rightarrow> None
           | Some y \<Rightarrow>
               (let p = trim (trim_matches is_separator_token_char
                          (trim_wrapping_punctuation (take (length u - 4) u))) in
                if p = [] \<or> list_all is_ascii_digit p then None else Some (p, y)))"

text \<open>The tokens up to the first year, episode marker or release tag, and the year.\<close>

fun title_scan :: "(nat \<Rightarrow> bool) \<Rightarrow> ustr list \<Rightarrow> ustr list \<times> int option" where
  "title_scan alnum [] = ([], None)"
| "title_scan alnum (t # ts) =
     (case parse_year_token t of
        Some y \<Rightarrow> ([], Some y)
      | None \<Rightarrow>
          (case split_trailing_year_suffix t of
             Some (p, y) \<Rightarrow> ([p], Some y)
           | None \<Rightarrow>
               (case parse_episode_token_marker alnum t of
                  Some m \<Rightarrow>
                    ((case title_prefix m of None \<Rightarrow> [] | Some p \<Rightarrow> [p]), parse_year_after_episode_token ts 0)
                | None \<Rightarrow>
                    if is_release_token t then ([], None)
                    else (let (rest, y) = title_scan alnum ts in (t # rest, y)))))"

record parsed_name =
  pn_title :: ustr
  pn_year :: "int option"
  has_meaningful_title :: bool

definition parse_title_year_from_humanized_name :: "(nat \<Rightarrow> bool) \<Rightarrow> ustr \<Rightarrow> parsed_name" where
  "parse_title_year_from_humanized_name alnum value =
     (let (ts, y) = title_scan alnum (split_whitespace value);
          title_tokens = trim_matches is_separator_token ts;
          title = words_text title_tokens
      in \<lparr>pn_title = (if title = [] then value else title), pn_year = y,
          has_meaningful_title = (title_tokens \<noteq> [])\<rparr>)"

subsection \<open>Folders\<close>

definition is_generic_library_folder :: "ustr \<Rightarrow> bool" where
  "is_generic_library_folder value =
     (to_ascii_lowercase (trim value) \<in> set (map lit
        [''movie'', ''movies'', ''film'', ''films'', ''media'', ''video'', ''videos'', ''series'', ''shows'', ''tv'', ''tv shows''])
      \<or> trim value \<in> {[30005, 24433], [21095, 38598], [30005, 35270, 21095], [21160, 30011], [21160, 28459]})"

definition is_collection_folder_title :: "ustr \<Rightarrow> bool" where
  "is_collection_folder_title value =
     (list_ex (\<lambda>p. contains_str p (to_ascii_lowercase (trim value))) (map lit
        [''collection'', ''box set'', ''boxset'', ''anthology'', ''trilogy'', ''tetralogy'', ''saga''])
      \<or> list_ex (\<lambda>p. contains_str p (trim value)) [[21512, 38598], [20840, 38598], [31995, 21015]])"

definition season_number_from_folder_title :: "ustr \<Rightarrow> int option" where
  "season_number_from_folder_title value =
     (let normalized = to_ascii_lowercase (normalize_words (blank_separators value));
          compact = List.filter (\<lambda>c. c \<noteq> 32) normalized
      in or_else (Option.bind (strip_prefix (lit ''season '') normalized) parse_short_number_token)
           (or_else (Option.bind (strip_prefix [115] compact) parse_short_number_token)
              (Option.bind (Option.bind (strip_prefix [31532] compact) (strip_suffix [23395]))
                 parse_short_number_token)))"

definition is_season_folder_title :: "ustr \<Rightarrow> bool" where
  "is_season_folder_title value = (season_number_from_folder_title value \<noteq> None)"

fun some_adjacent :: "('a \<Rightarrow> 'a \<Rightarrow> bool) \<Rightarrow> 'a list \<Rightarrow> bool" where
  "some_adjacent P (x # y # xs) = (P x y \<or> some_adjacent P (y # xs))"
| "some_adjacent P _ = False"

definition is_season_directory_name :: "ustr \<Rightarrow> bool" where
  "is_season_directory_name value =
     (let normalized = normalize_words (blank_separators (trim value));
          tokens = split_whitespace (to_ascii_lowercase normalized)
      in some_adjacent (\<lambda>a b. a = lit ''season'' \<and> parse_short_number_token b \<noteq> None) tokens
         \<or> (23395 \<in> set normalized \<and> list_ex is_ascii_digit normalized)
         \<or> list_ex (\<lambda>t. case strip_prefix [115] t of
                None \<Rightarrow> False
              | Some s \<Rightarrow> s \<noteq> [] \<and> length s \<le> 3 \<and> list_all is_ascii_digit s) tokens)"

definition is_valid_container_title :: "(nat \<Rightarrow> bool) \<Rightarrow> ustr \<Rightarrow> bool" where
  "is_valid_container_title alnum value =
     (let t = trim value in
      t \<noteq> [] \<and> list_ex alnum t
      \<and> \<not> list_all is_ascii_digit (List.filter (\<lambda>c. \<not> is_whitespace c) t)
      \<and> \<not> is_generic_library_folder t \<and> \<not> is_collection_folder_title t
      \<and> to_ascii_lowercase t \<notin> set (map lit
           [''mainland'', ''new folder'', ''untitled folder'', ''uncategorized'', ''temporary'', ''temp'', ''tmp''])
      \<and> t \<notin> {[22269, 20135, 21095], [28023, 22806, 21095], [26032, 24314, 25991, 20214, 22841],
              [26410, 20998, 31867], [20020, 26102, 25991, 20214], [20020, 26102, 30446, 24405]})"

definition humanize_directory_title :: "ustr \<Rightarrow> ustr option" where
  "humanize_directory_title value =
     (let title = normalize_words (decode_basic_html_entities (blank_separators value)) in
      if title = [] then None else Some title)"

subsection \<open>TMDB ids in folder names\<close>

definition parse_tmdb_identity_token :: "ustr \<Rightarrow> ustr option" where
  "parse_tmdb_identity_token value =
     (let normalized = to_ascii_lowercase (trim value) in
      case or_else (strip_prefix (lit ''tmdb-'') normalized) (strip_prefix (lit ''tmdbid-'') normalized) of
        None \<Rightarrow> None
      | Some i \<Rightarrow>
          (case parse_i64 i of
             None \<Rightarrow> None
           | Some n \<Rightarrow> if 0 < n then Some (nat_text (nat n)) else None))"

definition strip_trailing_tmdb_identity :: "ustr \<Rightarrow> ustr \<times> ustr option" where
  "strip_trailing_tmdb_identity value =
     (let trimmed = trim value in
      case (if ends_with [125] trimmed then Some 123 else if ends_with [93] trimmed then Some 91 else None) of
        None \<Rightarrow> (trimmed, None)
      | Some opening \<Rightarrow>
          (case rsplit_once opening trimmed of
             None \<Rightarrow> (trimmed, None)
           | Some (front, after) \<Rightarrow>
               (case parse_tmdb_identity_token (butlast after) of
                  None \<Rightarrow> (trimmed, None)
                | Some i \<Rightarrow>
                    (trim_end_matches (\<lambda>c. is_whitespace c \<or> is_filename_word_separator_char c) front, Some i))))"

end
