(* ===== verification/Media_Name.thy ===== *)
theory Media_Name
  imports Name_Tokens Rust_Path
begin

text \<open>
  What a media file is by its name and place (\<open>mova-scan/src/parse.rs\<close>): the season and episode
  it carries, the title and year, and the folder that names the work. A file with an episode
  number alone (\<open>EP01\<close>) only counts as an episode when its folder proves a series. The folder
  listing and the movie sidecar test of \<open>sidecar.rs\<close> are functions of the environment; the cache
  of listings, keyed by the folder's modification time, is left out.
\<close>

record name_env =
  alphanumeric :: "nat \<Rightarrow> bool"
  lowercase_text :: "ustr \<Rightarrow> ustr"
  files_in :: "path \<Rightarrow> ustr list option"
  movie_nfo :: "path \<Rightarrow> bool"

subsection \<open>Paths\<close>

definition path_file_name :: "path \<Rightarrow> ustr option" where
  "path_file_name p = (if p = [] \<or> \<not> is_normal_component (last p) then None else Some (last p))"

definition path_parent :: "path \<Rightarrow> path option" where
  "path_parent p = (if p = [] \<or> p = root_dir then None else Some (butlast p))"

definition path_file_stem :: "path \<Rightarrow> ustr option" where
  "path_file_stem p = Option.bind (path_file_name p) file_stem"

definition extension_lowercase :: "path \<Rightarrow> ustr option" where
  "extension_lowercase p =
     map_option to_ascii_lowercase (Option.bind (path_file_name p) file_extension)"

definition is_supported_video :: "path \<Rightarrow> bool" where
  "is_supported_video p =
     (case extension_lowercase p of
        None \<Rightarrow> False
      | Some e \<Rightarrow> e \<in> set (map lit
          [''mp4'', ''mkv'', ''avi'', ''mov'', ''m4v'', ''wmv'', ''flv'', ''webm'', ''mpg'', ''mpeg'', ''strm'']))"

text \<open>\<open>Path::with_extension("nfo")\<close>.\<close>

definition with_nfo :: "path \<Rightarrow> path" where
  "with_nfo p = (case path_file_stem p of None \<Rightarrow> p | Some s \<Rightarrow> butlast p @ [s @ lit ''.nfo''])"

definition humanize_file_stem :: "path \<Rightarrow> ustr" where
  "humanize_file_stem p =
     normalize_words (decode_basic_html_entities (blank_separators
       (case path_file_stem p of None \<Rightarrow> lit ''unknown'' | Some s \<Rightarrow> s)))"

subsection \<open>Episode numbers alone\<close>

record episode_only_marker =
  mk_index :: nat
  mk_consumed :: nat
  mk_title_prefix :: "ustr option"
  mk_episode_number :: int

record only_candidate =
  title_key :: ustr
  cd_year :: "int option"
  cd_episode_number :: int

text \<open>\<open>rfind\<close> of a character in the token without its last one, as a split.\<close>

definition parse_chinese_episode_only_token :: "(nat \<Rightarrow> bool) \<Rightarrow> ustr \<Rightarrow> (ustr option \<times> int) option" where
  "parse_chinese_episode_only_token alnum t =
     Option.bind (strip_suffix [38598] t) (\<lambda>body.
     Option.bind (rsplit_once 31532 body) (\<lambda>(prefix, number).
     map_option (\<lambda>n. (if list_ex alnum prefix then Some prefix else None, n)) (parse_episode_only_number number)))"

definition nth_opt :: "'a list \<Rightarrow> nat \<Rightarrow> 'a option" where
  "nth_opt xs i = (if i < length xs then Some (xs ! i) else None)"

definition episode_only_marker_at :: "(nat \<Rightarrow> bool) \<Rightarrow> ustr list \<Rightarrow> nat \<Rightarrow> episode_only_marker option" where
  "episode_only_marker_at alnum ts i =
     (let t = ts ! i; lower = to_ascii_lowercase t;
          marker = (\<lambda>consumed prefix n. \<lparr>mk_index = i, mk_consumed = consumed, mk_title_prefix = prefix,
             mk_episode_number = n\<rparr>);
          next_number = Option.bind (nth_opt ts (i + 1)) parse_episode_only_number
      in or_else (map_option (marker 1 None) (Option.bind (strip_prefix (lit ''ep'') lower) parse_episode_only_number))
        (or_else (if lower = lit ''ep'' then map_option (marker 2 None) next_number else None)
        (or_else (map_option (marker 1 None) (Option.bind (strip_prefix (lit ''e'') lower) parse_episode_only_number))
        (or_else (if t = [31532] \<and> nth_opt ts (i + 2) = Some [38598] then map_option (marker 3 None) next_number else None)
                 (map_option (\<lambda>(p, n). marker 1 p n) (parse_chinese_episode_only_token alnum t))))))"

definition parse_episode_only_marker :: "(nat \<Rightarrow> bool) \<Rightarrow> ustr list \<Rightarrow> episode_only_marker option" where
  "parse_episode_only_marker alnum ts = find_map (episode_only_marker_at alnum ts) [0..<length ts]"

definition pop_separators :: "ustr list \<Rightarrow> ustr list" where
  "pop_separators ts = trim_end_matches is_separator_token ts"

definition episode_only_candidate ::
  "name_env \<Rightarrow> ustr list \<Rightarrow> (episode_only_marker \<times> only_candidate) option" where
  "episode_only_candidate N ts =
     (if list_ex (\<lambda>t. parse_episode_token_marker (alphanumeric N) t \<noteq> None) ts then None
      else case parse_episode_only_marker (alphanumeric N) ts of
             None \<Rightarrow> None
           | Some m \<Rightarrow>
               (let prefix_text = words_text (pop_separators (take (mk_index m) ts
                      @ (case mk_title_prefix m of None \<Rightarrow> [] | Some p \<Rightarrow> [p])));
                    (key, prefix_year) =
                      (if trim prefix_text = [] then ([], None)
                       else (let p = parse_title_year_from_humanized_name (alphanumeric N) prefix_text
                             in (lowercase_text N (pn_title p), pn_year p)))
                in Some (m, \<lparr>title_key = key,
                       cd_year = or_else prefix_year
                         (parse_year_after_episode_token ts (mk_index m + mk_consumed m)),
                       cd_episode_number = mk_episode_number m\<rparr>)))"

definition directory_episode_only_candidates :: "name_env \<Rightarrow> path \<Rightarrow> only_candidate list" where
  "directory_episode_only_candidates N dir =
     (case files_in N dir of
        None \<Rightarrow> []
      | Some names \<Rightarrow>
          List.map_filter
            (\<lambda>p. if is_supported_video p
                 then map_option snd (episode_only_candidate N (split_whitespace (humanize_file_stem p)))
                 else None)
            (map (\<lambda>n. dir @ [n]) names))"

definition has_own_movie_nfo :: "name_env \<Rightarrow> path \<Rightarrow> bool" where
  "has_own_movie_nfo N p = movie_nfo N (with_nfo p)"

text \<open>
  The folder proves a series: two different episode numbers under the file's title, no two
  years, the file's own number among them, and no movie sidecar of its own.
\<close>

definition group_of :: "name_env \<Rightarrow> path \<Rightarrow> only_candidate \<Rightarrow> only_candidate list" where
  "group_of N dir c = List.filter (\<lambda>s. title_key s = title_key c) (directory_episode_only_candidates N dir)"

definition proven_series :: "name_env \<Rightarrow> path \<Rightarrow> path \<Rightarrow> only_candidate \<Rightarrow> bool" where
  "proven_series N p dir c =
     (let group = group_of N dir c;
          episode_numbers = remdups (map cd_episode_number group);
          years = remdups (List.map_filter cd_year group)
      in \<not> (length episode_numbers < 2 \<or> 1 < length years
             \<or> cd_episode_number c \<notin> set episode_numbers \<or> has_own_movie_nfo N p))"

definition proven_episode_only_marker ::
  "name_env \<Rightarrow> path \<Rightarrow> ustr list \<Rightarrow> (episode_only_marker \<times> int) option" where
  "proven_episode_only_marker N p ts =
     Option.bind (episode_only_candidate N ts) (\<lambda>(m, c).
     Option.bind (path_parent p) (\<lambda>dir.
       if \<not> proven_series N p dir c then None
       else Some (m, case Option.bind (path_file_name dir) season_number_from_folder_title of
                       None \<Rightarrow> 1 | Some s \<Rightarrow> s)))"

text \<open>\<open>{:02}\<close> of a number.\<close>

definition two_digits :: "int \<Rightarrow> ustr" where
  "two_digits n =
     (if n < 0 then 45 # nat_text (nat (- n)) else if n < 10 then 48 # nat_text (nat n) else nat_text (nat n))"

definition canonical_marker :: "int \<Rightarrow> int \<Rightarrow> ustr" where
  "canonical_marker s e = 83 # two_digits s @ 69 # two_digits e"

definition humanized_stem_for_identity :: "name_env \<Rightarrow> path \<Rightarrow> ustr" where
  "humanized_stem_for_identity N p =
     (let normalized = humanize_file_stem p; ts = split_whitespace normalized in
      case proven_episode_only_marker N p ts of
        None \<Rightarrow> normalized
      | Some (m, s) \<Rightarrow>
          (let canonical = canonical_marker s (mk_episode_number m);
               replacement = (case mk_title_prefix m of None \<Rightarrow> canonical | Some pre \<Rightarrow> pre @ canonical)
           in words_text (take (mk_index m) ts @ [replacement] @ drop (mk_index m + mk_consumed m) ts)))"

subsection \<open>Episodes\<close>

record parsed_episode_identity =
  id_season_number :: int
  id_episode_number :: int
  id_episode_title :: "ustr option"

definition number_text :: "int \<Rightarrow> ustr" where
  "number_text n = (if n < 0 then 45 # nat_text (nat (- n)) else nat_text (nat n))"

definition is_generic_episode_title :: "ustr \<Rightarrow> int \<Rightarrow> bool" where
  "is_generic_episode_title value e =
     (let normalized = normalize_words value; lower = to_ascii_lowercase normalized in
      lower = lit ''episode '' @ number_text e
      \<or> lower = lit ''ep '' @ number_text e
      \<or> normalized = [31532, 32] @ number_text e @ [32, 38598]
      \<or> normalized = [31532] @ number_text e @ [38598])"

text \<open>The first token with a marker, its marker, and the tokens before and after it.\<close>

fun find_marker :: "(nat \<Rightarrow> bool) \<Rightarrow> ustr list \<Rightarrow> (ustr list \<times> episode_token \<times> ustr list) option" where
  "find_marker alnum [] = None"
| "find_marker alnum (t # ts) =
     (case parse_episode_token_marker alnum t of
        Some m \<Rightarrow> Some ([], m, ts)
      | None \<Rightarrow> map_option (\<lambda>(a, m, b). (t # a, m, b)) (find_marker alnum ts))"

definition parse_episode_identity :: "name_env \<Rightarrow> path \<Rightarrow> parsed_episode_identity option" where
  "parse_episode_identity N p =
     (case find_marker (alphanumeric N) (split_whitespace (humanized_stem_for_identity N p)) of
        None \<Rightarrow> None
      | Some (front, m, after) \<Rightarrow>
          (let title_tokens = trim_matches is_separator_token
                 (takeWhile (\<lambda>t. parse_year_token t = None \<and> \<not> is_release_token t) after);
               title = words_text title_tokens
           in Some \<lparr>id_season_number = season_number m, id_episode_number = episode_number m,
                id_episode_title =
                  (if title_tokens = [] \<or> title = [] \<or> is_generic_episode_title title (episode_number m)
                   then None else Some title)\<rparr>))"

definition is_likely_episode_path :: "name_env \<Rightarrow> path \<Rightarrow> bool" where
  "is_likely_episode_path N p = (parse_episode_identity N p \<noteq> None)"

definition episode_identity_for_path :: "name_env \<Rightarrow> path \<Rightarrow> (int \<times> int) option" where
  "episode_identity_for_path N p =
     map_option (\<lambda>i. (id_season_number i, id_episode_number i)) (parse_episode_identity N p)"

subsection \<open>Titles\<close>

definition has_leading_sequence_index :: "path \<Rightarrow> bool" where
  "has_leading_sequence_index p =
     (case Option.bind (path_parent p) path_file_name of
        None \<Rightarrow> False
      | Some folder \<Rightarrow>
          (if \<not> (is_collection_folder_title folder \<or> is_season_folder_title folder) then False
           else case path_file_stem p of
             None \<Rightarrow> False
           | Some stem \<Rightarrow>
               (let digits = takeWhile is_ascii_digit stem; rest = drop (length digits) stem in
                if digits = [] \<or> 3 < length digits then False
                else case rest of
                       separator # c # _ \<Rightarrow>
                         separator \<in> {46, 95, 45, 32, 12289} \<and> \<not> is_ascii_digit c
                     | _ \<Rightarrow> False)))"

definition strip_leading_sequence_index :: "ustr \<Rightarrow> ustr" where
  "strip_leading_sequence_index title =
     (case split_whitespace title of
        t # ts \<Rightarrow> if 2 \<le> length ts \<and> parse_short_number_token t \<noteq> None then words_text ts else title
      | [] \<Rightarrow> title)"

definition parse_media_name :: "name_env \<Rightarrow> path \<Rightarrow> parsed_name" where
  "parse_media_name N p =
     (let normalized = humanized_stem_for_identity N p;
          parsed = parse_title_year_from_humanized_name (alphanumeric N) normalized;
          title = (if has_leading_sequence_index p then strip_leading_sequence_index (pn_title parsed)
                   else pn_title parsed)
      in parsed\<lparr>pn_title := (if title = [] then normalized else title)\<rparr>)"

record series_file_metadata =
  sf_display_title :: ustr
  sf_title :: ustr
  sf_season_number :: int
  sf_year :: "int option"
  sf_season_air_year :: "int option"

definition infer_series_file_metadata :: "name_env \<Rightarrow> path \<Rightarrow> series_file_metadata option" where
  "infer_series_file_metadata N p =
     (case find_marker (alphanumeric N) (split_whitespace (humanized_stem_for_identity N p)) of
        None \<Rightarrow> None
      | Some (front, m, after) \<Rightarrow>
          (let title_tokens = pop_separators
                 (front @ (case title_prefix m of None \<Rightarrow> [] | Some pre \<Rightarrow> [pre])) in
           if title_tokens = [] then None
           else
             (let display = words_text title_tokens;
                  parsed = parse_title_year_from_humanized_name (alphanumeric N) display in
              if trim (pn_title parsed) = [] \<or> is_generic_library_folder (pn_title parsed)
                \<or> is_collection_folder_title (pn_title parsed) then None
              else
                (let year = or_else (pn_year parsed) (parse_year_after_episode_token after 0);
                     first = (season_number m = 1)
                 in Some \<lparr>sf_display_title = display, sf_title = pn_title parsed,
                      sf_season_number = season_number m, sf_year = (if first then year else None),
                      sf_season_air_year = (if first then None else year)\<rparr>))))"

definition has_meaningful_file_title :: "name_env \<Rightarrow> path \<Rightarrow> bool" where
  "has_meaningful_file_title N p =
     (let parsed = parse_media_name N p in
      has_meaningful_title parsed \<and> is_valid_container_title (alphanumeric N) (pn_title parsed)
      \<and> \<not> is_season_directory_name (pn_title parsed) \<and> \<not> is_technical_directory_name (pn_title parsed))"

subsection \<open>Folders that name the work\<close>

record media_container_identity =
  mc_container_path :: path
  mc_display_title :: ustr
  mc_title :: ustr
  mc_year :: "int option"
  mc_tmdb_id :: "ustr option"

definition relative_media_parent :: "path \<Rightarrow> path \<Rightarrow> path option" where
  "relative_media_parent p root =
     (case strip_prefix root p of
        None \<Rightarrow> None
      | Some rel \<Rightarrow>
          if list_ex (\<lambda>c. c = [46, 46] \<or> c = [47]) rel then None
          else case path_parent rel of
                 None \<Rightarrow> None | Some parent \<Rightarrow> if parent = [] then None else Some parent)"

definition parse_container_identity :: "name_env \<Rightarrow> ustr \<Rightarrow> path \<Rightarrow> media_container_identity option" where
  "parse_container_identity N value container =
     (let (without, tmdb) = strip_trailing_tmdb_identity value in
      case humanize_directory_title without of
        None \<Rightarrow> None
      | Some display \<Rightarrow>
          (let parsed = parse_title_year_from_humanized_name (alphanumeric N) display in
           if \<not> has_meaningful_title parsed \<or> \<not> is_valid_container_title (alphanumeric N) (pn_title parsed)
             \<or> is_season_directory_name (pn_title parsed) \<or> is_technical_directory_name (pn_title parsed)
           then None
           else Some \<lparr>mc_container_path = container, mc_display_title = display,
                  mc_title = pn_title parsed, mc_year = pn_year parsed, mc_tmdb_id = tmdb\<rparr>))"

text \<open>Up the folders, past season and technical ones; the argument counts them, the last first.\<close>

fun climb_containers :: "name_env \<Rightarrow> ustr list \<Rightarrow> media_container_identity option" where
  "climb_containers N [] = None"
| "climb_containers N (d # outer) =
     (if \<not> is_normal_component d then None
      else if is_season_directory_name d \<or> is_technical_directory_name d then climb_containers N outer
      else parse_container_identity N d (rev (d # outer)))"

definition infer_series_container_identity ::
  "name_env \<Rightarrow> path \<Rightarrow> path \<Rightarrow> media_container_identity option" where
  "infer_series_container_identity N p root =
     (if parse_episode_identity N p = None then None
      else case relative_media_parent p root of
             None \<Rightarrow> None | Some parent \<Rightarrow> climb_containers N (rev parent))"

definition infer_movie_container_identity ::
  "name_env \<Rightarrow> path \<Rightarrow> path \<Rightarrow> media_container_identity option" where
  "infer_movie_container_identity N p root =
     (if parse_episode_identity N p \<noteq> None then None
      else case relative_media_parent p root of
             None \<Rightarrow> None
           | Some parent \<Rightarrow>
               (case path_file_name parent of
                  None \<Rightarrow> None
                | Some d \<Rightarrow>
                    if is_season_directory_name d \<or> is_technical_directory_name d then None
                    else parse_container_identity N d parent))"

end
