(* ===== verification/Media_Identity.thy ===== *)
theory Media_Identity
  imports Media_Name
begin

text \<open>
  When a file is an episode: a full marker in its name is read back with its numbers, and a
  number alone makes an episode just when the folder proves a series. Also a resolution in a
  name that reads as a marker.
\<close>

subsection \<open>Markers\<close>

lemma parse_i32_digits:
  assumes "t \<noteq> []" and "list_all is_ascii_digit t"
  shows "parse_i32 t = (if digits_val t < 2 ^ 31 then Some (int (digits_val t)) else None)"
proof -
  obtain c cs where t: "t = c # cs" using assms(1) by (cases t) auto
  then have "c \<noteq> 43" "c \<noteq> 45" using assms(2) by (auto simp: is_ascii_digit_def)
  then show ?thesis using assms by (auto simp: parse_signed_def t parse_digits_def)
qed

lemma two_digits:
  assumes "0 \<le> n" and "n < 2 ^ 31"
  shows "two_digits n \<noteq> []" and "list_all is_ascii_digit (two_digits n)" and "parse_i32 (two_digits n) = Some n"
proof -
  define k where "k = nat n"
  have n: "n = int k" "k < 2 ^ 31" using assms by (auto simp: k_def)
  have digits: "two_digits n \<noteq> []" "list_all is_ascii_digit (two_digits n)"
    using nat_text_digits [of k] by (auto simp: two_digits_def n(1) is_ascii_digit_def [of 48])
  moreover have "digits_val (two_digits n) = k"
    using digits_val_nat_text [of k] by (simp add: two_digits_def n(1) digits_val_def)
  ultimately show "two_digits n \<noteq> []" and "list_all is_ascii_digit (two_digits n)"
    and "parse_i32 (two_digits n) = Some n"
    using n by (simp_all add: parse_i32_digits)
qed

lemma digits_no: "list_all is_ascii_digit t \<Longrightarrow> \<not> is_ascii_digit c \<Longrightarrow> c \<notin> set t"
  by (auto simp: list_all_iff)

lemma split_at_first_append:
  assumes "\<forall>x\<in>set a. \<not> P x" and "P c"
  shows "split_at_first P (a @ c # b) = Some (a, b)"
  using assms by (simp add: split_at_first_def takeWhile_append2 dropWhile_append2)

lemma split_at_first_Some: "split_at_first P t = Some (a, b) \<Longrightarrow> \<exists>c. P c \<and> t = a @ c # b"
proof -
  assume "split_at_first P t = Some (a, b)"
  then have ex: "\<exists>x\<in>set t. P x" and a: "a = takeWhile (\<lambda>c. \<not> P c) t" and b: "b = tl (dropWhile (\<lambda>c. \<not> P c) t)"
    by (auto simp: split_at_first_def list_ex_iff split: if_splits)
  then have "dropWhile (\<lambda>c. \<not> P c) t \<noteq> []" by (auto simp: dropWhile_eq_Nil_conv)
  then have "P (hd (dropWhile (\<lambda>c. \<not> P c) t))" "dropWhile (\<lambda>c. \<not> P c) t = hd (dropWhile (\<lambda>c. \<not> P c) t) # b"
    using b ex hd_dropWhile [where P = "\<lambda>c. \<not> P c" and xs = t] by auto
  then show ?thesis using a takeWhile_dropWhile_id [of "\<lambda>c. \<not> P c" t] by metis
qed

lemma full_marker_canonical:
  assumes "0 \<le> s" "s < 2 ^ 31" "0 \<le> e" "e < 2 ^ 31"
  shows "full_marker (canonical_marker s e) = Some (s, e)"
proof -
  have "\<forall>x\<in>set (two_digits s). \<not> (x = 69 \<or> x = 101)"
    using two_digits(2) [OF assms(1,2)] by (auto simp: list_all_iff is_ascii_digit_def)
  then have "split_at_first (\<lambda>x. x = 69 \<or> x = 101) (two_digits s @ 69 # two_digits e) = Some (two_digits s, two_digits e)"
    by (rule split_at_first_append) simp
  moreover have "\<not> length (two_digits s) + length (two_digits e) < 2"
    using two_digits(1) [OF assms(1,2)] two_digits(1) [OF assms(3,4)]
    by (cases "two_digits s"; cases "two_digits e") auto
  ultimately have "parse_series_token (canonical_marker s e) = Some (s, e)"
    using two_digits [OF assms(1,2)] two_digits [OF assms(3,4)]
    by (simp add: parse_series_token_def canonical_marker_def digit_pair_def)
  then show ?thesis by (simp add: full_marker_def)
qed

text \<open>A full marker has nothing but digits and its letters, so one glued to a title is not one.\<close>

lemma full_marker_chars:
  assumes "full_marker t = Some x" and "c \<in> set (tl t)"
  shows "is_ascii_digit c \<or> c \<in> {69, 101, 120, 88}"
proof -
  have pair: "list_all is_ascii_digit a \<and> list_all is_ascii_digit b" if "digit_pair a b = Some y" for a b y
    using that by (auto simp: digit_pair_def split: if_splits)
  show ?thesis
  proof (cases "parse_series_token t")
    case (Some y)
    then obtain d s a b where t: "t = d # s" and split: "split_at_first (\<lambda>x. x = 69 \<or> x = 101) s = Some (a, b)"
        and p: "digit_pair a b = Some y"
      by (auto simp: parse_series_token_def split: list.splits option.splits if_splits)
    from split_at_first_Some [OF split] obtain z where "z = 69 \<or> z = 101" "s = a @ z # b" by blast
    then show ?thesis using assms(2) t pair [OF p] by (auto simp: list_all_iff)
  next
    case None
    then obtain a b where split: "split_at_first (\<lambda>x. x = 120) (to_ascii_lowercase t) = Some (a, b)"
        and p: "digit_pair a b = Some x"
      using assms(1) by (auto simp: full_marker_def parse_x_episode_token_def split: option.splits)
    from split_at_first_Some [OF split] have l: "to_ascii_lowercase t = a @ 120 # b" by blast
    have "to_ascii_lower c \<in> set (to_ascii_lowercase t)"
      using assms(2) by (cases t) (auto simp: to_ascii_lowercase_def)
    then have "is_ascii_digit (to_ascii_lower c) \<or> to_ascii_lower c = 120"
      using pair [OF p] unfolding l by (auto simp: list_all_iff)
    then show ?thesis by (auto simp: to_ascii_lower_def is_ascii_digit_def is_ascii_upper_def split: if_splits)
  qed
qed

lemma find_map_append: "find_map f (xs @ ys) = or_else (find_map f xs) (find_map f ys)"
  by (induction xs) (auto split: option.splits)

lemma find_map_upt:
  assumes "\<And>k. a \<le> k \<Longrightarrow> k < m \<Longrightarrow> f k = None" and "a \<le> m" "m < n" and "f m = Some y"
  shows "find_map f [a..<n] = Some y"
proof -
  have "[a..<n] = [a..<m] @ [m..<n]" using upt_add_eq_append [of a m "n - m"] assms(2,3) by simp
  moreover have "find_map f [a..<m] = None" using assms(1) by (auto simp: find_map_None_iff)
  moreover have "[m..<n] = m # [Suc m..<n]" using assms(3) by (simp add: upt_conv_Cons)
  ultimately show ?thesis using assms(4) by (simp add: find_map_append)
qed

lemma glued_marker:
  assumes "list_ex alnum pre" and "0 \<le> s" "s < 2 ^ 31" "0 \<le> e" "e < 2 ^ 31"
  shows "parse_episode_token_marker alnum (pre @ canonical_marker s e)
    = Some \<lparr>title_prefix = Some pre, season_number = s, episode_number = e\<rparr>"
proof -
  let ?c = "canonical_marker s e"
  have none: "full_marker (drop k pre @ ?c) = None" if "k < length pre" for k
  proof (rule ccontr)
    assume "full_marker (drop k pre @ ?c) \<noteq> None"
    then obtain x where "full_marker (drop k pre @ ?c) = Some x" by blast
    moreover have "83 \<in> set (tl (drop k pre @ ?c))"
      using that by (cases "drop k pre") (simp_all add: canonical_marker_def)
    ultimately have "is_ascii_digit 83 \<or> (83 :: nat) \<in> {69, 101, 120, 88}" by (rule full_marker_chars)
    then show False by (simp add: is_ascii_digit_def)
  qed
  let ?f = "\<lambda>k. if \<not> list_ex alnum (take k (pre @ ?c)) then None
         else map_option (\<lambda>(s, e). \<lparr>title_prefix = Some (take k (pre @ ?c)), season_number = s, episode_number = e\<rparr>)
                (full_marker (drop k (pre @ ?c)))"
  have "pre \<noteq> []" using assms(1) by auto
  have "find_map ?f [1..<length (pre @ ?c)] = Some \<lparr>title_prefix = Some pre, season_number = s, episode_number = e\<rparr>"
    by (rule find_map_upt [where m = "length pre"])
      (use none full_marker_canonical [OF assms(2-5)] assms(1) \<open>pre \<noteq> []\<close> in
        \<open>auto simp: canonical_marker_def Suc_le_eq\<close>)
  then show ?thesis
    using none [of 0] \<open>pre \<noteq> []\<close> by (simp add: parse_episode_token_marker_def parse_embedded_episode_token_def)
qed


subsection \<open>Words\<close>

definition is_word :: "ustr \<Rightarrow> bool" where
  "is_word t = (t \<noteq> [] \<and> list_all (\<lambda>c. \<not> is_whitespace c) t)"

lemma split_whitespace_words: "list_all is_word (split_whitespace s)"
  using split_whitespace_mem by (auto simp: list_all_iff is_word_def)

lemma split_by_append:
  assumes "list_all (\<lambda>x. \<not> P x) t" and "P c"
  shows "split_by P (t @ c # s) = t # split_by P s"
  using assms by (induction t) auto

lemma split_whitespace_words_text: "list_all is_word ts \<Longrightarrow> split_whitespace (words_text ts) = ts"
proof (induction ts rule: induct_list012)
  case (2 t)
  then have "split_by is_whitespace t = [t]" by (intro split_by_no_sep) (auto simp: is_word_def list_all_iff)
  then show ?case using 2 by (simp add: words_text_def split_whitespace_def is_word_def)
next
  case (3 t u ts)
  have "is_whitespace 32" by (simp add: is_whitespace_def)
  then have "split_by is_whitespace (words_text (t # u # ts)) = t # split_by is_whitespace (words_text (u # ts))"
    using 3(3) by (simp add: words_text_def split_by_append is_word_def)
  then show ?case using 3 by (simp add: split_whitespace_def is_word_def)
qed (simp add: words_text_def split_whitespace_def)

lemma find_marker_split:
  assumes "list_all (\<lambda>t. parse_episode_token_marker alnum t = None) a" and "parse_episode_token_marker alnum t = Some m"
  shows "find_marker alnum (a @ t # b) = Some (a, m, b)"
  using assms by (induction a) auto

lemma find_marker_None:
  "list_all (\<lambda>t. parse_episode_token_marker alnum t = None) ts \<Longrightarrow> find_marker alnum ts = None"
  by (induction ts) auto

lemma identity_of_marker:
  assumes "split_whitespace (humanized_stem_for_identity N p) = a @ t # b"
    and "list_all (\<lambda>t. parse_episode_token_marker (alphanumeric N) t = None) a"
    and "parse_episode_token_marker (alphanumeric N) t = Some m"
  shows "episode_identity_for_path N p = Some (season_number m, episode_number m)"
  using find_marker_split [OF assms(2,3), of b] assms(1)
  by (simp add: episode_identity_for_path_def parse_episode_identity_def Let_def)

lemma identity_of_first_marker:
  assumes "split_whitespace (humanize_file_stem p) = a @ t # b"
    and "list_all (\<lambda>t. parse_episode_token_marker (alphanumeric N) t = None) a"
    and "parse_episode_token_marker (alphanumeric N) t = Some m"
  shows "episode_identity_for_path N p = Some (season_number m, episode_number m)"
proof -
  have "episode_only_candidate N (a @ t # b) = None"
    using assms(3) by (auto simp: episode_only_candidate_def)
  then have "humanized_stem_for_identity N p = humanize_file_stem p"
    by (simp add: humanized_stem_for_identity_def proven_episode_only_marker_def assms(1) Let_def)
  then show ?thesis using identity_of_marker [OF _ assms(2,3)] assms(1) by simp
qed

lemma canonical_marker_token:
  assumes "0 \<le> s" "s < 2 ^ 31" "0 \<le> e" "e < 2 ^ 31"
  shows "parse_episode_token_marker alnum (canonical_marker s e)
    = Some \<lparr>title_prefix = None, season_number = s, episode_number = e\<rparr>"
  by (simp add: parse_episode_token_marker_def full_marker_canonical [OF assms])

text \<open>An instance to evaluate on: two numbered files in every folder, and no sidecars.\<close>

definition demo_names :: name_env where
  "demo_names = \<lparr>alphanumeric = is_ascii_alphanumeric, lowercase_text = to_ascii_lowercase,
     files_in = (\<lambda>d. Some [lit ''Show EP01.mkv'', lit ''Show EP02.mkv'']), movie_nfo = (\<lambda>p. False)\<rparr>"

lemmas name_eval = str_eval split_whitespace_def humanize_file_stem_def path_file_stem_def path_file_name_def
  is_normal_component_def file_stem_def normalize_words_def words_text_def blank_separators_def
  decode_basic_html_entities_def is_filename_word_separator_char_def

lemmas marker_eval = parse_episode_token_marker_def parse_embedded_episode_token_def full_marker_def
  parse_series_token_def parse_x_episode_token_def split_at_first_def digit_pair_def parse_signed_def
  canonical_marker_def two_digits_def nat_text.simps

subsection \<open>Names with a full marker\<close>

text \<open>
  C40. A name whose first marker is \<open>S01E02\<close>, as the program prints a season and an episode, is read
  back as that season and episode, whatever comes before and after it and whatever its folder holds.
\<close>

theorem episode_name_roundtrip:
  assumes "0 \<le> s" "s < 2 ^ 31" "0 \<le> e" "e < 2 ^ 31"
    and "split_whitespace (humanize_file_stem p) = front @ canonical_marker s e # after"
    and "list_all (\<lambda>t. parse_episode_token_marker (alphanumeric N) t = None) front"
  shows "episode_identity_for_path N p = Some (s, e)"
  using identity_of_first_marker [OF assms(5,6) canonical_marker_token [OF assms(1-4)]] by simp

theorem episode_name_roundtrip_witness:
  "episode_identity_for_path demo_names [[47], lit ''Show.S01E02.720p.mkv''] = Some (1, 2)"
  by (rule episode_name_roundtrip [where front = "[lit ''Show'']" and after = "[lit ''720p'']"])
    (simp_all add: name_eval marker_eval demo_names_def)

text \<open>A resolution in a name is read as a marker: season 1920, episode 1080.\<close>

lemma resolution_is_an_episode:
  "episode_identity_for_path demo_names [[47], lit ''Movie 1920x1080.mkv''] = Some (1920, 1080)"
  using identity_of_first_marker [where a = "[lit ''Movie'']" and b = "[]" and t = "lit ''1920x1080''"
      and m = "\<lparr>title_prefix = None, season_number = 1920, episode_number = 1080\<rparr>"
      and p = "[[47], lit ''Movie 1920x1080.mkv'']" and N = demo_names]
  by (simp add: name_eval marker_eval demo_names_def)

subsection \<open>Names with a number alone\<close>

lemma parse_i32_small:
  assumes "parse_i32 u = Some n" "u \<noteq> []" "list_all is_ascii_digit u"
  shows "0 \<le> n \<and> n < 2 ^ 31"
  using assms by (auto simp: parse_i32_digits split: if_splits)

lemma episode_only_number_bounds: "parse_episode_only_number t = Some n \<Longrightarrow> 0 \<le> n \<and> n < 2 ^ 31"
  by (rule parse_i32_small) (auto simp: parse_episode_only_number_def split: if_splits)

lemma short_number_bounds: "parse_short_number_token t = Some n \<Longrightarrow> 0 \<le> n \<and> n < 2 ^ 31"
  by (rule parse_i32_small)
    (auto simp: parse_short_number_token_def is_short_number_token_def Let_def split: if_splits)

lemma season_folder_bounds: "season_number_from_folder_title t = Some n \<Longrightarrow> 0 \<le> n \<and> n < 2 ^ 31"
  by (auto simp: season_number_from_folder_title_def Let_def or_else_def bind_eq_Some_conv
    split: option.splits dest: short_number_bounds)

text \<open>The number is below the bound, and a prefix is a part of the token with a letter or digit.\<close>

lemma chinese_token:
  assumes "parse_chinese_episode_only_token alnum t = Some (q, n)"
  shows "0 \<le> n \<and> n < 2 ^ 31" and "q = Some pre \<Longrightarrow> list_ex alnum pre \<and> set pre \<subseteq> set t"
proof -
  from assms obtain body pre' num where b: "strip_suffix [38598] t = Some body"
      and r: "rsplit_once 31532 body = Some (pre', num)" and n: "parse_episode_only_number num = Some n"
      and q: "q = (if list_ex alnum pre' then Some pre' else None)"
    by (auto simp: parse_chinese_episode_only_token_def bind_eq_Some_conv)
  show "0 \<le> n \<and> n < 2 ^ 31" by (rule episode_only_number_bounds [OF n])
  have "set pre' \<subseteq> set t" using b r by (auto simp: strip_suffix_Some rsplit_once_Some)
  then show "q = Some pre \<Longrightarrow> list_ex alnum pre \<and> set pre \<subseteq> set t" using q by (auto split: if_splits)
qed

lemma marker_at:
  assumes "episode_only_marker_at alnum ts i = Some m"
  shows "mk_index m = i" and "0 \<le> mk_episode_number m \<and> mk_episode_number m < 2 ^ 31"
    and "mk_title_prefix m = Some pre \<Longrightarrow> list_ex alnum pre \<and> set pre \<subseteq> set (ts ! i)"
proof -
  have m: "mk_index m = i \<and> 0 \<le> mk_episode_number m \<and> mk_episode_number m < 2 ^ 31
      \<and> (mk_title_prefix m = None \<or> (\<exists>n. parse_chinese_episode_only_token alnum (ts ! i) = Some (mk_title_prefix m, n)))"
    using assms
    by (auto simp: episode_only_marker_at_def Let_def or_else_def bind_eq_Some_conv
      split: option.splits if_splits dest: episode_only_number_bounds chinese_token(1))
  then show "mk_index m = i" and "0 \<le> mk_episode_number m \<and> mk_episode_number m < 2 ^ 31" by blast+
  show "mk_title_prefix m = Some pre \<Longrightarrow> list_ex alnum pre \<and> set pre \<subseteq> set (ts ! i)"
    using m chinese_token(2) by (metis option.distinct(1))
qed

lemma candidate_marker:
  assumes "episode_only_candidate N ts = Some (m, c)"
  shows "episode_only_marker_at (alphanumeric N) ts (mk_index m) = Some m" and "mk_index m < length ts"
    and "cd_episode_number c = mk_episode_number m"
proof -
  from assms have p: "parse_episode_only_marker (alphanumeric N) ts = Some m"
      and c: "cd_episode_number c = mk_episode_number m"
    by (auto simp: episode_only_candidate_def Let_def split: if_splits option.splits prod.splits)
  from p obtain i where "i < length ts" "episode_only_marker_at (alphanumeric N) ts i = Some m"
    by (auto simp: parse_episode_only_marker_def dest!: find_map_Some_ex)
  with marker_at(1) c show "episode_only_marker_at (alphanumeric N) ts (mk_index m) = Some m"
    and "mk_index m < length ts" and "cd_episode_number c = mk_episode_number m" by metis+
qed


text \<open>The tokens of the name whose number was written out as a full marker.\<close>

lemma proven_name:
  assumes "proven_episode_only_marker N p ts = Some (m, s)"
    and "split_whitespace (humanize_file_stem p) = ts"
  shows "episode_identity_for_path N p = Some (s, mk_episode_number m)"
proof -
  let ?i = "mk_index m"
  let ?c = "canonical_marker s (mk_episode_number m)"
  let ?r = "case mk_title_prefix m of None \<Rightarrow> ?c | Some pre \<Rightarrow> pre @ ?c"
  obtain c dir where cand: "episode_only_candidate N ts = Some (m, c)"
      and s: "s = (case Option.bind (path_file_name dir) season_number_from_folder_title of None \<Rightarrow> 1 | Some s \<Rightarrow> s)"
    using assms(1) by (auto simp: proven_episode_only_marker_def bind_eq_Some_conv split: if_splits)
  note at = candidate_marker [OF cand]
  have bounds: "0 \<le> s" "s < 2 ^ 31" "0 \<le> mk_episode_number m" "mk_episode_number m < 2 ^ 31"
    using s season_folder_bounds marker_at(2) [OF at(1)]
    by (auto simp: bind_eq_Some_conv split: option.splits)
  have marker: "\<exists>q. parse_episode_token_marker (alphanumeric N) ?r
      = Some \<lparr>title_prefix = q, season_number = s, episode_number = mk_episode_number m\<rparr>"
    using canonical_marker_token [OF bounds] glued_marker [OF _ bounds] marker_at(3) [OF at(1)]
    by (cases "mk_title_prefix m") auto
  have none: "list_all (\<lambda>t. parse_episode_token_marker (alphanumeric N) t = None) ts"
    using cand by (auto simp: episode_only_candidate_def list_all_iff list_ex_iff split: if_splits)
  have "list_all is_word ts" using split_whitespace_words assms(2) by blast
  moreover have "is_word ?c"
    using two_digits(2) [OF bounds(1,2)] two_digits(2) [OF bounds(3,4)]
    by (auto simp: is_word_def canonical_marker_def list_all_iff is_whitespace_def is_ascii_digit_def)
  ultimately have "is_word ?r"
    using marker_at(3) [OF at(1)] at(2)
    by (cases "mk_title_prefix m") (auto simp: is_word_def list_all_iff list_ex_iff dest!: nth_mem)
  with \<open>list_all is_word ts\<close> have "list_all is_word (take ?i ts @ [?r] @ drop (?i + mk_consumed m) ts)"
    by (auto simp: list_all_iff dest: in_set_takeD in_set_dropD)
  then have "split_whitespace (humanized_stem_for_identity N p) = take ?i ts @ ?r # drop (?i + mk_consumed m) ts"
    using assms split_whitespace_words_text by (simp add: humanized_stem_for_identity_def Let_def)
  moreover have "list_all (\<lambda>t. parse_episode_token_marker (alphanumeric N) t = None) (take ?i ts)"
    using none by (auto simp: list_all_iff dest: in_set_takeD)
  ultimately show ?thesis using marker identity_of_marker by fastforce
qed

lemma distinct_lt_2: "length (remdups xs) < 2 \<longleftrightarrow> (\<forall>x\<in>set xs. \<forall>y\<in>set xs. x = y)"
  using card_le_Suc0_iff_eq [of "set xs"] by (simp add: length_remdups_card_conv less_Suc_eq_le numeral_2_eq_2)

lemma distinct_values: "\<not> 1 < length (remdups (List.map_filter f xs))
    \<longleftrightarrow> (\<forall>x\<in>set xs. \<forall>y\<in>set xs. f x = None \<or> f y = None \<or> f x = f y)"
proof -
  have two: "\<not> 1 < n \<longleftrightarrow> n < 2" for n :: nat by auto
  have "set (List.map_filter f xs) = {y. \<exists>x\<in>set xs. f x = Some y}"
    by (induction xs) (auto split: option.splits)
  then have "\<not> 1 < length (remdups (List.map_filter f xs))
      \<longleftrightarrow> (\<forall>v w. v \<in> {y. \<exists>x\<in>set xs. f x = Some y} \<longrightarrow> w \<in> {y. \<exists>x\<in>set xs. f x = Some y} \<longrightarrow> v = w)"
    unfolding two distinct_lt_2 by blast
  also have "\<dots> \<longleftrightarrow> (\<forall>x\<in>set xs. \<forall>y\<in>set xs. \<forall>v w. f x = Some v \<longrightarrow> f y = Some w \<longrightarrow> v = w)" by blast
  also have "\<dots> \<longleftrightarrow> (\<forall>x\<in>set xs. \<forall>y\<in>set xs. f x = None \<or> f y = None \<or> f x = f y)"
    by (intro ball_cong refl) (metis not_None_eq option.inject)
  finally show ?thesis .
qed

lemma proven_series_iff:
  "proven_series N p dir c \<longleftrightarrow>
     (\<exists>x\<in>set (group_of N dir c). cd_episode_number x = cd_episode_number c)
     \<and> (\<exists>x\<in>set (group_of N dir c). cd_episode_number x \<noteq> cd_episode_number c)
     \<and> (\<forall>x\<in>set (group_of N dir c). \<forall>y\<in>set (group_of N dir c).
           cd_year x = None \<or> cd_year y = None \<or> cd_year x = cd_year y)
     \<and> \<not> has_own_movie_nfo N p"
proof -
  have numbers: "\<not> length (remdups (map f xs)) < 2 \<and> n \<in> set (map f xs)
      \<longleftrightarrow> (\<exists>x\<in>set xs. f x = n) \<and> (\<exists>x\<in>set xs. f x \<noteq> n)" for f :: "only_candidate \<Rightarrow> int" and xs n
    unfolding distinct_lt_2 set_map by (auto; metis)
  show ?thesis
    using numbers [of cd_episode_number "group_of N dir c" "cd_episode_number c"]
      distinct_values [of cd_year "group_of N dir c"]
    unfolding proven_series_def Let_def set_remdups by blast
qed

text \<open>
  C38. A name without a full marker makes an episode just when it has a number alone, two files of
  its folder under the same title have different numbers, this one's among them, the folder does not
  spell two years for the title, and the file has no movie sidecar of its own. The season is the
  folder's, or 1, and the episode is the number of the name.
\<close>

theorem episode_only_exact:
  assumes "list_all (\<lambda>t. parse_episode_token_marker (alphanumeric N) t = None)
    (split_whitespace (humanize_file_stem p))"
  shows "episode_identity_for_path N p = Some (s, e) \<longleftrightarrow>
    (\<exists>m c dir. episode_only_candidate N (split_whitespace (humanize_file_stem p)) = Some (m, c)
       \<and> path_parent p = Some dir \<and> e = cd_episode_number c
       \<and> s = (case Option.bind (path_file_name dir) season_number_from_folder_title of None \<Rightarrow> 1 | Some k \<Rightarrow> k)
       \<and> (\<exists>x\<in>set (group_of N dir c). cd_episode_number x = e)
       \<and> (\<exists>x\<in>set (group_of N dir c). cd_episode_number x \<noteq> e)
       \<and> (\<forall>x\<in>set (group_of N dir c). \<forall>y\<in>set (group_of N dir c).
            cd_year x = None \<or> cd_year y = None \<or> cd_year x = cd_year y)
       \<and> \<not> has_own_movie_nfo N p)"
proof -
  let ?ts = "split_whitespace (humanize_file_stem p)"
  have "episode_identity_for_path N p = map_option (\<lambda>(m, s). (s, mk_episode_number m)) (proven_episode_only_marker N p ?ts)"
  proof (cases "proven_episode_only_marker N p ?ts")
    case None
    then have "humanized_stem_for_identity N p = humanize_file_stem p"
      by (simp add: humanized_stem_for_identity_def Let_def)
    then show ?thesis
      using find_marker_None [OF assms] None by (simp add: episode_identity_for_path_def parse_episode_identity_def)
  next
    case (Some x)
    then show ?thesis using proven_name by (cases x) auto
  qed
  then have "episode_identity_for_path N p = Some (s, e) \<longleftrightarrow>
    (\<exists>m. proven_episode_only_marker N p ?ts = Some (m, s) \<and> e = mk_episode_number m)" by auto
  also have "\<dots> \<longleftrightarrow> (\<exists>m c dir. episode_only_candidate N ?ts = Some (m, c) \<and> path_parent p = Some dir
       \<and> e = cd_episode_number c
       \<and> s = (case Option.bind (path_file_name dir) season_number_from_folder_title of None \<Rightarrow> 1 | Some k \<Rightarrow> k)
       \<and> proven_series N p dir c)"
    using candidate_marker(3) [of N ?ts]
    by (auto simp: proven_episode_only_marker_def bind_eq_Some_conv split: if_splits)
  finally show ?thesis by (simp add: proven_series_iff cong: conj_cong)
qed


lemma demo_number_names:
  "episode_only_candidate demo_names [lit ''Show'', lit ''EP01'']
    = Some (\<lparr>mk_index = 1, mk_consumed = 1, mk_title_prefix = None, mk_episode_number = 1\<rparr>,
        \<lparr>title_key = lit ''show'', cd_year = None, cd_episode_number = 1\<rparr>)"
  "episode_only_candidate demo_names [lit ''Show'', lit ''EP02'']
    = Some (\<lparr>mk_index = 1, mk_consumed = 1, mk_title_prefix = None, mk_episode_number = 2\<rparr>,
        \<lparr>title_key = lit ''show'', cd_year = None, cd_episode_number = 2\<rparr>)"
  by (simp_all add: episode_only_candidate_def demo_names_def name_eval marker_eval parse_episode_only_marker_def
    episode_only_marker_at_def parse_episode_only_number_def parse_chinese_episode_only_token_def or_else_def nth_opt_def
    pop_separators_def is_separator_token_def is_separator_token_char_def parse_title_year_from_humanized_name_def
    parse_year_token_def split_trailing_year_suffix_def trim_wrapping_punctuation_def is_bracket_char_def
    is_release_token_def release_tags_def parse_year_after_episode_token_def)

lemma demo_words:
  "split_whitespace (humanize_file_stem (d @ [lit ''Show EP01.mkv''])) = [lit ''Show'', lit ''EP01'']"
  "split_whitespace (humanize_file_stem (d @ [lit ''Show EP02.mkv''])) = [lit ''Show'', lit ''EP02'']"
  by (simp_all add: name_eval)

theorem episode_only_exact_witness:
  "episode_identity_for_path demo_names ([[47], lit ''Season 2''] @ [lit ''Show EP01.mkv'']) = Some (2, 1)"
proof -
  let ?d = "[[47], lit ''Season 2'']"
  have group: "directory_episode_only_candidates demo_names d =
      [\<lparr>title_key = lit ''show'', cd_year = None, cd_episode_number = 1\<rparr>,
       \<lparr>title_key = lit ''show'', cd_year = None, cd_episode_number = 2\<rparr>]" for d
  proof -
    have "is_supported_video (d @ [lit ''Show EP01.mkv''])" "is_supported_video (d @ [lit ''Show EP02.mkv''])"
      by (simp_all add: is_supported_video_def extension_lowercase_def file_extension_def name_eval)
    then show ?thesis
      using demo_words demo_number_names by (simp add: directory_episode_only_candidates_def demo_names_def)
  qed
  show ?thesis
    by (rule episode_only_exact [THEN iffD2], simp add: demo_words(1), simp add: name_eval marker_eval demo_names_def)
      (simp only: demo_words(1) demo_number_names(1), simp add: group_of_def group has_own_movie_nfo_def path_parent_def
        root_dir_def, simp add: demo_names_def name_eval season_number_from_folder_title_def or_else_def
        parse_short_number_token_def trim_wrapping_punctuation_def is_bracket_char_def is_short_number_token_def parse_signed_def)
qed

end
