(* ===== verification/Job_Store.thy ===== *)
theory Job_Store
  imports Rust_Text "HOL-Library.List_Lexorder"
begin

text \<open>
  The tables of scans and background jobs (\<open>migrations/0001_init.sql\<close>, \<open>0003_intro_detection.sql\<close>)
  with the rows of \<open>mova-db/src/scan_jobs.rs\<close> and \<open>background_jobs.rs\<close>. The types of jobs are the
  five that the program inserts; of a payload, the fields that statements read. Times are
  microseconds; a statement takes \<open>now()\<close>, the start of its transaction, and where it uses it
  \<open>clock_timestamp()\<close>. A statement that leaves a row or an index of the tables in violation of
  its constraints fails, and with it the transaction.
\<close>

datatype job_error = FenceLost | ConstraintViolation | GroupChanged | GroupMissing | NotRunning | UnsupportedStatus

subsection \<open>Scans\<close>

datatype scan_status = ScanPending | ScanRunning | ScanSuccess | ScanFailed | ScanCancelled

datatype scan_phase = Discovering | Processing | Finalizing | Finished

record scan_row =
  sc_id :: int
  sc_library :: int
  sc_status :: scan_status
  sc_phase :: "scan_phase option"
  sc_total :: int
  sc_scanned :: int
  sc_reused :: int
  sc_analyzed :: int
  sc_committed :: int
  sc_remote :: int
  sc_progress :: int
  sc_created_at :: nat
  sc_started_at :: "nat option"
  sc_finished_at :: "nat option"
  sc_error :: "ustr option"
  sc_scope :: "ustr list option"

definition scan_active :: "scan_row \<Rightarrow> bool" where
  "scan_active r = (sc_status r = ScanPending \<or> sc_status r = ScanRunning)"

text \<open>The check constraints of \<open>scan_jobs\<close>.\<close>

definition scan_shape :: "scan_row \<Rightarrow> bool" where
  "scan_shape r =
     (if scan_active r then sc_finished_at r = None \<and> sc_phase r \<noteq> Some Finished
      else sc_finished_at r \<noteq> None \<and> sc_phase r = Some Finished)"

definition scan_row_ok :: "scan_row \<Rightarrow> bool" where
  "scan_row_ok r =
     (0 \<le> sc_progress r \<and> sc_progress r \<le> 100
      \<and> 0 \<le> sc_total r \<and> 0 \<le> sc_scanned r \<and> 0 \<le> sc_reused r
      \<and> 0 \<le> sc_analyzed r \<and> 0 \<le> sc_committed r \<and> 0 \<le> sc_remote r
      \<and> sc_committed r \<le> sc_analyzed r \<and> sc_remote r \<le> sc_committed r
      \<and> scan_shape r
      \<and> (sc_status r = ScanSuccess \<longrightarrow> sc_progress r = 100))"

record group_row =
  gr_scan :: int
  gr_key :: ustr
  gr_files :: int
  gr_analyzed :: bool
  gr_committed :: bool
  gr_remote :: bool

definition group_row_ok :: "group_row \<Rightarrow> bool" where
  "group_row_ok g = (0 < gr_files g \<and> (gr_committed g \<longrightarrow> gr_analyzed g) \<and> (gr_remote g \<longrightarrow> gr_committed g))"

subsection \<open>Background jobs\<close>

datatype job_type = LibraryScan | CacheCleanup | TmdbRevalidate | ArtworkCleanup | IntroDetect

datatype scope_type = LibraryScope | MediaItemScope

datatype job_status = JobPending | JobRunning | JobCancelRequested | JobCancelled | JobSucceeded | JobFailed

record job_payload =
  pl_library_id :: "int option"
  pl_media_item_id :: "int option"
  pl_scan_job_id :: "int option"
  pl_season_id :: "int option"
  pl_retention_expired :: "bool option"
  pl_maintenance :: "string option"
  pl_provider_item_id :: "ustr option"
  pl_artwork_paths :: "ustr list option"

definition no_payload :: job_payload where
  "no_payload = \<lparr>pl_library_id = None, pl_media_item_id = None, pl_scan_job_id = None, pl_season_id = None,
     pl_retention_expired = None, pl_maintenance = None, pl_provider_item_id = None, pl_artwork_paths = None\<rparr>"

record job_row =
  jb_id :: int
  jb_type :: job_type
  jb_scope_type :: scope_type
  jb_scope :: int
  jb_scan :: "int option"
  jb_payload :: job_payload
  jb_status :: job_status
  jb_attempts :: nat
  jb_max_attempts :: nat
  jb_run_after :: nat
  jb_locked_by :: "ustr option"
  jb_locked_at :: "nat option"
  jb_lease :: "nat option"
  jb_last_error :: "ustr option"
  jb_created_at :: nat
  jb_updated_at :: nat
  jb_finished_at :: "nat option"

fun job_active :: "job_status \<Rightarrow> bool" where
  "job_active JobRunning = True"
| "job_active JobCancelRequested = True"
| "job_active _ = False"

fun job_ended :: "job_status \<Rightarrow> bool" where
  "job_ended JobCancelled = True"
| "job_ended JobSucceeded = True"
| "job_ended JobFailed = True"
| "job_ended _ = False"

text \<open>\<open>background_jobs_state_shape\<close> and \<open>background_jobs_attempt_bounds\<close>.\<close>

definition job_shape :: "job_row \<Rightarrow> bool" where
  "job_shape j =
     (if job_active (jb_status j)
      then jb_locked_by j \<noteq> None \<and> jb_locked_at j \<noteq> None \<and> jb_lease j \<noteq> None \<and> jb_finished_at j = None
      else jb_locked_by j = None \<and> jb_locked_at j = None \<and> jb_lease j = None
           \<and> (jb_finished_at j = None \<longleftrightarrow> jb_status j = JobPending))"

definition job_row_ok :: "job_row \<Rightarrow> bool" where
  "job_row_ok j = (0 < jb_max_attempts j \<and> jb_attempts j \<le> jb_max_attempts j \<and> job_shape j)"

subsection \<open>The store\<close>

record job_store =
  js_libraries :: "int list"
  js_next_library :: int
  js_scans :: "scan_row list"
  js_groups :: "group_row list"
  js_jobs :: "job_row list"
  js_next_scan :: int
  js_next_job :: int

text \<open>
  The unique indexes: one active scan of a library; one job of a scan; among the jobs not ended,
  one cache cleanup of a library, one revalidation, one orphan sweep of a library and one intro
  detection of a season. The first three leave jobs whose cancellation is requested aside.
\<close>

definition waiting_or_running :: "job_status \<Rightarrow> bool" where
  "waiting_or_running s = (s = JobPending \<or> s = JobRunning)"

definition unique_keys :: "job_store \<Rightarrow> bool" where
  "unique_keys st =
     (distinct (map sc_library (List.filter scan_active (js_scans st)))
      \<and> distinct (map jb_scan (List.filter (\<lambda>j. jb_scan j \<noteq> None) (js_jobs st)))
      \<and> distinct (map (\<lambda>j. (jb_scope_type j, jb_scope j))
          (List.filter (\<lambda>j. jb_type j = CacheCleanup \<and> waiting_or_running (jb_status j)) (js_jobs st)))
      \<and> length (List.filter (\<lambda>j. jb_type j = TmdbRevalidate \<and> waiting_or_running (jb_status j)) (js_jobs st)) \<le> 1
      \<and> distinct (map (\<lambda>j. (jb_scope_type j, jb_scope j))
          (List.filter (\<lambda>j. jb_type j = ArtworkCleanup \<and> pl_maintenance (jb_payload j) = Some ''orphan_sweep''
             \<and> \<not> job_ended (jb_status j)) (js_jobs st)))
      \<and> distinct (map (\<lambda>j. pl_season_id (jb_payload j))
          (List.filter (\<lambda>j. jb_type j = IntroDetect \<and> pl_season_id (jb_payload j) \<noteq> None
             \<and> \<not> job_ended (jb_status j)) (js_jobs st))))"

definition foreign_keys :: "job_store \<Rightarrow> bool" where
  "foreign_keys st =
     (list_all (\<lambda>r. sc_library r \<in> set (js_libraries st)) (js_scans st)
      \<and> list_all (\<lambda>g. gr_scan g \<in> set (map sc_id (js_scans st))) (js_groups st)
      \<and> list_all (\<lambda>j. case jb_scan j of None \<Rightarrow> True | Some i \<Rightarrow> i \<in> set (map sc_id (js_scans st))) (js_jobs st))"

definition constraints_ok :: "job_store \<Rightarrow> bool" where
  "constraints_ok st =
     (list_all scan_row_ok (js_scans st) \<and> list_all group_row_ok (js_groups st)
      \<and> list_all job_row_ok (js_jobs st) \<and> unique_keys st \<and> foreign_keys st)"

definition put :: "job_store \<Rightarrow> job_error + job_store" where
  "put st = (if constraints_ok st then Inr st else Inl ConstraintViolation)"

lemma put_Inr [simp]: "put st = Inr st' \<longleftrightarrow> st' = st \<and> constraints_ok st"
  by (auto simp: put_def)


subsection \<open>Updates\<close>

definition update_jobs :: "(job_row \<Rightarrow> bool) \<Rightarrow> (job_row \<Rightarrow> job_row) \<Rightarrow> job_store \<Rightarrow> job_error + job_store" where
  "update_jobs P u st = put (st\<lparr>js_jobs := map (\<lambda>j. if P j then u j else j) (js_jobs st)\<rparr>)"

text \<open>An update of a scan that is active, and the row it returns.\<close>

definition update_active_scan ::
  "int \<Rightarrow> (scan_row \<Rightarrow> scan_row) \<Rightarrow> job_store \<Rightarrow> job_error + job_store \<times> scan_row option" where
  "update_active_scan i u st =
     map_ok (\<lambda>st'. (st', map_option u (List.find (\<lambda>r. sc_id r = i \<and> scan_active r) (js_scans st))))
       (put (st\<lparr>js_scans := map (\<lambda>r. if sc_id r = i \<and> scan_active r then u r else r) (js_scans st)\<rparr>))"

text \<open>\<open>get_scan_job\<close> and \<open>get_scan_job_tx\<close>; \<open>get_active_scan_job_for_library_tx\<close>.\<close>

definition get_scan_job :: "int \<Rightarrow> job_store \<Rightarrow> scan_row option" where
  "get_scan_job i st = List.find (\<lambda>r. sc_id r = i) (js_scans st)"

definition get_active_scan_job_for_library :: "int \<Rightarrow> job_store \<Rightarrow> scan_row option" where
  "get_active_scan_job_for_library l st =
     (case rev (sort_key sc_created_at (List.filter (\<lambda>r. sc_library r = l \<and> scan_active r) (js_scans st))) of
        [] \<Rightarrow> None | r # _ \<Rightarrow> Some r)"

end
