(* ===== verification/Scan_Jobs.thy ===== *)
theory Scan_Jobs
  imports Job_Store Complex_Main
begin

text \<open>
  The statements that drive a scan (\<open>mova-db/src/scan_jobs.rs\<close>, and the checkpoints of
  \<open>media_items/sync.rs\<close>): its states, its progress, and the groups of files that it has analyzed,
  committed and completed. A worker acts on a scan only behind the fence of its job. The rows
  that a scan writes to the catalog are those of \<open>Media_Sync\<close>; notifications are left out. The division of
  PostgreSQL's \<open>numeric\<close> is the parameter \<open>ndiv\<close>.
\<close>

subsection \<open>The fence\<close>

record job_fence =
  fc_job :: int
  fc_worker :: ustr
  fc_attempt :: nat

datatype fence_mode = ActiveMode | RunningMode | FinalizeMode

definition lease_valid :: "nat \<Rightarrow> job_row \<Rightarrow> bool" where
  "lease_valid clk j = (case jb_lease j of None \<Rightarrow> False | Some l \<Rightarrow> clk < l)"

text \<open>The job is still the one that the worker claimed in this attempt.\<close>

definition owned_by :: "job_fence \<Rightarrow> job_row \<Rightarrow> bool" where
  "owned_by f j = (jb_id j = fc_job f \<and> jb_locked_by j = Some (fc_worker f) \<and> jb_attempts j = fc_attempt f)"

definition holds_fence :: "job_fence \<Rightarrow> nat \<Rightarrow> job_row \<Rightarrow> bool" where
  "holds_fence f clk j = (owned_by f j \<and> job_active (jb_status j) \<and> lease_valid clk j)"

definition lock_background_job_fence :: "job_fence \<Rightarrow> nat \<Rightarrow> job_store \<Rightarrow> job_error + unit" where
  "lock_background_job_fence f clk st =
     (if list_ex (holds_fence f clk) (js_jobs st) then Inr () else Inl FenceLost)"

definition lock_library_scan_background_job_fence ::
  "job_fence \<Rightarrow> nat \<Rightarrow> int \<Rightarrow> int option \<Rightarrow> fence_mode \<Rightarrow> job_store \<Rightarrow> job_error + job_status" where
  "lock_library_scan_background_job_fence f clk i expected mode st =
     (case List.find (\<lambda>j. jb_type j = LibraryScan \<and> jb_scope_type j = LibraryScope
               \<and> jb_scan j = Some i \<and> (expected = None \<or> expected = Some (jb_scope j))
               \<and> (jb_status j = JobRunning \<or> mode = FinalizeMode \<and> jb_status j = JobCancelRequested)
               \<and> owned_by f j \<and> lease_valid clk j
               \<and> list_ex (\<lambda>r. sc_id r = i \<and> sc_library r = jb_scope j \<and> scan_active r
                    \<and> (mode = RunningMode \<longrightarrow> sc_status r = ScanRunning)) (js_scans st)) (js_jobs st) of
        Some j \<Rightarrow> Inr (jb_status j)
      | None \<Rightarrow>
          if mode = FinalizeMode \<and> expected \<noteq> None
             \<and> list_ex (\<lambda>j. jb_type j = LibraryScan \<and> jb_scope_type j = LibraryScope
                  \<and> Some (jb_scope j) = expected \<and> jb_scan j = None \<and> jb_status j = JobCancelRequested
                  \<and> owned_by f j \<and> lease_valid clk j) (js_jobs st)
             \<and> \<not> list_ex (\<lambda>r. sc_id r = i) (js_scans st)
          then Inr JobCancelRequested else Inl FenceLost)"

text \<open>Behind the fence of the scan's job.\<close>

definition fenced ::
  "job_fence \<Rightarrow> nat \<Rightarrow> int \<Rightarrow> int option \<Rightarrow> fence_mode \<Rightarrow> (job_store \<Rightarrow> job_error + job_store \<times> 'a)
    \<Rightarrow> job_store \<Rightarrow> job_error + job_store \<times> 'a" where
  "fenced f clk i expected mode act st =
     and_then (lock_library_scan_background_job_fence f clk i expected mode st) (\<lambda>_. act st)"

subsection \<open>Transitions\<close>

definition mark_scan_job_running ::
  "int \<Rightarrow> job_fence \<Rightarrow> nat \<Rightarrow> nat \<Rightarrow> job_store \<Rightarrow> job_error + job_store \<times> scan_row option" where
  "mark_scan_job_running i f now clk =
     fenced f clk i None ActiveMode (update_active_scan i (\<lambda>r. r\<lparr>sc_status := ScanRunning,
       sc_phase := Some Discovering, sc_progress := max (sc_progress r) 1,
       sc_started_at := (case sc_started_at r of None \<Rightarrow> Some now | Some t \<Rightarrow> Some t),
       sc_finished_at := None, sc_error := None\<rparr>))"

definition update_scan_job_progress ::
  "int \<Rightarrow> int option \<Rightarrow> int \<Rightarrow> job_fence \<Rightarrow> nat \<Rightarrow> job_store \<Rightarrow> job_error + job_store \<times> scan_row option" where
  "update_scan_job_progress i total_files scanned_files f clk =
     fenced f clk i None RunningMode (update_active_scan i (\<lambda>r. r\<lparr>
       sc_total := (case total_files of None \<Rightarrow> sc_total r | Some n \<Rightarrow> n), sc_scanned := scanned_files\<rparr>))"

definition update_scan_job_phase ::
  "int \<Rightarrow> scan_phase \<Rightarrow> int \<Rightarrow> job_fence \<Rightarrow> nat \<Rightarrow> job_store \<Rightarrow> job_error + job_store \<times> scan_row option" where
  "update_scan_job_phase i phase percent f clk =
     fenced f clk i None RunningMode (update_active_scan i (\<lambda>r. r\<lparr>sc_phase := Some phase,
       sc_progress := max (sc_progress r) (min 99 (max 0 percent))\<rparr>))"

definition record_scan_job_attempt_failure ::
  "int \<Rightarrow> int \<Rightarrow> int \<Rightarrow> ustr \<Rightarrow> job_fence \<Rightarrow> nat \<Rightarrow> job_store \<Rightarrow> job_error + job_store \<times> scan_row option" where
  "record_scan_job_attempt_failure i total_files scanned_files msg f clk =
     fenced f clk i None ActiveMode (update_active_scan i (\<lambda>r. r\<lparr>
       sc_total := max (sc_total r) (max total_files 0), sc_scanned := max (sc_scanned r) (max scanned_files 0),
       sc_error := Some msg\<rparr>))"

definition mark_scan_job_retry_pending_tx ::
  "int \<Rightarrow> ustr \<Rightarrow> job_store \<Rightarrow> job_error + job_store \<times> scan_row option" where
  "mark_scan_job_retry_pending_tx i msg =
     update_active_scan i (\<lambda>r. r\<lparr>sc_status := ScanPending, sc_phase := None, sc_finished_at := None,
       sc_error := Some msg\<rparr>)"

definition mark_scan_job_retry_pending ::
  "int \<Rightarrow> ustr \<Rightarrow> job_fence \<Rightarrow> nat \<Rightarrow> job_store \<Rightarrow> job_error + job_store \<times> scan_row option" where
  "mark_scan_job_retry_pending i msg f clk = fenced f clk i None ActiveMode (mark_scan_job_retry_pending_tx i msg)"

definition finalize_scan_job_tx ::
  "int \<Rightarrow> scan_status \<Rightarrow> int \<Rightarrow> int \<Rightarrow> ustr option \<Rightarrow> nat \<Rightarrow> job_store \<Rightarrow> job_error + job_store \<times> scan_row option" where
  "finalize_scan_job_tx i status total_files scanned_files err now =
     update_active_scan i (\<lambda>r. r\<lparr>sc_status := status, sc_phase := Some Finished, sc_total := total_files,
       sc_scanned := scanned_files,
       sc_progress := (if status = ScanSuccess then 100 else sc_progress r),
       sc_finished_at := Some now, sc_error := err\<rparr>)"

text \<open>The row of a job when its work is done or given up.\<close>

definition released :: "job_status \<Rightarrow> nat \<Rightarrow> job_row \<Rightarrow> job_row" where
  "released status now j = j\<lparr>jb_status := status, jb_locked_by := None, jb_locked_at := None,
     jb_lease := None, jb_updated_at := now, jb_finished_at := Some now\<rparr>"

definition complete_library_scan_background_job_tx ::
  "job_fence \<Rightarrow> scan_status \<Rightarrow> nat \<Rightarrow> nat \<Rightarrow> job_store \<Rightarrow> job_error + job_store \<times> job_status" where
  "complete_library_scan_background_job_tx f scan_status now clk st =
     (case (case scan_status of ScanSuccess \<Rightarrow> Some JobSucceeded | ScanCancelled \<Rightarrow> Some JobCancelled | _ \<Rightarrow> None) of
        None \<Rightarrow> Inl UnsupportedStatus
      | Some status \<Rightarrow>
          (let result = (\<lambda>j. if jb_status j = JobCancelRequested then JobCancelled else status) in
           case List.find (holds_fence f clk) (js_jobs st) of
             None \<Rightarrow> Inl FenceLost
           | Some j \<Rightarrow>
               map_ok (\<lambda>st'. (st', result j)) (update_jobs (holds_fence f clk) (\<lambda>j. released (result j) now j) st)))"

definition finalize_scan_job ::
  "int \<Rightarrow> int \<Rightarrow> scan_status \<Rightarrow> int \<Rightarrow> int \<Rightarrow> ustr option \<Rightarrow> job_fence \<Rightarrow> nat \<Rightarrow> nat
    \<Rightarrow> job_store \<Rightarrow> job_error + job_store \<times> scan_row option" where
  "finalize_scan_job l i status total_files scanned_files err f now clk st =
     (if status \<noteq> ScanSuccess \<and> status \<noteq> ScanCancelled then Inl UnsupportedStatus
      else and_then (lock_library_scan_background_job_fence f clk i (Some l) FinalizeMode st) (\<lambda>background.
        (let effective = (if status = ScanCancelled \<or> background = JobCancelRequested then ScanCancelled else ScanSuccess)
         in and_then (finalize_scan_job_tx i effective total_files scanned_files err now st) (\<lambda>(st', scan).
            and_then (complete_library_scan_background_job_tx f effective now clk st') (\<lambda>(st'', _). Inr (st'', scan))))))"

subsection \<open>Groups of files\<close>

text \<open>The progress in percent that the counters give; 100 is kept for success.\<close>

definition pipeline_progress :: "(rat \<Rightarrow> rat \<Rightarrow> rat) \<Rightarrow> int \<Rightarrow> int \<Rightarrow> int \<Rightarrow> int \<Rightarrow> int" where
  "pipeline_progress ndiv total_files analyzed committed remote =
     (if total_files = 0 then 10
      else min 99 \<lfloor>10 + ndiv (20 * of_int analyzed) (of_int total_files)
             + ndiv (20 * of_int committed) (of_int total_files) + ndiv (49 * of_int remote) (of_int total_files)\<rfloor>)"

definition initialize_scan_job_work ::
  "(rat \<Rightarrow> rat \<Rightarrow> rat) \<Rightarrow> int \<Rightarrow> int \<Rightarrow> int \<Rightarrow> job_fence \<Rightarrow> nat \<Rightarrow> job_store \<Rightarrow> job_error + job_store \<times> scan_row option" where
  "initialize_scan_job_work ndiv i total_files pending_files f clk =
     (let total = max total_files 0; pending = min (max pending_files 0) total; completed = total - pending in
      fenced f clk i None RunningMode (\<lambda>st.
        and_then (put (st\<lparr>js_groups := List.filter (\<lambda>g. gr_scan g \<noteq> i) (js_groups st)\<rparr>)) (\<lambda>st'.
          update_active_scan i (\<lambda>r. r\<lparr>sc_phase := Some Processing, sc_total := total, sc_scanned := total,
            sc_reused := completed, sc_analyzed := completed, sc_committed := completed, sc_remote := completed,
            sc_progress := max (sc_progress r) (pipeline_progress ndiv total completed completed completed)\<rparr>) st')))"

definition find_group :: "int \<Rightarrow> ustr \<Rightarrow> job_store \<Rightarrow> group_row option" where
  "find_group i key st = List.find (\<lambda>g. gr_scan g = i \<and> gr_key g = key) (js_groups st)"

text \<open>
  \<open>insert \<dots> on conflict do update \<dots> where\<close>: a new row as given, or the stages of the stored one
  when it has not reached the new stage and counts the same files.
\<close>

definition upsert_group ::
  "int \<Rightarrow> ustr \<Rightarrow> int \<Rightarrow> bool \<Rightarrow> bool \<Rightarrow> (group_row \<Rightarrow> bool) \<Rightarrow> job_store \<Rightarrow> job_error + job_store" where
  "upsert_group i key n committed remote reached st =
     put (st\<lparr>js_groups :=
       (if find_group i key st = None
        then js_groups st @ [\<lparr>gr_scan = i, gr_key = key, gr_files = n, gr_analyzed = True, gr_committed = committed, gr_remote = remote\<rparr>]
        else map (\<lambda>g. if gr_scan g = i \<and> gr_key g = key \<and> \<not> reached g \<and> gr_files g = n
                 then g\<lparr>gr_analyzed := True, gr_committed := (gr_committed g \<or> committed), gr_remote := (gr_remote g \<or> remote)\<rparr>
                 else g) (js_groups st))\<rparr>)"

definition ensure_scan_group_file_count :: "int \<Rightarrow> ustr \<Rightarrow> int \<Rightarrow> job_store \<Rightarrow> job_error + unit" where
  "ensure_scan_group_file_count i key expected st =
     (case find_group i key st of
        None \<Rightarrow> Inl GroupMissing
      | Some g \<Rightarrow> if gr_files g = expected then Inr () else Inl GroupChanged)"

definition mark_scan_group_analyzed ::
  "(rat \<Rightarrow> rat \<Rightarrow> rat) \<Rightarrow> int \<Rightarrow> ustr \<Rightarrow> int \<Rightarrow> job_fence \<Rightarrow> nat \<Rightarrow> job_store \<Rightarrow> job_error + job_store \<times> scan_row option" where
  "mark_scan_group_analyzed ndiv i key file_count f clk =
     (let n = max file_count 1 in
      fenced f clk i None RunningMode (\<lambda>st.
        (let transitioned = (case find_group i key st of
                None \<Rightarrow> n | Some g \<Rightarrow> if \<not> gr_analyzed g \<and> gr_files g = n then n else 0)
         in and_then (upsert_group i key n False False gr_analyzed st) (\<lambda>st'.
            and_then (ensure_scan_group_file_count i key n st') (\<lambda>_.
              update_active_scan i (\<lambda>r. r\<lparr>sc_phase := Some Processing,
                sc_analyzed := min (sc_total r) (sc_analyzed r + transitioned),
                sc_progress := max (sc_progress r) (pipeline_progress ndiv (sc_total r)
                  (min (sc_total r) (sc_analyzed r + transitioned)) (sc_committed r) (sc_remote r))\<rparr>) st')))))"

datatype commit_stage = LocalStage | RemoteStage

text \<open>The counters move only while the scan runs, so its row is looked up again.\<close>

definition update_running_scan ::
  "int \<Rightarrow> (scan_row \<Rightarrow> scan_row) \<Rightarrow> job_store \<Rightarrow> job_error + job_store \<times> scan_row" where
  "update_running_scan i u st =
     (case List.find (\<lambda>r. sc_id r = i \<and> sc_status r = ScanRunning) (js_scans st) of
        None \<Rightarrow> Inl NotRunning
      | Some r \<Rightarrow> map_ok (\<lambda>st'. (st', u r))
          (put (st\<lparr>js_scans := map (\<lambda>r. if sc_id r = i \<and> sc_status r = ScanRunning then u r else r) (js_scans st)\<rparr>)))"

definition advance_scan_group_progress ::
  "(rat \<Rightarrow> rat \<Rightarrow> rat) \<Rightarrow> int \<Rightarrow> ustr \<Rightarrow> int \<Rightarrow> commit_stage \<Rightarrow> job_store \<Rightarrow> job_error + job_store \<times> scan_row" where
  "advance_scan_group_progress ndiv i key n stage st =
     (let previous = find_group i key st in
      if (case previous of None \<Rightarrow> False | Some g \<Rightarrow> gr_files g \<noteq> n) then Inl GroupChanged
      else
        (let was = (\<lambda>p. case previous of None \<Rightarrow> False | Some g \<Rightarrow> p g);
             analyzed_delta = (if was gr_analyzed then 0 else n);
             committed_delta = (if was gr_committed then 0 else n);
             remote_delta = (if stage = RemoteStage \<and> \<not> was gr_remote then n else 0)
         in and_then
              (case stage of
                 LocalStage \<Rightarrow> upsert_group i key n True False gr_committed st
               | RemoteStage \<Rightarrow> upsert_group i key n True True gr_remote st) (\<lambda>st'.
            and_then (update_running_scan i (\<lambda>r. r\<lparr>sc_phase := Some Processing,
                sc_analyzed := min (sc_total r) (sc_analyzed r + analyzed_delta),
                sc_committed := min (sc_total r) (sc_committed r + committed_delta),
                sc_remote := min (sc_total r) (sc_remote r + remote_delta)\<rparr>) st') (\<lambda>(st'', _).
              update_running_scan i (\<lambda>r. r\<lparr>sc_progress := max (sc_progress r)
                (pipeline_progress ndiv (sc_total r) (sc_analyzed r) (sc_committed r) (sc_remote r))\<rparr>) st''))))"

text \<open>
  The transaction of a group's files: behind the fence, the catalog is written (\<open>Media_Sync\<close>) and the
  progress follows.
\<close>

definition commit_scan_group ::
  "(rat \<Rightarrow> rat \<Rightarrow> rat) \<Rightarrow> int \<Rightarrow> int \<Rightarrow> ustr \<Rightarrow> int \<Rightarrow> commit_stage \<Rightarrow> job_fence \<Rightarrow> nat
    \<Rightarrow> job_store \<Rightarrow> job_error + job_store \<times> scan_row" where
  "commit_scan_group ndiv i l key n stage f clk =
     fenced f clk i (Some l) RunningMode (advance_scan_group_progress ndiv i key n stage)"

end
