(* ===== verification/Job_Queue.thy ===== *)
theory Job_Queue
  imports Scan_Jobs
begin

text \<open>
  The queue of background jobs (\<open>mova-db/src/background_jobs.rs\<close>): claiming a job under a lease,
  renewing, completing, retrying and giving up, and the statements elsewhere in \<open>mova-db\<close> that
  insert or cancel jobs. Each transaction is one step. Rows that other transactions hold locked,
  which \<open>skip locked\<close> passes over, are the argument \<open>skip\<close>; the order of rows with equal keys is
  the order of the table. Left out are the writes to other tables: the backoff of a revalidation,
  the failure of an intro analysis, notifications.
\<close>

subsection \<open>Rows\<close>

definition secs :: "nat \<Rightarrow> nat" where
  "secs n = n * 1000000"

definition is_tmdb_maintenance_job_type :: "job_type \<Rightarrow> bool" where
  "is_tmdb_maintenance_job_type t = (t = TmdbRevalidate \<or> t = ArtworkCleanup)"

definition persisted_background_job_error :: "job_type \<Rightarrow> job_status \<Rightarrow> ustr \<Rightarrow> ustr" where
  "persisted_background_job_error t status msg =
     (if t = IntroDetect then
        (case status of JobCancelled \<Rightarrow> lit ''intro_detection_cancelled''
         | JobFailed \<Rightarrow> lit ''intro_detection_failed'' | _ \<Rightarrow> lit ''intro_detection_retry_scheduled'')
      else if \<not> is_tmdb_maintenance_job_type t then msg
      else (case status of JobCancelled \<Rightarrow> lit ''tmdb_maintenance_cancelled''
            | JobFailed \<Rightarrow> lit ''tmdb_maintenance_failed'' | _ \<Rightarrow> lit ''tmdb_maintenance_retry_scheduled''))"

definition execution_fence :: "job_row \<Rightarrow> job_error + job_fence" where
  "execution_fence j =
     (case jb_locked_by j of
        None \<Rightarrow> Inl FenceLost
      | Some w \<Rightarrow>
          if jb_status j \<noteq> JobRunning \<or> jb_attempts j = 0 then Inl FenceLost
          else Inr \<lparr>fc_job = jb_id j, fc_worker = w, fc_attempt = jb_attempts j\<rparr>)"

text \<open>What is kept of the payload of an ended maintenance job: no provider ids, no paths.\<close>

definition redacted_payload :: "job_row \<Rightarrow> job_payload" where
  "redacted_payload j =
     (if is_tmdb_maintenance_job_type (jb_type j) then
        no_payload\<lparr>
          pl_library_id := (if jb_type j = ArtworkCleanup then Some (jb_scope j) else pl_library_id (jb_payload j)),
          pl_media_item_id := (if jb_type j = TmdbRevalidate then Some (jb_scope j) else pl_media_item_id (jb_payload j)),
          pl_maintenance := pl_maintenance (jb_payload j)\<rparr>
      else jb_payload j)"

definition lease_over :: "nat \<Rightarrow> job_row \<Rightarrow> bool" where
  "lease_over now j = (case jb_lease j of None \<Rightarrow> False | Some l \<Rightarrow> l < now)"

subsection \<open>Jobs left behind\<close>

definition prunable :: "nat \<Rightarrow> job_row \<Rightarrow> bool" where
  "prunable now j =
     (jb_type j \<in> {TmdbRevalidate, ArtworkCleanup, IntroDetect} \<and> job_ended (jb_status j)
      \<and> (case jb_finished_at j of None \<Rightarrow> jb_updated_at j | Some t \<Rightarrow> t) + secs (30 * 86400) < now)"

definition prune_jobs :: "nat \<Rightarrow> job_store \<Rightarrow> job_store" where
  "prune_jobs now st =
     (let old = take 64 (sort_key (\<lambda>j. case jb_finished_at j of None \<Rightarrow> jb_updated_at j | Some t \<Rightarrow> t)
                  (sort_key jb_id (List.filter (prunable now) (js_jobs st))))
      in st\<lparr>js_jobs := List.filter (\<lambda>j. jb_id j \<notin> set (map jb_id old)) (js_jobs st)\<rparr>)"

definition is_abandoned :: "nat \<Rightarrow> job_row \<Rightarrow> bool" where
  "is_abandoned now j =
     (jb_status j = JobCancelRequested \<and> lease_over now j
      \<or> jb_status j = JobRunning \<and> lease_over now j \<and> jb_max_attempts j \<le> jb_attempts j)"

definition abandoned_jobs :: "(int \<Rightarrow> bool) \<Rightarrow> nat \<Rightarrow> job_store \<Rightarrow> job_row list" where
  "abandoned_jobs skip now st =
     take 64 (sort_key jb_created_at (List.filter (\<lambda>j. is_abandoned now j \<and> \<not> skip (jb_id j)) (js_jobs st)))"

definition FINAL_ATTEMPT_MESSAGE :: ustr where
  "FINAL_ATTEMPT_MESSAGE = lit ''background job final attempt lease expired before completion''"

definition abandoned_terminal_transition :: "job_row \<Rightarrow> (job_status \<times> scan_status \<times> ustr) option" where
  "abandoned_terminal_transition j =
     (case jb_status j of
        JobCancelRequested \<Rightarrow> Some (JobCancelled, ScanCancelled, lit ''scan cancelled'')
      | JobRunning \<Rightarrow>
          if jb_max_attempts j \<le> jb_attempts j then Some (JobFailed, ScanFailed, FINAL_ATTEMPT_MESSAGE) else None
      | _ \<Rightarrow> None)"

definition rescheduled_cleanup :: "nat \<Rightarrow> job_row \<Rightarrow> job_row" where
  "rescheduled_cleanup now j = j\<lparr>jb_status := JobPending, jb_attempts := jb_max_attempts j - 1,
     jb_run_after := now + secs 86400, jb_locked_by := None, jb_locked_at := None, jb_lease := None,
     jb_last_error := Some (lit ''TMDB artwork cleanup lease expired; retry scheduled''),
     jb_updated_at := now, jb_finished_at := None\<rparr>"

definition terminalized :: "job_status \<Rightarrow> ustr \<Rightarrow> nat \<Rightarrow> job_row \<Rightarrow> job_row" where
  "terminalized status err now j =
     (released status now j)\<lparr>jb_last_error := Some err, jb_payload := redacted_payload j\<rparr>"

text \<open>The scan of a job that ends without its worker.\<close>

definition finalize_related_scan ::
  "int option \<Rightarrow> scan_status \<Rightarrow> ustr option \<Rightarrow> nat \<Rightarrow> job_store \<Rightarrow> job_error + job_store \<times> scan_row option" where
  "finalize_related_scan related status err now st =
     (case related of
        None \<Rightarrow> Inr (st, None)
      | Some i \<Rightarrow>
          (case get_scan_job i st of
             None \<Rightarrow> Inr (st, None)
           | Some r \<Rightarrow> finalize_scan_job_tx i status (sc_total r) (sc_scanned r) err now st))"

definition settle_abandoned ::
  "nat \<Rightarrow> job_row \<Rightarrow> job_store \<Rightarrow> job_error + job_store \<times> (job_row \<times> scan_row option) option" where
  "settle_abandoned now j st =
     (if jb_type j = ArtworkCleanup \<and> jb_status j = JobRunning \<and> jb_max_attempts j \<le> jb_attempts j then
        map_ok (\<lambda>st'. (st', None)) (update_jobs (\<lambda>x. jb_id x = jb_id j) (rescheduled_cleanup now) st)
      else case abandoned_terminal_transition j of
             None \<Rightarrow> Inr (st, None)
           | Some (status, scan_status, err) \<Rightarrow>
               and_then (finalize_related_scan (jb_scan j) scan_status (Some err) now st) (\<lambda>(st', scan).
                 (let ended = terminalized status (persisted_background_job_error (jb_type j) status err) now
                  in map_ok (\<lambda>st''. (st'', Some (ended j, scan)))
                       (update_jobs (\<lambda>x. jb_id x = jb_id j) ended st'))))"

fun settle_all ::
  "nat \<Rightarrow> job_row list \<Rightarrow> job_store \<Rightarrow> job_error + job_store \<times> (job_row \<times> scan_row option) list" where
  "settle_all now [] st = Inr (st, [])"
| "settle_all now (j # js) st =
     and_then (settle_abandoned now j st) (\<lambda>(st', out).
       map_ok (\<lambda>(st'', outs). (st'', (case out of None \<Rightarrow> outs | Some x \<Rightarrow> x # outs))) (settle_all now js st'))"

subsection \<open>Claiming\<close>

definition scan_blocks :: "job_status list \<Rightarrow> scope_type \<Rightarrow> int \<Rightarrow> job_row \<Rightarrow> bool" where
  "scan_blocks statuses scope l b =
     (jb_type b = LibraryScan \<and> jb_scope_type b = scope \<and> jb_scope b = l \<and> jb_status b \<in> set statuses)"

text \<open>What keeps a job from being claimed: the conflicting jobs of the queue.\<close>

definition is_retention_expired :: "job_row \<Rightarrow> bool" where
  "is_retention_expired j = (pl_retention_expired (jb_payload j) = Some True)"

definition blocks :: "job_row \<Rightarrow> job_row \<Rightarrow> bool" where
  "blocks j b =
     (case jb_type j of
        CacheCleanup \<Rightarrow> scan_blocks [JobRunning, JobCancelRequested] (jb_scope_type j) (jb_scope j) b
      | ArtworkCleanup \<Rightarrow> scan_blocks [JobRunning, JobCancelRequested] (jb_scope_type j) (jb_scope j) b
      | TmdbRevalidate \<Rightarrow>
          (case pl_library_id (jb_payload j) of
             None \<Rightarrow> False
           | Some l \<Rightarrow> scan_blocks [JobRunning, JobCancelRequested] LibraryScope l b
                \<or> \<not> is_retention_expired j \<and> scan_blocks [JobPending] LibraryScope l b)
      | IntroDetect \<Rightarrow>
          jb_id b \<noteq> jb_id j \<and> jb_type b = IntroDetect \<and> job_active (jb_status b)
          \<or> scan_blocks [JobPending, JobRunning, JobCancelRequested] LibraryScope (jb_scope j) b
      | LibraryScan \<Rightarrow>
          jb_type b = TmdbRevalidate \<and> pl_library_id (jb_payload b) = Some (jb_scope j)
            \<and> (job_active (jb_status b) \<or> jb_status b = JobPending \<and> is_retention_expired b)
          \<or> jb_type b \<in> {ArtworkCleanup, IntroDetect} \<and> jb_scope_type b = LibraryScope
            \<and> jb_scope b = jb_scope j \<and> job_active (jb_status b))"

definition claimable :: "nat \<Rightarrow> job_row list \<Rightarrow> job_row \<Rightarrow> bool" where
  "claimable now jobs j =
     (jb_attempts j < jb_max_attempts j \<and> jb_run_after j \<le> now
      \<and> (jb_status j = JobPending \<or> jb_status j = JobRunning \<and> lease_over now j)
      \<and> \<not> list_ex (blocks j) jobs)"

definition claim_priority :: "job_row \<Rightarrow> int" where
  "claim_priority j =
     (if jb_type j = TmdbRevalidate \<and> is_retention_expired j then - 1
      else case jb_type j of LibraryScan \<Rightarrow> - 1 | TmdbRevalidate \<Rightarrow> 2 | IntroDetect \<Rightarrow> 1 | _ \<Rightarrow> 0)"

definition claim_candidate :: "(int \<Rightarrow> bool) \<Rightarrow> nat \<Rightarrow> job_row list \<Rightarrow> job_row option" where
  "claim_candidate skip now jobs =
     (case sort_key claim_priority (sort_key jb_run_after (sort_key jb_created_at
             (List.filter (\<lambda>j. claimable now jobs j \<and> \<not> skip (jb_id j)) jobs))) of
        [] \<Rightarrow> None | j # _ \<Rightarrow> Some j)"

definition claimed :: "ustr \<Rightarrow> nat \<Rightarrow> nat \<Rightarrow> job_row \<Rightarrow> job_row" where
  "claimed worker lease_seconds now j = j\<lparr>jb_status := JobRunning, jb_attempts := jb_attempts j + 1,
     jb_locked_by := Some worker, jb_locked_at := Some now, jb_lease := Some (now + secs lease_seconds),
     jb_updated_at := now, jb_last_error := None, jb_finished_at := None\<rparr>"

definition claim_background_job ::
  "ustr \<Rightarrow> nat \<Rightarrow> (int \<Rightarrow> bool) \<Rightarrow> nat \<Rightarrow> job_store
    \<Rightarrow> job_error + job_store \<times> (job_row \<times> scan_row option) list \<times> job_row option" where
  "claim_background_job worker lease_seconds skip now st =
     and_then (put (prune_jobs now st)) (\<lambda>st1.
     and_then (settle_all now (abandoned_jobs skip now st1) st1) (\<lambda>(st2, outs).
       case claim_candidate skip now (js_jobs st2) of
         None \<Rightarrow> Inr (st2, outs, None)
       | Some j \<Rightarrow>
           map_ok (\<lambda>st3. (st3, outs, Some (claimed worker lease_seconds now j)))
             (update_jobs (\<lambda>x. jb_id x = jb_id j) (claimed worker lease_seconds now) st2)))"

subsection \<open>The owner of a job\<close>

definition renew_background_job_lease ::
  "job_fence \<Rightarrow> nat \<Rightarrow> nat \<Rightarrow> nat \<Rightarrow> job_store \<Rightarrow> job_error + job_store \<times> bool" where
  "renew_background_job_lease f lease_seconds now clk st =
     (let held = (\<lambda>j. holds_fence f clk j \<and> jb_status j = JobRunning)
      in map_ok (\<lambda>st'. (st', length (List.filter held (js_jobs st)) = 1))
           (update_jobs held (\<lambda>j. j\<lparr>jb_lease := Some (now + secs lease_seconds), jb_updated_at := now\<rparr>) st))"

definition completed :: "nat \<Rightarrow> job_row \<Rightarrow> job_row" where
  "completed now j =
     (let cancelled = (jb_status j = JobCancelRequested) in
      (released (if cancelled then JobCancelled else JobSucceeded) now j)\<lparr>
        jb_payload := redacted_payload j,
        jb_last_error := (if is_tmdb_maintenance_job_type (jb_type j)
          then (if cancelled then Some (lit ''tmdb_maintenance_cancelled'') else None) else jb_last_error j)\<rparr>)"

definition complete_background_job ::
  "job_fence \<Rightarrow> nat \<Rightarrow> nat \<Rightarrow> job_store \<Rightarrow> job_error + job_store \<times> job_status" where
  "complete_background_job f now clk st =
     (case List.find (holds_fence f clk) (js_jobs st) of
        None \<Rightarrow> Inl FenceLost
      | Some j \<Rightarrow> map_ok (\<lambda>st'. (st', jb_status (completed now j))) (update_jobs (holds_fence f clk) (completed now) st))"

definition retried :: "job_status \<Rightarrow> ustr \<Rightarrow> nat \<Rightarrow> nat \<Rightarrow> job_row \<Rightarrow> job_row" where
  "retried status err retry_delay now j =
     (let again = (status = JobPending); over = (status = JobCancelled \<or> status = JobFailed) in
      j\<lparr>jb_status := status,
        jb_run_after := (if again then now + secs retry_delay else jb_run_after j),
        jb_payload := (if over then redacted_payload j else jb_payload j),
        jb_attempts := (if again \<and> jb_type j = ArtworkCleanup \<and> jb_max_attempts j \<le> jb_attempts j
          then jb_max_attempts j - 1 else jb_attempts j),
        jb_locked_by := None, jb_locked_at := None, jb_lease := None, jb_last_error := Some err,
        jb_updated_at := now, jb_finished_at := (if over then Some now else None)\<rparr>)"

definition retry_status :: "job_fence \<Rightarrow> job_row \<Rightarrow> job_status" where
  "retry_status f j =
     (if jb_status j = JobCancelRequested then JobCancelled
      else if jb_max_attempts j \<le> fc_attempt f \<and> jb_type j \<noteq> ArtworkCleanup then JobFailed
      else JobPending)"

definition retry_scan ::
  "job_row \<Rightarrow> job_status \<Rightarrow> ustr \<Rightarrow> nat \<Rightarrow> job_store \<Rightarrow> job_error + job_store \<times> scan_row option" where
  "retry_scan j status msg now st =
     (case (jb_scan j, status) of
        (Some i, JobPending) \<Rightarrow> mark_scan_job_retry_pending_tx i msg st
      | (Some i, JobFailed) \<Rightarrow> finalize_related_scan (jb_scan j) ScanFailed (Some msg) now st
      | (Some i, JobCancelled) \<Rightarrow> finalize_related_scan (jb_scan j) ScanCancelled None now st
      | _ \<Rightarrow> Inr (st, None))"

definition retry_or_fail_background_job ::
  "job_fence \<Rightarrow> ustr \<Rightarrow> nat \<Rightarrow> nat \<Rightarrow> nat \<Rightarrow> job_store \<Rightarrow> job_error + job_store \<times> job_status \<times> scan_row option" where
  "retry_or_fail_background_job f msg retry_delay now clk st =
     and_then (lock_background_job_fence f clk st) (\<lambda>_.
       case List.find (\<lambda>j. jb_id j = fc_job f) (js_jobs st) of
         None \<Rightarrow> Inl FenceLost
       | Some j \<Rightarrow>
           (let status = retry_status f j; err = persisted_background_job_error (jb_type j) status msg in
            and_then (retry_scan j status msg now st) (\<lambda>(st', scan).
              map_ok (\<lambda>st''. (st'', status, scan))
                (update_jobs (\<lambda>x. owned_by f x \<and> job_active (jb_status x)) (retried status err retry_delay now) st'))))"

subsection \<open>Inserting and cancelling\<close>

definition new_job ::
  "job_store \<Rightarrow> job_type \<Rightarrow> scope_type \<Rightarrow> int \<Rightarrow> int option \<Rightarrow> job_payload \<Rightarrow> nat \<Rightarrow> nat \<Rightarrow> job_row" where
  "new_job st t scope_type scope scan payload max_attempts now = \<lparr>jb_id = js_next_job st, jb_type = t,
     jb_scope_type = scope_type, jb_scope = scope, jb_scan = scan, jb_payload = payload,
     jb_status = JobPending, jb_attempts = 0, jb_max_attempts = max_attempts, jb_run_after = now,
     jb_locked_by = None, jb_locked_at = None, jb_lease = None, jb_last_error = None,
     jb_created_at = now, jb_updated_at = now, jb_finished_at = None\<rparr>"

definition insert_job :: "job_row \<Rightarrow> job_store \<Rightarrow> job_store" where
  "insert_job j st = st\<lparr>js_jobs := js_jobs st @ [j], js_next_job := js_next_job st + 1\<rparr>"

text \<open>\<open>on conflict do nothing\<close>: whether the row was inserted; only a unique index is forgiven.\<close>

definition insert_unless_conflict :: "job_row \<Rightarrow> job_store \<Rightarrow> job_error + job_store \<times> bool" where
  "insert_unless_conflict j st =
     (if unique_keys (insert_job j st) then map_ok (\<lambda>st'. (st', True)) (put (insert_job j st))
      else Inr (st\<lparr>js_next_job := js_next_job st + 1\<rparr>, False))"

definition merge_pending_scan_scope :: "int \<Rightarrow> ustr list \<Rightarrow> job_store \<Rightarrow> job_error + job_store" where
  "merge_pending_scan_scope i paths st =
     put (st\<lparr>js_scans := map (\<lambda>r. if sc_id r = i \<and> sc_status r = ScanPending
        then (case sc_scope r of
                None \<Rightarrow> r
              | Some old \<Rightarrow> r\<lparr>sc_scope := (if paths = [] then None else Some (sort (remdups (old @ paths))))\<rparr>)
        else r) (js_scans st)\<rparr>)"

text \<open>Cancelled at once when pending, on request when running.\<close>

definition cancel_intro :: "nat \<Rightarrow> job_row \<Rightarrow> job_row" where
  "cancel_intro now j =
     (let pending = (jb_status j = JobPending) in
      j\<lparr>jb_status := (if pending then JobCancelled else JobCancelRequested),
        jb_locked_by := (if pending then None else jb_locked_by j),
        jb_locked_at := (if pending then None else jb_locked_at j),
        jb_lease := (if pending then None else jb_lease j),
        jb_last_error := Some (lit ''intro_detection_cancelled_for_library_scan''),
        jb_updated_at := now, jb_finished_at := (if pending then Some now else None)\<rparr>)"

definition new_scan :: "job_store \<Rightarrow> int \<Rightarrow> ustr list \<Rightarrow> nat \<Rightarrow> scan_row" where
  "new_scan st l paths now = \<lparr>sc_id = js_next_scan st, sc_library = l, sc_status = ScanPending,
     sc_phase = None, sc_total = 0, sc_scanned = 0, sc_reused = 0, sc_analyzed = 0, sc_committed = 0,
     sc_remote = 0, sc_progress = 0, sc_created_at = now, sc_started_at = None, sc_finished_at = None,
     sc_error = None, sc_scope = (if paths = [] then None else Some paths)\<rparr>"

definition enqueue_scan_job ::
  "int \<Rightarrow> ustr list \<Rightarrow> nat \<Rightarrow> job_store \<Rightarrow> job_error + job_store \<times> scan_row \<times> bool" where
  "enqueue_scan_job l paths now st =
     (case get_active_scan_job_for_library l st of
        Some r \<Rightarrow>
          if sc_status r = ScanPending then
            map_ok (\<lambda>st'. (st', (case get_scan_job (sc_id r) st' of None \<Rightarrow> r | Some r' \<Rightarrow> r'), False))
              (merge_pending_scan_scope (sc_id r) paths st)
          else Inr (st, r, False)
      | None \<Rightarrow>
          and_then (update_jobs (\<lambda>j. jb_type j = IntroDetect \<and> jb_scope_type j = LibraryScope
              \<and> jb_scope j = l \<and> waiting_or_running (jb_status j)) (cancel_intro now) st) (\<lambda>st1.
          (let r = new_scan st1 l paths now in
           and_then (put (st1\<lparr>js_scans := js_scans st1 @ [r], js_next_scan := js_next_scan st1 + 1\<rparr>)) (\<lambda>st2.
             map_ok (\<lambda>st3. (st3, r, True))
               (put (insert_job (new_job st2 LibraryScan LibraryScope l (Some (sc_id r))
                  (no_payload\<lparr>pl_library_id := Some l, pl_scan_job_id := Some (sc_id r)\<rparr>) 3 now) st2))))))"

record due_item =
  du_media_item :: int
  du_library :: int
  du_provider_item :: ustr
  du_retention_expired :: bool

text \<open>
  The items due for revalidation, in their order, come from tables that are not modelled; the
  first one that no scan keeps waiting is enqueued, unless a revalidation is under way.
\<close>

definition revalidation_waits :: "job_store \<Rightarrow> due_item \<Rightarrow> bool" where
  "revalidation_waits st d =
     (list_ex (\<lambda>j. jb_type j = TmdbRevalidate \<and> waiting_or_running (jb_status j)) (js_jobs st)
      \<or> list_ex (\<lambda>b. scan_blocks [JobRunning, JobCancelRequested] LibraryScope (du_library d) b
           \<or> \<not> du_retention_expired d \<and> scan_blocks [JobPending] LibraryScope (du_library d) b) (js_jobs st))"

definition enqueue_due_tmdb_metadata_revalidation ::
  "due_item list \<Rightarrow> nat \<Rightarrow> job_store \<Rightarrow> job_error + job_store \<times> bool" where
  "enqueue_due_tmdb_metadata_revalidation due now st =
     (case List.find (\<lambda>d. du_library d \<in> set (js_libraries st) \<and> \<not> revalidation_waits st d) due of
        None \<Rightarrow> Inr (st, False)
      | Some d \<Rightarrow> insert_unless_conflict (new_job st TmdbRevalidate MediaItemScope (du_media_item d) None
          (no_payload\<lparr>pl_media_item_id := Some (du_media_item d), pl_library_id := Some (du_library d),
             pl_provider_item_id := Some (du_provider_item d), pl_retention_expired := Some (du_retention_expired d)\<rparr>)
          1 now) st)"

definition UNLIMITED_ATTEMPTS :: nat where
  "UNLIMITED_ATTEMPTS = 2147483647"

definition sweep_due :: "nat \<Rightarrow> job_store \<Rightarrow> int \<Rightarrow> bool" where
  "sweep_due now st l =
     (let sweep = (\<lambda>j. jb_type j = ArtworkCleanup \<and> jb_scope_type j = LibraryScope \<and> jb_scope j = l
            \<and> pl_maintenance (jb_payload j) = Some ''orphan_sweep'')
      in \<not> list_ex (\<lambda>j. sweep j \<and> \<not> job_ended (jb_status j)) (js_jobs st)
         \<and> \<not> list_ex (\<lambda>j. sweep j \<and> jb_status j = JobSucceeded
              \<and> (case jb_finished_at j of None \<Rightarrow> False | Some t \<Rightarrow> now \<le> t + secs 86400)) (js_jobs st))"

fun enqueue_sweeps :: "int list \<Rightarrow> nat \<Rightarrow> job_store \<Rightarrow> job_error + job_store \<times> nat" where
  "enqueue_sweeps [] now st = Inr (st, 0)"
| "enqueue_sweeps (l # ls) now st =
     and_then (insert_unless_conflict (new_job st ArtworkCleanup LibraryScope l None
         (no_payload\<lparr>pl_library_id := Some l, pl_maintenance := Some ''orphan_sweep''\<rparr>) UNLIMITED_ATTEMPTS now) st)
       (\<lambda>(st', inserted). map_ok (\<lambda>(st'', n). (st'', (if inserted then n + 1 else n))) (enqueue_sweeps ls now st'))"

definition enqueue_due_tmdb_artwork_orphan_sweeps :: "nat \<Rightarrow> job_store \<Rightarrow> job_error + job_store \<times> nat" where
  "enqueue_due_tmdb_artwork_orphan_sweeps now st =
     enqueue_sweeps (take 8 (sort (List.filter (sweep_due now st) (js_libraries st)))) now st"

definition enqueue_tmdb_artwork_cleanup_tx ::
  "int \<Rightarrow> int \<Rightarrow> ustr list \<Rightarrow> nat \<Rightarrow> job_store \<Rightarrow> job_error + job_store" where
  "enqueue_tmdb_artwork_cleanup_tx l media_item paths now st =
     (if paths = [] then Inr st
      else put (insert_job (new_job st ArtworkCleanup LibraryScope l None
        (no_payload\<lparr>pl_library_id := Some l, pl_media_item_id := Some media_item, pl_artwork_paths := Some paths\<rparr>)
        UNLIMITED_ATTEMPTS now) st))"

text \<open>What the seasons and their analyses say of a season is the argument \<open>eligible\<close>.\<close>

definition enqueue_season_intro_detection ::
  "bool \<Rightarrow> int \<Rightarrow> int \<Rightarrow> nat \<Rightarrow> job_store \<Rightarrow> job_error + job_store \<times> bool" where
  "enqueue_season_intro_detection eligible l season now st =
     (if \<not> (eligible \<and> l \<in> set (js_libraries st)) then Inr (st, False)
      else insert_unless_conflict (new_job st IntroDetect LibraryScope l None
        (no_payload\<lparr>pl_library_id := Some l, pl_season_id := Some season\<rparr>) 3 now) st)"

definition cancel_for_deletion :: "nat \<Rightarrow> job_row \<Rightarrow> job_row" where
  "cancel_for_deletion now j =
     j\<lparr>jb_status := (if jb_status j = JobPending then JobCancelled else JobCancelRequested),
       jb_finished_at := (if jb_status j = JobPending then Some now else jb_finished_at j),
       jb_updated_at := now\<rparr>"

text \<open>The rows that go with a library, and the jobs that lose their scan.\<close>

definition drop_library_rows :: "int \<Rightarrow> job_store \<Rightarrow> job_store" where
  "drop_library_rows l st =
     (let gone = map sc_id (List.filter (\<lambda>r. sc_library r = l) (js_scans st)) in
      st\<lparr>js_libraries := removeAll l (js_libraries st),
         js_scans := List.filter (\<lambda>r. sc_library r \<noteq> l) (js_scans st),
         js_groups := List.filter (\<lambda>g. gr_scan g \<notin> set gone) (js_groups st),
         js_jobs := map (\<lambda>j. if (case jb_scan j of None \<Rightarrow> False | Some i \<Rightarrow> i \<in> set gone)
           then j\<lparr>jb_scan := None\<rparr> else j) (js_jobs st)\<rparr>)"

definition delete_library :: "int \<Rightarrow> nat \<Rightarrow> job_store \<Rightarrow> job_error + job_store \<times> int option" where
  "delete_library l now st =
     (if l \<notin> set (js_libraries st) then Inr (st, None)
      else
        and_then (update_jobs (\<lambda>j. jb_scope_type j = LibraryScope \<and> jb_scope j = l
            \<and> jb_type j \<in> {LibraryScan, IntroDetect} \<and> waiting_or_running (jb_status j))
            (cancel_for_deletion now) st) (\<lambda>st1.
        and_then (put (drop_library_rows l st1)) (\<lambda>st2.
          map_ok (\<lambda>st3. (st3, Some (js_next_job st2)))
            (put (insert_job (new_job st2 CacheCleanup LibraryScope l None
               (no_payload\<lparr>pl_library_id := Some l\<rparr>) 10 now) st2)))))"


definition create_library :: "job_store \<Rightarrow> job_store \<times> int" where
  "create_library st =
     (st\<lparr>js_libraries := js_libraries st @ [js_next_library st], js_next_library := js_next_library st + 1\<rparr>,
      js_next_library st)"

end
