(* ===== verification/Job_Rows.thy ===== *)
theory Job_Rows
  imports Job_Queue
begin

text \<open>
  What the statements of the queue do to the rows of jobs. A row keeps its identity; it moves
  from waiting to running only by a claim, back to waiting only from running and with attempts
  left, and ends once. Every transaction but claims and inserts takes rows along these moves.
\<close>

definition same_job :: "job_row \<Rightarrow> job_row \<Rightarrow> bool" where
  "same_job j j' \<longleftrightarrow> jb_id j' = jb_id j \<and> jb_type j' = jb_type j \<and> jb_scope_type j' = jb_scope_type j
     \<and> jb_scope j' = jb_scope j \<and> jb_max_attempts j' = jb_max_attempts j"

definition row_moves :: "job_row \<Rightarrow> job_row \<Rightarrow> bool" where
  "row_moves j j' \<longleftrightarrow> same_job j j'
     \<and> (jb_type j \<noteq> ArtworkCleanup \<longrightarrow> jb_attempts j' = jb_attempts j)
     \<and> (job_ended (jb_status j) \<longrightarrow> job_ended (jb_status j'))
     \<and> (job_ended (jb_status j')
        \<or> jb_payload j' = jb_payload j
          \<and> (jb_status j' = jb_status j \<and> jb_attempts j' = jb_attempts j \<and> jb_locked_by j' = jb_locked_by j
             \<or> jb_status j = JobRunning \<and> jb_status j' = JobCancelRequested
               \<and> jb_attempts j' = jb_attempts j \<and> jb_locked_by j' = jb_locked_by j
             \<or> jb_status j = JobRunning \<and> jb_status j' = JobPending \<and> jb_attempts j' < jb_max_attempts j
               \<and> (jb_type j = ArtworkCleanup \<or> jb_attempts j < jb_max_attempts j)))"

lemma row_moves_refl [simp]: "row_moves j j"
  by (auto simp: row_moves_def same_job_def)

lemma row_moves_trans:
  assumes ab: "row_moves a b" and bc: "row_moves b c"
  shows "row_moves a c"
proof -
  have base: "same_job a c" "jb_type a \<noteq> ArtworkCleanup \<longrightarrow> jb_attempts c = jb_attempts a"
    "job_ended (jb_status a) \<longrightarrow> job_ended (jb_status c)"
    using ab bc by (simp_all add: row_moves_def same_job_def)
  show ?thesis
  proof (cases "job_ended (jb_status c)")
    case True
    then show ?thesis using base by (simp add: row_moves_def)
  next
    case False
    then have "\<not> job_ended (jb_status b)" using bc by (auto simp: row_moves_def)
    with ab bc False base show ?thesis
      unfolding row_moves_def same_job_def by (elim conjE disjE) simp_all
  qed
qed

text \<open>All rows of the new table come from rows of the old one.\<close>

definition rows_move :: "job_store \<Rightarrow> job_store \<Rightarrow> bool" where
  "rows_move st st' \<longleftrightarrow> (\<forall>j'\<in>set (js_jobs st'). \<exists>j\<in>set (js_jobs st). row_moves j j')"

lemma rows_move_refl [simp]: "rows_move st st"
  by (auto simp: rows_move_def intro: row_moves_refl)

lemma rows_move_trans: "rows_move a b \<Longrightarrow> rows_move b c \<Longrightarrow> rows_move a c"
  unfolding rows_move_def using row_moves_trans by blast

lemma rows_move_same: "js_jobs st' = js_jobs st \<Longrightarrow> rows_move st st'"
  by (auto simp: rows_move_def intro: row_moves_refl)

lemma update_jobs_Inr:
  "update_jobs P u st = Inr st' \<longleftrightarrow>
     st' = st\<lparr>js_jobs := map (\<lambda>j. if P j then u j else j) (js_jobs st)\<rparr> \<and> constraints_ok st'"
  by (auto simp: update_jobs_def)

lemma update_jobs_moves:
  assumes "update_jobs P u st = Inr st'" and "\<And>j. j \<in> set (js_jobs st) \<Longrightarrow> P j \<Longrightarrow> row_moves j (u j)"
  shows "rows_move st st'"
  using assms by (force simp: update_jobs_Inr rows_move_def)

lemma update_active_scan_Inr:
  "update_active_scan i u st = Inr (st', r) \<Longrightarrow>
     st' = st\<lparr>js_scans := map (\<lambda>r. if sc_id r = i \<and> scan_active r then u r else r) (js_scans st)\<rparr>
     \<and> constraints_ok st'"
  by (auto simp: update_active_scan_def result_simps)

subsection \<open>Single rows\<close>

lemma released_moves: "job_ended status \<Longrightarrow> row_moves j (released status now j)"
  by (auto simp: row_moves_def same_job_def released_def)

lemma terminalized_moves: "job_ended status \<Longrightarrow> row_moves j (terminalized status err now j)"
  by (auto simp: row_moves_def same_job_def released_def terminalized_def)

lemma completed_moves: "row_moves j (completed now j)"
  by (auto simp: row_moves_def same_job_def released_def completed_def Let_def)

lemma rescheduled_moves:
  "jb_type j = ArtworkCleanup \<Longrightarrow> jb_status j = JobRunning \<Longrightarrow> 0 < jb_max_attempts j
     \<Longrightarrow> row_moves j (rescheduled_cleanup now j)"
  by (auto simp: row_moves_def same_job_def rescheduled_cleanup_def)

lemma cancel_moves:
  "waiting_or_running (jb_status j) \<Longrightarrow> row_moves j (cancel_intro now j)"
  "waiting_or_running (jb_status j) \<Longrightarrow> row_moves j (cancel_for_deletion now j)"
  by (auto simp: row_moves_def same_job_def cancel_intro_def cancel_for_deletion_def waiting_or_running_def Let_def)

lemma retry_moves:
  assumes "owned_by f j" "job_active (jb_status j)" "job_row_ok j" "status = retry_status f j"
  shows "row_moves j (retried status err d now j)"
  using assms
  by (cases "jb_status j") (auto simp: row_moves_def same_job_def retried_def retry_status_def owned_by_def
    job_row_ok_def Let_def)


subsection \<open>Transactions\<close>

text \<open>Ids are unique, and new rows take fresh ones.\<close>

definition ids_ok :: "job_store \<Rightarrow> bool" where
  "ids_ok st \<longleftrightarrow> distinct (map jb_id (js_jobs st)) \<and> (\<forall>i\<in>set (map jb_id (js_jobs st)). i < js_next_job st)"

lemma same_id: "ids_ok st \<Longrightarrow> a \<in> set (js_jobs st) \<Longrightarrow> b \<in> set (js_jobs st) \<Longrightarrow> jb_id a = jb_id b \<Longrightarrow> a = b"
  by (auto simp: ids_ok_def distinct_map inj_on_def)

lemma rows_ok: "constraints_ok st \<Longrightarrow> j \<in> set (js_jobs st) \<Longrightarrow> job_row_ok j"
  by (auto simp: constraints_ok_def list_all_iff)

text \<open>A transaction that adds no row and no library.\<close>

definition quiet :: "job_store \<Rightarrow> job_store \<Rightarrow> bool" where
  "quiet st st' \<longleftrightarrow> rows_move st st' \<and> js_libraries st' = js_libraries st \<and> js_next_library st' = js_next_library st
     \<and> js_next_job st' = js_next_job st \<and> (ids_ok st \<longrightarrow> ids_ok st') \<and> (constraints_ok st \<longrightarrow> constraints_ok st')"

lemma quiet_refl [simp]: "quiet st st"
  by (simp add: quiet_def)

lemma quiet_trans: "quiet a b \<Longrightarrow> quiet b c \<Longrightarrow> quiet a c"
  unfolding quiet_def using rows_move_trans by metis

lemma map_ids: "(\<And>j. jb_id (u j) = jb_id j) \<Longrightarrow> map jb_id (map (\<lambda>j. if P j then u j else j) xs) = map jb_id xs"
  by (induction xs) auto

lemma update_jobs_ids:
  assumes "update_jobs P u st = Inr st'" and "\<And>j. jb_id (u j) = jb_id j"
  shows "ids_ok st' = ids_ok st"
proof -
  have "map jb_id (js_jobs st') = map jb_id (js_jobs st)"
    using assms map_ids by (simp add: update_jobs_Inr)
  moreover have "js_next_job st' = js_next_job st" using assms(1) by (simp add: update_jobs_Inr)
  ultimately show ?thesis unfolding ids_ok_def by simp
qed

lemma update_jobs_quiet:
  assumes "update_jobs P u st = Inr st'" and "\<And>j. j \<in> set (js_jobs st) \<Longrightarrow> P j \<Longrightarrow> row_moves j (u j)"
    and "\<And>j. jb_id (u j) = jb_id j"
  shows "quiet st st'"
  using update_jobs_moves [OF assms(1,2)] update_jobs_ids [OF assms(1,3)] assms(1)
  by (auto simp: quiet_def update_jobs_Inr)

lemma update_active_scan_quiet: "update_active_scan i u st = Inr (st', r) \<Longrightarrow> quiet st st'"
  using update_active_scan_Inr [of i u st st' r] by (auto simp: quiet_def ids_ok_def rows_move_same)

lemma finalize_related_scan_quiet: "finalize_related_scan rel status err now st = Inr (st', r) \<Longrightarrow> quiet st st'"
  by (auto simp: finalize_related_scan_def finalize_scan_job_tx_def split: option.splits
    dest: update_active_scan_quiet)

lemma finalize_related_scan_jobs:
  "finalize_related_scan rel status err now st = Inr (st', r) \<Longrightarrow> js_jobs st' = js_jobs st"
  by (auto simp: finalize_related_scan_def finalize_scan_job_tx_def split: option.splits
    dest!: update_active_scan_Inr)

lemma row_ids [simp]:
  "jb_id (released s n j) = jb_id j" "jb_id (terminalized s e n j) = jb_id j"
  "jb_id (rescheduled_cleanup n j) = jb_id j" "jb_id (completed n j) = jb_id j"
  "jb_id (retried s e d n j) = jb_id j" "jb_id (cancel_intro n j) = jb_id j"
  "jb_id (cancel_for_deletion n j) = jb_id j" "jb_id (claimed w d n j) = jb_id j"
  by (simp_all add: released_def terminalized_def rescheduled_cleanup_def completed_def retried_def
    cancel_intro_def cancel_for_deletion_def claimed_def Let_def)

lemma transition_ended: "abandoned_terminal_transition j = Some (status, s, e) \<Longrightarrow> job_ended status"
  by (auto simp: abandoned_terminal_transition_def split: job_status.splits if_splits)

lemma settle_abandoned_quiet:
  assumes "settle_abandoned now j st = Inr (st', out)" and "ids_ok st" "constraints_ok st" "j \<in> set (js_jobs st)"
  shows "quiet st st'" and "x \<in> set (js_jobs st) \<Longrightarrow> jb_id x \<noteq> jb_id j \<Longrightarrow> x \<in> set (js_jobs st')"
proof -
  have is_j: "x = j" if "x \<in> set (js_jobs st)" "jb_id x = jb_id j" for x
    using same_id [OF assms(2) that(1) assms(4) that(2)] .
  have "quiet st st' \<and> (x \<in> set (js_jobs st) \<longrightarrow> jb_id x \<noteq> jb_id j \<longrightarrow> x \<in> set (js_jobs st'))"
  proof (cases "jb_type j = ArtworkCleanup \<and> jb_status j = JobRunning \<and> jb_max_attempts j \<le> jb_attempts j")
    case True
    then have u: "update_jobs (\<lambda>x. jb_id x = jb_id j) (rescheduled_cleanup now) st = Inr st'"
      using assms(1) by (auto simp: settle_abandoned_def result_simps)
    moreover have "row_moves x (rescheduled_cleanup now x)" if "x \<in> set (js_jobs st)" "jb_id x = jb_id j" for x
      using is_j [OF that] True rows_ok [OF assms(3,4)] rescheduled_moves by (auto simp: job_row_ok_def)
    ultimately show ?thesis
      using update_jobs_quiet by (auto simp: update_jobs_Inr image_iff)
  next
    case False
    then consider "st' = st"
      | status s e st1 scan where "abandoned_terminal_transition j = Some (status, s, e)"
          "finalize_related_scan (jb_scan j) s (Some e) now st = Inr (st1, scan)"
          "update_jobs (\<lambda>x. jb_id x = jb_id j)
             (terminalized status (persisted_background_job_error (jb_type j) status e) now) st1 = Inr st'"
      using assms(1) by (auto simp: settle_abandoned_def result_simps Let_def split: option.splits if_splits)
    then show ?thesis
    proof cases
      case 2
      have "quiet st1 st'"
        by (rule update_jobs_quiet [OF 2(3)]) (simp_all add: terminalized_moves transition_ended [OF 2(1)])
      then show ?thesis
        using 2(3) finalize_related_scan_jobs [OF 2(2)] quiet_trans [OF finalize_related_scan_quiet [OF 2(2)]]
        by (auto simp: update_jobs_Inr image_iff)
    qed auto
  qed
  then show "quiet st st'" and "x \<in> set (js_jobs st) \<Longrightarrow> jb_id x \<noteq> jb_id j \<Longrightarrow> x \<in> set (js_jobs st')"
    by blast+
qed

lemma settle_all_quiet:
  "settle_all now js st = Inr (st', outs) \<Longrightarrow> ids_ok st \<Longrightarrow> constraints_ok st
     \<Longrightarrow> set js \<subseteq> set (js_jobs st) \<Longrightarrow> distinct (map jb_id js) \<Longrightarrow> quiet st st'"
proof (induction now js st arbitrary: st' outs rule: settle_all.induct)
  case (2 now j js st)
  from "2.prems"(1) obtain st1 out outs' where s: "settle_abandoned now j st = Inr (st1, out)"
      and rest: "settle_all now js st1 = Inr (st', outs')"
    by (auto simp: result_simps)
  note q = settle_abandoned_quiet [OF s "2.prems"(2,3)]
  have j: "j \<in> set (js_jobs st)" using "2.prems"(4) by simp
  have "ids_ok st1 \<and> constraints_ok st1" using q(1) [OF j] "2.prems"(2,3) by (simp add: quiet_def)
  moreover have "set js \<subseteq> set (js_jobs st1)" using "2.prems"(4,5) by (auto intro!: q(2) [OF j]) (metis imageI)
  ultimately have "quiet st1 st'" using "2.IH" [OF rest] "2.prems"(5) by simp
  then show ?case using q(1) [OF j] quiet_trans by blast
qed simp


lemma prune_quiet: "put (prune_jobs now st) = Inr st' \<Longrightarrow> quiet st st'"
  by (auto simp: prune_jobs_def Let_def quiet_def rows_move_def ids_ok_def distinct_map
    intro: row_moves_refl inj_on_subset)

lemma abandoned_from:
  "set (abandoned_jobs skip now st) \<subseteq> {j \<in> set (js_jobs st). is_abandoned now j \<and> \<not> skip (jb_id j)}"
  unfolding abandoned_jobs_def by (auto dest!: in_set_takeD)

lemma abandoned_distinct: "ids_ok st \<Longrightarrow> distinct (map jb_id (abandoned_jobs skip now st))"
  by (auto simp: abandoned_jobs_def ids_ok_def take_map [symmetric] distinct_map inj_on_subset
    intro!: distinct_take)

lemma claim_candidate_Some:
  assumes "claim_candidate skip now jobs = Some j"
  shows "j \<in> set jobs" and "claimable now jobs j" and "\<not> skip (jb_id j)"
proof -
  obtain xs where "sort_key claim_priority (sort_key jb_run_after (sort_key jb_created_at
      (List.filter (\<lambda>j. claimable now jobs j \<and> \<not> skip (jb_id j)) jobs))) = j # xs" (is "?sorted = _")
    using assms by (auto simp: claim_candidate_def split: list.splits)
  then have "j \<in> set ?sorted" by (simp del: set_sort)
  then show "j \<in> set jobs" and "claimable now jobs j" and "\<not> skip (jb_id j)" by auto
qed

lemma claim_candidate_None:
  "claim_candidate skip now jobs = None \<longleftrightarrow> (\<forall>j\<in>set jobs. claimable now jobs j \<longrightarrow> skip (jb_id j))"
proof -
  have "claim_candidate skip now jobs = None \<longleftrightarrow>
      set (sort_key claim_priority (sort_key jb_run_after (sort_key jb_created_at
             (List.filter (\<lambda>j. claimable now jobs j \<and> \<not> skip (jb_id j)) jobs)))) = {}"
    unfolding claim_candidate_def set_empty by (simp split: list.splits)
  then show ?thesis by (auto simp del: set_empty set_empty2)
qed

text \<open>A claim: first quiet work, then at most one job starts to run.\<close>

lemma claim_cases:
  assumes "claim_background_job worker lease skip now st = Inr (st', outs, c)"
    and "ids_ok st" "constraints_ok st"
  obtains st2 where "quiet st st2" "c = None" "st' = st2"
  | st2 j where "quiet st st2" "claim_candidate skip now (js_jobs st2) = Some j" "c = Some (claimed worker lease now j)"
      "update_jobs (\<lambda>x. jb_id x = jb_id j) (claimed worker lease now) st2 = Inr st'"
proof -
  obtain st1 st2 where p: "put (prune_jobs now st) = Inr st1"
      and s: "settle_all now (abandoned_jobs skip now st1) st1 = Inr (st2, outs)"
      and rest: "(case claim_candidate skip now (js_jobs st2) of None \<Rightarrow> Inr (st2, outs, None)
          | Some j \<Rightarrow> map_ok (\<lambda>st3. (st3, outs, Some (claimed worker lease now j)))
             (update_jobs (\<lambda>x. jb_id x = jb_id j) (claimed worker lease now) st2)) = Inr (st', outs, c)"
    using assms(1) unfolding claim_background_job_def
    by (auto simp: result_simps split: option.splits simp del: put_Inr)
  note q = prune_quiet [OF p]
  then have "ids_ok st1" "constraints_ok st1" using assms(2,3) by (simp_all add: quiet_def)
  then have "quiet st1 st2"
    using settle_all_quiet [OF s] abandoned_distinct abandoned_from by (smt (verit) mem_Collect_eq subset_iff)
  then have "quiet st st2" using q quiet_trans by blast
  then show thesis using that rest by (auto simp: result_simps split: option.splits)
qed

subsection \<open>The owner's transactions\<close>

lemma fenced_cases:
  "fenced f clk i expected mode act st = Inr (st', r) \<Longrightarrow>
     \<exists>s. lock_library_scan_background_job_fence f clk i expected mode st = Inr s \<and> act st = Inr (st', r)"
  by (auto simp: fenced_def result_simps)

lemma same_jobs_quiet:
  "js_jobs st' = js_jobs st \<Longrightarrow> js_libraries st' = js_libraries st \<Longrightarrow> js_next_library st' = js_next_library st
    \<Longrightarrow> js_next_job st' = js_next_job st \<Longrightarrow> (constraints_ok st \<Longrightarrow> constraints_ok st') \<Longrightarrow> quiet st st'"
  by (simp add: quiet_def rows_move_same ids_ok_def)

lemma upsert_group_quiet: "upsert_group i key n c r reached st = Inr st' \<Longrightarrow> quiet st st'"
  by (auto simp: upsert_group_def intro!: same_jobs_quiet)

lemma update_running_scan_quiet: "update_running_scan i u st = Inr (st', r) \<Longrightarrow> quiet st st'"
  by (auto simp: update_running_scan_def result_simps split: option.splits intro!: same_jobs_quiet)

lemma scan_transactions_quiet:
  "mark_scan_job_running i f now clk st = Inr (st', r) \<Longrightarrow> quiet st st'"
  "update_scan_job_progress i t n f clk st = Inr (st', r) \<Longrightarrow> quiet st st'"
  "update_scan_job_phase i ph pc f clk st = Inr (st', r) \<Longrightarrow> quiet st st'"
  "record_scan_job_attempt_failure i m n msg f clk st = Inr (st', r) \<Longrightarrow> quiet st st'"
  "mark_scan_job_retry_pending i msg f clk st = Inr (st', r) \<Longrightarrow> quiet st st'"
  unfolding mark_scan_job_running_def update_scan_job_progress_def update_scan_job_phase_def
    record_scan_job_attempt_failure_def mark_scan_job_retry_pending_def mark_scan_job_retry_pending_tx_def
  by (auto dest!: fenced_cases update_active_scan_quiet)

lemma put_groups_quiet: "constraints_ok (st\<lparr>js_groups := g\<rparr>) \<Longrightarrow> quiet st (st\<lparr>js_groups := g\<rparr>)"
  by (rule same_jobs_quiet) simp_all

lemma group_transactions_quiet:
  "initialize_scan_job_work ndiv i t p f clk st = Inr (st', r) \<Longrightarrow> quiet st st'"
  "mark_scan_group_analyzed ndiv i key n f clk st = Inr (st', r) \<Longrightarrow> quiet st st'"
  "commit_scan_group ndiv i l key n stage f clk st = Inr (st', r2) \<Longrightarrow> quiet st st'"
proof -
  show "quiet st st'" if "initialize_scan_job_work ndiv i t p f clk st = Inr (st', r)"
    using that unfolding initialize_scan_job_work_def Let_def
    by (auto simp: result_simps dest!: fenced_cases update_active_scan_quiet put_groups_quiet intro: quiet_trans)
  show "quiet st st'" if "mark_scan_group_analyzed ndiv i key n f clk st = Inr (st', r)"
    using that unfolding mark_scan_group_analyzed_def Let_def
    by (auto simp: result_simps dest!: fenced_cases update_active_scan_quiet upsert_group_quiet intro: quiet_trans)
  show "quiet st st'" if "commit_scan_group ndiv i l key n stage f clk st = Inr (st', r2)"
    using that unfolding commit_scan_group_def advance_scan_group_progress_def Let_def
    by (auto simp: result_simps split: if_splits commit_stage.splits
      dest!: fenced_cases update_running_scan_quiet upsert_group_quiet) (metis quiet_trans)+
qed

lemma complete_scan_job_quiet:
  "complete_library_scan_background_job_tx f s now clk st = Inr (st', r) \<Longrightarrow> quiet st st'"
  by (auto simp: complete_library_scan_background_job_tx_def result_simps Let_def split: option.splits scan_status.splits
    elim!: update_jobs_quiet intro!: released_moves)

lemma finalize_scan_job_quiet:
  "finalize_scan_job l i status t n err f now clk st = Inr (st', r) \<Longrightarrow> quiet st st'"
  by (auto simp: finalize_scan_job_def finalize_scan_job_tx_def result_simps Let_def split: if_splits
    dest!: update_active_scan_quiet complete_scan_job_quiet intro: quiet_trans)

lemma renew_quiet: "renew_background_job_lease f d now clk st = Inr (st', r) \<Longrightarrow> quiet st st'"
  by (auto simp: renew_background_job_lease_def result_simps Let_def row_moves_def same_job_def
    elim!: update_jobs_quiet)

lemma complete_quiet: "complete_background_job f now clk st = Inr (st', r) \<Longrightarrow> quiet st st'"
  by (auto simp: complete_background_job_def result_simps split: option.splits
    elim!: update_jobs_quiet intro: completed_moves)

lemma update_active_scan_jobs: "update_active_scan i u st = Inr (st', r) \<Longrightarrow> js_jobs st' = js_jobs st"
  by (auto dest!: update_active_scan_Inr)

lemma retry_scan_quiet: "retry_scan j status msg now st = Inr (st', r) \<Longrightarrow> quiet st st' \<and> js_jobs st' = js_jobs st"
  by (auto simp: retry_scan_def mark_scan_job_retry_pending_tx_def split: option.splits job_status.splits
    dest: update_active_scan_quiet update_active_scan_jobs finalize_related_scan_quiet finalize_related_scan_jobs)

lemma retry_quiet:
  assumes "retry_or_fail_background_job f msg d now clk st = Inr (st', r)" and "ids_ok st" "constraints_ok st"
  shows "quiet st st'"
proof -
  obtain j st1 scan where j: "List.find (\<lambda>j. jb_id j = fc_job f) (js_jobs st) = Some j"
      and s: "retry_scan j (retry_status f j) msg now st = Inr (st1, scan)"
      and u: "update_jobs (\<lambda>x. owned_by f x \<and> job_active (jb_status x))
        (retried (retry_status f j) (persisted_background_job_error (jb_type j) (retry_status f j) msg) d now) st1 = Inr st'"
    using assms(1) by (auto simp: retry_or_fail_background_job_def result_simps Let_def split: option.splits)
  have jobs: "js_jobs st1 = js_jobs st" using retry_scan_quiet [OF s] by simp
  have "quiet st1 st'"
  proof (rule update_jobs_quiet [OF u])
    fix x assume "x \<in> set (js_jobs st1)" and own: "owned_by f x \<and> job_active (jb_status x)"
    then have x: "x \<in> set (js_jobs st)" by (simp add: jobs)
    moreover have "j \<in> set (js_jobs st) \<and> jb_id j = fc_job f" using j by (auto simp: find_Some_iff)
    ultimately have "x = j" using same_id [OF assms(2)] own by (auto simp: owned_by_def)
    then show "row_moves x (retried (retry_status f j) (persisted_background_job_error (jb_type j) (retry_status f j) msg) d now x)"
      using own rows_ok [OF assms(3) x] by (auto intro: retry_moves)
  qed simp
  then show ?thesis using retry_scan_quiet [OF s] quiet_trans by blast
qed

end
