(* ===== verification/Job_Invariants.thy ===== *)
theory Job_Invariants
  imports Job_Rows
begin

text \<open>
  The invariant of the queue: jobs that must not run together do not, and no two jobs wait for
  each other. Every transaction keeps it.
\<close>

definition empty_queue :: job_store where
  "empty_queue = \<lparr>js_libraries = [], js_next_library = 1, js_scans = [], js_groups = [], js_jobs = [],
     js_next_scan = 1, js_next_job = 1\<rparr>"

subsection \<open>The invariant\<close>

definition libraries_ok :: "job_store \<Rightarrow> bool" where
  "libraries_ok st \<longleftrightarrow> (\<forall>l\<in>set (js_libraries st). l < js_next_library st)"

definition job_typed :: "job_store \<Rightarrow> job_row \<Rightarrow> bool" where
  "job_typed st j \<longleftrightarrow>
     (jb_status j = JobPending \<longrightarrow> jb_attempts j < jb_max_attempts j)
     \<and> (job_active (jb_status j) \<longrightarrow> 0 < jb_attempts j)
     \<and> (case jb_type j of
          LibraryScan \<Rightarrow> jb_scope_type j = LibraryScope \<and> jb_scope j < js_next_library st
            \<and> (waiting_or_running (jb_status j) \<longrightarrow> jb_scope j \<in> set (js_libraries st))
        | CacheCleanup \<Rightarrow> jb_scope_type j = LibraryScope \<and> jb_scope j < js_next_library st
            \<and> jb_scope j \<notin> set (js_libraries st)
        | TmdbRevalidate \<Rightarrow> jb_max_attempts j = 1
        | _ \<Rightarrow> jb_scope_type j = LibraryScope)"

text \<open>
  A scan of a library conflicts with the maintenance of the library's catalog, artwork and cache
  and with the analysis of its intros; two intro analyses conflict.
\<close>

definition conflict :: "job_row \<Rightarrow> job_row \<Rightarrow> bool" where
  "conflict a b \<longleftrightarrow>
     jb_type a = LibraryScan \<and>
       (jb_type b = TmdbRevalidate \<and> pl_library_id (jb_payload b) = Some (jb_scope a)
        \<or> jb_type b \<in> {CacheCleanup, ArtworkCleanup, IntroDetect} \<and> jb_scope b = jb_scope a)
     \<or> jb_type a = IntroDetect \<and> jb_type b = IntroDetect \<and> jb_id a \<noteq> jb_id b"

definition exclusive :: "job_store \<Rightarrow> bool" where
  "exclusive st \<longleftrightarrow> (\<forall>a\<in>set (js_jobs st). \<forall>b\<in>set (js_jobs st).
     job_active (jb_status a) \<longrightarrow> job_active (jb_status b) \<longrightarrow> \<not> conflict a b)"

text \<open>
  No two jobs wait for each other: an expired item is not waiting while a scan of its library
  runs, and no intro analysis runs while a scan of its library waits.
\<close>

definition no_standoff :: "job_store \<Rightarrow> bool" where
  "no_standoff st \<longleftrightarrow> (\<forall>a\<in>set (js_jobs st). \<forall>b\<in>set (js_jobs st). jb_type a = LibraryScan \<longrightarrow>
     \<not> (job_active (jb_status a) \<and> jb_type b = TmdbRevalidate \<and> jb_status b = JobPending
        \<and> is_retention_expired b \<and> pl_library_id (jb_payload b) = Some (jb_scope a))
     \<and> \<not> (jb_status a = JobPending \<and> jb_type b = IntroDetect \<and> jb_status b = JobRunning \<and> jb_scope b = jb_scope a))"

definition queue_inv :: "job_store \<Rightarrow> bool" where
  "queue_inv st \<longleftrightarrow> constraints_ok st \<and> ids_ok st \<and> libraries_ok st
     \<and> (\<forall>j\<in>set (js_jobs st). job_typed st j) \<and> exclusive st \<and> no_standoff st"

lemma queue_invD:
  assumes "queue_inv st"
  shows "constraints_ok st" "ids_ok st" "libraries_ok st" "exclusive st" "no_standoff st"
    "\<And>j. j \<in> set (js_jobs st) \<Longrightarrow> job_typed st j"
  using assms by (simp_all add: queue_inv_def)

lemma empty_queue_inv: "queue_inv empty_queue"
  by (simp add: queue_inv_def empty_queue_def constraints_ok_def ids_ok_def libraries_ok_def exclusive_def
    no_standoff_def unique_keys_def foreign_keys_def)

subsection \<open>Rows that move keep the invariant\<close>

lemma active_not_ended: "job_active s \<Longrightarrow> \<not> job_ended s"
  by (cases s) simp_all

lemma moved_active:
  assumes "row_moves j j'" and "job_active (jb_status j')"
  shows "job_active (jb_status j)" "jb_payload j' = jb_payload j" "jb_attempts j' = jb_attempts j"
    "jb_locked_by j' = jb_locked_by j" "jb_status j' = JobRunning \<Longrightarrow> jb_status j = JobRunning"
  using assms active_not_ended [OF assms(2)] by (auto simp: row_moves_def)

lemma moved_waiting:
  assumes "row_moves j j'" and "waiting_or_running (jb_status j')"
  shows "waiting_or_running (jb_status j)"
  using assms by (auto simp: row_moves_def waiting_or_running_def)

lemma moved_pending:
  assumes "row_moves j j'" and "jb_status j' = JobPending"
  shows "jb_payload j' = jb_payload j"
    and "jb_status j = JobPending \<and> jb_attempts j' = jb_attempts j
      \<or> jb_status j = JobRunning \<and> jb_attempts j' < jb_max_attempts j
        \<and> (jb_type j = ArtworkCleanup \<or> jb_attempts j < jb_max_attempts j)"
  using assms by (auto simp: row_moves_def)

lemma moved_typed:
  assumes m: "row_moves j j'" and t: "job_typed st j"
    and "js_libraries st' = js_libraries st" "js_next_library st' = js_next_library st"
  shows "job_typed st' j'"
proof -
  have same: "jb_type j' = jb_type j" "jb_scope_type j' = jb_scope_type j" "jb_scope j' = jb_scope j"
    "jb_max_attempts j' = jb_max_attempts j" using m by (auto simp: row_moves_def same_job_def)
  have "jb_status j' = JobPending \<longrightarrow> jb_attempts j' < jb_max_attempts j'"
    using moved_pending(2) [OF m] t same by (auto simp: job_typed_def)
  moreover have "job_active (jb_status j') \<longrightarrow> 0 < jb_attempts j'"
    using moved_active [OF m] t by (auto simp: job_typed_def)
  ultimately show ?thesis
    using t same moved_waiting [OF m] assms(3,4) by (auto simp: job_typed_def split: job_type.splits)
qed

lemma job_typed_frame:
  "js_libraries st' = js_libraries st \<Longrightarrow> js_next_library st' = js_next_library st \<Longrightarrow> job_typed st' j = job_typed st j"
  by (cases "jb_type j") (simp_all add: job_typed_def)

lemma moved_conflict:
  assumes "row_moves a a'" "row_moves b b'" "job_active (jb_status a')" "job_active (jb_status b')" "conflict a' b'"
  shows "conflict a b"
  using assms moved_active(2) [OF assms(2,4)] by (auto simp: conflict_def row_moves_def same_job_def)

lemma no_retry_of_revalidation:
  assumes "row_moves b b'" "jb_status b' = JobPending" "jb_type b = TmdbRevalidate" "job_typed st b"
  shows "jb_status b = JobPending"
  using moved_pending(2) [OF assms(1,2)] assms(3,4) by (auto simp: job_typed_def)

lemma moves_keep_exclusion:
  assumes q: "rows_move st st'" and inv: "queue_inv st"
  shows "exclusive st'" and "no_standoff st'"
proof -
  note invs = queue_invD [OF inv]
  have from_old: "\<exists>j\<in>set (js_jobs st). row_moves j j' \<and> job_typed st j" if "j' \<in> set (js_jobs st')" for j'
    using q that invs(6) by (auto simp: rows_move_def)
  show "exclusive st'"
    unfolding exclusive_def
  proof (intro ballI impI notI)
    fix a' b' assume "a' \<in> set (js_jobs st')" "b' \<in> set (js_jobs st')"
      and act: "job_active (jb_status a')" "job_active (jb_status b')" and c: "conflict a' b'"
    then obtain a b where "a \<in> set (js_jobs st)" "row_moves a a'" "b \<in> set (js_jobs st)" "row_moves b b'"
      using from_old by blast
    then show False
      using invs(4) moved_active(1) act moved_conflict c unfolding exclusive_def by blast
  qed
  show "no_standoff st'"
    unfolding no_standoff_def
  proof (intro ballI impI)
    fix a' b' assume mem: "a' \<in> set (js_jobs st')" "b' \<in> set (js_jobs st')" and scan: "jb_type a' = LibraryScan"
    then obtain a b where a: "a \<in> set (js_jobs st)" "row_moves a a'" and b: "b \<in> set (js_jobs st)" "row_moves b b'"
        and bt: "job_typed st b" using from_old by blast
    have same: "jb_type a = LibraryScan" "jb_scope a' = jb_scope a" "jb_type b' = jb_type b" "jb_scope b' = jb_scope b"
      using scan a b by (auto simp: row_moves_def same_job_def)
    have "\<not> (job_active (jb_status a') \<and> jb_type b' = TmdbRevalidate \<and> jb_status b' = JobPending
        \<and> is_retention_expired b' \<and> pl_library_id (jb_payload b') = Some (jb_scope a'))"
      using invs(5) a(1) b(1) same moved_active(1) [OF a(2)] moved_pending(1) [OF b(2)]
        no_retry_of_revalidation [OF b(2)] bt
      unfolding no_standoff_def is_retention_expired_def by metis
    moreover have "\<not> (jb_status a' = JobPending \<and> jb_type b' = IntroDetect \<and> jb_status b' = JobRunning \<and> jb_scope b' = jb_scope a')"
    proof
      assume h: "jb_status a' = JobPending \<and> jb_type b' = IntroDetect \<and> jb_status b' = JobRunning \<and> jb_scope b' = jb_scope a'"
      then have "jb_status b = JobRunning" using moved_active(5) [OF b(2)] by simp
      moreover have "jb_status a = JobPending \<or> jb_status a = JobRunning"
        using moved_pending(2) [OF a(2)] h by blast
      ultimately show False
        using invs(4,5) a(1) b(1) same h unfolding no_standoff_def exclusive_def conflict_def
        by (metis insertCI job_active.simps(1))
    qed
    ultimately show "\<not> (job_active (jb_status a') \<and> jb_type b' = TmdbRevalidate \<and> jb_status b' = JobPending
        \<and> is_retention_expired b' \<and> pl_library_id (jb_payload b') = Some (jb_scope a'))
     \<and> \<not> (jb_status a' = JobPending \<and> jb_type b' = IntroDetect \<and> jb_status b' = JobRunning \<and> jb_scope b' = jb_scope a')"
      by blast
  qed
qed

lemma quiet_keeps:
  assumes q: "quiet st st'" and inv: "queue_inv st"
  shows "queue_inv st'"
proof -
  note invs = queue_invD [OF inv]
  have q': "rows_move st st'" "js_libraries st' = js_libraries st" "js_next_library st' = js_next_library st"
    "constraints_ok st'" "ids_ok st'" using q invs by (auto simp: quiet_def)
  have "job_typed st' j'" if "j' \<in> set (js_jobs st')" for j'
    using q'(1) that invs(6) moved_typed q'(2,3) by (fastforce simp: rows_move_def)
  then show ?thesis
    using q' invs(3) moves_keep_exclusion [OF q'(1) inv] by (simp add: queue_inv_def libraries_ok_def)
qed

subsection \<open>Claims keep it\<close>

text \<open>Nothing conflicts with a job that can be claimed.\<close>

lemma claimable_no_conflict:
  assumes inv: "queue_inv st" and j: "j \<in> set (js_jobs st)" "claimable now (js_jobs st) j"
    and y: "y \<in> set (js_jobs st)" "job_active (jb_status y)" "jb_id y \<noteq> jb_id j"
  shows "\<not> conflict j y" and "\<not> conflict y j"
proof -
  have free: "\<not> blocks j y" using j y by (auto simp: claimable_def list_ex_iff)
  have jt: "job_typed st j" and yt: "job_typed st y" using queue_invD(6) [OF inv] j y by auto
  have waits: "waiting_or_running (jb_status j)" using j by (auto simp: claimable_def waiting_or_running_def)
  have act: "jb_status y \<in> {JobRunning, JobCancelRequested}" using y(2) by (cases "jb_status y") auto
  show "\<not> conflict j y"
    using free jt yt waits y(2,3) act by (cases "jb_type j"; cases "jb_type y")
      (auto simp: conflict_def blocks_def job_typed_def)
  show "\<not> conflict y j"
    using free jt yt y(2,3) act by (cases "jb_type j"; cases "jb_type y")
      (auto simp: conflict_def blocks_def job_typed_def scan_blocks_def)
qed

lemma claim_keeps:
  assumes inv: "queue_inv st" and j: "j \<in> set (js_jobs st)" and free: "claimable now (js_jobs st) j"
    and u: "update_jobs (\<lambda>x. jb_id x = jb_id j) (claimed worker lease now) st = Inr st'"
  shows "queue_inv st'"
proof -
  note invs = queue_invD [OF inv]
  let ?c = "claimed worker lease now j"
  have st': "st' = st\<lparr>js_jobs := map (\<lambda>x. if jb_id x = jb_id j then claimed worker lease now x else x) (js_jobs st)\<rparr>"
    and ok: "constraints_ok st'" using u by (auto simp: update_jobs_Inr)
  have rows: "x = ?c \<or> x \<in> set (js_jobs st) \<and> jb_id x \<noteq> jb_id j" if "x \<in> set (js_jobs st')" for x
    using that same_id [OF invs(2)] j by (auto simp: st')
  have same: "jb_id ?c = jb_id j" "jb_type ?c = jb_type j" "jb_scope ?c = jb_scope j" "jb_payload ?c = jb_payload j"
    "jb_scope_type ?c = jb_scope_type j" "jb_max_attempts ?c = jb_max_attempts j"
    "jb_status ?c = JobRunning" "jb_attempts ?c = jb_attempts j + 1" by (simp_all add: claimed_def)
  have conf: "conflict ?c y = conflict j y" "conflict y ?c = conflict y j" for y
    by (auto simp: conflict_def same)
  have "\<forall>x\<in>set (js_jobs st'). job_typed st' x"
  proof
    fix x assume "x \<in> set (js_jobs st')"
    then consider "x = ?c" | "x \<in> set (js_jobs st)" using rows by blast
    then show "job_typed st' x"
    proof cases
      case 1
      have "waiting_or_running (jb_status j)" using free by (auto simp: claimable_def waiting_or_running_def)
      then show ?thesis using 1 invs(6) [OF j]
        by (auto simp: job_typed_def same st' waiting_or_running_def split: job_type.splits)
    next
      case 2
      then show ?thesis using invs(6) job_typed_frame [of st' st] by (simp add: st')
    qed
  qed
  moreover have "exclusive st'"
    unfolding exclusive_def
  proof (intro ballI impI notI)
    fix a b assume "a \<in> set (js_jobs st')" "b \<in> set (js_jobs st')"
      and act: "job_active (jb_status a)" "job_active (jb_status b)" and c: "conflict a b"
    then consider "a = ?c" "b = ?c" | "a = ?c" "b \<in> set (js_jobs st)" "jb_id b \<noteq> jb_id j"
      | "b = ?c" "a \<in> set (js_jobs st)" "jb_id a \<noteq> jb_id j" | "a \<in> set (js_jobs st)" "b \<in> set (js_jobs st)"
      using rows by blast
    then show False
    proof cases
      case 1
      then show ?thesis using c by (auto simp: conflict_def)
    qed (use c act conf claimable_no_conflict [OF inv j free] invs(4) in \<open>auto simp: exclusive_def\<close>)
  qed
  moreover have "no_standoff st'"
    unfolding no_standoff_def
  proof (intro ballI impI)
    fix a b assume a: "a \<in> set (js_jobs st')" and b: "b \<in> set (js_jobs st')" and scan: "jb_type a = LibraryScan"
    have block: "\<not> blocks j y" if "y \<in> set (js_jobs st)" for y
      using free that by (auto simp: claimable_def list_ex_iff)
    have jt: "job_typed st j" by (rule invs(6) [OF j])
    show "\<not> (job_active (jb_status a) \<and> jb_type b = TmdbRevalidate \<and> jb_status b = JobPending
        \<and> is_retention_expired b \<and> pl_library_id (jb_payload b) = Some (jb_scope a))
     \<and> \<not> (jb_status a = JobPending \<and> jb_type b = IntroDetect \<and> jb_status b = JobRunning \<and> jb_scope b = jb_scope a)"
    proof (cases "a = ?c")
      case True
      then show ?thesis using rows [OF b] scan block same
        by (auto simp: blocks_def)
    next
      case False
      then have a': "a \<in> set (js_jobs st)" using rows [OF a] by blast
      show ?thesis
      proof (cases "b = ?c")
        case True
        have "job_typed st a" by (rule invs(6) [OF a'])
        then show ?thesis using True scan same block [OF a']
          by (auto simp: blocks_def scan_blocks_def job_typed_def)
      next
        case False
        then show ?thesis using rows [OF b] a' invs(5) scan unfolding no_standoff_def by blast
      qed
    qed
  qed
  moreover have "ids_ok st'" using update_jobs_ids [OF u] invs(2) by simp
  ultimately show ?thesis using ok invs(3) by (simp add: queue_inv_def libraries_ok_def st')
qed


subsection \<open>New jobs keep it\<close>

text \<open>A new row waits, and neither keeps nor is kept in a standoff.\<close>

lemma insert_keeps:
  assumes inv: "queue_inv st" and ok: "constraints_ok (insert_job j st)"
    and j: "jb_id j = js_next_job st" "jb_status j = JobPending" "job_typed st j"
    and scan: "\<And>b. jb_type j = LibraryScan \<Longrightarrow> b \<in> set (js_jobs st) \<Longrightarrow> jb_type b = IntroDetect
      \<Longrightarrow> jb_status b = JobRunning \<Longrightarrow> jb_scope b \<noteq> jb_scope j"
    and expired: "\<And>a. jb_type j = TmdbRevalidate \<Longrightarrow> is_retention_expired j \<Longrightarrow> a \<in> set (js_jobs st)
      \<Longrightarrow> jb_type a = LibraryScan \<Longrightarrow> job_active (jb_status a) \<Longrightarrow> pl_library_id (jb_payload j) \<noteq> Some (jb_scope a)"
  shows "queue_inv (insert_job j st)"
proof -
  note invs = queue_invD [OF inv]
  have "ids_ok (insert_job j st)" using invs(2) j(1) by (auto simp: ids_ok_def insert_job_def)
  moreover have "exclusive (insert_job j st)"
    using invs(4) j(2) by (auto simp: exclusive_def insert_job_def)
  moreover have "no_standoff (insert_job j st)"
    using invs(5) j(2) scan expired by (auto simp: no_standoff_def insert_job_def)
  moreover have "\<forall>x\<in>set (js_jobs (insert_job j st)). job_typed (insert_job j st) x"
    using invs(6) j(3) job_typed_frame [of "insert_job j st" st] by (auto simp: insert_job_def)
  ultimately show ?thesis using ok invs(3) by (simp add: queue_inv_def libraries_ok_def insert_job_def)
qed

lemma new_job_fields [simp]:
  "jb_id (new_job st t sc s r p m n) = js_next_job st" "jb_type (new_job st t sc s r p m n) = t"
  "jb_scope_type (new_job st t sc s r p m n) = sc" "jb_scope (new_job st t sc s r p m n) = s"
  "jb_payload (new_job st t sc s r p m n) = p" "jb_status (new_job st t sc s r p m n) = JobPending"
  "jb_attempts (new_job st t sc s r p m n) = 0" "jb_max_attempts (new_job st t sc s r p m n) = m"
  "jb_scan (new_job st t sc s r p m n) = r"
  by (simp_all add: new_job_def)

lemma used_up_id: "queue_inv st \<Longrightarrow> queue_inv (st\<lparr>js_next_job := js_next_job st + 1\<rparr>)"
proof -
  assume inv: "queue_inv st"
  let ?s = "st\<lparr>js_next_job := js_next_job st + 1\<rparr>"
  have "job_typed ?s j = job_typed st j" for j by (rule job_typed_frame) simp_all
  moreover have "constraints_ok ?s = constraints_ok st"
    by (simp add: constraints_ok_def unique_keys_def foreign_keys_def cong: option.case_cong)
  moreover have "ids_ok ?s" using queue_invD(2) [OF inv] by (auto simp: ids_ok_def)
  ultimately show ?thesis
    using inv by (simp add: queue_inv_def libraries_ok_def exclusive_def no_standoff_def)
qed

lemma insert_unless_conflict_keeps:
  assumes "insert_unless_conflict j st = Inr (st', b)" and "queue_inv st"
    and "jb_id j = js_next_job st" "jb_status j = JobPending" "job_typed st j" "jb_type j \<noteq> LibraryScan"
    and "\<And>a. jb_type j = TmdbRevalidate \<Longrightarrow> is_retention_expired j \<Longrightarrow> a \<in> set (js_jobs st)
      \<Longrightarrow> jb_type a = LibraryScan \<Longrightarrow> job_active (jb_status a) \<Longrightarrow> pl_library_id (jb_payload j) \<noteq> Some (jb_scope a)"
  shows "queue_inv st'"
  using assms used_up_id insert_keeps [of st j]
  by (auto simp: insert_unless_conflict_def result_simps split: if_splits)

lemma intro_keeps:
  "enqueue_season_intro_detection eligible l season now st = Inr (st', b) \<Longrightarrow> queue_inv st \<Longrightarrow> queue_inv st'"
  by (auto simp: enqueue_season_intro_detection_def job_typed_def split: if_splits
    elim!: insert_unless_conflict_keeps)

lemma cleanup_keeps:
  "enqueue_tmdb_artwork_cleanup_tx l m paths now st = Inr st' \<Longrightarrow> queue_inv st \<Longrightarrow> queue_inv st'"
  by (auto simp: enqueue_tmdb_artwork_cleanup_tx_def job_typed_def UNLIMITED_ATTEMPTS_def split: if_splits
    intro!: insert_keeps)

lemma sweeps_keep: "enqueue_sweeps ls now st = Inr (st', k) \<Longrightarrow> queue_inv st \<Longrightarrow> queue_inv st'"
proof (induction ls arbitrary: st st' k)
  case (Cons l ls)
  from Cons.prems(1) obtain st1 b k' where "insert_unless_conflict (new_job st ArtworkCleanup LibraryScope l None
         (no_payload\<lparr>pl_library_id := Some l, pl_maintenance := Some ''orphan_sweep''\<rparr>) UNLIMITED_ATTEMPTS now) st
       = Inr (st1, b)" and rest: "enqueue_sweeps ls now st1 = Inr (st', k')"
    by (auto simp: result_simps)
  then have "queue_inv st1"
    using Cons.prems(2) by (auto simp: job_typed_def UNLIMITED_ATTEMPTS_def elim!: insert_unless_conflict_keeps)
  then show ?case by (rule Cons.IH [OF rest])
qed simp

lemma revalidation_keeps:
  assumes "enqueue_due_tmdb_metadata_revalidation due now st = Inr (st', b)" and "queue_inv st"
  shows "queue_inv st'"
proof (cases "List.find (\<lambda>d. du_library d \<in> set (js_libraries st) \<and> \<not> revalidation_waits st d) due")
  case (Some d)
  then have "\<not> revalidation_waits st d" by (auto simp: find_Some_iff)
  then have free: "\<not> scan_blocks [JobRunning, JobCancelRequested] LibraryScope (du_library d) a" if "a \<in> set (js_jobs st)" for a
    using that by (auto simp: revalidation_waits_def list_ex_iff)
  have no_scan: "du_library d \<noteq> jb_scope a" if "a \<in> set (js_jobs st)" "jb_type a = LibraryScan" "job_active (jb_status a)" for a
    using free [OF that(1)] that queue_invD(6) [OF assms(2) that(1)]
    by (cases "jb_status a") (auto simp: scan_blocks_def job_typed_def)
  show ?thesis
    by (rule insert_unless_conflict_keeps [where st = st])
      (use assms Some no_scan in \<open>auto simp: enqueue_due_tmdb_metadata_revalidation_def job_typed_def no_payload_def\<close>)
next
  case None
  then show ?thesis using assms by (simp add: enqueue_due_tmdb_metadata_revalidation_def)
qed


lemma same_rows_keep:
  assumes "queue_inv st" "js_jobs st' = js_jobs st" "js_libraries st' = js_libraries st"
    "js_next_library st' = js_next_library st" "js_next_job st' = js_next_job st" "constraints_ok st'"
  shows "queue_inv st'"
  using quiet_keeps [OF same_jobs_quiet assms(1)] assms by simp

lemma enqueue_scan_keeps:
  assumes e: "enqueue_scan_job l paths now st = Inr (st', r, b)" and inv: "queue_inv st"
  shows "queue_inv st'"
proof (cases "get_active_scan_job_for_library l st")
  case (Some s)
  then show ?thesis
    using e inv by (auto simp: enqueue_scan_job_def merge_pending_scan_scope_def result_simps
      split: if_splits intro: same_rows_keep)
next
  case None
  let ?P = "\<lambda>j. jb_type j = IntroDetect \<and> jb_scope_type j = LibraryScope \<and> jb_scope j = l
    \<and> waiting_or_running (jb_status j)"
  obtain st1 where u: "update_jobs ?P (cancel_intro now) st = Inr st1" and "enqueue_scan_job l paths now st = Inr (st', r, b)"
    using e None by (auto simp: enqueue_scan_job_def result_simps Let_def)
  let ?st2 = "st1\<lparr>js_scans := js_scans st1 @ [new_scan st1 l paths now], js_next_scan := js_next_scan st1 + 1\<rparr>"
  have p2: "constraints_ok ?st2"
    and st': "st' = insert_job (new_job ?st2 LibraryScan LibraryScope l (Some (sc_id (new_scan st1 l paths now)))
       (no_payload\<lparr>pl_library_id := Some l, pl_scan_job_id := Some (sc_id (new_scan st1 l paths now))\<rparr>) 3 now) ?st2"
    and ok: "constraints_ok st'"
    using e None u by (auto simp: enqueue_scan_job_def result_simps Let_def)
  have "quiet st st1" by (rule update_jobs_quiet [OF u]) (simp_all add: cancel_moves)
  then have inv1: "queue_inv st1" using inv by (rule quiet_keeps)
  have inv2: "queue_inv ?st2" by (rule same_rows_keep [OF inv1]) (use p2 in simp_all)
  have l: "l \<in> set (js_libraries st1)"
    using p2 by (auto simp: constraints_ok_def foreign_keys_def new_scan_def)
  then have "l < js_next_library st1" using queue_invD(3) [OF inv1] by (auto simp: libraries_ok_def)
  moreover have "jb_scope y \<noteq> l" if "y \<in> set (js_jobs st1)" "jb_type y = IntroDetect" "jb_status y = JobRunning" for y
  proof
    assume "jb_scope y = l"
    from that(1) u obtain x where x: "x \<in> set (js_jobs st)" and y: "y = (if ?P x then cancel_intro now x else x)"
      by (auto simp: update_jobs_Inr)
    have "jb_scope_type x = LibraryScope" if "jb_type x = IntroDetect"
      using queue_invD(6) [OF inv x] that by (simp add: job_typed_def)
    then show False
      using y that(2,3) \<open>jb_scope y = l\<close>
      by (auto simp: cancel_intro_def Let_def waiting_or_running_def split: if_splits)
  qed
  ultimately show ?thesis
    unfolding st' using inv2 ok l by (intro insert_keeps) (auto simp: st' job_typed_def)
qed

lemma cancelled_waiting:
  "waiting_or_running (jb_status (cancel_for_deletion now j)) \<Longrightarrow> False"
  by (auto simp: cancel_for_deletion_def waiting_or_running_def split: if_splits)

lemma delete_library_keeps:
  assumes d: "delete_library l now st = Inr (st', c)" and inv: "queue_inv st"
  shows "queue_inv st'"
proof (cases "l \<in> set (js_libraries st)")
  case True
  let ?P = "\<lambda>j. jb_scope_type j = LibraryScope \<and> jb_scope j = l \<and> jb_type j \<in> {LibraryScan, IntroDetect}
    \<and> waiting_or_running (jb_status j)"
  obtain st1 where u: "update_jobs ?P (cancel_for_deletion now) st = Inr st1"
    using d True by (auto simp: delete_library_def result_simps)
  let ?st2 = "drop_library_rows l st1"
  have ok2: "constraints_ok ?st2"
    and st': "st' = insert_job (new_job ?st2 CacheCleanup LibraryScope l None (no_payload\<lparr>pl_library_id := Some l\<rparr>) 10 now) ?st2"
    and ok: "constraints_ok st'"
    using d True u by (auto simp: delete_library_def result_simps)
  have "quiet st st1" by (rule update_jobs_quiet [OF u]) (simp_all add: cancel_moves)
  then have inv1: "queue_inv st1" using inv by (rule quiet_keeps)
  note invs = queue_invD [OF inv1]
  have no_scan: "\<not> (jb_type j = LibraryScan \<and> jb_scope j = l \<and> waiting_or_running (jb_status j))"
    if "j \<in> set (js_jobs st1)" for j
  proof
    assume h: "jb_type j = LibraryScan \<and> jb_scope j = l \<and> waiting_or_running (jb_status j)"
    from that u obtain x where x: "x \<in> set (js_jobs st)" and j: "j = (if ?P x then cancel_for_deletion now x else x)"
      by (auto simp: update_jobs_Inr)
    then have "jb_type x = LibraryScan" using h by (auto simp: cancel_for_deletion_def split: if_splits)
    then have "jb_scope_type x = LibraryScope" using queue_invD(6) [OF inv x] by (simp add: job_typed_def)
    then show False using j h \<open>jb_type x = LibraryScan\<close> cancelled_waiting by (auto split: if_splits)
  qed
  let ?u = "\<lambda>j. if case jb_scan j of None \<Rightarrow> False
      | Some i \<Rightarrow> i \<in> set (map sc_id (List.filter (\<lambda>r. sc_library r = l) (js_scans st1))) then j\<lparr>jb_scan := None\<rparr> else j"
  have jobs: "js_jobs ?st2 = map ?u (js_jobs st1)" by (simp add: drop_library_rows_def Let_def)
  have moves: "rows_move st1 ?st2"
    unfolding rows_move_def jobs by (auto simp: row_moves_def same_job_def)
  have libs: "js_libraries ?st2 = removeAll l (js_libraries st1)" "js_next_library ?st2 = js_next_library st1"
    "js_next_job ?st2 = js_next_job st1"
    by (simp_all add: drop_library_rows_def Let_def)
  have typed: "job_typed ?st2 j'" if mem: "j' \<in> set (js_jobs ?st2)" for j'
  proof -
    from mem obtain j where j: "j \<in> set (js_jobs st1)" and j': "j' = j \<or> j' = j\<lparr>jb_scan := None\<rparr>"
      unfolding jobs by auto
    from j' have same: "jb_type j' = jb_type j" "jb_scope_type j' = jb_scope_type j" "jb_scope j' = jb_scope j"
      "jb_status j' = jb_status j" "jb_attempts j' = jb_attempts j" "jb_max_attempts j' = jb_max_attempts j" by auto
    show ?thesis
      using invs(6) [OF j] no_scan [OF j] unfolding job_typed_def libs same by (cases "jb_type j") auto
  qed
  have "map jb_id (js_jobs ?st2) = map jb_id (js_jobs st1)" unfolding jobs by simp
  then have "ids_ok ?st2" using invs(2) unfolding ids_ok_def by (simp add: libs)
  then have inv2: "queue_inv ?st2"
    using ok2 typed moves_keep_exclusion [OF moves inv1] invs(3) by (auto simp: queue_inv_def libraries_ok_def libs)
  have "l < js_next_library st1"
    using True u invs(3) by (auto simp: libraries_ok_def update_jobs_Inr)
  then show ?thesis
    unfolding st' using inv2 ok by (intro insert_keeps) (auto simp: st' job_typed_def libs)
next
  case False
  then show ?thesis using d inv by (simp add: delete_library_def)
qed

end
