(* ===== verification/Job_Runs.thy ===== *)
theory Job_Runs
  imports Job_Invariants
begin

text \<open>
  The runs of the queue: any order of the transactions of workers, requests and the scheduler.
  They keep the invariant, and a job that a worker has lost, to another worker or for good, is
  never its again in the same attempt.
\<close>

subsection \<open>Runs\<close>

text \<open>
  One transaction. A worker completes a job itself only when it is not a scan
  (\<open>run_background_worker\<close>); a scan completes with its job in \<open>finalize_scan_job\<close>.
\<close>

inductive job_step :: "job_store \<Rightarrow> job_store \<Rightarrow> bool" where
  claim: "claim_background_job w lease skip now st = Inr (st', outs, c) \<Longrightarrow> job_step st st'"
| renew: "renew_background_job_lease f lease now clk st = Inr (st', b) \<Longrightarrow> job_step st st'"
| complete: "j \<in> set (js_jobs st) \<Longrightarrow> jb_id j = fc_job f \<Longrightarrow> jb_type j \<noteq> LibraryScan
    \<Longrightarrow> complete_background_job f now clk st = Inr (st', s) \<Longrightarrow> job_step st st'"
| retry: "retry_or_fail_background_job f msg delay now clk st = Inr (st', s) \<Longrightarrow> job_step st st'"
| scan_running: "mark_scan_job_running i f now clk st = Inr (st', r) \<Longrightarrow> job_step st st'"
| scan_progress: "update_scan_job_progress i t n f clk st = Inr (st', r) \<Longrightarrow> job_step st st'"
| scan_phase: "update_scan_job_phase i ph pc f clk st = Inr (st', r) \<Longrightarrow> job_step st st'"
| scan_failure: "record_scan_job_attempt_failure i m n msg f clk st = Inr (st', r) \<Longrightarrow> job_step st st'"
| scan_retry: "mark_scan_job_retry_pending i msg f clk st = Inr (st', r) \<Longrightarrow> job_step st st'"
| scan_work: "initialize_scan_job_work ndiv i t p f clk st = Inr (st', r) \<Longrightarrow> job_step st st'"
| scan_analyzed: "mark_scan_group_analyzed ndiv i key n f clk st = Inr (st', r) \<Longrightarrow> job_step st st'"
| scan_commit: "commit_scan_group ndiv i l key n stage f clk st = Inr (st', r') \<Longrightarrow> job_step st st'"
| scan_final: "finalize_scan_job l i status t n err f now clk st = Inr (st', r) \<Longrightarrow> job_step st st'"
| enqueue_scan: "enqueue_scan_job l paths now st = Inr (st', r', b) \<Longrightarrow> job_step st st'"
| enqueue_revalidation: "enqueue_due_tmdb_metadata_revalidation due now st = Inr (st', b) \<Longrightarrow> job_step st st'"
| enqueue_sweep: "enqueue_due_tmdb_artwork_orphan_sweeps now st = Inr (st', k) \<Longrightarrow> job_step st st'"
| enqueue_cleanup: "enqueue_tmdb_artwork_cleanup_tx l m paths now st = Inr st' \<Longrightarrow> job_step st st'"
| enqueue_intro: "enqueue_season_intro_detection eligible l season now st = Inr (st', b) \<Longrightarrow> job_step st st'"
| library_deleted: "delete_library l now st = Inr (st', cleanup) \<Longrightarrow> job_step st st'"
| library_created: "job_step st (fst (create_library st))"

abbreviation job_run :: "job_store \<Rightarrow> job_store \<Rightarrow> bool" where
  "job_run \<equiv> job_step\<^sup>*\<^sup>*"

lemma claim_background_keeps:
  assumes "claim_background_job w lease skip now st = Inr (st', outs, c)" and inv: "queue_inv st"
  shows "queue_inv st'"
  using assms(1) queue_invD(2,1) [OF inv]
proof (cases rule: claim_cases)
  case (1 st2)
  then show ?thesis using quiet_keeps inv by blast
next
  case (2 st2 j)
  then show ?thesis using claim_keeps [OF quiet_keeps [OF 2(1) inv] claim_candidate_Some(1,2) 2(4)] by blast
qed

lemma create_library_keeps: "queue_inv st \<Longrightarrow> queue_inv (fst (create_library st))"
proof -
  assume inv: "queue_inv st"
  note invs = queue_invD [OF inv]
  let ?s = "fst (create_library st)"
  have "constraints_ok ?s"
    using invs(1) by (auto simp: create_library_def constraints_ok_def unique_keys_def foreign_keys_def list_all_iff
      split: option.splits)
  moreover have "job_typed ?s j" if "j \<in> set (js_jobs st)" for j
    using invs(6) [OF that] by (cases "jb_type j") (auto simp: create_library_def job_typed_def)
  moreover have "libraries_ok ?s" using invs(3) by (auto simp: create_library_def libraries_ok_def)
  ultimately show ?thesis
    using invs by (auto simp: queue_inv_def create_library_def exclusive_def no_standoff_def ids_ok_def)
qed

text \<open>Apart from claims, new jobs and libraries, a transaction adds no row.\<close>

lemma job_step_cases:
  assumes "job_step st st'" and "queue_inv st"
  obtains "quiet st st'"
  | w lease skip now outs c where "claim_background_job w lease skip now st = Inr (st', outs, c)"
  | l paths now r b where "enqueue_scan_job l paths now st = Inr (st', r, b)"
  | due now b where "enqueue_due_tmdb_metadata_revalidation due now st = Inr (st', b)"
  | ls now k where "enqueue_sweeps ls now st = Inr (st', k)"
  | l m paths now where "enqueue_tmdb_artwork_cleanup_tx l m paths now st = Inr st'"
  | eligible l season now b where "enqueue_season_intro_detection eligible l season now st = Inr (st', b)"
  | l now c where "delete_library l now st = Inr (st', c)"
  | "st' = fst (create_library st)"
  using assms(1)
proof cases
  case claim
  then show ?thesis using that(2) by blast
next
  case renew
  then show ?thesis using that(1) renew_quiet by blast
next
  case complete
  then show ?thesis using that(1) complete_quiet by blast
next
  case retry
  then show ?thesis using that(1) retry_quiet [OF _ queue_invD(2,1)] assms(2) by blast
next
  case scan_running
  then show ?thesis using that(1) scan_transactions_quiet(1) by blast
next
  case scan_progress
  then show ?thesis using that(1) scan_transactions_quiet(2) by blast
next
  case scan_phase
  then show ?thesis using that(1) scan_transactions_quiet(3) by blast
next
  case scan_failure
  then show ?thesis using that(1) scan_transactions_quiet(4) by blast
next
  case scan_retry
  then show ?thesis using that(1) scan_transactions_quiet(5) by blast
next
  case scan_work
  then show ?thesis using that(1) group_transactions_quiet(1) by blast
next
  case scan_analyzed
  then show ?thesis using that(1) group_transactions_quiet(2) by blast
next
  case scan_commit
  then show ?thesis using that(1) group_transactions_quiet(3) by blast
next
  case scan_final
  then show ?thesis using that(1) finalize_scan_job_quiet by blast
next
  case enqueue_scan
  then show ?thesis using that(3) by blast
next
  case enqueue_revalidation
  then show ?thesis using that(4) by blast
next
  case enqueue_sweep
  then show ?thesis using that(5) unfolding enqueue_due_tmdb_artwork_orphan_sweeps_def by blast
next
  case enqueue_cleanup
  then show ?thesis using that(6) by blast
next
  case enqueue_intro
  then show ?thesis using that(7) by blast
next
  case library_deleted
  then show ?thesis using that(8) by blast
next
  case library_created
  then show ?thesis using that(9) by blast
qed

lemma job_step_keeps:
  assumes "job_step st st'" and inv: "queue_inv st"
  shows "queue_inv st'"
  using assms
proof (cases rule: job_step_cases)
  case 1
  then show ?thesis using inv by (rule quiet_keeps)
next
  case 9
  then show ?thesis using create_library_keeps [OF inv] by simp
qed (use inv in \<open>blast intro: claim_background_keeps enqueue_scan_keeps revalidation_keeps sweeps_keep
  cleanup_keeps intro_keeps delete_library_keeps\<close>)+

lemma job_run_keeps: "job_run st st' \<Longrightarrow> queue_inv st \<Longrightarrow> queue_inv st'"
  by (induction rule: rtranclp_induct) (auto intro: job_step_keeps)


subsection \<open>Jobs that exclude each other\<close>

text \<open>
  C4. Whatever the order of the transactions of workers, requests and the scheduler: while a scan
  of a library is active (running, or asked to stop and not yet stopped), no revalidation of the
  library's items, no cleanup of its artwork or its cache and no intro analysis of it is active,
  and at most one intro analysis is active at all.
\<close>

theorem jobs_exclusive:
  assumes "job_run empty_queue st" and "a \<in> set (js_jobs st)" "b \<in> set (js_jobs st)"
    and "job_active (jb_status a)" "job_active (jb_status b)"
  shows "\<not> (jb_type a = LibraryScan \<and> jb_type b = TmdbRevalidate \<and> pl_library_id (jb_payload b) = Some (jb_scope a))
    \<and> \<not> (jb_type a = LibraryScan \<and> jb_type b \<in> {CacheCleanup, ArtworkCleanup, IntroDetect} \<and> jb_scope b = jb_scope a)
    \<and> \<not> (jb_type a = IntroDetect \<and> jb_type b = IntroDetect \<and> jb_id a \<noteq> jb_id b)"
proof -
  have "exclusive st" using job_run_keeps [OF assms(1) empty_queue_inv] by (rule queue_invD)
  then have "\<not> conflict a b" using assms(2-5) by (simp add: exclusive_def)
  then show ?thesis by (simp add: conflict_def)
qed

text \<open>An instance: a library, its scan, and a worker that claims it.\<close>

definition demo_scan :: scan_row where
  "demo_scan = new_scan (fst (create_library empty_queue)) 1 [] 0"

definition demo_job :: job_row where
  "demo_job = new_job empty_queue LibraryScan LibraryScope 1 (Some 1)
     (no_payload\<lparr>pl_library_id := Some 1, pl_scan_job_id := Some 1\<rparr>) 3 0"

definition demo_waiting :: job_store where
  "demo_waiting = \<lparr>js_libraries = [1], js_next_library = 2, js_scans = [demo_scan], js_groups = [],
     js_jobs = [demo_job], js_next_scan = 2, js_next_job = 2\<rparr>"

definition demo_running :: job_store where
  "demo_running = demo_waiting\<lparr>js_jobs := [claimed (lit ''w1'') 60 5 demo_job]\<rparr>"

lemmas queue_eval = constraints_ok_def unique_keys_def foreign_keys_def scan_row_ok_def scan_shape_def scan_active_def
  job_row_ok_def job_shape_def waiting_or_running_def put_def

lemma demo_enqueued: "enqueue_scan_job 1 [] 0 (fst (create_library empty_queue)) = Inr (demo_waiting, demo_scan, True)"
  by (simp add: enqueue_scan_job_def get_active_scan_job_for_library_def update_jobs_def create_library_def
    empty_queue_def demo_waiting_def demo_scan_def demo_job_def new_scan_def new_job_def insert_job_def
    no_payload_def Let_def queue_eval)

lemma demo_claimed:
  "claim_background_job (lit ''w1'') 60 (\<lambda>_. False) 5 demo_waiting
     = Inr (demo_running, [], Some (claimed (lit ''w1'') 60 5 demo_job))"
  by (simp add: claim_background_job_def prune_jobs_def prunable_def abandoned_jobs_def is_abandoned_def
    claim_candidate_def claimable_def blocks_def update_jobs_def demo_running_def demo_waiting_def demo_scan_def
    demo_job_def new_scan_def new_job_def claimed_def create_library_def empty_queue_def secs_def queue_eval)

lemma demo_run: "job_run empty_queue demo_waiting" "job_run demo_waiting demo_running"
proof -
  have "job_run empty_queue (fst (create_library empty_queue))" using library_created by (rule r_into_rtranclp)
  then show "job_run empty_queue demo_waiting"
    using enqueue_scan [OF demo_enqueued] by (rule rtranclp.rtrancl_into_rtrancl)
  show "job_run demo_waiting demo_running" using claim [OF demo_claimed] by (rule r_into_rtranclp)
qed

text \<open>Then a second library, with an intro analysis that a second worker claims while the scan runs.\<close>

definition demo_intro_job :: job_row where
  "demo_intro_job = new_job demo_running IntroDetect LibraryScope 2 None
     (no_payload\<lparr>pl_library_id := Some 2, pl_season_id := Some 7\<rparr>) 3 0"

definition demo_two_waiting :: job_store where
  "demo_two_waiting = demo_running\<lparr>js_libraries := [1, 2], js_next_library := 3,
     js_jobs := [claimed (lit ''w1'') 60 5 demo_job, demo_intro_job], js_next_job := 3\<rparr>"

definition demo_two_running :: job_store where
  "demo_two_running = demo_two_waiting\<lparr>js_jobs := [claimed (lit ''w1'') 60 5 demo_job, claimed (lit ''w2'') 60 6 demo_intro_job]\<rparr>"

lemmas demo_jobs_eval = demo_running_def demo_waiting_def demo_scan_def demo_job_def demo_intro_job_def new_scan_def new_job_def
  claimed_def create_library_def empty_queue_def no_payload_def

lemma demo_intro_enqueued:
  "enqueue_season_intro_detection True 2 7 0 (fst (create_library demo_running)) = Inr (demo_two_waiting, True)"
  by (simp add: enqueue_season_intro_detection_def insert_unless_conflict_def insert_job_def demo_two_waiting_def
    demo_jobs_eval secs_def queue_eval)

lemma demo_intro_claimed:
  "claim_background_job (lit ''w2'') 60 (\<lambda>_. False) 6 demo_two_waiting
     = Inr (demo_two_running, [], Some (claimed (lit ''w2'') 60 6 demo_intro_job))"
  by (simp add: claim_background_job_def prune_jobs_def prunable_def abandoned_jobs_def is_abandoned_def
    claim_candidate_def claimable_def blocks_def update_jobs_def demo_two_waiting_def demo_two_running_def
    demo_jobs_eval secs_def lease_over_def scan_blocks_def claim_priority_def queue_eval)

lemma demo_two_run: "job_run empty_queue demo_two_running"
proof -
  have "job_run empty_queue (fst (create_library demo_running))"
    using rtranclp_trans [OF demo_run] library_created by (rule rtranclp.rtrancl_into_rtrancl)
  then have "job_run empty_queue demo_two_waiting"
    using enqueue_intro [OF demo_intro_enqueued] by (rule rtranclp.rtrancl_into_rtrancl)
  then show ?thesis using claim [OF demo_intro_claimed] by (rule rtranclp.rtrancl_into_rtrancl)
qed

theorem jobs_exclusive_witness:
  "let a = claimed (lit ''w1'') 60 5 demo_job; b = claimed (lit ''w2'') 60 6 demo_intro_job
   in jb_type a = LibraryScan \<and> jb_type b = IntroDetect \<and> job_active (jb_status a) \<and> job_active (jb_status b)
    \<and> \<not> (jb_type a = LibraryScan \<and> jb_type b \<in> {CacheCleanup, ArtworkCleanup, IntroDetect} \<and> jb_scope b = jb_scope a)"
proof -
  let ?a = "claimed (lit ''w1'') 60 5 demo_job" and ?b = "claimed (lit ''w2'') 60 6 demo_intro_job"
  have rows: "?a \<in> set (js_jobs demo_two_running)" "?b \<in> set (js_jobs demo_two_running)"
      "job_active (jb_status ?a)" "job_active (jb_status ?b)"
    by (simp_all add: demo_two_running_def claimed_def)
  have types: "jb_type ?a = LibraryScan" "jb_type ?b = IntroDetect"
    by (simp_all add: claimed_def demo_job_def demo_intro_job_def new_job_def)
  show ?thesis unfolding Let_def using jobs_exclusive [OF demo_two_run rows] rows(3,4) types by blast
qed

end
