(* ===== verification/Job_Ownership.thy ===== *)
theory Job_Ownership
  imports Job_Runs
begin

text \<open>
  The owner of a job. A worker acts on a job behind a fence: the job's id, its name and the
  attempt. A fence that was lost stays lost, so a worker that was delayed past its lease cannot
  write over the work of the one that took its job.
\<close>

subsection \<open>Attempts only grow\<close>

text \<open>
  Cleanups of artwork are apart: they are retried for ever, and their attempt is set back by one
  when it reaches its maximum.
\<close>

definition follows :: "job_row \<Rightarrow> job_row \<Rightarrow> bool" where
  "follows j j' \<longleftrightarrow> jb_id j' = jb_id j \<and> jb_type j' = jb_type j
     \<and> (jb_type j \<noteq> ArtworkCleanup \<longrightarrow>
          jb_attempts j < jb_attempts j'
          \<or> jb_attempts j' = jb_attempts j
            \<and> (job_active (jb_status j') \<longrightarrow> job_active (jb_status j) \<and> jb_locked_by j' = jb_locked_by j))"

definition evolves :: "job_store \<Rightarrow> job_store \<Rightarrow> bool" where
  "evolves st st' \<longleftrightarrow> js_next_job st \<le> js_next_job st'
     \<and> (\<forall>j'\<in>set (js_jobs st'). jb_id j' < js_next_job st \<longrightarrow> (\<exists>j\<in>set (js_jobs st). follows j j'))"

lemma follows_refl [simp]: "follows j j"
  by (simp add: follows_def)

lemma follows_trans: "follows a b \<Longrightarrow> follows b c \<Longrightarrow> follows a c"
  unfolding follows_def by (elim conjE disjE) auto

lemma evolves_refl [simp]: "evolves st st"
  unfolding evolves_def using follows_refl by blast

lemma evolves_trans:
  assumes ab: "evolves a b" and bc: "evolves b c"
  shows "evolves a c"
proof -
  have "\<exists>j\<in>set (js_jobs a). follows j j2" if mem: "j2 \<in> set (js_jobs c)" "jb_id j2 < js_next_job a" for j2
  proof -
    have "jb_id j2 < js_next_job b" using ab that(2) by (simp add: evolves_def)
    then obtain j1 where j1: "j1 \<in> set (js_jobs b)" "follows j1 j2" using bc mem(1) unfolding evolves_def by blast
    then have "jb_id j1 < js_next_job a" using that(2) by (simp add: follows_def)
    then show ?thesis using ab j1 follows_trans unfolding evolves_def by blast
  qed
  moreover have "js_next_job a \<le> js_next_job c" using ab bc by (simp add: evolves_def)
  ultimately show ?thesis by (simp add: evolves_def)
qed

lemma moved_follows:
  assumes "row_moves j j'"
  shows "follows j j'"
proof -
  have "jb_id j' = jb_id j" "jb_type j' = jb_type j" "jb_type j \<noteq> ArtworkCleanup \<longrightarrow> jb_attempts j' = jb_attempts j"
    using assms by (simp_all add: row_moves_def same_job_def)
  then show ?thesis using moved_active(1,4) [OF assms] by (simp add: follows_def)
qed

lemma moves_evolve: "rows_move st st' \<Longrightarrow> js_next_job st' = js_next_job st \<Longrightarrow> evolves st st'"
  unfolding evolves_def rows_move_def using moved_follows by (metis order_refl)

lemma quiet_evolves: "quiet st st' \<Longrightarrow> evolves st st'"
  by (simp add: quiet_def moves_evolve)

lemma same_evolves: "js_jobs st' = js_jobs st \<Longrightarrow> js_next_job st \<le> js_next_job st' \<Longrightarrow> evolves st st'"
  unfolding evolves_def using follows_refl by metis

lemma insert_evolves: "jb_id j = js_next_job st \<Longrightarrow> evolves st (insert_job j st)"
  unfolding evolves_def insert_job_def using follows_refl by fastforce

lemma claimed_evolves:
  "update_jobs (\<lambda>x. jb_id x = jb_id j) (claimed w lease now) st = Inr st' \<Longrightarrow> evolves st st'"
  by (force simp: update_jobs_Inr evolves_def follows_def claimed_def)

lemma insert_unless_conflict_evolves:
  "insert_unless_conflict j st = Inr (st', b) \<Longrightarrow> jb_id j = js_next_job st \<Longrightarrow> evolves st st'"
  by (auto simp: insert_unless_conflict_def result_simps insert_evolves same_evolves split: if_splits)

lemma sweeps_evolve: "enqueue_sweeps ls now st = Inr (st', k) \<Longrightarrow> evolves st st'"
proof (induction ls arbitrary: st st' k)
  case (Cons l ls)
  from Cons.prems obtain st1 b k' where "insert_unless_conflict (new_job st ArtworkCleanup LibraryScope l None
         (no_payload\<lparr>pl_library_id := Some l, pl_maintenance := Some ''orphan_sweep''\<rparr>) UNLIMITED_ATTEMPTS now) st
       = Inr (st1, b)" and "enqueue_sweeps ls now st1 = Inr (st', k')"
    by (auto simp: result_simps)
  then show ?case using insert_unless_conflict_evolves [of _ st] Cons.IH evolves_trans by fastforce
qed simp

lemma enqueue_scan_evolves:
  assumes "enqueue_scan_job l paths now st = Inr (st', r, b)"
  shows "evolves st st'"
proof (cases "get_active_scan_job_for_library l st")
  case (Some s)
  then show ?thesis
    using assms by (auto simp: enqueue_scan_job_def merge_pending_scan_scope_def result_simps split: if_splits
      intro: same_evolves)
next
  case None
  let ?add = "\<lambda>s. s\<lparr>js_scans := js_scans s @ [new_scan s l paths now], js_next_scan := js_next_scan s + 1\<rparr>"
  let ?P = "\<lambda>j. jb_type j = IntroDetect \<and> jb_scope_type j = LibraryScope \<and> jb_scope j = l
    \<and> waiting_or_running (jb_status j)"
  obtain st1 j where u: "update_jobs ?P (cancel_intro now) st = Inr st1"
      and st': "st' = insert_job j (?add st1)" and j: "jb_id j = js_next_job (?add st1)"
    using assms None by (auto simp: enqueue_scan_job_def result_simps Let_def)
  have "quiet st st1" by (rule update_jobs_quiet [OF u]) (simp_all add: cancel_moves)
  moreover have "evolves st1 (?add st1)" by (rule same_evolves) simp_all
  ultimately show ?thesis
    unfolding st' using evolves_trans quiet_evolves insert_evolves [OF j] by blast
qed

lemma drop_library_rows_moves: "rows_move st (drop_library_rows l st)"
  by (auto simp: rows_move_def drop_library_rows_def Let_def row_moves_def same_job_def)

lemma delete_library_evolves:
  assumes "delete_library l now st = Inr (st', c)"
  shows "evolves st st'"
proof (cases "l \<in> set (js_libraries st)")
  case True
  let ?P = "\<lambda>j. jb_scope_type j = LibraryScope \<and> jb_scope j = l \<and> jb_type j \<in> {LibraryScan, IntroDetect}
    \<and> waiting_or_running (jb_status j)"
  obtain st1 j where u: "update_jobs ?P (cancel_for_deletion now) st = Inr st1"
      and st': "st' = insert_job j (drop_library_rows l st1)" and j: "jb_id j = js_next_job (drop_library_rows l st1)"
    using assms True by (auto simp: delete_library_def result_simps)
  have "quiet st st1" by (rule update_jobs_quiet [OF u]) (simp_all add: cancel_moves)
  moreover have "evolves st1 (drop_library_rows l st1)"
    by (rule moves_evolve [OF drop_library_rows_moves]) (simp add: drop_library_rows_def Let_def)
  ultimately show ?thesis
    unfolding st' using evolves_trans quiet_evolves insert_evolves [OF j] by blast
next
  case False
  then show ?thesis using assms by (simp add: delete_library_def)
qed

lemma claim_evolves:
  assumes "claim_background_job w lease skip now st = Inr (st', outs, c)" and "queue_inv st"
  shows "evolves st st'"
  using assms(1) queue_invD(2,1) [OF assms(2)]
  by (cases rule: claim_cases) (use quiet_evolves claimed_evolves evolves_trans in blast)+

lemma job_step_evolves:
  assumes "job_step st st'" and inv: "queue_inv st"
  shows "evolves st st'"
  using assms
proof (cases rule: job_step_cases)
  case 1
  then show ?thesis by (rule quiet_evolves)
next
  case 2
  then show ?thesis using inv by (rule claim_evolves)
next
  case 3
  then show ?thesis by (rule enqueue_scan_evolves)
next
  case 4
  then show ?thesis
    by (auto simp: enqueue_due_tmdb_metadata_revalidation_def insert_unless_conflict_evolves split: option.splits)
next
  case 5
  then show ?thesis by (rule sweeps_evolve)
next
  case 6
  then show ?thesis by (auto simp: enqueue_tmdb_artwork_cleanup_tx_def insert_evolves split: if_splits)
next
  case 7
  then show ?thesis
    by (auto simp: enqueue_season_intro_detection_def insert_unless_conflict_evolves split: if_splits)
next
  case 8
  then show ?thesis by (rule delete_library_evolves)
next
  case 9
  then show ?thesis by (simp add: create_library_def same_evolves)
qed

lemma job_run_evolves: "job_run st st' \<Longrightarrow> queue_inv st \<Longrightarrow> evolves st st'"
proof (induction rule: rtranclp_induct)
  case (step b c)
  then show ?case using job_step_evolves [OF step(2)] job_run_keeps [OF step(1)] evolves_trans by blast
qed simp

subsection \<open>Fences\<close>

definition fence_held :: "job_fence \<Rightarrow> job_store \<Rightarrow> bool" where
  "fence_held f st = list_ex (\<lambda>j. owned_by f j \<and> job_active (jb_status j)) (js_jobs st)"

lemma fence_held_iff: "fence_held f st \<longleftrightarrow> (\<exists>j\<in>set (js_jobs st). owned_by f j \<and> job_active (jb_status j))"
  by (auto simp: fence_held_def list_ex_iff)

text \<open>A fence held before and after is held all the time.\<close>

lemma held_between:
  assumes ab: "evolves a b" and bc: "evolves b c" and ids: "ids_ok a"
    and j: "j \<in> set (js_jobs a)" "owned_by f j" "jb_type j \<noteq> ArtworkCleanup" and held: "fence_held f c"
  shows "fence_held f b"
proof -
  from held obtain k where k: "k \<in> set (js_jobs c)" "owned_by f k" "job_active (jb_status k)"
    by (auto simp: fence_held_iff)
  have new: "jb_id k < js_next_job a" using ids j k by (auto simp: ids_ok_def owned_by_def)
  then have "jb_id k < js_next_job b" using ab by (simp add: evolves_def)
  then obtain m where m: "m \<in> set (js_jobs b)" "follows m k" using bc k(1) unfolding evolves_def by blast
  then have "jb_id m < js_next_job a" using new by (simp add: follows_def)
  then obtain i where i: "i \<in> set (js_jobs a)" "follows i m" using ab m(1) unfolding evolves_def by blast
  have "i = j" using same_id [OF ids i(1) j(1)] i(2) m(2) k(2) j(2) by (simp add: follows_def owned_by_def)
  then have "owned_by f m \<and> job_active (jb_status m)"
    using i(2) m(2) k(2,3) j(2,3) by (auto simp: follows_def owned_by_def)
  then show ?thesis using m(1) by (auto simp: fence_held_iff)
qed

text \<open>Behind a fence that is not held every transaction is refused.\<close>

lemma unheld_is_refused:
  assumes "\<not> fence_held f st"
  shows "lock_background_job_fence f clk st = Inl FenceLost"
    and "lock_library_scan_background_job_fence f clk i expected mode st = Inl FenceLost"
    and "complete_background_job f now clk st = Inl FenceLost"
    and "retry_or_fail_background_job f msg delay now clk st = Inl FenceLost"
    and "constraints_ok st \<Longrightarrow> renew_background_job_lease f lease now clk st = Inr (st, False)"
proof -
  have no: "\<not> (owned_by f j \<and> job_active (jb_status j))" if "j \<in> set (js_jobs st)" for j
    using assms that by (auto simp: fence_held_iff)
  then have nf: "\<not> holds_fence f clk j" if "j \<in> set (js_jobs st)" for j
    using that by (auto simp: holds_fence_def)
  then have none: "List.find (holds_fence f clk) (js_jobs st) = None" by (simp add: find_None_iff)
  show l: "lock_background_job_fence f clk st = Inl FenceLost"
    using nf by (auto simp: lock_background_job_fence_def list_ex_iff)
  show "complete_background_job f now clk st = Inl FenceLost" by (simp add: complete_background_job_def none)
  show "retry_or_fail_background_job f msg delay now clk st = Inl FenceLost"
    by (simp add: retry_or_fail_background_job_def l)
  have running: "\<not> (jb_status j = JobRunning \<and> owned_by f j)" "\<not> (jb_status j = JobCancelRequested \<and> owned_by f j)"
    if "j \<in> set (js_jobs st)" for j using no [OF that] by auto
  have "List.find (\<lambda>j. jb_type j = LibraryScan \<and> jb_scope_type j = LibraryScope
               \<and> jb_scan j = Some i \<and> (expected = None \<or> expected = Some (jb_scope j))
               \<and> (jb_status j = JobRunning \<or> mode = FinalizeMode \<and> jb_status j = JobCancelRequested)
               \<and> owned_by f j \<and> lease_valid clk j
               \<and> list_ex (\<lambda>r. sc_id r = i \<and> sc_library r = jb_scope j \<and> scan_active r
                    \<and> (mode = RunningMode \<longrightarrow> sc_status r = ScanRunning)) (js_scans st)) (js_jobs st) = None"
    using running by (auto simp: find_None_iff)
  moreover have "\<not> list_ex (\<lambda>j. jb_type j = LibraryScan \<and> jb_scope_type j = LibraryScope
                  \<and> Some (jb_scope j) = expected \<and> jb_scan j = None \<and> jb_status j = JobCancelRequested
                  \<and> owned_by f j \<and> lease_valid clk j) (js_jobs st)"
    using running by (auto simp: list_ex_iff)
  ultimately show "lock_library_scan_background_job_fence f clk i expected mode st = Inl FenceLost"
    by (simp add: lock_library_scan_background_job_fence_def)
  assume ok: "constraints_ok st"
  have "List.filter (\<lambda>j. holds_fence f clk j \<and> jb_status j = JobRunning) (js_jobs st) = []"
    using nf by (auto simp: filter_empty_conv)
  moreover have "map (\<lambda>j. if holds_fence f clk j \<and> jb_status j = JobRunning then u j else j) (js_jobs st) = js_jobs st" for u
    using nf by (intro map_idI) auto
  ultimately show "renew_background_job_lease f lease now clk st = Inr (st, False)"
    using ok by (simp add: renew_background_job_lease_def update_jobs_def put_def)
qed

text \<open>
  C5. Once a worker has lost a job that it held (to another worker after its lease, to a
  cancellation that was settled, or because the job ended), no run of the queue gives it back in
  the same attempt: whatever happens after, completing or retrying the job, every write of a scan
  behind the job's fence and the renewal of its lease are refused. This is said of every job that is
  not an artwork cleanup: one that is abandoned in its last attempt starts again with its count of attempts set back,
  so that the same worker may get the same attempt twice.
\<close>

theorem stale_worker_is_fenced:
  assumes "job_run empty_queue st1" and "job_run st1 st2" and "job_run st2 st3"
    and "j \<in> set (js_jobs st1)" "owned_by f j" "job_active (jb_status j)" "jb_type j \<noteq> ArtworkCleanup"
    and "\<not> fence_held f st2"
  shows "complete_background_job f now clk st3 = Inl FenceLost
    \<and> retry_or_fail_background_job f msg delay now clk st3 = Inl FenceLost
    \<and> lock_library_scan_background_job_fence f clk i expected mode st3 = Inl FenceLost
    \<and> renew_background_job_lease f lease now clk st3 = Inr (st3, False)"
proof -
  have inv1: "queue_inv st1" using job_run_keeps [OF assms(1) empty_queue_inv] .
  then have inv2: "queue_inv st2" and ab: "evolves st1 st2"
    using job_run_keeps [OF assms(2)] job_run_evolves [OF assms(2)] by blast+
  then have inv3: "queue_inv st3" and bc: "evolves st2 st3"
    using job_run_keeps [OF assms(3)] job_run_evolves [OF assms(3)] by blast+
  have lost: "\<not> fence_held f st3"
    using held_between [OF ab bc queue_invD(2) [OF inv1] assms(4,5,7)] assms(8) by blast
  note refused = unheld_is_refused [OF lost]
  show ?thesis using refused queue_invD(1) [OF inv3] by blast
qed

text \<open>An instance: a worker loses the job of a scan after its lease, and another one takes it.\<close>

definition demo_fence :: job_fence where
  "demo_fence = \<lparr>fc_job = 1, fc_worker = lit ''w1'', fc_attempt = 1\<rparr>"

definition demo_retaken :: job_store where
  "demo_retaken = demo_running\<lparr>js_jobs := [claimed (lit ''w2'') 60 70000000 (claimed (lit ''w1'') 60 5 demo_job)]\<rparr>"

lemma demo_reclaimed:
  "claim_background_job (lit ''w2'') 60 (\<lambda>_. False) 70000000 demo_running
     = Inr (demo_retaken, [], Some (claimed (lit ''w2'') 60 70000000 (claimed (lit ''w1'') 60 5 demo_job)))"
  by (simp add: claim_background_job_def prune_jobs_def prunable_def abandoned_jobs_def is_abandoned_def
    claim_candidate_def claimable_def blocks_def update_jobs_def demo_retaken_def demo_running_def demo_waiting_def
    demo_scan_def demo_job_def new_scan_def new_job_def claimed_def create_library_def empty_queue_def secs_def
    lease_over_def queue_eval)

theorem stale_worker_is_fenced_witness:
  "complete_background_job demo_fence 70000001 70000001 demo_retaken = Inl FenceLost
   \<and> retry_or_fail_background_job demo_fence [] 2 70000001 70000001 demo_retaken = Inl FenceLost
   \<and> lock_library_scan_background_job_fence demo_fence 70000001 1 None ActiveMode demo_retaken = Inl FenceLost
   \<and> renew_background_job_lease demo_fence 60 70000001 70000001 demo_retaken = Inr (demo_retaken, False)"
proof (rule stale_worker_is_fenced [where j = "claimed (lit ''w1'') 60 5 demo_job" and ?st1.0 = demo_running
      and ?st2.0 = demo_retaken])
  show "job_run empty_queue demo_running" using rtranclp_trans [OF demo_run] .
  show "job_run demo_running demo_retaken" using claim [OF demo_reclaimed] by (rule r_into_rtranclp)
  show "\<not> fence_held demo_fence demo_retaken"
    by (simp add: fence_held_def demo_retaken_def demo_fence_def owned_by_def claimed_def demo_job_def new_job_def)
qed (simp_all add: demo_running_def demo_fence_def owned_by_def claimed_def demo_job_def new_job_def empty_queue_def)

end
