(* ===== verification/Job_Progress.thy ===== *)
theory Job_Progress
  imports Job_Ownership
begin

text \<open>
  What the queue promises its workers: a transaction of a worker fails for no other reason than a
  lost fence, and when no worker is alive a job that is due can be claimed.
\<close>

subsection \<open>Rows that only leave the indexes\<close>

definition narrows :: "job_row \<Rightarrow> job_row \<Rightarrow> bool" where
  "narrows j j' \<longleftrightarrow> jb_type j' = jb_type j \<and> jb_scope_type j' = jb_scope_type j \<and> jb_scope j' = jb_scope j
     \<and> jb_scan j' = jb_scan j \<and> (waiting_or_running (jb_status j') \<longrightarrow> waiting_or_running (jb_status j))
     \<and> (\<not> job_ended (jb_status j') \<longrightarrow> \<not> job_ended (jb_status j) \<and> jb_payload j' = jb_payload j)"

lemma moved_narrows: "row_moves j j' \<Longrightarrow> jb_scan j' = jb_scan j \<Longrightarrow> narrows j j'"
  using moved_waiting [of j j'] by (auto simp: narrows_def row_moves_def same_job_def)

lemma distinct_filter_map:
  assumes "distinct (map k (List.filter P xs))" and "\<And>x. x \<in> set xs \<Longrightarrow> P (u x) \<Longrightarrow> P x \<and> k (u x) = k x"
  shows "distinct (map k (List.filter P (map u xs)))"
  using assms by (induction xs) (force split: if_splits)+

lemma length_filter_map:
  assumes "\<And>x. x \<in> set xs \<Longrightarrow> P (u x) \<Longrightarrow> P x"
  shows "length (List.filter P (map u xs)) \<le> length (List.filter P xs)"
  using assms by (induction xs) (auto intro: le_SucI)

lemma narrowed_constraints:
  assumes ok: "constraints_ok st" and u: "\<And>j. j \<in> set (js_jobs st) \<Longrightarrow> narrows j (u j) \<and> job_row_ok (u j)"
  shows "constraints_ok (st\<lparr>js_jobs := map u (js_jobs st)\<rparr>)"
proof -
  note keys = ok [unfolded constraints_ok_def unique_keys_def]
  have same: "jb_type (u j) = jb_type j" "jb_scope_type (u j) = jb_scope_type j" "jb_scope (u j) = jb_scope j"
    "jb_scan (u j) = jb_scan j" "waiting_or_running (jb_status (u j)) \<Longrightarrow> waiting_or_running (jb_status j)"
    "\<not> job_ended (jb_status (u j)) \<Longrightarrow> \<not> job_ended (jb_status j) \<and> jb_payload (u j) = jb_payload j"
    if "j \<in> set (js_jobs st)" for j using u [OF that] by (auto simp: narrows_def)
  have "distinct (map jb_scan (List.filter (\<lambda>j. jb_scan j \<noteq> None) (map u (js_jobs st))))"
    by (rule distinct_filter_map) (use keys same in auto)
  moreover have "distinct (map (\<lambda>j. (jb_scope_type j, jb_scope j))
      (List.filter (\<lambda>j. jb_type j = CacheCleanup \<and> waiting_or_running (jb_status j)) (map u (js_jobs st))))"
    by (rule distinct_filter_map) (use keys same in auto)
  moreover have "length (List.filter (\<lambda>j. jb_type j = TmdbRevalidate \<and> waiting_or_running (jb_status j))
      (map u (js_jobs st))) \<le> 1"
    using keys same by (intro order_trans [OF length_filter_map]) auto
  moreover have "distinct (map (\<lambda>j. (jb_scope_type j, jb_scope j))
      (List.filter (\<lambda>j. jb_type j = ArtworkCleanup \<and> pl_maintenance (jb_payload j) = Some ''orphan_sweep''
         \<and> \<not> job_ended (jb_status j)) (map u (js_jobs st))))"
    by (rule distinct_filter_map) (use keys same in auto)
  moreover have "distinct (map (\<lambda>j. pl_season_id (jb_payload j))
      (List.filter (\<lambda>j. jb_type j = IntroDetect \<and> pl_season_id (jb_payload j) \<noteq> None
         \<and> \<not> job_ended (jb_status j)) (map u (js_jobs st))))"
    by (rule distinct_filter_map) (use keys same in auto)
  ultimately have "unique_keys (st\<lparr>js_jobs := map u (js_jobs st)\<rparr>)"
    using keys by (simp add: unique_keys_def)
  moreover have "foreign_keys (st\<lparr>js_jobs := map u (js_jobs st)\<rparr>)"
    using ok same by (auto simp: constraints_ok_def foreign_keys_def list_all_iff cong: option.case_cong)
  moreover have "list_all job_row_ok (map u (js_jobs st))" using u by (auto simp: list_all_iff)
  ultimately show ?thesis using ok by (simp add: constraints_ok_def)
qed

lemma update_jobs_succeeds:
  assumes "constraints_ok st" and "\<And>j. j \<in> set (js_jobs st) \<Longrightarrow> P j \<Longrightarrow> narrows j (u j) \<and> job_row_ok (u j)"
  shows "\<exists>st'. update_jobs P u st = Inr st'"
proof -
  have "constraints_ok (st\<lparr>js_jobs := map (\<lambda>j. if P j then u j else j) (js_jobs st)\<rparr>)"
    using assms rows_ok [OF assms(1)] by (intro narrowed_constraints) (auto simp: narrows_def)
  then show ?thesis by (simp add: update_jobs_def)
qed

lemma filter_filter_swap: "List.filter Q (List.filter P xs) = List.filter P (List.filter Q xs)"
  by (simp add: conj_commute)

lemma distinct_filter_filter:
  "distinct (map k (List.filter Q xs)) \<Longrightarrow> distinct (map k (List.filter Q (List.filter P xs)))"
  unfolding filter_filter_swap [of Q P] by (rule distinct_map_filter)

lemma length_filter_filter: "length (List.filter Q (List.filter P xs)) \<le> length (List.filter Q xs)"
  unfolding filter_filter_swap [of Q P] by (rule length_filter_le)

lemma filtered_constraints:
  assumes ok: "constraints_ok st"
  shows "constraints_ok (st\<lparr>js_jobs := List.filter P (js_jobs st)\<rparr>)"
proof -
  have keys: "unique_keys st" and foreign: "foreign_keys st" and rows: "list_all job_row_ok (js_jobs st)"
    using ok by (simp_all add: constraints_ok_def)
  have "length (List.filter (\<lambda>j. jb_type j = TmdbRevalidate \<and> waiting_or_running (jb_status j))
      (List.filter P (js_jobs st))) \<le> 1"
    using keys by (intro order_trans [OF length_filter_filter]) (simp add: unique_keys_def)
  then have "unique_keys (st\<lparr>js_jobs := List.filter P (js_jobs st)\<rparr>)"
    using keys unfolding unique_keys_def by (simp add: distinct_filter_filter del: filter_filter)
  moreover have "foreign_keys (st\<lparr>js_jobs := List.filter P (js_jobs st)\<rparr>)"
    using foreign by (simp add: foreign_keys_def list_all_iff cong: option.case_cong)
  moreover have "list_all job_row_ok (List.filter P (js_jobs st))" using rows by (simp add: list_all_iff)
  ultimately show ?thesis using ok by (simp add: constraints_ok_def)
qed

lemma prune_succeeds: "constraints_ok st \<Longrightarrow> put (prune_jobs now st) = Inr (prune_jobs now st)"
  by (simp add: prune_jobs_def Let_def filtered_constraints)

text \<open>The rows that the transactions write.\<close>

lemma written_rows_ok:
  "job_row_ok j \<Longrightarrow> job_ended s \<Longrightarrow> job_row_ok (released s now j)"
  "job_row_ok j \<Longrightarrow> job_ended s \<Longrightarrow> job_row_ok (terminalized s e now j)"
  "job_row_ok j \<Longrightarrow> job_row_ok (rescheduled_cleanup now j)"
  "job_row_ok j \<Longrightarrow> job_row_ok (completed now j)"
  "job_row_ok j \<Longrightarrow> jb_attempts j < jb_max_attempts j \<Longrightarrow> job_row_ok (claimed w lease now j)"
  by (cases s; auto simp: job_row_ok_def job_shape_def released_def terminalized_def rescheduled_cleanup_def
      completed_def claimed_def Let_def; fail)+

lemma retried_row_ok: "job_row_ok j \<Longrightarrow> job_row_ok (retried (retry_status f j) e d now j)"
  by (auto simp: job_row_ok_def job_shape_def retried_def retry_status_def Let_def)

lemma written_scans [simp]:
  "jb_scan (released s now j) = jb_scan j" "jb_scan (terminalized s e now j) = jb_scan j"
  "jb_scan (rescheduled_cleanup now j) = jb_scan j" "jb_scan (completed now j) = jb_scan j"
  "jb_scan (claimed w lease now j) = jb_scan j" "jb_scan (retried s e d now j) = jb_scan j"
  by (simp_all add: released_def terminalized_def rescheduled_cleanup_def completed_def claimed_def retried_def Let_def)

subsection \<open>The scans of the jobs\<close>

lemma scans_constraints:
  assumes ok: "constraints_ok st"
    and u: "\<And>r. r \<in> set (js_scans st) \<Longrightarrow> sc_id (u r) = sc_id r \<and> sc_library (u r) = sc_library r
      \<and> (scan_active (u r) \<longrightarrow> scan_active r) \<and> scan_row_ok (u r)"
  shows "constraints_ok (st\<lparr>js_scans := map u (js_scans st)\<rparr>)"
proof -
  have "distinct (map sc_library (List.filter scan_active (map u (js_scans st))))"
    by (rule distinct_filter_map) (use ok u in \<open>auto simp: constraints_ok_def unique_keys_def\<close>)
  moreover have "map sc_id (map u (js_scans st)) = map sc_id (js_scans st)" using u by simp
  then have "set (map sc_id (map u (js_scans st))) = set (map sc_id (js_scans st))" by (rule arg_cong)
  ultimately show ?thesis
    using ok u unfolding constraints_ok_def unique_keys_def foreign_keys_def list_all_iff
    by (simp cong: option.case_cong)
qed

lemma update_active_scan_succeeds:
  assumes "constraints_ok st"
    and "\<And>r. r \<in> set (js_scans st) \<Longrightarrow> sc_id r = i \<Longrightarrow> scan_active r \<Longrightarrow>
      sc_id (u r) = sc_id r \<and> sc_library (u r) = sc_library r \<and> scan_row_ok (u r)"
  shows "\<exists>st' r. update_active_scan i u st = Inr (st', r) \<and> js_jobs st' = js_jobs st \<and> constraints_ok st'"
proof -
  have "constraints_ok (st\<lparr>js_scans := map (\<lambda>r. if sc_id r = i \<and> scan_active r then u r else r) (js_scans st)\<rparr>)"
    using assms by (intro scans_constraints) (auto simp: constraints_ok_def list_all_iff)
  then show ?thesis by (simp add: update_active_scan_def put_def)
qed

lemma finalize_related_scan_succeeds:
  assumes "constraints_ok st" and "status = ScanFailed \<or> status = ScanCancelled"
  shows "\<exists>st' r. finalize_related_scan rel status err now st = Inr (st', r) \<and> js_jobs st' = js_jobs st \<and> constraints_ok st'"
proof (cases "\<exists>i r. rel = Some i \<and> get_scan_job i st = Some r")
  case True
  then obtain i r where ir: "rel = Some i" "get_scan_job i st = Some r" by blast
  then have r: "r \<in> set (js_scans st)" "sc_id r = i" by (auto simp: get_scan_job_def find_Some_iff)
  then show ?thesis
    unfolding finalize_related_scan_def ir finalize_scan_job_tx_def option.case
    using assms(1,2) r
    by (intro update_active_scan_succeeds) (auto simp: constraints_ok_def list_all_iff scan_row_ok_def scan_shape_def
      scan_active_def)
next
  case False
  then show ?thesis using assms(1) by (auto simp: finalize_related_scan_def split: option.splits)
qed

subsection \<open>Transactions that cannot fail\<close>

lemma settle_abandoned_succeeds:
  assumes ok: "constraints_ok st" and ids: "ids_ok st" and j: "j \<in> set (js_jobs st)"
  shows "\<exists>st' out. settle_abandoned now j st = Inr (st', out)"
proof -
  have jok: "job_row_ok j" by (rule rows_ok [OF ok j])
  have is_j: "x = j" if "x \<in> set (js_jobs st)" "jb_id x = jb_id j" for x
    using same_id [OF ids that(1) j that(2)] .
  show ?thesis
  proof (cases "jb_type j = ArtworkCleanup \<and> jb_status j = JobRunning \<and> jb_max_attempts j \<le> jb_attempts j")
    case True
    have "narrows j (rescheduled_cleanup now j)"
      using True jok by (intro moved_narrows rescheduled_moves) (simp_all add: job_row_ok_def)
    then have "\<exists>st'. update_jobs (\<lambda>x. jb_id x = jb_id j) (rescheduled_cleanup now) st = Inr st'"
      using is_j written_rows_ok(3) [OF jok] by (intro update_jobs_succeeds [OF ok]) blast
    then show ?thesis using True by (auto simp: settle_abandoned_def)
  next
    case False
    show ?thesis
    proof (cases "abandoned_terminal_transition j")
      case None
      then show ?thesis by (simp add: settle_abandoned_def if_not_P [OF False])
    next
      case (Some t)
      obtain status s e where t: "t = (status, s, e)" by (cases t) auto
      then have ended: "job_ended status" and s: "s = ScanFailed \<or> s = ScanCancelled"
        using Some transition_ended by (auto simp: abandoned_terminal_transition_def split: job_status.splits if_splits)
      obtain st1 r where f: "finalize_related_scan (jb_scan j) s (Some e) now st = Inr (st1, r)"
          and jobs: "js_jobs st1 = js_jobs st" and ok1: "constraints_ok st1"
        using finalize_related_scan_succeeds [OF ok s] by blast
      let ?u = "terminalized status (persisted_background_job_error (jb_type j) status e) now"
      have "narrows j (?u j)" using ended by (intro moved_narrows terminalized_moves) simp_all
      then have "\<exists>st'. update_jobs (\<lambda>x. jb_id x = jb_id j) ?u st1 = Inr st'"
        using is_j written_rows_ok(2) [OF jok ended] by (intro update_jobs_succeeds [OF ok1]) (auto simp: jobs)
      then show ?thesis by (auto simp: settle_abandoned_def if_not_P [OF False] Some f t Let_def)
    qed
  qed
qed

lemma settle_all_succeeds:
  "ids_ok st \<Longrightarrow> constraints_ok st \<Longrightarrow> set js \<subseteq> set (js_jobs st) \<Longrightarrow> distinct (map jb_id js)
     \<Longrightarrow> \<exists>st' outs. settle_all now js st = Inr (st', outs)"
proof (induction now js st rule: settle_all.induct)
  case (2 now j js st)
  have j: "j \<in> set (js_jobs st)" using "2.prems"(3) by simp
  obtain st1 out where s: "settle_abandoned now j st = Inr (st1, out)"
    using settle_abandoned_succeeds [OF "2.prems"(2,1) j] by blast
  note q = settle_abandoned_quiet [OF s "2.prems"(1,2) j]
  have "ids_ok st1 \<and> constraints_ok st1" using q(1) "2.prems"(1,2) by (simp add: quiet_def)
  moreover have "set js \<subseteq> set (js_jobs st1)" using "2.prems"(3,4) by (auto intro!: q(2)) (metis imageI)
  ultimately obtain st2 outs where "settle_all now js st1 = Inr (st2, outs)" using "2.IH" "2.prems"(4) by fastforce
  then show ?case by (simp add: s)
qed simp

lemma claim_succeeds:
  assumes inv: "queue_inv st"
  shows "\<exists>r. claim_background_job w lease skip now st = Inr r"
proof -
  have p: "put (prune_jobs now st) = Inr (prune_jobs now st)" by (rule prune_succeeds [OF queue_invD(1) [OF inv]])
  then have inv1: "queue_inv (prune_jobs now st)" using quiet_keeps [OF prune_quiet inv] by blast
  note ids1 = queue_invD(2) [OF inv1] and ok1 = queue_invD(1) [OF inv1]
  have sub: "set (abandoned_jobs skip now (prune_jobs now st)) \<subseteq> set (js_jobs (prune_jobs now st))"
    using abandoned_from by blast
  obtain st2 outs where s: "settle_all now (abandoned_jobs skip now (prune_jobs now st)) (prune_jobs now st) = Inr (st2, outs)"
    using settle_all_succeeds [OF ids1 ok1 sub abandoned_distinct [OF ids1]] by blast
  have inv2: "queue_inv st2"
    using quiet_keeps [OF settle_all_quiet [OF s ids1 ok1 sub abandoned_distinct [OF ids1]] inv1] .
  show ?thesis
  proof (cases "claim_candidate skip now (js_jobs st2)")
    case None
    then show ?thesis by (simp add: claim_background_job_def p s)
  next
    case (Some j)
    have j: "j \<in> set (js_jobs st2)" and c: "claimable now (js_jobs st2) j" using claim_candidate_Some [OF Some] by blast+
    have "narrows j (claimed w lease now j)"
      using c by (auto simp: narrows_def claimed_def claimable_def waiting_or_running_def)
    moreover have "job_row_ok (claimed w lease now j)"
      using written_rows_ok(5) rows_ok [OF queue_invD(1) [OF inv2] j] c by (simp add: claimable_def)
    ultimately have "\<exists>st'. update_jobs (\<lambda>x. jb_id x = jb_id j) (claimed w lease now) st2 = Inr st'"
      using same_id [OF queue_invD(2) [OF inv2] _ j]
      by (intro update_jobs_succeeds [OF queue_invD(1) [OF inv2]]) blast
    then show ?thesis by (auto simp: claim_background_job_def p s Some)
  qed
qed

lemma renew_succeeds:
  assumes "constraints_ok st"
  shows "\<exists>r. renew_background_job_lease f lease now clk st = Inr r"
proof -
  have "\<exists>st'. update_jobs (\<lambda>j. holds_fence f clk j \<and> jb_status j = JobRunning)
      (\<lambda>j. j\<lparr>jb_lease := Some (now + secs lease), jb_updated_at := now\<rparr>) st = Inr st'"
    using rows_ok [OF assms]
    by (intro update_jobs_succeeds [OF assms]) (auto simp: narrows_def job_row_ok_def job_shape_def)
  then show ?thesis by (auto simp: renew_background_job_lease_def)
qed

lemma complete_succeeds:
  assumes "constraints_ok st" and "list_ex (holds_fence f clk) (js_jobs st)"
  shows "\<exists>r. complete_background_job f now clk st = Inr r"
proof -
  obtain j where "List.find (holds_fence f clk) (js_jobs st) = Some j"
    using assms(2) by (cases "List.find (holds_fence f clk) (js_jobs st)") (auto simp: find_None_iff list_ex_iff)
  moreover have "narrows x (completed now x) \<and> job_row_ok (completed now x)" if "x \<in> set (js_jobs st)" for x
    using moved_narrows [OF completed_moves] written_rows_ok(4) [OF rows_ok [OF assms(1) that]] by simp
  then have "\<exists>st'. update_jobs (holds_fence f clk) (completed now) st = Inr st'"
    using update_jobs_succeeds [OF assms(1)] by blast
  ultimately show ?thesis by (auto simp: complete_background_job_def)
qed

lemma retry_scan_succeeds:
  assumes "constraints_ok st"
  shows "\<exists>st' r. retry_scan j (retry_status f j) msg now st = Inr (st', r) \<and> js_jobs st' = js_jobs st \<and> constraints_ok st'"
proof -
  have "\<exists>st' r. mark_scan_job_retry_pending_tx i msg st = Inr (st', r) \<and> js_jobs st' = js_jobs st \<and> constraints_ok st'" for i
    unfolding mark_scan_job_retry_pending_tx_def using assms
    by (intro update_active_scan_succeeds)
      (auto simp: constraints_ok_def list_all_iff scan_row_ok_def scan_shape_def scan_active_def)
  moreover have "retry_status f j = JobPending \<or> retry_status f j = JobFailed \<or> retry_status f j = JobCancelled"
    by (simp add: retry_status_def)
  ultimately show ?thesis
    using assms finalize_related_scan_succeeds [OF assms]
    by (cases "jb_scan j") (auto simp: retry_scan_def)
qed

lemma retry_succeeds:
  assumes ok: "constraints_ok st" and ids: "ids_ok st" and held: "list_ex (holds_fence f clk) (js_jobs st)"
  shows "\<exists>r. retry_or_fail_background_job f msg delay now clk st = Inr r"
proof -
  obtain j where j: "j \<in> set (js_jobs st)" "holds_fence f clk j" using held by (auto simp: list_ex_iff)
  then have id: "jb_id j = fc_job f" by (simp add: holds_fence_def owned_by_def)
  obtain k where k: "List.find (\<lambda>j. jb_id j = fc_job f) (js_jobs st) = Some k"
    using j(1) id by (cases "List.find (\<lambda>j. jb_id j = fc_job f) (js_jobs st)") (auto simp: find_None_iff)
  have is_k: "x = k" if "x \<in> set (js_jobs st)" "jb_id x = fc_job f" for x
  proof (rule same_id [OF ids that(1)])
    show "k \<in> set (js_jobs st)" "jb_id x = jb_id k"
      using k [unfolded find_Some_iff] that(2) nth_mem by (metis)+
  qed
  obtain st1 r where s: "retry_scan k (retry_status f k) msg now st = Inr (st1, r)"
      and jobs: "js_jobs st1 = js_jobs st" and ok1: "constraints_ok st1"
    using retry_scan_succeeds [OF ok] by blast
  let ?u = "retried (retry_status f k) (persisted_background_job_error (jb_type k) (retry_status f k) msg) delay now"
  have "narrows x (?u x) \<and> job_row_ok (?u x)"
    if "x \<in> set (js_jobs st1)" "owned_by f x \<and> job_active (jb_status x)" for x
  proof -
    have x: "x \<in> set (js_jobs st)" "x = k" using that is_k by (auto simp: jobs owned_by_def)
    then have "row_moves x (?u x)" using that(2) rows_ok [OF ok x(1)] by (auto intro: retry_moves)
    then show ?thesis using x retried_row_ok rows_ok [OF ok x(1)] by (auto intro: moved_narrows)
  qed
  then have "\<exists>st2. update_jobs (\<lambda>x. owned_by f x \<and> job_active (jb_status x)) ?u st1 = Inr st2"
    by (rule update_jobs_succeeds [OF ok1])
  moreover have "lock_background_job_fence f clk st = Inr ()" using held by (simp add: lock_background_job_fence_def)
  ultimately show ?thesis using k s by (auto simp: retry_or_fail_background_job_def Let_def)
qed


text \<open>
  Whatever the queue has been through, a worker's transaction never breaks a constraint of the
  tables: looking for a job always succeeds, so does the renewal of a lease, and completing or
  retrying a job succeeds when the worker holds its fence, and fails with a lost fence otherwise.
\<close>

theorem worker_errors:
  assumes "job_run empty_queue st"
  shows "(\<exists>r. claim_background_job w lease skip now st = Inr r)
    \<and> (\<exists>r. renew_background_job_lease f lease now clk st = Inr r)
    \<and> (if list_ex (holds_fence f clk) (js_jobs st)
       then (\<exists>r. complete_background_job f now clk st = Inr r)
          \<and> (\<exists>r. retry_or_fail_background_job f msg delay now clk st = Inr r)
       else complete_background_job f now clk st = Inl FenceLost
          \<and> retry_or_fail_background_job f msg delay now clk st = Inl FenceLost)"
proof -
  have inv: "queue_inv st" using job_run_keeps [OF assms empty_queue_inv] .
  note ok = queue_invD(1) [OF inv] and ids = queue_invD(2) [OF inv]
  have "complete_background_job f now clk st = Inl FenceLost \<and> retry_or_fail_background_job f msg delay now clk st = Inl FenceLost"
    if "\<not> list_ex (holds_fence f clk) (js_jobs st)"
  proof -
    have "List.find (holds_fence f clk) (js_jobs st) = None" using that by (simp add: find_None_iff list_ex_iff)
    then show ?thesis
      using that by (simp add: complete_background_job_def retry_or_fail_background_job_def lock_background_job_fence_def)
  qed
  then show ?thesis
    using claim_succeeds [OF inv] renew_succeeds [OF ok] complete_succeeds [OF ok] retry_succeeds [OF ok ids] by simp
qed

theorem worker_errors_witness:
  "(\<exists>r. claim_background_job (lit ''w2'') 60 (\<lambda>_. False) 7 demo_running = Inr r)
    \<and> (\<exists>r. renew_background_job_lease demo_fence 60 7 7 demo_running = Inr r)
    \<and> (if list_ex (holds_fence demo_fence 7) (js_jobs demo_running)
       then (\<exists>r. complete_background_job demo_fence 7 7 demo_running = Inr r)
          \<and> (\<exists>r. retry_or_fail_background_job demo_fence [] 2 7 7 demo_running = Inr r)
       else complete_background_job demo_fence 7 7 demo_running = Inl FenceLost
          \<and> retry_or_fail_background_job demo_fence [] 2 7 7 demo_running = Inl FenceLost)"
  by (rule worker_errors [OF rtranclp_trans [OF demo_run]])

subsection \<open>The queue is never stuck\<close>

lemma unblocked:
  assumes inv: "queue_inv st" and j: "j \<in> set (js_jobs st)" "\<not> job_ended (jb_status j)" "jb_run_after j \<le> now"
    and alone: "\<And>b. b \<in> set (js_jobs st) \<Longrightarrow> \<not> blocks j b"
    and lease: "job_active (jb_status j) \<Longrightarrow> lease_over now j" and fresh: "\<not> is_abandoned now j"
  shows "claimable now (js_jobs st) j"
proof -
  have "jb_status j = JobPending \<or> jb_status j = JobRunning \<and> lease_over now j"
    using j(2) lease fresh by (cases "jb_status j") (auto simp: is_abandoned_def)
  moreover have "jb_attempts j < jb_max_attempts j"
    using calculation queue_invD(6) [OF inv j(1)] fresh by (auto simp: job_typed_def is_abandoned_def)
  ultimately show ?thesis using j(3) alone by (auto simp: claimable_def list_ex_iff)
qed

text \<open>A job that runs is blocked by no other one.\<close>

lemma blocks_cases:
  assumes "blocks j b" and "jb_type j \<noteq> TmdbRevalidate"
  obtains "job_active (jb_status b)" "conflict j b \<or> conflict b j"
  | "jb_type j = LibraryScan" "jb_type b = TmdbRevalidate" "jb_status b = JobPending" "is_retention_expired b"
      "pl_library_id (jb_payload b) = Some (jb_scope j)"
  | "jb_type b = LibraryScan" "jb_status b = JobPending" "jb_type j = IntroDetect" "jb_scope j = jb_scope b"
proof (cases "jb_type j")
  case LibraryScan
  then show thesis using assms(1) that(1,2) by (auto simp: blocks_def conflict_def)
next
  case CacheCleanup
  then show thesis using assms(1) that(1) by (auto simp: blocks_def scan_blocks_def conflict_def)
next
  case ArtworkCleanup
  then show thesis using assms(1) that(1) by (auto simp: blocks_def scan_blocks_def conflict_def)
next
  case IntroDetect
  then show thesis using assms(1) that(1,3) by (auto simp: blocks_def scan_blocks_def conflict_def)
qed (use assms(2) in simp)

lemma running_unblocked:
  assumes inv: "queue_inv st" and j: "j \<in> set (js_jobs st)" "jb_status j = JobRunning" "jb_type j \<noteq> TmdbRevalidate"
    and b: "b \<in> set (js_jobs st)"
  shows "\<not> blocks j b"
proof
  assume "blocks j b"
  then show False
    using j(3)
  proof (cases rule: blocks_cases)
    case 1
    then show ?thesis
      using queue_invD(4) [OF inv, unfolded exclusive_def, rule_format, OF j(1) b]
        queue_invD(4) [OF inv, unfolded exclusive_def, rule_format, OF b j(1)] j(2) by simp
  next
    case 2
    then show ?thesis
      using queue_invD(5) [OF inv, unfolded no_standoff_def, rule_format, OF j(1) b] j(2) by simp
  next
    case 3
    then show ?thesis
      using queue_invD(5) [OF inv, unfolded no_standoff_def, rule_format, OF b j(1)] j(2) by simp
  qed
qed

text \<open>
  With no active job, a revalidation of an expired item waits for nothing, a scan waits for such
  a revalidation only, and every other job waits for a scan only.
\<close>

lemma waiting_unblocked:
  assumes "\<forall>b\<in>set jobs. \<not> job_active (jb_status b)"
  shows "jb_type j = TmdbRevalidate \<Longrightarrow> is_retention_expired j \<Longrightarrow> b \<in> set jobs \<Longrightarrow> \<not> blocks j b"
    and "jb_type j = LibraryScan \<Longrightarrow> b \<in> set jobs \<Longrightarrow> blocks j b
      \<Longrightarrow> jb_type b = TmdbRevalidate \<and> is_retention_expired b \<and> \<not> job_ended (jb_status b)"
    and "jb_type j \<noteq> LibraryScan \<Longrightarrow> b \<in> set jobs \<Longrightarrow> blocks j b \<Longrightarrow> jb_type b = LibraryScan \<and> \<not> job_ended (jb_status b)"
  using bspec [OF assms, of b]
  by (cases "jb_status b"; cases "jb_type j"; auto simp: blocks_def scan_blocks_def split: option.splits; fail)+

lemma some_unblocked:
  assumes inv: "queue_inv st" and k: "k \<in> set (js_jobs st)" "\<not> job_ended (jb_status k)"
    and lease: "\<And>j. j \<in> set (js_jobs st) \<Longrightarrow> job_active (jb_status j) \<Longrightarrow> lease_over now j"
    and fresh: "\<And>j. j \<in> set (js_jobs st) \<Longrightarrow> \<not> is_abandoned now j"
  shows "\<exists>j\<in>set (js_jobs st). \<not> job_ended (jb_status j) \<and> (\<forall>b\<in>set (js_jobs st). \<not> blocks j b)"
proof (cases "\<exists>j\<in>set (js_jobs st). job_active (jb_status j)")
  case True
  then obtain j where j: "j \<in> set (js_jobs st)" "job_active (jb_status j)" by blast
  have running: "jb_status j = JobRunning"
    using j(2) lease [OF j] fresh [OF j(1)] by (cases "jb_status j") (auto simp: is_abandoned_def)
  have "jb_type j \<noteq> TmdbRevalidate"
  proof
    assume "jb_type j = TmdbRevalidate"
    then have "jb_max_attempts j \<le> jb_attempts j" using queue_invD(6) [OF inv j(1)] j(2) by (simp add: job_typed_def)
    then show False using running lease [OF j] fresh [OF j(1)] by (simp add: is_abandoned_def)
  qed
  then show ?thesis using running_unblocked [OF inv j(1) running] running j(1) by (intro bexI [of _ j]) auto
next
  case False
  then have "\<forall>b\<in>set (js_jobs st). \<not> job_active (jb_status b)" by blast
  note w = waiting_unblocked [OF this]
  have scan: ?thesis if s: "s \<in> set (js_jobs st)" "\<not> job_ended (jb_status s)" "jb_type s = LibraryScan" for s
  proof (cases "\<exists>b\<in>set (js_jobs st). blocks s b")
    case True
    then obtain b where b: "b \<in> set (js_jobs st)" "blocks s b" by blast
    then show ?thesis using w(2) [OF s(3) b] w(1) by blast
  qed (use s in blast)
  show ?thesis
  proof (cases "\<exists>b\<in>set (js_jobs st). blocks k b")
    case True
    then obtain b where b: "b \<in> set (js_jobs st)" "blocks k b" by blast
    then show ?thesis
    proof (cases "jb_type k = LibraryScan")
      case False
      then show ?thesis using scan [of b] w(3) [OF False b] b(1) by blast
    qed (use scan k in blast)
  qed (use k in blast)
qed

lemma pruned_from: "j \<in> set (js_jobs (prune_jobs now st)) \<Longrightarrow> j \<in> set (js_jobs st)"
  by (simp add: prune_jobs_def Let_def)

lemma pruned_jobs:
  obtains old where "\<And>x. x \<in> set old \<Longrightarrow> x \<in> set (js_jobs st) \<and> prunable now x"
    and "js_jobs (prune_jobs now st) = List.filter (\<lambda>j. jb_id j \<notin> set (map jb_id old)) (js_jobs st)"
proof -
  define old where "old = take 64 (sort_key (\<lambda>j. case jb_finished_at j of None \<Rightarrow> jb_updated_at j | Some t \<Rightarrow> t)
    (sort_key jb_id (List.filter (prunable now) (js_jobs st))))"
  have "x \<in> set (js_jobs st) \<and> prunable now x" if "x \<in> set old" for x
    using that unfolding old_def by (auto dest: in_set_takeD)
  moreover have "js_jobs (prune_jobs now st) = List.filter (\<lambda>j. jb_id j \<notin> set (map jb_id old)) (js_jobs st)"
    unfolding prune_jobs_def Let_def old_def by simp
  ultimately show thesis using that by blast
qed

lemma not_pruned:
  assumes "ids_ok st" and "j \<in> set (js_jobs st)" "\<not> job_ended (jb_status j)"
  shows "j \<in> set (js_jobs (prune_jobs now st))"
proof (rule pruned_jobs [of st now])
  fix old assume old: "\<And>x. x \<in> set old \<Longrightarrow> x \<in> set (js_jobs st) \<and> prunable now x"
    and jobs: "js_jobs (prune_jobs now st) = List.filter (\<lambda>j. jb_id j \<notin> set (map jb_id old)) (js_jobs st)"
  have "jb_id x \<noteq> jb_id j" if "x \<in> set old" for x
    using old [OF that] same_id [OF assms(1) _ assms(2)] assms(3) by (auto simp: prunable_def)
  then have "jb_id j \<notin> set (map jb_id old)" by (metis in_set_conv_nth length_map nth_map nth_mem)
  then show ?thesis using assms(2) by (simp add: jobs)
qed

text \<open>
  C7. The queue is never stuck: whatever it has been through, when some job is not ended, every
  such job is due, no lease is alive, no abandoned job is left to settle and no row is locked by
  another transaction, a worker that looks for a job gets one. No order of scans, revalidations, cleanups and
  analyses makes them wait for each other. (A worker that finds an abandoned job settles it and returns
  without a job.)
\<close>

theorem queue_never_stuck:
  assumes "job_run empty_queue st" and "k \<in> set (js_jobs st)" "\<not> job_ended (jb_status k)"
    and "\<forall>j\<in>set (js_jobs st). \<not> job_ended (jb_status j) \<longrightarrow> jb_run_after j \<le> now"
    and "\<forall>j\<in>set (js_jobs st). job_active (jb_status j) \<longrightarrow> lease_over now j"
    and "\<forall>j\<in>set (js_jobs st). \<not> is_abandoned now j"
  shows "\<exists>st' j. claim_background_job w lease (\<lambda>_. False) now st = Inr (st', [], Some j)
     \<and> j \<in> set (js_jobs st') \<and> jb_status j = JobRunning \<and> jb_locked_by j = Some w"
proof -
  let ?st1 = "prune_jobs now st"
  have inv: "queue_inv st" using job_run_keeps [OF assms(1) empty_queue_inv] .
  have p: "put ?st1 = Inr ?st1" by (rule prune_succeeds [OF queue_invD(1) [OF inv]])
  have inv1: "queue_inv ?st1" using quiet_keeps [OF prune_quiet [OF p] inv] .
  have fresh: "\<not> is_abandoned now j" if "j \<in> set (js_jobs ?st1)" for j
    using assms(6) pruned_from [OF that] by blast
  then have none: "abandoned_jobs (\<lambda>_. False) now ?st1 = []"
    using abandoned_from [of "\<lambda>_. False" now ?st1] by (cases "abandoned_jobs (\<lambda>_. False) now ?st1") auto
  have k: "k \<in> set (js_jobs ?st1)" using not_pruned [OF queue_invD(2) [OF inv] assms(2,3)] .
  have lease: "lease_over now j" if "j \<in> set (js_jobs ?st1)" "job_active (jb_status j)" for j
    using assms(5) pruned_from [OF that(1)] that(2) by blast
  obtain j where j: "j \<in> set (js_jobs ?st1)" "\<not> job_ended (jb_status j)" "\<forall>b\<in>set (js_jobs ?st1). \<not> blocks j b"
    using some_unblocked [OF inv1 k assms(3) lease fresh] by blast
  have "claimable now (js_jobs ?st1) j"
    using j assms(4) pruned_from [OF j(1)] by (intro unblocked [OF inv1 j(1,2)] lease [OF j(1)] fresh [OF j(1)]) auto
  then have "claim_candidate (\<lambda>_. False) now (js_jobs ?st1) \<noteq> None" using j(1) by (auto simp: claim_candidate_None)
  then obtain c where c: "claim_candidate (\<lambda>_. False) now (js_jobs ?st1) = Some c" by blast
  obtain r where "claim_background_job w lease (\<lambda>_. False) now st = Inr r" using claim_succeeds [OF inv] by blast
  then obtain st' where st': "claim_background_job w lease (\<lambda>_. False) now st = Inr (st', [], Some (claimed w lease now c))"
      and u: "update_jobs (\<lambda>x. jb_id x = jb_id c) (claimed w lease now) ?st1 = Inr st'"
    by (auto simp: claim_background_job_def p none c result_simps)
  have "claimed w lease now c \<in> set (js_jobs st')"
    using u claim_candidate_Some(1) [OF c] by (auto simp: update_jobs_Inr)
  moreover have "jb_status (claimed w lease now c) = JobRunning" "jb_locked_by (claimed w lease now c) = Some w"
    by (simp_all add: claimed_def)
  ultimately show ?thesis using st' by blast
qed

lemma demo_job_waits: "js_jobs demo_waiting = [demo_job]" "jb_status demo_job = JobPending" "jb_run_after demo_job = 0"
  by (simp_all add: demo_waiting_def demo_job_def new_job_def)

theorem queue_never_stuck_witness:
  "\<exists>st' j. claim_background_job (lit ''w1'') 60 (\<lambda>_. False) 5 demo_waiting = Inr (st', [], Some j)
     \<and> j \<in> set (js_jobs st') \<and> jb_status j = JobRunning \<and> jb_locked_by j = Some (lit ''w1'')"
  by (rule queue_never_stuck [OF demo_run(1), of demo_job]) (simp_all add: demo_job_waits is_abandoned_def)

end
