(* ===== verification/Realtime_Hub.thy ===== *)
theory Realtime_Hub
  imports User_Sessions
begin

text \<open>
  Who is told what at once (\<open>apps/mova-server/src/realtime.rs\<close>, \<open>handlers/realtime.rs\<close>): the hub
  with its broadcast channels, the subscription of a user, and the stream of events that a client
  reads. A tokio broadcast channel hands each message to every receiver that is subscribed when it is
  sent; a receiver keeps the last 32 and counts what it skipped, which it reports first.
\<close>

subsection \<open>Messages\<close>

datatype realtime_visibility = PublicTo | AdminTo | LibraryTo int | UserTo int | SessionTo ustr

record 'd realtime_message =
  ms_event :: ustr
  ms_data :: 'd
  ms_visibility :: realtime_visibility

definition closes_stream :: "'d realtime_message \<Rightarrow> bool" where
  "closes_stream m = (ms_event m = lit ''resync.required'' \<or> ms_event m = lit ''session.invalidated'')"

definition is_visible_to :: "'d realtime_message \<Rightarrow> user_profile \<Rightarrow> ustr \<Rightarrow> bool" where
  "is_visible_to m user key =
     (case ms_visibility m of
        PublicTo \<Rightarrow> True
      | AdminTo \<Rightarrow> profile_is_admin user
      | LibraryTo l \<Rightarrow> can_access_library user l
      | UserTo u \<Rightarrow> user_id (profile_user user) = u
      | SessionTo k \<Rightarrow> k = key)"

subsection \<open>Channels\<close>

definition REALTIME_BATCH_BUFFER_SIZE :: nat where
  "REALTIME_BATCH_BUFFER_SIZE = 32"

record 'd receiver =
  rc_sender :: nat
  rc_queue :: "'d realtime_message list"
  rc_skipped :: nat

definition pushed :: "'d realtime_message \<Rightarrow> 'd receiver \<Rightarrow> 'd receiver" where
  "pushed m r =
     (if length (rc_queue r) < REALTIME_BATCH_BUFFER_SIZE then r\<lparr>rc_queue := rc_queue r @ [m]\<rparr>
      else r\<lparr>rc_queue := tl (rc_queue r) @ [m], rc_skipped := rc_skipped r + 1\<rparr>)"

text \<open>
  The hub. Senders are numbered; the public and the administrators' channel are there from the
  start, the others are made when they are first asked for.
\<close>

record 'd realtime_hub =
  hb_public :: nat
  hb_admin :: nat
  hb_libraries :: "int \<rightharpoonup> nat"
  hb_users :: "int \<rightharpoonup> nat"
  hb_sessions :: "ustr \<rightharpoonup> nat"
  hb_next_sender :: nat
  hb_receivers :: "nat \<rightharpoonup> 'd receiver"
  hb_next_receiver :: nat

definition new_hub :: "'d realtime_hub" where
  "new_hub = \<lparr>hb_public = 0, hb_admin = 1, hb_libraries = Map.empty, hb_users = Map.empty,
     hb_sessions = Map.empty, hb_next_sender = 2, hb_receivers = Map.empty, hb_next_receiver = 0\<rparr>"

definition send_to :: "nat \<Rightarrow> 'd realtime_message \<Rightarrow> 'd realtime_hub \<Rightarrow> 'd realtime_hub" where
  "send_to s m h = h\<lparr>hb_receivers := (\<lambda>i. map_option (\<lambda>r. if rc_sender r = s then pushed m r else r) (hb_receivers h i))\<rparr>"

text \<open>\<open>entry(\<dots>).or_insert_with(\<dots>)\<close> on the maps of senders.\<close>

definition library_sender :: "int \<Rightarrow> 'd realtime_hub \<Rightarrow> 'd realtime_hub \<times> nat" where
  "library_sender l h =
     (case hb_libraries h l of
        Some s \<Rightarrow> (h, s)
      | None \<Rightarrow> (h\<lparr>hb_libraries := (hb_libraries h)(l \<mapsto> hb_next_sender h), hb_next_sender := hb_next_sender h + 1\<rparr>,
                 hb_next_sender h))"

definition user_sender :: "int \<Rightarrow> 'd realtime_hub \<Rightarrow> 'd realtime_hub \<times> nat" where
  "user_sender u h =
     (case hb_users h u of
        Some s \<Rightarrow> (h, s)
      | None \<Rightarrow> (h\<lparr>hb_users := (hb_users h)(u \<mapsto> hb_next_sender h), hb_next_sender := hb_next_sender h + 1\<rparr>,
                 hb_next_sender h))"

definition session_sender :: "ustr \<Rightarrow> 'd realtime_hub \<Rightarrow> 'd realtime_hub \<times> nat" where
  "session_sender k h =
     (case hb_sessions h k of
        Some s \<Rightarrow> (h, s)
      | None \<Rightarrow> (h\<lparr>hb_sessions := (hb_sessions h)(k \<mapsto> hb_next_sender h), hb_next_sender := hb_next_sender h + 1\<rparr>,
                 hb_next_sender h))"

definition publish :: "'d realtime_message \<Rightarrow> 'd realtime_hub \<Rightarrow> 'd realtime_hub" where
  "publish m h =
     (case ms_visibility m of
        PublicTo \<Rightarrow> send_to (hb_public h) m h
      | AdminTo \<Rightarrow> send_to (hb_admin h) m h
      | LibraryTo l \<Rightarrow>
          (let (h', s) = library_sender l (send_to (hb_admin h) m h) in send_to s m h')
      | UserTo u \<Rightarrow> (let (h', s) = user_sender u h in send_to s m h')
      | SessionTo k \<Rightarrow> (case hb_sessions h k of None \<Rightarrow> h | Some s \<Rightarrow> send_to s m h))"

subsection \<open>Subscriptions\<close>

definition subscribe_to :: "nat \<Rightarrow> 'd realtime_hub \<Rightarrow> 'd realtime_hub \<times> nat" where
  "subscribe_to s h =
     (h\<lparr>hb_receivers := (hb_receivers h)(hb_next_receiver h \<mapsto> \<lparr>rc_sender = s, rc_queue = [], rc_skipped = 0\<rparr>),
        hb_next_receiver := hb_next_receiver h + 1\<rparr>, hb_next_receiver h)"

fun subscribe_libraries :: "int list \<Rightarrow> 'd realtime_hub \<Rightarrow> 'd realtime_hub \<times> nat list" where
  "subscribe_libraries [] h = (h, [])"
| "subscribe_libraries (l # ls) h =
     (let (h1, s) = library_sender l h; (h2, r) = subscribe_to s h1; (h3, rs) = subscribe_libraries ls h2
      in (h3, r # rs))"

text \<open>The channels of a user before that of the session.\<close>

definition subscribe_user :: "user_profile \<Rightarrow> 'd realtime_hub \<Rightarrow> 'd realtime_hub \<times> nat list" where
  "subscribe_user user h =
     (let (h1, r1) = subscribe_to (hb_public h) h;
          (h2, s) = user_sender (user_id (profile_user user)) h1;
          (h3, r2) = subscribe_to s h2;
          (h4, rs) =
            (if profile_is_admin user
             then (let (h', r) = subscribe_to (hb_admin h3) h3 in (h', [r]))
             else subscribe_libraries (library_ids user) h3)
      in (h4, r1 # r2 # rs))"

text \<open>
  The sender of a session is looked up under the lock, but the subscription to it comes after, so
  other threads may act in between.
\<close>

definition subscribe_around ::
  "('d realtime_hub \<Rightarrow> 'd realtime_hub) \<Rightarrow> user_profile \<Rightarrow> ustr \<Rightarrow> 'd realtime_hub \<Rightarrow> 'd realtime_hub \<times> nat list" where
  "subscribe_around between user key h =
     (let (h1, rs) = subscribe_user user h;
          (h2, s) = session_sender key h1;
          (h3, r) = subscribe_to s (between h2)
      in (h3, rs @ [r]))"

definition subscribe :: "user_profile \<Rightarrow> ustr \<Rightarrow> 'd realtime_hub \<Rightarrow> 'd realtime_hub \<times> nat list" where
  "subscribe = subscribe_around (\<lambda>h. h)"

definition receiver_count :: "nat \<Rightarrow> 'd realtime_hub \<Rightarrow> nat" where
  "receiver_count s h = length (List.filter (\<lambda>i. case hb_receivers h i of None \<Rightarrow> False | Some r \<Rightarrow> rc_sender r = s)
     [0..<hb_next_receiver h])"

definition unsubscribe_session :: "ustr \<Rightarrow> 'd realtime_hub \<Rightarrow> 'd realtime_hub" where
  "unsubscribe_session k h =
     (case hb_sessions h k of
        None \<Rightarrow> h
      | Some s \<Rightarrow> if receiver_count s h = 0 then h\<lparr>hb_sessions := (hb_sessions h)(k := None)\<rparr> else h)"

definition drop_receivers :: "nat list \<Rightarrow> 'd realtime_hub \<Rightarrow> 'd realtime_hub" where
  "drop_receivers rs h = h\<lparr>hb_receivers := (hb_receivers h) |` (- set rs)\<rparr>"

subsection \<open>The stream of a client\<close>

record event_stream =
  es_receivers :: "nat list"
  es_user :: user_profile
  es_session :: ustr
  es_close :: bool

datatype 'd sse_event = Forwarded "'d realtime_message" | CredentialExpired | ClientLagged

datatype 'd poll = Ended | Waiting | Next "'d sse_event"

text \<open>The first of the receivers, in the order in which they are polled, that has something.\<close>

definition ready :: "'d realtime_hub \<Rightarrow> nat \<Rightarrow> bool" where
  "ready h i = (case hb_receivers h i of None \<Rightarrow> False | Some r \<Rightarrow> rc_skipped r \<noteq> 0 \<or> rc_queue r \<noteq> [])"

text \<open>
  \<open>poll_next\<close>: the order of the receivers is chosen anew in each turn, \<open>order n\<close> when \<open>n\<close> messages
  are left. A message that the user may not see is skipped.
\<close>

definition waiting_messages :: "'d realtime_hub \<Rightarrow> nat list \<Rightarrow> nat" where
  "waiting_messages h rs = sum_list (map (\<lambda>i. case hb_receivers h i of None \<Rightarrow> 0 | Some r \<Rightarrow> length (rc_queue r)) rs)"

fun poll_receivers ::
  "nat \<Rightarrow> (nat \<Rightarrow> nat list) \<Rightarrow> event_stream \<Rightarrow> 'd realtime_hub \<Rightarrow> 'd poll \<times> event_stream \<times> 'd realtime_hub" where
  "poll_receivers n order st h =
     (case List.find (ready h) (order n) of
        None \<Rightarrow> (Waiting, st, h)
      | Some i \<Rightarrow>
          (case hb_receivers h i of
             None \<Rightarrow> (Waiting, st, h)
           | Some r \<Rightarrow>
               if rc_skipped r \<noteq> 0
               then (Next ClientLagged, st\<lparr>es_close := True\<rparr>, h\<lparr>hb_receivers := (hb_receivers h)(i \<mapsto> r\<lparr>rc_skipped := 0\<rparr>)\<rparr>)
               else (case rc_queue r of
                       [] \<Rightarrow> (Waiting, st, h)
                     | m # ms \<Rightarrow>
                         (let h' = h\<lparr>hb_receivers := (hb_receivers h)(i \<mapsto> r\<lparr>rc_queue := ms\<rparr>)\<rparr> in
                          if is_visible_to m (es_user st) (es_session st)
                          then (Next (Forwarded m), st\<lparr>es_close := closes_stream m\<rparr>, h')
                          else (case n of 0 \<Rightarrow> (Waiting, st, h') | Suc k \<Rightarrow> poll_receivers k order st h')))))"

declare poll_receivers.simps [simp del]

definition poll_next ::
  "bool \<Rightarrow> (nat \<Rightarrow> nat list) \<Rightarrow> event_stream \<Rightarrow> 'd realtime_hub \<Rightarrow> 'd poll \<times> event_stream \<times> 'd realtime_hub" where
  "poll_next expired order st h =
     (if es_close st then (Ended, st, h)
      else if expired then (Next CredentialExpired, st\<lparr>es_close := True\<rparr>, h)
      else poll_receivers (waiting_messages h (es_receivers st)) order st h)"

text \<open>\<open>Drop\<close> of the stream.\<close>

definition close_stream :: "event_stream \<Rightarrow> 'd realtime_hub \<Rightarrow> 'd realtime_hub" where
  "close_stream st h = unsubscribe_session (es_session st) (drop_receivers (es_receivers st) h)"

text \<open>
  Subscribing first and authenticating again: up to three times, until nothing has changed in
  between. The answers of \<open>authenticate_credential\<close> are the argument.
\<close>

definition same_authorization_snapshot :: "authenticated_session \<Rightarrow> authenticated_session \<Rightarrow> bool" where
  "same_authorization_snapshot a b =
     (user_id (profile_user (au_user a)) = user_id (profile_user (au_user b))
      \<and> role (profile_user (au_user a)) = role (profile_user (au_user b))
      \<and> is_enabled (profile_user (au_user a)) = is_enabled (profile_user (au_user b))
      \<and> library_ids (au_user a) = library_ids (au_user b))"

datatype subscribe_error = AuthError application_error | ChangedRepeatedly

fun authenticate_and_subscribe ::
  "nat \<Rightarrow> (application_error + authenticated_session) list \<Rightarrow> authenticated_session \<Rightarrow> 'd realtime_hub
    \<Rightarrow> 'd realtime_hub \<times> (subscribe_error + authenticated_session \<times> nat list)" where
  "authenticate_and_subscribe (Suc n) (answer # answers) auth h =
     (let key = realtime_session_key auth; (h1, rs) = subscribe (au_user auth) key h in
      case answer of
        Inr again \<Rightarrow>
          if realtime_session_key again = key \<and> same_authorization_snapshot auth again
          then (h1, Inr (again, rs))
          else authenticate_and_subscribe n answers again (unsubscribe_session key (drop_receivers rs h1))
      | Inl e \<Rightarrow> (unsubscribe_session key (drop_receivers rs h1), Inl (AuthError e)))"
| "authenticate_and_subscribe _ _ auth h = (h, Inl ChangedRepeatedly)"

definition open_stream :: "authenticated_session \<Rightarrow> nat list \<Rightarrow> event_stream" where
  "open_stream auth rs = \<lparr>es_receivers = rs, es_user = au_user auth, es_session = realtime_session_key auth, es_close = False\<rparr>"

end
