(* ===== verification/Realtime_Delivery.thy ===== *)
theory Realtime_Delivery
  imports Realtime_Hub
begin

text \<open>
  The steps of clients that connect, read and leave while messages are published, each step as small as
  the locks of the hub make it, and their invariant: a stream listens to every channel of its user. The
  one gap: a session's channel may be removed while a second stream of the session subscribes.
\<close>

subsection \<open>Channels and senders\<close>

datatype channel = ChPublic | ChAdmin | ChLibrary int | ChUser int | ChSession ustr

fun sender_of :: "'d realtime_hub \<Rightarrow> channel \<Rightarrow> nat option" where
  "sender_of h ChPublic = Some (hb_public h)"
| "sender_of h ChAdmin = Some (hb_admin h)"
| "sender_of h (ChLibrary l) = hb_libraries h l"
| "sender_of h (ChUser u) = hb_users h u"
| "sender_of h (ChSession k) = hb_sessions h k"

definition hub_ok :: "'d realtime_hub \<Rightarrow> bool" where
  "hub_ok h \<longleftrightarrow> (\<forall>c s. sender_of h c = Some s \<longrightarrow> s < hb_next_sender h)
     \<and> (\<forall>c c' s. sender_of h c = Some s \<longrightarrow> sender_of h c' = Some s \<longrightarrow> c = c')
     \<and> (\<forall>i r. hb_receivers h i = Some r \<longrightarrow> i < hb_next_receiver h \<and> rc_sender r < hb_next_sender h)"

lemma hub_okD:
  assumes "hub_ok h"
  shows "sender_of h c = Some s \<Longrightarrow> s < hb_next_sender h"
    and "sender_of h c = Some s \<Longrightarrow> sender_of h c' = Some s \<Longrightarrow> c = c'"
    and "hb_receivers h i = Some r \<Longrightarrow> i < hb_next_receiver h"
    and "hb_receivers h i = Some r \<Longrightarrow> rc_sender r < hb_next_sender h"
  using assms unfolding hub_ok_def by blast+

fun targets :: "realtime_visibility \<Rightarrow> channel set" where
  "targets PublicTo = {ChPublic}"
| "targets AdminTo = {ChAdmin}"
| "targets (LibraryTo l) = {ChAdmin, ChLibrary l}"
| "targets (UserTo u) = {ChUser u}"
| "targets (SessionTo k) = {ChSession k}"

definition channels_of :: "user_profile \<Rightarrow> ustr \<Rightarrow> channel list" where
  "channels_of user key = [ChPublic, ChUser (user_id (profile_user user))]
     @ (if profile_is_admin user then [ChAdmin] else map ChLibrary (library_ids user)) @ [ChSession key]"

lemma visible_by_channels: "is_visible_to m user key \<longleftrightarrow> (\<exists>c\<in>set (channels_of user key). c \<in> targets (ms_visibility m))"
  by (cases "ms_visibility m")
    (auto simp: is_visible_to_def channels_of_def can_access_library_def library_visibility_def)

text \<open>A message has one way to a user.\<close>

lemma one_way:
  assumes "distinct (library_ids user)"
  shows "length (List.filter (\<lambda>c. c \<in> targets (ms_visibility m)) (channels_of user key))
    = (if is_visible_to m user key then 1 else 0)"
proof -
  have one: "length (List.filter (\<lambda>l. l = x) xs) = (if x \<in> set xs then 1 else 0)" if "distinct xs" for x :: int and xs
    using that by (induction xs) auto
  have lib: "List.filter (\<lambda>c. c = ChLibrary l) (map ChLibrary xs) = map ChLibrary (List.filter (\<lambda>x. x = l) xs)" for l xs
    by (induction xs) auto
  have none: "List.filter (\<lambda>c. c = ChAdmin \<or> c = ChLibrary l) (map ChLibrary ids) = List.filter (\<lambda>c. c = ChLibrary l) (map ChLibrary ids)"
    "List.filter (\<lambda>c. c = ChPublic) (map ChLibrary ids) = []" "List.filter (\<lambda>c. c = ChUser u) (map ChLibrary ids) = []"
    "List.filter (\<lambda>c. c = ChSession k) (map ChLibrary ids) = []" "List.filter (\<lambda>c. c = ChAdmin) (map ChLibrary ids) = []"
    for l u k ids by (auto simp: filter_empty_conv intro: filter_cong)
  show ?thesis
    by (cases "ms_visibility m")
      (auto simp: is_visible_to_def channels_of_def can_access_library_def library_visibility_def lib none
        one [OF assms] filter_empty_conv del: filter_map)
qed

text \<open>A receiver that is subscribed to a channel, with messages of that channel only.\<close>

definition attached :: "'d realtime_hub \<Rightarrow> nat \<Rightarrow> channel \<Rightarrow> bool" where
  "attached h i c \<longleftrightarrow> (\<exists>r. hb_receivers h i = Some r \<and> sender_of h c = Some (rc_sender r)
     \<and> (\<forall>m\<in>set (rc_queue r). c \<in> targets (ms_visibility m)))"

definition hub_grows :: "'d realtime_hub \<Rightarrow> 'd realtime_hub \<Rightarrow> bool" where
  "hub_grows h h' \<longleftrightarrow> (\<forall>c s. sender_of h c = Some s \<longrightarrow> sender_of h' c = Some s)
     \<and> (\<forall>i r. hb_receivers h i = Some r \<longrightarrow> hb_receivers h' i = Some r) \<and> hb_next_receiver h \<le> hb_next_receiver h'"

lemma hub_grows_refl [simp]: "hub_grows h h"
  by (simp add: hub_grows_def)

lemma hub_grows_trans: "hub_grows a b \<Longrightarrow> hub_grows b c \<Longrightarrow> hub_grows a c"
  unfolding hub_grows_def by force

text \<open>
  A sender that was found for a channel stays its sender, but a session's channel may be removed, and then nobody
  sends to it any more.
\<close>

definition is_session :: "channel \<Rightarrow> bool" where
  "is_session c \<longleftrightarrow> (\<exists>k. c = ChSession k)"

definition leads_to :: "'d realtime_hub \<Rightarrow> channel \<Rightarrow> nat \<Rightarrow> bool" where
  "leads_to h c s \<longleftrightarrow> sender_of h c = Some s \<or> is_session c \<and> (\<forall>d. sender_of h d \<noteq> Some s)"

definition listens :: "'d realtime_hub \<Rightarrow> nat \<Rightarrow> channel \<Rightarrow> bool" where
  "listens h i c \<longleftrightarrow> (\<exists>r. hb_receivers h i = Some r \<and> leads_to h c (rc_sender r)
     \<and> (\<forall>m\<in>set (rc_queue r). c \<in> targets (ms_visibility m)))"

definition senders_evolve :: "'d realtime_hub \<Rightarrow> 'd realtime_hub \<Rightarrow> bool" where
  "senders_evolve h h' \<longleftrightarrow> hb_next_sender h \<le> hb_next_sender h'
     \<and> (\<forall>d s. s < hb_next_sender h \<longrightarrow> sender_of h' d = Some s \<longrightarrow> sender_of h d = Some s)
     \<and> (\<forall>d s. \<not> is_session d \<longrightarrow> sender_of h d = Some s \<longrightarrow> sender_of h' d = Some s)"

lemma same_senders_evolve:
  "hb_next_sender h' = hb_next_sender h \<Longrightarrow> (\<And>d. sender_of h' d = sender_of h d) \<Longrightarrow> senders_evolve h h'"
  by (simp add: senders_evolve_def)

lemma leads_to_kept:
  assumes ok: "hub_ok h" and e: "senders_evolve h h'" and s: "s < hb_next_sender h" and l: "leads_to h c s"
  shows "leads_to h' c s"
proof (cases "sender_of h c = Some s")
  case True
  have "sender_of h' d = Some s \<Longrightarrow> d = c" for d
    using e s hub_okD(2) [OF ok True] unfolding senders_evolve_def by metis
  then show ?thesis using e True unfolding senders_evolve_def leads_to_def by blast
next
  case False
  then show ?thesis using e s l unfolding senders_evolve_def leads_to_def by blast
qed

lemma listens_kept:
  assumes ok: "hub_ok h" and e: "senders_evolve h h'" and l: "listens h i c"
    and r: "\<And>r. hb_receivers h i = Some r \<Longrightarrow> \<exists>r'. hb_receivers h' i = Some r' \<and> rc_sender r' = rc_sender r
      \<and> ((\<forall>m\<in>set (rc_queue r). c \<in> targets (ms_visibility m)) \<longrightarrow> (\<forall>m\<in>set (rc_queue r'). c \<in> targets (ms_visibility m)))"
  shows "listens h' i c"
proof -
  obtain x where x: "hb_receivers h i = Some x" "leads_to h c (rc_sender x)" "\<forall>m\<in>set (rc_queue x). c \<in> targets (ms_visibility m)"
    using l by (auto simp: listens_def)
  have "leads_to h' c (rc_sender x)" by (rule leads_to_kept [OF ok e hub_okD(4) [OF ok x(1)] x(2)])
  then show ?thesis using r [OF x(1)] x(3) by (auto simp: listens_def)
qed

lemma attached_listens: "attached h i c \<Longrightarrow> listens h i c"
  by (auto simp: attached_def listens_def leads_to_def)

lemma grown_attached: "hub_grows h h' \<Longrightarrow> attached h i c \<Longrightarrow> attached h' i c"
  unfolding hub_grows_def attached_def by blast

subsection \<open>Asking for a sender\<close>

fun channel_sender :: "channel \<Rightarrow> 'd realtime_hub \<Rightarrow> 'd realtime_hub \<times> nat" where
  "channel_sender ChPublic h = (h, hb_public h)"
| "channel_sender ChAdmin h = (h, hb_admin h)"
| "channel_sender (ChLibrary l) h = library_sender l h"
| "channel_sender (ChUser u) h = user_sender u h"
| "channel_sender (ChSession k) h = session_sender k h"

text \<open>Nothing but the map of the channel changes, and that by a new number at most.\<close>

lemma channel_sender_cases:
  obtains s where "channel_sender c h = (h, s)" "sender_of h c = Some s"
  | h' where "channel_sender c h = (h', hb_next_sender h)" "sender_of h c = None"
      "\<And>d. sender_of h' d = (if d = c then Some (hb_next_sender h) else sender_of h d)" "hb_next_sender h' = hb_next_sender h + 1"
      "hb_receivers h' = hb_receivers h" "hb_next_receiver h' = hb_next_receiver h"
proof (cases c)
  case (ChLibrary l)
  let ?h = "h\<lparr>hb_libraries := (hb_libraries h)(l \<mapsto> hb_next_sender h), hb_next_sender := hb_next_sender h + 1\<rparr>"
  have "sender_of ?h d = (if d = ChLibrary l then Some (hb_next_sender h) else sender_of h d)" for d
    by (cases d) auto
  then show thesis using that ChLibrary by (cases "hb_libraries h l") (auto simp: library_sender_def)
next
  case (ChUser u)
  let ?h = "h\<lparr>hb_users := (hb_users h)(u \<mapsto> hb_next_sender h), hb_next_sender := hb_next_sender h + 1\<rparr>"
  have "sender_of ?h d = (if d = ChUser u then Some (hb_next_sender h) else sender_of h d)" for d
    by (cases d) auto
  then show thesis using that ChUser by (cases "hb_users h u") (auto simp: user_sender_def)
next
  case (ChSession k)
  let ?h = "h\<lparr>hb_sessions := (hb_sessions h)(k \<mapsto> hb_next_sender h), hb_next_sender := hb_next_sender h + 1\<rparr>"
  have "sender_of ?h d = (if d = ChSession k then Some (hb_next_sender h) else sender_of h d)" for d
    by (cases d) auto
  then show thesis using that ChSession by (cases "hb_sessions h k") (auto simp: session_sender_def)
qed (use that in simp_all)

lemma channel_sender_ok:
  assumes ok: "hub_ok h" and "channel_sender c h = (h', s)"
  shows "hub_ok h'" "hub_grows h h'" "sender_of h' c = Some s" "hb_receivers h' = hb_receivers h"
    "hb_next_receiver h' = hb_next_receiver h"
proof -
  have "hub_ok h' \<and> hub_grows h h' \<and> sender_of h' c = Some s \<and> hb_receivers h' = hb_receivers h
    \<and> hb_next_receiver h' = hb_next_receiver h"
  proof (cases rule: channel_sender_cases [of c h])
    case (1 s')
    then show ?thesis using assms by simp
  next
    case (2 h2)
    then have h': "h' = h2" "s = hb_next_sender h" using assms(2) by simp_all
    have "sender_of h d \<noteq> Some (hb_next_sender h)" for d using hub_okD(1) [OF ok] by blast
    then have fresh: "sender_of h d = Some s \<Longrightarrow> s \<noteq> hb_next_sender h" for d s by blast
    have "hub_ok h2"
      unfolding hub_ok_def 2(3-6)
      using hub_okD [OF ok] fresh by (auto simp: less_Suc_eq split: if_splits)
    moreover have "hub_grows h h2" using 2(2) by (auto simp: hub_grows_def 2(3,5,6))
    ultimately show ?thesis by (simp add: h' 2(3,5,6))
  qed
  then show "hub_ok h'" "hub_grows h h'" "sender_of h' c = Some s" "hb_receivers h' = hb_receivers h"
    "hb_next_receiver h' = hb_next_receiver h" by blast+
qed


lemma channel_sender_evolves:
  assumes "channel_sender c h = (h', s)"
  shows "senders_evolve h h'"
proof (cases rule: channel_sender_cases [of c h])
  case (1 s')
  then show ?thesis using assms by (simp add: senders_evolve_def)
next
  case (2 h2)
  then have "h' = h2" using assms by simp
  then show ?thesis using 2(2) by (auto simp: senders_evolve_def 2(3,4))
qed

subsection \<open>Subscribing\<close>

fun subscribe_channels :: "channel list \<Rightarrow> 'd realtime_hub \<Rightarrow> 'd realtime_hub \<times> nat list" where
  "subscribe_channels [] h = (h, [])"
| "subscribe_channels (c # cs) h =
     (let (h1, s) = channel_sender c h; (h2, r) = subscribe_to s h1; (h3, rs) = subscribe_channels cs h2
      in (h3, r # rs))"

lemma subscribe_channels_append:
  "subscribe_channels (as @ bs) h =
     (let (h1, rs) = subscribe_channels as h; (h2, qs) = subscribe_channels bs h1 in (h2, rs @ qs))"
  by (induction as arbitrary: h) (simp_all add: Let_def split: prod.splits)

lemma subscribe_libraries_channels: "subscribe_libraries ls h = subscribe_channels (map ChLibrary ls) h"
  by (induction ls arbitrary: h) (simp_all add: Let_def split: prod.splits)

lemma subscribe_is_channels: "subscribe user key h = subscribe_channels (channels_of user key) h"
  by (simp add: subscribe_def subscribe_around_def subscribe_user_def channels_of_def subscribe_channels_append
    subscribe_libraries_channels Let_def split: prod.splits)

lemma subscribe_to_ok:
  assumes ok: "hub_ok h" and c: "sender_of h c = Some s" and sub: "subscribe_to s h = (h', i)"
  shows "hub_ok h'" "hub_grows h h'" "attached h' i c" "i = hb_next_receiver h" "hb_next_receiver h' = i + 1"
proof -
  have senders: "sender_of h' d = sender_of h d" for d using sub by (cases d) (auto simp: subscribe_to_def)
  have h': "hb_receivers h' = (hb_receivers h)(hb_next_receiver h \<mapsto> \<lparr>rc_sender = s, rc_queue = [], rc_skipped = 0\<rparr>)"
    "hb_next_sender h' = hb_next_sender h" and i: "i = hb_next_receiver h" and next': "hb_next_receiver h' = i + 1"
    using sub by (auto simp: subscribe_to_def)
  have fresh: "hb_receivers h j = Some r \<Longrightarrow> j < hb_next_receiver h" for j r using hub_okD(3) [OF ok] .
  show "hub_ok h'"
    unfolding hub_ok_def senders h' next' i
    using hub_okD [OF ok] hub_okD(1) [OF ok c] by (auto simp: less_Suc_eq split: if_splits)
  show "hub_grows h h'" using fresh by (auto simp: hub_grows_def senders h' next' i split: if_splits)
  show "attached h' i c" using c by (simp add: attached_def senders h' i)
qed (use sub in \<open>auto simp: subscribe_to_def\<close>)

lemma subscribe_channels_ok:
  "subscribe_channels cs h = (h', rs) \<Longrightarrow> hub_ok h \<Longrightarrow>
     hub_ok h' \<and> hub_grows h h' \<and> list_all2 (attached h') rs cs \<and> distinct rs \<and> set rs \<subseteq> {hb_next_receiver h..<hb_next_receiver h'}"
proof (induction cs arbitrary: h rs)
  case (Cons c cs)
  obtain h1 s h2 i qs where 1: "channel_sender c h = (h1, s)" and 2: "subscribe_to s h1 = (h2, i)"
      and 3: "subscribe_channels cs h2 = (h', qs)" and rs: "rs = i # qs"
    using Cons.prems(1) by (auto simp: Let_def split: prod.splits)
  note s1 = channel_sender_ok [OF Cons.prems(2) 1]
  note s2 = subscribe_to_ok [OF s1(1,3) 2]
  note s3 = Cons.IH [OF 3 s2(1)]
  have "hub_grows h h'" using hub_grows_trans [OF s1(2) hub_grows_trans [OF s2(2)]] s3 by blast
  moreover have "list_all2 (attached h') rs (c # cs)" using s3 s2(3) grown_attached [of h2 h' i c] by (simp add: rs)
  moreover have "i < hb_next_receiver h'" using s3 s2(5) by (auto simp: hub_grows_def)
  ultimately show ?case using s3 s2(4,5) s1(5) by (auto simp: rs)
qed simp

subsection \<open>Publishing\<close>

lemma send_to_simps [simp]:
  "sender_of (send_to s m h) c = sender_of h c" "hb_next_sender (send_to s m h) = hb_next_sender h"
  "hb_next_receiver (send_to s m h) = hb_next_receiver h" "hb_libraries (send_to s m h) = hb_libraries h"
  "hb_receivers (send_to s m h) i = map_option (\<lambda>r. if rc_sender r = s then pushed m r else r) (hb_receivers h i)"
  by (cases c) (simp_all add: send_to_def)

lemma pushed_sender [simp]: "rc_sender (pushed m r) = rc_sender r"
  by (simp add: pushed_def)

lemma send_to_ok: "hub_ok h \<Longrightarrow> hub_ok (send_to s m h)"
  unfolding hub_ok_def by (auto simp: map_option_eq_Some simp del: sender_of.simps split: if_splits)

definition reached :: "realtime_visibility \<Rightarrow> 'd realtime_hub \<Rightarrow> 'd receiver \<Rightarrow> bool" where
  "reached v h r \<longleftrightarrow> (\<exists>c\<in>targets v. sender_of h c = Some (rc_sender r))"

lemma send_to_fresh:
  assumes "hub_ok h" "channel_sender c h = (h', s)"
  shows "hb_receivers (send_to s m h') i = map_option (\<lambda>r. if sender_of h c = Some (rc_sender r) then pushed m r else r) (hb_receivers h i)"
proof (cases rule: channel_sender_cases [of c h])
  case (1 s')
  then show ?thesis using assms(2) by (auto intro!: map_option_cong)
next
  case (2 h2)
  then have "rc_sender r \<noteq> s" if "hb_receivers h i = Some r" for r
    using hub_okD(4) [OF assms(1) that] assms(2) by auto
  then show ?thesis using 2 assms(2) by (auto intro!: map_option_cong)
qed

lemma publish_ok:
  assumes ok: "hub_ok h"
  shows "hub_ok (publish m h)" "sender_of h c = Some s \<Longrightarrow> sender_of (publish m h) c = Some s"
    "hb_receivers (publish m h) i = map_option (\<lambda>r. if reached (ms_visibility m) h r then pushed m r else r) (hb_receivers h i)"
    "hb_next_receiver (publish m h) = hb_next_receiver h"
proof -
  have "hub_ok (publish m h) \<and> (sender_of h c = Some s \<longrightarrow> sender_of (publish m h) c = Some s)
    \<and> hb_receivers (publish m h) i = map_option (\<lambda>r. if reached (ms_visibility m) h r then pushed m r else r) (hb_receivers h i)
    \<and> hb_next_receiver (publish m h) = hb_next_receiver h"
  proof (cases "ms_visibility m")
    case PublicTo
    then show ?thesis using send_to_ok [OF ok] by (auto simp: publish_def reached_def intro!: map_option_cong)
  next
    case AdminTo
    then show ?thesis using send_to_ok [OF ok] by (auto simp: publish_def reached_def intro!: map_option_cong)
  next
    case (LibraryTo l)
    let ?h1 = "send_to (hb_admin h) m h"
    obtain h2 s2 where 2: "channel_sender (ChLibrary l) ?h1 = (h2, s2)" by fastforce
    note s = channel_sender_ok [OF send_to_ok [OF ok] 2]
    have p: "publish m h = send_to s2 m h2" using 2 LibraryTo by (simp add: publish_def)
    have ne: "hb_libraries h l \<noteq> Some (hb_admin h)"
      using hub_okD(2) [OF ok, of "ChLibrary l" "hb_admin h" ChAdmin] by auto
    show ?thesis
      using send_to_ok [OF s(1)] s(2,5) ne send_to_fresh [OF send_to_ok [OF ok] 2, of m i]
      by (auto simp: p LibraryTo reached_def hub_grows_def option.map_comp intro!: map_option_cong)
  next
    case (UserTo u)
    obtain h2 s2 where 2: "channel_sender (ChUser u) h = (h2, s2)" by fastforce
    note s = channel_sender_ok [OF ok 2]
    have p: "publish m h = send_to s2 m h2" using 2 UserTo by (simp add: publish_def)
    show ?thesis
      using send_to_ok [OF s(1)] s(2,5) send_to_fresh [OF ok 2, of m i]
      by (auto simp: p UserTo reached_def hub_grows_def intro!: map_option_cong)
  next
    case (SessionTo k)
    then show ?thesis using ok send_to_ok [OF ok]
      by (auto simp: publish_def reached_def option.map_ident intro!: map_option_cong split: option.splits)
  qed
  then show "hub_ok (publish m h)" "sender_of h c = Some s \<Longrightarrow> sender_of (publish m h) c = Some s"
    "hb_receivers (publish m h) i = map_option (\<lambda>r. if reached (ms_visibility m) h r then pushed m r else r) (hb_receivers h i)"
    "hb_next_receiver (publish m h) = hb_next_receiver h" by blast+
qed

lemma publish_evolves: "senders_evolve h (publish m h)"
proof -
  have send: "senders_evolve h (send_to s m g)" if "senders_evolve h g" for s g
    using that by (simp add: senders_evolve_def)
  show ?thesis
  proof (cases "ms_visibility m")
    case (LibraryTo l)
    obtain h2 s2 where 2: "channel_sender (ChLibrary l) (send_to (hb_admin h) m h) = (h2, s2)" by fastforce
    have "senders_evolve h h2" using channel_sender_evolves [OF 2] by (simp add: senders_evolve_def)
    moreover have "publish m h = send_to s2 m h2" using 2 LibraryTo by (simp add: publish_def)
    ultimately show ?thesis using send by simp
  next
    case (UserTo u)
    obtain h2 s2 where 2: "channel_sender (ChUser u) h = (h2, s2)" by fastforce
    moreover have "publish m h = send_to s2 m h2" using 2 UserTo by (simp add: publish_def)
    ultimately show ?thesis using send channel_sender_evolves [OF 2] by simp
  qed (use send in \<open>simp_all add: publish_def senders_evolve_def split: option.splits\<close>)
qed

text \<open>A receiver gets the messages of its channel, unless the channel is gone.\<close>

lemma reached_listens:
  assumes ok: "hub_ok h" and l: "leads_to h c (rc_sender r)"
  shows "reached v h r \<longleftrightarrow> c \<in> targets v \<and> sender_of h c = Some (rc_sender r)"
  using l hub_okD(2) [OF ok, of c "rc_sender r"] by (auto simp: leads_to_def reached_def)

lemma published_listens:
  assumes ok: "hub_ok h" and l: "listens h i c"
  shows "listens (publish m h) i c"
proof (rule listens_kept [OF ok publish_evolves l])
  fix r assume r: "hb_receivers h i = Some r"
  have "c \<in> targets (ms_visibility m)" if "reached (ms_visibility m) h r"
    using that l r reached_listens [OF ok, of c r "ms_visibility m"] by (auto simp: listens_def)
  moreover have "x \<in> set (rc_queue r) \<or> x = m" if "x \<in> set (rc_queue (pushed m r))" for x
    using that by (cases "rc_queue r") (auto simp: pushed_def split: if_splits)
  ultimately show "\<exists>r'. hb_receivers (publish m h) i = Some r' \<and> rc_sender r' = rc_sender r
      \<and> ((\<forall>m\<in>set (rc_queue r). c \<in> targets (ms_visibility m)) \<longrightarrow> (\<forall>m\<in>set (rc_queue r'). c \<in> targets (ms_visibility m)))"
    using publish_ok(3) [OF ok, of m i] r by auto
qed

subsection \<open>Leaving\<close>

lemma drop_receivers_simps [simp]:
  "sender_of (drop_receivers rs h) c = sender_of h c" "hb_next_receiver (drop_receivers rs h) = hb_next_receiver h"
  "hb_receivers (drop_receivers rs h) = (hb_receivers h) |` (- set rs)" "hb_next_sender (drop_receivers rs h) = hb_next_sender h"
  by (cases c) (simp_all add: drop_receivers_def)

lemma drop_receivers_ok: "hub_ok h \<Longrightarrow> hub_ok (drop_receivers rs h)"
  unfolding hub_ok_def by (auto simp: restrict_map_def simp del: sender_of.simps split: if_splits)

lemma dropped_listens: "hub_ok h \<Longrightarrow> listens h i c \<Longrightarrow> i \<notin> set rs \<Longrightarrow> listens (drop_receivers rs h) i c"
  by (rule listens_kept [of h]) (simp_all add: same_senders_evolve del: sender_of.simps)

lemma unsubscribe_simps [simp]:
  "hb_next_receiver (unsubscribe_session k h) = hb_next_receiver h" "hb_receivers (unsubscribe_session k h) = hb_receivers h"
  "hb_next_sender (unsubscribe_session k h) = hb_next_sender h"
  by (simp_all add: unsubscribe_session_def split: option.splits)

lemma unsubscribe_sender:
  "sender_of (unsubscribe_session k h) c =
     (if c = ChSession k \<and> (case hb_sessions h k of None \<Rightarrow> False | Some s \<Rightarrow> receiver_count s h = 0) then None else sender_of h c)"
  by (cases c) (auto simp: unsubscribe_session_def split: option.splits)

lemma unsubscribe_ok: "hub_ok h \<Longrightarrow> hub_ok (unsubscribe_session k h)"
  unfolding hub_ok_def by (auto simp: unsubscribe_sender simp del: sender_of.simps split: if_splits)

lemma unsubscribed_listens: "hub_ok h \<Longrightarrow> listens h i c \<Longrightarrow> listens (unsubscribe_session k h) i c"
  by (rule listens_kept [of h]) (auto simp: senders_evolve_def unsubscribe_sender is_session_def simp del: sender_of.simps split: if_splits)

text \<open>A session's channel stays as long as a receiver is subscribed to it.\<close>

lemma unsubscribed_attached:
  assumes ok: "hub_ok h" and a: "attached h i c"
  shows "attached (unsubscribe_session k h) i c"
proof -
  obtain r where r: "hb_receivers h i = Some r" "sender_of h c = Some (rc_sender r)"
      "\<forall>x\<in>set (rc_queue r). c \<in> targets (ms_visibility x)" using a by (auto simp: attached_def)
  have "i < hb_next_receiver h" using hub_okD(3) [OF ok r(1)] .
  then have "receiver_count (rc_sender r) h \<noteq> 0"
    using r(1) by (auto simp: receiver_count_def filter_empty_conv intro!: bexI [of _ i])
  then have "sender_of (unsubscribe_session k h) c = sender_of h c"
    using r(2) by (auto simp: unsubscribe_sender split: option.splits)
  then show ?thesis using r by (simp add: attached_def)
qed

subsection \<open>Polling\<close>

text \<open>Polling only takes messages off the stream's own queues.\<close>

definition drained :: "'d realtime_hub \<Rightarrow> 'd realtime_hub \<Rightarrow> bool" where
  "drained h h' \<longleftrightarrow> (\<forall>c. sender_of h' c = sender_of h c) \<and> hb_next_sender h' = hb_next_sender h
     \<and> hb_next_receiver h' = hb_next_receiver h
     \<and> (\<forall>i. case hb_receivers h i of None \<Rightarrow> hb_receivers h' i = None
          | Some r \<Rightarrow> (\<exists>r'. hb_receivers h' i = Some r' \<and> rc_sender r' = rc_sender r \<and> set (rc_queue r') \<subseteq> set (rc_queue r)))"

lemma drained_refl [simp]: "drained h h"
  by (auto simp: drained_def split: option.splits)

lemma drainedD:
  assumes "drained h h'"
  shows "sender_of h' c = sender_of h c" "hb_next_sender h' = hb_next_sender h" "hb_next_receiver h' = hb_next_receiver h"
    "hb_receivers h i = None \<Longrightarrow> hb_receivers h' i = None"
    "hb_receivers h i = Some r \<Longrightarrow> \<exists>r'. hb_receivers h' i = Some r' \<and> rc_sender r' = rc_sender r \<and> set (rc_queue r') \<subseteq> set (rc_queue r)"
proof -
  note d = assms [unfolded drained_def]
  show "sender_of h' c = sender_of h c" "hb_next_sender h' = hb_next_sender h" "hb_next_receiver h' = hb_next_receiver h"
    using d by blast+
  show "hb_receivers h i = None \<Longrightarrow> hb_receivers h' i = None"
    "hb_receivers h i = Some r \<Longrightarrow> \<exists>r'. hb_receivers h' i = Some r' \<and> rc_sender r' = rc_sender r \<and> set (rc_queue r') \<subseteq> set (rc_queue r)"
    using d [THEN conjunct2, THEN conjunct2, THEN conjunct2, rule_format, of i] by simp_all
qed

lemma drained_trans:
  assumes ab: "drained a b" and bc: "drained b c"
  shows "drained a c"
proof -
  have "case hb_receivers a i of None \<Rightarrow> hb_receivers c i = None
      | Some r \<Rightarrow> (\<exists>r'. hb_receivers c i = Some r' \<and> rc_sender r' = rc_sender r \<and> set (rc_queue r') \<subseteq> set (rc_queue r))" for i
  proof (cases "hb_receivers a i")
    case None
    then show ?thesis using drainedD(4) [OF ab None] drainedD(4) [OF bc] by simp
  next
    case (Some r)
    obtain r1 where r1: "hb_receivers b i = Some r1" "rc_sender r1 = rc_sender r" "set (rc_queue r1) \<subseteq> set (rc_queue r)"
      using drainedD(5) [OF ab Some] by blast
    then show ?thesis using drainedD(5) [OF bc r1(1)] Some by fastforce
  qed
  then show ?thesis using drainedD(1-3) [OF ab] drainedD(1-3) [OF bc] by (simp add: drained_def)
qed

lemma drained_update:
  assumes "hb_receivers h i = Some r" "rc_sender r' = rc_sender r" "set (rc_queue r') \<subseteq> set (rc_queue r)"
  shows "drained h (h\<lparr>hb_receivers := (hb_receivers h)(i \<mapsto> r')\<rparr>)"
proof -
  have "sender_of (h\<lparr>hb_receivers := (hb_receivers h)(i \<mapsto> r')\<rparr>) c = sender_of h c" for c by (cases c) simp_all
  then show ?thesis using assms by (auto simp: drained_def split: option.splits)
qed

lemma drained_ok:
  assumes "drained h h'" and ok: "hub_ok h"
  shows "hub_ok h'"
proof -
  have "i < hb_next_receiver h \<and> rc_sender r' < hb_next_sender h" if r': "hb_receivers h' i = Some r'" for i r'
  proof (cases "hb_receivers h i")
    case None
    then show ?thesis using drainedD(4) [OF assms(1) None] r' by simp
  next
    case (Some r)
    then show ?thesis using drainedD(5) [OF assms(1) Some] r' hub_okD(3,4) [OF ok Some] by auto
  qed
  then show ?thesis using ok unfolding hub_ok_def drainedD(1-3) [OF assms(1)] by blast
qed

lemma drained_listens: "drained h h' \<Longrightarrow> hub_ok h \<Longrightarrow> listens h i c \<Longrightarrow> listens h' i c"
  using drainedD(5) [of h h' i] by (elim listens_kept [rotated 2]) (fastforce intro: same_senders_evolve drainedD)+

lemma poll_receivers_drains:
  "poll_receivers n order st h = (p, st', h') \<Longrightarrow> drained h h' \<and> es_receivers st' = es_receivers st
     \<and> es_user st' = es_user st \<and> es_session st' = es_session st"
proof (induction n arbitrary: h)
  case 0
  then show ?case
    by (auto simp: poll_receivers.simps [of 0] Let_def intro: drained_update split: option.splits list.splits if_splits)
next
  case (Suc n)
  show ?case
  proof (cases "\<exists>i r m ms. List.find (ready h) (order (Suc n)) = Some i \<and> hb_receivers h i = Some r \<and> rc_skipped r = 0
      \<and> rc_queue r = m # ms \<and> \<not> is_visible_to m (es_user st) (es_session st)")
    case True
    then obtain i r m ms where h: "List.find (ready h) (order (Suc n)) = Some i" "hb_receivers h i = Some r" "rc_skipped r = 0"
      "rc_queue r = m # ms" "\<not> is_visible_to m (es_user st) (es_session st)" by blast
    let ?h = "h\<lparr>hb_receivers := (hb_receivers h)(i \<mapsto> r\<lparr>rc_queue := ms\<rparr>)\<rparr>"
    have "poll_receivers n order st ?h = (p, st', h')"
      using Suc.prems h by (simp add: poll_receivers.simps [of "Suc n"])
    moreover have "drained h ?h" using h(2,4) by (intro drained_update) auto
    ultimately show ?thesis using Suc.IH drained_trans by blast
  next
    case False
    then show ?thesis
      using Suc.prems
      by (auto simp: poll_receivers.simps [of "Suc n"] Let_def intro: drained_update split: option.splits list.splits if_splits)
  qed
qed

lemma poll_next_drains:
  "poll_next expired order st h = (p, st', h') \<Longrightarrow> drained h h' \<and> es_receivers st' = es_receivers st
     \<and> es_user st' = es_user st \<and> es_session st' = es_session st"
  using poll_receivers_drains [of _ order st h] by (auto simp: poll_next_def split: if_splits)


subsection \<open>The open streams\<close>

text \<open>
  A client that connects subscribes to the channels of its user one after the other; for each the sender is looked up
  under the lock of its map and subscribed to without it. Then it authenticates again.
\<close>

record connection =
  cn_auth :: authenticated_session
  cn_todo :: "channel list"
  cn_sender :: "nat option"
  cn_receivers :: "nat list"

record 'd stream_world =
  wd_hub :: "'d realtime_hub"
  wd_connections :: "connection list"
  wd_streams :: "event_stream list"
  wd_leaving :: "ustr list"

definition no_streams :: "'d stream_world" where
  "no_streams = \<lparr>wd_hub = new_hub, wd_connections = [], wd_streams = [], wd_leaving = []\<rparr>"

definition new_connection :: "authenticated_session \<Rightarrow> connection" where
  "new_connection a = \<lparr>cn_auth = a, cn_todo = channels_of (au_user a) (realtime_session_key a), cn_sender = None, cn_receivers = []\<rparr>"

text \<open>
  Messages are published, clients connect, read and leave in any order. Who gives up or leaves first drops its
  receivers; the call of \<open>unsubscribe_session\<close> is a later step. A client that authenticates again with other rights
  gives up and connects anew.
\<close>

inductive stream_step :: "'d stream_world \<Rightarrow> 'd stream_world \<Rightarrow> bool" where
  published: "stream_step w (w\<lparr>wd_hub := publish m (wd_hub w)\<rparr>)"
| connecting: "stream_step w (w\<lparr>wd_connections := wd_connections w @ [new_connection a]\<rparr>)"
| sender_found: "wd_connections w = cns @ \<lparr>cn_auth = a, cn_todo = c # cs, cn_sender = None, cn_receivers = rs\<rparr> # ds
    \<Longrightarrow> channel_sender c (wd_hub w) = (h, s)
    \<Longrightarrow> stream_step w (w\<lparr>wd_hub := h,
          wd_connections := cns @ \<lparr>cn_auth = a, cn_todo = c # cs, cn_sender = Some s, cn_receivers = rs\<rparr> # ds\<rparr>)"
| subscribed: "wd_connections w = cns @ \<lparr>cn_auth = a, cn_todo = c # cs, cn_sender = Some s, cn_receivers = rs\<rparr> # ds
    \<Longrightarrow> subscribe_to s (wd_hub w) = (h, i)
    \<Longrightarrow> stream_step w (w\<lparr>wd_hub := h,
          wd_connections := cns @ \<lparr>cn_auth = a, cn_todo = cs, cn_sender = None, cn_receivers = rs @ [i]\<rparr> # ds\<rparr>)"
| confirmed: "wd_connections w = cns @ \<lparr>cn_auth = a, cn_todo = [], cn_sender = None, cn_receivers = rs\<rparr> # ds
    \<Longrightarrow> realtime_session_key again = realtime_session_key a \<Longrightarrow> same_authorization_snapshot a again
    \<Longrightarrow> stream_step w (w\<lparr>wd_connections := cns @ ds, wd_streams := wd_streams w @ [open_stream again rs]\<rparr>)"
| given_up: "wd_connections w = cns @ \<lparr>cn_auth = a, cn_todo = [], cn_sender = None, cn_receivers = rs\<rparr> # ds
    \<Longrightarrow> stream_step w (w\<lparr>wd_hub := drop_receivers rs (wd_hub w), wd_connections := cns @ ds,
          wd_leaving := wd_leaving w @ [realtime_session_key a]\<rparr>)"
| polled: "wd_streams w = sts @ st # ds \<Longrightarrow> poll_next expired order st (wd_hub w) = (p, st', h)
    \<Longrightarrow> stream_step w (w\<lparr>wd_hub := h, wd_streams := sts @ st' # ds\<rparr>)"
| left: "wd_streams w = sts @ st # ds
    \<Longrightarrow> stream_step w (w\<lparr>wd_hub := drop_receivers (es_receivers st) (wd_hub w), wd_streams := sts @ ds,
          wd_leaving := wd_leaving w @ [es_session st]\<rparr>)"
| forgotten: "wd_leaving w = ks @ key # ls
    \<Longrightarrow> stream_step w (w\<lparr>wd_hub := unsubscribe_session key (wd_hub w), wd_leaving := ks @ ls\<rparr>)"

abbreviation stream_run :: "'d stream_world \<Rightarrow> 'd stream_world \<Rightarrow> bool" where
  "stream_run \<equiv> stream_step\<^sup>*\<^sup>*"

definition stream_listens :: "'d realtime_hub \<Rightarrow> event_stream \<Rightarrow> bool" where
  "stream_listens h st \<longleftrightarrow> list_all2 (listens h) (es_receivers st) (channels_of (es_user st) (es_session st))"

definition connection_ok :: "'d realtime_hub \<Rightarrow> connection \<Rightarrow> bool" where
  "connection_ok h cn \<longleftrightarrow>
     (\<exists>cs. channels_of (au_user (cn_auth cn)) (realtime_session_key (cn_auth cn)) = cs @ cn_todo cn
        \<and> list_all2 (listens h) (cn_receivers cn) cs)
     \<and> (\<forall>s. cn_sender cn = Some s \<longrightarrow> s < hb_next_sender h \<and> leads_to h (hd (cn_todo cn)) s)"

definition all_receivers :: "'d stream_world \<Rightarrow> nat list" where
  "all_receivers w = concat (map es_receivers (wd_streams w)) @ concat (map cn_receivers (wd_connections w))"

definition world_ok :: "'d stream_world \<Rightarrow> bool" where
  "world_ok w \<longleftrightarrow> hub_ok (wd_hub w) \<and> list_all (stream_listens (wd_hub w)) (wd_streams w)
     \<and> list_all (connection_ok (wd_hub w)) (wd_connections w) \<and> distinct (all_receivers w)"

lemma world_okD:
  assumes "world_ok w"
  shows "hub_ok (wd_hub w)" "st \<in> set (wd_streams w) \<Longrightarrow> stream_listens (wd_hub w) st"
    "cn \<in> set (wd_connections w) \<Longrightarrow> connection_ok (wd_hub w) cn" "distinct (all_receivers w)"
  using assms by (auto simp: world_ok_def list_all_iff)

text \<open>What listens goes on listening.\<close>

lemma stream_listens_mono:
  "stream_listens h st \<Longrightarrow> (\<And>i c. i \<in> set (es_receivers st) \<Longrightarrow> listens h i c \<Longrightarrow> listens h' i c) \<Longrightarrow> stream_listens h' st"
  unfolding stream_listens_def by (rule list.rel_mono_strong)

lemma connection_ok_mono:
  assumes ok: "hub_ok h" and e: "senders_evolve h h'" and c: "connection_ok h cn"
    and l: "\<And>i c. i \<in> set (cn_receivers cn) \<Longrightarrow> listens h i c \<Longrightarrow> listens h' i c"
  shows "connection_ok h' cn"
proof -
  obtain cs where cs: "channels_of (au_user (cn_auth cn)) (realtime_session_key (cn_auth cn)) = cs @ cn_todo cn"
      "list_all2 (listens h) (cn_receivers cn) cs"
    using c by (auto simp: connection_ok_def)
  have "list_all2 (listens h') (cn_receivers cn) cs" by (rule list.rel_mono_strong [OF cs(2)]) (rule l)
  moreover have "s < hb_next_sender h' \<and> leads_to h' (hd (cn_todo cn)) s" if "cn_sender cn = Some s" for s
    using c leads_to_kept [OF ok e] e that unfolding connection_ok_def senders_evolve_def by fastforce
  ultimately show ?thesis using cs(1) unfolding connection_ok_def by blast
qed

lemma listening_below: "hub_ok h \<Longrightarrow> listens h i c \<Longrightarrow> i < hb_next_receiver h"
  using hub_okD(3) by (auto simp: listens_def)

lemma list_all2_left: "list_all2 P xs ys \<Longrightarrow> x \<in> set xs \<Longrightarrow> \<exists>y\<in>set ys. P x y"
  by (induction rule: list_all2_induct) auto

lemma receivers_below:
  assumes "world_ok w" "i \<in> set (all_receivers w)"
  shows "i < hb_next_receiver (wd_hub w)"
proof -
  note ok = world_okD(1) [OF assms(1)]
  consider st where "st \<in> set (wd_streams w)" "i \<in> set (es_receivers st)"
    | cn where "cn \<in> set (wd_connections w)" "i \<in> set (cn_receivers cn)"
    using assms(2) by (auto simp: all_receivers_def)
  then show ?thesis
  proof cases
    case 1
    have "list_all2 (listens (wd_hub w)) (es_receivers st) (channels_of (es_user st) (es_session st))"
      using world_okD(2) [OF assms(1) 1(1)] by (simp add: stream_listens_def)
    from list_all2_left [OF this 1(2)] show ?thesis using listening_below [OF ok] by blast
  next
    case 2
    obtain cs where "list_all2 (listens (wd_hub w)) (cn_receivers cn) cs"
      using world_okD(3) [OF assms(1) 2(1)] by (auto simp: connection_ok_def)
    from list_all2_left [OF this 2(2)] show ?thesis using listening_below [OF ok] by blast
  qed
qed

text \<open>A step of the hub that all receivers survive but those that are taken away.\<close>

lemma hub_step_keeps:
  assumes "world_ok w" and "hub_ok h" and e: "senders_evolve (wd_hub w) h"
    and l: "\<And>i c. i \<notin> set gone \<Longrightarrow> listens (wd_hub w) i c \<Longrightarrow> listens h i c"
  shows "st \<in> set (wd_streams w) \<Longrightarrow> set (es_receivers st) \<inter> set gone = {} \<Longrightarrow> stream_listens h st"
    and "cn \<in> set (wd_connections w) \<Longrightarrow> set (cn_receivers cn) \<inter> set gone = {} \<Longrightarrow> connection_ok h cn"
proof -
  note ok = world_okD [OF assms(1)]
  show "stream_listens h st" if "st \<in> set (wd_streams w)" "set (es_receivers st) \<inter> set gone = {}"
    by (rule stream_listens_mono [OF ok(2) [OF that(1)]]) (use l that(2) in blast)
  show "connection_ok h cn" if "cn \<in> set (wd_connections w)" "set (cn_receivers cn) \<inter> set gone = {}"
    by (rule connection_ok_mono [OF ok(1) e ok(3) [OF that(1)]]) (use l that(2) in blast)
qed

lemma subscribed_listens:
  assumes ok: "hub_ok h" and s: "s < hb_next_sender h" "leads_to h c s" and sub: "subscribe_to s h = (h', i)"
  shows "hub_ok h'" "senders_evolve h h'" "listens h' i c" "listens h j d \<Longrightarrow> listens h' j d" "i = hb_next_receiver h"
proof -
  have senders: "sender_of h' d = sender_of h d" for d using sub by (cases d) (auto simp: subscribe_to_def)
  have h': "hb_receivers h' = (hb_receivers h)(hb_next_receiver h \<mapsto> \<lparr>rc_sender = s, rc_queue = [], rc_skipped = 0\<rparr>)"
    "hb_next_sender h' = hb_next_sender h" and i: "i = hb_next_receiver h" and next': "hb_next_receiver h' = i + 1"
    using sub by (auto simp: subscribe_to_def)
  show ok': "hub_ok h'"
    unfolding hub_ok_def senders h' next' i
    using hub_okD [OF ok] s(1) by (auto simp: less_Suc_eq split: if_splits)
  show e: "senders_evolve h h'" by (simp add: same_senders_evolve senders h')
  show "listens h' i c" using s(2) by (simp add: listens_def leads_to_def senders h' i)
  show "listens h' j d" if l: "listens h j d"
    by (rule listens_kept [OF ok e l]) (use listening_below [OF ok l] in \<open>simp add: h'\<close>)
  show "i = hb_next_receiver h" by (rule i)
qed

lemma same_snapshot_channels:
  "realtime_session_key b = realtime_session_key a \<Longrightarrow> same_authorization_snapshot a b
     \<Longrightarrow> channels_of (au_user b) (realtime_session_key b) = channels_of (au_user a) (realtime_session_key a)"
  by (simp add: channels_of_def same_authorization_snapshot_def profile_is_admin_def)

lemma stream_step_keeps:
  assumes "stream_step w w'" and inv: "world_ok w"
  shows "world_ok w'"
proof -
  note ok = world_okD [OF inv]
  note dist = ok(4) [unfolded all_receivers_def]
  from assms(1) show ?thesis
  proof cases
    case (published m)
    note k = hub_step_keeps [OF inv publish_ok(1) [OF ok(1)] publish_evolves, of "[]", OF published_listens [OF ok(1)]]
    show ?thesis using k dist publish_ok(1) [OF ok(1)] published by (simp add: world_ok_def list_all_iff all_receivers_def)
  next
    case (connecting a)
    have "connection_ok (wd_hub w) (new_connection a)" by (simp add: connection_ok_def new_connection_def)
    then show ?thesis using inv connecting by (simp add: world_ok_def all_receivers_def new_connection_def)
  next
    case (sender_found cns a c cs rs ds h s)
    note cs = channel_sender_ok [OF ok(1) sender_found(3)]
    note e = channel_sender_evolves [OF sender_found(3)]
    have l: "listens h i d" if "listens (wd_hub w) i d" for i d
      by (rule listens_kept [OF ok(1) e that]) (simp add: cs(4))
    note k = hub_step_keeps [OF inv cs(1) e, of "[]", OF l]
    have "connection_ok h \<lparr>cn_auth = a, cn_todo = c # cs, cn_sender = Some s, cn_receivers = rs\<rparr>"
      using k(2) [of "\<lparr>cn_auth = a, cn_todo = c # cs, cn_sender = None, cn_receivers = rs\<rparr>"] sender_found(2) cs(3) hub_okD(1) [OF cs(1,3)]
      by (simp add: connection_ok_def leads_to_def)
    then show ?thesis using k dist cs(1) sender_found(1,2) by (simp add: world_ok_def list_all_iff all_receivers_def)
  next
    case (subscribed cns a c cs s rs ds h i)
    let ?cn = "\<lparr>cn_auth = a, cn_todo = c # cs, cn_sender = Some s, cn_receivers = rs\<rparr>"
    have cn: "connection_ok (wd_hub w) ?cn" using ok(3) subscribed(2) by simp
    then have s: "s < hb_next_sender (wd_hub w)" "leads_to (wd_hub w) c s" by (simp_all add: connection_ok_def)
    note sub = subscribed_listens [OF ok(1) s subscribed(3)]
    note k = hub_step_keeps [OF inv sub(1,2), of "[]", OF sub(4)]
    have "connection_ok h ?cn" using k(2) subscribed(2) by simp
    then have "connection_ok h \<lparr>cn_auth = a, cn_todo = cs, cn_sender = None, cn_receivers = rs @ [i]\<rparr>"
      using sub(3) by (auto simp: connection_ok_def intro!: list_all2_appendI)
    moreover have "i \<notin> set (all_receivers w)" using receivers_below [OF inv] sub(5) by blast
    ultimately show ?thesis
      using k dist sub(1) subscribed(1,2) by (auto simp: world_ok_def list_all_iff all_receivers_def)
  next
    case (confirmed cns a rs ds again)
    have "stream_listens (wd_hub w) (open_stream again rs)"
      using ok(3) [of "\<lparr>cn_auth = a, cn_todo = [], cn_sender = None, cn_receivers = rs\<rparr>"] confirmed(2)
        same_snapshot_channels [OF confirmed(3,4)]
      by (simp add: stream_listens_def connection_ok_def open_stream_def)
    then show ?thesis
      using ok(1-3) dist confirmed(1,2) by (auto simp: world_ok_def list_all_iff all_receivers_def open_stream_def)
  next
    case (given_up cns a rs ds)
    have l: "listens (drop_receivers rs (wd_hub w)) i c" if "i \<notin> set rs" "listens (wd_hub w) i c" for i c
      using dropped_listens [OF ok(1) that(2,1)] .
    have e: "senders_evolve (wd_hub w) (drop_receivers rs (wd_hub w))" by (simp add: same_senders_evolve)
    note k = hub_step_keeps [OF inv drop_receivers_ok [OF ok(1)] e, of rs, OF l]
    have apart: "(\<Union>x\<in>set (wd_streams w). set (es_receivers x)) \<inter> set rs = {}"
      "(\<Union>x\<in>set (cns @ ds). set (cn_receivers x)) \<inter> set rs = {}" using dist given_up(2) by auto
    show ?thesis
      unfolding world_ok_def list_all_iff
    proof (intro conjI ballI)
      show "stream_listens (wd_hub w') st" if "st \<in> set (wd_streams w')" for st
        using k(1) [of st] that apart(1) given_up(1) by auto
      show "connection_ok (wd_hub w') cn" if "cn \<in> set (wd_connections w')" for cn
        using k(2) [of cn] that apart(2) given_up(1,2) by auto
    qed (use dist drop_receivers_ok [OF ok(1)] given_up(1,2) in \<open>auto simp: all_receivers_def\<close>)
  next
    case (polled sts st ds expired order p st' h)
    note d = poll_next_drains [OF polled(3)]
    have e: "senders_evolve (wd_hub w) h" using d drainedD by (intro same_senders_evolve) blast+
    note k = hub_step_keeps [OF inv drained_ok [OF _ ok(1)] e, of "[]", OF _ drained_listens [OF _ ok(1)]]
    have "stream_listens h st'" using k(1) [of st] d polled(2) by (simp add: stream_listens_def)
    then show ?thesis
      using k d dist drained_ok [OF _ ok(1)] polled(1,2) by (auto simp: world_ok_def list_all_iff all_receivers_def)
  next
    case (left sts st ds)
    have l: "listens (drop_receivers (es_receivers st) (wd_hub w)) i c" if "i \<notin> set (es_receivers st)" "listens (wd_hub w) i c" for i c
      using dropped_listens [OF ok(1) that(2,1)] .
    have e: "senders_evolve (wd_hub w) (drop_receivers (es_receivers st) (wd_hub w))" by (simp add: same_senders_evolve)
    note k = hub_step_keeps [OF inv drop_receivers_ok [OF ok(1)] e, of "es_receivers st", OF l]
    have apart: "(\<Union>x\<in>set (sts @ ds). set (es_receivers x)) \<inter> set (es_receivers st) = {}"
      "(\<Union>x\<in>set (wd_connections w). set (cn_receivers x)) \<inter> set (es_receivers st) = {}" using dist left(2) by auto
    show ?thesis
      unfolding world_ok_def list_all_iff
    proof (intro conjI ballI)
      show "stream_listens (wd_hub w') x" if "x \<in> set (wd_streams w')" for x
        using k(1) [of x] that apart(1) left(1,2) by auto
      show "connection_ok (wd_hub w') cn" if "cn \<in> set (wd_connections w')" for cn
        using k(2) [of cn] that apart(2) left(1) by auto
    qed (use dist drop_receivers_ok [OF ok(1)] left(1,2) in \<open>auto simp: all_receivers_def\<close>)
  next
    case (forgotten ks key ls)
    have e: "senders_evolve (wd_hub w) (unsubscribe_session key (wd_hub w))"
      by (auto simp: senders_evolve_def unsubscribe_sender is_session_def simp del: sender_of.simps split: if_splits)
    note k = hub_step_keeps [OF inv unsubscribe_ok [OF ok(1)] e, of "[]", OF unsubscribed_listens [OF ok(1)]]
    show ?thesis using k dist unsubscribe_ok [OF ok(1)] forgotten(1) by (simp add: world_ok_def list_all_iff all_receivers_def)
  qed
qed

lemma new_hub_senders: "sender_of new_hub c = Some s \<Longrightarrow> c = ChPublic \<and> s = 0 \<or> c = ChAdmin \<and> s = 1"
  by (cases c) (auto simp: new_hub_def)

lemma new_hub_ok: "hub_ok new_hub"
  unfolding hub_ok_def
proof (intro conjI allI impI)
  show "c = c'" if "sender_of new_hub c = Some s" "sender_of new_hub c' = Some s" for c c' s
    using new_hub_senders [OF that(1)] new_hub_senders [OF that(2)] by auto
  show "s < hb_next_sender new_hub" if "sender_of new_hub c = Some s" for c s
    using new_hub_senders [OF that] by (auto simp: new_hub_def)
qed (simp_all add: new_hub_def)

lemma no_streams_ok: "world_ok no_streams"
  by (simp add: world_ok_def no_streams_def new_hub_ok all_receivers_def)

lemma stream_run_ok: "stream_run no_streams w \<Longrightarrow> world_ok w"
  by (induction rule: rtranclp_induct) (auto intro: no_streams_ok stream_step_keeps)

subsection \<open>Connecting without interruption\<close>

text \<open>\<open>authenticate_and_subscribe\<close> as one function is a run of these steps.\<close>

abbreviation subscribing :: "authenticated_session \<Rightarrow> channel list \<Rightarrow> nat list \<Rightarrow> connection" where
  "subscribing a cs rs \<equiv> \<lparr>cn_auth = a, cn_todo = cs, cn_sender = None, cn_receivers = rs\<rparr>"

abbreviation world :: "'d realtime_hub \<Rightarrow> connection list \<Rightarrow> event_stream list \<Rightarrow> ustr list \<Rightarrow> 'd stream_world" where
  "world h cns sts ks \<equiv> \<lparr>wd_hub = h, wd_connections = cns, wd_streams = sts, wd_leaving = ks\<rparr>"

lemma step_run: "stream_step a b \<Longrightarrow> stream_run b c \<Longrightarrow> stream_run a c"
  by (rule converse_rtranclp_into_rtranclp)

lemma subscribing_run:
  "subscribe_channels cs h = (h', qs)
    \<Longrightarrow> stream_run (world h (cns @ [subscribing a cs rs]) sts ks) (world h' (cns @ [subscribing a [] (rs @ qs)]) sts ks)"
proof (induction cs arbitrary: h rs qs)
  case (Cons c cs)
  obtain h1 s h2 i ps where 1: "channel_sender c h = (h1, s)" and 2: "subscribe_to s h1 = (h2, i)"
      and 3: "subscribe_channels cs h2 = (h', ps)" and qs: "qs = i # ps"
    using Cons.prems(1) by (auto simp: Let_def split: prod.splits)
  let ?found = "\<lparr>cn_auth = a, cn_todo = c # cs, cn_sender = Some s, cn_receivers = rs\<rparr>"
  have "stream_step (world h (cns @ [subscribing a (c # cs) rs]) sts ks) (world h1 (cns @ [?found]) sts ks)"
    using sender_found [of "world h (cns @ [subscribing a (c # cs) rs]) sts ks" cns a c cs rs "[]"] 1 by simp
  moreover have "stream_step (world h1 (cns @ [?found]) sts ks) (world h2 (cns @ [subscribing a cs (rs @ [i])]) sts ks)"
    using subscribed [of "world h1 (cns @ [?found]) sts ks" cns a c cs s rs "[]"] 2 by simp
  ultimately show ?case using Cons.IH [OF 3, of "rs @ [i]"] by (simp add: qs step_run)
qed simp

lemma subscription_run:
  assumes "subscribe (au_user a) (realtime_session_key a) h = (h', rs)"
  shows "stream_run (world h cns sts ks) (world h' (cns @ [subscribing a [] rs]) sts ks)"
proof (rule step_run)
  show "stream_step (world h cns sts ks) (world h (cns @ [new_connection a]) sts ks)"
    using connecting [of "world h cns sts ks" a] by simp
  show "stream_run (world h (cns @ [new_connection a]) sts ks) (world h' (cns @ [subscribing a [] rs]) sts ks)"
    using subscribing_run [OF assms [unfolded subscribe_is_channels], of cns a "[]"] by (simp add: new_connection_def)
qed

lemma connected_run:
  "authenticate_and_subscribe n answers auth h = (h', Inr (a, rs))
    \<Longrightarrow> stream_run (world h cns sts ks) (world h' cns (sts @ [open_stream a rs]) ks)"
proof (induction n answers auth h rule: authenticate_and_subscribe.induct)
  case (1 n answer answers auth h)
  let ?key = "realtime_session_key auth"
  obtain h1 qs where sub: "subscribe (au_user auth) ?key h = (h1, qs)" by fastforce
  note run = subscription_run [OF sub, of cns sts ks]
  obtain again where again: "answer = Inr again" using "1.prems" by (cases answer) (simp_all add: sub)
  show ?case
  proof (cases "realtime_session_key again = ?key \<and> same_authorization_snapshot auth again")
    case True
    then have r: "h' = h1" "a = again" "rs = qs" using "1.prems" again by (simp_all add: sub)
    have "stream_step (world h1 (cns @ [subscribing auth [] qs]) sts ks) (world h1 cns (sts @ [open_stream again qs]) ks)"
      using confirmed [of "world h1 (cns @ [subscribing auth [] qs]) sts ks" cns auth qs "[]" again] True by simp
    then show ?thesis using run unfolding r by (rule rtranclp.rtrancl_into_rtrancl [rotated])
  next
    case False
    let ?h2 = "drop_receivers qs h1"
    have "stream_step (world h1 (cns @ [subscribing auth [] qs]) sts ks) (world ?h2 cns sts (ks @ [?key]))"
      using given_up [of "world h1 (cns @ [subscribing auth [] qs]) sts ks" cns auth qs "[]"] by simp
    moreover have "stream_step (world ?h2 cns sts (ks @ [?key])) (world (unsubscribe_session ?key ?h2) cns sts ks)"
      using forgotten [of "world ?h2 cns sts (ks @ [?key])" ks ?key "[]"] by simp
    moreover have "authenticate_and_subscribe n answers again (unsubscribe_session ?key ?h2) = (h', Inr (a, rs))"
      using "1.prems" again False by (auto simp: sub)
    from "1.IH" [OF refl sub [symmetric] refl again False this]
    have "stream_run (world (unsubscribe_session ?key ?h2) cns sts ks) (world h' cns (sts @ [open_stream a rs]) ks)" .
    ultimately show ?thesis using run step_run rtranclp_trans by metis
  qed
qed auto

end
