(* ===== verification/Realtime_Streams.thy ===== *)
theory Realtime_Streams
  imports Realtime_Delivery
begin

text \<open>What the streams of clients are given, and the message that can be lost.\<close>

subsection \<open>Delivery\<close>

lemma pushed_differs: "pushed m r \<noteq> r"
proof
  assume "pushed m r = r"
  then have "length (rc_queue (pushed m r)) = length (rc_queue r)" "rc_skipped (pushed m r) = rc_skipped r" by simp_all
  then show False by (simp add: pushed_def split: if_splits)
qed

text \<open>
  Messages for a session go by a channel that may be removed while a stream subscribes to it. A stream is in touch with
  its session when one of its receivers belongs to the channel that the hub has for the session.
\<close>

definition session_message :: "'d realtime_message \<Rightarrow> bool" where
  "session_message m \<longleftrightarrow> (\<exists>k. ms_visibility m = SessionTo k)"

definition in_touch :: "'d realtime_hub \<Rightarrow> event_stream \<Rightarrow> bool" where
  "in_touch h st \<longleftrightarrow> (\<exists>i\<in>set (es_receivers st). \<exists>r. hb_receivers h i = Some r \<and> hb_sessions h (es_session st) = Some (rc_sender r))"

lemma no_session_target: "\<not> session_message m \<Longrightarrow> c \<in> targets (ms_visibility m) \<Longrightarrow> \<not> is_session c"
  by (cases "ms_visibility m") (auto simp: session_message_def is_session_def)

lemma session_channel: "ChSession k \<in> set (channels_of user key) \<longleftrightarrow> k = key"
  by (auto simp: channels_of_def)

text \<open>The receiver of a stream that a message reaches.\<close>

lemma listener_reached:
  assumes ok: "hub_ok h" and l: "listens h i c"
  shows "(hb_receivers (publish m h) i = map_option (pushed m) (hb_receivers h i)) \<longleftrightarrow>
    c \<in> targets (ms_visibility m) \<and> sender_of h c = map_option rc_sender (hb_receivers h i)"
proof -
  obtain r where r: "hb_receivers h i = Some r" "leads_to h c (rc_sender r)" using l by (auto simp: listens_def)
  then show ?thesis
    using publish_ok(3) [OF ok, of m i] reached_listens [OF ok r(2), of "ms_visibility m"] pushed_differs [of m r] by auto
qed

lemma in_touch_attached:
  assumes ok: "hub_ok h" and l: "stream_listens h st" and t: "in_touch h st"
    and p: "(i, ChSession (es_session st)) \<in> set (zip (es_receivers st) (channels_of (es_user st) (es_session st)))"
  shows "sender_of h (ChSession (es_session st)) = map_option rc_sender (hb_receivers h i)"
proof -
  let ?cs = "channels_of (es_user st) (es_session st)" and ?s = "ChSession (es_session st)"
  obtain j r where j: "j \<in> set (es_receivers st)" "hb_receivers h j = Some r" "sender_of h ?s = Some (rc_sender r)"
    using t by (auto simp: in_touch_def)
  have len: "length (es_receivers st) = length ?cs" using l by (auto simp: stream_listens_def dest: list_all2_lengthD)
  obtain k where k: "k < length ?cs" "j = es_receivers st ! k" using j(1) len by (auto simp: in_set_conv_nth)
  have "listens h j (?cs ! k)" using l k by (auto simp: stream_listens_def list_all2_conv_all_nth)
  then have "leads_to h (?cs ! k) (rc_sender r)" using j(2) by (auto simp: listens_def)
  then have "sender_of h (?cs ! k) = Some (rc_sender r)" using j(3) unfolding leads_to_def by blast
  then have "?cs ! k = ?s" using hub_okD(2) [OF ok _ j(3)] by blast
  obtain n where n: "n < length ?cs" "i = es_receivers st ! n" "?cs ! n = ?s"
    using p len by (auto simp: set_zip)
  have once: "k = n"
    using k(1) n(1,3) \<open>?cs ! k = ?s\<close> by (auto simp: channels_of_def nth_append nth_Cons split: if_splits nat.splits)
  then show ?thesis using j k n by simp
qed

lemma channel_reached:
  assumes ok: "hub_ok h" and l: "stream_listens h st" and v: "\<not> session_message m \<or> in_touch h st"
    and p: "(i, c) \<in> set (zip (es_receivers st) (channels_of (es_user st) (es_session st)))"
  shows "(hb_receivers (publish m h) i = map_option (pushed m) (hb_receivers h i)) \<longleftrightarrow> c \<in> targets (ms_visibility m)"
proof -
  have lis: "listens h i c" using l p unfolding stream_listens_def by (auto simp: list_all2_iff)
  then obtain r where r: "hb_receivers h i = Some r" "leads_to h c (rc_sender r)" by (auto simp: listens_def)
  have "sender_of h c = map_option rc_sender (hb_receivers h i)" if t: "c \<in> targets (ms_visibility m)"
  proof (cases "is_session c")
    case True
    then obtain k where k: "c = ChSession k" by (auto simp: is_session_def)
    then have "k = es_session st" using p session_channel by (auto dest: set_zip_rightD)
    then show ?thesis using in_touch_attached [OF ok l] v no_session_target [OF _ t] True k p by blast
  next
    case False
    then show ?thesis using r by (simp add: leads_to_def)
  qed
  then show ?thesis using listener_reached [OF ok lis, of m] by blast
qed

lemma channel_missed:
  assumes ok: "hub_ok h" and l: "stream_listens h st" and v: "session_message m" "\<not> in_touch h st"
    and i: "i \<in> set (es_receivers st)"
  shows "hb_receivers (publish m h) i \<noteq> map_option (pushed m) (hb_receivers h i)"
proof -
  obtain c where c: "c \<in> set (channels_of (es_user st) (es_session st))" "listens h i c"
    using list_all2_left [OF l [unfolded stream_listens_def] i] by blast
  obtain r where r: "hb_receivers h i = Some r" using c(2) by (auto simp: listens_def)
  have "\<not> (c \<in> targets (ms_visibility m) \<and> sender_of h c = map_option rc_sender (hb_receivers h i))"
    using v c(1) i r session_channel by (auto simp: session_message_def in_touch_def)
  then show ?thesis using listener_reached [OF ok c(2), of m] by blast
qed

lemma filter_zip: "length xs = length ys \<Longrightarrow> (\<And>x y. (x, y) \<in> set (zip xs ys) \<Longrightarrow> P x \<longleftrightarrow> Q y)
    \<Longrightarrow> length (List.filter P xs) = length (List.filter Q ys)"
  by (induction xs ys rule: list_induct2) auto

text \<open>
  C25. Every open stream is handed each published message that its user may see in exactly one of its
  receivers, and a message that the user may not see in none, whatever clients connect, read and leave and in
  whichever order the steps of their subscriptions come. The one exception: a message for its session is handed to
  the stream only as long as the stream is in touch with its session; else it is handed to none of its receivers.
\<close>

theorem delivery_exact:
  assumes "stream_run no_streams w" and "st \<in> set (wd_streams w)" and "distinct (library_ids (es_user st))"
  shows "length (List.filter (\<lambda>i. hb_receivers (publish m (wd_hub w)) i = map_option (pushed m) (hb_receivers (wd_hub w) i))
        (es_receivers st))
      = (if is_visible_to m (es_user st) (es_session st) \<and> (\<not> session_message m \<or> in_touch (wd_hub w) st) then 1 else 0)
    \<and> (\<forall>i\<in>set (es_receivers st). hb_receivers (publish m (wd_hub w)) i \<in>
         {hb_receivers (wd_hub w) i, map_option (pushed m) (hb_receivers (wd_hub w) i)})"
proof -
  let ?h = "wd_hub w" and ?cs = "channels_of (es_user st) (es_session st)"
  let ?given = "\<lambda>i. hb_receivers (publish m ?h) i = map_option (pushed m) (hb_receivers ?h i)"
  note ok = world_okD(1) [OF stream_run_ok [OF assms(1)]]
  note l = world_okD(2) [OF stream_run_ok [OF assms(1)] assms(2)]
  have len: "length (es_receivers st) = length ?cs" using l by (auto simp: stream_listens_def dest: list_all2_lengthD)
  have "length (List.filter ?given (es_receivers st))
      = (if is_visible_to m (es_user st) (es_session st) \<and> (\<not> session_message m \<or> in_touch ?h st) then 1 else 0)"
  proof (cases "\<not> session_message m \<or> in_touch ?h st")
    case True
    have "length (List.filter ?given (es_receivers st)) = length (List.filter (\<lambda>c. c \<in> targets (ms_visibility m)) ?cs)"
      by (rule filter_zip [OF len channel_reached [OF ok l True]])
    then show ?thesis using one_way [OF assms(3), of m "es_session st"] True by simp
  next
    case False
    then have "List.filter ?given (es_receivers st) = []"
      using channel_missed [OF ok l] by (auto simp: filter_empty_conv)
    then show ?thesis using False by simp
  qed
  moreover have "hb_receivers (publish m ?h) i \<in> {hb_receivers ?h i, map_option (pushed m) (hb_receivers ?h i)}" for i
    using publish_ok(3) [OF ok, of m i] by (cases "hb_receivers ?h i") auto
  ultimately show ?thesis by (simp only:) blast
qed

subsection \<open>Reading\<close>

lemma queued_visible:
  assumes "stream_listens h st" "i \<in> set (es_receivers st)" "hb_receivers h i = Some r" "m \<in> set (rc_queue r)"
  shows "is_visible_to m (es_user st) (es_session st)"
  using list_all2_left [OF assms(1) [unfolded stream_listens_def] assms(2)] assms(3,4)
  by (auto simp: visible_by_channels listens_def)

text \<open>
  A client only reads messages that its user may see, each taken from the head of one of its queues;
  it waits only when all of its queues are empty, is told when it has skipped messages, and after that, after
  the end of its credential, or after a message that ends the stream it reads nothing more.
\<close>

theorem stream_reads_exact:
  assumes "stream_run no_streams w" and "st \<in> set (wd_streams w)"
    and "\<forall>n. set (order n) = set (es_receivers st)"
    and "poll_next expired order st (wd_hub w) = (p, st', h')"
  shows "case p of
      Next (Forwarded m) \<Rightarrow> is_visible_to m (es_user st) (es_session st) \<and> es_close st' = closes_stream m
        \<and> (\<exists>i\<in>set (es_receivers st). \<exists>r. hb_receivers (wd_hub w) i = Some r \<and> rc_skipped r = 0
             \<and> rc_queue r = m # rc_queue (the (hb_receivers h' i)))
    | Next ClientLagged \<Rightarrow> es_close st' \<and> (\<exists>i\<in>set (es_receivers st). \<exists>r. hb_receivers (wd_hub w) i = Some r \<and> 0 < rc_skipped r)
    | Next CredentialExpired \<Rightarrow> es_close st' \<and> expired
    | Waiting \<Rightarrow> \<not> expired \<and> \<not> es_close st' \<and> (\<forall>i\<in>set (es_receivers st). \<not> ready (wd_hub w) i)
    | Ended \<Rightarrow> es_close st \<and> st' = st"
proof (cases "es_close st \<or> expired")
  case True
  then show ?thesis using assms(4) by (auto simp: poll_next_def split: if_splits)
next
  case False
  let ?h = "wd_hub w" and ?n = "waiting_messages (wd_hub w) (es_receivers st)"
  note att = world_okD(2) [OF stream_run_ok [OF assms(1)] assms(2)]
  have poll: "poll_receivers ?n order st ?h = (p, st', h')" using False assms(4) by (simp add: poll_next_def)
  show ?thesis
  proof (cases "List.find (ready ?h) (order ?n)")
    case None
    then have "(p, st', h') = (Waiting, st, ?h)" using poll by (simp add: poll_receivers.simps [of ?n])
    moreover have "\<forall>i\<in>set (es_receivers st). \<not> ready ?h i" using None assms(3) by (simp add: find_None_iff)
    ultimately show ?thesis using False by simp
  next
    case (Some i)
    then have "ready ?h i" and "i \<in> set (order ?n)" by (auto simp: find_Some_iff)
    then have i: "ready ?h i" "i \<in> set (es_receivers st)" using assms(3) by auto
    then obtain r where r: "hb_receivers ?h i = Some r" and some: "rc_skipped r \<noteq> 0 \<or> rc_queue r \<noteq> []"
      by (auto simp: ready_def split: option.splits)
    show ?thesis
    proof (cases "rc_skipped r = 0")
      case True
      then obtain m ms where q: "rc_queue r = m # ms" using some by (cases "rc_queue r") auto
      then have vis: "is_visible_to m (es_user st) (es_session st)" using queued_visible [OF att i(2) r] by simp
      then have "(p, st', h') = (Next (Forwarded m), st\<lparr>es_close := closes_stream m\<rparr>,
          ?h\<lparr>hb_receivers := (hb_receivers ?h)(i \<mapsto> r\<lparr>rc_queue := ms\<rparr>)\<rparr>)"
        using poll Some r True q by (simp add: poll_receivers.simps [of ?n] Let_def)
      then show ?thesis using vis i(2) r True q by auto
    next
      case False
      then have "p = Next ClientLagged \<and> st' = st\<lparr>es_close := True\<rparr>"
        using poll Some r by (auto simp: poll_receivers.simps [of ?n])
      then show ?thesis using i(2) r False by auto
    qed
  qed
qed

subsection \<open>A message that is lost\<close>

lemma subscribe_channels_frame:
  "subscribe_channels cs h = (h', rs) \<Longrightarrow> i \<notin> set rs \<Longrightarrow> hb_receivers h' i = hb_receivers h i"
proof (induction cs arbitrary: h rs)
  case (Cons c cs)
  obtain h1 s h2 j qs where 1: "channel_sender c h = (h1, s)" and 2: "subscribe_to s h1 = (h2, j)"
      and 3: "subscribe_channels cs h2 = (h', qs)" and rs: "rs = j # qs"
    using Cons.prems(1) by (auto simp: Let_def split: prod.splits)
  have "hb_receivers h1 = hb_receivers h" using 1 by (cases rule: channel_sender_cases [of c h]) auto
  moreover have "hb_receivers h2 i = hb_receivers h1 i" using 2 Cons.prems(2) by (auto simp: subscribe_to_def rs)
  ultimately show ?case using Cons.IH [OF 3] Cons.prems(2) by (simp add: rs)
qed simp

text \<open>
  C34. A message for a session can be lost: when the last other stream of a session goes away between the
  two steps in which a new stream of the session subscribes, the session's channel is removed and the new
  stream listens to a channel to which nobody publishes. The message that the session was revoked is then
  dropped although the new stream may see it.
\<close>

theorem session_message_lost:
  assumes ok: "hub_ok h" and key: "hb_sessions h key = Some s"
    and only: "\<forall>i r. hb_receivers h i = Some r \<and> rc_sender r = s \<longrightarrow> i \<in> set old"
    and m: "ms_visibility m = SessionTo key"
  shows "let (h', rs) = subscribe_around (\<lambda>g. unsubscribe_session key (drop_receivers old g)) user key h
    in publish m h' = h' \<and> is_visible_to m user key"
proof -
  let ?cs = "[ChPublic, ChUser (user_id (profile_user user))]
    @ (if profile_is_admin user then [ChAdmin] else map ChLibrary (library_ids user))"
  obtain h1 rs where u: "subscribe_user user h = (h1, rs)" by fastforce
  have "subscribe_user user h = subscribe_channels ?cs h"
    by (simp add: subscribe_user_def subscribe_channels_append subscribe_libraries_channels Let_def split: prod.splits)
  then have cs: "subscribe_channels ?cs h = (h1, rs)" using u by simp
  note s1 = subscribe_channels_ok [OF cs ok]
  have key1: "hb_sessions h1 key = Some s" using s1 key by (metis hub_grows_def sender_of.simps(5))
  have gone: "receiver_count s (drop_receivers old h1) = 0"
  proof -
    have "i \<in> set old" if "hb_receivers h1 i = Some r" "rc_sender r = s" for i r
    proof (cases "i \<in> set rs")
      case True
      then obtain k where k: "k < length rs" "i = rs ! k" by (auto simp: in_set_conv_nth)
      then obtain c where c: "c \<in> set ?cs" "attached h1 i c"
        using s1 list_all2_nthD [of "attached h1" rs ?cs k] list_all2_lengthD [of "attached h1" rs ?cs] nth_mem by metis
      have "c = ChSession key" using hub_okD(2) [of h1 c s "ChSession key"] s1 c(2) that key1 by (auto simp: attached_def)
      then show ?thesis using c(1) by (auto split: if_splits)
    next
      case False
      then have "hb_receivers h i = Some r" using subscribe_channels_frame [OF cs False] that(1) by simp
      then show ?thesis using only that(2) by blast
    qed
    then show ?thesis
      by (auto simp: receiver_count_def filter_empty_conv restrict_map_def split: option.splits if_splits)
  qed
  let ?g = "unsubscribe_session key (drop_receivers old h1)"
  have "hb_sessions ?g key = None"
    using key1 gone by (simp add: unsubscribe_session_def drop_receivers_def)
  moreover have "session_sender key h1 = (h1, s)" using key1 by (simp add: session_sender_def)
  ultimately show ?thesis
    using m by (simp add: subscribe_around_def u publish_def subscribe_to_def is_visible_to_def)
qed

subsection \<open>An instance\<close>

definition demo_listener :: user_profile where
  "demo_listener = \<lparr>profile_user = \<lparr>user_id = 5, username = [], nickname = [], role = Viewer, is_enabled = True,
     created_at = 0, updated_at = 0\<rparr>, library_ids = [7]\<rparr>"

definition demo_login :: authenticated_session where
  "demo_login = \<lparr>au_user = demo_listener, au_expires_at = 9, realtime_session_key = lit ''session:native:3''\<rparr>"

definition demo_hub :: "unit realtime_hub" where
  "demo_hub = fst (authenticate_and_subscribe 3 [Inr demo_login] demo_login new_hub)"

definition demo_world :: "unit stream_world" where
  "demo_world = world demo_hub [] [open_stream demo_login [0, 1, 2, 3]] []"

definition demo_message :: "unit realtime_message" where
  "demo_message = \<lparr>ms_event = lit ''scan.progress'', ms_data = (), ms_visibility = LibraryTo 7\<rparr>"

lemmas realtime_eval = subscribe_def subscribe_around_def subscribe_user_def subscribe_to_def user_sender_def
  library_sender_def session_sender_def new_hub_def demo_listener_def demo_login_def profile_is_admin_def

lemma demo_connected: "authenticate_and_subscribe 3 [Inr demo_login] demo_login new_hub = (demo_hub, Inr (demo_login, [0, 1, 2, 3]))"
  by (simp add: demo_hub_def realtime_eval same_authorization_snapshot_def numeral_3_eq_3 Let_def)

lemma demo_hub_session: "hb_sessions demo_hub (lit ''session:native:3'') = Some 4"
  by (simp add: demo_hub_def realtime_eval same_authorization_snapshot_def numeral_3_eq_3 Let_def)

lemma demo_hub_listeners: "\<forall>i r. hb_receivers demo_hub i = Some r \<and> rc_sender r = 4 \<longrightarrow> i \<in> set [0, 1, 2, 3]"
  by (simp add: demo_hub_def realtime_eval same_authorization_snapshot_def numeral_3_eq_3 Let_def)

lemma demo_world_run: "stream_run no_streams demo_world"
  using connected_run [OF demo_connected, of "[]" "[]" "[]"] by (simp add: no_streams_def demo_world_def)

lemma demo_in_touch: "in_touch demo_hub (open_stream demo_login [0, 1, 2, 3])"
  by (simp add: in_touch_def open_stream_def demo_hub_def realtime_eval same_authorization_snapshot_def numeral_3_eq_3 Let_def)

theorem delivery_exact_witness:
  "length (List.filter (\<lambda>i. hb_receivers (publish demo_message demo_hub) i = map_option (pushed demo_message) (hb_receivers demo_hub i))
     [0, 1, 2, 3]) = 1
   \<and> (let m = demo_message\<lparr>ms_visibility := SessionTo (lit ''session:native:3'')\<rparr>
      in length (List.filter (\<lambda>i. hb_receivers (publish m demo_hub) i = map_option (pushed m) (hb_receivers demo_hub i)) [0, 1, 2, 3]) = 1)"
proof -
  note d = delivery_exact [OF demo_world_run, of "open_stream demo_login [0, 1, 2, 3]"]
  note eval = demo_world_def open_stream_def demo_login_def demo_listener_def demo_message_def is_visible_to_def
    can_access_library_def library_visibility_def profile_is_admin_def
  show ?thesis
    using d [of demo_message] d [of "demo_message\<lparr>ms_visibility := SessionTo (lit ''session:native:3'')\<rparr>"] demo_in_touch
    by (simp add: eval session_message_def Let_def)
qed

theorem stream_reads_exact_witness:
  "\<not> ready demo_hub 0"
proof -
  have "poll_next False (\<lambda>_. [0, 1, 2, 3]) (open_stream demo_login [0, 1, 2, 3]) demo_hub
      = (Waiting, open_stream demo_login [0, 1, 2, 3], demo_hub)"
    by (simp add: poll_next_def open_stream_def poll_receivers.simps demo_hub_def realtime_eval numeral_3_eq_3 Let_def
      same_authorization_snapshot_def ready_def)
  then have "poll_next False (\<lambda>_. [0, 1, 2, 3]) (open_stream demo_login [0, 1, 2, 3]) (wd_hub demo_world)
      = (Waiting, open_stream demo_login [0, 1, 2, 3], demo_hub)" by (simp add: demo_world_def)
  from stream_reads_exact [OF demo_world_run _ _ this] show ?thesis
    by (simp add: demo_world_def open_stream_def)
qed

theorem session_message_lost_witness:
  "publish (demo_message\<lparr>ms_visibility := SessionTo (lit ''session:native:3'')\<rparr>)
     (fst (subscribe_around (\<lambda>g. unsubscribe_session (lit ''session:native:3'') (drop_receivers [0, 1, 2, 3] g))
        demo_listener (lit ''session:native:3'') demo_hub))
   = fst (subscribe_around (\<lambda>g. unsubscribe_session (lit ''session:native:3'') (drop_receivers [0, 1, 2, 3] g))
        demo_listener (lit ''session:native:3'') demo_hub)"
proof -
  have "hub_ok demo_hub" using world_okD(1) [OF stream_run_ok [OF demo_world_run]] by (simp add: demo_world_def)
  then show ?thesis
    using session_message_lost [OF _ demo_hub_session demo_hub_listeners,
      of "demo_message\<lparr>ms_visibility := SessionTo (lit ''session:native:3'')\<rparr>" demo_listener]
    by (simp add: case_prod_beta Let_def)
qed

end
