(* ===== verification/Realtime_Dispatch.thy ===== *)
theory Realtime_Dispatch
  imports Realtime_Hub Job_Store "HOL-Library.AList"
begin

text \<open>
  The dispatcher of realtime events (\<open>apps/mova-server/src/realtime.rs\<close>): it batches the changes of
  resources and the progress of scans and hands messages to the hub. What the database answers is an
  argument of each step; the elements of a hash map are taken in the order of their insertion. Of an
  item of a scan, the fields that the dispatcher reads and its stage are kept.
\<close>

subsection \<open>Events\<close>

record scan_update =
  su_job :: scan_row
  su_phase :: "ustr option"

record scan_item =
  si_scan :: int
  si_library :: int
  si_key :: ustr
  si_index :: int
  si_stage :: ustr

datatype scan_event = ScanUpdated scan_update | ScanCheckpoint scan_update | ScanFinished scan_update
  | ScanItemUpdated scan_item

datatype realtime_command = ResourceChanged ustr | ResourceChangedImmediate ustr | ScanEvent nat scan_event

datatype realtime_data =
    ResourcesChangedData "(ustr \<times> int) list"
  | ScanProgressData scan_update "scan_item list" "(ustr \<times> int) list"
  | SessionInvalidatedData ustr
  | ResyncRequiredData ustr

definition is_reliable :: "scan_event \<Rightarrow> bool" where
  "is_reliable e = (case e of ScanCheckpoint _ \<Rightarrow> True | ScanFinished _ \<Rightarrow> True | _ \<Rightarrow> False)"

subsection \<open>The two queues\<close>

definition DISPATCH_COMMAND_BUFFER_SIZE :: nat where
  "DISPATCH_COMMAND_BUFFER_SIZE = 2048"

record command_queues =
  cq_sequence :: nat
  cq_reliable :: "realtime_command list"
  cq_commands :: "realtime_command list"

text \<open>\<open>publish_scan_event\<close>: transient progress is dropped when its queue is full.\<close>

definition publish_scan_event :: "scan_event \<Rightarrow> command_queues \<Rightarrow> command_queues" where
  "publish_scan_event e q =
     (let c = ScanEvent (cq_sequence q) e; q' = q\<lparr>cq_sequence := cq_sequence q + 1\<rparr> in
      if is_reliable e then q'\<lparr>cq_reliable := cq_reliable q @ [c]\<rparr>
      else if length (cq_commands q) < DISPATCH_COMMAND_BUFFER_SIZE then q'\<lparr>cq_commands := cq_commands q @ [c]\<rparr>
      else q')"

text \<open>The next command: the select is biased to the reliable queue.\<close>

definition next_command :: "command_queues \<Rightarrow> (realtime_command \<times> command_queues) option" where
  "next_command q =
     (case cq_reliable q of
        c # cs \<Rightarrow> Some (c, q\<lparr>cq_reliable := cs\<rparr>)
      | [] \<Rightarrow> (case cq_commands q of c # cs \<Rightarrow> Some (c, q\<lparr>cq_commands := cs\<rparr>) | [] \<Rightarrow> None))"

subsection \<open>Resource keys\<close>

definition is_lower_hex :: "nat \<Rightarrow> bool" where
  "is_lower_hex c = (is_ascii_digit c \<or> 97 \<le> c \<and> c \<le> 102)"

definition session_user_id :: "ustr \<Rightarrow> int option" where
  "session_user_id key = Option.bind (strip_prefix (lit ''session:user:'') key) parse_i64"

definition revoked_session_key :: "ustr \<Rightarrow> ustr option" where
  "revoked_session_key key =
     (case strip_prefix (lit ''session:web:'') key of
        Some token_hash \<Rightarrow> if byte_len token_hash = 64 \<and> list_all is_lower_hex token_hash then Some key else None
      | None \<Rightarrow>
          (case strip_prefix (lit ''session:native:'') key of
             None \<Rightarrow> None
           | Some session_id \<Rightarrow> (case parse_i64 session_id of
                 None \<Rightarrow> None
               | Some i \<Rightarrow> if 0 < i then Some key else None)))"

definition visibility_for_resource :: "ustr \<Rightarrow> realtime_visibility option" where
  "visibility_for_resource key =
     (if starts_with (lit ''admin:'') key then Some AdminTo
      else case split_by (\<lambda>c. c = 58) key of
             scope # i # _ \<Rightarrow>
               if scope = lit ''library'' then map_option LibraryTo (parse_i64 i)
               else if scope = lit ''user'' then map_option UserTo (parse_i64 i)
               else None
           | _ \<Rightarrow> None)"

definition is_continue_watching_key :: "ustr \<Rightarrow> bool" where
  "is_continue_watching_key key = ends_with (lit '':continue-watching'') key"

subsection \<open>State\<close>

record scan_batch =
  sb_job :: "scan_update option"
  sb_items :: "(ustr \<times> scan_item) list"

definition empty_batch :: scan_batch where
  "empty_batch = \<lparr>sb_job = None, sb_items = []\<rparr>"

record finished_guard =
  fg_sequence :: nat
  fg_at :: nat

record dispatcher =
  pending_resources :: "ustr list"
  pending_continue_watching :: "ustr list"
  pending_scans :: "(int \<times> scan_batch) list"
  finished_scan_jobs :: "(int \<times> finished_guard) list"

definition new_dispatcher :: dispatcher where
  "new_dispatcher = \<lparr>pending_resources = [], pending_continue_watching = [], pending_scans = [], finished_scan_jobs = []\<rparr>"

text \<open>
  The answers of the database: the revisions of keys (\<open>None\<close> for an error) and a scan
  (\<open>None\<close> for an error, \<open>Some None\<close> when there is none).
\<close>

record realtime_db =
  rd_revisions :: "ustr list \<Rightarrow> (ustr \<times> int) list option"
  rd_scan :: "int \<Rightarrow> scan_row option option"

type_synonym realtime_messages = "realtime_data realtime_message list"

definition FINISHED_SCAN_EVENT_GUARD_TTL :: nat where
  "FINISHED_SCAN_EVENT_GUARD_TTL = 60000"

text \<open>\<open>insert\<close> of a hash set.\<close>

definition add_key :: "ustr \<Rightarrow> ustr list \<Rightarrow> ustr list" where
  "add_key k ks = (if k \<in> set ks then ks else ks @ [k])"

definition add_pending :: "ustr \<Rightarrow> dispatcher \<Rightarrow> dispatcher" where
  "add_pending k d =
     (if is_continue_watching_key k then d\<lparr>pending_continue_watching := add_key k (pending_continue_watching d)\<rparr>
      else d\<lparr>pending_resources := add_key k (pending_resources d)\<rparr>)"

subsection \<open>Resources\<close>

fun group_revisions ::
  "(ustr \<times> int) list \<Rightarrow> (realtime_visibility \<times> (ustr \<times> int) list) list \<Rightarrow> (realtime_visibility \<times> (ustr \<times> int) list) list" where
  "group_revisions [] g = g"
| "group_revisions (r # rs) g =
     (case visibility_for_resource (fst r) of
        None \<Rightarrow> group_revisions rs g
      | Some v \<Rightarrow> group_revisions rs (AList.update v ((case map_of g v of None \<Rightarrow> [] | Some cs \<Rightarrow> cs) @ [r]) g))"

definition resources_changed :: "realtime_visibility \<Rightarrow> (ustr \<times> int) list \<Rightarrow> realtime_data realtime_message" where
  "resources_changed v changes = \<lparr>ms_event = lit ''resources.changed'',
     ms_data = ResourcesChangedData (sort_key fst changes), ms_visibility = v\<rparr>"

definition flush_resource_keys :: "realtime_db \<Rightarrow> ustr list \<Rightarrow> dispatcher \<Rightarrow> dispatcher \<times> realtime_messages" where
  "flush_resource_keys db keys d =
     (case rd_revisions db keys of
        None \<Rightarrow> (fold add_pending keys d, [])
      | Some revisions \<Rightarrow> (d, map (\<lambda>(v, changes). resources_changed v changes) (group_revisions revisions [])))"

definition flush_resource_changes :: "realtime_db \<Rightarrow> dispatcher \<Rightarrow> dispatcher \<times> realtime_messages" where
  "flush_resource_changes db d =
     (if pending_resources d = [] then (d, [])
      else flush_resource_keys db (pending_resources d) (d\<lparr>pending_resources := []\<rparr>))"

definition flush_continue_watching_changes :: "realtime_db \<Rightarrow> dispatcher \<Rightarrow> dispatcher \<times> realtime_messages" where
  "flush_continue_watching_changes db d =
     (if pending_continue_watching d = [] then (d, [])
      else flush_resource_keys db (pending_continue_watching d) (d\<lparr>pending_continue_watching := []\<rparr>))"

definition session_invalidated :: "ustr \<Rightarrow> realtime_visibility \<Rightarrow> realtime_data realtime_message" where
  "session_invalidated reason v = \<lparr>ms_event = lit ''session.invalidated'', ms_data = SessionInvalidatedData reason, ms_visibility = v\<rparr>"

subsection \<open>Scans\<close>

text \<open>\<open>i64\<close> in \<open>format!\<close>.\<close>

definition load_scan_revisions :: "realtime_db \<Rightarrow> int \<Rightarrow> bool \<Rightarrow> (ustr \<times> int) list" where
  "load_scan_revisions db l include_notifications =
     (let key = (\<lambda>what. lit ''library:'' @ int_text l @ lit what);
          keys = [key '':catalog'', key '':scan''] @ (if include_notifications then [key '':notifications''] else [])
      in case rd_revisions db keys of None \<Rightarrow> [] | Some revisions \<Rightarrow> sort_key fst revisions)"

definition publish_scan_batch ::
  "realtime_db \<Rightarrow> int \<Rightarrow> scan_batch \<Rightarrow> bool \<Rightarrow> bool \<Rightarrow> realtime_messages" where
  "publish_scan_batch db i batch finished include_changes =
     (case (case sb_job batch of
              Some u \<Rightarrow> Some u
            | None \<Rightarrow> (case rd_scan db i of
                  Some (Some r) \<Rightarrow> Some \<lparr>su_job = r, su_phase = None\<rparr>
                | _ \<Rightarrow> None)) of
        None \<Rightarrow> []
      | Some u \<Rightarrow>
          (let l = sc_library (su_job u) in
           [\<lparr>ms_event = (if finished then lit ''scan.finished'' else lit ''scan.progress''),
             ms_data = ScanProgressData u (sort_key si_index (map snd (sb_items batch)))
               (if include_changes then load_scan_revisions db l finished else []),
             ms_visibility = LibraryTo l\<rparr>]))"

definition flush_scan_progress :: "realtime_db \<Rightarrow> nat \<Rightarrow> dispatcher \<Rightarrow> dispatcher \<times> realtime_messages" where
  "flush_scan_progress db now d =
     (d\<lparr>finished_scan_jobs := List.filter (\<lambda>(_, g). now < fg_at g + FINISHED_SCAN_EVENT_GUARD_TTL) (finished_scan_jobs d),
        pending_scans := []\<rparr>,
      concat (map (\<lambda>(i, batch). publish_scan_batch db i batch False False) (pending_scans d)))"

definition pending_batch :: "int \<Rightarrow> dispatcher \<Rightarrow> scan_batch" where
  "pending_batch i d = (case map_of (pending_scans d) i of None \<Rightarrow> empty_batch | Some b \<Rightarrow> b)"

definition publish_scan_finished :: "realtime_db \<Rightarrow> scan_update \<Rightarrow> dispatcher \<Rightarrow> dispatcher \<times> realtime_messages" where
  "publish_scan_finished db u d =
     (let i = sc_id (su_job u) in
      (d\<lparr>pending_scans := AList.delete i (pending_scans d)\<rparr>,
       publish_scan_batch db i ((pending_batch i d)\<lparr>sb_job := Some u\<rparr>) True True))"

definition scan_event_is_stale :: "dispatcher \<Rightarrow> int \<Rightarrow> nat \<Rightarrow> bool" where
  "scan_event_is_stale d i sequence =
     (case map_of (finished_scan_jobs d) i of None \<Rightarrow> False | Some g \<Rightarrow> sequence \<le> fg_sequence g)"

definition event_scan :: "scan_event \<Rightarrow> int" where
  "event_scan e =
     (case e of ScanUpdated u \<Rightarrow> sc_id (su_job u) | ScanCheckpoint u \<Rightarrow> sc_id (su_job u)
      | ScanFinished u \<Rightarrow> sc_id (su_job u) | ScanItemUpdated item \<Rightarrow> si_scan item)"

definition handle_scan_event :: "realtime_db \<Rightarrow> nat \<Rightarrow> nat \<Rightarrow> scan_event \<Rightarrow> dispatcher \<Rightarrow> dispatcher \<times> realtime_messages" where
  "handle_scan_event db now sequence e d =
     (let i = event_scan e in
      if scan_event_is_stale d i sequence then (d, [])
      else
        (let unguarded = d\<lparr>finished_scan_jobs := AList.delete i (finished_scan_jobs d)\<rparr>; b = pending_batch i d in
         case e of
           ScanUpdated u \<Rightarrow> (unguarded\<lparr>pending_scans := AList.update i (b\<lparr>sb_job := Some u\<rparr>) (pending_scans d)\<rparr>, [])
         | ScanCheckpoint u \<Rightarrow>
             (unguarded\<lparr>pending_scans := AList.delete i (pending_scans d)\<rparr>,
              publish_scan_batch db i (b\<lparr>sb_job := Some u\<rparr>) False True)
         | ScanItemUpdated item \<Rightarrow>
             (unguarded\<lparr>pending_scans :=
                AList.update i (b\<lparr>sb_items := AList.update (si_key item) item (sb_items b)\<rparr>) (pending_scans d)\<rparr>, [])
         | ScanFinished u \<Rightarrow>
             publish_scan_finished db u
               (d\<lparr>finished_scan_jobs := AList.update i \<lparr>fg_sequence = sequence, fg_at = now\<rparr> (finished_scan_jobs d)\<rparr>)))"

subsection \<open>Commands and ticks\<close>

definition handle_command :: "realtime_db \<Rightarrow> nat \<Rightarrow> realtime_command \<Rightarrow> dispatcher \<Rightarrow> dispatcher \<times> realtime_messages" where
  "handle_command db now c d =
     (case c of
        ResourceChanged key \<Rightarrow>
          (case revoked_session_key key of
             Some session_key \<Rightarrow> (d, [session_invalidated (lit ''session_revoked'') (SessionTo session_key)])
           | None \<Rightarrow>
               (case session_user_id key of
                  Some u \<Rightarrow> (d, [session_invalidated (lit ''authorization_changed'') (UserTo u)])
                | None \<Rightarrow> (add_pending key d, [])))
      | ResourceChangedImmediate key \<Rightarrow>
          flush_resource_keys db [key]
            (d\<lparr>pending_continue_watching := List.filter (\<lambda>k. k \<noteq> key) (pending_continue_watching d)\<rparr>)
      | ScanEvent sequence e \<Rightarrow> handle_scan_event db now sequence e d)"

datatype dispatcher_input = Command realtime_command | ResourceTick | ScanTick | ContinueWatchingTick

definition dispatch_step ::
  "realtime_db \<times> nat \<times> dispatcher_input \<Rightarrow> dispatcher \<Rightarrow> dispatcher \<times> realtime_messages" where
  "dispatch_step x d =
     (case x of (db, now, input) \<Rightarrow>
        (case input of
           Command c \<Rightarrow> handle_command db now c d
         | ResourceTick \<Rightarrow> flush_resource_changes db d
         | ScanTick \<Rightarrow> flush_scan_progress db now d
         | ContinueWatchingTick \<Rightarrow> flush_continue_watching_changes db d))"

fun dispatch_all ::
  "(realtime_db \<times> nat \<times> dispatcher_input) list \<Rightarrow> dispatcher \<Rightarrow> dispatcher \<times> realtime_messages" where
  "dispatch_all [] d = (d, [])"
| "dispatch_all (x # xs) d =
     (let (d1, ms) = dispatch_step x d; (d2, ns) = dispatch_all xs d1 in (d2, ms @ ns))"

end
