(* ===== verification/Realtime_Events.thy ===== *)
theory Realtime_Events
  imports Realtime_Dispatch
begin

text \<open>
  What the dispatcher announces: nothing after the end of a scan, every change of a resource, each to
  those who may know of it, and the end of a session to its streams.
\<close>

subsection \<open>Scans\<close>

definition about_scan :: "int \<Rightarrow> realtime_data realtime_message \<Rightarrow> bool" where
  "about_scan i m = (case ms_data m of ScanProgressData u _ _ \<Rightarrow> sc_id (su_job u) = i | _ \<Rightarrow> False)"

text \<open>A waiting batch holds the scan that it is kept under.\<close>

definition batches_ok :: "dispatcher \<Rightarrow> bool" where
  "batches_ok d \<longleftrightarrow> (\<forall>(i, b)\<in>set (pending_scans d). \<forall>u. sb_job b = Some u \<longrightarrow> sc_id (su_job u) = i)"

definition db_ok :: "realtime_db \<Rightarrow> bool" where
  "db_ok db \<longleftrightarrow> (\<forall>i r. rd_scan db i = Some (Some r) \<longrightarrow> sc_id r = i)"

lemma update_set: "set (AList.update k v al) \<subseteq> insert (k, v) (set al)"
  by (induction al) auto

lemma delete_set: "set (AList.delete k al) \<subseteq> set al"
  by (auto simp: AList.delete_eq)

lemma pending_batch_job: "batches_ok d \<Longrightarrow> sb_job (pending_batch i d) = Some u \<Longrightarrow> sc_id (su_job u) = i"
  by (auto simp: pending_batch_def empty_batch_def batches_ok_def split: option.splits dest!: map_of_SomeD)

lemma batches_keep:
  assumes "batches_ok d" and "\<forall>u. sb_job b = Some u \<longrightarrow> sc_id (su_job u) = i"
  shows "batches_ok (d\<lparr>pending_scans := AList.update i b (pending_scans d)\<rparr>)"
  using assms update_set [of i b "pending_scans d"] unfolding batches_ok_def by fastforce

lemma batches_drop: "batches_ok d \<Longrightarrow> batches_ok (d\<lparr>pending_scans := AList.delete i (pending_scans d)\<rparr>)"
  using delete_set [of i "pending_scans d"] unfolding batches_ok_def by auto

lemma batches_frame: "pending_scans d' = pending_scans d \<Longrightarrow> batches_ok d' = batches_ok d"
  by (simp add: batches_ok_def)

lemma add_pending_scans [simp]:
  "pending_scans (add_pending k d) = pending_scans d" "finished_scan_jobs (add_pending k d) = finished_scan_jobs d"
  by (simp_all add: add_pending_def)

lemma fold_add_pending_scans [simp]:
  "pending_scans (fold add_pending ks d) = pending_scans d" "finished_scan_jobs (fold add_pending ks d) = finished_scan_jobs d"
  by (induction ks arbitrary: d) simp_all

lemma flush_keys_scans:
  "flush_resource_keys db keys d = (d', ms) \<Longrightarrow> pending_scans d' = pending_scans d \<and> finished_scan_jobs d' = finished_scan_jobs d"
  by (auto simp: flush_resource_keys_def split: option.splits)

lemma flush_keys_about: "flush_resource_keys db keys d = (d', ms) \<Longrightarrow> m \<in> set ms \<Longrightarrow> \<not> about_scan i m"
  by (auto simp: flush_resource_keys_def about_scan_def resources_changed_def split: option.splits)

lemma batch_about:
  assumes "\<forall>u. sb_job b = Some u \<longrightarrow> sc_id (su_job u) = i" "db_ok db" "m \<in> set (publish_scan_batch db i b fin ch)"
  shows "about_scan j m \<longleftrightarrow> i = j"
  using assms
  by (auto simp: publish_scan_batch_def about_scan_def db_ok_def Let_def split: option.splits if_splits)

lemma updated_batch_about:
  "m \<in> set (publish_scan_batch db i (b\<lparr>sb_job := Some u\<rparr>) fin ch) \<Longrightarrow> about_scan j m \<Longrightarrow> sc_id (su_job u) = j"
  by (simp add: publish_scan_batch_def about_scan_def Let_def)

lemma handle_about:
  assumes "handle_scan_event db now s e d = (d', ms)" "m \<in> set ms" "about_scan j m"
  shows "event_scan e = j"
proof (cases e)
  case (ScanCheckpoint u)
  then have "m \<in> set (publish_scan_batch db (event_scan e) ((pending_batch (event_scan e) d)\<lparr>sb_job := Some u\<rparr>) False True)"
    using assms(1,2) by (auto simp: handle_scan_event_def Let_def split: if_splits)
  then show ?thesis using updated_batch_about [OF _ assms(3)] ScanCheckpoint by (auto simp: event_scan_def)
next
  case (ScanFinished u)
  let ?g = "d\<lparr>finished_scan_jobs := AList.update (event_scan e) \<lparr>fg_sequence = s, fg_at = now\<rparr> (finished_scan_jobs d)\<rparr>"
  have "m \<in> set (publish_scan_batch db (sc_id (su_job u)) ((pending_batch (sc_id (su_job u)) ?g)\<lparr>sb_job := Some u\<rparr>) True True)"
    using assms(1,2) ScanFinished
    by (auto simp: handle_scan_event_def publish_scan_finished_def Let_def split: if_splits)
  then show ?thesis using updated_batch_about [OF _ assms(3)] ScanFinished by (auto simp: event_scan_def)
qed (use assms in \<open>auto simp: handle_scan_event_def Let_def split: if_splits\<close>)

text \<open>A step either leaves the scans alone, or flushes their batches, or handles an event.\<close>

lemma dispatch_step_cases:
  assumes "dispatch_step (db, now, input) d = (d', ms)"
  obtains "pending_scans d' = pending_scans d" "finished_scan_jobs d' = finished_scan_jobs d" "\<And>i m. m \<in> set ms \<Longrightarrow> \<not> about_scan i m"
  | "input = ScanTick" "flush_scan_progress db now d = (d', ms)"
  | s e where "input = Command (ScanEvent s e)" "handle_scan_event db now s e d = (d', ms)"
proof (cases input)
  case (Command c)
  show thesis
  proof (cases c)
    case (ResourceChanged key)
    then show thesis
      using assms Command by (intro that(1)) (auto simp: dispatch_step_def handle_command_def about_scan_def
        session_invalidated_def split: option.splits)
  next
    case (ResourceChangedImmediate key)
    then have "flush_resource_keys db [key]
        (d\<lparr>pending_continue_watching := List.filter (\<lambda>k. k \<noteq> key) (pending_continue_watching d)\<rparr>) = (d', ms)"
      using assms Command by (simp add: dispatch_step_def handle_command_def)
    then show thesis using flush_keys_scans flush_keys_about by (intro that(1)) fastforce+
  next
    case (ScanEvent s e)
    then show thesis using assms Command that(3) by (simp add: dispatch_step_def handle_command_def)
  qed
next
  case ResourceTick
  then show thesis
    using assms flush_keys_scans flush_keys_about
    by (intro that(1)) (fastforce simp: dispatch_step_def flush_resource_changes_def split: if_splits)+
next
  case ScanTick
  then show thesis using assms that(2) by (simp add: dispatch_step_def)
next
  case ContinueWatchingTick
  then show thesis
    using assms flush_keys_scans flush_keys_about
    by (intro that(1)) (fastforce simp: dispatch_step_def flush_continue_watching_changes_def split: if_splits)+
qed

lemma dispatch_step_batches:
  assumes "dispatch_step (db, now, input) d = (d', ms)" and ok: "batches_ok d"
  shows "batches_ok d'"
  using assms(1)
proof (cases rule: dispatch_step_cases)
  case 1
  then show ?thesis using ok batches_frame by blast
next
  case 2
  then show ?thesis by (auto simp: flush_scan_progress_def batches_ok_def)
next
  case (3 s e)
  let ?i = "event_scan e" and ?b = "pending_batch (event_scan e) d"
  note job = pending_batch_job [OF ok, of ?i]
  show ?thesis
  proof (cases "scan_event_is_stale d ?i s")
    case True
    then show ?thesis using 3(2) ok by (simp add: handle_scan_event_def Let_def)
  next
    case False
    let ?un = "d\<lparr>finished_scan_jobs := AList.delete ?i (finished_scan_jobs d)\<rparr>"
    have un: "batches_ok ?un" "pending_scans ?un = pending_scans d" using ok by (simp_all add: batches_ok_def)
    show ?thesis
    proof (cases e)
      case (ScanUpdated u)
      then show ?thesis
        using 3(2) False batches_keep [OF un(1), of "?b\<lparr>sb_job := Some u\<rparr>" ?i]
        by (auto simp: handle_scan_event_def Let_def event_scan_def)
    next
      case (ScanCheckpoint u)
      then show ?thesis
        using 3(2) False batches_drop [OF un(1), of ?i] by (auto simp: handle_scan_event_def Let_def)
    next
      case (ScanItemUpdated item)
      then show ?thesis
        using 3(2) False job batches_keep [OF un(1), of "?b\<lparr>sb_items := AList.update (si_key item) item (sb_items ?b)\<rparr>" ?i]
        by (auto simp: handle_scan_event_def Let_def)
    next
      case (ScanFinished u)
      let ?g = "d\<lparr>finished_scan_jobs := AList.update ?i \<lparr>fg_sequence = s, fg_at = now\<rparr> (finished_scan_jobs d)\<rparr>"
      have "batches_ok ?g" using ok by (simp add: batches_ok_def)
      then show ?thesis
        using 3(2) False ScanFinished batches_drop [of ?g ?i]
        by (auto simp: handle_scan_event_def publish_scan_finished_def Let_def event_scan_def)
    qed
  qed
qed

lemma dispatch_all_batches: "dispatch_all xs d = (d', ms) \<Longrightarrow> batches_ok d \<Longrightarrow> batches_ok d'"
proof (induction xs arbitrary: d ms)
  case (Cons x xs)
  obtain db now input where x: "x = (db, now, input)" by (cases x) auto
  obtain d1 ms1 ms2 where 1: "dispatch_step (db, now, input) d = (d1, ms1)" and 2: "dispatch_all xs d1 = (d', ms2)"
    using Cons.prems(1) by (auto simp: x split: prod.splits)
  show ?case using Cons.IH [OF 2 dispatch_step_batches [OF 1 Cons.prems(2)]] .
qed simp

text \<open>A finished scan that is quiet: its guard stands and nothing of it waits.\<close>

definition quiet_scan :: "int \<Rightarrow> nat \<Rightarrow> nat \<Rightarrow> dispatcher \<Rightarrow> bool" where
  "quiet_scan i s t d \<longleftrightarrow> map_of (finished_scan_jobs d) i = Some \<lparr>fg_sequence = s, fg_at = t\<rparr> \<and> map_of (pending_scans d) i = None"

lemma map_of_filter_kept:
  "map_of xs k = Some v \<Longrightarrow> P (k, v) \<Longrightarrow> map_of (List.filter P xs) k = Some v"
  by (induction xs) (auto split: if_splits)

lemma dispatch_step_quiet:
  assumes step: "dispatch_step (db, now, input) d = (d', ms)" and ok: "batches_ok d" and db: "db_ok db"
    and quiet: "quiet_scan i s t d" and now: "now < t + FINISHED_SCAN_EVENT_GUARD_TTL"
    and old: "\<And>s' e. input = Command (ScanEvent s' e) \<Longrightarrow> event_scan e = i \<Longrightarrow> s' \<le> s"
  shows "quiet_scan i s t d' \<and> (\<forall>m\<in>set ms. \<not> about_scan i m)"
  using step
proof (cases rule: dispatch_step_cases)
  case 1
  then show ?thesis using quiet by (simp add: quiet_scan_def)
next
  case 2
  then have d': "pending_scans d' = []" "finished_scan_jobs d'
      = List.filter (\<lambda>(_, g). now < fg_at g + FINISHED_SCAN_EVENT_GUARD_TTL) (finished_scan_jobs d)"
    and ms: "ms = concat (map (\<lambda>(i, batch). publish_scan_batch db i batch False False) (pending_scans d))"
    by (auto simp: flush_scan_progress_def)
  have "\<not> about_scan i m" if mem: "m \<in> set ms" for m
  proof -
    obtain k b where kb: "(k, b) \<in> set (pending_scans d)" "m \<in> set (publish_scan_batch db k b False False)"
      using mem unfolding ms by auto
    then have "k \<noteq> i" using quiet weak_map_of_SomeI [OF kb(1)] by (auto simp: quiet_scan_def)
    moreover have "\<forall>u. sb_job b = Some u \<longrightarrow> sc_id (su_job u) = k" using ok kb(1) by (auto simp: batches_ok_def)
    ultimately show ?thesis using batch_about [OF _ db kb(2)] by blast
  qed
  moreover have "map_of (finished_scan_jobs d') i = Some \<lparr>fg_sequence = s, fg_at = t\<rparr>"
    using quiet now unfolding d' by (intro map_of_filter_kept) (simp_all add: quiet_scan_def)
  ultimately show ?thesis by (simp add: quiet_scan_def d')
next
  case (3 s' e)
  show ?thesis
  proof (cases "event_scan e = i")
    case True
    then have "scan_event_is_stale d (event_scan e) s'"
      using quiet old [OF 3(1)] by (simp add: scan_event_is_stale_def quiet_scan_def)
    then show ?thesis using 3(2) quiet by (simp add: handle_scan_event_def Let_def)
  next
    case False
    let ?k = "event_scan e"
    have "quiet_scan i s t d'"
      using 3(2) quiet False
      by (auto simp: handle_scan_event_def publish_scan_finished_def quiet_scan_def Let_def event_scan_def
        update_conv' delete_conv' split: if_splits scan_event.splits)
    moreover have "\<not> about_scan i m" if "m \<in> set ms" for m
      using handle_about [OF 3(2) that] False by blast
    ultimately show ?thesis by blast
  qed
qed

lemma dispatch_all_quiet:
  assumes "dispatch_all xs d = (d', ms)" and "batches_ok d" and "quiet_scan i s t d"
    and "\<forall>(db, now, input)\<in>set xs. db_ok db \<and> now < t + FINISHED_SCAN_EVENT_GUARD_TTL
      \<and> (\<forall>s' e. input = Command (ScanEvent s' e) \<longrightarrow> event_scan e = i \<longrightarrow> s' \<le> s)"
  shows "\<forall>m\<in>set ms. \<not> about_scan i m"
  using assms
proof (induction xs arbitrary: d ms)
  case (Cons x xs)
  obtain db now input where x: "x = (db, now, input)" by (cases x) auto
  obtain d1 ms1 ms2 where 1: "dispatch_step (db, now, input) d = (d1, ms1)" and 2: "dispatch_all xs d1 = (d', ms2)"
    and ms: "ms = ms1 @ ms2"
    using Cons.prems(1) by (auto simp: x split: prod.splits)
  have h: "db_ok db" "now < t + FINISHED_SCAN_EVENT_GUARD_TTL"
    and old: "\<And>s' e. input = Command (ScanEvent s' e) \<Longrightarrow> event_scan e = i \<Longrightarrow> s' \<le> s"
    using Cons.prems(4) by (auto simp: x)
  have "quiet_scan i s t d1 \<and> (\<forall>m\<in>set ms1. \<not> about_scan i m)"
    by (rule dispatch_step_quiet [OF 1 Cons.prems(2) h(1) Cons.prems(3) h(2)]) (rule old)
  then have q: "quiet_scan i s t d1" "\<forall>m\<in>set ms1. \<not> about_scan i m" by blast+
  then show ?case
    using Cons.IH [OF 2 dispatch_step_batches [OF 1 Cons.prems(2)] q(1)] Cons.prems(4) by (auto simp: ms)
qed simp

text \<open>
  C32. The end of a scan is announced once and for good: whatever was waiting of the scan goes out with
  \<open>scan.finished\<close>, in the order of the items, and of the events that were made before the end and arrive
  late none is announced any more, in any order of commands and ticks as long as the guard of the scan is kept,
  for the minute after its end.
\<close>

theorem finished_is_final:
  assumes "dispatch_all past new_dispatcher = (d, ms0)"
    and "\<not> scan_event_is_stale d (sc_id (su_job u)) s"
    and "dispatch_step (db, now, Command (ScanEvent s (ScanFinished u))) d = (d1, ms)"
    and "\<forall>(db, t, input)\<in>set later. db_ok db \<and> t < now + FINISHED_SCAN_EVENT_GUARD_TTL
      \<and> (\<forall>s' e. input = Command (ScanEvent s' e) \<longrightarrow> event_scan e = sc_id (su_job u) \<longrightarrow> s' \<le> s)"
    and "dispatch_all later d1 = (d2, ns)"
  shows "(\<exists>changes. ms = [\<lparr>ms_event = lit ''scan.finished'',
            ms_data = ScanProgressData u (sort_key si_index (map snd (sb_items (pending_batch (sc_id (su_job u)) d)))) changes,
            ms_visibility = LibraryTo (sc_library (su_job u))\<rparr>])
    \<and> (\<forall>m\<in>set ns. \<not> about_scan (sc_id (su_job u)) m)"
proof -
  let ?i = "sc_id (su_job u)"
  have ok: "batches_ok d" by (rule dispatch_all_batches [OF assms(1)]) (simp add: batches_ok_def new_dispatcher_def)
  have d1: "quiet_scan ?i s now d1"
    and ms: "ms = publish_scan_batch db ?i ((pending_batch ?i d)\<lparr>sb_job := Some u\<rparr>) True True"
    using assms(2,3)
    by (auto simp: dispatch_step_def handle_command_def handle_scan_event_def publish_scan_finished_def event_scan_def
      quiet_scan_def update_conv' delete_conv' pending_batch_def Let_def)
  have "\<forall>m\<in>set ns. \<not> about_scan ?i m"
    by (rule dispatch_all_quiet [OF assms(5) dispatch_step_batches [OF assms(3) ok] d1 assms(4)])
  then show ?thesis by (simp add: ms publish_scan_batch_def Let_def)
qed

text \<open>An instance: an item waits, the scan ends, and a late progress event arrives after it.\<close>

definition demo_ended_scan :: scan_row where
  "demo_ended_scan = \<lparr>sc_id = 4, sc_library = 7, sc_status = ScanSuccess, sc_phase = Some Finished, sc_total = 1,
     sc_scanned = 1, sc_reused = 0, sc_analyzed = 1, sc_committed = 1, sc_remote = 1, sc_progress = 100,
     sc_created_at = 0, sc_started_at = Some 0, sc_finished_at = Some 9, sc_error = None, sc_scope = None\<rparr>"

definition demo_ended :: scan_update where
  "demo_ended = \<lparr>su_job = demo_ended_scan, su_phase = None\<rparr>"

definition demo_scan_item :: scan_item where
  "demo_scan_item = \<lparr>si_scan = 4, si_library = 7, si_key = lit ''a'', si_index = 0, si_stage = lit ''completed''\<rparr>"

definition demo_db :: realtime_db where
  "demo_db = \<lparr>rd_revisions = (\<lambda>keys. Some (map (\<lambda>k. (k, 1)) keys)), rd_scan = (\<lambda>_. Some None)\<rparr>"

definition demo_past :: "(realtime_db \<times> nat \<times> dispatcher_input) list" where
  "demo_past = [(demo_db, 0, Command (ScanEvent 1 (ScanItemUpdated demo_scan_item)))]"

definition demo_late :: "(realtime_db \<times> nat \<times> dispatcher_input) list" where
  "demo_late = [(demo_db, 100, Command (ScanEvent 2 (ScanUpdated demo_ended))), (demo_db, 200, ScanTick)]"

lemmas dispatch_eval = dispatch_step_def handle_command_def handle_scan_event_def event_scan_def scan_event_is_stale_def
  publish_scan_finished_def pending_batch_def empty_batch_def new_dispatcher_def flush_scan_progress_def Let_def

theorem finished_is_final_witness:
  "list_all (\<lambda>m. \<not> about_scan 4 m) (snd (dispatch_all demo_late
     (fst (dispatch_step (demo_db, 50, Command (ScanEvent 3 (ScanFinished demo_ended))) (fst (dispatch_all demo_past new_dispatcher))))))"
proof -
  let ?d = "fst (dispatch_all demo_past new_dispatcher)"
  have fresh: "\<not> scan_event_is_stale ?d (sc_id (su_job demo_ended)) 3"
    by (simp add: demo_past_def dispatch_eval)
  have late: "\<forall>(db, t, input)\<in>set demo_late. db_ok db \<and> t < 50 + FINISHED_SCAN_EVENT_GUARD_TTL
      \<and> (\<forall>s' e. input = Command (ScanEvent s' e) \<longrightarrow> event_scan e = sc_id (su_job demo_ended) \<longrightarrow> s' \<le> 3)"
    by (simp add: demo_late_def db_ok_def demo_db_def FINISHED_SCAN_EVENT_GUARD_TTL_def)
  show ?thesis
    using finished_is_final [OF surjective_pairing fresh surjective_pairing late surjective_pairing]
    by (simp add: demo_ended_def demo_ended_scan_def list_all_iff)
qed

subsection \<open>Resources\<close>

definition pending_change :: "ustr \<Rightarrow> dispatcher \<Rightarrow> bool" where
  "pending_change key d \<longleftrightarrow>
     key \<in> set (if is_continue_watching_key key then pending_continue_watching d else pending_resources d)"

text \<open>The database was asked for the key, and what it answered was announced to those who may know.\<close>

definition announced :: "ustr \<Rightarrow> realtime_db \<Rightarrow> realtime_messages \<Rightarrow> bool" where
  "announced key db ms \<longleftrightarrow> (\<exists>keys revisions. key \<in> set keys \<and> rd_revisions db keys = Some revisions
     \<and> (\<forall>rev v. (key, rev) \<in> set revisions \<longrightarrow> visibility_for_resource key = Some v \<longrightarrow>
          (\<exists>m\<in>set ms. ms_visibility m = v \<and> (\<exists>changes. ms_data m = ResourcesChangedData changes \<and> (key, rev) \<in> set changes))))"

lemma add_key_set [simp]: "set (add_key k ks) = insert k (set ks)"
  by (auto simp: add_key_def)

lemma add_pending_change: "pending_change key (add_pending k d) \<longleftrightarrow> key = k \<or> pending_change key d"
  by (auto simp: pending_change_def add_pending_def)

lemma fold_add_pending_change: "pending_change key (fold add_pending ks d) \<longleftrightarrow> key \<in> set ks \<or> pending_change key d"
  by (induction ks arbitrary: d) (auto simp: add_pending_change)

text \<open>Grouping keeps every revision under the visibility of its key, and adds nothing.\<close>

lemma group_revisions_members:
  "(v, changes) \<in> set (group_revisions rs g) \<Longrightarrow> r \<in> set changes \<Longrightarrow>
     r \<in> set rs \<and> visibility_for_resource (fst r) = Some v \<or> (\<exists>cs. (v, cs) \<in> set g \<and> r \<in> set cs)"
proof (induction rs g rule: group_revisions.induct)
  case (2 x rs g)
  show ?case
  proof (cases "visibility_for_resource (fst x)")
    case None
    then show ?thesis using 2 by auto
  next
    case (Some w)
    let ?old = "case map_of g w of None \<Rightarrow> [] | Some cs \<Rightarrow> cs"
    consider "r \<in> set rs" "visibility_for_resource (fst r) = Some v"
      | cs where "(v, cs) \<in> set (AList.update w (?old @ [x]) g)" "r \<in> set cs"
      using "2.IH"(2) [OF Some] "2.prems" Some by auto
    then show ?thesis
    proof cases
      case 2
      then consider "(v, cs) \<in> set g" | "v = w" "cs = ?old @ [x]" using update_set [of w "?old @ [x]" g] by auto
      then show ?thesis
      proof cases
        case 2
        then have "r \<in> set ?old \<or> r = x" using \<open>r \<in> set cs\<close> by auto
        then show ?thesis using 2(1) Some map_of_SomeD [of g w] by (cases "map_of g w") auto
      qed (use 2 in blast)
    qed simp
  qed
qed auto

lemma group_revisions_keeps:
  "(\<exists>cs. map_of g v = Some cs \<and> r \<in> set cs) \<Longrightarrow> \<exists>cs. map_of (group_revisions rs g) v = Some cs \<and> r \<in> set cs"
proof (induction rs g rule: group_revisions.induct)
  case (2 x rs g)
  show ?case
  proof (cases "visibility_for_resource (fst x)")
    case (Some w)
    have "\<exists>cs. map_of (AList.update w ((case map_of g w of None \<Rightarrow> [] | Some cs \<Rightarrow> cs) @ [x]) g) v = Some cs \<and> r \<in> set cs"
      using "2.prems" by (cases "v = w") (auto simp: update_conv')
    then show ?thesis using "2.IH"(2) [OF Some] Some by simp
  qed (use 2 in simp)
qed simp

lemma group_revisions_complete:
  "r \<in> set rs \<Longrightarrow> visibility_for_resource (fst r) = Some v \<Longrightarrow> \<exists>cs. map_of (group_revisions rs g) v = Some cs \<and> r \<in> set cs"
proof (induction rs g rule: group_revisions.induct)
  case (2 x rs g)
  show ?case
  proof (cases "r = x")
    case True
    then show ?thesis
      using "2.prems"(2) by (simp add: group_revisions_keeps update_conv')
  next
    case False
    then show ?thesis using 2 by (auto split: option.splits)
  qed
qed simp

lemma flushed_key:
  assumes "flush_resource_keys db keys d = (d', ms)" and "key \<in> set keys"
  shows "pending_change key d' \<or> announced key db ms" and "rd_revisions db keys \<noteq> None \<Longrightarrow> announced key db ms"
proof -
  have "announced key db ms" if "rd_revisions db keys = Some revisions" for revisions
  proof -
    have ms: "ms = map (\<lambda>(v, changes). resources_changed v changes) (group_revisions revisions [])"
      using assms(1) that by (simp add: flush_resource_keys_def)
    have "\<exists>m\<in>set ms. ms_visibility m = v \<and> (\<exists>changes. ms_data m = ResourcesChangedData changes \<and> (key, rev) \<in> set changes)"
      if r: "(key, rev) \<in> set revisions" "visibility_for_resource key = Some v" for rev v
    proof -
      obtain cs where cs: "map_of (group_revisions revisions []) v = Some cs" "(key, rev) \<in> set cs"
        using group_revisions_complete [OF r(1), of v "[]"] r(2) by auto
      then have "resources_changed v cs \<in> set ms" using map_of_SomeD [OF cs(1)] by (force simp: ms)
      then show ?thesis using cs(2) by (intro bexI [of _ "resources_changed v cs"]) (auto simp: resources_changed_def)
    qed
    then show ?thesis using assms(2) that by (auto simp: announced_def)
  qed
  then show "rd_revisions db keys \<noteq> None \<Longrightarrow> announced key db ms" by blast
  then show "pending_change key d' \<or> announced key db ms"
    using assms by (cases "rd_revisions db keys") (auto simp: flush_resource_keys_def fold_add_pending_change)
qed

lemma unflushed_key:
  "flush_resource_keys db keys d = (d', ms) \<Longrightarrow> pending_change key d \<Longrightarrow> pending_change key d'"
  by (auto simp: flush_resource_keys_def fold_add_pending_change split: option.splits)

lemma scan_event_changes:
  "handle_scan_event db now s e d = (d', ms) \<Longrightarrow> pending_change key d' = pending_change key d"
  by (auto simp: handle_scan_event_def publish_scan_finished_def pending_change_def Let_def split: if_splits scan_event.splits)

lemma change_kept:
  assumes "dispatch_step (db, now, input) d = (d', ms)" and p: "pending_change key d"
  shows "pending_change key d' \<or> announced key db ms"
proof (cases input)
  case (Command c)
  show ?thesis
  proof (cases c)
    case (ResourceChanged k)
    then show ?thesis
      using assms Command by (auto simp: dispatch_step_def handle_command_def add_pending_change split: option.splits)
  next
    case (ResourceChangedImmediate k)
    let ?d = "d\<lparr>pending_continue_watching := List.filter (\<lambda>x. x \<noteq> k) (pending_continue_watching d)\<rparr>"
    have f: "flush_resource_keys db [k] ?d = (d', ms)"
      using assms(1) Command ResourceChangedImmediate by (simp add: dispatch_step_def handle_command_def)
    show ?thesis
    proof (cases "key = k")
      case True
      then show ?thesis using flushed_key(1) [OF f] by simp
    next
      case False
      then have "pending_change key ?d" using p by (simp add: pending_change_def split: if_splits)
      then show ?thesis using unflushed_key [OF f] by blast
    qed
  next
    case (ScanEvent s e)
    then show ?thesis using assms Command scan_event_changes by (simp add: dispatch_step_def handle_command_def)
  qed
next
  case ResourceTick
  then have "flush_resource_changes db d = (d', ms)" using assms(1) by (simp add: dispatch_step_def)
  moreover have "pending_change key (d\<lparr>pending_resources := []\<rparr>) \<or> key \<in> set (pending_resources d)"
    using p by (auto simp: pending_change_def split: if_splits)
  ultimately show ?thesis
    using p flushed_key(1) unflushed_key by (fastforce simp: flush_resource_changes_def split: if_splits)
next
  case ScanTick
  then show ?thesis using assms by (auto simp: dispatch_step_def flush_scan_progress_def pending_change_def)
next
  case ContinueWatchingTick
  then have "flush_continue_watching_changes db d = (d', ms)" using assms(1) by (simp add: dispatch_step_def)
  moreover have "pending_change key (d\<lparr>pending_continue_watching := []\<rparr>) \<or> key \<in> set (pending_continue_watching d)"
    using p by (auto simp: pending_change_def split: if_splits)
  ultimately show ?thesis
    using p flushed_key(1) unflushed_key by (fastforce simp: flush_continue_watching_changes_def split: if_splits)
qed

lemma announced_mono: "announced key db ms \<Longrightarrow> set ms \<subseteq> set ns \<Longrightarrow> announced key db ns"
  unfolding announced_def by (elim exE conjE, intro exI conjI, assumption+) blast

lemma changes_kept:
  "dispatch_all xs d = (d', ms) \<Longrightarrow> pending_change key d \<Longrightarrow>
     pending_change key d' \<or> (\<exists>(db, now, input)\<in>set xs. announced key db ms)"
proof (induction xs arbitrary: d ms)
  case (Cons x xs)
  obtain db now input where x: "x = (db, now, input)" by (cases x) auto
  obtain d1 ms1 ms2 where 1: "dispatch_step (db, now, input) d = (d1, ms1)" and 2: "dispatch_all xs d1 = (d', ms2)"
    and ms: "ms = ms1 @ ms2"
    using Cons.prems(1) by (auto simp: x split: prod.splits)
  from change_kept [OF 1 Cons.prems(2)] show ?case
  proof
    assume "announced key db ms1"
    then have "announced key db ms" by (rule announced_mono) (simp add: ms)
    then show ?thesis by (auto simp: x)
  next
    assume "pending_change key d1"
    from Cons.IH [OF 2 this] show ?thesis
    proof
      assume "\<exists>(db, now, input)\<in>set xs. announced key db ms2"
      then obtain b t i where b: "(b, t, i) \<in> set xs" "announced key b ms2" by blast
      have "announced key b ms" by (rule announced_mono [OF b(2)]) (simp add: ms)
      then show ?thesis using b(1) by fastforce
    qed blast
  qed
qed simp

lemma next_tick_announces:
  assumes "pending_change key d" and "\<forall>keys. rd_revisions db keys \<noteq> None"
    and "dispatch_step (db, now, if is_continue_watching_key key then ContinueWatchingTick else ResourceTick) d = (d', ms)"
  shows "announced key db ms"
proof (cases "is_continue_watching_key key")
  case True
  then have k: "key \<in> set (pending_continue_watching d)" using assms(1) by (simp add: pending_change_def)
  then have "flush_resource_keys db (pending_continue_watching d) (d\<lparr>pending_continue_watching := []\<rparr>) = (d', ms)"
    using assms(3) True by (auto simp: dispatch_step_def flush_continue_watching_changes_def split: if_splits)
  then show ?thesis using flushed_key(2) [OF _ k] assms(2) by blast
next
  case False
  then have k: "key \<in> set (pending_resources d)" using assms(1) by (simp add: pending_change_def)
  then have "flush_resource_keys db (pending_resources d) (d\<lparr>pending_resources := []\<rparr>) = (d', ms)"
    using assms(3) False by (auto simp: dispatch_step_def flush_resource_changes_def split: if_splits)
  then show ?thesis using flushed_key(2) [OF _ k] assms(2) by blast
qed

text \<open>
  C33. No change of a resource is forgotten, however often the database fails: after the notice of a
  change the key waits until its revision was loaded and announced to those who may know of it, and the
  next tick at which the database answers announces it.
\<close>

theorem changes_are_announced:
  assumes "revoked_session_key key = None" "session_user_id key = None"
    and "dispatch_all ((db, now, Command (ResourceChanged key)) # later) d = (d', ms)"
  shows "(\<exists>(db, t, input)\<in>set later. announced key db ms)
    \<or> pending_change key d'
      \<and> (\<forall>db' t d'' ns. (\<forall>keys. rd_revisions db' keys \<noteq> None) \<longrightarrow>
           dispatch_step (db', t, if is_continue_watching_key key then ContinueWatchingTick else ResourceTick) d' = (d'', ns)
           \<longrightarrow> announced key db' ns)"
proof -
  have "dispatch_step (db, now, Command (ResourceChanged key)) d = (add_pending key d, [])"
    using assms(1,2) by (simp add: dispatch_step_def handle_command_def)
  then have "dispatch_all later (add_pending key d) = (d', ms)" using assms(3) by (simp split: prod.splits)
  then show ?thesis
    using changes_kept [of later "add_pending key d" d' ms key] next_tick_announces [of key d']
    by (auto simp: add_pending_change)
qed

definition demo_key :: ustr where
  "demo_key = lit ''library:7:catalog''"

lemma demo_key_kind:
  "revoked_session_key demo_key = None" "session_user_id demo_key = None" "\<not> is_continue_watching_key demo_key"
  "visibility_for_resource demo_key = Some (LibraryTo 7)"
  by (simp_all add: demo_key_def revoked_session_key_def session_user_id_def strip_prefix_def starts_with_def lit_def
    is_continue_watching_key_def ends_with_def visibility_for_resource_def parse_signed_def parse_digits_def
    digits_val_def is_ascii_digit_def opt_filter_def)

lemma demo_db_revisions: "rd_revisions demo_db keys = Some (map (\<lambda>k. (k, 1)) keys)"
  by (simp add: demo_db_def)

theorem changes_are_announced_witness:
  "(\<exists>(db, t, input)\<in>set [(demo_db, 500 :: nat, ResourceTick)]. announced demo_key db [resources_changed (LibraryTo 7) [(demo_key, 1)]])
   \<or> pending_change demo_key new_dispatcher"
proof -
  have notice: "dispatch_step (demo_db, 0, Command (ResourceChanged demo_key)) new_dispatcher
      = (new_dispatcher\<lparr>pending_resources := [demo_key]\<rparr>, [])"
    by (simp add: dispatch_step_def handle_command_def demo_key_kind add_pending_def add_key_def new_dispatcher_def)
  have tick: "dispatch_step (demo_db, 500, ResourceTick) (new_dispatcher\<lparr>pending_resources := [demo_key]\<rparr>)
      = (new_dispatcher, [resources_changed (LibraryTo 7) [(demo_key, 1)]])"
    by (simp add: dispatch_step_def flush_resource_changes_def flush_resource_keys_def demo_db_revisions demo_key_kind
      new_dispatcher_def)
  have "dispatch_all ((demo_db, 0, Command (ResourceChanged demo_key)) # [(demo_db, 500, ResourceTick)])
      new_dispatcher = (new_dispatcher, [resources_changed (LibraryTo 7) [(demo_key, 1)]])"
    by (simp add: notice tick)
  from changes_are_announced [OF demo_key_kind(1,2) this] show ?thesis
    by (rule disj_forward) (assumption, erule conjunct1)
qed

subsection \<open>Who is told\<close>

lemma parse_signed_nat_text:
  assumes "n < 2 ^ (w - 1)"
  shows "parse_signed w (nat_text n) = Some (int n)"
proof -
  obtain c cs where c: "nat_text n = c # cs" "is_ascii_digit c" using nat_text_head by blast
  then have "c \<noteq> 45" "c \<noteq> 43" by (auto simp: is_ascii_digit_def)
  moreover have "parse_digits (c # cs) = Some n" using parse_digits_nat_text [of n] c(1) by simp
  ultimately show ?thesis using assms by (simp add: parse_signed_def c(1) opt_filter_def)
qed

text \<open>
  The resources of which the program announces changes, with the keys that its triggers and
  statements write for them, and who may know of each.
\<close>

datatype resource = AdminResource ustr | LibraryResource int ustr | UserResource int ustr

fun resource_key :: "resource \<Rightarrow> ustr" where
  "resource_key (AdminResource what) = lit ''admin:'' @ what"
| "resource_key (LibraryResource l what) = lit ''library:'' @ int_text l @ lit '':'' @ what"
| "resource_key (UserResource u what) = lit ''user:'' @ int_text u @ lit '':'' @ what"

definition id_ok :: "int \<Rightarrow> bool" where
  "id_ok i \<longleftrightarrow> 0 \<le> i \<and> i < 2 ^ 63"

fun resource_ok :: "resource \<Rightarrow> bool" where
  "resource_ok (AdminResource what) = True"
| "resource_ok (LibraryResource l what) = id_ok l"
| "resource_ok (UserResource u what) = id_ok u"

fun may_know :: "user_profile \<Rightarrow> resource \<Rightarrow> bool" where
  "may_know user (AdminResource what) = profile_is_admin user"
| "may_know user (LibraryResource l what) = can_access_library user l"
| "may_know user (UserResource u what) = (user_id (profile_user user) = u)"

text \<open>A key says nothing to the user of a resource that he may not know of.\<close>

definition discreet :: "user_profile \<Rightarrow> ustr \<Rightarrow> bool" where
  "discreet user key \<longleftrightarrow> (\<forall>r. resource_ok r \<and> resource_key r = key \<longrightarrow> may_know user r)"

text \<open>The keys of the snapshot that a client loads (\<open>handlers/realtime.rs\<close>) are such keys.\<close>

definition resource_keys_for_user :: "user_profile \<Rightarrow> int list \<Rightarrow> ustr list" where
  "resource_keys_for_user user visible =
     map (\<lambda>what. lit ''user:'' @ int_text (user_id (profile_user user)) @ lit what)
         (['':profile'', '':continue-watching'', '':notifications''])
     @ (if profile_is_admin user then map lit [''admin:libraries'', ''admin:users'', ''admin:notifications'']
        else [lit ''user:'' @ int_text (user_id (profile_user user)) @ lit '':libraries''])
     @ concat (map (\<lambda>l. map (\<lambda>what. lit ''library:'' @ int_text l @ lit what)
         ['':settings'', '':catalog'', '':scan'', '':notifications'']) visible)"

lemma snapshot_keys_known:
  assumes "\<And>l. l \<in> set visible \<Longrightarrow> can_access_library user l" and "key \<in> set (resource_keys_for_user user visible)"
  shows "\<exists>r. resource_key r = key \<and> may_know user r"
proof -
  let ?i = "user_id (profile_user user)"
  have known: "\<exists>r. resource_key r = lit ''user:'' @ int_text ?i @ lit (CHR '':'' # what) \<and> may_know user r"
    "profile_is_admin user \<Longrightarrow> \<exists>r. resource_key r = lit (''admin:'' @ what) \<and> may_know user r"
    "can_access_library user l \<Longrightarrow> \<exists>r. resource_key r = lit ''library:'' @ int_text l @ lit (CHR '':'' # what) \<and> may_know user r"
    for what l
    by (rule exI [of _ "UserResource ?i (lit what)"], simp add: lit_def)
      (rule exI [of _ "AdminResource (lit what)"], simp add: lit_def,
       rule exI [of _ "LibraryResource l (lit what)"], simp add: lit_def)
  show ?thesis
    using assms known(1) [of "''profile''"] known(1) [of "''continue-watching''"] known(1) [of "''notifications''"] known(1) [of "''libraries''"]
      known(2) [of "''libraries''"] known(2) [of "''users''"] known(2) [of "''notifications''"]
      known(3) [of _ "''settings''"] known(3) [of _ "''catalog''"] known(3) [of _ "''scan''"] known(3) [of _ "''notifications''"]
    by (auto simp: resource_keys_for_user_def split: if_splits)
qed

lemma id_text: "id_ok i \<Longrightarrow> parse_i64 (int_text i) = Some i" "id_ok i \<Longrightarrow> 58 \<notin> set (int_text i)"
proof -
  assume i: "id_ok i"
  then show "parse_i64 (int_text i) = Some i"
    using parse_signed_nat_text [of "nat i" 64] by (simp add: id_ok_def int_text_def nat_less_iff)
  show "58 \<notin> set (int_text i)"
    using i nat_text_digits [of "nat i"] by (auto simp: id_ok_def int_text_def list_all_iff is_ascii_digit_def)
qed

lemma scope_id_split:
  assumes "58 \<notin> set a" "id_ok i"
  shows "split_by (\<lambda>c. c = 58) (a @ 58 # int_text i @ 58 # b) = a # int_text i # split_by (\<lambda>c. c = 58) b"
proof -
  have split: "split_by (\<lambda>c. c = 58) (x @ 58 # y) = x # split_by (\<lambda>c. c = 58) y" if "58 \<notin> set x" for x y :: ustr
    using that by (induction x) auto
  show ?thesis using split [OF assms(1)] split [OF id_text(2) [OF assms(2)]] by simp
qed

lemma resource_visibility:
  assumes "resource_ok r"
  shows "visibility_for_resource (resource_key r) = Some (case r of
      AdminResource what \<Rightarrow> AdminTo | LibraryResource l what \<Rightarrow> LibraryTo l | UserResource u what \<Rightarrow> UserTo u)"
proof (cases r)
  case (LibraryResource l what)
  have "split_by (\<lambda>c. c = 58) (lit ''library:'' @ int_text l @ lit '':'' @ what) = lit ''library'' # int_text l # split_by (\<lambda>c. c = 58) what"
    using scope_id_split [of "lit ''library''" l what] assms LibraryResource by (simp add: lit_def)
  then show ?thesis
    using LibraryResource assms id_text(1) [of l] by (simp add: visibility_for_resource_def) (simp add: starts_with_def lit_def)
next
  case (UserResource u what)
  have "split_by (\<lambda>c. c = 58) (lit ''user:'' @ int_text u @ lit '':'' @ what) = lit ''user'' # int_text u # split_by (\<lambda>c. c = 58) what"
    using scope_id_split [of "lit ''user''" u what] assms UserResource by (simp add: lit_def)
  then show ?thesis
    using UserResource assms id_text(1) [of u] by (simp add: visibility_for_resource_def) (simp add: starts_with_def lit_def)
qed (simp add: visibility_for_resource_def starts_with_def)

lemma routed_discreet:
  assumes "visibility_for_resource key = Some (ms_visibility m)" and "is_visible_to m user session"
  shows "discreet user key"
  unfolding discreet_def
proof (intro allI impI; elim conjE)
  fix r assume r: "resource_ok r" "resource_key r = key"
  have "visibility_for_resource key = Some (case r of
      AdminResource what \<Rightarrow> AdminTo | LibraryResource l what \<Rightarrow> LibraryTo l | UserResource u what \<Rightarrow> UserTo u)"
    using resource_visibility [OF r(1)] by (simp only: r(2))
  then show "may_know user r" using assms by (cases r) (simp_all add: is_visible_to_def)
qed

text \<open>
  What is put in: the database answers only the keys it is asked for, and the scans that events and rows tell of
  are scans of their library.
\<close>

definition update_in_library :: "(int \<Rightarrow> int) \<Rightarrow> scan_update \<Rightarrow> bool" where
  "update_in_library lib u \<longleftrightarrow> sc_library (su_job u) = lib (sc_id (su_job u))"

definition item_of_scan :: "(int \<Rightarrow> int) \<Rightarrow> int \<Rightarrow> scan_item \<Rightarrow> bool" where
  "item_of_scan lib i item \<longleftrightarrow> si_scan item = i \<and> si_library item = lib i"

fun event_in_library :: "(int \<Rightarrow> int) \<Rightarrow> scan_event \<Rightarrow> bool" where
  "event_in_library lib (ScanUpdated u) = update_in_library lib u"
| "event_in_library lib (ScanCheckpoint u) = update_in_library lib u"
| "event_in_library lib (ScanFinished u) = update_in_library lib u"
| "event_in_library lib (ScanItemUpdated item) = item_of_scan lib (si_scan item) item"

definition db_truthful :: "(int \<Rightarrow> int) \<Rightarrow> realtime_db \<Rightarrow> bool" where
  "db_truthful lib db \<longleftrightarrow> (\<forall>i r. rd_scan db i = Some (Some r) \<longrightarrow> sc_id r = i \<and> sc_library r = lib i)
     \<and> (\<forall>keys revisions. rd_revisions db keys = Some revisions \<longrightarrow> fst ` set revisions \<subseteq> set keys)"

definition truthful :: "(int \<Rightarrow> int) \<Rightarrow> realtime_db \<times> nat \<times> dispatcher_input \<Rightarrow> bool" where
  "truthful lib x \<longleftrightarrow> db_truthful lib (fst x)
     \<and> (\<forall>s e. snd (snd x) = Command (ScanEvent s e) \<longrightarrow> event_in_library lib e)"

definition batch_in_library :: "(int \<Rightarrow> int) \<Rightarrow> int \<Rightarrow> scan_batch \<Rightarrow> bool" where
  "batch_in_library lib i b \<longleftrightarrow> (\<forall>u. sb_job b = Some u \<longrightarrow> sc_id (su_job u) = i \<and> sc_library (su_job u) = lib i)
     \<and> (\<forall>item\<in>snd ` set (sb_items b). item_of_scan lib i item)"

definition scans_in_library :: "(int \<Rightarrow> int) \<Rightarrow> dispatcher \<Rightarrow> bool" where
  "scans_in_library lib d \<longleftrightarrow> (\<forall>(i, b)\<in>set (pending_scans d). batch_in_library lib i b)"

text \<open>Where a message goes that an input makes.\<close>

definition routed :: "(int \<Rightarrow> int) \<Rightarrow> dispatcher_input \<Rightarrow> realtime_data realtime_message \<Rightarrow> bool" where
  "routed lib input m \<longleftrightarrow> (case ms_data m of
       ResourcesChangedData changes \<Rightarrow> (\<forall>(key, rev)\<in>set changes. visibility_for_resource key = Some (ms_visibility m))
     | ScanProgressData u items changes \<Rightarrow>
         ms_visibility m = LibraryTo (lib (sc_id (su_job u))) \<and> update_in_library lib u
         \<and> (\<forall>item\<in>set items. item_of_scan lib (sc_id (su_job u)) item)
         \<and> (\<forall>(key, rev)\<in>set changes. \<exists>what. key = resource_key (LibraryResource (lib (sc_id (su_job u))) what))
     | SessionInvalidatedData reason \<Rightarrow> (\<exists>key. input = Command (ResourceChanged key)
         \<and> (revoked_session_key key = Some key \<and> ms_visibility m = SessionTo key
            \<or> (\<exists>u. session_user_id key = Some u \<and> ms_visibility m = UserTo u)))
     | ResyncRequiredData reason \<Rightarrow> True)"

lemma flush_keys_routed: "flush_resource_keys db keys d = (d', ms) \<Longrightarrow> m \<in> set ms \<Longrightarrow> routed lib input m"
  using group_revisions_members [where g = "[]"]
  by (fastforce simp: flush_resource_keys_def routed_def resources_changed_def split: option.splits)

lemma scan_revisions_keys:
  assumes "db_truthful lib db" and "(key, r) \<in> set (load_scan_revisions db l notified)"
  shows "\<exists>what. key = resource_key (LibraryResource l what)"
proof -
  let ?key = "\<lambda>what. lit ''library:'' @ int_text l @ lit what"
  define keys where "keys = [?key '':catalog'', ?key '':scan''] @ (if notified then [?key '':notifications''] else [])"
  have keys: "set keys \<subseteq> {?key '':catalog'', ?key '':scan'', ?key '':notifications''}" by (auto simp: keys_def simp del: lit_simps)
  have "load_scan_revisions db l notified = (case rd_revisions db keys of None \<Rightarrow> [] | Some revisions \<Rightarrow> sort_key fst revisions)"
    unfolding load_scan_revisions_def keys_def Let_def by (rule refl)
  then obtain revisions where r: "rd_revisions db keys = Some revisions" "(key, r) \<in> set revisions"
    using assms(2) by (cases "rd_revisions db keys") simp_all
  have "key \<in> set keys" using assms(1) r unfolding db_truthful_def by force
  then have "key \<in> {?key '':catalog'', ?key '':scan'', ?key '':notifications''}" using keys by blast
  moreover have "?key (CHR '':'' # what) = resource_key (LibraryResource l (lit what))" for what
    by (simp add: lit_def)
  ultimately show ?thesis by (metis empty_iff insert_iff)
qed

lemma batch_routed:
  assumes "db_truthful lib db" "batch_in_library lib i b" "m \<in> set (publish_scan_batch db i b fin ch)"
  shows "routed lib input m"
proof -
  obtain u where u: "sb_job b = Some u \<or> (\<exists>r. rd_scan db i = Some (Some r) \<and> u = \<lparr>su_job = r, su_phase = None\<rparr>)"
    and m: "ms_data m = ScanProgressData u (sort_key si_index (map snd (sb_items b)))
        (if ch then load_scan_revisions db (sc_library (su_job u)) fin else [])" "ms_visibility m = LibraryTo (sc_library (su_job u))"
    using assms(3) by (auto simp: publish_scan_batch_def Let_def split: option.splits)
  have "sc_id (su_job u) = i" "sc_library (su_job u) = lib i"
    using u assms(1,2) by (auto simp: batch_in_library_def db_truthful_def)
  then show ?thesis
    using assms(2) scan_revisions_keys [OF assms(1)]
    by (auto simp: routed_def m update_in_library_def batch_in_library_def split: if_splits)
qed

lemma no_batch_yet: "batch_in_library lib i empty_batch"
  by (simp add: batch_in_library_def empty_batch_def)

lemma pending_batch_in_library: "scans_in_library lib d \<Longrightarrow> batch_in_library lib i (pending_batch i d)"
  by (auto simp: pending_batch_def scans_in_library_def no_batch_yet split: option.splits dest!: map_of_SomeD)

lemma batch_with_job: "batch_in_library lib i b \<Longrightarrow> sc_id (su_job u) = i \<Longrightarrow> update_in_library lib u
    \<Longrightarrow> batch_in_library lib i (b\<lparr>sb_job := Some u\<rparr>)"
  by (simp add: batch_in_library_def update_in_library_def)

lemma batch_with_item:
  assumes "batch_in_library lib i b" "item_of_scan lib i item"
  shows "batch_in_library lib i (b\<lparr>sb_items := AList.update k item (sb_items b)\<rparr>)"
  using assms update_set [of k item "sb_items b"] unfolding batch_in_library_def by fastforce

lemma scans_keep:
  assumes "scans_in_library lib d" "batch_in_library lib i b"
  shows "pending_scans d' = AList.update i b (pending_scans d) \<Longrightarrow> scans_in_library lib d'"
    and "pending_scans d' = AList.delete i (pending_scans d) \<Longrightarrow> scans_in_library lib d'"
  using assms update_set [of i b "pending_scans d"] delete_set [of i "pending_scans d"] unfolding scans_in_library_def by auto

lemma handle_routed:
  assumes "handle_scan_event db now s e d = (d', ms)" and db: "db_truthful lib db" and e: "event_in_library lib e"
    and ok: "scans_in_library lib d"
  shows "scans_in_library lib d'" and "m \<in> set ms \<Longrightarrow> routed lib input m"
proof -
  let ?i = "event_scan e"
  note b = pending_batch_in_library [OF ok, of ?i]
  have "scans_in_library lib d' \<and> (\<forall>m\<in>set ms. routed lib input m)"
  proof (cases "scan_event_is_stale d ?i s")
    case True
    then show ?thesis using assms(1) ok by (simp add: handle_scan_event_def Let_def)
  next
    case False
    show ?thesis
    proof (cases e)
      case (ScanUpdated u)
      then have "batch_in_library lib ?i ((pending_batch ?i d)\<lparr>sb_job := Some u\<rparr>)"
        using e by (intro batch_with_job [OF b]) (simp_all add: event_scan_def)
      then show ?thesis
        using assms(1) False ScanUpdated scans_keep(1) [OF ok] by (auto simp: handle_scan_event_def Let_def)
    next
      case (ScanCheckpoint u)
      then have "batch_in_library lib ?i ((pending_batch ?i d)\<lparr>sb_job := Some u\<rparr>)"
        using e by (intro batch_with_job [OF b]) (simp_all add: event_scan_def)
      then show ?thesis
        using assms(1) False ScanCheckpoint scans_keep(2) [OF ok b] batch_routed [OF db]
        by (auto simp: handle_scan_event_def Let_def)
    next
      case (ScanItemUpdated item)
      then have "batch_in_library lib ?i ((pending_batch ?i d)\<lparr>sb_items := AList.update (si_key item) item (sb_items (pending_batch ?i d))\<rparr>)"
        using e by (intro batch_with_item [OF b]) (simp_all add: event_scan_def)
      then show ?thesis
        using assms(1) False ScanItemUpdated scans_keep(1) [OF ok] by (auto simp: handle_scan_event_def Let_def)
    next
      case (ScanFinished u)
      have i: "event_scan (ScanFinished u) = sc_id (su_job u)" by (simp add: event_scan_def)
      have "batch_in_library lib ?i ((pending_batch ?i d)\<lparr>sb_job := Some u\<rparr>)"
        using e ScanFinished by (intro batch_with_job [OF b]) (simp_all add: event_scan_def)
      moreover have "pending_batch ?i (d\<lparr>finished_scan_jobs := x\<rparr>) = pending_batch ?i d" for x by (simp add: pending_batch_def)
      ultimately show ?thesis
        using assms(1) False ScanFinished scans_keep(2) [OF ok b] batch_routed [OF db]
        by (auto simp: handle_scan_event_def publish_scan_finished_def i Let_def)
    qed
  qed
  then show "scans_in_library lib d'" and "m \<in> set ms \<Longrightarrow> routed lib input m" by blast+
qed

lemma revoked_key: "revoked_session_key key = Some k \<Longrightarrow> k = key"
  by (auto simp: revoked_session_key_def split: option.splits if_splits)

lemma step_routed:
  assumes "dispatch_step (db, now, input) d = (d', ms)" and "truthful lib (db, now, input)" and ok: "scans_in_library lib d"
  shows "scans_in_library lib d' \<and> (\<forall>m\<in>set ms. routed lib input m)"
  using assms(1)
proof (cases rule: dispatch_step_cases)
  case 1
  have "scans_in_library lib d'" using 1(1) ok by (simp add: scans_in_library_def)
  moreover have "routed lib input m" if m: "m \<in> set ms" for m
  proof (cases input)
    case (Command c)
    show ?thesis
    proof (cases c)
      case (ResourceChanged key)
      then show ?thesis
        using assms(1) m Command revoked_key [of key]
        by (auto simp: dispatch_step_def handle_command_def routed_def session_invalidated_def split: option.splits)
    next
      case (ResourceChangedImmediate key)
      then show ?thesis using assms(1) m Command flush_keys_routed by (auto simp: dispatch_step_def handle_command_def)
    next
      case (ScanEvent s e)
      then show ?thesis
        using assms handle_routed(2) [OF _ _ _ ok] m Command by (auto simp: dispatch_step_def handle_command_def truthful_def)
    qed
  next
    case ScanTick
    then have "\<exists>i b. (i, b) \<in> set (pending_scans d) \<and> m \<in> set (publish_scan_batch db i b False False)"
      using assms(1) m by (fastforce simp: dispatch_step_def flush_scan_progress_def)
    then show ?thesis using batch_routed assms(2) ok by (fastforce simp: truthful_def scans_in_library_def)
  qed (use assms(1) m flush_keys_routed in \<open>auto simp: dispatch_step_def flush_resource_changes_def
      flush_continue_watching_changes_def split: if_splits\<close>)
  ultimately show ?thesis by blast
next
  case 2
  have "routed lib input m" if m: "m \<in> set ms" for m
  proof -
    obtain i b where "(i, b) \<in> set (pending_scans d)" "m \<in> set (publish_scan_batch db i b False False)"
      using 2(2) m by (fastforce simp: flush_scan_progress_def)
    then show ?thesis using batch_routed assms(2) ok by (fastforce simp: truthful_def scans_in_library_def)
  qed
  moreover have "scans_in_library lib d'" using 2(2) by (auto simp: flush_scan_progress_def scans_in_library_def)
  ultimately show ?thesis by blast
next
  case (3 s e)
  then show ?thesis using handle_routed [OF 3(2) _ _ ok] assms(2) by (auto simp: truthful_def)
qed

lemma dispatch_all_routed:
  "dispatch_all xs d = (d', ms) \<Longrightarrow> \<forall>x\<in>set xs. truthful lib x \<Longrightarrow> scans_in_library lib d \<Longrightarrow> m \<in> set ms
     \<Longrightarrow> \<exists>(db, now, input)\<in>set xs. routed lib input m"
proof (induction xs arbitrary: d ms)
  case (Cons x xs)
  obtain db now input where x: "x = (db, now, input)" by (cases x) auto
  obtain d1 ms1 ms2 where 1: "dispatch_step (db, now, input) d = (d1, ms1)" and 2: "dispatch_all xs d1 = (d', ms2)"
    and ms: "ms = ms1 @ ms2"
    using Cons.prems(1) by (auto simp: x split: prod.splits)
  have s: "scans_in_library lib d1 \<and> (\<forall>m\<in>set ms1. routed lib input m)"
    using step_routed [OF 1 _ Cons.prems(3)] Cons.prems(2) by (simp add: x)
  show ?case
  proof (cases "m \<in> set ms1")
    case True
    then show ?thesis using s by (auto simp: x)
  next
    case False
    then show ?thesis using Cons.IH [OF 2] s Cons.prems(2,4) by (auto simp: ms)
  qed
qed simp

text \<open>The notice of a revoked session names the session, that of a changed account names the user.\<close>

definition notice_for :: "user_profile \<Rightarrow> ustr \<Rightarrow> ustr \<Rightarrow> bool" where
  "notice_for user session key \<longleftrightarrow> key = session \<or> starts_with (lit ''session:user:'') key
     \<and> (\<forall>u. id_ok u \<and> key = lit ''session:user:'' @ int_text u \<longrightarrow> u = user_id (profile_user user))"

lemma session_user_notice: "session_user_id key = Some (user_id (profile_user user)) \<Longrightarrow> notice_for user session key"
  using id_text(1) by (auto simp: session_user_id_def notice_for_def strip_prefix_def bind_eq_Some_conv split: if_splits)

text \<open>
  C26. Whatever the dispatcher is told, in any order, a message that a user is shown is discreet: a change
  names no library that the user may not see, no other user and, unless he is an administrator, no resource of the
  administration; the progress of a scan is that of a scan of one of his libraries, with items of this scan only
  and changes that are discreet; and the end of a session answers a notice of this session or this user. (A scan
  belongs to one library, in the database as in its events, and the database answers the keys it is asked for.)
\<close>

theorem messages_are_confidential:
  assumes "dispatch_all xs new_dispatcher = (d', ms)" and "\<forall>x\<in>set xs. truthful lib x" and "m \<in> set ms"
    and "is_visible_to m user session"
  shows "case ms_data m of
      ResourcesChangedData changes \<Rightarrow> list_all (\<lambda>(key, rev). discreet user key) changes
    | ScanProgressData u items changes \<Rightarrow> can_access_library user (lib (sc_id (su_job u)))
        \<and> sc_library (su_job u) = lib (sc_id (su_job u))
        \<and> list_all (item_of_scan lib (sc_id (su_job u))) items
        \<and> (id_ok (lib (sc_id (su_job u))) \<longrightarrow> list_all (\<lambda>(key, rev). discreet user key) changes)
    | SessionInvalidatedData reason \<Rightarrow>
        list_ex (\<lambda>(db, now, input). case input of Command (ResourceChanged key) \<Rightarrow> notice_for user session key | _ \<Rightarrow> False) xs
    | ResyncRequiredData reason \<Rightarrow> True"
proof -
  obtain db now input where x: "(db, now, input) \<in> set xs" and r: "routed lib input m"
    using dispatch_all_routed [OF assms(1,2) _ assms(3)] by (auto simp: scans_in_library_def new_dispatcher_def)
  show ?thesis
  proof (cases "ms_data m")
    case (ResourcesChangedData changes)
    then show ?thesis using r routed_discreet [OF _ assms(4)] by (auto simp: routed_def list_all_iff)
  next
    case (ScanProgressData u items changes)
    let ?l = "lib (sc_id (su_job u))"
    have "visibility_for_resource (resource_key (LibraryResource ?l what)) = Some (ms_visibility m)" if "id_ok ?l" for what
      using resource_visibility [of "LibraryResource ?l what"] that r ScanProgressData by (simp add: routed_def)
    then show ?thesis
      using r ScanProgressData assms(4) routed_discreet [OF _ assms(4)]
      by (fastforce simp: routed_def list_all_iff update_in_library_def is_visible_to_def)
  next
    case (SessionInvalidatedData reason)
    then obtain key where key: "input = Command (ResourceChanged key)" and "notice_for user session key"
      using r assms(4) session_user_notice [of _ user session] by (fastforce simp: routed_def is_visible_to_def notice_for_def)
    then show ?thesis using SessionInvalidatedData x by (force simp: list_ex_iff)
  qed simp
qed

text \<open>An instance: the end of a scan of library 7 with one item, and a user with a grant of the library.\<close>

definition demo_member :: user_profile where
  "demo_member = \<lparr>profile_user = \<lparr>user_id = 5, username = [], nickname = [], role = Viewer, is_enabled = True,
     created_at = 0, updated_at = 0\<rparr>, library_ids = [7]\<rparr>"

definition demo_scan_run :: "(realtime_db \<times> nat \<times> dispatcher_input) list" where
  "demo_scan_run = [(demo_db, 0, Command (ScanEvent 1 (ScanItemUpdated demo_scan_item))),
     (demo_db, 1, Command (ScanEvent 2 (ScanFinished demo_ended)))]"

lemma demo_truthful: "\<forall>x\<in>set demo_scan_run. truthful (\<lambda>_. 7) x"
  by (simp add: demo_scan_run_def truthful_def db_truthful_def demo_db_def update_in_library_def item_of_scan_def
    demo_ended_def demo_ended_scan_def demo_scan_item_def image_image)

lemma demo_scan_message:
  "snd (dispatch_all demo_scan_run new_dispatcher) = [\<lparr>ms_event = lit ''scan.finished'',
     ms_data = ScanProgressData demo_ended [demo_scan_item] (load_scan_revisions demo_db 7 True), ms_visibility = LibraryTo 7\<rparr>]"
  by (simp add: demo_scan_run_def dispatch_eval publish_scan_batch_def) (simp add: demo_ended_def demo_ended_scan_def demo_scan_item_def)

theorem messages_are_confidential_witness:
  "list_all (\<lambda>m. is_visible_to m demo_member [] \<and> (case ms_data m of
       ScanProgressData u items changes \<Rightarrow> list_all (\<lambda>item. can_access_library demo_member (si_library item)) items
         \<and> length items = 1 \<and> length changes = 3 \<and> list_all (\<lambda>(key, rev). discreet demo_member key) changes
     | _ \<Rightarrow> False)) (snd (dispatch_all demo_scan_run new_dispatcher))"
proof -
  let ?m = "\<lparr>ms_event = lit ''scan.finished'', ms_data = ScanProgressData demo_ended [demo_scan_item] (load_scan_revisions demo_db 7 True),
    ms_visibility = LibraryTo 7\<rparr>"
  have seen: "is_visible_to ?m demo_member []"
    by (simp add: is_visible_to_def can_access_library_def library_visibility_def profile_is_admin_def demo_member_def)
  have "?m \<in> set (snd (dispatch_all demo_scan_run new_dispatcher))" by (simp add: demo_scan_message)
  from messages_are_confidential [OF surjective_pairing demo_truthful this seen]
  have "can_access_library demo_member 7" "list_all (\<lambda>(key, rev). discreet demo_member key) (load_scan_revisions demo_db 7 True)"
    by (simp_all add: id_ok_def)
  moreover have "si_library demo_scan_item = 7" by (simp add: demo_scan_item_def)
  moreover have "length (load_scan_revisions demo_db 7 True) = 3"
    by (simp add: load_scan_revisions_def demo_db_revisions Let_def)
  ultimately show ?thesis using seen by (simp add: demo_scan_message)
qed

subsection \<open>The end of a session\<close>

text \<open>The keys that authentication gives to the sessions of the two kinds.\<close>

definition session_keys :: "ustr set" where
  "session_keys = {lit ''session:web:'' @ h | h. length h = 64 \<and> list_all is_lower_hex h}
     \<union> {lit ''session:native:'' @ int_text i | i. 0 < i \<and> i < 2 ^ 63}"

text \<open>
  When the notice comes that a session was revoked, exactly the streams of that session are shown
  \<open>session.invalidated\<close>, which ends them; this holds for every key that authentication gives to a session.
\<close>

theorem revocation_ends_streams:
  assumes "key \<in> session_keys"
  shows "\<exists>m. dispatch_step (db, now, Command (ResourceChanged key)) d = (d, [m])
    \<and> closes_stream m \<and> (\<forall>user session. is_visible_to m user session \<longleftrightarrow> session = key)"
proof -
  have "revoked_session_key key = Some key"
    using assms unfolding session_keys_def
  proof (elim UnE CollectE exE conjE)
    fix h assume h: "key = lit ''session:web:'' @ h" "length h = 64" "list_all is_lower_hex h"
    have "utf8_width c = 1" if "c \<in> set h" for c
      using h(3) that by (auto simp: list_all_iff is_lower_hex_def is_ascii_digit_def utf8_width_def)
    then have "map utf8_width h = replicate (length h) 1" by (simp add: map_eq_conv [symmetric] map_replicate_const cong: map_cong)
    then have "byte_len h = 64" using h(2) by (simp add: byte_len_def sum_list_replicate)
    then show ?thesis using h by (simp add: revoked_session_key_def strip_prefix_def starts_with_def)
  next
    fix i :: int assume i: "key = lit ''session:native:'' @ int_text i" "0 < i" "i < 2 ^ 63"
    have "parse_i64 (int_text i) = Some i"
      using parse_signed_nat_text [of "nat i" 64] i(2,3) by (simp add: int_text_def nat_less_iff)
    then show ?thesis
      using i by (simp add: revoked_session_key_def strip_prefix_def starts_with_def lit_def)
  qed
  then show ?thesis
    by (auto simp: dispatch_step_def handle_command_def session_invalidated_def closes_stream_def is_visible_to_def)
qed

theorem revocation_ends_streams_witness:
  "\<exists>m. dispatch_step (demo_db, 0, Command (ResourceChanged (lit ''session:native:'' @ int_text 3))) new_dispatcher = (new_dispatcher, [m])
    \<and> closes_stream m \<and> (\<forall>user session. is_visible_to m user session \<longleftrightarrow> session = lit ''session:native:'' @ int_text 3)"
  by (rule revocation_ends_streams) (auto simp: session_keys_def)

end
