(* ===== verification/Media_Store.thy ===== *)
theory Media_Store
  imports Scan_Jobs
begin

text \<open>
  The tables of media items, their files, seasons and episodes, and of what users have watched
  (\<open>migrations/0001_init.sql\<close>), with the entries that a scan writes (\<open>mova-db/src/media_items.rs\<close>).
  Of a file the columns that a probe fills are one list; its tracks are left out, and so are the
  documents, ratings and remote snapshots of an item, lengths of columns and the times at which rows
  change. A statement that leaves the tables in violation of their constraints fails, and with it the
  transaction; the reference from a user's progress to the last file played is checked at the commit.
\<close>

datatype media_error =
    RowsViolated | ReferenceViolated | MissingNumber | FileVanished | TypeChanged
  | NotCommitted | CoordinatesChanged | WrongLibrary | EmptyGroup | UnknownType | ScanFault job_error

subsection \<open>Items\<close>

datatype item_type = MovieItem | SeriesItem | EpisodeItem

text \<open>What is shown of an item and decides nothing about its place.\<close>

record item_details =
  dt_original_title :: "ustr option"
  dt_sort_title :: "ustr option"
  dt_remote_type :: "ustr option"
  dt_country :: "ustr option"
  dt_genres :: "ustr option"
  dt_studio :: "ustr option"
  dt_overview :: "ustr option"
  dt_poster :: "ustr option"
  dt_backdrop :: "ustr option"
  dt_logo :: "ustr option"
  dt_tagline :: "ustr option"
  dt_premiere :: "int option"
  dt_rating :: "ustr option"

record media_item_row =
  mi_id :: int
  mi_library :: int
  mi_type :: item_type
  mi_title :: ustr
  mi_source_title :: ustr
  mi_provider :: "ustr option"
  mi_provider_item :: "ustr option"
  mi_status :: ustr
  mi_failure :: "ustr option"
  mi_year :: "int option"
  mi_details :: item_details

definition blank :: "ustr \<Rightarrow> bool" where
  "blank s = list_all (\<lambda>c. c = 32) s"

definition METADATA_STATUS_MATCHED :: ustr where
  "METADATA_STATUS_MATCHED = lit ''matched''"

definition metadata_statuses :: "ustr list" where
  "metadata_statuses = map lit [''pending'', ''matched'', ''unmatched'', ''failed'', ''skipped'']"

definition item_row_ok :: "media_item_row \<Rightarrow> bool" where
  "item_row_ok r =
     (mi_status r \<in> set metadata_statuses
      \<and> (dt_remote_type (mi_details r) = None \<or> dt_remote_type (mi_details r) \<in> {Some (lit ''movie''), Some (lit ''series'')})
      \<and> (mi_provider_item r = None \<or> mi_provider r \<noteq> None)
      \<and> (case mi_provider_item r of None \<Rightarrow> True | Some p \<Rightarrow> \<not> blank p)
      \<and> (mi_status r \<noteq> METADATA_STATUS_MATCHED \<or> mi_type r = EpisodeItem
         \<or> mi_provider r \<noteq> None \<and> mi_provider_item r \<noteq> None))"

subsection \<open>Files, seasons, episodes\<close>

record file_facts =
  ff_source_kind :: ustr
  ff_reference_hash :: "ustr option"
  ff_container :: "ustr option"
  ff_size :: int
  ff_duration :: "int option"
  ff_probed :: "ustr option list"
  ff_scan_hash :: "ustr option"
  ff_modified_at_ms :: "int option"

record media_file_row =
  mf_id :: int
  mf_library :: int
  mf_item :: int
  mf_path :: ustr
  mf_facts :: file_facts
  mf_created_at :: nat

definition file_row_ok :: "media_file_row \<Rightarrow> bool" where
  "file_row_ok f = (0 \<le> ff_size (mf_facts f) \<and> (case ff_duration (mf_facts f) of None \<Rightarrow> True | Some d \<Rightarrow> 0 \<le> d))"

record season_row =
  sn_id :: int
  sn_library :: int
  sn_series :: int
  sn_number :: int
  sn_title :: ustr
  sn_overview :: "ustr option"
  sn_poster :: "ustr option"
  sn_backdrop :: "ustr option"

record episode_row =
  ep_item :: int
  ep_library :: int
  ep_season :: int
  ep_number :: int

subsection \<open>What users have watched\<close>

record progress_row =
  pg_id :: int
  pg_user :: int
  pg_item :: int
  pg_file :: "int option"
  pg_position :: int
  pg_duration :: "int option"
  pg_watched_at :: nat
  pg_finished :: bool

definition progress_row_ok :: "progress_row \<Rightarrow> bool" where
  "progress_row_ok p = (0 \<le> pg_position p
     \<and> (case pg_duration p of None \<Rightarrow> True | Some d \<Rightarrow> 0 \<le> d \<and> pg_position p \<le> d))"

record watching_row =
  cw_id :: int
  cw_user :: int
  cw_item :: int
  cw_last :: int
  cw_watched_at :: nat

subsection \<open>The store\<close>

record media_db =
  md_users :: "int list"
  md_libraries :: "int list"
  md_items :: "media_item_row list"
  md_files :: "media_file_row list"
  md_seasons :: "season_row list"
  md_episodes :: "episode_row list"
  md_progress :: "progress_row list"
  md_watching :: "watching_row list"
  md_next_item :: int
  md_next_file :: int
  md_next_season :: int
  md_next_progress :: int
  md_next_watching :: int

definition item_keys :: "media_db \<Rightarrow> (int \<times> int) list" where
  "item_keys st = map (\<lambda>r. (mi_id r, mi_library r)) (md_items st)"

definition typed_item_keys :: "media_db \<Rightarrow> (int \<times> int \<times> item_type) list" where
  "typed_item_keys st = map (\<lambda>r. (mi_id r, mi_library r, mi_type r)) (md_items st)"

definition keys_unique :: "media_db \<Rightarrow> bool" where
  "keys_unique st =
     (distinct (map mi_id (md_items st))
      \<and> distinct (map (\<lambda>r. (mi_library r, mi_type r, mi_provider r, mi_provider_item r))
          (List.filter (\<lambda>r. mi_type r \<noteq> EpisodeItem \<and> mi_provider r \<noteq> None \<and> mi_provider_item r \<noteq> None) (md_items st)))
      \<and> distinct (map mf_id (md_files st)) \<and> distinct (map (\<lambda>f. (mf_library f, mf_path f)) (md_files st))
      \<and> distinct (map sn_id (md_seasons st)) \<and> distinct (map (\<lambda>s. (sn_series s, sn_number s)) (md_seasons st))
      \<and> distinct (map ep_item (md_episodes st)) \<and> distinct (map (\<lambda>e. (ep_season e, ep_number e)) (md_episodes st))
      \<and> distinct (map pg_id (md_progress st)) \<and> distinct (map (\<lambda>p. (pg_user p, pg_item p)) (md_progress st))
      \<and> distinct (map cw_id (md_watching st)) \<and> distinct (map (\<lambda>w. (cw_user w, cw_item w)) (md_watching st)))"

definition references_ok :: "media_db \<Rightarrow> bool" where
  "references_ok st =
     ((\<forall>r\<in>set (md_items st). mi_library r \<in> set (md_libraries st))
      \<and> (\<forall>f\<in>set (md_files st). (mf_item f, mf_library f) \<in> set (item_keys st))
      \<and> (\<forall>s\<in>set (md_seasons st). (sn_series s, sn_library s, SeriesItem) \<in> set (typed_item_keys st))
      \<and> (\<forall>e\<in>set (md_episodes st). (ep_item e, ep_library e, EpisodeItem) \<in> set (typed_item_keys st)
           \<and> (ep_season e, ep_library e) \<in> set (map (\<lambda>s. (sn_id s, sn_library s)) (md_seasons st)))
      \<and> (\<forall>p\<in>set (md_progress st). pg_user p \<in> set (md_users st) \<and> pg_item p \<in> set (map mi_id (md_items st)))
      \<and> (\<forall>w\<in>set (md_watching st). cw_user w \<in> set (md_users st) \<and> cw_item w \<in> set (map mi_id (md_items st))
           \<and> cw_last w \<in> set (map mi_id (md_items st))))"

definition rows_ok :: "media_db \<Rightarrow> bool" where
  "rows_ok st =
     ((\<forall>r\<in>set (md_items st). item_row_ok r) \<and> (\<forall>f\<in>set (md_files st). file_row_ok f)
      \<and> (\<forall>s\<in>set (md_seasons st). 0 \<le> sn_number s) \<and> (\<forall>e\<in>set (md_episodes st). 0 \<le> ep_number e)
      \<and> (\<forall>p\<in>set (md_progress st). progress_row_ok p) \<and> keys_unique st \<and> references_ok st)"

text \<open>The deferred reference of \<open>playback_progress\<close> to the file last played.\<close>

definition played_files_ok :: "media_db \<Rightarrow> bool" where
  "played_files_ok st =
     (\<forall>p\<in>set (md_progress st). case pg_file p of None \<Rightarrow> True
        | Some f \<Rightarrow> (f, pg_item p) \<in> set (map (\<lambda>f. (mf_id f, mf_item f)) (md_files st)))"

definition checked :: "media_db \<Rightarrow> media_error + media_db" where
  "checked st = (if rows_ok st then Inr st else Inl RowsViolated)"

definition commit :: "media_db \<Rightarrow> media_error + media_db" where
  "commit st = (if played_files_ok st then Inr st else Inl ReferenceViolated)"

lemma checked_Inr [simp]: "checked st = Inr st' \<longleftrightarrow> st' = st \<and> rows_ok st"
  by (auto simp: checked_def)

lemma commit_Inr [simp]: "commit st = Inr st' \<longleftrightarrow> st' = st \<and> played_files_ok st"
  by (auto simp: commit_def)

subsection \<open>Reads and deletions\<close>

definition find_item :: "int \<Rightarrow> media_db \<Rightarrow> media_item_row option" where
  "find_item i st = List.find (\<lambda>r. mi_id r = i) (md_items st)"

definition find_episode :: "int \<Rightarrow> media_db \<Rightarrow> episode_row option" where
  "find_episode i st = List.find (\<lambda>e. ep_item e = i) (md_episodes st)"

definition find_season :: "int \<Rightarrow> media_db \<Rightarrow> season_row option" where
  "find_season i st = List.find (\<lambda>s. sn_id s = i) (md_seasons st)"

definition update_items :: "(media_item_row \<Rightarrow> bool) \<Rightarrow> (media_item_row \<Rightarrow> media_item_row) \<Rightarrow> media_db \<Rightarrow> media_db" where
  "update_items P u st = st\<lparr>md_items := map (\<lambda>r. if P r then u r else r) (md_items st)\<rparr>"

definition update_files :: "(media_file_row \<Rightarrow> bool) \<Rightarrow> (media_file_row \<Rightarrow> media_file_row) \<Rightarrow> media_db \<Rightarrow> media_db" where
  "update_files P u st = st\<lparr>md_files := map (\<lambda>f. if P f then u f else f) (md_files st)\<rparr>"

text \<open>Deleting items takes along what refers to them.\<close>

definition delete_seasons :: "(season_row \<Rightarrow> bool) \<Rightarrow> media_db \<Rightarrow> media_db" where
  "delete_seasons P st =
     (let gone = map sn_id (List.filter P (md_seasons st)) in
      st\<lparr>md_seasons := List.filter (\<lambda>s. \<not> P s) (md_seasons st),
         md_episodes := List.filter (\<lambda>e. ep_season e \<notin> set gone) (md_episodes st)\<rparr>)"

definition delete_items :: "(media_item_row \<Rightarrow> bool) \<Rightarrow> media_db \<Rightarrow> media_db" where
  "delete_items P st =
     (let gone = map mi_id (List.filter P (md_items st));
          st' = delete_seasons (\<lambda>s. sn_series s \<in> set gone) st in
      st'\<lparr>md_items := List.filter (\<lambda>r. \<not> P r) (md_items st'),
          md_files := List.filter (\<lambda>f. mf_item f \<notin> set gone) (md_files st'),
          md_episodes := List.filter (\<lambda>e. ep_item e \<notin> set gone) (md_episodes st'),
          md_progress := List.filter (\<lambda>p. pg_item p \<notin> set gone) (md_progress st'),
          md_watching := List.filter (\<lambda>w. cw_item w \<notin> set gone \<and> cw_last w \<notin> set gone) (md_watching st')\<rparr>)"

text \<open>A progress that names a deleted file of its item forgets it.\<close>

definition delete_files :: "(media_file_row \<Rightarrow> bool) \<Rightarrow> media_db \<Rightarrow> media_db" where
  "delete_files P st =
     (let gone = map (\<lambda>f. (Some (mf_id f), mf_item f)) (List.filter P (md_files st)) in
      st\<lparr>md_files := List.filter (\<lambda>f. \<not> P f) (md_files st),
         md_progress := map (\<lambda>p. if (pg_file p, pg_item p) \<in> set gone then p\<lparr>pg_file := None\<rparr> else p) (md_progress st)\<rparr>)"

text \<open>
  \<open>insert \<dots> on conflict do update\<close> on a table with the key \<open>key\<close>: \<open>fresh\<close> is the row that is inserted,
  \<open>conflict\<close> what becomes of the row that is there.
\<close>

definition upsert_row :: "('r \<Rightarrow> 'k) \<Rightarrow> ('r \<Rightarrow> 'r) \<Rightarrow> 'r \<Rightarrow> 'r list \<Rightarrow> 'r list" where
  "upsert_row key conflict fresh rows =
     (if key fresh \<in> set (map key rows) then map (\<lambda>r. if key r = key fresh then conflict r else r) rows
      else rows @ [fresh])"

definition find_row :: "('r \<Rightarrow> 'k) \<Rightarrow> 'k \<Rightarrow> 'r list \<Rightarrow> 'r option" where
  "find_row key k rows = List.find (\<lambda>r. key r = k) rows"

lemma find_row_None: "find_row key k rows = None \<longleftrightarrow> k \<notin> set (map key rows)"
  by (auto simp: find_row_def find_None_iff)

lemma find_row_SomeD: "find_row key k rows = Some r \<Longrightarrow> r \<in> set rows \<and> key r = k"
  by (auto simp: find_row_def find_Some_iff)

lemma find_row_upsert:
  assumes "\<And>r. key (conflict r) = key r"
  shows "find_row key k (upsert_row key conflict fresh rows) =
     (if k = key fresh then Some (case find_row key k rows of None \<Rightarrow> fresh | Some r \<Rightarrow> conflict r) else find_row key k rows)"
proof (cases "key fresh \<in> set (map key rows)")
  case True
  have "find_row key k (map (\<lambda>r. if key r = key fresh then conflict r else r) rows)
      = (if k = key fresh then map_option conflict (find_row key k rows) else find_row key k rows)"
    by (induction rows) (auto simp: find_row_def assms)
  moreover have "find_row key (key fresh) rows \<noteq> None" using True by (simp add: find_row_None)
  ultimately show ?thesis using True by (auto simp: upsert_row_def)
next
  case False
  have "find_row key k (rows @ [fresh]) =
      (case find_row key k rows of None \<Rightarrow> if key fresh = k then Some fresh else None | Some r \<Rightarrow> Some r)"
    by (induction rows) (auto simp: find_row_def)
  moreover have "k \<noteq> key fresh" if "find_row key k rows = Some r" for r
    using False find_row_SomeD [OF that] by (metis image_eqI set_map)
  ultimately show ?thesis using False by (cases "find_row key k rows") (auto simp: upsert_row_def)
qed

lemma upsert_row_keys:
  "(\<And>r. key (conflict r) = key r) \<Longrightarrow> map key (upsert_row key conflict fresh rows) =
     (if key fresh \<in> set (map key rows) then map key rows else map key rows @ [key fresh])"
  by (auto simp: upsert_row_def)

subsection \<open>Entries\<close>

record entry_season =
  es_number :: "int option"
  es_title :: "ustr option"
  es_overview :: "ustr option"
  es_poster :: "ustr option"
  es_backdrop :: "ustr option"

record entry_episode =
  ee_number :: "int option"
  ee_title :: "ustr option"
  ee_original_title :: "ustr option"
  ee_sort_title :: "ustr option"
  ee_year :: "int option"
  ee_overview :: "ustr option"
  ee_tagline :: "ustr option"
  ee_premiere :: "int option"
  ee_rating :: "ustr option"

record media_entry =
  en_library :: int
  en_type :: ustr
  en_title :: ustr
  en_source_title :: ustr
  en_provider :: "ustr option"
  en_provider_item :: "ustr option"
  en_status :: ustr
  en_failure :: "ustr option"
  en_artwork_clear :: bool
  en_replace_remote :: bool
  en_year :: "int option"
  en_details :: item_details
  en_series_artwork :: "ustr option \<times> ustr option \<times> ustr option"
  en_season :: entry_season
  en_episode :: entry_episode
  en_selected :: bool
  en_path :: ustr
  en_facts :: file_facts

text \<open>
  What a transaction is given: its time, and what the documents of an item
  (\<open>media_local_metadata_sources\<close>) make of its public fields, before and after a remote patch, and
  which fields of a season they changed.
\<close>

datatype projection_scope = MovieScope | SeriesScope | EpisodeScope

record season_refresh =
  rf_title :: bool
  rf_overview :: bool
  rf_poster :: bool
  rf_backdrop :: bool

record sync_env =
  se_now :: nat
  se_project :: "projection_scope \<Rightarrow> media_entry \<Rightarrow> media_item_row \<Rightarrow> media_item_row"
  se_restore :: "projection_scope \<Rightarrow> media_entry \<Rightarrow> media_item_row \<Rightarrow> media_item_row \<Rightarrow> media_item_row"
  se_refresh :: "int \<Rightarrow> media_entry \<Rightarrow> season_refresh"

text \<open>The public fields: title and year, and the details but for the remote type.\<close>

definition project_fields :: "media_item_row \<Rightarrow> media_item_row \<Rightarrow> media_item_row" where
  "project_fields shown r = r\<lparr>mi_title := mi_title shown, mi_source_title := mi_source_title shown,
     mi_year := mi_year shown, mi_details := (mi_details shown)\<lparr>dt_remote_type := dt_remote_type (mi_details r)\<rparr>\<rparr>"

end
