(* ===== verification/Playback_State.thy ===== *)
theory Playback_State
  imports Media_Store User_Management
begin

text \<open>
  How far users have watched (\<open>mova-db/src/playback_progress.rs\<close>,
  \<open>mova-application/src/playback_progress.rs\<close>): one progress for a user and an item, and a short list
  of what the user is watching, in which an episode stands for its series; and what becomes of both
  when an item is merged into another. \<open>now\<close> is the time of the transaction.
\<close>

definition CONTINUE_WATCHING_LIMIT :: nat where
  "CONTINUE_WATCHING_LIMIT = 20"

subsection \<open>Writing a progress\<close>

record upsert_progress_params =
  up_user :: int
  up_item :: int
  up_file :: int
  up_position :: int
  up_duration :: "int option"
  up_finished :: bool

definition progress_key :: "progress_row \<Rightarrow> int \<times> int" where
  "progress_key p = (pg_user p, pg_item p)"

definition watching_key :: "watching_row \<Rightarrow> int \<times> int" where
  "watching_key w = (cw_user w, cw_item w)"

definition find_progress :: "int \<Rightarrow> int \<Rightarrow> media_db \<Rightarrow> progress_row option" where
  "find_progress u i st = find_row progress_key (u, i) (md_progress st)"

definition find_watching :: "int \<Rightarrow> int \<Rightarrow> media_db \<Rightarrow> watching_row option" where
  "find_watching u i st = find_row watching_key (u, i) (md_watching st)"

text \<open>The two tables take a row for a user and an item; \<open>merge new old\<close> is what an update leaves.\<close>

definition insert_progress ::
  "(progress_row \<Rightarrow> progress_row \<Rightarrow> progress_row) \<Rightarrow> progress_row \<Rightarrow> media_db \<Rightarrow> media_db" where
  "insert_progress merge new st =
     st\<lparr>md_progress := upsert_row progress_key (merge new) (new\<lparr>pg_id := md_next_progress st\<rparr>) (md_progress st),
        md_next_progress := md_next_progress st + 1\<rparr>"

definition insert_watching ::
  "(watching_row \<Rightarrow> watching_row \<Rightarrow> watching_row) \<Rightarrow> watching_row \<Rightarrow> media_db \<Rightarrow> media_db" where
  "insert_watching merge new st =
     st\<lparr>md_watching := upsert_row watching_key (merge new) (new\<lparr>cw_id := md_next_watching st\<rparr>) (md_watching st),
        md_next_watching := md_next_watching st + 1\<rparr>"

text \<open>The entry of the list that an item belongs to: its series, or the item itself.\<close>

definition shown_as :: "int \<Rightarrow> media_db \<Rightarrow> int option" where
  "shown_as i st =
     (case find_item i st of None \<Rightarrow> None
      | Some _ \<Rightarrow> Some (case find_episode i st of None \<Rightarrow> i
          | Some e \<Rightarrow> (case find_season (ep_season e) st of None \<Rightarrow> i | Some s \<Rightarrow> sn_series s)))"

definition newest_first :: "watching_row list \<Rightarrow> watching_row list" where
  "newest_first ws = rev (sort_key cw_watched_at (sort_key cw_id ws))"

definition watching_of :: "int \<Rightarrow> media_db \<Rightarrow> watching_row list" where
  "watching_of u st = newest_first (List.filter (\<lambda>w. cw_user w = u) (md_watching st))"

definition prune_watching :: "int \<Rightarrow> media_db \<Rightarrow> media_db" where
  "prune_watching u st =
     (let old = map cw_id (drop CONTINUE_WATCHING_LIMIT (watching_of u st)) in
      st\<lparr>md_watching := List.filter (\<lambda>w. cw_id w \<notin> set old) (md_watching st)\<rparr>)"

definition note_watching :: "int \<Rightarrow> int \<Rightarrow> bool \<Rightarrow> nat \<Rightarrow> media_db \<Rightarrow> media_db" where
  "note_watching u i finished now st =
     (if finished
      then st\<lparr>md_watching := List.filter (\<lambda>w. \<not> (cw_user w = u \<and> Some (cw_item w) = shown_as i st)) (md_watching st)\<rparr>
      else prune_watching u
        (case shown_as i st of None \<Rightarrow> st
         | Some k \<Rightarrow> insert_watching (\<lambda>new old. old\<lparr>cw_last := cw_last new, cw_watched_at := cw_watched_at new\<rparr>)
             \<lparr>cw_id = 0, cw_user = u, cw_item = k, cw_last = i, cw_watched_at = now\<rparr> st))"

definition overwrite_progress :: "progress_row \<Rightarrow> progress_row \<Rightarrow> progress_row" where
  "overwrite_progress new old = old\<lparr>pg_file := pg_file new, pg_position := pg_position new,
     pg_duration := pg_duration new, pg_watched_at := pg_watched_at new, pg_finished := pg_finished new\<rparr>"

definition progress_row_of :: "upsert_progress_params \<Rightarrow> nat \<Rightarrow> progress_row" where
  "progress_row_of p now = \<lparr>pg_id = 0, pg_user = up_user p, pg_item = up_item p, pg_file = Some (up_file p),
     pg_position = up_position p, pg_duration = up_duration p, pg_watched_at = now, pg_finished = up_finished p\<rparr>"

definition upsert_playback_progress ::
  "upsert_progress_params \<Rightarrow> nat \<Rightarrow> media_db \<Rightarrow> media_error + media_db \<times> progress_row option" where
  "upsert_playback_progress p now st =
     and_then (checked (insert_progress overwrite_progress (progress_row_of p now) st)) (\<lambda>st1.
     and_then (checked (note_watching (up_user p) (up_item p) (up_finished p) now st1)) (\<lambda>st2.
     and_then (commit st2) (\<lambda>st3. Inr (st3, find_progress (up_user p) (up_item p) st1))))"

subsection \<open>Reading\<close>

text \<open>The first file of an item stands in for a file played that is gone.\<close>

definition fallback_file :: "int \<Rightarrow> media_db \<Rightarrow> int option" where
  "fallback_file i st =
     (case sort_key mf_created_at (sort_key mf_id (List.filter (\<lambda>f. mf_item f = i) (md_files st))) of
        [] \<Rightarrow> None | f # _ \<Rightarrow> Some (mf_id f))"

definition read_progress :: "media_db \<Rightarrow> progress_row \<Rightarrow> progress_row" where
  "read_progress st p = p\<lparr>pg_file := or_else (pg_file p) (fallback_file (pg_item p) st)\<rparr>"

definition get_playback_progress_for_media_item :: "int \<Rightarrow> int \<Rightarrow> media_db \<Rightarrow> progress_row option" where
  "get_playback_progress_for_media_item u i st =
     (case rev (sort_key pg_watched_at (sort_key pg_id
          (List.filter (\<lambda>p. pg_user p = u \<and> pg_item p = i) (md_progress st)))) of
        [] \<Rightarrow> None | p # _ \<Rightarrow> Some (read_progress st p))"

definition list_playback_progress_for_media_items :: "int \<Rightarrow> int list \<Rightarrow> media_db \<Rightarrow> (int \<times> progress_row) list" where
  "list_playback_progress_for_media_items u items st =
     List.map_filter (\<lambda>i. map_option (Pair i) (get_playback_progress_for_media_item u i st)) (remdups items)"

record continue_item =
  ci_item :: media_item_row
  ci_progress :: progress_row
  ci_season_number :: "int option"
  ci_episode_number :: "int option"
  ci_episode_title :: "ustr option"
  ci_episode_overview :: "ustr option"
  ci_episode_poster :: "ustr option"
  ci_episode_backdrop :: "ustr option"

definition continue_item_of :: "media_db \<Rightarrow> watching_row \<Rightarrow> continue_item option" where
  "continue_item_of st w =
     (case (find_item (cw_item w) st, find_item (cw_last w) st, find_progress (cw_user w) (cw_last w) st) of
        (Some item, Some watched, Some p) \<Rightarrow>
          (let e = find_episode (cw_last w) st;
               s = Option.bind e (\<lambda>e. find_season (ep_season e) st);
               episode = (\<lambda>x. if mi_type watched = EpisodeItem then x else None) in
           Some \<lparr>ci_item = item, ci_progress = read_progress st p,
             ci_season_number = map_option sn_number s, ci_episode_number = map_option ep_number e,
             ci_episode_title = episode (if mi_title watched = [] then None else Some (mi_title watched)),
             ci_episode_overview = episode (dt_overview (mi_details watched)),
             ci_episode_poster = episode (dt_poster (mi_details watched)),
             ci_episode_backdrop = episode (dt_backdrop (mi_details watched))\<rparr>)
      | _ \<Rightarrow> None)"

definition db_list_continue_watching :: "int \<Rightarrow> int list option \<Rightarrow> nat \<Rightarrow> media_db \<Rightarrow> continue_item list" where
  "db_list_continue_watching u visible limit st =
     take limit (List.filter (\<lambda>c. \<not> pg_finished (ci_progress c)
         \<and> (case visible of None \<Rightarrow> True | Some ls \<Rightarrow> mi_library (ci_item c) \<in> set ls))
       (List.map_filter (continue_item_of st) (watching_of u st)))"

subsection \<open>Requests\<close>

definition DEFAULT_CONTINUE_WATCHING_LIMIT :: int where
  "DEFAULT_CONTINUE_WATCHING_LIMIT = 20"

definition MAX_CONTINUE_WATCHING_LIMIT :: int where
  "MAX_CONTINUE_WATCHING_LIMIT = 20"

definition normalize_continue_watching_limit :: "int option \<Rightarrow> application_error + int" where
  "normalize_continue_watching_limit limit =
     (let n = (case limit of None \<Rightarrow> DEFAULT_CONTINUE_WATCHING_LIMIT | Some n \<Rightarrow> n) in
      if n \<le> 0 then Inl (AppValidation (lit ''limit must be greater than 0''))
      else Inr (min n MAX_CONTINUE_WATCHING_LIMIT))"

definition validate_progress_seconds :: "ustr \<Rightarrow> int \<Rightarrow> application_error + unit" where
  "validate_progress_seconds name n =
     (if n < 0 then Inl (AppValidation (name @ lit '' cannot be negative'')) else Inr ())"

definition list_continue_watching ::
  "int \<Rightarrow> int list option \<Rightarrow> int option \<Rightarrow> media_db \<Rightarrow> application_error + continue_item list" where
  "list_continue_watching u visible limit st =
     and_then (normalize_continue_watching_limit limit) (\<lambda>n.
       if visible = Some [] then Inr [] else Inr (db_list_continue_watching u visible (nat n) st))"

record update_progress_input =
  ui_file :: int
  ui_position :: int
  ui_duration :: "int option"
  ui_finished :: bool

definition get_media_item :: "int \<Rightarrow> media_db \<Rightarrow> application_error + media_item_row" where
  "get_media_item i st = ok_or (AppNotFound (lit ''media item not found: '' @ int_text i)) (find_item i st)"

definition get_media_file :: "int \<Rightarrow> media_db \<Rightarrow> application_error + media_file_row" where
  "get_media_file i st =
     ok_or (AppNotFound (lit ''media file not found: '' @ int_text i)) (List.find (\<lambda>f. mf_id f = i) (md_files st))"

text \<open>What a request passes on: the position within the duration. A failed transaction is unexpected.\<close>

definition progress_params :: "int \<Rightarrow> int \<Rightarrow> update_progress_input \<Rightarrow> upsert_progress_params" where
  "progress_params u i x =
     \<lparr>up_user = u, up_item = i, up_file = ui_file x,
      up_position = (case ui_duration x of None \<Rightarrow> ui_position x | Some d \<Rightarrow> min (ui_position x) d),
      up_duration = ui_duration x, up_finished = ui_finished x\<rparr>"

definition update_playback_progress_for_media_item ::
  "int \<Rightarrow> int \<Rightarrow> update_progress_input \<Rightarrow> nat \<Rightarrow> media_db \<Rightarrow> application_error + media_db \<times> progress_row option" where
  "update_playback_progress_for_media_item u i x now st =
     and_then (validate_progress_seconds (lit ''position_seconds'') (ui_position x)) (\<lambda>_.
     and_then (opt_try (validate_progress_seconds (lit ''duration_seconds'')) (ui_duration x)) (\<lambda>_.
     and_then (get_media_item i st) (\<lambda>_.
     and_then (get_media_file (ui_file x) st) (\<lambda>f.
       if mf_item f \<noteq> i
       then Inl (AppValidation (lit ''media file '' @ int_text (ui_file x) @ lit '' does not belong to media item '' @ int_text i))
       else map_err (\<lambda>_. AppUnexpected (lit ''failed to upsert playback progress''))
              (upsert_playback_progress (progress_params u i x) now st)))))"

definition read_playback_progress_for_media_item ::
  "int \<Rightarrow> int \<Rightarrow> media_db \<Rightarrow> application_error + progress_row option" where
  "read_playback_progress_for_media_item u i st =
     and_then (get_media_item i st) (\<lambda>_. Inr (get_playback_progress_for_media_item u i st))"

subsection \<open>Merging items\<close>

text \<open>For each user the state watched last wins; a state as recent as the target's counts as newer.\<close>

definition newer_progress :: "progress_row \<Rightarrow> progress_row \<Rightarrow> progress_row" where
  "newer_progress new old =
     (if pg_watched_at old \<le> pg_watched_at new
      then old\<lparr>pg_file := pg_file new, pg_position := pg_position new, pg_duration := pg_duration new,
             pg_watched_at := pg_watched_at new, pg_finished := pg_finished new\<rparr>
      else old)"

definition newer_watching :: "watching_row \<Rightarrow> watching_row \<Rightarrow> watching_row" where
  "newer_watching new old =
     (if cw_watched_at old \<le> cw_watched_at new
      then old\<lparr>cw_last := cw_last new, cw_watched_at := cw_watched_at new\<rparr> else old)"

definition move_progress :: "int \<Rightarrow> int \<Rightarrow> media_db \<Rightarrow> media_db" where
  "move_progress source target st =
     (let st1 = fold (\<lambda>p. insert_progress newer_progress (p\<lparr>pg_item := target\<rparr>))
           (List.filter (\<lambda>p. pg_item p = source) (md_progress st)) st in
      st1\<lparr>md_progress := List.filter (\<lambda>p. pg_item p \<noteq> source) (md_progress st1)\<rparr>)"

text \<open>\<open>rekey\<close> says what the last item played becomes.\<close>

definition move_watching :: "(int \<Rightarrow> int) \<Rightarrow> int \<Rightarrow> int \<Rightarrow> media_db \<Rightarrow> media_db" where
  "move_watching rekey source target st =
     (let st1 = fold (\<lambda>w. insert_watching newer_watching (w\<lparr>cw_item := target, cw_last := rekey (cw_last w)\<rparr>))
           (List.filter (\<lambda>w. cw_item w = source) (md_watching st)) st in
      st1\<lparr>md_watching := List.filter (\<lambda>w. cw_item w \<noteq> source) (md_watching st1)\<rparr>)"

definition merge_media_item_user_state :: "int \<Rightarrow> int \<Rightarrow> media_db \<Rightarrow> media_error + media_db" where
  "merge_media_item_user_state source target st =
     (if source = target then Inr st
      else (let rekey = (\<lambda>i. if i = source then target else i);
                st1 = move_watching rekey source target (move_progress source target st) in
            checked (st1\<lparr>md_watching := map (\<lambda>w. w\<lparr>cw_last := rekey (cw_last w)\<rparr>) (md_watching st1)\<rparr>)))"

definition regroup_continue_watching_under_series :: "int \<Rightarrow> int \<Rightarrow> media_db \<Rightarrow> media_error + media_db" where
  "regroup_continue_watching_under_series episode series st =
     (if episode = series then Inr st else checked (move_watching (\<lambda>i. i) episode series st))"

end
