(* ===== verification/Media_Rows.thy ===== *)
theory Media_Rows
  imports Playback_State
begin

text \<open>
  The statements on items and files that a scan is made of (\<open>mova-db/src/media_items/sync.rs\<close>): finding
  the item that an entry belongs to, writing items and files, moving a file to another item, and what
  goes when an item has no file left. Where a query gives one row without an order, it is the first.
\<close>

subsection \<open>Entries\<close>

text \<open>\<open>eq_ignore_ascii_case\<close> with a word of lower case letters.\<close>

definition is_word_of :: "string \<Rightarrow> ustr \<Rightarrow> bool" where
  "is_word_of w s = (to_ascii_lowercase s = lit w)"

definition stored_type :: "ustr \<Rightarrow> item_type option" where
  "stored_type s = (if s = lit ''movie'' then Some MovieItem else if s = lit ''series'' then Some SeriesItem
     else if s = lit ''episode'' then Some EpisodeItem else None)"

definition METADATA_FAILURE_PROVIDER_ERROR :: ustr where
  "METADATA_FAILURE_PROVIDER_ERROR = lit ''metadata_provider_error''"

definition METADATA_FAILURE_PROVIDER_DISABLED :: ustr where
  "METADATA_FAILURE_PROVIDER_DISABLED = lit ''metadata_provider_disabled''"

definition should_preserve_existing_parent :: "commit_stage \<Rightarrow> media_entry list \<Rightarrow> bool" where
  "should_preserve_existing_parent stage es =
     (stage = LocalStage \<or> \<not> list_ex en_replace_remote es
      \<or> list_ex (\<lambda>e. en_failure e = Some METADATA_FAILURE_PROVIDER_ERROR
           \<or> en_failure e = Some METADATA_FAILURE_PROVIDER_DISABLED) es)"

definition display_title_for_entry :: "media_entry \<Rightarrow> ustr" where
  "display_title_for_entry e =
     (if trim (en_title e) \<noteq> [] then trim (en_title e)
      else if trim (en_source_title e) \<noteq> [] then trim (en_source_title e) else lit ''Untitled'')"

definition movie_group_title_for_entry :: "media_entry \<Rightarrow> ustr" where
  "movie_group_title_for_entry e =
     (if trim (en_source_title e) \<noteq> [] then trim (en_source_title e) else display_title_for_entry e)"

definition metadata_status_allows_artwork_clear :: "ustr \<Rightarrow> bool" where
  "metadata_status_allows_artwork_clear status = is_word_of ''matched'' status"

definition allows_artwork_clear :: "media_entry \<Rightarrow> bool" where
  "allows_artwork_clear e = (en_artwork_clear e \<and> metadata_status_allows_artwork_clear (en_status e))"

definition local_artwork_path :: "ustr option \<Rightarrow> ustr option" where
  "local_artwork_path p =
     (case p of None \<Rightarrow> None
      | Some s \<Rightarrow> if trim s \<noteq> [] \<and> starts_with (lit ''/'') (trim s) then Some (trim s) else None)"

text \<open>Unselected documents first: \<open>sort_by_key\<close> on a boolean.\<close>

definition entries_ordered_for_local_metadata :: "media_entry list \<Rightarrow> media_entry list" where
  "entries_ordered_for_local_metadata es = List.filter (\<lambda>e. \<not> en_selected e) es @ List.filter en_selected es"

subsection \<open>Finding\<close>

definition hd_opt :: "'a list \<Rightarrow> 'a option" where
  "hd_opt xs = (case xs of [] \<Rightarrow> None | x # _ \<Rightarrow> Some x)"

definition bound_items :: "item_type \<Rightarrow> media_entry \<Rightarrow> media_db \<Rightarrow> media_item_row list" where
  "bound_items t e st =
     (if en_provider e \<noteq> None \<and> en_provider_item e \<noteq> None
      then List.filter (\<lambda>r. mi_library r = en_library e \<and> mi_type r = t
             \<and> mi_provider r = en_provider e \<and> mi_provider_item r = en_provider_item e) (md_items st)
      else [])"

definition titled_items :: "item_type \<Rightarrow> ustr \<Rightarrow> media_entry \<Rightarrow> media_db \<Rightarrow> media_item_row list" where
  "titled_items t title e st =
     List.filter (\<lambda>r. mi_library r = en_library e \<and> mi_type r = t
       \<and> mi_source_title r = title \<and> mi_year r = en_year e) (md_items st)"

definition find_existing_movie_media_item :: "media_entry \<Rightarrow> ustr \<Rightarrow> media_db \<Rightarrow> int option" where
  "find_existing_movie_media_item e title st =
     map_option mi_id (or_else
       (hd_opt (sort_key (\<lambda>r. if mi_source_title r = title then 0 else 1 :: nat) (sort_key mi_id (bound_items MovieItem e st))))
       (hd_opt (sort_key mi_id (titled_items MovieItem title e st))))"

definition find_existing_series_item :: "media_entry \<Rightarrow> media_db \<Rightarrow> int option" where
  "find_existing_series_item e st =
     map_option mi_id (or_else (hd_opt (sort_key mi_id (bound_items SeriesItem e st)))
       (hd_opt (titled_items SeriesItem (en_source_title e) e st)))"

record existing_file =
  xf_item :: int
  xf_file :: int
  xf_type :: item_type
  xf_path :: ustr

definition existing_of :: "media_db \<Rightarrow> media_file_row \<Rightarrow> existing_file option" where
  "existing_of st f =
     map_option (\<lambda>r. \<lparr>xf_item = mi_id r, xf_file = mf_id f, xf_type = mi_type r, xf_path = mf_path f\<rparr>)
       (find_item (mf_item f) st)"

definition list_library_media_files_for_sync :: "int \<Rightarrow> media_db \<Rightarrow> existing_file list" where
  "list_library_media_files_for_sync l st =
     List.map_filter (existing_of st) (List.filter (\<lambda>f. mf_library f = l) (md_files st))"

definition list_library_media_files_for_paths :: "int \<Rightarrow> ustr list \<Rightarrow> media_db \<Rightarrow> existing_file list" where
  "list_library_media_files_for_paths l paths st =
     List.map_filter (existing_of st) (List.filter (\<lambda>f. mf_library f = l \<and> mf_path f \<in> set paths) (md_files st))"

definition get_existing_library_media_file_by_path :: "int \<Rightarrow> ustr \<Rightarrow> media_db \<Rightarrow> existing_file option" where
  "get_existing_library_media_file_by_path l path st =
     hd_opt (List.map_filter (existing_of st) (List.filter (\<lambda>f. mf_library f = l \<and> mf_path f = path) (md_files st)))"

subsection \<open>Items\<close>

definition add_item :: "media_item_row \<Rightarrow> media_db \<Rightarrow> media_error + media_db \<times> int" where
  "add_item r st =
     map_ok (\<lambda>st'. (st', md_next_item st))
       (checked (st\<lparr>md_items := md_items st @ [r\<lparr>mi_id := md_next_item st\<rparr>], md_next_item := md_next_item st + 1\<rparr>))"

definition set_item :: "int \<Rightarrow> (media_item_row \<Rightarrow> media_item_row) \<Rightarrow> media_db \<Rightarrow> media_error + media_db" where
  "set_item i u st = checked (update_items (\<lambda>r. mi_id r = i) u st)"

text \<open>The row that an entry describes, for an item of type \<open>t\<close>.\<close>

definition row_of_entry :: "media_entry \<Rightarrow> item_type \<Rightarrow> media_item_row" where
  "row_of_entry e t =
     \<lparr>mi_id = 0, mi_library = en_library e, mi_type = t, mi_title = display_title_for_entry e,
      mi_source_title = en_source_title e, mi_provider = en_provider e, mi_provider_item = en_provider_item e,
      mi_status = en_status e, mi_failure = en_failure e, mi_year = en_year e, mi_details = en_details e\<rparr>"

definition insert_media_item :: "media_entry \<Rightarrow> media_db \<Rightarrow> media_error + media_db \<times> int" where
  "insert_media_item e st =
     (case stored_type (en_type e) of None \<Rightarrow> Inl RowsViolated | Some t \<Rightarrow> add_item (row_of_entry e t) st)"

definition update_media_item_from_entry :: "int \<Rightarrow> media_entry \<Rightarrow> media_db \<Rightarrow> media_error + media_db" where
  "update_media_item_from_entry i e st =
     (case stored_type (en_type e) of
        None \<Rightarrow> if find_item i st = None then Inr st else Inl RowsViolated
      | Some t \<Rightarrow> set_item i (\<lambda>r. (row_of_entry e t)\<lparr>mi_id := mi_id r, mi_library := mi_library r\<rparr>) st)"

definition filled :: "ustr option \<Rightarrow> bool" where
  "filled s = (case s of None \<Rightarrow> False | Some v \<Rightarrow> trim v \<noteq> [])"

definition existing_media_item_has_accepted_remote_binding :: "int \<Rightarrow> media_db \<Rightarrow> bool" where
  "existing_media_item_has_accepted_remote_binding i st =
     (case find_item i st of None \<Rightarrow> False
      | Some r \<Rightarrow> is_word_of ''matched'' (mi_status r) \<and> filled (mi_provider r) \<and> filled (mi_provider_item r))"

definition existing_media_item_is_matched :: "int \<Rightarrow> media_db \<Rightarrow> bool" where
  "existing_media_item_is_matched i st =
     (case find_item i st of None \<Rightarrow> False | Some r \<Rightarrow> is_word_of ''matched'' (mi_status r))"

definition record_transient_metadata_refresh_failure :: "int \<Rightarrow> media_entry \<Rightarrow> media_db \<Rightarrow> media_error + media_db" where
  "record_transient_metadata_refresh_failure i e st =
     (if en_failure e \<noteq> Some METADATA_FAILURE_PROVIDER_ERROR then Inr st
      else set_item i (\<lambda>r. r\<lparr>mi_failure := Some METADATA_FAILURE_PROVIDER_ERROR\<rparr>) st)"

text \<open>A picture that is still at its remote address gives way to the cached one.\<close>

definition remote_address :: "ustr option \<Rightarrow> bool" where
  "remote_address p = (case p of None \<Rightarrow> False
     | Some s \<Rightarrow> starts_with (lit ''http://'') (to_ascii_lowercase s) \<or> starts_with (lit ''https://'') (to_ascii_lowercase s))"

definition promoted :: "ustr option \<Rightarrow> ustr option \<Rightarrow> ustr option" where
  "promoted cached current = (if cached \<noteq> None \<and> remote_address current then cached else current)"

definition promote_cached_artwork_paths ::
  "int \<Rightarrow> media_entry \<Rightarrow> ustr option \<times> ustr option \<times> ustr option \<Rightarrow> media_db \<Rightarrow> media_error + media_db" where
  "promote_cached_artwork_paths i e art st =
     (case art of (poster, backdrop, logo) \<Rightarrow>
        if \<not> is_word_of ''matched'' (en_status e) then Inr st
        else set_item i (\<lambda>r. r\<lparr>mi_details := (mi_details r)\<lparr>
               dt_poster := promoted (local_artwork_path poster) (dt_poster (mi_details r)),
               dt_backdrop := promoted (local_artwork_path backdrop) (dt_backdrop (mi_details r)),
               dt_logo := promoted (local_artwork_path logo) (dt_logo (mi_details r))\<rparr>\<rparr>) st)"

definition entry_artwork :: "media_entry \<Rightarrow> ustr option \<times> ustr option \<times> ustr option" where
  "entry_artwork e = (dt_poster (en_details e), dt_backdrop (en_details e), dt_logo (en_details e))"

definition apply_local_metadata_projection ::
  "sync_env \<Rightarrow> int \<Rightarrow> media_entry \<Rightarrow> projection_scope \<Rightarrow> media_db \<Rightarrow> media_error + media_db" where
  "apply_local_metadata_projection env i e scope st = set_item i (\<lambda>r. project_fields (se_project env scope e r) r) st"

text \<open>A bound item keeps its metadata when the entry's are not authoritative.\<close>

definition keep_bound_item ::
  "sync_env \<Rightarrow> projection_scope \<Rightarrow> int \<Rightarrow> media_entry \<Rightarrow> ustr option \<times> ustr option \<times> ustr option
    \<Rightarrow> media_db \<Rightarrow> media_error + media_db" where
  "keep_bound_item env scope i e art st =
     and_then (apply_local_metadata_projection env i e scope st) (\<lambda>st1.
     and_then (record_transient_metadata_refresh_failure i e st1) (promote_cached_artwork_paths i e art))"

definition update_existing_media_item_from_entry ::
  "sync_env \<Rightarrow> int \<Rightarrow> media_entry \<Rightarrow> bool \<Rightarrow> media_db \<Rightarrow> media_error + media_db" where
  "update_existing_media_item_from_entry env i e preserve st =
     (if preserve \<and> existing_media_item_has_accepted_remote_binding i st
      then keep_bound_item env MovieScope i e (entry_artwork e) st
      else update_media_item_from_entry i e st)"

subsection \<open>Files\<close>

definition insert_media_file :: "sync_env \<Rightarrow> int \<Rightarrow> media_entry \<Rightarrow> media_db \<Rightarrow> media_error + media_db" where
  "insert_media_file env i e st =
     checked (st\<lparr>md_files := md_files st @ [\<lparr>mf_id = md_next_file st, mf_library = en_library e, mf_item = i,
       mf_path = en_path e, mf_facts = en_facts e, mf_created_at = se_now env\<rparr>], md_next_file := md_next_file st + 1\<rparr>)"

definition update_media_file_from_entry :: "int \<Rightarrow> media_entry \<Rightarrow> media_db \<Rightarrow> media_error + media_db" where
  "update_media_file_from_entry f e st =
     checked (update_files (\<lambda>r. mf_id r = f) (\<lambda>r. r\<lparr>mf_path := en_path e, mf_facts := en_facts e\<rparr>) st)"

definition reassign_media_file_to_media_item :: "int \<Rightarrow> int \<Rightarrow> media_entry \<Rightarrow> media_db \<Rightarrow> media_error + media_db" where
  "reassign_media_file_to_media_item f target e st =
     checked (update_files (\<lambda>r. mf_id r = f) (\<lambda>r. r\<lparr>mf_item := target, mf_path := en_path e, mf_facts := en_facts e\<rparr>) st)"

definition reassign_media_file_parent_only :: "int \<Rightarrow> int \<Rightarrow> media_db \<Rightarrow> media_error + media_db" where
  "reassign_media_file_parent_only f target st =
     and_then (checked (update_files (\<lambda>r. mf_id r = f) (\<lambda>r. r\<lparr>mf_item := target\<rparr>) st)) (\<lambda>st'.
       if length (List.filter (\<lambda>r. mf_id r = f) (md_files st)) \<noteq> 1 then Inl FileVanished else Inr st')"

subsection \<open>What goes\<close>

definition has_files :: "int \<Rightarrow> media_db \<Rightarrow> bool" where
  "has_files i st = list_ex (\<lambda>f. mf_item f = i) (md_files st)"

text \<open>The episodes of a series, by their items.\<close>

definition episodes_of_series :: "int \<Rightarrow> media_db \<Rightarrow> int list" where
  "episodes_of_series series st =
     concat (map (\<lambda>s. map ep_item (List.filter (\<lambda>e. ep_season e = sn_id s) (md_episodes st)))
       (List.filter (\<lambda>s. sn_series s = series) (md_seasons st)))"

definition series_has_files :: "int \<Rightarrow> media_db \<Rightarrow> bool" where
  "series_has_files series st = list_ex (\<lambda>i. has_files i st) (episodes_of_series series st)"

definition find_series_id_for_episode :: "int \<Rightarrow> media_db \<Rightarrow> int option" where
  "find_series_id_for_episode i st =
     Option.bind (find_episode i st) (\<lambda>e. map_option sn_series (find_season (ep_season e) st))"

definition series_of_episode_has_files :: "int \<Rightarrow> media_db \<Rightarrow> bool" where
  "series_of_episode_has_files i st =
     (case find_series_id_for_episode i st of None \<Rightarrow> False | Some s \<Rightarrow> series_has_files s st)"

definition delete_media_item :: "int \<Rightarrow> media_db \<Rightarrow> media_db" where
  "delete_media_item i st = delete_items (\<lambda>r. mi_id r = i) st"

definition cleanup_media_item_if_no_files :: "int \<Rightarrow> media_db \<Rightarrow> media_db" where
  "cleanup_media_item_if_no_files i st =
     (if has_files i st then st else if series_of_episode_has_files i st then st else delete_media_item i st)"

definition delete_media_file_and_cleanup_item :: "int \<Rightarrow> int \<Rightarrow> media_db \<Rightarrow> media_db" where
  "delete_media_file_and_cleanup_item i f st = cleanup_media_item_if_no_files i (delete_files (\<lambda>r. mf_id r = f) st)"

definition delete_media_file_and_drop_empty_item :: "int \<Rightarrow> int \<Rightarrow> media_db \<Rightarrow> media_db" where
  "delete_media_file_and_drop_empty_item i f st =
     (let st' = delete_files (\<lambda>r. mf_id r = f) st in if has_files i st' then st' else delete_media_item i st')"

text \<open>Episodes of series that have no file at all; the count of the rows that go comes with them.\<close>

definition fileless_episode :: "int \<Rightarrow> media_db \<Rightarrow> media_item_row \<Rightarrow> bool" where
  "fileless_episode l st r =
     (mi_library r = l \<and> (case find_series_id_for_episode (mi_id r) st of None \<Rightarrow> False | Some s \<Rightarrow> \<not> series_has_files s st))"

definition delete_fileless_episodes_of_fileless_series :: "int \<Rightarrow> media_db \<Rightarrow> media_db \<times> nat" where
  "delete_fileless_episodes_of_fileless_series l st =
     (delete_items (fileless_episode l st) st, length (List.filter (fileless_episode l st) (md_items st)))"

definition orphan_season :: "int \<Rightarrow> media_db \<Rightarrow> season_row \<Rightarrow> bool" where
  "orphan_season l st s =
     (list_ex (\<lambda>r. mi_id r = sn_series s \<and> mi_library r = l \<and> mi_type r = SeriesItem) (md_items st)
      \<and> \<not> list_ex (\<lambda>e. ep_season e = sn_id s) (md_episodes st))"

definition orphan_series :: "int \<Rightarrow> media_db \<Rightarrow> media_item_row \<Rightarrow> bool" where
  "orphan_series l st r =
     (mi_library r = l \<and> mi_type r = SeriesItem \<and> \<not> list_ex (\<lambda>s. sn_series s = mi_id r) (md_seasons st))"

definition cleanup_orphan_series_structure :: "int \<Rightarrow> media_db \<Rightarrow> media_db \<times> nat" where
  "cleanup_orphan_series_structure l st =
     (let st1 = delete_seasons (orphan_season l st) st in
      (delete_items (orphan_series l st1) st1,
       length (List.filter (orphan_season l st) (md_seasons st)) + length (List.filter (orphan_series l st1) (md_items st1))))"

end
