(* ===== verification/Media_Entries.thy ===== *)
theory Media_Entries
  imports Media_Rows
begin

text \<open>
  How an entry of a scan is written to the tables (\<open>mova-db/src/media_items/sync.rs\<close>, \<open>series.rs\<close>):
  a movie, or an episode with its season and series, under its own item or one that is there; and the
  remote half of an entry whose local half is committed.
\<close>

subsection \<open>Movies\<close>

text \<open>The file of an entry moves to another item, and what users did with the old one goes along.\<close>

definition move_file_to_item :: "existing_file \<Rightarrow> int \<Rightarrow> media_entry \<Rightarrow> media_db \<Rightarrow> media_error + media_db" where
  "move_file_to_item x target e st =
     and_then (reassign_media_file_to_media_item (xf_file x) target e st) (merge_media_item_user_state (xf_item x) target)"

definition upsert_movie_media_entry ::
  "sync_env \<Rightarrow> media_entry \<Rightarrow> existing_file option \<Rightarrow> bool \<Rightarrow> media_db \<Rightarrow> media_error + media_db" where
  "upsert_movie_media_entry env e existing preserve st =
     (let found = find_existing_movie_media_item e (movie_group_title_for_entry e) st in
      case existing of
        Some x \<Rightarrow>
          if xf_type x \<noteq> MovieItem
          then and_then (case found of
                 Some m \<Rightarrow> map_ok (\<lambda>st1. (st1, m)) (update_existing_media_item_from_entry env m e preserve st)
               | None \<Rightarrow> insert_media_item e st) (\<lambda>(st1, target).
               and_then (move_file_to_item x target e st1) (\<lambda>st2.
                 let st3 = cleanup_media_item_if_no_files (xf_item x) st2 in
                 Inr (if xf_type x = SeriesItem then fst (cleanup_orphan_series_structure (en_library e) st3) else st3)))
          else if found \<noteq> None \<and> found \<noteq> Some (xf_item x)
          then (let m = the found in
               and_then (update_existing_media_item_from_entry env m e preserve st) (\<lambda>st1.
               and_then (move_file_to_item x m e st1) (\<lambda>st2.
                 Inr (cleanup_media_item_if_no_files (xf_item x) st2))))
          else and_then (update_existing_media_item_from_entry env (xf_item x) e preserve st)
                 (update_media_file_from_entry (xf_file x) e)
      | None \<Rightarrow>
          (case found of
             Some m \<Rightarrow> and_then (update_existing_media_item_from_entry env m e preserve st) (insert_media_file env m e)
           | None \<Rightarrow> and_then (insert_media_item e st) (\<lambda>(st1, i). insert_media_file env i e st1)))"

subsection \<open>Series and seasons\<close>

definition series_details :: "media_entry \<Rightarrow> item_details" where
  "series_details e =
     (case en_series_artwork e of (poster, backdrop, logo) \<Rightarrow>
        (en_details e)\<lparr>dt_poster := poster, dt_backdrop := backdrop, dt_logo := logo\<rparr>)"

text \<open>Pictures that an entry lacks are kept unless it may clear them.\<close>

definition keep_artwork :: "bool \<Rightarrow> item_details \<Rightarrow> item_details \<Rightarrow> item_details" where
  "keep_artwork clear new old =
     (if clear then new
      else new\<lparr>dt_poster := or_else (dt_poster new) (dt_poster old),
               dt_backdrop := or_else (dt_backdrop new) (dt_backdrop old),
               dt_logo := or_else (dt_logo new) (dt_logo old)\<rparr>)"

definition insert_series_item_from_entry :: "media_entry \<Rightarrow> media_db \<Rightarrow> media_error + media_db \<times> int" where
  "insert_series_item_from_entry e = add_item ((row_of_entry e SeriesItem)\<lparr>mi_details := series_details e\<rparr>)"

definition update_series_item_from_entry :: "int \<Rightarrow> media_entry \<Rightarrow> media_db \<Rightarrow> media_error + media_db" where
  "update_series_item_from_entry i e =
     set_item i (\<lambda>r. (row_of_entry e SeriesItem)\<lparr>mi_id := mi_id r, mi_library := mi_library r, mi_type := mi_type r,
       mi_details := keep_artwork (allows_artwork_clear e) (series_details e) (mi_details r)\<rparr>)"

definition no_refresh :: season_refresh where
  "no_refresh = \<lparr>rf_title = False, rf_overview = False, rf_poster = False, rf_backdrop = False\<rparr>"

text \<open>The series of an entry, whether its metadata was kept, and what its document changed.\<close>

definition upsert_series_item_from_entry ::
  "sync_env \<Rightarrow> media_entry \<Rightarrow> bool \<Rightarrow> media_db \<Rightarrow> media_error + media_db \<times> int \<times> bool \<times> season_refresh" where
  "upsert_series_item_from_entry env e preserve st =
     (case find_existing_series_item e st of
        Some i \<Rightarrow>
          (let keep = preserve \<and> existing_media_item_has_accepted_remote_binding i st in
           map_ok (\<lambda>st1. (st1, i, keep, se_refresh env i e))
             (if keep then keep_bound_item env SeriesScope i e (en_series_artwork e) st
              else update_series_item_from_entry i e st))
      | None \<Rightarrow> map_ok (\<lambda>(st1, i). (st1, i, False, no_refresh)) (insert_series_item_from_entry e st))"

definition two_digits :: "int \<Rightarrow> ustr" where
  "two_digits n = (if 0 \<le> n \<and> n < 10 then lit ''0'' @ int_text n else int_text n)"

definition season_title_for_entry :: "media_entry \<Rightarrow> int \<Rightarrow> ustr" where
  "season_title_for_entry e n =
     (case es_title (en_season e) of
        Some t \<Rightarrow> if trim t \<noteq> [] then trim t else lit ''Season '' @ two_digits n
      | None \<Rightarrow> lit ''Season '' @ two_digits n)"

definition season_from_entry :: "media_entry \<Rightarrow> int \<Rightarrow> int \<Rightarrow> season_row" where
  "season_from_entry e series n =
     \<lparr>sn_id = 0, sn_library = en_library e, sn_series = series, sn_number = n, sn_title = season_title_for_entry e n,
      sn_overview = es_overview (en_season e), sn_poster = es_poster (en_season e), sn_backdrop = es_backdrop (en_season e)\<rparr>"

text \<open>The update of a season that is there: kept, changed by a document, cleared, or filled in.\<close>

definition season_conflict :: "bool \<Rightarrow> bool \<Rightarrow> season_refresh \<Rightarrow> season_row \<Rightarrow> season_row \<Rightarrow> season_row" where
  "season_conflict clear preserve refresh new old =
     old\<lparr>sn_title := (if preserve \<and> \<not> rf_title refresh then sn_title old else sn_title new),
         sn_overview := (if preserve \<and> \<not> rf_overview refresh then sn_overview old
            else if preserve then sn_overview new else or_else (sn_overview new) (sn_overview old)),
         sn_poster := (if preserve \<and> \<not> rf_poster refresh then sn_poster old
            else if preserve \<or> clear then sn_poster new else or_else (sn_poster new) (sn_poster old)),
         sn_backdrop := (if preserve \<and> \<not> rf_backdrop refresh then sn_backdrop old
            else if preserve \<or> clear then sn_backdrop new else or_else (sn_backdrop new) (sn_backdrop old))\<rparr>"

definition find_season_of :: "int \<Rightarrow> int \<Rightarrow> media_db \<Rightarrow> int option" where
  "find_season_of series n st = map_option sn_id (List.find (\<lambda>s. sn_series s = series \<and> sn_number s = n) (md_seasons st))"

definition set_season :: "int \<Rightarrow> (season_row \<Rightarrow> season_row) \<Rightarrow> media_db \<Rightarrow> media_error + media_db" where
  "set_season i u st = checked (st\<lparr>md_seasons := map (\<lambda>s. if sn_id s = i then u s else s) (md_seasons st)\<rparr>)"

definition promote_season_cached_artwork_paths :: "int \<Rightarrow> media_entry \<Rightarrow> media_db \<Rightarrow> media_error + media_db" where
  "promote_season_cached_artwork_paths i e st =
     (if \<not> is_word_of ''matched'' (en_status e) then Inr st
      else set_season i (\<lambda>s. s\<lparr>sn_poster := promoted (local_artwork_path (es_poster (en_season e))) (sn_poster s),
             sn_backdrop := promoted (local_artwork_path (es_backdrop (en_season e))) (sn_backdrop s)\<rparr>) st)"

definition upsert_season ::
  "int \<Rightarrow> int \<Rightarrow> media_entry \<Rightarrow> bool \<Rightarrow> season_refresh \<Rightarrow> media_db \<Rightarrow> media_error + media_db \<times> int" where
  "upsert_season series n e preserve refresh st =
     and_then (case find_season_of series n st of
        Some i \<Rightarrow> map_ok (\<lambda>st1. (st1, i))
          (set_season i (season_conflict (allows_artwork_clear e) preserve refresh (season_from_entry e series n)) st)
      | None \<Rightarrow> map_ok (\<lambda>st1. (st1, md_next_season st))
          (checked (st\<lparr>md_seasons := md_seasons st @ [(season_from_entry e series n)\<lparr>sn_id := md_next_season st\<rparr>],
             md_next_season := md_next_season st + 1\<rparr>)))
     (\<lambda>(st1, i). map_ok (\<lambda>st2. (st2, i)) (if preserve then promote_season_cached_artwork_paths i e st1 else Inr st1))"

subsection \<open>Episodes\<close>

definition episode_title_for_entry :: "media_entry \<Rightarrow> int \<Rightarrow> ustr" where
  "episode_title_for_entry e n =
     (case ee_title (en_episode e) of
        Some t \<Rightarrow> if trim t \<noteq> [] then t else lit ''Episode '' @ two_digits n
      | None \<Rightarrow> lit ''Episode '' @ two_digits n)"

definition episode_source_title :: "media_entry \<Rightarrow> ustr" where
  "episode_source_title e = (case ee_title (en_episode e) of Some t \<Rightarrow> t | None \<Rightarrow> en_source_title e)"

definition episode_details :: "media_entry \<Rightarrow> item_details" where
  "episode_details e =
     (en_details e)\<lparr>dt_original_title := ee_original_title (en_episode e), dt_sort_title := ee_sort_title (en_episode e),
       dt_country := None, dt_genres := None, dt_studio := None, dt_overview := ee_overview (en_episode e),
       dt_tagline := ee_tagline (en_episode e), dt_premiere := ee_premiere (en_episode e), dt_rating := ee_rating (en_episode e)\<rparr>"

definition episode_row_of_entry :: "media_entry \<Rightarrow> int \<Rightarrow> media_item_row" where
  "episode_row_of_entry e n =
     \<lparr>mi_id = 0, mi_library = en_library e, mi_type = EpisodeItem, mi_title = episode_title_for_entry e n,
      mi_source_title = episode_source_title e, mi_provider = None, mi_provider_item = None,
      mi_status = en_status e, mi_failure = en_failure e, mi_year = ee_year (en_episode e), mi_details = episode_details e\<rparr>"

definition insert_episode_media_item :: "media_entry \<Rightarrow> int \<Rightarrow> media_db \<Rightarrow> media_error + media_db \<times> int" where
  "insert_episode_media_item e n = add_item (episode_row_of_entry e n)"

definition update_episode_media_item_from_entry :: "int \<Rightarrow> media_entry \<Rightarrow> media_db \<Rightarrow> media_error + media_db" where
  "update_episode_media_item_from_entry i e st =
     (case ee_number (en_episode e) of None \<Rightarrow> Inl MissingNumber
      | Some n \<Rightarrow> set_item i (\<lambda>r. (episode_row_of_entry e n)\<lparr>mi_id := mi_id r, mi_library := mi_library r, mi_type := mi_type r,
          mi_provider := mi_provider r, mi_provider_item := mi_provider_item r,
          mi_details := keep_artwork (allows_artwork_clear e) (episode_details e) (mi_details r)\<rparr>) st)"

definition update_existing_episode_media_item ::
  "sync_env \<Rightarrow> int \<Rightarrow> media_entry \<Rightarrow> bool \<Rightarrow> media_db \<Rightarrow> media_error + media_db" where
  "update_existing_episode_media_item env i e preserve st =
     (if preserve \<and> existing_media_item_is_matched i st
      then keep_bound_item env EpisodeScope i e (entry_artwork e) st
      else update_episode_media_item_from_entry i e st)"

definition insert_episode_record :: "int \<Rightarrow> int \<Rightarrow> int \<Rightarrow> int \<Rightarrow> media_db \<Rightarrow> media_error + media_db" where
  "insert_episode_record i l season n st =
     checked (st\<lparr>md_episodes := md_episodes st @ [\<lparr>ep_item = i, ep_library = l, ep_season = season, ep_number = n\<rparr>]\<rparr>)"

definition find_existing_episode_media_item :: "int \<Rightarrow> int \<Rightarrow> media_db \<Rightarrow> int option" where
  "find_existing_episode_media_item season n st =
     map_option ep_item (List.find (\<lambda>e. ep_season e = season \<and> ep_number e = n) (md_episodes st))"

definition update_episode_record :: "int \<Rightarrow> int \<Rightarrow> int \<Rightarrow> int \<Rightarrow> media_db \<Rightarrow> media_error + media_db" where
  "update_episode_record i l season n st =
     and_then (checked (st\<lparr>md_episodes := map (\<lambda>e. if ep_item e = i
         then e\<lparr>ep_library := l, ep_season := season, ep_number := n\<rparr> else e) (md_episodes st)\<rparr>)) (\<lambda>st1.
       if find_episode i st = None then insert_episode_record i l season n st1 else Inr st1)"

definition insert_episode_structure :: "media_entry \<Rightarrow> int \<Rightarrow> int \<Rightarrow> media_db \<Rightarrow> media_error + media_db \<times> int" where
  "insert_episode_structure e season n st =
     and_then (insert_episode_media_item e n st) (\<lambda>(st1, i).
       map_ok (\<lambda>st2. (st2, i)) (insert_episode_record i (en_library e) season n st1))"

definition insert_episode_media_tree :: "sync_env \<Rightarrow> media_entry \<Rightarrow> int \<Rightarrow> int \<Rightarrow> media_db \<Rightarrow> media_error + media_db" where
  "insert_episode_media_tree env e season n st =
     and_then (insert_episode_structure e season n st) (\<lambda>(st1, i). insert_media_file env i e st1)"

text \<open>What users did with the old series of an episode follows it to the new one.\<close>

definition follow_series :: "int option \<Rightarrow> int \<Rightarrow> media_db \<Rightarrow> media_error + media_db" where
  "follow_series previous series st =
     (case previous of None \<Rightarrow> Inr st | Some p \<Rightarrow> merge_media_item_user_state p series st)"

definition place_existing_episode ::
  "sync_env \<Rightarrow> media_entry \<Rightarrow> existing_file \<Rightarrow> int \<Rightarrow> bool \<Rightarrow> int \<Rightarrow> int \<Rightarrow> media_db \<Rightarrow> media_error + media_db" where
  "place_existing_episode env e x series keep season n st =
     (let found = find_existing_episode_media_item season n st in
      if xf_type x \<noteq> EpisodeItem
      then and_then (case found of
             Some m \<Rightarrow> map_ok (\<lambda>st1. (st1, m)) (update_existing_episode_media_item env m e keep st)
           | None \<Rightarrow> insert_episode_structure e season n st) (\<lambda>(st1, target).
           and_then (move_file_to_item x target e st1) (\<lambda>st2.
           and_then (if xf_type x = MovieItem then regroup_continue_watching_under_series target series st2 else Inr st2) (\<lambda>st3.
             let st4 = cleanup_media_item_if_no_files (xf_item x) st3 in
             Inr (if xf_type x = SeriesItem then fst (cleanup_orphan_series_structure (en_library e) st4) else st4))))
      else
        (let previous = find_series_id_for_episode (xf_item x) st in
         if found \<noteq> None \<and> found \<noteq> Some (xf_item x)
         then (let m = the found in
              and_then (update_existing_episode_media_item env m e keep st) (\<lambda>st1.
              and_then (move_file_to_item x m e st1) (\<lambda>st2.
              and_then (follow_series previous series st2) (\<lambda>st3.
                Inr (cleanup_media_item_if_no_files (xf_item x) st3)))))
         else and_then (update_existing_episode_media_item env (xf_item x) e keep st) (\<lambda>st1.
              and_then (update_episode_record (xf_item x) (en_library e) season n st1) (\<lambda>st2.
              and_then (follow_series previous series st2)
                (update_media_file_from_entry (xf_file x) e)))))"

definition upsert_episode_media_entry ::
  "sync_env \<Rightarrow> media_entry \<Rightarrow> existing_file option \<Rightarrow> bool \<Rightarrow> media_db \<Rightarrow> media_error + media_db" where
  "upsert_episode_media_entry env e existing preserve st =
     and_then (ok_or MissingNumber (es_number (en_season e))) (\<lambda>sn.
     and_then (ok_or MissingNumber (ee_number (en_episode e))) (\<lambda>n.
     and_then (upsert_series_item_from_entry env e preserve st) (\<lambda>(st1, series, keep, refresh).
     and_then (upsert_season series sn e keep refresh st1) (\<lambda>(st2, season).
       case existing of
         Some x \<Rightarrow> place_existing_episode env e x series keep season n st2
       | None \<Rightarrow>
           (case find_existing_episode_media_item season n st2 of
              Some m \<Rightarrow> and_then (update_existing_episode_media_item env m e keep st2) (insert_media_file env m e)
            | None \<Rightarrow> insert_episode_media_tree env e season n st2)))))"

definition upsert_media_entry_with_policy ::
  "sync_env \<Rightarrow> media_entry \<Rightarrow> existing_file option \<Rightarrow> bool \<Rightarrow> media_db \<Rightarrow> media_error + media_db" where
  "upsert_media_entry_with_policy env e existing preserve st =
     (if is_word_of ''episode'' (en_type e) then upsert_episode_media_entry env e existing preserve st
      else upsert_movie_media_entry env e existing preserve st)"

definition upsert_media_entry :: "sync_env \<Rightarrow> media_entry \<Rightarrow> existing_file option \<Rightarrow> media_db \<Rightarrow> media_error + media_db" where
  "upsert_media_entry env e existing = upsert_media_entry_with_policy env e existing False"

end
