(* ===== verification/Media_Sync.thy ===== *)
theory Media_Sync
  imports Media_Entries
begin

text \<open>
  The transactions of a scan on the tables (\<open>mova-db/src/media_items/sync.rs\<close>, \<open>series.rs\<close>): the local
  and the remote half of a group of files, the reconciliation with what the scan found, and the
  deletions by path. What a transaction does to jobs is that of \<open>Scan_Jobs\<close>. A hash map is read in the
  order of its rows. Revisions of the library are counted by the transactions that announce them.
\<close>

subsection \<open>The remote half of an entry\<close>

definition restore_local_metadata_projection ::
  "sync_env \<Rightarrow> projection_scope \<Rightarrow> int \<Rightarrow> media_entry \<Rightarrow> media_item_row \<Rightarrow> media_db \<Rightarrow> media_error + media_db" where
  "restore_local_metadata_projection env scope i e checkpoint =
     set_item i (\<lambda>r. project_fields (se_restore env scope e checkpoint r) r)"

definition coalesced_type :: "media_entry \<Rightarrow> item_details \<Rightarrow> item_details" where
  "coalesced_type e d = d\<lparr>dt_remote_type := or_else (dt_remote_type (en_details e)) (dt_remote_type d)\<rparr>"

definition patch_media_item_remote_fields ::
  "int \<Rightarrow> media_entry \<Rightarrow> bool \<Rightarrow> ustr option \<times> ustr option \<times> ustr option \<Rightarrow> media_db \<Rightarrow> media_error + media_db" where
  "patch_media_item_remote_fields i e preserve art st =
     (if preserve \<and> existing_media_item_has_accepted_remote_binding i st
      then and_then (record_transient_metadata_refresh_failure i e st) (promote_cached_artwork_paths i e art)
      else if \<not> en_replace_remote e
      then set_item i (\<lambda>r. r\<lparr>mi_status := en_status e, mi_failure := en_failure e,
             mi_details := coalesced_type e (mi_details r)\<rparr>) st
      else set_item i (\<lambda>r. r\<lparr>mi_title := display_title_for_entry e, mi_provider := en_provider e,
             mi_provider_item := en_provider_item e, mi_status := en_status e, mi_failure := en_failure e,
             mi_year := en_year e,
             mi_details := (keep_artwork (en_artwork_clear e)
               (case art of (poster, backdrop, logo) \<Rightarrow>
                  (en_details e)\<lparr>dt_poster := poster, dt_backdrop := backdrop, dt_logo := logo\<rparr>) (mi_details r))
               \<lparr>dt_sort_title := dt_sort_title (mi_details r)\<rparr>\<rparr>) st)"

definition patch_movie_remote_entry ::
  "sync_env \<Rightarrow> media_entry \<Rightarrow> existing_file \<Rightarrow> bool \<Rightarrow> media_db \<Rightarrow> media_error + media_db" where
  "patch_movie_remote_entry env e x preserve st =
     (if xf_type x \<noteq> MovieItem then Inl TypeChanged
      else (let target = (if preserve then xf_item x
              else case find_existing_movie_media_item e (movie_group_title_for_entry e) st of
                     Some m \<Rightarrow> m | None \<Rightarrow> xf_item x) in
        and_then (ok_or NotCommitted (find_item target st)) (\<lambda>checkpoint.
        and_then (if preserve then apply_local_metadata_projection env target e MovieScope st else Inr st) (\<lambda>st1.
        and_then (patch_media_item_remote_fields target e preserve (entry_artwork e) st1) (\<lambda>st2.
        and_then (restore_local_metadata_projection env MovieScope target e checkpoint st2) (\<lambda>st3.
          if target = xf_item x then Inr st3
          else and_then (reassign_media_file_parent_only (xf_file x) target st3) (\<lambda>st4.
               and_then (merge_media_item_user_state (xf_item x) target st4) (\<lambda>st5.
                 Inr (cleanup_media_item_if_no_files (xf_item x) st5)))))))))"

definition patch_episode_remote_fields ::
  "sync_env \<Rightarrow> int \<Rightarrow> media_entry \<Rightarrow> bool \<Rightarrow> bool \<Rightarrow> media_db \<Rightarrow> media_error + media_db" where
  "patch_episode_remote_fields env i e preserve replace st =
     (if preserve \<and> existing_media_item_is_matched i st then keep_bound_item env EpisodeScope i e (entry_artwork e) st
      else if \<not> replace
      then set_item i (\<lambda>r. r\<lparr>mi_status := en_status e, mi_failure := en_failure e,
             mi_details := coalesced_type e (mi_details r)\<rparr>) st
      else (case ee_number (en_episode e) of None \<Rightarrow> Inl MissingNumber
            | Some n \<Rightarrow> set_item i (\<lambda>r. r\<lparr>mi_title := episode_title_for_entry e n, mi_status := en_status e,
                mi_failure := en_failure e, mi_year := ee_year (en_episode e),
                mi_details := (keep_artwork (en_artwork_clear e) (episode_details e) (mi_details r))
                  \<lparr>dt_country := dt_country (mi_details r), dt_genres := dt_genres (mi_details r),
                   dt_studio := dt_studio (mi_details r)\<rparr>\<rparr>) st))"

text \<open>The series, season and number that an episode is committed under.\<close>

definition existing_episode_coordinates :: "int \<Rightarrow> media_db \<Rightarrow> (int \<times> int \<times> int) option" where
  "existing_episode_coordinates i st =
     Option.bind (find_episode i st) (\<lambda>e. map_option (\<lambda>s. (sn_series s, sn_number s, ep_number e)) (find_season (ep_season e) st))"

definition patch_series_of_episode ::
  "sync_env \<Rightarrow> media_entry \<Rightarrow> int \<Rightarrow> bool \<Rightarrow> media_db \<Rightarrow> media_error + media_db" where
  "patch_series_of_episode env e series preserve st =
     and_then (ok_or NotCommitted (find_item series st)) (\<lambda>checkpoint.
     and_then (if preserve then apply_local_metadata_projection env series e SeriesScope st else Inr st) (\<lambda>st1.
     and_then (patch_media_item_remote_fields series e preserve (en_series_artwork e) st1)
       (restore_local_metadata_projection env SeriesScope series e checkpoint)))"

definition patch_episode_item ::
  "sync_env \<Rightarrow> media_entry \<Rightarrow> int \<Rightarrow> bool \<Rightarrow> bool \<Rightarrow> media_db \<Rightarrow> media_error + media_db" where
  "patch_episode_item env e i keep replace st =
     and_then (ok_or NotCommitted (find_item i st)) (\<lambda>checkpoint.
     and_then (patch_episode_remote_fields env i e keep replace st)
       (restore_local_metadata_projection env EpisodeScope i e checkpoint))"

text \<open>The episode that has the place in the season, or the one that the file had.\<close>

definition patch_placed_episode ::
  "sync_env \<Rightarrow> media_entry \<Rightarrow> existing_file \<Rightarrow> bool \<Rightarrow> bool \<Rightarrow> int \<Rightarrow> int \<Rightarrow> media_db \<Rightarrow> media_error + media_db" where
  "patch_placed_episode env e x keep preserve season n st =
     (let found = find_existing_episode_media_item season n st in
      if found \<noteq> None \<and> found \<noteq> Some (xf_item x)
      then (let target = the found in
        and_then (patch_episode_item env e target keep (\<not> preserve) st) (\<lambda>st1.
        and_then (reassign_media_file_parent_only (xf_file x) target st1) (\<lambda>st2.
        and_then (merge_media_item_user_state (xf_item x) target st2) (\<lambda>st3.
          Inr (cleanup_media_item_if_no_files (xf_item x) st3)))))
      else and_then (patch_episode_item env e (xf_item x) keep (\<not> preserve) st)
             (update_episode_record (xf_item x) (en_library e) season n))"

definition patch_episode_remote_entry ::
  "sync_env \<Rightarrow> media_entry \<Rightarrow> existing_file \<Rightarrow> bool \<Rightarrow> media_db \<Rightarrow> media_error + media_db" where
  "patch_episode_remote_entry env e x preserve st =
     (if xf_type x \<noteq> EpisodeItem then Inl TypeChanged
      else
        and_then (ok_or MissingNumber (es_number (en_season e))) (\<lambda>sn.
        and_then (ok_or MissingNumber (ee_number (en_episode e))) (\<lambda>n.
        and_then (ok_or NotCommitted (existing_episode_coordinates (xf_item x) st)) (\<lambda>(stored, stored_sn, stored_n).
          if stored_sn \<noteq> sn \<or> stored_n \<noteq> n then Inl CoordinatesChanged
          else
            (let series = (case find_existing_series_item e st of Some s \<Rightarrow> s | None \<Rightarrow> stored);
                 keep = preserve \<and> existing_media_item_has_accepted_remote_binding series st in
             and_then (patch_series_of_episode env e series preserve st) (\<lambda>st1.
             and_then (upsert_season series sn e preserve (se_refresh env series e) st1) (\<lambda>(st2, season).
             and_then (patch_placed_episode env e x keep preserve season n st2) (\<lambda>st3.
               if stored \<noteq> series then merge_media_item_user_state stored series st3 else Inr st3))))))))"

subsection \<open>Groups of files\<close>

definition take_existing :: "ustr \<Rightarrow> existing_file list \<Rightarrow> existing_file option \<times> existing_file list" where
  "take_existing path xs = (List.find (\<lambda>x. xf_path x = path) xs, List.filter (\<lambda>x. xf_path x \<noteq> path) xs)"

fun upsert_each ::
  "sync_env \<Rightarrow> bool \<Rightarrow> media_entry list \<Rightarrow> existing_file list \<Rightarrow> media_db \<Rightarrow> media_error + media_db" where
  "upsert_each env preserve [] xs st = Inr st"
| "upsert_each env preserve (e # es) xs st =
     (let (existing, rest) = take_existing (en_path e) xs in
      and_then (upsert_media_entry_with_policy env e existing preserve st) (upsert_each env preserve es rest))"

fun patch_each ::
  "sync_env \<Rightarrow> int \<Rightarrow> bool \<Rightarrow> media_entry list \<Rightarrow> existing_file list \<Rightarrow> media_db \<Rightarrow> media_error + media_db" where
  "patch_each env l preserve [] xs st = Inr st"
| "patch_each env l preserve (e # es) xs st =
     (if en_library e \<noteq> l then Inl WrongLibrary
      else (let (existing, rest) = take_existing (en_path e) xs in
        and_then (ok_or NotCommitted existing) (\<lambda>x.
        and_then (if is_word_of ''episode'' (en_type e) then patch_episode_remote_entry env e x preserve st
                  else if is_word_of ''movie'' (en_type e) then patch_movie_remote_entry env e x preserve st
                  else Inl UnknownType) (patch_each env l preserve es rest))))"

definition cleanup_structure :: "int \<Rightarrow> media_db \<Rightarrow> media_db" where
  "cleanup_structure l st =
     fst (cleanup_orphan_series_structure l (fst (delete_fileless_episodes_of_fileless_series l st)))"

definition entries_count :: "media_entry list \<Rightarrow> int" where
  "entries_count es = min (int (length es)) (2 ^ 31 - 1)"

text \<open>
  The transaction of a group: behind the fence, the catalog, the progress of the scan, the commit.
  \<open>write_entries\<close> is what the stage makes of the entries.
\<close>

definition commit_group ::
  "(rat \<Rightarrow> rat \<Rightarrow> rat) \<Rightarrow> (media_db \<Rightarrow> media_error + media_db) \<Rightarrow> int \<Rightarrow> int \<Rightarrow> ustr \<Rightarrow> commit_stage \<Rightarrow> media_entry list
    \<Rightarrow> job_fence \<Rightarrow> bool \<Rightarrow> nat \<Rightarrow> media_db \<times> job_store \<Rightarrow> media_error + (media_db \<times> job_store) \<times> scan_row" where
  "commit_group ndiv write_entries i l key stage es f cleanup clk = (\<lambda>(st, js).
     if es = [] then Inl EmptyGroup
     else
       and_then (map_err ScanFault (lock_library_scan_background_job_fence f clk i (Some l) RunningMode js)) (\<lambda>_.
       and_then (write_entries st) (\<lambda>st1.
         (let st2 = (if cleanup then cleanup_structure l st1 else st1) in
          and_then (map_err ScanFault (advance_scan_group_progress ndiv i key (entries_count es) stage js)) (\<lambda>(js', scan).
          and_then (commit st2) (\<lambda>st3. Inr ((st3, js'), scan)))))))"

definition upsert_library_media_entries_by_file_path_internal ::
  "(rat \<Rightarrow> rat \<Rightarrow> rat) \<Rightarrow> sync_env \<Rightarrow> int \<Rightarrow> int \<Rightarrow> ustr \<Rightarrow> commit_stage \<Rightarrow> media_entry list \<Rightarrow> job_fence \<Rightarrow> bool
    \<Rightarrow> nat \<Rightarrow> media_db \<times> job_store \<Rightarrow> media_error + (media_db \<times> job_store) \<times> scan_row" where
  "upsert_library_media_entries_by_file_path_internal ndiv env i l key stage es f cleanup clk =
     commit_group ndiv (\<lambda>st. upsert_each env (should_preserve_existing_parent stage es) (entries_ordered_for_local_metadata es)
         (list_library_media_files_for_paths l (map en_path es) st) st) i l key stage es f cleanup clk"

definition patch_library_media_entries_remote_by_file_path_internal ::
  "(rat \<Rightarrow> rat \<Rightarrow> rat) \<Rightarrow> sync_env \<Rightarrow> int \<Rightarrow> int \<Rightarrow> ustr \<Rightarrow> media_entry list \<Rightarrow> job_fence \<Rightarrow> bool
    \<Rightarrow> nat \<Rightarrow> media_db \<times> job_store \<Rightarrow> media_error + (media_db \<times> job_store) \<times> scan_row" where
  "patch_library_media_entries_remote_by_file_path_internal ndiv env i l key es f cleanup clk =
     commit_group ndiv (\<lambda>st. patch_each env l (should_preserve_existing_parent RemoteStage es) es
         (list_library_media_files_for_paths l (map en_path es) st) st) i l key RemoteStage es f cleanup clk"

subsection \<open>Single files and whole libraries\<close>

definition upsert_library_media_entry_by_file_path :: "sync_env \<Rightarrow> int \<Rightarrow> media_entry \<Rightarrow> media_db \<Rightarrow> media_error + media_db" where
  "upsert_library_media_entry_by_file_path env l e st =
     and_then (upsert_media_entry env e (get_existing_library_media_file_by_path l (en_path e) st) st)
       (\<lambda>st1. commit (cleanup_structure l st1))"

definition delete_library_media_by_file_path :: "int \<Rightarrow> ustr \<Rightarrow> media_db \<Rightarrow> media_error + media_db \<times> nat" where
  "delete_library_media_by_file_path l path st =
     (case get_existing_library_media_file_by_path l path st of
        None \<Rightarrow> Inr (st, 0)
      | Some x \<Rightarrow> map_ok (\<lambda>st'. (st', 1))
          (commit (cleanup_structure l (delete_media_file_and_cleanup_item (xf_item x) (xf_file x) st))))"

text \<open>\<open>like\<close>: \<open>%\<close> stands for any text, \<open>_\<close> for any character, a backslash for the next one.\<close>

fun sql_like :: "ustr \<Rightarrow> ustr \<Rightarrow> bool" where
  "sql_like [] t \<longleftrightarrow> t = []"
| "sql_like (c # p) t \<longleftrightarrow>
     (if c = 37 then list_ex (\<lambda>n. sql_like p (drop n t)) [0..<Suc (length t)]
      else if c = 95 then (case t of [] \<Rightarrow> False | _ # t' \<Rightarrow> sql_like p t')
      else if c = 92
      then (case p of [] \<Rightarrow> False | d # p' \<Rightarrow> (case t of [] \<Rightarrow> False | x # t' \<Rightarrow> x = d \<and> sql_like p' t'))
      else (case t of [] \<Rightarrow> False | x # t' \<Rightarrow> x = c \<and> sql_like p t'))"

declare sql_like.simps [simp del]

definition delete_library_media_by_path_prefix :: "int \<Rightarrow> ustr \<Rightarrow> media_db \<Rightarrow> media_error + media_db \<times> nat" where
  "delete_library_media_by_path_prefix l directory st =
     (let gone = List.filter (\<lambda>f. mf_library f = l \<and> (mf_path f = directory \<or> sql_like (directory @ lit ''/%'') (mf_path f))) (md_files st);
          st1 = fold (\<lambda>f. delete_media_file_and_cleanup_item (mf_item f) (mf_id f)) gone st in
      map_ok (\<lambda>st'. (st', length gone)) (commit (if gone = [] then st1 else cleanup_structure l st1)))"

definition sync_library_media :: "sync_env \<Rightarrow> int \<Rightarrow> media_entry list \<Rightarrow> media_db \<Rightarrow> media_error + media_db" where
  "sync_library_media env l es st =
     (let existing = list_library_media_files_for_sync l st;
          st1 = fold (\<lambda>x. delete_media_file_and_cleanup_item (xf_item x) (xf_file x))
            (List.filter (\<lambda>x. xf_path x \<notin> set (map en_path es)) existing) st in
      and_then (upsert_each env False es existing st1) (\<lambda>st2. commit (cleanup_structure l st2)))"

record sync_outcome =
  so_removed :: nat
  so_upserted :: nat
  so_failed :: nat

text \<open>Each path and each entry in a transaction of its own; what fails is counted.\<close>

definition best_effort :: "('a \<Rightarrow> media_db \<Rightarrow> media_error + media_db) \<Rightarrow> (sync_outcome \<Rightarrow> sync_outcome)
    \<Rightarrow> 'a \<Rightarrow> media_db \<times> sync_outcome \<Rightarrow> media_db \<times> sync_outcome" where
  "best_effort act count x = (\<lambda>(st, out). case act x st of
      Inr st' \<Rightarrow> (st', count out) | Inl _ \<Rightarrow> (st, out\<lparr>so_failed := so_failed out + 1\<rparr>))"

definition sync_library_media_best_effort ::
  "sync_env \<Rightarrow> int \<Rightarrow> media_entry list \<Rightarrow> media_db \<Rightarrow> media_db \<times> sync_outcome" where
  "sync_library_media_best_effort env l es st =
     fold (best_effort (upsert_library_media_entry_by_file_path env l) (\<lambda>out. out\<lparr>so_upserted := so_upserted out + 1\<rparr>)) es
       (fold (best_effort (\<lambda>path st'. map_ok fst (delete_library_media_by_file_path l path st'))
            (\<lambda>out. out\<lparr>so_removed := so_removed out + 1\<rparr>))
          (List.filter (\<lambda>p. p \<notin> set (map en_path es)) (map mf_path (List.filter (\<lambda>f. mf_library f = l) (md_files st))))
          (st, \<lparr>so_removed = 0, so_upserted = 0, so_failed = 0\<rparr>))"

end
