(* ===== verification/Media_Reconcile.thy ===== *)
theory Media_Reconcile
  imports Media_Sync Library_Storage
begin

text \<open>
  The last transaction of a scan (\<open>sync_library_media_changes\<close> in \<open>media_items/sync.rs\<close>): what users did
  with a renamed file follows it, paths that are gone are removed, and so are series that have lost all
  of their files. With it the clean-up after a scan that was cut short. The documents of the library and
  the record of its storage are left out; how many documents went is an argument.
\<close>

subsection \<open>Renamed files\<close>

record renamed_file =
  rn_old :: ustr
  rn_new :: ustr

definition media_item_binding :: "int \<Rightarrow> media_db \<Rightarrow> (ustr \<times> ustr) option" where
  "media_item_binding i st =
     (case find_item i st of
        Some r \<Rightarrow> (case (mi_provider r, mi_provider_item r) of (Some p, Some k) \<Rightarrow> Some (p, k) | _ \<Rightarrow> None)
      | None \<Rightarrow> None)"

text \<open>Two items are taken for the same work unless both are bound and differ.\<close>

definition is_same_work :: "(ustr \<times> ustr) option \<Rightarrow> (ustr \<times> ustr) option \<Rightarrow> bool" where
  "is_same_work old new = (case (old, new) of (Some a, Some b) \<Rightarrow> a = b | _ \<Rightarrow> True)"

definition repoint_progress :: "int \<Rightarrow> int \<Rightarrow> int \<Rightarrow> media_db \<Rightarrow> media_error + media_db" where
  "repoint_progress old i new st =
     checked (st\<lparr>md_progress := map (\<lambda>p. if pg_item p = i \<and> pg_file p = Some old then p\<lparr>pg_file := Some new\<rparr> else p)
       (md_progress st)\<rparr>)"

definition carry_renamed ::
  "ustr list \<Rightarrow> existing_file list \<Rightarrow> renamed_file \<Rightarrow> media_db \<times> int list \<Rightarrow> media_error + media_db \<times> int list" where
  "carry_renamed observed xs r = (\<lambda>(st, moved).
     if rn_old r \<in> set observed then Inr (st, moved)
     else (case (List.find (\<lambda>x. xf_path x = rn_old r) xs, List.find (\<lambda>x. xf_path x = rn_new r) xs) of
        (Some old, Some new) \<Rightarrow>
          if xf_item old = xf_item new then Inr (st, moved)
          else if \<not> is_same_work (media_item_binding (xf_item old) st) (media_item_binding (xf_item new) st)
          then Inr (st, xf_item old # moved)
          else and_then (merge_media_item_user_state (xf_item old) (xf_item new) st) (\<lambda>st1.
               map_ok (\<lambda>st2. (st2, xf_item old # moved)) (repoint_progress (xf_file old) (xf_item new) (xf_file new) st1))
      | _ \<Rightarrow> Inr (st, moved)))"

fun try_fold :: "('a \<Rightarrow> 's \<Rightarrow> 'e + 's) \<Rightarrow> 'a list \<Rightarrow> 's \<Rightarrow> 'e + 's" where
  "try_fold f [] s = Inr s"
| "try_fold f (x # xs) s = and_then (f x s) (try_fold f xs)"

subsection \<open>Removal\<close>

definition remove_missing :: "int list \<Rightarrow> existing_file \<Rightarrow> media_db \<Rightarrow> media_db" where
  "remove_missing moved x st =
     (if xf_item x \<in> set moved then delete_media_file_and_drop_empty_item (xf_item x) (xf_file x) st
      else delete_media_file_and_cleanup_item (xf_item x) (xf_file x) st)"

subsection \<open>The transaction\<close>

text \<open>The entries are written as they come; with the counts, whether the change is announced.\<close>

definition sync_library_media_changes ::
  "sync_env \<Rightarrow> int \<Rightarrow> int \<Rightarrow> ustr list \<Rightarrow> ustr list \<Rightarrow> media_entry list \<Rightarrow> ustr list option \<Rightarrow> renamed_file list \<Rightarrow> nat
    \<Rightarrow> job_fence \<Rightarrow> nat \<Rightarrow> job_store \<Rightarrow> media_db \<Rightarrow> media_error + media_db \<times> sync_outcome \<times> bool" where
  "sync_library_media_changes env l i discovered retained es scope renamed documents f clk js st =
     and_then (map_err ScanFault (lock_library_scan_background_job_fence f clk i (Some l) RunningMode js)) (\<lambda>_.
     (let xs = list_library_media_files_for_sync l st in
      and_then (try_fold (carry_renamed (discovered @ retained) xs) renamed (st, [])) (\<lambda>(st1, moved).
      (let missing = missing_in_sync discovered retained scope (map xf_path xs);
           gone = List.filter (\<lambda>x. xf_path x \<in> set missing) xs;
           st2 = fold (remove_missing moved) gone st1 in
       and_then (upsert_each env False es (List.filter (\<lambda>x. xf_path x \<notin> set missing) xs) st2) (\<lambda>st3.
       (let (st4, ghosts) = delete_fileless_episodes_of_fileless_series l st3;
            (st5, orphan_structure) = delete_fileless_episodes_of_fileless_series l st4;
            st6 = fst (cleanup_orphan_series_structure l st5);
            removed = length gone + ghosts in
        map_ok (\<lambda>st7. (st7, \<lparr>so_removed = removed, so_upserted = length es, so_failed = 0\<rparr>,
            0 < removed \<or> 0 < length es \<or> 0 < documents \<or> 0 < orphan_structure)) (commit st6)))))))"

definition cleanup_library_orphan_series_after_scan ::
  "int \<Rightarrow> int \<Rightarrow> job_fence \<Rightarrow> bool \<Rightarrow> nat \<Rightarrow> job_store \<Rightarrow> media_db \<Rightarrow> media_error + media_db \<times> nat" where
  "cleanup_library_orphan_series_after_scan l i f allow_cancel_requested clk js st =
     and_then (map_err ScanFault (lock_library_scan_background_job_fence f clk i (Some l)
         (if allow_cancel_requested then ActiveMode else RunningMode) js)) (\<lambda>_.
       (let (st1, removed) = cleanup_orphan_series_structure l st in map_ok (\<lambda>st2. (st2, removed)) (commit st1)))"

end
