(* ===== verification/Media_Steps.thy ===== *)
theory Media_Steps
  imports Media_Reconcile
begin

text \<open>
  What holds of every transaction on the tables because it holds of every statement: a reflexive and
  transitive relation between the tables before and after, as an interface that the statements provide.
\<close>

locale media_relation =
  fixes R :: "media_db \<Rightarrow> media_db \<Rightarrow> bool"
  assumes refl [simp]: "R st st"
    and trans [trans]: "R st st' \<Longrightarrow> R st' st'' \<Longrightarrow> R st st''"
    and added_item: "add_item r st = Inr (st', i) \<Longrightarrow> R st st'"
    and changed_item: "set_item i u st = Inr st' \<Longrightarrow> (\<And>r. mi_id (u r) = mi_id r) \<Longrightarrow> R st st'"
    and added_file: "insert_media_file env i e st = Inr st' \<Longrightarrow> R st st'"
    and changed_file: "checked (update_files P v st) = Inr st' \<Longrightarrow> (\<And>f. mf_id (v f) = mf_id f) \<Longrightarrow> R st st'"
    and added_season: "checked (st\<lparr>md_seasons := md_seasons st @ [s\<lparr>sn_id := md_next_season st\<rparr>],
        md_next_season := md_next_season st + 1\<rparr>) = Inr st' \<Longrightarrow> R st st'"
    and changed_season: "set_season i w st = Inr st' \<Longrightarrow> (\<And>s. sn_id (w s) = sn_id s) \<Longrightarrow> R st st'"
    and changed_episodes: "checked (st\<lparr>md_episodes := es\<rparr>) = Inr st' \<Longrightarrow> R st st'"
    and merged: "merge_media_item_user_state a b st = Inr st' \<Longrightarrow> R st st'"
    and regrouped: "regroup_continue_watching_under_series a b st = Inr st' \<Longrightarrow> R st st'"
    and repointed: "repoint_progress a i b st = Inr st' \<Longrightarrow> R st st'"
    and deleted_items: "R st (delete_items Q st)"
    and deleted_seasons: "R st (delete_seasons S st)"
    and deleted_files: "R st (delete_files F st)"
begin

text \<open>\<open>f\<close> keeps to the relation wherever it succeeds.\<close>

definition keeps :: "(media_db \<Rightarrow> media_error + media_db) \<Rightarrow> bool" where
  "keeps f \<longleftrightarrow> (\<forall>st st'. f st = Inr st' \<longrightarrow> R st st')"

definition keeps_id :: "(media_db \<Rightarrow> media_error + media_db \<times> 'a) \<Rightarrow> bool" where
  "keeps_id f \<longleftrightarrow> (\<forall>st st' x. f st = Inr (st', x) \<longrightarrow> R st st')"

lemma keepsI: "(\<And>st st'. f st = Inr st' \<Longrightarrow> R st st') \<Longrightarrow> keeps f"
  by (simp add: keeps_def)

lemma keeps_idI: "(\<And>st st' x. f st = Inr (st', x) \<Longrightarrow> R st st') \<Longrightarrow> keeps_id f"
  by (simp add: keeps_id_def)

lemma keepsD: "keeps f \<Longrightarrow> f st = Inr st' \<Longrightarrow> R st st'"
  by (simp add: keeps_def)

lemma keeps_idD: "keeps_id f \<Longrightarrow> f st = Inr (st', x) \<Longrightarrow> R st st'"
  unfolding keeps_id_def by blast

subsection \<open>Items and files\<close>

lemma entry_item: "keeps (update_media_item_from_entry i e)"
  by (rule keepsI) (auto simp: update_media_item_from_entry_def split: option.splits if_splits intro: changed_item)

lemma inserted_item: "keeps_id (insert_media_item e)"
  by (rule keeps_idI) (auto simp: insert_media_item_def split: option.splits intro: added_item)

lemma noted_failure: "keeps (record_transient_metadata_refresh_failure i e)"
  by (rule keepsI) (auto simp: record_transient_metadata_refresh_failure_def split: if_splits intro: changed_item)

lemma promoted_artwork: "keeps (promote_cached_artwork_paths i e art)"
  by (rule keepsI) (auto simp: promote_cached_artwork_paths_def split: prod.splits if_splits intro: changed_item)

lemma projected: "keeps (apply_local_metadata_projection env i e scope)"
  by (rule keepsI) (auto simp: apply_local_metadata_projection_def project_fields_def intro: changed_item)

lemma restored: "keeps (restore_local_metadata_projection env scope i e checkpoint)"
  by (rule keepsI) (auto simp: restore_local_metadata_projection_def project_fields_def intro: changed_item)

lemma kept_bound: "keeps (keep_bound_item env scope i e art)"
  by (rule keepsI) (auto simp: keep_bound_item_def and_then_eq_Inr
      dest!: keepsD [OF projected] keepsD [OF noted_failure] keepsD [OF promoted_artwork] intro: trans)

lemma existing_item: "keeps (update_existing_media_item_from_entry env i e preserve)"
  by (rule keepsI) (auto simp: update_existing_media_item_from_entry_def split: if_splits
      intro: keepsD [OF kept_bound] keepsD [OF entry_item])

lemma entry_file: "keeps (update_media_file_from_entry f e)"
  by (rule keepsI) (rule changed_file, unfold update_media_file_from_entry_def, assumption, simp)

lemma reassigned_file: "keeps (reassign_media_file_to_media_item f target e)"
  by (rule keepsI) (rule changed_file, unfold reassign_media_file_to_media_item_def, assumption, simp)

lemma moved_file: "keeps (move_file_to_item x target e)"
  by (rule keepsI) (auto simp: move_file_to_item_def and_then_eq_Inr dest!: keepsD [OF reassigned_file] merged intro: trans)

lemma moved_parent: "keeps (reassign_media_file_parent_only f target)"
  by (rule keepsI) (auto simp: reassign_media_file_parent_only_def and_then_eq_Inr simp del: checked_Inr
      split: if_splits intro: changed_file)

lemma cleaned_item: "R st (cleanup_media_item_if_no_files i st)"
  by (simp add: cleanup_media_item_if_no_files_def delete_media_item_def deleted_items)

lemma then_cleaned: "R st st' \<Longrightarrow> R st (cleanup_media_item_if_no_files i st')"
  by (rule trans [OF _ cleaned_item])

lemma removed_file: "R st (delete_media_file_and_cleanup_item i f st)"
  unfolding delete_media_file_and_cleanup_item_def by (rule trans [OF deleted_files cleaned_item])

lemma dropped_file: "R st (delete_media_file_and_drop_empty_item i f st)"
  by (auto simp: delete_media_file_and_drop_empty_item_def Let_def delete_media_item_def
      intro: deleted_files trans deleted_items)

lemma cleaned_series: "R st (fst (cleanup_orphan_series_structure l st))"
  by (auto simp: cleanup_orphan_series_structure_def Let_def intro: trans deleted_seasons deleted_items)

lemma cleaned_episodes: "R st (fst (delete_fileless_episodes_of_fileless_series l st))"
  by (simp add: delete_fileless_episodes_of_fileless_series_def deleted_items)

lemma cleaned: "R st (cleanup_structure l st)"
  unfolding cleanup_structure_def by (rule trans [OF cleaned_episodes cleaned_series])

lemma movie_entry: "keeps (upsert_movie_media_entry env e existing preserve)"
proof (rule keepsI)
  fix st st'
  assume *: "upsert_movie_media_entry env e existing preserve st = Inr st'"
  show "R st st'"
  proof (cases existing)
    case None
    then show ?thesis using *
      by (auto simp: upsert_movie_media_entry_def Let_def and_then_eq_Inr split: option.splits
          dest!: keepsD [OF existing_item] keeps_idD [OF inserted_item] added_file intro: trans)
  next
    case (Some x)
    show ?thesis
    proof (cases "xf_type x = MovieItem")
      case True
      then show ?thesis using * Some
        by (auto simp: upsert_movie_media_entry_def Let_def and_then_eq_Inr split: if_splits
            dest!: keepsD [OF existing_item] keepsD [OF moved_file] keepsD [OF entry_file] intro: trans cleaned_item)
    next
      case False
      then obtain st1 target st2 where 1: "R st st1" and 2: "R st1 st2"
        and 3: "st' = (let st3 = cleanup_media_item_if_no_files (xf_item x) st2 in
          if xf_type x = SeriesItem then fst (cleanup_orphan_series_structure (en_library e) st3) else st3)"
        using * Some
        by (auto simp: upsert_movie_media_entry_def Let_def and_then_eq_Inr map_ok_eq_Inr split: option.splits
            dest!: keepsD [OF existing_item] keeps_idD [OF inserted_item] keepsD [OF moved_file])
      have "R st2 st'" by (auto simp: 3 Let_def intro: trans cleaned_item cleaned_series)
      with 1 2 show ?thesis by (blast intro: trans)
    qed
  qed
qed

subsection \<open>Series and episodes\<close>

lemma entry_series: "keeps_id (upsert_series_item_from_entry env e preserve)"
  by (rule keeps_idI) (auto simp: upsert_series_item_from_entry_def Let_def map_ok_eq_Inr update_series_item_from_entry_def
      insert_series_item_from_entry_def split: option.splits if_splits
      intro: keepsD [OF kept_bound] changed_item added_item)

lemma promoted_season: "keeps (promote_season_cached_artwork_paths i e)"
  by (rule keepsI) (auto simp: promote_season_cached_artwork_paths_def split: if_splits intro: changed_season)

lemma conflicting_season: "set_season i (season_conflict clear preserve refresh new) st = Inr st' \<Longrightarrow> R st st'"
  by (erule changed_season) (simp add: season_conflict_def)

lemma entry_season: "keeps_id (upsert_season series n e preserve refresh)"
proof (rule keeps_idI)
  fix st st' i
  assume "upsert_season series n e preserve refresh st = Inr (st', i)"
  then obtain st1 where "R st st1" and "(if preserve then promote_season_cached_artwork_paths i e st1 else Inr st1) = Inr st'"
    by (auto simp: upsert_season_def and_then_eq_Inr map_ok_eq_Inr simp del: checked_Inr
        split: option.splits dest!: conflicting_season added_season)
  then show "R st st'" by (auto split: if_splits dest: keepsD [OF promoted_season] intro: trans)
qed

lemma entry_episode_item: "keeps (update_existing_episode_media_item env i e preserve)"
  by (rule keepsI) (auto simp: update_existing_episode_media_item_def update_episode_media_item_from_entry_def
      split: if_splits option.splits intro: keepsD [OF kept_bound] changed_item)

lemma inserted_record: "keeps (insert_episode_record i l season n)"
  by (rule keepsI) (rule changed_episodes, unfold insert_episode_record_def, assumption)

lemma updated_record: "keeps (update_episode_record i l season n)"
  by (rule keepsI) (auto simp: update_episode_record_def and_then_eq_Inr simp del: checked_Inr split: if_splits
      dest!: keepsD [OF inserted_record] intro: trans changed_episodes)

lemma inserted_structure: "keeps_id (insert_episode_structure e season n)"
  by (rule keeps_idI) (auto simp: insert_episode_structure_def and_then_eq_Inr map_ok_eq_Inr insert_episode_media_item_def
      dest!: added_item keepsD [OF inserted_record] intro: trans)

lemma followed_series: "keeps (follow_series previous series)"
  by (rule keepsI) (auto simp: follow_series_def split: option.splits intro: merged)

lemma placed_episode: "keeps (place_existing_episode env e x series keep season n)"
proof (rule keepsI)
  fix st st'
  assume *: "place_existing_episode env e x series keep season n st = Inr st'"
  show "R st st'"
  proof (cases "xf_type x = EpisodeItem")
    case True
    then show ?thesis using *
      by (auto simp: place_existing_episode_def Let_def and_then_eq_Inr split: if_splits
          dest!: keepsD [OF entry_episode_item] keepsD [OF moved_file] keepsD [OF followed_series] keepsD [OF updated_record]
            keepsD [OF entry_file] intro!: then_cleaned intro: trans)
  next
    case False
    then obtain st1 target st2 st3 where "R st st1" "R st1 st2"
      and 3: "(if xf_type x = MovieItem then regroup_continue_watching_under_series target series st2 else Inr st2) = Inr st3"
      and 4: "st' = (let st4 = cleanup_media_item_if_no_files (xf_item x) st3 in
          if xf_type x = SeriesItem then fst (cleanup_orphan_series_structure (en_library e) st4) else st4)"
      using * by (auto simp: place_existing_episode_def Let_def and_then_eq_Inr map_ok_eq_Inr split: option.splits
            dest!: keepsD [OF entry_episode_item] keeps_idD [OF inserted_structure] keepsD [OF moved_file])
    moreover have "R st2 st3" using 3 by (auto split: if_splits intro: regrouped)
    moreover have "R st3 st'" by (auto simp: 4 Let_def intro: trans cleaned_item cleaned_series)
    ultimately show ?thesis by (blast intro: trans)
  qed
qed

lemma episode_entry: "keeps (upsert_episode_media_entry env e existing preserve)"
proof (rule keepsI)
  fix st st'
  assume "upsert_episode_media_entry env e existing preserve st = Inr st'"
  then obtain sn n st1 series keep refresh st2 season
    where 1: "upsert_series_item_from_entry env e preserve st = Inr (st1, series, keep, refresh)"
      and 2: "upsert_season series sn e keep refresh st1 = Inr (st2, season)"
      and 3: "(case existing of Some x \<Rightarrow> place_existing_episode env e x series keep season n st2
        | None \<Rightarrow> (case find_existing_episode_media_item season n st2 of
              Some m \<Rightarrow> and_then (update_existing_episode_media_item env m e keep st2) (insert_media_file env m e)
            | None \<Rightarrow> insert_episode_media_tree env e season n st2)) = Inr st'"
    by (auto simp: upsert_episode_media_entry_def and_then_eq_Inr)
  have "R st2 st'" using 3
    by (auto simp: and_then_eq_Inr insert_episode_media_tree_def split: option.splits
        dest!: keepsD [OF placed_episode] keepsD [OF entry_episode_item] keeps_idD [OF inserted_structure] added_file intro: trans)
  with keeps_idD [OF entry_series 1] keeps_idD [OF entry_season 2] show "R st st'" by (blast intro: trans)
qed

lemma any_entry: "keeps (upsert_media_entry_with_policy env e existing preserve)"
  by (rule keepsI) (auto simp: upsert_media_entry_with_policy_def split: if_splits
      intro: keepsD [OF episode_entry] keepsD [OF movie_entry])

subsection \<open>Remote patches\<close>

lemma patched_item: "keeps (patch_media_item_remote_fields i e preserve art)"
  by (rule keepsI) (auto simp: patch_media_item_remote_fields_def and_then_eq_Inr split: if_splits
      dest!: keepsD [OF noted_failure] keepsD [OF promoted_artwork] intro: trans changed_item)

lemma patched_movie: "keeps (patch_movie_remote_entry env e x preserve)"
proof (rule keepsI)
  fix st st'
  assume *: "patch_movie_remote_entry env e x preserve st = Inr st'"
  let ?target = "if preserve then xf_item x else case find_existing_movie_media_item e (movie_group_title_for_entry e) st of
      Some m \<Rightarrow> m | None \<Rightarrow> xf_item x"
  from * obtain st1 st2 st3 where
    "(if preserve then apply_local_metadata_projection env ?target e MovieScope st else Inr st) = Inr st1"
    and 2: "R st1 st2" "R st2 st3"
    and 3: "(if ?target = xf_item x then Inr st3
          else and_then (reassign_media_file_parent_only (xf_file x) ?target st3) (\<lambda>st4.
               and_then (merge_media_item_user_state (xf_item x) ?target st4) (\<lambda>st5.
                 Inr (cleanup_media_item_if_no_files (xf_item x) st5)))) = Inr st'"
    unfolding patch_movie_remote_entry_def Let_def
    by (auto simp: and_then_eq_Inr ok_or_eq_Inr split: if_split_asm
        dest!: keepsD [OF patched_item] keepsD [OF restored])
  then have "R st st1" by (auto split: if_split_asm dest: keepsD [OF projected])
  moreover have "R st3 st'" using 3
    by (auto simp: and_then_eq_Inr split: if_split_asm dest!: keepsD [OF moved_parent] merged intro!: then_cleaned intro: trans)
  ultimately show "R st st'" using 2 by (blast intro: trans)
qed

lemma patched_series: "keeps (patch_series_of_episode env e series preserve)"
  by (rule keepsI) (auto simp: patch_series_of_episode_def and_then_eq_Inr split: if_splits
      dest!: keepsD [OF patched_item] keepsD [OF restored] keepsD [OF projected] intro: trans)

lemma patched_episode_item: "keeps (patch_episode_item env e i keep replace)"
proof (rule keepsI)
  fix st st'
  assume "patch_episode_item env e i keep replace st = Inr st'"
  then obtain st1 where 1: "patch_episode_remote_fields env i e keep replace st = Inr st1" and 2: "R st1 st'"
    by (auto simp: patch_episode_item_def and_then_eq_Inr dest!: keepsD [OF restored])
  have "R st st1" using 1
    by (auto simp: patch_episode_remote_fields_def split: if_splits option.splits intro: keepsD [OF kept_bound] changed_item)
  then show "R st st'" by (rule trans [OF _ 2])
qed

lemma patched_place: "keeps (patch_placed_episode env e x keep preserve season n)"
  by (rule keepsI) (auto simp: patch_placed_episode_def Let_def and_then_eq_Inr split: if_split_asm
      dest!: keepsD [OF patched_episode_item] keepsD [OF moved_parent] keepsD [OF updated_record] merged
      intro!: then_cleaned intro: trans)

lemma followed_place: "(if a \<noteq> b then merge_media_item_user_state a b st else Inr st) = Inr st' \<Longrightarrow> R st st'"
  by (auto split: if_split_asm intro: merged)

lemma patched_episode: "keeps (patch_episode_remote_entry env e x preserve)"
  unfolding patch_episode_remote_entry_def Let_def
  by (rule keepsI) (auto simp: and_then_eq_Inr ok_or_eq_Inr simp del: if_split split: if_split_asm prod.split_asm
      dest!: keepsD [OF patched_series] keeps_idD [OF entry_season] keepsD [OF patched_place] followed_place merged intro: trans)

subsection \<open>Transactions\<close>

lemma each_upserted: "upsert_each env preserve es xs st = Inr st' \<Longrightarrow> R st st'"
  by (induction es arbitrary: xs st) (auto simp: take_existing_def and_then_eq_Inr dest!: keepsD [OF any_entry] intro: trans)

lemma each_patched: "patch_each env l preserve es xs st = Inr st' \<Longrightarrow> R st st'"
  by (induction es arbitrary: xs st) (auto simp: take_existing_def and_then_eq_Inr ok_or_eq_Inr split: if_split_asm
      dest!: keepsD [OF patched_episode] keepsD [OF patched_movie] intro: trans)

lemma group_committed:
  assumes "commit_group ndiv act i l key stage es f cleanup clk (st, js) = Inr ((st', js'), scan)" and "keeps act"
  shows "R st st' \<and> played_files_ok st'"
proof -
  from assms(1) have "\<exists>st1. act st = Inr st1 \<and> (st' = cleanup_structure l st1 \<or> st' = st1) \<and> played_files_ok st'"
    by (cases cleanup) (auto simp: commit_group_def and_then_eq_Inr Let_def split: if_split_asm prod.split_asm)
  then show ?thesis using keepsD [OF assms(2)] cleaned by (blast intro: trans)
qed

lemma group_upserted:
  "upsert_library_media_entries_by_file_path_internal ndiv env i l key stage es f cleanup clk (st, js)
    = Inr ((st', js'), scan) \<Longrightarrow> R st st' \<and> played_files_ok st'"
  unfolding upsert_library_media_entries_by_file_path_internal_def
  by (erule group_committed) (auto intro: keepsI each_upserted)

lemma group_patched:
  "patch_library_media_entries_remote_by_file_path_internal ndiv env i l key es f cleanup clk (st, js)
    = Inr ((st', js'), scan) \<Longrightarrow> R st st' \<and> played_files_ok st'"
  unfolding patch_library_media_entries_remote_by_file_path_internal_def
  by (erule group_committed) (auto intro: keepsI each_patched)

lemma file_upserted: "upsert_library_media_entry_by_file_path env l e st = Inr st' \<Longrightarrow> R st st' \<and> played_files_ok st'"
  by (auto simp: upsert_library_media_entry_by_file_path_def upsert_media_entry_def and_then_eq_Inr
      dest!: keepsD [OF any_entry] intro: trans cleaned)

lemma file_deleted: "delete_library_media_by_file_path l path st = Inr (st', n) \<Longrightarrow> played_files_ok st \<Longrightarrow> R st st' \<and> played_files_ok st'"
  by (auto simp: delete_library_media_by_file_path_def map_ok_eq_Inr split: option.split_asm intro: trans removed_file cleaned)

lemma folded: "(\<And>x st. R st (g x st)) \<Longrightarrow> R st (fold g xs st)"
  by (induction xs arbitrary: st) (auto intro: trans)

lemma prefix_deleted: "delete_library_media_by_path_prefix l directory st = Inr (st', n) \<Longrightarrow> R st st' \<and> played_files_ok st'"
  by (auto simp: delete_library_media_by_path_prefix_def Let_def map_ok_eq_Inr split: if_split_asm
      intro!: trans [OF folded cleaned] folded removed_file)

lemma library_synced: "sync_library_media env l es st = Inr st' \<Longrightarrow> R st st' \<and> played_files_ok st'"
  by (auto simp: sync_library_media_def Let_def and_then_eq_Inr dest!: each_upserted
      intro!: trans [OF folded trans, OF removed_file _ cleaned])

lemma carried:
  assumes "carry_renamed observed xs r (st, moved) = Inr (st', moved')"
  shows "R st st'"
  using assms by (auto simp: carry_renamed_def and_then_eq_Inr map_ok_eq_Inr split: if_split_asm option.split_asm
      dest!: merged repointed intro: trans)

lemma all_carried:
  "try_fold (carry_renamed observed xs) rs (st, moved) = Inr (st', moved') \<Longrightarrow> R st st'"
proof (induction rs arbitrary: st moved)
  case (Cons r rs)
  then obtain st1 moved1 where "carry_renamed observed xs r (st, moved) = Inr (st1, moved1)"
    and "try_fold (carry_renamed observed xs) rs (st1, moved1) = Inr (st', moved')"
    by (auto simp: and_then_eq_Inr)
  with Cons.IH carried show ?case by (blast intro: trans)
qed simp

lemma missing_removed: "R st (remove_missing moved x st)"
  by (simp add: remove_missing_def removed_file dropped_file)

lemma changes_synced:
  assumes "sync_library_media_changes env l i discovered retained es scope renamed documents f clk js st = Inr r"
  shows "R st (fst r) \<and> played_files_ok (fst r)"
proof -
  let ?episodes = "\<lambda>st. fst (delete_fileless_episodes_of_fileless_series l st)"
  from assms obtain xs st1 moved gone ys st3
    where 1: "try_fold (carry_renamed (discovered @ retained) xs) renamed (st, []) = Inr (st1, moved)"
      and 2: "upsert_each env False es ys (fold (remove_missing moved) gone st1) = Inr st3"
      and 3: "fst r = fst (cleanup_orphan_series_structure l (?episodes (?episodes st3)))" "played_files_ok (fst r)"
    by (auto simp: sync_library_media_changes_def Let_def and_then_eq_Inr map_ok_eq_Inr split_beta)
  have "R st st1" by (rule all_carried [OF 1])
  also have "R st1 (fold (remove_missing moved) gone st1)" by (rule folded) (rule missing_removed)
  also have "R \<dots> st3" by (rule each_upserted [OF 2])
  also have "R st3 (?episodes st3)" by (rule cleaned_episodes)
  also have "R \<dots> (?episodes (?episodes st3))" by (rule cleaned_episodes)
  also have "R \<dots> (fst r)" unfolding 3(1) by (rule cleaned_series)
  finally show ?thesis using 3(2) by blast
qed

lemma orphans_cleaned:
  "cleanup_library_orphan_series_after_scan l i f c clk js st = Inr (st', n) \<Longrightarrow> R st st' \<and> played_files_ok st'"
  using cleaned_series by (auto simp: cleanup_library_orphan_series_after_scan_def Let_def and_then_eq_Inr map_ok_eq_Inr split_beta)

end

end
