(* ===== verification/User_Records.thy ===== *)
theory User_Records
  imports Playback_State
begin

text \<open>
  What merging an item into another does to the records of users: for each user the record watched last
  wins. Both tables of records are a map from a user and an item to what a row says, and the insertion
  of a row into it is an interface that the two tables provide.
\<close>

subsection \<open>Records of users\<close>

definition newest :: "('v \<Rightarrow> nat) \<Rightarrow> 'v \<Rightarrow> 'v option \<Rightarrow> 'v" where
  "newest seen v old = (case old of None \<Rightarrow> v | Some w \<Rightarrow> if seen w \<le> seen v then v else w)"

text \<open>The records of one user, by item, after \<open>s\<close> is merged into \<open>t\<close>.\<close>

definition merged_records :: "('v \<Rightarrow> nat) \<Rightarrow> int \<Rightarrow> int \<Rightarrow> (int \<Rightarrow> 'v option) \<Rightarrow> int \<Rightarrow> 'v option" where
  "merged_records seen s t f i =
     (if i = s then None else if i = t then (case f s of None \<Rightarrow> f t | Some v \<Rightarrow> Some (newest seen v (f t))) else f i)"

locale user_table =
  fixes find :: "int \<Rightarrow> int \<Rightarrow> media_db \<Rightarrow> 'r option" and ins :: "'r \<Rightarrow> media_db \<Rightarrow> media_db"
    and owner :: "'r \<Rightarrow> int" and subject :: "'r \<Rightarrow> int" and view :: "'r \<Rightarrow> 'v" and seen :: "'v \<Rightarrow> nat"
  assumes inserted: "map_option view (find u i (ins r st)) =
     (if u = owner r \<and> i = subject r then Some (newest seen (view r) (map_option view (find u i st)))
      else map_option view (find u i st))"
begin

lemma all_inserted:
  "distinct (map owner rs) \<Longrightarrow> \<forall>r\<in>set rs. subject r = t \<Longrightarrow>
   map_option view (find u i (fold ins rs st)) =
     (case List.find (\<lambda>r. owner r = u) rs of
        Some r \<Rightarrow> if i = t then Some (newest seen (view r) (map_option view (find u i st))) else map_option view (find u i st)
      | None \<Rightarrow> map_option view (find u i st))"
proof (induction rs arbitrary: st)
  case (Cons r rs)
  have "List.find (\<lambda>r. owner r = u) rs = None" if "owner r = u"
    using Cons.prems(1) that by (simp add: find_None_iff) (metis image_eqI)
  with Cons show ?case by (auto simp: inserted split: option.split)
qed simp

end

subsection \<open>The two tables\<close>

definition progress_view :: "progress_row \<Rightarrow> int option \<times> int \<times> int option \<times> nat \<times> bool" where
  "progress_view p = (pg_file p, pg_position p, pg_duration p, pg_watched_at p, pg_finished p)"

definition progress_at :: "int option \<times> int \<times> int option \<times> nat \<times> bool \<Rightarrow> nat" where
  "progress_at v = fst (snd (snd (snd v)))"

definition progress_of :: "media_db \<Rightarrow> int \<Rightarrow> int \<Rightarrow> (int option \<times> int \<times> int option \<times> nat \<times> bool) option" where
  "progress_of st u i = map_option progress_view (find_progress u i st)"

definition watching_view :: "watching_row \<Rightarrow> int \<times> nat" where
  "watching_view w = (cw_last w, cw_watched_at w)"

definition last_watched :: "media_db \<Rightarrow> int \<Rightarrow> int \<Rightarrow> (int \<times> nat) option" where
  "last_watched st u i = map_option watching_view (find_watching u i st)"

lemma newer_progress_key: "progress_key (newer_progress new old) = progress_key old"
  by (simp add: newer_progress_def progress_key_def)

lemma newer_watching_key: "watching_key (newer_watching new old) = watching_key old"
  by (simp add: newer_watching_def watching_key_def)

interpretation progress: user_table find_progress "insert_progress newer_progress" pg_user pg_item progress_view progress_at
  by unfold_locales (auto simp: find_progress_def insert_progress_def find_row_upsert [where conflict = "newer_progress _"]
      newer_progress_key progress_key_def [of "pg_id_update _ _"] newest_def newer_progress_def progress_view_def
      progress_at_def progress_key_def dest!: find_row_SomeD split: option.split)

interpretation watching: user_table find_watching "insert_watching newer_watching" cw_user cw_item watching_view snd
  by unfold_locales (auto simp: find_watching_def insert_watching_def find_row_upsert [where conflict = "newer_watching _"]
      newer_watching_key newest_def newer_watching_def watching_view_def watching_key_def dest!: find_row_SomeD split: option.split)

subsection \<open>Moving records\<close>

lemma find_of_map: "List.find P (map g xs) = map_option g (List.find (\<lambda>x. P (g x)) xs)"
  by (induction xs) auto

lemma find_row_filter_key:
  "(\<And>r. Q r \<longleftrightarrow> K (key r)) \<Longrightarrow> find_row key k (List.filter Q rows) = (if K k then find_row key k rows else None)"
  by (induction rows) (auto simp: find_row_def)

lemma find_row_map:
  "(\<And>r. key (g r) = key r) \<Longrightarrow> find_row key k (map g rows) = map_option g (find_row key k rows)"
  by (induction rows) (auto simp: find_row_def)

lemma find_owner:
  assumes "\<forall>r\<in>set rows. key r = (owner r, subject r)"
  shows "List.find (\<lambda>r. owner r = u) (List.filter (\<lambda>r. subject r = s) rows) = find_row key (u, s) rows"
  using assms by (induction rows) (auto simp: find_row_def)

lemma distinct_owners:
  assumes "distinct (map key rows)" and "\<forall>r\<in>set rows. key r = (owner r, subject r)"
  shows "distinct (map owner (List.filter (\<lambda>r. subject r = s) rows))"
  using assms by (induction rows) auto

lemma progress_of_moved:
  assumes "distinct (map progress_key (md_progress st))" and "s \<noteq> t"
  shows "progress_of (move_progress s t st) u = merged_records progress_at s t (progress_of st u)"
proof
  fix i
  let ?ps = "List.filter (\<lambda>p. pg_item p = s) (md_progress st)" and ?g = "\<lambda>p. p\<lparr>pg_item := t\<rparr>"
  let ?st1 = "fold (insert_progress newer_progress) (map ?g ?ps) st"
  have "move_progress s t st = ?st1\<lparr>md_progress := List.filter (\<lambda>p. pg_item p \<noteq> s) (md_progress ?st1)\<rparr>"
    by (simp add: move_progress_def fold_map comp_def Let_def)
  then have *: "progress_of (move_progress s t st) u i = (if i = s then None else progress_of ?st1 u i)"
    by (auto simp: progress_of_def find_progress_def progress_key_def
        find_row_filter_key [where K = "\<lambda>(u, i). i \<noteq> s"])
  have "distinct (map pg_user ?ps)" by (rule distinct_owners [OF assms(1)]) (simp add: progress_key_def)
  then have "distinct (map pg_user (map ?g ?ps))" by (simp add: comp_def)
  moreover have "List.find (\<lambda>p. pg_user p = u) (map ?g ?ps) = map_option ?g (find_progress u s st)"
    using find_owner [of "md_progress st" progress_key pg_user pg_item u s]
    by (simp add: progress_key_def [abs_def] find_of_map find_progress_def)
  ultimately have "progress_of ?st1 u i = (case map_option ?g (find_progress u s st) of
      Some p \<Rightarrow> if i = t then Some (newest progress_at (progress_view p) (progress_of st u i)) else progress_of st u i
    | None \<Rightarrow> progress_of st u i)"
    by (cases "find_progress u s st") (simp_all add: progress_of_def progress.all_inserted [where t = t])
  with * show "progress_of (move_progress s t st) u i = merged_records progress_at s t (progress_of st u) i"
    using assms(2) by (auto simp: merged_records_def progress_of_def progress_view_def split: option.split)
qed

lemma last_watched_moved:
  assumes "distinct (map watching_key (md_watching st))" and "s \<noteq> t"
  shows "last_watched (move_watching rekey s t st) u =
    merged_records snd s t ((last_watched st u)(s := map_option (apfst rekey) (last_watched st u s)))"
proof
  fix i
  let ?ws = "List.filter (\<lambda>w. cw_item w = s) (md_watching st)" and ?g = "\<lambda>w. w\<lparr>cw_item := t, cw_last := rekey (cw_last w)\<rparr>"
  let ?st1 = "fold (insert_watching newer_watching) (map ?g ?ws) st"
  have "move_watching rekey s t st = ?st1\<lparr>md_watching := List.filter (\<lambda>w. cw_item w \<noteq> s) (md_watching ?st1)\<rparr>"
    by (simp add: move_watching_def fold_map comp_def Let_def)
  then have *: "last_watched (move_watching rekey s t st) u i = (if i = s then None else last_watched ?st1 u i)"
    by (auto simp: last_watched_def find_watching_def watching_key_def
        find_row_filter_key [where K = "\<lambda>(u, i). i \<noteq> s"])
  have "distinct (map cw_user ?ws)" by (rule distinct_owners [OF assms(1)]) (simp add: watching_key_def)
  then have "distinct (map cw_user (map ?g ?ws))" by (simp add: comp_def)
  moreover have "List.find (\<lambda>w. cw_user w = u) (map ?g ?ws) = map_option ?g (find_watching u s st)"
    using find_owner [of "md_watching st" watching_key cw_user cw_item u s]
    by (simp add: watching_key_def [abs_def] find_of_map find_watching_def)
  ultimately have "last_watched ?st1 u i = (case map_option ?g (find_watching u s st) of
      Some w \<Rightarrow> if i = t then Some (newest snd (watching_view w) (last_watched st u i)) else last_watched st u i
    | None \<Rightarrow> last_watched st u i)"
    by (cases "find_watching u s st") (simp_all add: last_watched_def watching.all_inserted [where t = t])
  with * show "last_watched (move_watching rekey s t st) u i =
      merged_records snd s t ((last_watched st u)(s := map_option (apfst rekey) (last_watched st u s))) i"
    using assms(2) by (auto simp: merged_records_def last_watched_def watching_view_def split: option.split)
qed

lemma rows_ok_keys:
  assumes "rows_ok st"
  shows "distinct (map progress_key (md_progress st))" "distinct (map watching_key (md_watching st))"
  using assms by (simp_all add: rows_ok_def keys_unique_def progress_key_def [abs_def] watching_key_def [abs_def])

text \<open>Nothing else changes.\<close>

lemma move_progress_frame: "\<exists>ps n. move_progress s t st = st\<lparr>md_progress := ps, md_next_progress := n\<rparr>"
proof -
  have "\<exists>ps n. fold (\<lambda>p. insert_progress m (h p)) xs st = st\<lparr>md_progress := ps, md_next_progress := n\<rparr>" for m h xs
  proof (induction xs rule: rev_induct)
    case Nil
    show ?case by (rule exI [where x = "md_progress st"], rule exI [where x = "md_next_progress st"]) simp
  next
    case (snoc x xs)
    then show ?case by (auto simp: insert_progress_def) blast
  qed
  from this [of newer_progress "\<lambda>p. p\<lparr>pg_item := t\<rparr>" "List.filter (\<lambda>p. pg_item p = s) (md_progress st)"]
  obtain rows n where "fold (\<lambda>p. insert_progress newer_progress (p\<lparr>pg_item := t\<rparr>)) (List.filter (\<lambda>p. pg_item p = s) (md_progress st)) st
      = st\<lparr>md_progress := rows, md_next_progress := n\<rparr>" by blast
  then show ?thesis
    by (intro exI [where x = "List.filter (\<lambda>p. pg_item p \<noteq> s) rows"] exI [where x = n]) (simp add: move_progress_def Let_def)
qed

lemma move_watching_frame: "\<exists>ws n. move_watching rekey s t st = st\<lparr>md_watching := ws, md_next_watching := n\<rparr>"
proof -
  have "\<exists>ws n. fold (\<lambda>w. insert_watching m (h w)) xs st = st\<lparr>md_watching := ws, md_next_watching := n\<rparr>" for m h xs
  proof (induction xs rule: rev_induct)
    case Nil
    show ?case by (rule exI [where x = "md_watching st"], rule exI [where x = "md_next_watching st"]) simp
  next
    case (snoc x xs)
    then show ?case by (auto simp: insert_watching_def) blast
  qed
  from this [of newer_watching "\<lambda>w. w\<lparr>cw_item := t, cw_last := rekey (cw_last w)\<rparr>" "List.filter (\<lambda>w. cw_item w = s) (md_watching st)"]
  obtain rows n where "fold (\<lambda>w. insert_watching newer_watching (w\<lparr>cw_item := t, cw_last := rekey (cw_last w)\<rparr>)) (List.filter (\<lambda>w. cw_item w = s) (md_watching st)) st
      = st\<lparr>md_watching := rows, md_next_watching := n\<rparr>" by blast
  then show ?thesis
    by (intro exI [where x = "List.filter (\<lambda>w. cw_item w \<noteq> s) rows"] exI [where x = n]) (simp add: move_watching_def Let_def)
qed

lemma merged_frame:
  assumes "merge_media_item_user_state s t st = Inr st'"
  shows "\<exists>ps n ws m. st' = st\<lparr>md_progress := ps, md_next_progress := n, md_watching := ws, md_next_watching := m\<rparr>"
proof (cases "s = t")
  case True
  then show ?thesis using assms
    by (intro exI [where x = "md_progress st"] exI [where x = "md_next_progress st"] exI [where x = "md_watching st"]
        exI [where x = "md_next_watching st"]) (simp add: merge_media_item_user_state_def)
next
  case False
  obtain ps n where 1: "move_progress s t st = st\<lparr>md_progress := ps, md_next_progress := n\<rparr>"
    using move_progress_frame by blast
  obtain ws m where "move_watching (\<lambda>i. if i = s then t else i) s t (move_progress s t st)
      = (move_progress s t st)\<lparr>md_watching := ws, md_next_watching := m\<rparr>"
    using move_watching_frame by blast
  with False assms show ?thesis
    by (intro exI [where x = ps] exI [where x = n] exI [where x = "map (\<lambda>w. w\<lparr>cw_last := if cw_last w = s then t else cw_last w\<rparr>) ws"]
        exI [where x = m]) (simp add: merge_media_item_user_state_def Let_def 1)
qed

lemma merged_tree:
  assumes "merge_media_item_user_state s t st = Inr st'"
  shows "md_items st' = md_items st" "md_files st' = md_files st" "md_seasons st' = md_seasons st"
    "md_episodes st' = md_episodes st"
  using merged_frame [OF assms] by auto

lemma merge_views:
  assumes "rows_ok st" and "s \<noteq> t" and "merge_media_item_user_state s t st = Inr st'"
  shows "progress_of st' u = merged_records progress_at s t (progress_of st u)
    \<and> last_watched st' u = (\<lambda>i. map_option (apfst (\<lambda>j. if j = s then t else j)) (merged_records snd s t (last_watched st u) i))"
proof -
  let ?rekey = "\<lambda>i. if i = s then t else i"
  let ?st1 = "move_progress s t st" and ?g = "\<lambda>w. w\<lparr>cw_last := ?rekey (cw_last w)\<rparr>"
  let ?st2 = "move_watching ?rekey s t ?st1"
  have st': "st' = ?st2\<lparr>md_watching := map ?g (md_watching ?st2)\<rparr>"
    using assms(2,3) by (simp add: merge_media_item_user_state_def Let_def)
  obtain ps n where 1: "?st1 = st\<lparr>md_progress := ps, md_next_progress := n\<rparr>" using move_progress_frame by blast
  obtain ws m where 2: "?st2 = ?st1\<lparr>md_watching := ws, md_next_watching := m\<rparr>" using move_watching_frame by blast
  have "progress_of st' u = progress_of ?st1 u"
    by (rule ext) (simp add: st' 2 progress_of_def find_progress_def)
  moreover have "last_watched st' u = (\<lambda>i. map_option (apfst ?rekey) (last_watched ?st2 u i))"
    by (rule ext) (simp add: st' last_watched_def find_watching_def find_row_map [where g = ?g] watching_key_def
        option.map_comp comp_def watching_view_def)
  moreover have "last_watched ?st2 u = merged_records snd s t ((last_watched st u)(s := map_option (apfst ?rekey) (last_watched st u s)))"
  proof -
    have "last_watched ?st1 u = last_watched st u" by (rule ext) (simp add: 1 last_watched_def find_watching_def)
    moreover have "distinct (map watching_key (md_watching ?st1))" using rows_ok_keys(2) [OF assms(1)] by (simp add: 1)
    ultimately show ?thesis using last_watched_moved [of ?st1 s t ?rekey u] assms(2) by simp
  qed
  moreover have "map_option (apfst ?rekey) (merged_records snd s t ((last_watched st u)(s := map_option (apfst ?rekey) (last_watched st u s))) i)
      = map_option (apfst ?rekey) (merged_records snd s t (last_watched st u) i)" for i
    using assms(2) by (cases "last_watched st u s"; cases "last_watched st u t")
      (auto simp: merged_records_def newest_def)
  ultimately show ?thesis
    using progress_of_moved [OF rows_ok_keys(1) [OF assms(1)] assms(2), of u] by simp
qed

end
