(* ===== verification/Media_Invariants.thy ===== *)
theory Media_Invariants
  imports Media_Steps User_Records
begin

text \<open>
  What every transaction keeps: the constraints of the tables through all cascades, identities that are
  never used twice, references to files, and the length of the list of what a user is watching.
\<close>

subsection \<open>Sound tables\<close>

definition ids_fresh :: "media_db \<Rightarrow> bool" where
  "ids_fresh st =
     ((\<forall>r\<in>set (md_items st). mi_id r < md_next_item st) \<and> (\<forall>f\<in>set (md_files st). mf_id f < md_next_file st)
      \<and> (\<forall>s\<in>set (md_seasons st). sn_id s < md_next_season st)
      \<and> (\<forall>p\<in>set (md_progress st). pg_id p < md_next_progress st)
      \<and> (\<forall>w\<in>set (md_watching st). cw_id w < md_next_watching st))"

definition media_ok :: "media_db \<Rightarrow> bool" where
  "media_ok st = (rows_ok st \<and> ids_fresh st)"

definition watch_count :: "int \<Rightarrow> media_db \<Rightarrow> nat" where
  "watch_count u st = length (List.filter (\<lambda>w. cw_user w = u) (md_watching st))"

definition keeps_sound :: "media_db \<Rightarrow> media_db \<Rightarrow> bool" where
  "keeps_sound st st' \<longleftrightarrow> (media_ok st \<longrightarrow> media_ok st' \<and> (\<forall>u. watch_count u st' \<le> watch_count u st))"

lemma filter_twice_length: "length (List.filter P (List.filter Q xs)) \<le> length (List.filter P xs)"
  by (induction xs) auto

text \<open>A reference whose target is not among the rows that go still has it.\<close>

lemma kept_reference:
  assumes "k \<in> set (map f xs)" and "g k \<notin> set (map h (List.filter P xs))" and "\<And>x. g (f x) = h x"
  shows "k \<in> set (map f (List.filter (\<lambda>x. \<not> P x) xs))"
  using assms by auto

lemma distinct_map_filter_twice: "distinct (map f (List.filter P xs)) \<Longrightarrow> distinct (map f (List.filter P (List.filter A xs)))"
  by (induction xs) (auto split: if_splits)

lemma keys_unique_filter:
  assumes "keys_unique st"
    and "md_items st' = List.filter A (md_items st)" "md_files st' = List.filter B (md_files st)"
    and "md_seasons st' = List.filter C (md_seasons st)" "md_episodes st' = List.filter D (md_episodes st)"
    and "md_progress st' = List.filter E (md_progress st)" "md_watching st' = List.filter F (md_watching st)"
  shows "keys_unique st'"
  using assms(1) unfolding keys_unique_def assms(2-)
  by (elim conjE, intro conjI) (erule distinct_map_filter distinct_map_filter_twice; fail)+

lemma rows_ok_delete_seasons:
  assumes "rows_ok st"
  shows "rows_ok (delete_seasons S st)"
proof -
  let ?gone = "map sn_id (List.filter S (md_seasons st))"
  have "(ep_season e, ep_library e) \<in> set (map (\<lambda>s. (sn_id s, sn_library s)) (List.filter (\<lambda>s. \<not> S s) (md_seasons st)))"
    if "e \<in> set (md_episodes st)" "ep_season e \<notin> set ?gone" for e
    by (rule kept_reference [where g = fst and h = sn_id])
      (use assms that in \<open>auto simp: rows_ok_def references_ok_def\<close>)
  moreover have "keys_unique (delete_seasons S st)"
    using assms by (auto simp: rows_ok_def keys_unique_def delete_seasons_def Let_def intro: distinct_map_filter)
  ultimately show ?thesis
    using assms by (auto simp: rows_ok_def delete_seasons_def Let_def references_ok_def typed_item_keys_def item_keys_def)
qed

lemma rows_ok_delete_items:
  assumes ok: "rows_ok st"
  shows "rows_ok (delete_items Q st)"
proof -
  define gone where "gone = set (map mi_id (List.filter Q (md_items st)))"
  define st1 where "st1 = delete_seasons (\<lambda>s. sn_series s \<in> gone) st"
  let ?kept = "List.filter (\<lambda>r. \<not> Q r) (md_items st)"
  have del: "delete_items Q st = st1\<lparr>md_items := ?kept, md_files := List.filter (\<lambda>f. mf_item f \<notin> gone) (md_files st),
      md_episodes := List.filter (\<lambda>e. ep_item e \<notin> gone) (md_episodes st1),
      md_progress := List.filter (\<lambda>p. pg_item p \<notin> gone) (md_progress st),
      md_watching := List.filter (\<lambda>w. cw_item w \<notin> gone \<and> cw_last w \<notin> gone) (md_watching st)\<rparr>"
    by (simp add: delete_items_def Let_def gone_def st1_def delete_seasons_def)
  have same: "md_items st1 = md_items st" "md_files st1 = md_files st" "md_progress st1 = md_progress st"
      "md_watching st1 = md_watching st" "md_users st1 = md_users st" "md_libraries st1 = md_libraries st"
    by (simp_all add: st1_def delete_seasons_def Let_def)
  have ok1: "rows_ok st1" unfolding st1_def by (rule rows_ok_delete_seasons [OF ok])
  have ids: "i \<in> set (map mi_id ?kept)" if "i \<in> set (map mi_id (md_items st))" "i \<notin> gone" for i
    by (rule kept_reference [where g = "\<lambda>i. i" and h = mi_id]) (use that in \<open>simp_all add: gone_def\<close>)
  have keys: "k \<in> set (map (\<lambda>r. (mi_id r, mi_library r)) ?kept)" if "k \<in> set (item_keys st)" "fst k \<notin> gone" for k
    by (rule kept_reference [where g = fst and h = mi_id]) (use that in \<open>simp_all add: item_keys_def gone_def\<close>)
  have typed: "k \<in> set (map (\<lambda>r. (mi_id r, mi_library r, mi_type r)) ?kept)"
    if "k \<in> set (typed_item_keys st)" "fst k \<notin> gone" for k
    by (rule kept_reference [where g = fst and h = mi_id]) (use that in \<open>simp_all add: typed_item_keys_def gone_def\<close>)
  have seasons: "\<forall>s\<in>set (md_seasons st1). sn_series s \<notin> gone"
    by (simp add: st1_def delete_seasons_def Let_def)
  have ref: "references_ok st1" using ok1 by (simp add: rows_ok_def)
  have "keys_unique (delete_items Q st)"
    by (rule keys_unique_filter [of st1 _ _ _ "\<lambda>_. True"]) (use ok1 in \<open>simp_all add: rows_ok_def del same\<close>)
  moreover have "references_ok (delete_items Q st)"
    unfolding references_ok_def del using ref ids keys typed seasons
    by (simp add: references_ok_def same item_keys_def [of "media_db.md_items_update _ _"]
        typed_item_keys_def [of "media_db.md_items_update _ _"]) (auto simp: item_keys_def typed_item_keys_def same)
  ultimately show ?thesis using ok1 by (simp add: rows_ok_def del same)
qed

lemma rows_ok_delete_files:
  assumes "rows_ok st"
  shows "rows_ok (delete_files F st)"
proof -
  define g :: "progress_row \<Rightarrow> progress_row" where "g = (\<lambda>p. if (pg_file p, pg_item p) \<in> set (map (\<lambda>f. (Some (mf_id f), mf_item f)) (List.filter F (md_files st)))
      then p\<lparr>pg_file := None\<rparr> else p)"
  have st': "delete_files F st = st\<lparr>md_files := List.filter (\<lambda>f. \<not> F f) (md_files st), md_progress := map g (md_progress st)\<rparr>"
    by (simp add: delete_files_def g_def Let_def)
  have g: "pg_id (g p) = pg_id p" "pg_user (g p) = pg_user p" "pg_item (g p) = pg_item p" "progress_row_ok (g p) = progress_row_ok p" for p
    by (auto simp: g_def progress_row_ok_def split: option.split)
  have "keys_unique (delete_files F st)"
    using assms by (simp add: st' rows_ok_def keys_unique_def g comp_def distinct_map_filter)
  moreover have "references_ok (delete_files F st)"
    using assms by (simp add: st' rows_ok_def references_ok_def g item_keys_def typed_item_keys_def)
  ultimately show ?thesis using assms by (simp add: st' rows_ok_def g)
qed

subsection \<open>Records\<close>

lemma watch_count_card:
  assumes "distinct (map watching_key (md_watching st))"
  shows "watch_count u st = card {i. last_watched st u i \<noteq> None}"
proof -
  have "watch_count u st = length (List.filter (\<lambda>k. fst k = u) (map watching_key (md_watching st)))"
    by (simp add: watch_count_def filter_map comp_def watching_key_def)
  also have "\<dots> = card {k \<in> set (map watching_key (md_watching st)). fst k = u}"
    using assms distinct_card [OF distinct_filter [OF assms], of "\<lambda>k. fst k = u"] by simp
  also have "{k \<in> set (map watching_key (md_watching st)). fst k = u} = Pair u ` {i. (u, i) \<in> set (map watching_key (md_watching st))}"
    by (auto simp: watching_key_def)
  also have "card \<dots> = card {i. last_watched st u i \<noteq> None}"
    by (subst card_image) (auto simp: inj_on_def last_watched_def find_watching_def find_row_None [unfolded set_map])
  finally show ?thesis .
qed

lemma finite_watched: "finite {i. last_watched st u i \<noteq> None}"
proof (rule finite_subset)
  show "{i. last_watched st u i \<noteq> None} \<subseteq> cw_item ` set (md_watching st)"
    by (auto simp: last_watched_def find_watching_def watching_key_def dest: find_row_SomeD)
qed simp

lemma merged_count:
  assumes "finite {i. f i \<noteq> None}" and "s \<noteq> t" and "\<And>i. g i = None \<longleftrightarrow> merged_records seen s t f i = None"
  shows "card {i. g i \<noteq> None} \<le> card {i. f i \<noteq> None}"
proof (cases "f s = None")
  case True
  have "{i. g i \<noteq> None} \<subseteq> {i. f i \<noteq> None}"
    using True assms(3) by (auto simp: merged_records_def split: if_splits)
  then show ?thesis using assms(1) by (rule card_mono [rotated])
next
  case False
  let ?D = "{i. f i \<noteq> None}"
  have "{i. g i \<noteq> None} \<subseteq> insert t (?D - {s})"
    using assms(3) by (auto simp: merged_records_def split: if_splits option.splits)
  then have "card {i. g i \<noteq> None} \<le> card (insert t (?D - {s}))"
    using assms(1) by (intro card_mono) auto
  also have "\<dots> \<le> Suc (card (?D - {s}))" using assms(1) by (simp add: card_insert_if)
  also have "\<dots> = card ?D" using False assms(1) by (subst card_Suc_Diff1) auto
  finally show ?thesis .
qed

lemma fresh_insert_progress:
  "ids_fresh st \<Longrightarrow> (\<And>p. pg_id (m r p) = pg_id p) \<Longrightarrow> ids_fresh (insert_progress m r st)"
  by (force simp: ids_fresh_def insert_progress_def upsert_row_def)

lemma fresh_insert_watching:
  "ids_fresh st \<Longrightarrow> (\<And>w. cw_id (m r w) = cw_id w) \<Longrightarrow> ids_fresh (insert_watching m r st)"
  by (force simp: ids_fresh_def insert_watching_def upsert_row_def)

lemma fresh_filter:
  "ids_fresh st \<Longrightarrow> ids_fresh (st\<lparr>md_progress := List.filter P (md_progress st)\<rparr>)"
  "ids_fresh st \<Longrightarrow> ids_fresh (st\<lparr>md_watching := List.filter Q (md_watching st)\<rparr>)"
  by (simp_all add: ids_fresh_def)

lemma fresh_moved:
  assumes "ids_fresh st"
  shows "ids_fresh (move_progress s t st)" "ids_fresh (move_watching rekey s t st)"
proof -
  have "ids_fresh (fold (\<lambda>p. insert_progress newer_progress (h p)) ps st)" for h ps
    using assms by (induction ps arbitrary: st) (simp_all add: fresh_insert_progress newer_progress_def)
  then show "ids_fresh (move_progress s t st)"
    unfolding move_progress_def Let_def by (intro fresh_filter)
  have "ids_fresh (fold (\<lambda>w. insert_watching newer_watching (h w)) ws st)" for h ws
    using assms by (induction ws arbitrary: st) (simp_all add: fresh_insert_watching newer_watching_def)
  then show "ids_fresh (move_watching rekey s t st)"
    unfolding move_watching_def Let_def by (intro fresh_filter)
qed

lemma merge_keeps_sound:
  assumes "merge_media_item_user_state s t st = Inr st'"
  shows "keeps_sound st st'"
proof (cases "s = t")
  case True
  with assms show ?thesis by (simp add: merge_media_item_user_state_def keeps_sound_def)
next
  case False
  show ?thesis unfolding keeps_sound_def
  proof (intro impI conjI allI)
    assume ok: "media_ok st"
    then have rows: "rows_ok st" by (simp add: media_ok_def)
    have ok': "rows_ok st'" using assms False by (simp add: merge_media_item_user_state_def Let_def)
    have "ids_fresh (move_watching (\<lambda>i. if i = s then t else i) s t (move_progress s t st))"
      using ok by (simp add: media_ok_def fresh_moved)
    with assms False ok' show "media_ok st'"
      by (auto simp: media_ok_def merge_media_item_user_state_def Let_def ids_fresh_def)
    show "watch_count u st' \<le> watch_count u st" for u
      unfolding watch_count_card [OF rows_ok_keys(2) [OF rows]] watch_count_card [OF rows_ok_keys(2) [OF ok']]
      using merge_views [OF rows False assms, of u] by (intro merged_count [OF finite_watched False, of _ snd]) simp
  qed
qed

lemma regroup_keeps_sound:
  assumes "regroup_continue_watching_under_series s t st = Inr st'"
  shows "keeps_sound st st'"
proof (cases "s = t")
  case True
  with assms show ?thesis by (simp add: regroup_continue_watching_under_series_def keeps_sound_def)
next
  case False
  then have st': "st' = move_watching (\<lambda>i. i) s t st" "rows_ok st'"
    using assms by (simp_all add: regroup_continue_watching_under_series_def)
  show ?thesis unfolding keeps_sound_def
  proof (intro impI conjI allI)
    assume ok: "media_ok st"
    then have rows: "rows_ok st" by (simp add: media_ok_def)
    show "media_ok st'" using ok st'(2) by (simp add: media_ok_def st'(1) fresh_moved)
    show "watch_count u st' \<le> watch_count u st" for u
      unfolding watch_count_card [OF rows_ok_keys(2) [OF rows]] watch_count_card [OF rows_ok_keys(2) [OF st'(2)]]
      using last_watched_moved [OF rows_ok_keys(2) [OF rows] False, of "\<lambda>i. i" u]
      by (intro merged_count [OF finite_watched False, of _ snd])
        (auto simp: st'(1) merged_records_def split: option.split)
  qed
qed

subsection \<open>Every statement\<close>

lemma fresh_deleted:
  assumes "ids_fresh st"
  shows "ids_fresh (delete_items Q st)" "ids_fresh (delete_seasons S st)" "ids_fresh (delete_files F st)"
  using assms by (auto simp: delete_items_def delete_files_def delete_seasons_def Let_def ids_fresh_def)

lemma keeps_soundI:
  "(media_ok st \<Longrightarrow> rows_ok st') \<Longrightarrow> (media_ok st \<Longrightarrow> ids_fresh st') \<Longrightarrow> md_watching st' = List.filter Q (md_watching st)
    \<Longrightarrow> keeps_sound st st'"
  by (simp add: keeps_sound_def media_ok_def watch_count_def filter_twice_length del: filter_filter)

interpretation sound: media_relation keeps_sound
proof
  show "keeps_sound st st" for st by (simp add: keeps_sound_def)
  show "keeps_sound st st''" if "keeps_sound st st'" "keeps_sound st' st''" for st st' st''
    using that by (auto simp: keeps_sound_def intro: order_trans)
  show "keeps_sound st st'" if "add_item r st = Inr (st', i)" for r st st' i
    using that by (intro keeps_soundI [where Q = "\<lambda>_. True"]) (force simp: add_item_def map_ok_eq_Inr ids_fresh_def media_ok_def)+
  show "keeps_sound st st'" if "set_item i u st = Inr st'" "\<And>r. mi_id (u r) = mi_id r" for i u st st'
    using that by (intro keeps_soundI [where Q = "\<lambda>_. True"]) (auto simp: set_item_def update_items_def ids_fresh_def media_ok_def)
  show "keeps_sound st st'" if "insert_media_file env i e st = Inr st'" for env i e st st'
    using that by (intro keeps_soundI [where Q = "\<lambda>_. True"]) (force simp: insert_media_file_def ids_fresh_def media_ok_def)+
  show "keeps_sound st st'" if "checked (update_files P v st) = Inr st'" "\<And>f. mf_id (v f) = mf_id f" for P v st st'
    using that by (intro keeps_soundI [where Q = "\<lambda>_. True"]) (auto simp: update_files_def ids_fresh_def media_ok_def)
  show "keeps_sound st st'"
    if "checked (st\<lparr>md_seasons := md_seasons st @ [s\<lparr>sn_id := md_next_season st\<rparr>], md_next_season := md_next_season st + 1\<rparr>) = Inr st'" for st s st'
    using that by (intro keeps_soundI [where Q = "\<lambda>_. True"]) (force simp: ids_fresh_def media_ok_def)+
  show "keeps_sound st st'" if "set_season i w st = Inr st'" "\<And>s. sn_id (w s) = sn_id s" for i w st st'
    using that by (intro keeps_soundI [where Q = "\<lambda>_. True"]) (auto simp: set_season_def ids_fresh_def media_ok_def)
  show "keeps_sound st st'" if "checked (st\<lparr>md_episodes := es\<rparr>) = Inr st'" for es st st'
    using that by (intro keeps_soundI [where Q = "\<lambda>_. True"]) (auto simp: ids_fresh_def media_ok_def)
  show "keeps_sound st st'" if "merge_media_item_user_state a b st = Inr st'" for a b st st'
    using that by (rule merge_keeps_sound)
  show "keeps_sound st st'" if "regroup_continue_watching_under_series a b st = Inr st'" for a b st st'
    using that by (rule regroup_keeps_sound)
  show "keeps_sound st st'" if "repoint_progress a i b st = Inr st'" for a i b st st'
    using that by (intro keeps_soundI [where Q = "\<lambda>_. True"]) (auto simp: repoint_progress_def ids_fresh_def media_ok_def)
  show "keeps_sound st (delete_items Q st)" for st Q
    by (rule keeps_soundI) (simp_all add: media_ok_def rows_ok_delete_items fresh_deleted, simp add: delete_items_def delete_seasons_def Let_def)
  show "keeps_sound st (delete_seasons S st)" for st S
    by (rule keeps_soundI [where Q = "\<lambda>_. True"])
      (simp_all add: media_ok_def rows_ok_delete_seasons fresh_deleted, simp add: delete_seasons_def Let_def)
  show "keeps_sound st (delete_files F st)" for st F
    by (rule keeps_soundI [where Q = "\<lambda>_. True"])
      (simp_all add: media_ok_def rows_ok_delete_files fresh_deleted, simp add: delete_files_def Let_def)
qed

end
