(* ===== verification/Media_Runs.thy ===== *)
theory Media_Runs
  imports Media_Invariants "HOL-Library.Multiset"
begin

text \<open>
  The catalog under any order of its transactions: requests that store how far a user has watched, the
  writes of scans, and users and libraries that come and go with what refers to them
  (\<open>migrations/0001_init.sql\<close>). Each transaction is one step; one that fails leaves the tables alone.
\<close>

subsection \<open>Users and libraries\<close>

definition add_media_user :: "int \<Rightarrow> media_db \<Rightarrow> media_db" where
  "add_media_user u st = st\<lparr>md_users := md_users st @ [u]\<rparr>"

definition add_media_library :: "int \<Rightarrow> media_db \<Rightarrow> media_db" where
  "add_media_library l st = st\<lparr>md_libraries := md_libraries st @ [l]\<rparr>"

definition delete_media_user :: "int \<Rightarrow> media_db \<Rightarrow> media_db" where
  "delete_media_user u st =
     st\<lparr>md_users := List.filter (\<lambda>x. x \<noteq> u) (md_users st),
        md_progress := List.filter (\<lambda>p. pg_user p \<noteq> u) (md_progress st),
        md_watching := List.filter (\<lambda>w. cw_user w \<noteq> u) (md_watching st)\<rparr>"

definition delete_media_library :: "int \<Rightarrow> media_db \<Rightarrow> media_db" where
  "delete_media_library l st =
     (let st1 = delete_items (\<lambda>r. mi_library r = l) st in
      st1\<lparr>md_libraries := List.filter (\<lambda>x. x \<noteq> l) (md_libraries st1)\<rparr>)"

definition empty_media :: media_db where
  "empty_media = \<lparr>md_users = [], md_libraries = [], md_items = [], md_files = [], md_seasons = [], md_episodes = [],
     md_progress = [], md_watching = [], md_next_item = 1, md_next_file = 1, md_next_season = 1, md_next_progress = 1,
     md_next_watching = 1\<rparr>"

subsection \<open>Steps\<close>

inductive media_step :: "media_db \<Rightarrow> media_db \<Rightarrow> bool" where
  watched: "update_playback_progress_for_media_item u i x now st = Inr (st', p) \<Longrightarrow> media_step st st'"
| group_written: "upsert_library_media_entries_by_file_path_internal ndiv env i l key stage es f cleanup clk (st, js)
      = Inr ((st', js'), scan) \<Longrightarrow> media_step st st'"
| group_patched: "patch_library_media_entries_remote_by_file_path_internal ndiv env i l key es f cleanup clk (st, js)
      = Inr ((st', js'), scan) \<Longrightarrow> media_step st st'"
| file_written: "upsert_library_media_entry_by_file_path env l e st = Inr st' \<Longrightarrow> media_step st st'"
| file_gone: "delete_library_media_by_file_path l path st = Inr (st', n) \<Longrightarrow> media_step st st'"
| folder_gone: "delete_library_media_by_path_prefix l directory st = Inr (st', n) \<Longrightarrow> media_step st st'"
| synced: "sync_library_media env l es st = Inr st' \<Longrightarrow> media_step st st'"
| reconciled: "sync_library_media_changes env l i discovered retained es scope renamed documents f clk js st
      = Inr (st', out) \<Longrightarrow> media_step st st'"
| swept: "cleanup_library_orphan_series_after_scan l i f allow clk js st = Inr (st', n) \<Longrightarrow> media_step st st'"
| user_added: "media_step st (add_media_user u st)"
| user_gone: "media_step st (delete_media_user u st)"
| library_added: "media_step st (add_media_library l st)"
| library_gone: "media_step st (delete_media_library l st)"

inductive media_reachable :: "media_db \<Rightarrow> bool" where
  start: "media_reachable empty_media"
| step: "media_reachable st \<Longrightarrow> media_step st st' \<Longrightarrow> media_reachable st'"

subsection \<open>Storing a progress\<close>

lemma pruned_length:
  assumes "mset ws = mset xs"
  shows "length (List.filter (\<lambda>x. f x \<notin> set (map f (drop n ws))) xs) \<le> n"
proof -
  let ?Q = "\<lambda>x. f x \<notin> set (map f (drop n ws))"
  have "length (List.filter ?Q xs) = length (List.filter ?Q ws)"
    using assms by (metis mset_filter size_mset)
  also have "List.filter ?Q ws = List.filter ?Q (take n ws) @ List.filter ?Q (drop n ws)"
    by (metis append_take_drop_id filter_append)
  also have "List.filter ?Q (drop n ws) = []" by (auto simp: filter_empty_conv)
  finally have "length (List.filter ?Q xs) = length (List.filter ?Q (take n ws))" by simp
  also have "\<dots> \<le> length (take n ws)" by (rule length_filter_le)
  finally show ?thesis by simp
qed

lemma watching_of_mset: "mset (watching_of u st) = mset (List.filter (\<lambda>w. cw_user w = u) (md_watching st))"
  by (simp add: watching_of_def newest_first_def)

lemma pruned_count: "watch_count u (prune_watching u st) \<le> CONTINUE_WATCHING_LIMIT"
proof -
  have "watch_count u (prune_watching u st) = length (List.filter
      (\<lambda>w. cw_id w \<notin> set (map cw_id (drop CONTINUE_WATCHING_LIMIT (watching_of u st))))
      (List.filter (\<lambda>w. cw_user w = u) (md_watching st)))"
    by (simp add: watch_count_def prune_watching_def Let_def conj_commute)
  also have "\<dots> \<le> CONTINUE_WATCHING_LIMIT" by (rule pruned_length [OF watching_of_mset])
  finally show ?thesis .
qed

lemma pruned_others: "v \<noteq> u \<Longrightarrow> watch_count v (prune_watching u st) \<le> watch_count v st"
  by (simp add: watch_count_def prune_watching_def Let_def filter_twice_length del: filter_filter)

definition few_watched :: "media_db \<Rightarrow> bool" where
  "few_watched st = (\<forall>u. watch_count u st \<le> CONTINUE_WATCHING_LIMIT)"

lemma inserted_others:
  assumes "cw_user r \<noteq> v" and "\<And>w. cw_user (m r w) = cw_user w"
  shows "watch_count v (insert_watching m r st) = watch_count v st"
proof -
  have "length (List.filter (\<lambda>w. cw_user w = v) (map (\<lambda>w. if P w then m r w else w) ws))
      = length (List.filter (\<lambda>w. cw_user w = v) ws)" for P ws
    by (induction ws) (simp_all add: assms(2))
  then show ?thesis using assms(1) by (simp add: watch_count_def insert_watching_def upsert_row_def)
qed

lemma noted_few:
  assumes "few_watched st"
  shows "few_watched (note_watching u i finished now st)"
proof (cases finished)
  case True
  have "watch_count v (note_watching u i finished now st) \<le> watch_count v st" for v
    using True by (simp add: note_watching_def watch_count_def filter_twice_length del: filter_filter)
  then show ?thesis using assms by (auto simp: few_watched_def intro: order_trans)
next
  case False
  obtain st1 where st1: "note_watching u i finished now st = prune_watching u st1"
      "\<And>v. v \<noteq> u \<Longrightarrow> watch_count v st1 = watch_count v st"
    using False by (cases "shown_as i st") (auto simp: note_watching_def inserted_others)
  have "watch_count v (prune_watching u st1) \<le> CONTINUE_WATCHING_LIMIT" for v
  proof (cases "v = u")
    case False
    then have "watch_count v (prune_watching u st1) \<le> watch_count v st"
      using pruned_others [of v u st1] st1(2) by simp
    then show ?thesis using assms by (auto simp: few_watched_def intro: order_trans)
  qed (simp add: pruned_count)
  then show ?thesis unfolding st1(1) few_watched_def by (rule allI)
qed

lemma fresh_noted: "ids_fresh st \<Longrightarrow> ids_fresh (note_watching u i finished now st)"
  by (auto simp: note_watching_def prune_watching_def Let_def fresh_insert_watching
      intro!: fresh_filter split: option.split)

lemma progress_stored:
  "upsert_playback_progress p now st = Inr (st', q) \<Longrightarrow>
    st' = note_watching (up_user p) (up_item p) (up_finished p) now (insert_progress overwrite_progress (progress_row_of p now) st)
      \<and> rows_ok st' \<and> played_files_ok st'"
  by (auto simp: upsert_playback_progress_def and_then_eq_Inr)

definition media_sound :: "media_db \<Rightarrow> bool" where
  "media_sound st = (media_ok st \<and> played_files_ok st \<and> few_watched st)"

lemma upsert_sound:
  assumes "upsert_playback_progress p now st = Inr (st', q)" and "media_sound st"
  shows "media_sound st'"
proof -
  let ?st = "insert_progress overwrite_progress (progress_row_of p now) st"
  have st': "st' = note_watching (up_user p) (up_item p) (up_finished p) now ?st" and ok: "rows_ok st'" "played_files_ok st'"
    using progress_stored [OF assms(1)] by blast+
  have "ids_fresh ?st"
    using assms(2) by (simp add: media_sound_def media_ok_def fresh_insert_progress overwrite_progress_def)
  moreover have "few_watched ?st"
    using assms(2) by (simp add: media_sound_def few_watched_def watch_count_def insert_progress_def)
  ultimately show ?thesis using ok by (simp add: media_sound_def media_ok_def fresh_noted noted_few st')
qed

lemma update_stores:
  "update_playback_progress_for_media_item u i x now st = Inr (st', p)
    \<Longrightarrow> upsert_playback_progress (progress_params u i x) now st = Inr (st', p)"
  by (auto simp: update_playback_progress_for_media_item_def and_then_eq_Inr map_err_def split: if_splits sum.splits)

subsection \<open>Users and libraries\<close>

lemma rows_ok_delete_user:
  assumes "rows_ok st"
  shows "rows_ok (delete_media_user u st)"
proof -
  have "keys_unique (delete_media_user u st)"
    using assms by (auto simp: rows_ok_def keys_unique_def delete_media_user_def intro: distinct_map_filter)
  then show ?thesis using assms
    by (auto simp: rows_ok_def references_ok_def delete_media_user_def item_keys_def typed_item_keys_def)
qed

lemma rows_ok_delete_library:
  assumes "rows_ok st"
  shows "rows_ok (delete_media_library l st)"
proof -
  let ?st = "delete_items (\<lambda>r. mi_library r = l) st"
  have "rows_ok ?st" by (rule rows_ok_delete_items [OF assms])
  moreover have "\<forall>r\<in>set (md_items ?st). mi_library r \<noteq> l"
    by (simp add: delete_items_def delete_seasons_def Let_def)
  ultimately show ?thesis
    by (auto simp: rows_ok_def references_ok_def delete_media_library_def Let_def item_keys_def typed_item_keys_def
        keys_unique_def)
qed

text \<open>A file goes only with its item, and a progress with the item too.\<close>

lemma played_files_delete_items:
  assumes "played_files_ok st"
  shows "played_files_ok (delete_items Q st)"
  using assms by (fastforce simp: played_files_ok_def delete_items_def delete_seasons_def Let_def split: option.splits)

lemma user_gone_sound:
  assumes "media_sound st"
  shows "media_sound (delete_media_user u st)"
proof -
  have "watch_count v (delete_media_user u st) \<le> watch_count v st" for v
    by (simp add: watch_count_def delete_media_user_def filter_twice_length del: filter_filter)
  then have "few_watched (delete_media_user u st)"
    using assms by (auto simp: media_sound_def few_watched_def intro: order_trans)
  moreover have "ids_fresh (delete_media_user u st)" "played_files_ok (delete_media_user u st)"
    using assms by (auto simp: media_sound_def media_ok_def ids_fresh_def played_files_ok_def delete_media_user_def split: option.splits)
  ultimately show ?thesis using assms rows_ok_delete_user by (simp add: media_sound_def media_ok_def)
qed

lemma library_gone_sound:
  assumes "media_sound st"
  shows "media_sound (delete_media_library l st)"
proof -
  let ?st = "delete_items (\<lambda>r. mi_library r = l) st"
  have same: "delete_media_library l st = ?st\<lparr>md_libraries := List.filter (\<lambda>x. x \<noteq> l) (md_libraries ?st)\<rparr>"
    by (simp add: delete_media_library_def Let_def)
  have "keeps_sound st ?st" by (rule sound.deleted_items)
  then have "ids_fresh ?st" "few_watched ?st"
    using assms by (auto simp: media_sound_def media_ok_def keeps_sound_def few_watched_def intro: order_trans)
  moreover have "played_files_ok ?st"
    using assms by (simp add: media_sound_def played_files_delete_items)
  moreover have "rows_ok (delete_media_library l st)"
    using assms by (simp add: media_sound_def media_ok_def rows_ok_delete_library)
  ultimately show ?thesis
    by (simp add: media_sound_def media_ok_def same ids_fresh_def few_watched_def watch_count_def played_files_ok_def
        split: option.splits)
qed

lemma added_sound:
  assumes "media_sound st"
  shows "media_sound (add_media_user u st)" "media_sound (add_media_library l st)"
  using assms by (auto simp: media_sound_def media_ok_def rows_ok_def references_ok_def keys_unique_def item_keys_def
      typed_item_keys_def ids_fresh_def played_files_ok_def few_watched_def watch_count_def add_media_user_def
      add_media_library_def split: option.splits)

subsection \<open>The invariant\<close>

lemma sound_kept: "media_sound st \<Longrightarrow> keeps_sound st st' \<and> played_files_ok st' \<Longrightarrow> media_sound st'"
  by (auto simp: media_sound_def keeps_sound_def few_watched_def intro: order_trans)

lemma step_sound: "media_step st st' \<Longrightarrow> media_sound st \<Longrightarrow> media_sound st'"
proof (induction rule: media_step.induct)
  case watched
  then show ?case by (blast dest: update_stores upsert_sound)
next
  case reconciled
  then show ?case by (metis sound_kept sound.changes_synced fst_conv)
next
  case file_gone
  then show ?case by (metis sound_kept sound.file_deleted media_sound_def)
qed (blast intro: sound_kept [OF _ sound.group_upserted] sound_kept [OF _ sound.group_patched]
    sound_kept [OF _ sound.file_upserted] sound_kept [OF _ sound.prefix_deleted] sound_kept [OF _ sound.library_synced]
    sound_kept [OF _ sound.orphans_cleaned] added_sound user_gone_sound library_gone_sound)+

lemma reachable_sound: "media_reachable st \<Longrightarrow> media_sound st"
proof (induction rule: media_reachable.induct)
  case start
  show ?case by (simp add: media_sound_def media_ok_def rows_ok_def keys_unique_def references_ok_def ids_fresh_def
        played_files_ok_def few_watched_def watch_count_def empty_media_def)
qed (rule step_sound)

end
