(* ===== verification/Media_Samples.thy ===== *)
theory Media_Samples
  imports Media_Runs
begin

text \<open>
  A small catalog that two transactions make out of empty tables: a movie and two episodes of a series,
  without documents beside them. The concrete instances of the theorems on the catalog are about it.
\<close>

definition no_details :: item_details where
  "no_details = \<lparr>dt_original_title = None, dt_sort_title = None, dt_remote_type = None, dt_country = None,
     dt_genres = None, dt_studio = None, dt_overview = None, dt_poster = None, dt_backdrop = None, dt_logo = None,
     dt_tagline = None, dt_premiere = None, dt_rating = None\<rparr>"

definition plain_facts :: file_facts where
  "plain_facts = \<lparr>ff_source_kind = lit ''local'', ff_reference_hash = None, ff_container = None, ff_size = 1,
     ff_duration = None, ff_probed = [], ff_scan_hash = None, ff_modified_at_ms = None\<rparr>"

definition plain_entry :: "string \<Rightarrow> string \<Rightarrow> string \<Rightarrow> media_entry" where
  "plain_entry t title path =
     \<lparr>en_library = 1, en_type = lit t, en_title = lit title, en_source_title = lit title, en_provider = None,
      en_provider_item = None, en_status = lit ''pending'', en_failure = None, en_artwork_clear = False,
      en_replace_remote = False, en_year = None, en_details = no_details, en_series_artwork = (None, None, None),
      en_season = \<lparr>es_number = None, es_title = None, es_overview = None, es_poster = None, es_backdrop = None\<rparr>,
      en_episode = \<lparr>ee_number = None, ee_title = None, ee_original_title = None, ee_sort_title = None, ee_year = None,
        ee_overview = None, ee_tagline = None, ee_premiere = None, ee_rating = None\<rparr>,
      en_selected = False, en_path = lit path, en_facts = plain_facts\<rparr>"

definition plain_episode :: "string \<Rightarrow> int \<Rightarrow> string \<Rightarrow> media_entry" where
  "plain_episode series n path =
     (let e = plain_entry ''episode'' series path in
      e\<lparr>en_season := (en_season e)\<lparr>es_number := Some 1\<rparr>, en_episode := (en_episode e)\<lparr>ee_number := Some n\<rparr>\<rparr>)"

definition plain_env :: sync_env where
  "plain_env = \<lparr>se_now = 0, se_project = (\<lambda>_ _ r. r), se_restore = (\<lambda>_ _ _ r. r), se_refresh = (\<lambda>_ _. no_refresh)\<rparr>"

definition plain_item :: "int \<Rightarrow> item_type \<Rightarrow> string \<Rightarrow> string \<Rightarrow> media_item_row" where
  "plain_item i t title source = \<lparr>mi_id = i, mi_library = 1, mi_type = t, mi_title = lit title, mi_source_title = lit source,
     mi_provider = None, mi_provider_item = None, mi_status = lit ''pending'', mi_failure = None, mi_year = None,
     mi_details = no_details\<rparr>"

definition plain_file :: "int \<Rightarrow> int \<Rightarrow> string \<Rightarrow> media_file_row" where
  "plain_file i item path = \<lparr>mf_id = i, mf_library = 1, mf_item = item, mf_path = lit path, mf_facts = plain_facts, mf_created_at = 0\<rparr>"

definition two_users :: media_db where
  "two_users = add_media_user 8 (add_media_user 7 (add_media_library 1 empty_media))"

definition small_catalog :: media_db where
  "small_catalog = two_users\<lparr>
     md_items := [plain_item 1 MovieItem ''Alien'' ''Alien'', plain_item 2 SeriesItem ''Lost'' ''Lost'',
       plain_item 3 EpisodeItem ''Episode 01'' ''Lost'', plain_item 4 EpisodeItem ''Episode 02'' ''Lost''],
     md_files := [plain_file 1 1 ''/m/a.mkv'', plain_file 2 3 ''/m/l1.mkv'', plain_file 3 4 ''/m/l2.mkv''],
     md_seasons := [\<lparr>sn_id = 1, sn_library = 1, sn_series = 2, sn_number = 1, sn_title = lit ''Season 01'',
       sn_overview = None, sn_poster = None, sn_backdrop = None\<rparr>],
     md_episodes := [\<lparr>ep_item = 3, ep_library = 1, ep_season = 1, ep_number = 1\<rparr>,
       \<lparr>ep_item = 4, ep_library = 1, ep_season = 1, ep_number = 2\<rparr>],
     md_next_item := 5, md_next_file := 4, md_next_season := 2\<rparr>"

subsection \<open>Evaluation\<close>

text \<open>A statement is evaluated before what follows it.\<close>

lemma and_then_first: "m = m' \<Longrightarrow> and_then m f = and_then m' f" by simp

lemma map_ok_first: "m = m' \<Longrightarrow> map_ok f m = map_ok f m'" by simp

lemma let_first: "m = m' \<Longrightarrow> Let m f = Let m' f" by simp

lemmas media_first = and_then_first map_ok_first let_first

lemma checked_ok: "rows_ok st \<Longrightarrow> checked st = Inr st" by simp

lemma commit_ok: "played_files_ok st \<Longrightarrow> commit st = Inr st" by simp

lemma small_numbers: "nat_text 1 = [49]" "nat_text (Suc 0) = [49]" "nat_text 2 = [50]" "nat_text 3 = [51]"
  by code_simp+

lemmas text_eval = small_numbers to_ascii_lower_def is_ascii_upper_def lit_def to_ascii_lowercase_def trim_def trim_matches_def trim_start_matches_def trim_end_matches_def
  is_whitespace_def is_word_of_def starts_with_def int_text_def

lemmas row_eval = rows_ok_def keys_unique_def references_ok_def item_keys_def typed_item_keys_def item_row_ok_def
  file_row_ok_def progress_row_ok_def played_files_ok_def metadata_statuses_def METADATA_STATUS_MATCHED_def blank_def

lemmas read_eval = find_item_def find_episode_def find_season_def existing_of_def hd_opt_def or_else_def List.map_filter_def
  find_existing_movie_media_item_def find_existing_series_item_def bound_items_def titled_items_def
  get_existing_library_media_file_by_path_def list_library_media_files_for_sync_def find_season_of_def
  find_existing_episode_media_item_def find_series_id_for_episode_def series_has_files_def has_files_def
  episodes_of_series_def existing_media_item_has_accepted_remote_binding_def existing_media_item_is_matched_def

lemmas write_eval = checked_ok commit_ok and_then_def map_ok_def ok_or_def add_item_def set_item_def update_items_def
  update_files_def insert_media_file_def update_media_file_from_entry_def delete_items_def delete_seasons_def delete_files_def
  cleanup_structure_def delete_fileless_episodes_of_fileless_series_def cleanup_orphan_series_structure_def
  fileless_episode_def orphan_season_def orphan_series_def delete_media_item_def cleanup_media_item_if_no_files_def
  delete_media_file_and_cleanup_item_def series_of_episode_has_files_def delete_media_file_and_drop_empty_item_def

lemmas entry_eval = row_of_entry_def display_title_for_entry_def movie_group_title_for_entry_def stored_type_def
  insert_media_item_def insert_series_item_from_entry_def series_details_def season_from_entry_def season_title_for_entry_def
  two_digits_def episode_title_for_entry_def episode_source_title_def episode_details_def episode_row_of_entry_def
  insert_episode_media_item_def insert_episode_record_def insert_episode_structure_def insert_episode_media_tree_def
  season_conflict_def keep_artwork_def update_series_item_from_entry_def set_season_def allows_artwork_clear_def
  metadata_status_allows_artwork_clear_def no_refresh_def

lemmas upsert_eval = upsert_media_entry_def upsert_media_entry_with_policy_def upsert_movie_media_entry_def
  upsert_episode_media_entry_def upsert_series_item_from_entry_def upsert_season_def place_existing_episode_def
  upsert_library_media_entry_by_file_path_def sync_library_media_def take_existing_def

lemmas sample_eval = no_details_def plain_facts_def plain_entry_def plain_episode_def plain_env_def plain_item_def plain_file_def
  two_users_def add_media_user_def add_media_library_def empty_media_def small_catalog_def

lemmas media_eval = text_eval row_eval read_eval write_eval entry_eval upsert_eval sample_eval

lemma small_catalog_synced:
  "sync_library_media plain_env 1 [plain_entry ''movie'' ''Alien'' ''/m/a.mkv'', plain_episode ''Lost'' 1 ''/m/l1.mkv'',
     plain_episode ''Lost'' 2 ''/m/l2.mkv''] two_users = Inr small_catalog"
  by (simp add: media_eval Let_def cong: media_first)

lemma small_catalog_reachable: "media_reachable small_catalog"
proof -
  have "media_reachable two_users"
    unfolding two_users_def by (intro media_reachable.step [OF _ media_step.user_added]
        media_reachable.step [OF _ media_step.library_added] media_reachable.start)
  then show ?thesis by (rule media_reachable.step) (rule media_step.synced [OF small_catalog_synced])
qed

subsection \<open>Watching\<close>

definition sample_progress :: "int \<Rightarrow> int \<Rightarrow> int \<Rightarrow> int \<Rightarrow> int option \<Rightarrow> int \<Rightarrow> nat \<Rightarrow> progress_row" where
  "sample_progress i u item position d file now = \<lparr>pg_id = i, pg_user = u, pg_item = item, pg_file = Some file,
     pg_position = position, pg_duration = d, pg_watched_at = now, pg_finished = False\<rparr>"

definition sample_watching :: "int \<Rightarrow> int \<Rightarrow> int \<Rightarrow> int \<Rightarrow> nat \<Rightarrow> watching_row" where
  "sample_watching i u item played now = \<lparr>cw_id = i, cw_user = u, cw_item = item, cw_last = played, cw_watched_at = now\<rparr>"

definition sample_input :: "int \<Rightarrow> int \<Rightarrow> int option \<Rightarrow> bool \<Rightarrow> update_progress_input" where
  "sample_input file position d finished = \<lparr>ui_file = file, ui_position = position, ui_duration = d, ui_finished = finished\<rparr>"

lemmas watch_eval = update_playback_progress_for_media_item_def upsert_playback_progress_def progress_params_def
  progress_row_of_def overwrite_progress_def validate_progress_seconds_def get_media_item_def get_media_file_def opt_try_def
  map_err_def insert_progress_def insert_watching_def upsert_row_def find_progress_def find_watching_def find_row_def
  progress_key_def watching_key_def note_watching_def shown_as_def prune_watching_def watching_of_def newest_first_def
  CONTINUE_WATCHING_LIMIT_def sample_progress_def sample_watching_def sample_input_def

text \<open>User 7 has watched the movie, then the first episode.\<close>

definition movie_watched :: media_db where
  "movie_watched = small_catalog\<lparr>md_progress := [sample_progress 1 7 1 600 (Some 6000) 1 10],
     md_watching := [sample_watching 1 7 1 1 10], md_next_progress := 2, md_next_watching := 2\<rparr>"

definition series_watched :: media_db where
  "series_watched = small_catalog\<lparr>md_progress := [sample_progress 1 7 1 600 (Some 6000) 1 10, sample_progress 2 7 3 60 None 2 20],
     md_watching := [sample_watching 1 7 1 1 10, sample_watching 2 7 2 3 20], md_next_progress := 3, md_next_watching := 3\<rparr>"

lemma movie_is_watched:
  "update_playback_progress_for_media_item 7 1 (sample_input 1 600 (Some 6000) False) 10 small_catalog
    = Inr (movie_watched, Some (sample_progress 1 7 1 600 (Some 6000) 1 10))"
  by (simp add: media_eval watch_eval movie_watched_def Let_def cong: media_first)

lemma series_is_watched:
  "update_playback_progress_for_media_item 7 3 (sample_input 2 60 None False) 20 movie_watched
    = Inr (series_watched, Some (sample_progress 2 7 3 60 None 2 20))"
  by (simp add: media_eval watch_eval movie_watched_def series_watched_def Let_def cong: media_first)

lemma series_watched_reachable: "media_reachable series_watched"
  by (rule media_reachable.step [OF media_reachable.step [OF small_catalog_reachable
      media_step.watched [OF movie_is_watched]] media_step.watched [OF series_is_watched]])

end
