(* ===== verification/Playback_Requests.thy ===== *)
theory Playback_Requests
  imports Media_Samples
begin

text \<open>
  The requests on what users watch (\<open>mova-application/src/playback_progress.rs\<close>) on tables that have
  come about by transactions: a valid request is stored and read back, an invalid one is named as such,
  and the transaction itself never fails.
\<close>

subsection \<open>Rows that fit\<close>

lemma upsert_keeps_ids:
  assumes "distinct (map i rows)" and "\<And>r. i (conflict r) = i r" and "i fresh \<notin> set (map i rows)"
  shows "distinct (map i (upsert_row key conflict fresh rows))"
proof -
  have "map i (map (\<lambda>r. if key r = k then conflict r else r) rows) = map i rows" for k
    using assms(2) by simp
  then show ?thesis using assms(1,3) by (simp add: upsert_row_def del: map_map)
qed

lemma upsert_keeps_keys:
  assumes "distinct (map key rows)" and "\<And>r. key (conflict r) = key r"
  shows "distinct (map key (upsert_row key conflict fresh rows))"
  using assms by (simp add: upsert_row_keys)

lemma upsert_rows: "r \<in> set (upsert_row key conflict fresh rows) \<Longrightarrow>
  r \<in> set rows \<or> r = fresh \<or> (\<exists>r'\<in>set rows. r = conflict r' \<and> key r' = key fresh)"
  by (auto simp: upsert_row_def split: if_splits)

lemma progress_row_ok_id [simp]: "progress_row_ok (r\<lparr>pg_id := n\<rparr>) = progress_row_ok r"
  by (simp add: progress_row_ok_def split: option.split)

lemma rows_ok_insert_progress:
  assumes ok: "media_ok st" and row: "progress_row_ok r" "pg_user r \<in> set (md_users st)" "pg_item r \<in> set (map mi_id (md_items st))"
    and key: "\<And>p. progress_key (m r p) = progress_key p" and id: "\<And>p. pg_id (m r p) = pg_id p"
    and kept: "\<And>p. p \<in> set (md_progress st) \<Longrightarrow> progress_row_ok (m r p)"
  shows "rows_ok (insert_progress m r st)"
proof -
  let ?r = "r\<lparr>pg_id := md_next_progress st\<rparr>"
  let ?rows = "upsert_row progress_key (m r) ?r (md_progress st)"
  have rows: "rows_ok st" and "md_next_progress st \<notin> set (map pg_id (md_progress st))"
    using ok by (auto simp: media_ok_def ids_fresh_def)
  then have "distinct (map pg_id ?rows)" "distinct (map progress_key ?rows)"
    using rows_ok_keys(1) [OF rows] by (simp_all add: upsert_keeps_ids upsert_keeps_keys id key rows_ok_def keys_unique_def)
  then have "keys_unique (insert_progress m r st)"
    using rows by (simp add: rows_ok_def keys_unique_def insert_progress_def progress_key_def [abs_def])
  moreover have "progress_row_ok p \<and> pg_user p \<in> set (md_users st) \<and> pg_item p \<in> set (map mi_id (md_items st))"
    if p: "p \<in> set ?rows" for p
  proof -
    consider "p \<in> set (md_progress st)" | "p = ?r" | q where "q \<in> set (md_progress st)" "p = m r q"
      using upsert_rows [OF p] by blast
    then show ?thesis
    proof cases
      case 3
      then show ?thesis using rows kept [of q] key [of q] by (simp add: rows_ok_def references_ok_def progress_key_def)
    qed (use rows row in \<open>simp_all add: rows_ok_def references_ok_def\<close>)
  qed
  ultimately show ?thesis
    using rows by (simp add: rows_ok_def references_ok_def insert_progress_def item_keys_def typed_item_keys_def)
qed

lemma rows_ok_insert_watching:
  assumes ok: "media_ok st" and row: "cw_user r \<in> set (md_users st)" "cw_item r \<in> set (map mi_id (md_items st))"
      "cw_last r \<in> set (map mi_id (md_items st))"
    and key: "\<And>w. watching_key (m r w) = watching_key w" and id: "\<And>w. cw_id (m r w) = cw_id w"
    and last: "\<And>w. cw_last (m r w) \<in> {cw_last r, cw_last w}"
  shows "rows_ok (insert_watching m r st)"
proof -
  let ?r = "r\<lparr>cw_id := md_next_watching st\<rparr>"
  let ?rows = "upsert_row watching_key (m r) ?r (md_watching st)"
  have rows: "rows_ok st" and "md_next_watching st \<notin> set (map cw_id (md_watching st))"
    using ok by (auto simp: media_ok_def ids_fresh_def)
  then have "distinct (map cw_id ?rows)" "distinct (map watching_key ?rows)"
    using rows_ok_keys(2) [OF rows] by (simp_all add: upsert_keeps_ids upsert_keeps_keys id key rows_ok_def keys_unique_def)
  then have "keys_unique (insert_watching m r st)"
    using rows by (simp add: rows_ok_def keys_unique_def insert_watching_def watching_key_def [abs_def])
  moreover have "cw_user w \<in> set (md_users st) \<and> cw_item w \<in> set (map mi_id (md_items st)) \<and> cw_last w \<in> set (map mi_id (md_items st))"
    if w: "w \<in> set ?rows" for w
  proof -
    consider "w \<in> set (md_watching st)" | "w = ?r" | v where "v \<in> set (md_watching st)" "w = m r v"
      using upsert_rows [OF w] by blast
    then show ?thesis
    proof cases
      case 3
      then show ?thesis using rows row last [of v] key [of v] by (auto simp: rows_ok_def references_ok_def watching_key_def)
    qed (use rows row in \<open>simp_all add: rows_ok_def references_ok_def\<close>)
  qed
  ultimately show ?thesis
    using rows by (simp add: rows_ok_def references_ok_def insert_watching_def item_keys_def typed_item_keys_def)
qed

lemma rows_ok_filter_watching:
  assumes "rows_ok st"
  shows "rows_ok (st\<lparr>md_watching := List.filter Q (md_watching st)\<rparr>)"
proof -
  have "keys_unique (st\<lparr>md_watching := List.filter Q (md_watching st)\<rparr>)"
    using assms by (auto simp: rows_ok_def keys_unique_def intro: distinct_map_filter)
  then show ?thesis using assms by (auto simp: rows_ok_def references_ok_def item_keys_def typed_item_keys_def)
qed

lemma found_item: "find_item i st = Some r \<Longrightarrow> r \<in> set (md_items st) \<and> mi_id r = i"
  by (auto simp: find_item_def find_Some_iff)

lemma found_season: "find_season i st = Some s \<Longrightarrow> s \<in> set (md_seasons st) \<and> sn_id s = i"
  by (auto simp: find_season_def find_Some_iff)

lemma season_series_item:
  assumes "rows_ok st" and "s \<in> set (md_seasons st)"
  shows "sn_series s \<in> set (map mi_id (md_items st))"
proof -
  have "(sn_series s, sn_library s, SeriesItem) \<in> set (typed_item_keys st)"
    using assms by (simp add: rows_ok_def references_ok_def)
  then show ?thesis by (auto simp: typed_item_keys_def)
qed

lemma shown_as_item:
  assumes "rows_ok st" and "shown_as i st = Some k"
  shows "k \<in> set (map mi_id (md_items st)) \<and> i \<in> set (map mi_id (md_items st))"
proof -
  obtain r where r: "find_item i st = Some r" using assms(2) by (auto simp: shown_as_def split: option.splits)
  have i: "i \<in> set (map mi_id (md_items st))" using found_item [OF r] by auto
  from assms(2) r consider "k = i" | s where "s \<in> set (md_seasons st)" "k = sn_series s"
    by (auto simp: shown_as_def dest!: found_season split: option.splits)
  then show ?thesis
    using i season_series_item [OF assms(1)] by cases simp_all
qed

lemma rows_ok_noted:
  assumes "media_ok st" and "u \<in> set (md_users st)"
  shows "rows_ok (note_watching u i finished now st)"
proof -
  have "rows_ok (insert_watching (\<lambda>new old. old\<lparr>cw_last := cw_last new, cw_watched_at := cw_watched_at new\<rparr>)
      \<lparr>cw_id = 0, cw_user = u, cw_item = k, cw_last = i, cw_watched_at = now\<rparr> st)" if "shown_as i st = Some k" for k
    using that assms shown_as_item [of st i k]
    by (intro rows_ok_insert_watching) (simp_all add: media_ok_def watching_key_def)
  then show ?thesis using assms(1)
    by (auto simp: note_watching_def prune_watching_def Let_def media_ok_def intro!: rows_ok_filter_watching split: option.split)
qed

subsection \<open>Reading back\<close>

definition progress_request_ok :: "int \<Rightarrow> update_progress_input \<Rightarrow> media_db \<Rightarrow> bool" where
  "progress_request_ok i x st =
     (0 \<le> ui_position x \<and> (case ui_duration x of None \<Rightarrow> True | Some d \<Rightarrow> 0 \<le> d)
      \<and> (\<exists>f\<in>set (md_files st). mf_id f = ui_file x \<and> mf_item f = i))"

lemma progress_at_key:
  assumes "distinct (map progress_key ps)"
  shows "List.filter (\<lambda>p. pg_user p = u \<and> pg_item p = i) ps = (case find_row progress_key (u, i) ps of None \<Rightarrow> [] | Some p \<Rightarrow> [p])"
  using assms
proof (induction ps)
  case (Cons p ps)
  show ?case
  proof (cases "progress_key p = (u, i)")
    case True
    then have "List.filter (\<lambda>p. pg_user p = u \<and> pg_item p = i) ps = []"
      using Cons.prems by (auto simp: filter_empty_conv progress_key_def image_iff)
    with True show ?thesis by (simp add: find_row_def progress_key_def)
  next
    case False
    with Cons show ?thesis by (auto simp: find_row_def progress_key_def)
  qed
qed (simp add: find_row_def)

lemma read_found:
  assumes "rows_ok st"
  shows "get_playback_progress_for_media_item u i st = map_option (read_progress st) (find_progress u i st)"
  by (auto simp: get_playback_progress_for_media_item_def progress_at_key [OF rows_ok_keys(1) [OF assms]]
      find_progress_def split: option.split)

lemma overwrite_key: "progress_key (overwrite_progress r p) = progress_key p"
  by (simp add: overwrite_progress_def progress_key_def)

lemma find_progress_stored:
  "find_progress v j (insert_progress overwrite_progress (progress_row_of p now) st) =
     (if v = up_user p \<and> j = up_item p
      then Some (case find_progress v j st of None \<Rightarrow> (progress_row_of p now)\<lparr>pg_id := md_next_progress st\<rparr>
        | Some old \<Rightarrow> overwrite_progress ((progress_row_of p now)\<lparr>pg_id := md_next_progress st\<rparr>) old)
      else find_progress v j st)"
  by (auto simp: find_progress_def insert_progress_def find_row_upsert [where conflict = "overwrite_progress _"] overwrite_key
      progress_key_def progress_row_of_def overwrite_progress_def split: option.split)

lemma noted_frame:
  "\<exists>ws n. note_watching u i finished now st = st\<lparr>md_watching := ws, md_next_watching := n\<rparr>"
proof (cases finished)
  case True
  then show ?thesis
    by (intro exI [of _ "List.filter (\<lambda>w. \<not> (cw_user w = u \<and> Some (cw_item w) = shown_as i st)) (md_watching st)"]
        exI [of _ "md_next_watching st"]) (simp add: note_watching_def)
next
  case False
  have frame: "\<exists>ws n. st\<lparr>md_next_watching := n', md_watching := ws'\<rparr> = st\<lparr>md_watching := ws, md_next_watching := n\<rparr>" for ws' n'
    by (rule exI [of _ ws'], rule exI [of _ n']) simp
  have "\<exists>ws n. prune_watching u (st\<lparr>md_watching := ws', md_next_watching := n'\<rparr>) = st\<lparr>md_watching := ws, md_next_watching := n\<rparr>" for ws' n'
    by (simp add: prune_watching_def Let_def frame)
  from this [where ws' = "md_watching st" and n' = "md_next_watching st"] this False show ?thesis
    by (auto simp: note_watching_def insert_watching_def split: option.split)
qed

subsection \<open>Every request is answered\<close>

lemma find_by_key: "distinct (map k xs) \<Longrightarrow> x \<in> set xs \<Longrightarrow> List.find (\<lambda>y. k y = k x) xs = Some x"
  by (induction xs) auto

lemma request_file:
  assumes "rows_ok st" and "f \<in> set (md_files st)"
  shows "mf_item f \<in> set (map mi_id (md_items st))" "List.find (\<lambda>g. mf_id g = mf_id f) (md_files st) = Some f"
proof -
  have "(mf_item f, mf_library f) \<in> set (item_keys st)"
    using assms by (simp add: rows_ok_def references_ok_def)
  then show "mf_item f \<in> set (map mi_id (md_items st))" by (auto simp: item_keys_def)
  have "distinct (map mf_id (md_files st))" using assms by (simp add: rows_ok_def keys_unique_def)
  then show "List.find (\<lambda>g. mf_id g = mf_id f) (md_files st) = Some f" by (rule find_by_key [OF _ assms(2)])
qed

lemma upsert_succeeds:
  assumes sound: "media_ok st" "played_files_ok st" and u: "up_user p \<in> set (md_users st)"
    and f: "f \<in> set (md_files st)" "mf_id f = up_file p" "mf_item f = up_item p"
    and row: "progress_row_ok (progress_row_of p now)"
  defines "st1 \<equiv> insert_progress overwrite_progress (progress_row_of p now) st"
  shows "upsert_playback_progress p now st
    = Inr (note_watching (up_user p) (up_item p) (up_finished p) now st1, find_progress (up_user p) (up_item p) st1)"
proof -
  let ?st2 = "note_watching (up_user p) (up_item p) (up_finished p) now st1"
  have rows: "rows_ok st" using sound by (simp add: media_ok_def)
  have "progress_row_ok (overwrite_progress (progress_row_of p now) q) = progress_row_ok (progress_row_of p now)" for q
    by (simp add: progress_row_ok_def overwrite_progress_def split: option.split)
  then have rows1: "rows_ok st1"
    unfolding st1_def using sound u row request_file(1) [OF rows f(1)] f(3)
    by (intro rows_ok_insert_progress) (simp_all add: overwrite_key, simp_all add: progress_row_of_def overwrite_progress_def)
  have ids: "ids_fresh st1"
    using sound by (simp add: st1_def media_ok_def fresh_insert_progress overwrite_progress_def)
  have "rows_ok ?st2"
    using rows1 ids u by (intro rows_ok_noted) (simp_all add: media_ok_def st1_def insert_progress_def)
  moreover have "played_files_ok ?st2"
  proof -
    have played: "(up_file p, up_item p) \<in> set (map (\<lambda>f. (mf_id f, mf_item f)) (md_files st))" using f by force
    have "case pg_file q of None \<Rightarrow> True | Some g \<Rightarrow> (g, pg_item q) \<in> set (map (\<lambda>f. (mf_id f, mf_item f)) (md_files st))"
      if "q \<in> set (md_progress st1)" for q
      using that sound(2) played
      by (auto simp: st1_def insert_progress_def progress_row_of_def overwrite_progress_def played_files_ok_def
          progress_key_def dest!: upsert_rows)
    moreover have files: "md_files st1 = md_files st" by (simp add: st1_def insert_progress_def)
    ultimately have "played_files_ok st1" unfolding played_files_ok_def files by (intro ballI)
    moreover obtain ws n where "?st2 = st1\<lparr>md_watching := ws, md_next_watching := n\<rparr>" using noted_frame by blast
    ultimately show ?thesis by (simp add: played_files_ok_def split: option.splits)
  qed
  ultimately show ?thesis using rows1 by (simp add: upsert_playback_progress_def and_then_def st1_def checked_def commit_def)
qed

text \<open>What a user has stored of an item, as it is read.\<close>

definition progress_request_view :: "update_progress_input \<Rightarrow> nat \<Rightarrow> int option \<times> int \<times> int option \<times> nat \<times> bool" where
  "progress_request_view x now =
     (Some (ui_file x), case ui_duration x of None \<Rightarrow> ui_position x | Some d \<Rightarrow> min (ui_position x) d, ui_duration x, now,
      ui_finished x)"

lemma progress_of_noted: "progress_of (note_watching u i finished now st) = progress_of st"
proof -
  obtain ws n where "note_watching u i finished now st = st\<lparr>md_watching := ws, md_next_watching := n\<rparr>" using noted_frame by blast
  then show ?thesis by (simp add: progress_of_def [abs_def] find_progress_def)
qed

lemma progress_of_stored:
  "progress_of (insert_progress overwrite_progress (progress_row_of (progress_params u i x) now) st) v j =
     (if v = u \<and> j = i then Some (progress_request_view x now) else progress_of st v j)"
  unfolding progress_of_def find_progress_stored
  by (auto simp: progress_params_def progress_row_of_def overwrite_progress_def progress_view_def progress_request_view_def
      split: option.split)

lemma update_succeeds:
  fixes now :: nat
  assumes reach: "media_reachable st" and u: "u \<in> set (md_users st)" and ok: "progress_request_ok i x st"
  defines "p \<equiv> progress_params u i x"
  defines "st1 \<equiv> insert_progress overwrite_progress (progress_row_of p now) st"
  shows "update_playback_progress_for_media_item u i x now st
    = Inr (note_watching u i (ui_finished x) now st1, find_progress u i st1)"
proof -
  have sound: "media_ok st" "played_files_ok st" using reachable_sound [OF reach] by (simp_all add: media_sound_def)
  have rows: "rows_ok st" using sound(1) by (simp add: media_ok_def)
  obtain f where f: "f \<in> set (md_files st)" "mf_id f = ui_file x" "mf_item f = i"
    using ok by (auto simp: progress_request_ok_def)
  have "progress_row_ok (progress_row_of p now)"
    using ok by (auto simp: progress_request_ok_def progress_row_ok_def progress_row_of_def p_def progress_params_def
        split: option.splits)
  then have "upsert_playback_progress p now st = Inr (note_watching u i (ui_finished x) now st1, find_progress u i st1)"
    using upsert_succeeds [OF sound, of p f now] u f by (simp add: p_def progress_params_def st1_def)
  moreover have "get_media_file (ui_file x) st = Inr f"
    using request_file(2) [OF rows f(1)] f(2) by (simp add: get_media_file_def ok_or_def)
  moreover have "\<exists>r. get_media_item i st = Inr r"
    using request_file(1) [OF rows f(1)] f(3) by (cases "find_item i st")
      (auto simp: get_media_item_def ok_or_def find_item_def find_None_iff)
  ultimately show ?thesis using ok f(3)
    by (auto simp: update_playback_progress_for_media_item_def progress_request_ok_def validate_progress_seconds_def
        opt_try_def and_then_def map_err_def p_def split: option.splits)
qed

lemma update_refused:
  assumes "\<not> progress_request_ok i x st"
  shows "\<exists>m. update_playback_progress_for_media_item u i x now st \<in> {Inl (AppValidation m), Inl (AppNotFound m)}"
  using assms
  by (auto simp: update_playback_progress_for_media_item_def progress_request_ok_def validate_progress_seconds_def
      get_media_item_def get_media_file_def opt_try_def and_then_def ok_or_def find_Some_iff
      split: option.splits sum.splits if_splits)

lemma update_answers:
  assumes reach: "media_reachable st" and u: "u \<in> set (md_users st)"
  shows "case update_playback_progress_for_media_item u i x now st of
      Inl e \<Rightarrow> \<not> progress_request_ok i x st \<and> (\<exists>m. e = AppValidation m \<or> e = AppNotFound m)
    | Inr (st', p) \<Rightarrow> progress_request_ok i x st \<and> read_playback_progress_for_media_item u i st' = Inr p
        \<and> progress_of st' = (progress_of st)(u := (progress_of st u)(i := Some (progress_request_view x now)))"
proof (cases "progress_request_ok i x st")
  case False
  then show ?thesis using update_refused [OF False, of u now] by auto
next
  case True
  let ?st1 = "insert_progress overwrite_progress (progress_row_of (progress_params u i x) now) st"
  let ?st2 = "note_watching u i (ui_finished x) now ?st1"
  have run: "update_playback_progress_for_media_item u i x now st = Inr (?st2, find_progress u i ?st1)"
    by (rule update_succeeds [OF reach u True])
  then have rows: "rows_ok ?st2" by (meson update_stores progress_stored)
  obtain ws n where st2: "?st2 = ?st1\<lparr>md_watching := ws, md_next_watching := n\<rparr>" using noted_frame by blast
  have "find_item i st \<noteq> None"
    using run by (auto simp: update_playback_progress_for_media_item_def and_then_eq_Inr get_media_item_def ok_or_eq_Inr)
  moreover have "md_items ?st2 = md_items st" unfolding st2 by (simp add: insert_progress_def)
  ultimately have "find_item i ?st2 \<noteq> None" by (simp add: find_item_def)
  moreover have "\<exists>p. find_progress u i ?st1 = Some p \<and> pg_file p \<noteq> None"
    unfolding find_progress_stored by (auto simp: progress_params_def progress_row_of_def overwrite_progress_def split: option.split)
  moreover have "find_progress u i ?st2 = find_progress u i ?st1" by (simp add: st2 find_progress_def)
  ultimately have "read_playback_progress_for_media_item u i ?st2 = Inr (find_progress u i ?st1)"
    by (auto simp: read_playback_progress_for_media_item_def get_media_item_def read_found [OF rows] read_progress_def
        or_else_def and_then_def ok_or_def)
  moreover have "progress_of ?st2 = (progress_of st)(u := (progress_of st u)(i := Some (progress_request_view x now)))"
    by (intro ext) (simp add: progress_of_noted progress_of_stored)
  ultimately show ?thesis using True by (simp add: run)
qed

subsection \<open>The list of what a user watches\<close>

lemma newest_first_hd:
  assumes "w \<in> set ws" and "\<forall>v\<in>set ws. v \<noteq> w \<longrightarrow> cw_watched_at v < cw_watched_at w"
  shows "\<exists>vs. newest_first ws = w # vs"
proof -
  let ?ys = "sort_key cw_watched_at (sort_key cw_id ws)"
  have set: "set ?ys = set ws" and "sorted (map cw_watched_at ?ys)" by simp_all
  then obtain ys y where ys: "?ys = ys @ [y]" using assms(1) by (metis empty_iff list.set(1) rev_exhaust)
  have "cw_watched_at w \<le> cw_watched_at y"
  proof (cases "w = y")
    case False
    then have "w \<in> set ys" using assms(1) set ys by auto
    then show ?thesis using \<open>sorted (map cw_watched_at ?ys)\<close> by (simp add: ys sorted_append)
  qed simp
  moreover have "y \<in> set ws" using set ys by auto
  ultimately have "y = w" using assms(2) by fastforce
  then show ?thesis by (simp add: newest_first_def ys)
qed

lemma watching_key_inj:
  "rows_ok st \<Longrightarrow> v \<in> set (md_watching st) \<Longrightarrow> w \<in> set (md_watching st) \<Longrightarrow> watching_key v = watching_key w \<Longrightarrow> v = w"
  using rows_ok_keys(2) [of st] by (auto simp: distinct_map inj_on_def)

lemma watching_id_inj:
  "rows_ok st \<Longrightarrow> v \<in> set (md_watching st) \<Longrightarrow> w \<in> set (md_watching st) \<Longrightarrow> cw_id v = cw_id w \<Longrightarrow> v = w"
  by (auto simp: rows_ok_def keys_unique_def distinct_map inj_on_def)

lemma set_watching_of: "set (watching_of u st) = {w \<in> set (md_watching st). cw_user w = u}"
  by (auto simp: watching_of_def newest_first_def)

text \<open>The newest entry of a user survives the pruning, at the head of the list.\<close>

lemma pruned_newest:
  assumes rows: "rows_ok st" and w: "w \<in> set (md_watching st)" "cw_user w = u"
    and new: "\<forall>v\<in>set (md_watching st). cw_user v = u \<and> v \<noteq> w \<longrightarrow> cw_watched_at v < cw_watched_at w"
  shows "\<exists>vs. watching_of u (prune_watching u st) = w # vs"
proof -
  obtain vs where vs: "watching_of u st = w # vs"
    unfolding watching_of_def using newest_first_hd [of w "List.filter (\<lambda>w. cw_user w = u) (md_watching st)"] w new by auto
  let ?old = "map cw_id (drop CONTINUE_WATCHING_LIMIT (watching_of u st))"
  have "distinct (watching_of u st)"
  proof -
    have "distinct (md_watching st)" using rows_ok_keys(2) [OF rows] by (simp add: distinct_map)
    then show ?thesis by (simp add: watching_of_def newest_first_def)
  qed
  then have "w \<notin> set vs" by (simp add: vs)
  have "cw_id w \<notin> set ?old"
  proof
    assume "cw_id w \<in> set ?old"
    then obtain v where v: "v \<in> set (drop CONTINUE_WATCHING_LIMIT (watching_of u st))" "cw_id v = cw_id w" by auto
    then have "v \<in> set vs" by (auto simp: vs CONTINUE_WATCHING_LIMIT_def drop_Cons' dest: in_set_dropD)
    moreover have "v \<in> set (md_watching st)" using v(1) set_watching_of by (blast dest: in_set_dropD)
    ultimately show False using \<open>w \<notin> set vs\<close> watching_id_inj [OF rows _ w(1) v(2)] by blast
  qed
  then have "w \<in> set (List.filter (\<lambda>w. cw_user w = u) (md_watching (prune_watching u st)))"
    using w by (simp add: prune_watching_def Let_def)
  moreover have "set (md_watching (prune_watching u st)) \<subseteq> set (md_watching st)"
    by (auto simp: prune_watching_def Let_def)
  ultimately show ?thesis
    unfolding watching_of_def using new by (intro newest_first_hd) auto
qed

definition can_see :: "int list option \<Rightarrow> int \<Rightarrow> media_db \<Rightarrow> bool" where
  "can_see visible k st =
     (case find_item k st of None \<Rightarrow> False
      | Some r \<Rightarrow> (case visible of None \<Rightarrow> True | Some ls \<Rightarrow> mi_library r \<in> set ls))"

definition watching_now :: "int \<Rightarrow> int \<Rightarrow> int \<Rightarrow> nat \<Rightarrow> watching_row" where
  "watching_now u k i now = \<lparr>cw_id = 0, cw_user = u, cw_item = k, cw_last = i, cw_watched_at = now\<rparr>"

definition rewatch :: "watching_row \<Rightarrow> watching_row \<Rightarrow> watching_row" where
  "rewatch new old = old\<lparr>cw_last := cw_last new, cw_watched_at := cw_watched_at new\<rparr>"

lemma noted_unfinished:
  assumes "shown_as i st = Some k"
  shows "note_watching u i False now st = prune_watching u (insert_watching rewatch (watching_now u k i now) st)"
  using assms by (simp add: note_watching_def rewatch_def [abs_def] watching_now_def)

lemma inserted_newest:
  assumes ok: "rows_ok (insert_watching rewatch (watching_now u k i now) st)"
    and old: "\<forall>v\<in>set (md_watching st). cw_user v = u \<longrightarrow> cw_watched_at v < now"
  shows "\<exists>w\<in>set (md_watching (insert_watching rewatch (watching_now u k i now) st)).
      cw_user w = u \<and> cw_item w = k \<and> cw_last w = i
      \<and> (\<forall>v\<in>set (md_watching (insert_watching rewatch (watching_now u k i now) st)).
           cw_user v = u \<and> v \<noteq> w \<longrightarrow> cw_watched_at v < cw_watched_at w)"
proof -
  let ?st = "insert_watching rewatch (watching_now u k i now) st"
  have key: "watching_key (rewatch n r) = watching_key r" for n r by (simp add: rewatch_def watching_key_def)
  have "find_watching u k ?st = Some (case find_watching u k st of
      None \<Rightarrow> (watching_now u k i now)\<lparr>cw_id := md_next_watching st\<rparr> | Some r \<Rightarrow> rewatch (watching_now u k i now) r)"
    by (simp add: find_watching_def insert_watching_def find_row_upsert [where conflict = "rewatch _"] key
        watching_key_def [of "cw_id_update _ _"] split: option.split) (simp add: watching_now_def)
  then obtain w where w: "find_watching u k ?st = Some w" "cw_last w = i" "cw_watched_at w = now"
    by (auto simp: watching_now_def rewatch_def split: option.splits)
  then have mem: "w \<in> set (md_watching ?st)" "cw_user w = u" "cw_item w = k"
    by (auto simp: find_watching_def watching_key_def dest: find_row_SomeD)
  have "cw_watched_at v < now" if v: "v \<in> set (md_watching ?st)" "cw_user v = u" "v \<noteq> w" for v
  proof -
    have "watching_key v \<noteq> (u, k)"
      using watching_key_inj [OF ok v(1) mem(1)] v(3) mem(2,3) by (auto simp: watching_key_def)
    then have "v \<in> set (md_watching st)"
      using v(1) by (auto simp: insert_watching_def watching_now_def watching_key_def rewatch_def dest!: upsert_rows)
    then show ?thesis using old v(2) by blast
  qed
  with w(2,3) mem show ?thesis by (intro bexI [of _ w]) auto
qed

lemma stored_frame:
  assumes "media_ok st" and "update_playback_progress_for_media_item u i x now st = Inr (st', p)"
  shows "md_items st' = md_items st \<and> find_progress u i st' = p
    \<and> (\<exists>q. p = Some q \<and> pg_file q \<noteq> None \<and> pg_finished q = ui_finished x)
    \<and> (\<exists>st1. st' = note_watching u i (ui_finished x) now st1 \<and> md_watching st1 = md_watching st \<and> shown_as i st1 = shown_as i st
         \<and> media_ok st1 \<and> u \<in> set (md_users st1))"
proof -
  let ?p = "progress_params u i x"
  let ?st1 = "insert_progress overwrite_progress (progress_row_of ?p now) st"
  have ps: "up_user ?p = u" "up_item ?p = i" "up_finished ?p = ui_finished x" by (simp_all add: progress_params_def)
  have run: "upsert_playback_progress ?p now st = Inr (st', p)" by (rule update_stores [OF assms(2)])
  then have st': "st' = note_watching u i (ui_finished x) now ?st1" and p: "p = find_progress u i ?st1"
    using progress_stored [OF run] by (auto simp: upsert_playback_progress_def and_then_eq_Inr ps)
  obtain ws n where "st' = ?st1\<lparr>md_watching := ws, md_next_watching := n\<rparr>" using st' noted_frame by blast
  then have "md_items st' = md_items st" "find_progress u i st' = p"
    by (simp_all add: insert_progress_def p find_progress_def)
  moreover have "\<exists>q. p = Some q \<and> pg_file q \<noteq> None \<and> pg_finished q = ui_finished x"
    unfolding p find_progress_stored
    by (auto simp: progress_params_def progress_row_of_def overwrite_progress_def split: option.split)
  moreover have "md_watching ?st1 = md_watching st" "shown_as i ?st1 = shown_as i st"
    by (simp_all add: insert_progress_def shown_as_def find_item_def find_episode_def find_season_def split: option.split)
  moreover have "rows_ok ?st1" using run by (simp add: upsert_playback_progress_def and_then_eq_Inr)
  then have "media_ok ?st1"
    using assms(1) by (simp add: media_ok_def fresh_insert_progress overwrite_progress_def)
  moreover have "u \<in> set (md_users ?st1)"
  proof -
    obtain q where "find_progress u i ?st1 = Some q" using calculation(3) p by auto
    then have "q \<in> set (md_progress ?st1)" "pg_user q = u"
      by (auto simp: find_progress_def progress_key_def dest: find_row_SomeD)
    then show ?thesis using \<open>rows_ok ?st1\<close> by (auto simp: rows_ok_def references_ok_def)
  qed
  ultimately show ?thesis using st' by blast
qed

lemma listed_items:
  assumes "c \<in> set (db_list_continue_watching u visible n st)"
  shows "\<exists>w\<in>set (md_watching st). cw_user w = u \<and> mi_id (ci_item c) = cw_item w"
proof -
  have "\<exists>w\<in>set (watching_of u st). continue_item_of st w = Some c"
    using assms by (auto simp: db_list_continue_watching_def List.map_filter_def dest!: in_set_takeD) blast
  then show ?thesis
    by (fastforce simp: set_watching_of continue_item_of_def Let_def dest: found_item split: option.splits)
qed

lemma list_default: "list_continue_watching u visible None st =
    (if visible = Some [] then Inr [] else Inr (db_list_continue_watching u visible 20 st))"
  by (simp add: list_continue_watching_def normalize_continue_watching_limit_def DEFAULT_CONTINUE_WATCHING_LIMIT_def
      MAX_CONTINUE_WATCHING_LIMIT_def and_then_def)

lemma shown_first:
  assumes "watching_of u st = w # ws" and "continue_item_of st w = Some c" and "\<not> pg_finished (ci_progress c)"
    and "case visible of None \<Rightarrow> True | Some ls \<Rightarrow> mi_library (ci_item c) \<in> set ls" and "0 < n"
  shows "\<exists>cs. db_list_continue_watching u visible n st = c # cs"
proof -
  obtain m where "n = Suc m" using assms(5) by (cases n) auto
  then show ?thesis using assms(1-4) by (simp add: db_list_continue_watching_def List.map_filter_def)
qed

text \<open>The entry of an unfinished progress is the first, if its library is visible.\<close>

lemma update_is_listed:
  assumes reach: "media_reachable st" and run: "update_playback_progress_for_media_item u i x now st = Inr (st', p)"
    and old: "\<forall>v\<in>set (md_watching st). cw_user v = u \<longrightarrow> cw_watched_at v < now"
    and k: "shown_as i st = Some k" and see: "can_see visible k st"
  shows "\<exists>cs. list_continue_watching u visible None st' = Inr cs
    \<and> (if ui_finished x then k \<notin> set (map (\<lambda>c. mi_id (ci_item c)) cs)
       else cs \<noteq> [] \<and> mi_id (ci_item (hd cs)) = k \<and> p = Some (ci_progress (hd cs)))"
proof -
  have "media_ok st" using reachable_sound [OF reach] by (simp add: media_sound_def)
  from stored_frame [OF this run] obtain q st1 where items: "md_items st' = md_items st" and p: "find_progress u i st' = p"
    and q: "p = Some q" "pg_file q \<noteq> None" "pg_finished q = ui_finished x"
    and st': "st' = note_watching u i (ui_finished x) now st1" and w1: "md_watching st1 = md_watching st"
    and ok1: "media_ok st1" and u: "u \<in> set (md_users st1)" and k1: "shown_as i st1 = Some k"
    using k by auto
  have rows: "rows_ok st'" using update_stores [OF run] progress_stored by blast
  show ?thesis
  proof (cases "ui_finished x")
    case True
    then have gone: "\<forall>w\<in>set (md_watching st'). \<not> (cw_user w = u \<and> cw_item w = k)"
      by (simp add: st' note_watching_def k1)
    have "k \<notin> set (map (\<lambda>c. mi_id (ci_item c)) (db_list_continue_watching u visible 20 st'))"
      using gone by (auto dest!: listed_items)
    then show ?thesis using True by (simp add: list_default)
  next
    case False
    let ?st2 = "insert_watching rewatch (watching_now u k i now) st1"
    have pr: "st' = prune_watching u ?st2" using False by (simp add: st' noted_unfinished [OF k1])
    have ok2: "rows_ok ?st2"
      using u shown_as_item [of st1, OF _ k1] ok1
      by (intro rows_ok_insert_watching) (simp_all add: media_ok_def watching_now_def rewatch_def watching_key_def)
    obtain w where w: "w \<in> set (md_watching ?st2)" "cw_user w = u" "cw_item w = k" "cw_last w = i"
      and new: "\<forall>v\<in>set (md_watching ?st2). cw_user v = u \<and> v \<noteq> w \<longrightarrow> cw_watched_at v < cw_watched_at w"
      using inserted_newest [OF ok2] old by (auto simp: w1)
    obtain ws where head: "watching_of u st' = w # ws" using pruned_newest [OF ok2 w(1,2) new] by (auto simp: pr)
    obtain r where r: "find_item k st = Some r" "case visible of None \<Rightarrow> True | Some ls \<Rightarrow> mi_library r \<in> set ls"
      using see by (auto simp: can_see_def split: option.splits)
    obtain r' where r': "find_item i st = Some r'" using k by (auto simp: shown_as_def split: option.splits)
    obtain c where c: "continue_item_of st' w = Some c" "ci_item c = r" "ci_progress c = q"
      using r r' q items p by (simp add: continue_item_of_def find_item_def w Let_def read_progress_def or_else_def split: option.splits)
    have "case visible of None \<Rightarrow> True | Some ls \<Rightarrow> mi_library (ci_item c) \<in> set ls" unfolding c(2) by (rule r(2))
    then have "\<exists>cs. db_list_continue_watching u visible 20 st' = c # cs"
      using False q c(3) by (intro shown_first [OF head c(1)]) simp_all
    then show ?thesis using False q c(2,3) found_item [OF r(1)] r(2) by (auto simp: list_default)
  qed
qed

subsection \<open>The properties\<close>

text \<open>
  C11. A request to store how far a user has watched an item succeeds exactly when no time is negative
  and the file is one of the item's; else it is refused as invalid or not found, and it never fails for
  a constraint of the tables. What was stored, the position within the duration, is read back, and no
  other progress of any user changes.
\<close>

theorem valid_progress_is_stored:
  assumes "media_reachable st" and "u \<in> set (md_users st)"
  shows "case update_playback_progress_for_media_item u i x now st of
      Inl e \<Rightarrow> \<not> progress_request_ok i x st \<and> (\<exists>m. e = AppValidation m \<or> e = AppNotFound m)
    | Inr (st', p) \<Rightarrow> progress_request_ok i x st \<and> read_playback_progress_for_media_item u i st' = Inr p
        \<and> progress_of st' = (progress_of st)(u := (progress_of st u)(i := Some (progress_request_view x now)))"
  by (rule update_answers [OF assms])

theorem valid_progress_is_stored_witness:
  "\<exists>st' p. update_playback_progress_for_media_item 7 4 (sample_input 3 9000 (Some 2600) False) 30 series_watched = Inr (st', p)
     \<and> progress_of st' 7 4 = Some (Some 3, 2600, Some 2600, 30, False)"
proof -
  have "media_reachable series_watched" by (rule series_watched_reachable)
  moreover have "7 \<in> set (md_users series_watched)" by (simp add: series_watched_def sample_eval)
  moreover have "progress_request_ok 4 (sample_input 3 9000 (Some 2600) False) series_watched"
    by (simp add: progress_request_ok_def series_watched_def sample_eval sample_input_def)
  ultimately show ?thesis
    using valid_progress_is_stored [of series_watched 7 4 "sample_input 3 9000 (Some 2600) False" 30]
    by (auto simp: progress_request_view_def sample_input_def split: sum.splits)
qed

text \<open>
  C12. When a progress has been stored as the user's latest, the list of what he is watching begins with
  the movie, or with the series of the episode, and shows the progress just stored; when it was finished,
  the list no longer has the movie or series. That holds for every user who may see its library.
\<close>

theorem watched_is_resumed:
  assumes "media_reachable st" and "update_playback_progress_for_media_item u i x now st = Inr (st', p)"
    and "\<forall>v\<in>set (md_watching st). cw_user v = u \<longrightarrow> cw_watched_at v < now"
    and "shown_as i st = Some k" and "can_see visible k st"
  shows "\<exists>cs. list_continue_watching u visible None st' = Inr cs
    \<and> (if ui_finished x then k \<notin> set (map (\<lambda>c. mi_id (ci_item c)) cs)
       else cs \<noteq> [] \<and> mi_id (ci_item (hd cs)) = k \<and> p = Some (ci_progress (hd cs)))"
  by (rule update_is_listed [OF assms])

theorem watched_is_resumed_witness:
  "\<exists>cs. list_continue_watching 7 (Some [1]) None series_watched = Inr cs \<and> mi_id (ci_item (hd cs)) = 2"
proof -
  have "media_reachable movie_watched"
    by (rule media_reachable.step [OF small_catalog_reachable media_step.watched [OF movie_is_watched]])
  moreover have "\<forall>v\<in>set (md_watching movie_watched). cw_user v = 7 \<longrightarrow> cw_watched_at v < 20"
    by (simp add: movie_watched_def sample_watching_def)
  moreover have "shown_as 3 movie_watched = Some 2" "can_see (Some [1]) 2 movie_watched"
    by (simp_all add: movie_watched_def shown_as_def can_see_def read_eval sample_eval)
  ultimately show ?thesis
    using watched_is_resumed [OF _ series_is_watched, of 2 "Some [1]"] by (auto simp: sample_input_def)
qed

text \<open>
  C10. Merging an item into another gives each user the record watched last, of the progress and of the
  list of what is being watched alike; no record of the old item is left, none of another item changes,
  and an entry of the list that was last played on the old item now names the new one.
\<close>

theorem merge_keeps_newest:
  assumes "rows_ok st" and "s \<noteq> t" and "merge_media_item_user_state s t st = Inr st'"
  shows "progress_of st' u = merged_records progress_at s t (progress_of st u)
    \<and> last_watched st' u = (\<lambda>i. map_option (apfst (\<lambda>j. if j = s then t else j)) (merged_records snd s t (last_watched st u) i))"
  by (rule merge_views [OF assms])

lemma sample_merge: "\<exists>st'. merge_media_item_user_state 3 1 series_watched = Inr st'"
  by (simp add: merge_media_item_user_state_def move_progress_def move_watching_def newer_progress_def newer_watching_def
      series_watched_def media_eval watch_eval Let_def cong: media_first)

theorem merge_keeps_newest_witness:
  "\<exists>st'. merge_media_item_user_state 3 1 series_watched = Inr st'
     \<and> progress_of st' 7 1 = Some (Some 2, 60, None, 20, False) \<and> progress_of st' 7 3 = None
     \<and> last_watched st' 7 2 = Some (1, 20)"
proof -
  obtain st' where st': "merge_media_item_user_state 3 1 series_watched = Inr st'" using sample_merge by blast
  have "rows_ok series_watched" using reachable_sound [OF series_watched_reachable] by (simp add: media_sound_def media_ok_def)
  then have "progress_of st' 7 = merged_records progress_at 3 1 (progress_of series_watched 7)
      \<and> last_watched st' 7 = (\<lambda>i. map_option (apfst (\<lambda>j. if j = 3 then 1 else j)) (merged_records snd 3 1 (last_watched series_watched 7) i))"
    using st' by (intro merge_keeps_newest) simp_all
  moreover have "progress_of series_watched 7 3 = Some (Some 2, 60, None, 20, False)"
    "progress_of series_watched 7 1 = Some (Some 1, 600, Some 6000, 10, False)" "last_watched series_watched 7 2 = Some (3, 20)"
    by (simp_all add: progress_of_def last_watched_def progress_view_def watching_view_def series_watched_def watch_eval)
  ultimately show ?thesis using st' by (auto simp: merged_records_def newest_def progress_at_def)
qed

end
