(* ===== verification/Catalog_Changes.thy ===== *)
theory Catalog_Changes
  imports Playback_Requests
begin

text \<open>
  What the last transaction of a scan leaves of the catalog (\<open>media_items/sync.rs\<close>): the files that are
  there, no series without files, and the cases in which it goes wrong.
\<close>

subsection \<open>Files\<close>

text \<open>Every file belongs to a movie or an episode.\<close>

definition files_of_works :: "media_db \<Rightarrow> bool" where
  "files_of_works st = (\<forall>f\<in>set (md_files st). \<forall>r\<in>set (md_items st). mi_id r = mf_item f \<longrightarrow> mi_type r \<noteq> SeriesItem)"

lemma delete_items_files:
  assumes "\<And>r f. r \<in> set (md_items st) \<Longrightarrow> Q r \<Longrightarrow> f \<in> set (md_files st) \<Longrightarrow> mf_item f \<noteq> mi_id r"
  shows "md_files (delete_items Q st) = md_files st"
  using assms by (auto simp: delete_items_def delete_seasons_def Let_def filter_id_conv)

lemma delete_seasons_files [simp]: "md_files (delete_seasons S st) = md_files st" "md_items (delete_seasons S st) = md_items st"
  by (simp_all add: delete_seasons_def Let_def)

lemma delete_files_files: "md_files (delete_files F st) = List.filter (\<lambda>f. \<not> F f) (md_files st)"
  "md_items (delete_files F st) = md_items st"
  by (simp_all add: delete_files_def Let_def)

lemma delete_items_items: "md_items (delete_items Q st) = List.filter (\<lambda>r. \<not> Q r) (md_items st)"
  by (simp add: delete_items_def delete_seasons_def Let_def)

lemma emptied_files: "\<not> has_files i st \<Longrightarrow> md_files (delete_media_item i st) = md_files st"
  by (auto simp: delete_media_item_def has_files_def list_ex_iff intro: delete_items_files)

lemma removed_files: "md_files (remove_missing moved x st) = List.filter (\<lambda>f. mf_id f \<noteq> xf_file x) (md_files st)"
  by (auto simp: remove_missing_def delete_media_file_and_drop_empty_item_def delete_media_file_and_cleanup_item_def
      cleanup_media_item_if_no_files_def Let_def emptied_files delete_files_files)

lemma all_removed_files:
  "md_files (fold (remove_missing moved) xs st) = List.filter (\<lambda>f. mf_id f \<notin> set (map xf_file xs)) (md_files st)"
  by (induction xs arbitrary: st) (auto simp: removed_files intro: filter_cong)

lemma removed_items: "set (md_items (remove_missing moved x st)) \<subseteq> set (md_items st)"
  by (auto simp: remove_missing_def delete_media_file_and_drop_empty_item_def delete_media_file_and_cleanup_item_def
      cleanup_media_item_if_no_files_def Let_def delete_media_item_def delete_items_items delete_files_files)

lemma all_removed_items: "set (md_items (fold (remove_missing moved) xs st)) \<subseteq> set (md_items st)"
  by (induction xs arbitrary: st) (use removed_items in fastforce)+

text \<open>The files of a library, and the items they belong to.\<close>

lemma existing_files:
  assumes "rows_ok st"
  shows "list_library_media_files_for_sync l st = map (\<lambda>f. \<lparr>xf_item = mf_item f, xf_file = mf_id f,
      xf_type = mi_type (the (find_item (mf_item f) st)), xf_path = mf_path f\<rparr>) (List.filter (\<lambda>f. mf_library f = l) (md_files st))"
proof -
  have "existing_of st f = Some \<lparr>xf_item = mf_item f, xf_file = mf_id f, xf_type = mi_type (the (find_item (mf_item f) st)),
      xf_path = mf_path f\<rparr>" if "f \<in> set (md_files st)" for f
  proof -
    have "(mf_item f, mf_library f) \<in> set (item_keys st)"
      using assms that by (simp add: rows_ok_def references_ok_def)
    then obtain r where "find_item (mf_item f) st = Some r"
      by (cases "find_item (mf_item f) st") (auto simp: find_item_def find_None_iff item_keys_def)
    then show ?thesis using found_item by (auto simp: existing_of_def)
  qed
  then have "List.map_filter (existing_of st) fs = map (\<lambda>f. \<lparr>xf_item = mf_item f, xf_file = mf_id f,
      xf_type = mi_type (the (find_item (mf_item f) st)), xf_path = mf_path f\<rparr>) fs" if "set fs \<subseteq> set (md_files st)" for fs
    using that by (induction fs) (simp_all add: List.map_filter_def)
  then show ?thesis unfolding list_library_media_files_for_sync_def by auto
qed

lemma existing_paths:
  "rows_ok st \<Longrightarrow> map xf_path (list_library_media_files_for_sync l st)
     = map mf_path (List.filter (\<lambda>f. mf_library f = l) (md_files st))"
  by (simp add: existing_files comp_def)

lemma missing_file_ids:
  assumes "rows_ok st" and "f \<in> set (md_files st)"
  shows "mf_id f \<in> set (map xf_file (List.filter (\<lambda>x. xf_path x \<in> set missing) (list_library_media_files_for_sync l st)))
    \<longleftrightarrow> mf_library f = l \<and> mf_path f \<in> set missing"
proof -
  have "g = f" if "g \<in> set (md_files st)" "mf_id g = mf_id f" for g
    using assms that by (auto simp: rows_ok_def keys_unique_def distinct_map inj_on_def)
  then show ?thesis using assms(2) by (auto simp: existing_files [OF assms(1)] image_iff)
qed

subsection \<open>Renamed files\<close>

lemma carried_tree:
  assumes "carry_renamed observed xs r (st, moved) = Inr (st', moved')"
  shows "md_files st' = md_files st \<and> md_items st' = md_items st \<and> md_seasons st' = md_seasons st \<and> md_episodes st' = md_episodes st"
  using assms
  by (auto simp: carry_renamed_def and_then_eq_Inr map_ok_eq_Inr repoint_progress_def merged_tree split: if_split_asm option.split_asm)

lemma all_carried_tree:
  "try_fold (carry_renamed observed xs) rs (st, moved) = Inr (st', moved') \<Longrightarrow>
    md_files st' = md_files st \<and> md_items st' = md_items st \<and> md_seasons st' = md_seasons st \<and> md_episodes st' = md_episodes st"
proof (induction rs arbitrary: st moved)
  case (Cons r rs)
  then obtain st1 moved1 where 1: "carry_renamed observed xs r (st, moved) = Inr (st1, moved1)"
    and 2: "try_fold (carry_renamed observed xs) rs (st1, moved1) = Inr (st', moved')"
    by (auto simp: and_then_eq_Inr)
  show ?case using Cons.IH [OF 2] carried_tree [OF 1] by simp
qed simp

subsection \<open>Series without files\<close>

lemma episode_in_series:
  assumes "find_series_id_for_episode i st = Some s"
  shows "i \<in> set (episodes_of_series s st)"
proof -
  from assms obtain e sn where "find_episode i st = Some e" and sn: "find_season (ep_season e) st = Some sn" "sn_series sn = s"
    by (auto simp: find_series_id_for_episode_def bind_eq_Some_conv)
  then have "e \<in> set (md_episodes st)" "ep_item e = i" by (auto simp: find_episode_def find_Some_iff)
  with sn show ?thesis by (force simp: episodes_of_series_def dest: found_season)
qed

lemma fileless_no_files:
  "fileless_episode l st r \<Longrightarrow> \<not> has_files (mi_id r) st"
  by (auto simp: fileless_episode_def series_has_files_def list_ex_iff dest: episode_in_series split: option.splits)

lemma ghosts_files: "md_files (fst (delete_fileless_episodes_of_fileless_series l st)) = md_files st"
  unfolding delete_fileless_episodes_of_fileless_series_def fst_conv
  by (rule delete_items_files) (use fileless_no_files in \<open>force simp: has_files_def list_ex_iff\<close>)

lemma in_episodes_of_series:
  "i \<in> set (episodes_of_series k st) \<longleftrightarrow>
     (\<exists>s e. s \<in> set (md_seasons st) \<and> sn_series s = k \<and> e \<in> set (md_episodes st) \<and> ep_season e = sn_id s \<and> ep_item e = i)"
  by (auto simp: episodes_of_series_def)

lemma series_of_episode:
  assumes "rows_ok st" and "i \<in> set (episodes_of_series k st)"
  shows "find_series_id_for_episode i st = Some k"
proof -
  obtain s e where s: "s \<in> set (md_seasons st)" "sn_series s = k" and e: "e \<in> set (md_episodes st)" "ep_season e = sn_id s" "ep_item e = i"
    using assms(2) by (auto simp: in_episodes_of_series)
  have d: "distinct (map ep_item (md_episodes st))" "distinct (map sn_id (md_seasons st))"
    using assms(1) by (simp_all add: rows_ok_def keys_unique_def)
  show ?thesis
    using find_by_key [OF d(1) e(1)] find_by_key [OF d(2) s(1)] e s(2)
    by (simp add: find_series_id_for_episode_def find_episode_def find_season_def)
qed

lemma item_unique: "rows_ok st \<Longrightarrow> r \<in> set (md_items st) \<Longrightarrow> r' \<in> set (md_items st) \<Longrightarrow> mi_id r = mi_id r' \<Longrightarrow> r = r'"
  by (auto simp: rows_ok_def keys_unique_def distinct_map inj_on_def)

lemma season_series_row:
  assumes "rows_ok st" and "s \<in> set (md_seasons st)"
  shows "\<exists>r\<in>set (md_items st). mi_id r = sn_series s \<and> mi_library r = sn_library s \<and> mi_type r = SeriesItem"
proof -
  have "(sn_series s, sn_library s, SeriesItem) \<in> set (typed_item_keys st)"
    using assms by (simp add: rows_ok_def references_ok_def)
  then show ?thesis by (auto simp: typed_item_keys_def)
qed

lemma episode_item_row:
  assumes "rows_ok st" and "e \<in> set (md_episodes st)"
  shows "\<exists>r\<in>set (md_items st). mi_id r = ep_item e \<and> mi_library r = ep_library e \<and> mi_type r = EpisodeItem"
proof -
  have "(ep_item e, ep_library e, EpisodeItem) \<in> set (typed_item_keys st)"
    using assms by (simp add: rows_ok_def references_ok_def)
  then show ?thesis by (auto simp: typed_item_keys_def)
qed

text \<open>Items that are deleted for having no file are episodes, so no season goes with them.\<close>

lemma fileless_is_episode:
  assumes "rows_ok st" and "fileless_episode l st r" and "r \<in> set (md_items st)"
  shows "mi_type r = EpisodeItem"
proof -
  obtain e where e: "find_episode (mi_id r) st = Some e"
    using assms(2) by (auto simp: fileless_episode_def find_series_id_for_episode_def bind_eq_Some_conv split: option.splits)
  then have "e \<in> set (md_episodes st)" "ep_item e = mi_id r" by (auto simp: find_episode_def find_Some_iff)
  then show ?thesis using episode_item_row [OF assms(1)] item_unique [OF assms(1,3)] by metis
qed

lemma ghosts_tree:
  fixes l :: int
  assumes rows: "rows_ok st"
  defines "gone \<equiv> set (map mi_id (List.filter (fileless_episode l st) (md_items st)))"
  shows "md_seasons (fst (delete_fileless_episodes_of_fileless_series l st)) = md_seasons st"
    and "md_episodes (fst (delete_fileless_episodes_of_fileless_series l st)) = List.filter (\<lambda>e. ep_item e \<notin> gone) (md_episodes st)"
    and "md_items (fst (delete_fileless_episodes_of_fileless_series l st)) = List.filter (\<lambda>r. \<not> fileless_episode l st r) (md_items st)"
proof -
  have "sn_series s \<notin> gone" if s: "s \<in> set (md_seasons st)" for s
  proof
    assume "sn_series s \<in> gone"
    then obtain r where "r \<in> set (md_items st)" "fileless_episode l st r" "mi_id r = sn_series s"
      by (auto simp: gone_def)
    then show False using season_series_row [OF rows s] fileless_is_episode [OF rows] item_unique [OF rows] item_type.distinct by metis
  qed
  then have "delete_seasons (\<lambda>s. sn_series s \<in> gone) st = st"
    by (simp add: delete_seasons_def Let_def filter_id_conv filter_empty_conv)
  then show "md_seasons (fst (delete_fileless_episodes_of_fileless_series l st)) = md_seasons st"
    "md_episodes (fst (delete_fileless_episodes_of_fileless_series l st)) = List.filter (\<lambda>e. ep_item e \<notin> gone) (md_episodes st)"
    "md_items (fst (delete_fileless_episodes_of_fileless_series l st)) = List.filter (\<lambda>r. \<not> fileless_episode l st r) (md_items st)"
    by (simp_all add: delete_fileless_episodes_of_fileless_series_def delete_items_def Let_def gone_def)
qed

lemma series_files: "series_has_files k st \<longleftrightarrow> (\<exists>i\<in>set (episodes_of_series k st). has_files i st)"
  by (auto simp: series_has_files_def list_ex_iff)

text \<open>A second pass finds nothing: the count that the transaction calls that of orphans is always zero.\<close>

lemma ghosts_once:
  fixes l :: int
  assumes rows: "rows_ok st"
  defines "st' \<equiv> fst (delete_fileless_episodes_of_fileless_series l st)"
  assumes r: "r \<in> set (md_items st')"
  shows "\<not> fileless_episode l st' r"
proof
  note tree = ghosts_tree [OF rows, of l, folded st'_def]
  have files: "has_files i st' = has_files i st" for i
    by (simp add: has_files_def ghosts_files st'_def)
  have old: "r \<in> set (md_items st)" "\<not> fileless_episode l st r" using r by (auto simp: tree)
  assume less: "fileless_episode l st' r"
  then obtain k where k: "find_series_id_for_episode (mi_id r) st' = Some k" "\<not> series_has_files k st'" "mi_library r = l"
    by (auto simp: fileless_episode_def split: option.splits)
  have "mi_id r \<in> set (episodes_of_series k st)"
    using episode_in_series [OF k(1)] by (auto simp: in_episodes_of_series tree)
  then have "series_has_files k st"
    using old(2) k(3) series_of_episode [OF rows] by (simp add: fileless_episode_def)
  then obtain i where i: "i \<in> set (episodes_of_series k st)" "has_files i st" by (auto simp: series_files)
  then have "i \<notin> set (map mi_id (List.filter (fileless_episode l st) (md_items st)))"
    using fileless_no_files by auto
  then have "i \<in> set (episodes_of_series k st')" using i(1) by (auto simp: in_episodes_of_series tree)
  then show False using k(2) i(2) files by (auto simp: series_files)
qed

lemma ghosts_twice:
  assumes "rows_ok st" and "\<forall>r\<in>set (md_items st). \<not> fileless_episode l st r"
  shows "snd (delete_fileless_episodes_of_fileless_series l st) = 0"
    and "md_files (fst (delete_fileless_episodes_of_fileless_series l st)) = md_files st"
    and "md_items (fst (delete_fileless_episodes_of_fileless_series l st)) = md_items st"
    and "md_seasons (fst (delete_fileless_episodes_of_fileless_series l st)) = md_seasons st"
    and "md_episodes (fst (delete_fileless_episodes_of_fileless_series l st)) = md_episodes st"
proof -
  have none: "List.filter (fileless_episode l st) (md_items st) = []" using assms(2) by (simp add: filter_empty_conv)
  show "snd (delete_fileless_episodes_of_fileless_series l st) = 0"
    by (simp add: delete_fileless_episodes_of_fileless_series_def none)
  show "md_items (fst (delete_fileless_episodes_of_fileless_series l st)) = md_items st"
    using assms(2) by (simp add: ghosts_tree(3) [OF assms(1)] filter_id_conv)
qed (simp_all add: ghosts_tree [OF assms(1)] ghosts_files filter_id_conv filter_empty_conv assms(2))

subsection \<open>Orphans\<close>

lemma orphans_tree:
  fixes l :: int
  assumes rows: "rows_ok st" and works: "files_of_works st"
  defines "st' \<equiv> fst (cleanup_orphan_series_structure l st)"
  defines "left \<equiv> List.filter (\<lambda>s. \<not> orphan_season l st s) (md_seasons st)"
  shows "md_files st' = md_files st" and "md_episodes st' = md_episodes st" and "md_seasons st' = left"
    and "md_items st' = List.filter (\<lambda>r. \<not> (mi_library r = l \<and> mi_type r = SeriesItem \<and> \<not> list_ex (\<lambda>s. sn_series s = mi_id r) left)) (md_items st)"
proof -
  define st1 where "st1 = delete_seasons (orphan_season l st) st"
  have st1: "md_seasons st1 = left" "md_episodes st1 = md_episodes st" "md_items st1 = md_items st" "md_files st1 = md_files st"
    by (auto simp: st1_def delete_seasons_def Let_def left_def filter_id_conv orphan_season_def list_ex_iff)
  have rows1: "rows_ok st1" unfolding st1_def by (rule rows_ok_delete_seasons [OF rows])
  have st': "st' = delete_items (orphan_series l st1) st1"
    by (simp add: st'_def cleanup_orphan_series_structure_def Let_def st1_def)
  let ?gone = "set (map mi_id (List.filter (orphan_series l st1) (md_items st1)))"
  have "sn_series s \<notin> ?gone" if "s \<in> set (md_seasons st1)" for s
    using that by (auto simp: orphan_series_def list_ex_iff)
  then have same: "delete_seasons (\<lambda>s. sn_series s \<in> ?gone) st1 = st1"
    by (simp add: delete_seasons_def Let_def filter_id_conv filter_empty_conv)
  have "ep_item e \<notin> ?gone" if e: "e \<in> set (md_episodes st1)" for e
  proof
    assume "ep_item e \<in> ?gone"
    then obtain r where "r \<in> set (md_items st1)" "mi_type r = SeriesItem" "mi_id r = ep_item e" by (auto simp: orphan_series_def)
    then show False using episode_item_row [OF rows1 e] item_unique [OF rows1] item_type.distinct by metis
  qed
  then show "md_episodes st' = md_episodes st" "md_seasons st' = left"
    using same by (simp_all add: st' delete_items_def Let_def filter_id_conv st1)
  show "md_files st' = md_files st"
    unfolding st' st1(4) [symmetric] by (rule delete_items_files)
      (use works in \<open>auto simp: orphan_series_def files_of_works_def st1\<close>)
  show "md_items st' = List.filter (\<lambda>r. \<not> (mi_library r = l \<and> mi_type r = SeriesItem \<and> \<not> list_ex (\<lambda>s. sn_series s = mi_id r) left)) (md_items st)"
    by (simp add: st' delete_items_items orphan_series_def st1)
qed

lemma orphans_gone:
  fixes l :: int
  assumes rows: "rows_ok st" and works: "files_of_works st" and clean: "\<forall>r\<in>set (md_items st). \<not> fileless_episode l st r"
  defines "st' \<equiv> fst (cleanup_orphan_series_structure l st)"
  assumes r: "r \<in> set (md_items st')" "mi_library r = l" "mi_type r = SeriesItem"
  shows "series_has_files (mi_id r) st'"
proof -
  note tree = orphans_tree [OF rows works, of l, folded st'_def]
  have r0: "r \<in> set (md_items st)" using r(1) by (simp add: tree)
  obtain s where s: "s \<in> set (md_seasons st)" "\<not> orphan_season l st s" "sn_series s = mi_id r"
    using r by (auto simp: tree list_ex_iff)
  then obtain e where e: "e \<in> set (md_episodes st)" "ep_season e = sn_id s"
    using r0 r(2,3) by (auto simp: orphan_season_def list_ex_iff)
  have "sn_library s = l"
    using season_series_row [OF rows s(1)] item_unique [OF rows r0] s(3) r(2) by metis
  moreover have "(ep_season e, ep_library e) \<in> set (map (\<lambda>s. (sn_id s, sn_library s)) (md_seasons st))"
    using rows e(1) by (simp add: rows_ok_def references_ok_def)
  then have "ep_library e = sn_library s"
    using e(2) s(1) rows by (auto simp: rows_ok_def keys_unique_def distinct_map inj_on_def)
  ultimately obtain q where q: "q \<in> set (md_items st)" "mi_id q = ep_item e" "mi_library q = l"
    using episode_item_row [OF rows e(1)] by auto
  have "ep_item e \<in> set (episodes_of_series (mi_id r) st)" using s e by (auto simp: in_episodes_of_series)
  then have "series_has_files (mi_id r) st"
    using clean q series_of_episode [OF rows] by (fastforce simp: fileless_episode_def)
  then obtain i where i: "i \<in> set (episodes_of_series (mi_id r) st)" "has_files i st" by (auto simp: series_files)
  then have "i \<in> set (episodes_of_series (mi_id r) st')"
    by (force simp: in_episodes_of_series tree orphan_season_def list_ex_iff)
  then show ?thesis using i(2) by (auto simp: series_files has_files_def tree)
qed

subsection \<open>The transaction\<close>

lemma works_subset:
  "files_of_works st \<Longrightarrow> set (md_files st') \<subseteq> set (md_files st) \<Longrightarrow> set (md_items st') \<subseteq> set (md_items st) \<Longrightarrow> files_of_works st'"
  by (auto simp: files_of_works_def)

lemma reconciled:
  assumes ok: "media_ok st" and works: "files_of_works st"
    and run: "sync_library_media_changes env l i discovered retained [] scope renamed documents f clk js st = Inr (st', out, announced)"
  shows "md_files st' = List.filter (\<lambda>f. \<not> (mf_library f = l \<and> mf_path f \<in> set (missing_in_sync discovered retained scope
        (map mf_path (List.filter (\<lambda>f. mf_library f = l) (md_files st)))))) (md_files st)"
    and "\<forall>r\<in>set (md_items st'). mi_library r = l \<and> mi_type r = SeriesItem \<longrightarrow> series_has_files (mi_id r) st'"
    and "announced = (0 < so_removed out \<or> 0 < documents)"
proof -
  have rows: "rows_ok st" using ok by (simp add: media_ok_def)
  let ?xs = "list_library_media_files_for_sync l st"
  define missing where "missing = missing_in_sync discovered retained scope (map xf_path ?xs)"
  let ?gone = "List.filter (\<lambda>x. xf_path x \<in> set missing) ?xs"
  let ?ghosts = "\<lambda>st. fst (delete_fileless_episodes_of_fileless_series l st)"
  from run obtain st1 moved
    where 1: "try_fold (carry_renamed (discovered @ retained) ?xs) renamed (st, []) = Inr (st1, moved)"
      and 3: "st' = fst (cleanup_orphan_series_structure l (?ghosts (?ghosts (fold (remove_missing moved) ?gone st1))))"
      and a: "announced = (0 < so_removed out \<or> 0 < documents
        \<or> 0 < snd (delete_fileless_episodes_of_fileless_series l (?ghosts (fold (remove_missing moved) ?gone st1))))"
    unfolding sync_library_media_changes_def Let_def missing_def
    by (auto simp: and_then_eq_Inr map_ok_eq_Inr split_beta)
  define st3 where "st3 = fold (remove_missing moved) ?gone st1"
  have tree1: "md_files st1 = md_files st" "md_items st1 = md_items st" using all_carried_tree [OF 1] by simp_all
  have kept: "keeps_sound st st1" "keeps_sound st1 st3" "keeps_sound st3 (?ghosts st3)"
      "keeps_sound (?ghosts st3) (?ghosts (?ghosts st3))"
    unfolding st3_def by (rule sound.all_carried [OF 1]) (rule sound.folded sound.missing_removed sound.cleaned_episodes)+
  then have rows3: "rows_ok st3" "rows_ok (?ghosts st3)" "rows_ok (?ghosts (?ghosts st3))"
    using ok by (auto simp: keeps_sound_def media_ok_def)
  have clean: "\<forall>r\<in>set (md_items (?ghosts st3)). \<not> fileless_episode l (?ghosts st3) r"
    using ghosts_once [OF rows3(1)] by blast
  note twice = ghosts_twice [OF rows3(2) clean]
  have clean2: "\<forall>r\<in>set (md_items (?ghosts (?ghosts st3))). \<not> fileless_episode l (?ghosts (?ghosts st3)) r"
    using ghosts_once [OF rows3(2)] by blast
  have files3: "md_files st3 = List.filter (\<lambda>f. mf_id f \<notin> set (map xf_file ?gone)) (md_files st)"
    by (simp add: st3_def all_removed_files tree1)
  have "files_of_works (?ghosts (?ghosts st3))"
  proof (rule works_subset [OF works])
    show "set (md_files (?ghosts (?ghosts st3))) \<subseteq> set (md_files st)" by (auto simp: twice(2) ghosts_files files3)
    show "set (md_items (?ghosts (?ghosts st3))) \<subseteq> set (md_items st)"
      using all_removed_items [of moved ?gone st1] by (auto simp: twice(3) ghosts_tree(3) [OF rows3(1)] tree1 simp flip: st3_def)
  qed
  note orphans = orphans_tree [OF rows3(3) this, of l] orphans_gone [OF rows3(3) this clean2]
  have "md_files st' = md_files st3" by (simp add: 3 orphans(1) twice(2) ghosts_files flip: st3_def)
  also have "\<dots> = List.filter (\<lambda>f. \<not> (mf_library f = l \<and> mf_path f \<in> set missing)) (md_files st)"
    unfolding files3 by (rule filter_cong [OF refl]) (simp only: missing_file_ids [OF rows])
  finally show "md_files st' = List.filter (\<lambda>f. \<not> (mf_library f = l \<and> mf_path f \<in> set (missing_in_sync discovered retained scope
        (map mf_path (List.filter (\<lambda>f. mf_library f = l) (md_files st)))))) (md_files st)"
    by (simp add: missing_def existing_paths [OF rows])
  show "\<forall>r\<in>set (md_items st'). mi_library r = l \<and> mi_type r = SeriesItem \<longrightarrow> series_has_files (mi_id r) st'"
    using orphans(5) by (simp add: 3 flip: st3_def)
  show "announced = (0 < so_removed out \<or> 0 < documents)" using a twice(1) by (simp flip: st3_def)
qed

text \<open>Deletions never leave a progress without its file, so nothing but the fence can stop the transaction.\<close>

lemma played_files_delete_files:
  assumes "played_files_ok st"
  shows "played_files_ok (delete_files F st)"
proof -
  have "(f, pg_item p) \<in> set (map (\<lambda>f. (mf_id f, mf_item f)) (md_files (delete_files F st)))"
    if p: "p \<in> set (md_progress (delete_files F st))" "pg_file p = Some f" for p f
  proof -
    from p have q: "p \<in> set (md_progress st)" and
      no: "(Some f, pg_item p) \<notin> set (map (\<lambda>f. (Some (mf_id f), mf_item f)) (List.filter F (md_files st)))"
      by (auto simp: delete_files_def Let_def split: if_splits)
    from q p(2) assms obtain g where g: "g \<in> set (md_files st)" "mf_id g = f" "mf_item g = pg_item p"
      by (force simp: played_files_ok_def)
    then have "\<not> F g" using no by auto
    then show ?thesis using g by (force simp: delete_files_files)
  qed
  then show ?thesis unfolding played_files_ok_def by (auto split: option.split)
qed

lemma played_files_delete_seasons: "played_files_ok st \<Longrightarrow> played_files_ok (delete_seasons S st)"
  by (simp add: played_files_ok_def delete_seasons_def Let_def split: option.splits)

lemma played_files_removed: "played_files_ok st \<Longrightarrow> played_files_ok (remove_missing moved x st)"
  by (simp add: remove_missing_def delete_media_file_and_drop_empty_item_def delete_media_file_and_cleanup_item_def
      cleanup_media_item_if_no_files_def Let_def delete_media_item_def played_files_delete_items played_files_delete_files)

lemma played_files_all_removed: "played_files_ok st \<Longrightarrow> played_files_ok (fold (remove_missing moved) xs st)"
  by (induction xs arbitrary: st) (auto simp: played_files_removed)

lemma reconcile_runs:
  assumes "played_files_ok st" and "lock_library_scan_background_job_fence f clk i (Some l) RunningMode js = Inr s"
  shows "\<exists>r. sync_library_media_changes env l i discovered retained [] scope [] documents f clk js st = Inr r"
  using assms
  by (auto simp: sync_library_media_changes_def and_then_def map_err_def map_ok_def Let_def split_beta commit_def
      cleanup_orphan_series_structure_def delete_fileless_episodes_of_fileless_series_def
      intro!: played_files_delete_items played_files_delete_seasons played_files_all_removed)

lemma delete_no_items: "(\<And>r. r \<in> set (md_items st) \<Longrightarrow> \<not> Q r) \<Longrightarrow> delete_items Q st = st"
proof -
  assume "\<And>r. r \<in> set (md_items st) \<Longrightarrow> \<not> Q r"
  then have "List.filter Q (md_items st) = []" "List.filter (\<lambda>r. \<not> Q r) (md_items st) = md_items st"
    by (simp_all add: filter_empty_conv filter_id_conv)
  then show ?thesis by (simp add: delete_items_def delete_seasons_def Let_def)
qed

subsection \<open>A renamed version\<close>

text \<open>A progress of an item \<open>n\<close> that names a file of another item is in the way of every commit.\<close>

definition dangling :: "int \<Rightarrow> int \<Rightarrow> media_db \<Rightarrow> bool" where
  "dangling g n st =
     ((\<exists>p\<in>set (md_progress st). pg_file p = Some g \<and> pg_item p = n)
      \<and> (g, n) \<notin> set (map (\<lambda>f. (mf_id f, mf_item f)) (md_files st)))"

definition file_of :: "int \<Rightarrow> int \<Rightarrow> media_db \<Rightarrow> bool" where
  "file_of m n st = (\<exists>f\<in>set (md_files st). mf_id f = m \<and> mf_item f = n)"

lemma dangling_not_ok: "dangling g n st \<Longrightarrow> \<not> played_files_ok st"
  by (force simp: dangling_def played_files_ok_def)

lemma dangling_delete_items:
  assumes "dangling g n st" and "\<And>r. r \<in> set (md_items st) \<Longrightarrow> Q r \<Longrightarrow> mi_id r \<noteq> n"
  shows "dangling g n (delete_items Q st)"
proof -
  obtain p where p: "p \<in> set (md_progress st)" "pg_file p = Some g" "pg_item p = n"
    and no: "(g, n) \<notin> set (map (\<lambda>f. (mf_id f, mf_item f)) (md_files st))"
    using assms(1) by (auto simp: dangling_def)
  have "pg_item p \<notin> set (map mi_id (List.filter Q (md_items st)))" using p(3) by (auto dest: assms(2))
  then have "p \<in> set (md_progress (delete_items Q st))" using p(1) by (simp add: delete_items_def delete_seasons_def Let_def)
  moreover have "set (md_files (delete_items Q st)) \<subseteq> set (md_files st)"
    by (auto simp: delete_items_def delete_seasons_def Let_def)
  ultimately show ?thesis using p no by (auto simp: dangling_def)
qed

lemma dangling_delete_files: "dangling g n st \<Longrightarrow> dangling g n (delete_files F st)"
  by (force simp: dangling_def delete_files_def Let_def)

lemma dangling_delete_item:
  "dangling g n st \<Longrightarrow> file_of m n st \<Longrightarrow> \<not> has_files i st \<Longrightarrow> dangling g n (delete_media_item i st)"
  unfolding delete_media_item_def
  by (rule dangling_delete_items) (auto simp: file_of_def has_files_def list_ex_iff)

lemma dangling_removed:
  assumes "dangling g n st" and "file_of m n st" and "xf_file x \<noteq> m"
  shows "dangling g n (remove_missing moved x st) \<and> file_of m n (remove_missing moved x st)"
proof
  let ?st = "delete_files (\<lambda>r. mf_id r = xf_file x) st"
  have "file_of m n ?st" using assms(2,3) by (auto simp: file_of_def delete_files_files)
  then show "dangling g n (remove_missing moved x st)"
    using dangling_delete_files [OF assms(1)] dangling_delete_item [of g n ?st m]
    by (auto simp: remove_missing_def delete_media_file_and_drop_empty_item_def delete_media_file_and_cleanup_item_def
        cleanup_media_item_if_no_files_def Let_def)
  show "file_of m n (remove_missing moved x st)" using assms(2,3) by (auto simp: file_of_def removed_files)
qed

lemma dangling_all_removed:
  "dangling g n st \<Longrightarrow> file_of m n st \<Longrightarrow> m \<notin> set (map xf_file xs) \<Longrightarrow>
    dangling g n (fold (remove_missing moved) xs st) \<and> file_of m n (fold (remove_missing moved) xs st)"
  by (induction xs arbitrary: st) (auto simp: dangling_removed)

lemma dangling_ghosts:
  "dangling g n st \<Longrightarrow> file_of m n st \<Longrightarrow> dangling g n (fst (delete_fileless_episodes_of_fileless_series l st))"
  unfolding delete_fileless_episodes_of_fileless_series_def fst_conv
  by (rule dangling_delete_items) (use fileless_no_files in \<open>force simp: file_of_def has_files_def list_ex_iff\<close>)+

lemma dangling_orphans:
  assumes "dangling g n st" and "file_of m n st" and "files_of_works st"
  shows "dangling g n (fst (cleanup_orphan_series_structure l st))"
proof -
  let ?st = "delete_seasons (orphan_season l st) st"
  have "dangling g n ?st" using assms(1) by (simp add: dangling_def delete_seasons_def Let_def)
  then have "dangling g n (delete_items (orphan_series l ?st) ?st)"
    using assms(2,3) by (intro dangling_delete_items) (auto simp: orphan_series_def file_of_def files_of_works_def)
  then show ?thesis by (simp add: cleanup_orphan_series_structure_def Let_def)
qed

lemma carried_dangles:
  assumes rows: "rows_ok st" and played: "played_files_ok st"
    and run: "carry_renamed observed xs r (st, moved) = Inr (st', moved')" and gone: "rn_old r \<notin> set observed"
    and old: "List.find (\<lambda>x. xf_path x = rn_old r) xs = Some a" and new: "List.find (\<lambda>x. xf_path x = rn_new r) xs = Some b"
    and items: "xf_item a \<noteq> xf_item b"
    and same: "is_same_work (media_item_binding (xf_item a) st) (media_item_binding (xf_item b) st)"
    and p: "find_progress u (xf_item a) st = Some p" "pg_file p = Some g" "g \<noteq> xf_file a"
    and none: "find_progress u (xf_item b) st = None"
  shows "dangling g (xf_item b) st'"
proof -
  from run gone old new items same obtain st1 where merge: "merge_media_item_user_state (xf_item a) (xf_item b) st = Inr st1"
    and point: "repoint_progress (xf_file a) (xf_item b) (xf_file b) st1 = Inr st'"
    by (auto simp: carry_renamed_def and_then_eq_Inr map_ok_eq_Inr)
  have "progress_of st1 u (xf_item b) = Some (progress_view p)"
    using merge_views [OF rows items merge, of u] items p(1) none
    by (simp add: merged_records_def progress_of_def newest_def)
  then obtain q where "find_progress u (xf_item b) st1 = Some q" "pg_file q = Some g"
    using p(2) by (auto simp: progress_of_def progress_view_def)
  then have q: "q \<in> set (md_progress st1)" "pg_item q = xf_item b" "pg_file q = Some g"
    by (auto simp: find_progress_def progress_key_def dest: find_row_SomeD)
  have "p \<in> set (md_progress st)" "pg_item p = xf_item a"
    using p(1) by (auto simp: find_progress_def progress_key_def dest: find_row_SomeD)
  then obtain f where f: "f \<in> set (md_files st)" "mf_id f = g" "mf_item f = xf_item a"
    using played p(2) by (force simp: played_files_ok_def)
  have "mf_item h = xf_item a" if "h \<in> set (md_files st)" "mf_id h = g" for h
    using that f rows by (auto simp: rows_ok_def keys_unique_def distinct_map inj_on_def)
  then have "(g, xf_item b) \<notin> set (map (\<lambda>f. (mf_id f, mf_item f)) (md_files st'))"
    using items point by (auto simp: repoint_progress_def merged_tree [OF merge])
  moreover have "q \<in> set (md_progress st')" using q p(3) point by (force simp: repoint_progress_def)
  ultimately show ?thesis using q by (auto simp: dangling_def)
qed

lemma found_path:
  assumes "rows_ok st" and "f \<in> set (md_files st)" and "mf_library f = l"
  shows "\<exists>x. List.find (\<lambda>x. xf_path x = mf_path f) (list_library_media_files_for_sync l st) = Some x
    \<and> xf_item x = mf_item f \<and> xf_file x = mf_id f"
proof -
  let ?g = "\<lambda>f. \<lparr>xf_item = mf_item f, xf_file = mf_id f, xf_type = mi_type (the (find_item (mf_item f) st)), xf_path = mf_path f\<rparr>"
  let ?fs = "List.filter (\<lambda>f. mf_library f = l) (md_files st)"
  have "distinct (map mf_path ?fs)"
  proof -
    have "distinct (map (\<lambda>f. (mf_library f, mf_path f)) (md_files st))"
      using assms(1) by (simp add: rows_ok_def keys_unique_def)
    then show ?thesis by (auto simp: distinct_map inj_on_def)
  qed
  then have "List.find (\<lambda>h. mf_path h = mf_path f) ?fs = Some f" by (rule find_by_key) (simp add: assms)
  then show ?thesis by (simp add: existing_files [OF assms(1)] find_of_map)
qed

lemma split_fails:
  assumes ok: "media_ok st" and played: "played_files_ok st" and works: "files_of_works st"
    and old: "a \<in> set (md_files st)" "mf_library a = l" "mf_path a \<notin> set (discovered @ retained)"
    and new: "b \<in> set (md_files st)" "mf_library b = l" "mf_path b \<in> set discovered"
    and items: "mf_item a \<noteq> mf_item b"
    and same: "is_same_work (media_item_binding (mf_item a) st) (media_item_binding (mf_item b) st)"
    and p: "find_progress u (mf_item a) st = Some p" "pg_file p = Some g" "g \<noteq> mf_id a"
    and none: "find_progress u (mf_item b) st = None"
  shows "sync_library_media_changes env l i discovered retained [] scope [\<lparr>rn_old = mf_path a, rn_new = mf_path b\<rparr>] documents
    f clk js st \<noteq> Inr (st', out, announced)"
proof
  assume run: "sync_library_media_changes env l i discovered retained [] scope [\<lparr>rn_old = mf_path a, rn_new = mf_path b\<rparr>] documents
    f clk js st = Inr (st', out, announced)"
  have rows: "rows_ok st" using ok by (simp add: media_ok_def)
  let ?xs = "list_library_media_files_for_sync l st" and ?r = "\<lparr>rn_old = mf_path a, rn_new = mf_path b\<rparr>"
  let ?missing = "missing_in_sync discovered retained scope (map xf_path ?xs)"
  let ?gone = "List.filter (\<lambda>x. xf_path x \<in> set ?missing) ?xs"
  let ?ghosts = "\<lambda>st. fst (delete_fileless_episodes_of_fileless_series l st)"
  from run obtain st1 moved
    where 1: "carry_renamed (discovered @ retained) ?xs ?r (st, []) = Inr (st1, moved)"
      and 3: "st' = fst (cleanup_orphan_series_structure l (?ghosts (?ghosts (fold (remove_missing moved) ?gone st1))))"
      and fine: "played_files_ok st'"
    unfolding sync_library_media_changes_def Let_def
    by (auto simp: and_then_eq_Inr map_ok_eq_Inr split_beta)
  define st3 where "st3 = fold (remove_missing moved) ?gone st1"
  obtain x y where x: "List.find (\<lambda>x. xf_path x = mf_path a) ?xs = Some x" "xf_item x = mf_item a" "xf_file x = mf_id a"
    and y: "List.find (\<lambda>x. xf_path x = mf_path b) ?xs = Some y" "xf_item y = mf_item b"
    using found_path [OF rows old(1,2)] found_path [OF rows new(1,2)] by blast
  have tree1: "md_files st1 = md_files st" "md_items st1 = md_items st" using carried_tree [OF 1] by simp_all
  have "dangling g (mf_item b) st1"
    using carried_dangles [OF rows played 1, of x y u p g] old(3) x y items same p none by simp
  moreover have "file_of (mf_id b) (mf_item b) st1" using new(1) by (auto simp: file_of_def tree1)
  moreover have "mf_id b \<notin> set (map xf_file ?gone)"
    unfolding missing_file_ids [OF rows new(1)] using new(3) by (simp add: missing_in_sync_def)
  ultimately have d3: "dangling g (mf_item b) st3 \<and> file_of (mf_id b) (mf_item b) st3"
    unfolding st3_def by (rule dangling_all_removed)
  have same_file: "file_of m n (?ghosts st) = file_of m n st" for m n st by (simp add: file_of_def ghosts_files)
  have "keeps_sound st st1" "keeps_sound st1 st3" "keeps_sound st3 (?ghosts st3)"
    unfolding st3_def by (rule sound.carried [OF 1]) (rule sound.folded sound.missing_removed sound.cleaned_episodes)+
  then have rows3: "rows_ok st3" "rows_ok (?ghosts st3)" using ok by (auto simp: keeps_sound_def media_ok_def)
  have "files_of_works (?ghosts (?ghosts st3))"
  proof (rule works_subset [OF works])
    show "set (md_files (?ghosts (?ghosts st3))) \<subseteq> set (md_files st)" by (auto simp: ghosts_files st3_def all_removed_files tree1)
    show "set (md_items (?ghosts (?ghosts st3))) \<subseteq> set (md_items st)"
      using all_removed_items [of moved ?gone st1] by (auto simp: ghosts_tree(3) [OF rows3(2)] ghosts_tree(3) [OF rows3(1)] tree1 simp flip: st3_def)
  qed
  then have "dangling g (mf_item b) st'"
    unfolding 3 st3_def [symmetric] using d3 by (intro dangling_orphans [where m = "mf_id b"] dangling_ghosts [where m = "mf_id b"]) (simp_all add: same_file)
  then show False using fine dangling_not_ok by blast
qed

subsection \<open>An episode of another series\<close>

lemma set_item_watching: "set_item i v st = Inr st' \<Longrightarrow> md_watching st' = md_watching st"
  by (auto simp: set_item_def update_items_def)

lemma entry_episode_watching:
  "update_existing_episode_media_item env i e keep st = Inr st' \<Longrightarrow> md_watching st' = md_watching st"
  by (auto simp: update_existing_episode_media_item_def keep_bound_item_def apply_local_metadata_projection_def
      record_transient_metadata_refresh_failure_def promote_cached_artwork_paths_def update_episode_media_item_from_entry_def
      and_then_eq_Inr dest!: set_item_watching split: if_splits option.splits prod.splits)

lemma episode_moves_series:
  assumes x: "xf_type x = EpisodeItem" and found: "find_existing_episode_media_item season n st \<in> {None, Some (xf_item x)}"
    and prev: "find_series_id_for_episode (xf_item x) st = Some p" and other: "p \<noteq> series"
    and run: "place_existing_episode env e x series keep season n st = Inr st'"
  shows "last_watched st' u = (\<lambda>i. map_option (apfst (\<lambda>j. if j = p then series else j)) (merged_records snd p series (last_watched st u) i))"
proof -
  from x found prev run obtain st1 st2 st3 where 1: "update_existing_episode_media_item env (xf_item x) e keep st = Inr st1"
    and 2: "update_episode_record (xf_item x) (en_library e) season n st1 = Inr st2"
    and 3: "merge_media_item_user_state p series st2 = Inr st3" and 4: "update_media_file_from_entry (xf_file x) e st3 = Inr st'"
    by (auto simp: place_existing_episode_def Let_def and_then_eq_Inr follow_series_def)
  have same2: "md_watching st2 = md_watching st"
    using entry_episode_watching [OF 1] 2
    by (auto simp: update_episode_record_def insert_episode_record_def and_then_eq_Inr split: if_splits)
  have "rows_ok st2" using 2
    by (auto simp: update_episode_record_def insert_episode_record_def and_then_eq_Inr split: if_splits)
  then have "last_watched st3 u = (\<lambda>i. map_option (apfst (\<lambda>j. if j = p then series else j)) (merged_records snd p series (last_watched st2 u) i))"
    using merge_views [OF _ other 3, of u] by blast
  moreover have "last_watched st2 u = last_watched st u"
    by (rule ext) (simp add: last_watched_def find_watching_def same2)
  moreover have "last_watched st' u = last_watched st3 u"
    using 4 by (intro ext) (auto simp: last_watched_def find_watching_def update_media_file_from_entry_def update_files_def)
  ultimately show ?thesis by simp
qed

end
