(* ===== verification/Catalog_Properties.thy ===== *)
theory Catalog_Properties
  imports Catalog_Changes Job_Runs
begin

text \<open>
  The properties of the catalog's transactions (\<open>media_items/sync.rs\<close>, \<open>media_items/series.rs\<close>), with
  their instances on the small catalog.
\<close>

subsection \<open>A running scan\<close>

definition demo_processing :: job_store where
  "demo_processing = demo_running\<lparr>js_scans := [demo_scan\<lparr>sc_status := ScanRunning, sc_started_at := Some 6\<rparr>]\<rparr>"

definition demo_holder :: job_fence where
  "demo_holder = \<lparr>fc_job = 1, fc_worker = lit ''w1'', fc_attempt = 1\<rparr>"

lemmas fence_eval = lock_library_scan_background_job_fence_def owned_by_def lease_valid_def demo_processing_def demo_holder_def
  demo_running_def demo_waiting_def demo_scan_def demo_job_def new_scan_def new_job_def claimed_def create_library_def
  empty_queue_def secs_def queue_eval

lemmas changes_eval = sync_library_media_changes_def carry_renamed_def missing_in_sync_def path_in_scope_def remove_missing_def

lemma demo_lock: "lock_library_scan_background_job_fence demo_holder 10 1 (Some 1) RunningMode demo_processing = Inr JobRunning"
  by (simp add: fence_eval)

text \<open>
  C8. The last transaction of a scan removes of the files of all libraries exactly those of the scanned
  library whose path is missing, with renamed files or without, and it leaves no series of the library
  without a file.
\<close>

theorem reconcile_exact:
  assumes "media_reachable st" and "files_of_works st"
    and "sync_library_media_changes env l i discovered retained [] scope renamed documents f clk js st = Inr (st', out, announced)"
  shows "md_files st' = List.filter (\<lambda>f. \<not> (mf_library f = l \<and> mf_path f \<in> set (missing_in_sync discovered retained scope
        (map mf_path (List.filter (\<lambda>f. mf_library f = l) (md_files st)))))) (md_files st)
    \<and> list_all (\<lambda>r. mi_library r = l \<and> mi_type r = SeriesItem \<longrightarrow> series_has_files (mi_id r) st') (md_items st')"
proof -
  have "media_ok st" using reachable_sound [OF assms(1)] by (simp add: media_sound_def)
  from reconciled [OF this assms(2,3)] show ?thesis by (simp add: list_all_iff)
qed

lemma series_watched_works: "files_of_works series_watched"
  by (simp add: files_of_works_def series_watched_def sample_eval)

lemma series_watched_played: "played_files_ok series_watched"
  using reachable_sound [OF series_watched_reachable] by (simp add: media_sound_def)

theorem reconcile_exact_witness:
  "\<exists>r. sync_library_media_changes plain_env 1 1 [lit ''/m/a.mkv''] [] [] None [] 0 demo_holder 10 demo_processing series_watched
      = Inr r \<and> map mf_path (md_files (fst r)) = [lit ''/m/a.mkv'']"
proof -
  obtain st' out announced where run: "sync_library_media_changes plain_env 1 1 [lit ''/m/a.mkv''] [] [] None [] 0 demo_holder 10
      demo_processing series_watched = Inr (st', out, announced)"
    using reconcile_runs [OF series_watched_played demo_lock, of plain_env "[lit ''/m/a.mkv'']" "[]" None 0]
    by (metis prod_cases3)
  from reconcile_exact [OF series_watched_reachable series_watched_works run]
  have "map mf_path (md_files st') = [lit ''/m/a.mkv'']"
    by (simp add: missing_in_sync_def path_in_scope_def series_watched_def sample_eval lit_def)
  with run show ?thesis by (intro exI [of _ "(st', out, announced)"]) simp
qed

text \<open>
  C9. Under any order of requests, scans and deletions of users and libraries the tables satisfy their
  constraints, every progress names a file of its own item or none, and no user is listed more than
  twenty movies and series that he is watching.
\<close>

theorem media_store_sound:
  assumes "media_reachable st"
  shows "rows_ok st \<and> played_files_ok st \<and> watch_count u st \<le> CONTINUE_WATCHING_LIMIT"
  using reachable_sound [OF assms] by (simp add: media_sound_def media_ok_def few_watched_def)

theorem media_store_sound_witness:
  "rows_ok series_watched \<and> played_files_ok series_watched \<and> watch_count 7 series_watched \<le> CONTINUE_WATCHING_LIMIT
    \<and> watch_count 7 series_watched = 2"
  using media_store_sound [OF series_watched_reachable, of 7] by (simp add: watch_count_def series_watched_def sample_watching_def)

text \<open>
  C13. When one version of an item is renamed and taken for another item of the same work, and a user has
  last played another version of it, the last transaction of the scan cannot commit: the user's progress
  has moved to the new item but names a file that stays with the old one.
\<close>

theorem rename_split_fails:
  assumes "media_reachable st" and "files_of_works st"
    and "a \<in> set (md_files st)" and "mf_library a = l" and "mf_path a \<notin> set (discovered @ retained)"
    and "b \<in> set (md_files st)" and "mf_library b = l" and "mf_path b \<in> set discovered" and "mf_item a \<noteq> mf_item b"
    and "is_same_work (media_item_binding (mf_item a) st) (media_item_binding (mf_item b) st)"
    and "find_progress u (mf_item a) st = Some p" and "pg_file p = Some g" and "g \<noteq> mf_id a"
    and "find_progress u (mf_item b) st = None"
  shows "sync_library_media_changes env l i discovered retained [] scope [\<lparr>rn_old = mf_path a, rn_new = mf_path b\<rparr>] documents
    f clk js st \<noteq> Inr (st', out, announced)"
proof -
  have "media_ok st" "played_files_ok st" using reachable_sound [OF assms(1)] by (simp_all add: media_sound_def)
  then show ?thesis using assms(2-14) by (rule split_fails)
qed

text \<open>The movie has a second version, which user 7 plays; a scan finds the first one under a new name.\<close>

definition two_versions :: media_db where
  "two_versions = small_catalog\<lparr>md_files := md_files small_catalog @ [plain_file 4 1 ''/m/a2.mkv''], md_next_file := 5\<rparr>"

definition second_played :: media_db where
  "second_played = two_versions\<lparr>md_progress := [sample_progress 1 7 1 600 None 4 10],
     md_watching := [sample_watching 1 7 1 1 10], md_next_progress := 2, md_next_watching := 2\<rparr>"

definition version_renamed :: media_db where
  "version_renamed = second_played\<lparr>md_items := md_items small_catalog @ [plain_item 5 MovieItem ''Aliens'' ''Aliens''],
     md_files := md_files two_versions @ [plain_file 5 5 ''/m/b.mkv''], md_next_item := 6, md_next_file := 6\<rparr>"

lemma version_added:
  "upsert_library_media_entry_by_file_path plain_env 1 (plain_entry ''movie'' ''Alien'' ''/m/a2.mkv'') small_catalog = Inr two_versions"
  by (simp add: media_eval two_versions_def update_existing_media_item_from_entry_def update_media_item_from_entry_def Let_def
      cong: media_first)

lemma version_played:
  "update_playback_progress_for_media_item 7 1 (sample_input 4 600 None False) 10 two_versions
    = Inr (second_played, Some (sample_progress 1 7 1 600 None 4 10))"
  by (simp add: media_eval watch_eval two_versions_def second_played_def Let_def cong: media_first)

lemma version_moved:
  "upsert_library_media_entry_by_file_path plain_env 1 (plain_entry ''movie'' ''Aliens'' ''/m/b.mkv'') second_played = Inr version_renamed"
  by (simp add: media_eval version_renamed_def second_played_def two_versions_def sample_progress_def sample_watching_def Let_def
      cong: media_first)

lemma version_renamed_reachable: "media_reachable version_renamed"
  by (rule media_reachable.step [OF media_reachable.step [OF media_reachable.step [OF small_catalog_reachable
      media_step.file_written [OF version_added]] media_step.watched [OF version_played]] media_step.file_written [OF version_moved]])

theorem rename_split_fails_witness:
  "media_reachable version_renamed
    \<and> (\<nexists>r. sync_library_media_changes plain_env 1 1 [lit ''/m/a2.mkv'', lit ''/m/b.mkv'', lit ''/m/l1.mkv'', lit ''/m/l2.mkv''] [] []
         None [\<lparr>rn_old = lit ''/m/a.mkv'', rn_new = lit ''/m/b.mkv''\<rparr>] 0 demo_holder 10 demo_processing version_renamed = Inr r)"
proof -
  let ?st = version_renamed
  have works: "files_of_works ?st"
    by (simp add: files_of_works_def version_renamed_def second_played_def two_versions_def sample_eval)
  have p: "find_progress 7 1 ?st = Some (sample_progress 1 7 1 600 None 4 10)" "find_progress 7 5 ?st = None"
    by (simp_all add: version_renamed_def second_played_def watch_eval)
  have same: "is_same_work (media_item_binding 1 ?st) (media_item_binding 5 ?st)"
    by (simp add: is_same_work_def media_item_binding_def find_item_def version_renamed_def sample_eval)
  have "sync_library_media_changes plain_env 1 1 [lit ''/m/a2.mkv'', lit ''/m/b.mkv'', lit ''/m/l1.mkv'', lit ''/m/l2.mkv''] [] []
      None [\<lparr>rn_old = lit ''/m/a.mkv'', rn_new = lit ''/m/b.mkv''\<rparr>] 0 demo_holder 10 demo_processing ?st \<noteq> Inr (st', out, announced)"
    for st' out announced
    using rename_split_fails [OF version_renamed_reachable works, of "plain_file 1 1 ''/m/a.mkv''" 1 _ _ "plain_file 5 5 ''/m/b.mkv''"
        7 "sample_progress 1 7 1 600 None 4 10" 4] p same
    by (simp add: version_renamed_def [THEN arg_cong [where f = md_files]] two_versions_def small_catalog_def plain_file_def
        sample_progress_def lit_def)
  then show ?thesis using version_renamed_reachable by auto
qed

text \<open>
  C14. When the file of one episode is identified as an episode of another series, the old series is taken
  off the list of what users are watching and its entry moves to the new series, though it was last
  played on an episode that stays with the old one.
\<close>

theorem episode_takes_series_state:
  assumes "xf_type x = EpisodeItem" and "find_existing_episode_media_item season n st \<in> {None, Some (xf_item x)}"
    and "find_series_id_for_episode (xf_item x) st = Some p" and "p \<noteq> series"
    and "place_existing_episode env e x series keep season n st = Inr st'"
  shows "last_watched st' u = (\<lambda>i. map_option (apfst (\<lambda>j. if j = p then series else j)) (merged_records snd p series (last_watched st u) i))"
  by (rule episode_moves_series [OF assms])

definition heroes_found :: media_db where
  "heroes_found = series_watched\<lparr>md_items := md_items small_catalog @ [plain_item 5 SeriesItem ''Heroes'' ''Heroes''],
     md_seasons := md_seasons small_catalog @ [\<lparr>sn_id = 2, sn_library = 1, sn_series = 5, sn_number = 1, sn_title = lit ''Season 01'',
       sn_overview = None, sn_poster = None, sn_backdrop = None\<rparr>], md_next_item := 6, md_next_season := 3\<rparr>"

definition second_episode :: existing_file where
  "second_episode = \<lparr>xf_item = 4, xf_file = 3, xf_type = EpisodeItem, xf_path = lit ''/m/l2.mkv''\<rparr>"

lemma second_episode_placed:
  "\<exists>st'. place_existing_episode plain_env (plain_episode ''Heroes'' 1 ''/m/l2.mkv'') second_episode 5 False 2 1 heroes_found = Inr st'
     \<and> find_series_id_for_episode 3 st' = Some 2"
  by (simp add: media_eval watch_eval second_episode_def heroes_found_def series_watched_def update_existing_episode_media_item_def
      update_episode_media_item_from_entry_def update_episode_record_def follow_series_def merge_media_item_user_state_def
      move_progress_def move_watching_def newer_watching_def Let_def cong: media_first)

theorem episode_takes_series_state_witness:
  "\<exists>st'. place_existing_episode plain_env (plain_episode ''Heroes'' 1 ''/m/l2.mkv'') second_episode 5 False 2 1 heroes_found = Inr st'
     \<and> find_series_id_for_episode 3 st' = Some 2 \<and> last_watched st' 7 2 = None \<and> last_watched st' 7 5 = Some (3, 20)"
proof -
  obtain st' where run: "place_existing_episode plain_env (plain_episode ''Heroes'' 1 ''/m/l2.mkv'') second_episode 5 False 2 1 heroes_found
      = Inr st'" and stays: "find_series_id_for_episode 3 st' = Some 2"
    using second_episode_placed by blast
  have "find_existing_episode_media_item 2 1 heroes_found = None" "find_series_id_for_episode 4 heroes_found = Some 2"
    "last_watched heroes_found 7 2 = Some (3, 20)" "last_watched heroes_found 7 5 = None"
    by (simp_all add: read_eval heroes_found_def series_watched_def sample_eval last_watched_def watching_view_def watch_eval)
  then show ?thesis
    using episode_takes_series_state [of second_episode 2 1 heroes_found 2 5 plain_env _ False st' 7] run stays
    by (auto simp: second_episode_def merged_records_def newest_def)
qed

text \<open>
  C15. When nothing was removed and no document either, the last transaction of a scan announces no change
  of the catalog, though it deletes the seasons without episodes and the series without seasons that the
  commits of the scan have left: their number is taken from a second deletion of episodes, which is always
  empty.
\<close>

theorem orphans_go_unannounced:
  assumes "media_reachable st" and "lock_library_scan_background_job_fence f clk i (Some l) RunningMode js = Inr s"
    and "missing_in_sync discovered retained scope (map mf_path (List.filter (\<lambda>f. mf_library f = l) (md_files st))) = []"
    and "list_all (\<lambda>r. \<not> fileless_episode l st r) (md_items st)"
  shows "sync_library_media_changes env l i discovered retained [] scope [] documents f clk js st
    = Inr (fst (cleanup_orphan_series_structure l st), \<lparr>so_removed = 0, so_upserted = 0, so_failed = 0\<rparr>, 0 < documents)"
proof -
  have rows: "rows_ok st" and played: "played_files_ok st"
    using reachable_sound [OF assms(1)] by (simp_all add: media_sound_def media_ok_def)
  have none: "delete_fileless_episodes_of_fileless_series l st = (st, 0)"
    using assms(4) by (simp add: delete_fileless_episodes_of_fileless_series_def delete_no_items filter_empty_conv list_all_iff)
  have "played_files_ok (fst (cleanup_orphan_series_structure l st))"
    using played by (simp add: cleanup_orphan_series_structure_def Let_def played_files_delete_items played_files_delete_seasons)
  then show ?thesis
    using assms(2,3) by (simp add: sync_library_media_changes_def Let_def existing_paths [OF rows] none and_then_def map_err_def
        map_ok_def commit_def)
qed

text \<open>A commit of the scan has identified both episodes as those of another series.\<close>

lemmas group_eval = upsert_library_media_entries_by_file_path_internal_def commit_group_def advance_scan_group_progress_def
  upsert_group_def update_running_scan_def pipeline_progress_def find_group_def put_def entries_count_def
  should_preserve_existing_parent_def entries_ordered_for_local_metadata_def list_library_media_files_for_paths_def

definition heroes_catalog :: media_db where
  "heroes_catalog = small_catalog\<lparr>
     md_items := [plain_item 1 MovieItem ''Alien'' ''Alien'', plain_item 2 SeriesItem ''Lost'' ''Lost'',
       plain_item 3 EpisodeItem ''Episode 01'' ''Heroes'', plain_item 4 EpisodeItem ''Episode 02'' ''Heroes'',
       plain_item 5 SeriesItem ''Heroes'' ''Heroes''],
     md_seasons := md_seasons small_catalog @ [\<lparr>sn_id = 2, sn_library = 1, sn_series = 5, sn_number = 1,
       sn_title = lit ''Season 01'', sn_overview = None, sn_poster = None, sn_backdrop = None\<rparr>],
     md_episodes := [\<lparr>ep_item = 3, ep_library = 1, ep_season = 2, ep_number = 1\<rparr>,
       \<lparr>ep_item = 4, ep_library = 1, ep_season = 2, ep_number = 2\<rparr>],
     md_next_item := 6, md_next_season := 3\<rparr>"

lemma heroes_written:
  "upsert_each plain_env True [plain_episode ''Heroes'' 1 ''/m/l1.mkv'', plain_episode ''Heroes'' 2 ''/m/l2.mkv'']
     (list_library_media_files_for_paths 1 [lit ''/m/l1.mkv'', lit ''/m/l2.mkv''] small_catalog) small_catalog = Inr heroes_catalog"
  by (simp add: media_eval group_eval heroes_catalog_def update_existing_episode_media_item_def
      update_episode_media_item_from_entry_def update_episode_record_def follow_series_def merge_media_item_user_state_def
      move_progress_def move_watching_def newer_watching_def Let_def cong: media_first)

lemma demo_advanced:
  "\<exists>js' scan. advance_scan_group_progress (\<lambda>_ _. 0) 1 (lit ''k'') 2 LocalStage demo_processing = Inr (js', scan)"
  by (simp add: group_eval fence_eval Let_def map_ok_def and_then_def no_payload_def group_row_ok_def)

lemma heroes_committed:
  "\<exists>js' scan. upsert_library_media_entries_by_file_path_internal (\<lambda>_ _. 0) plain_env 1 1 (lit ''k'') LocalStage
     [plain_episode ''Heroes'' 1 ''/m/l1.mkv'', plain_episode ''Heroes'' 2 ''/m/l2.mkv''] demo_holder False 10 (small_catalog, demo_processing)
     = Inr ((heroes_catalog, js'), scan)"
proof -
  have "entries_ordered_for_local_metadata [plain_episode ''Heroes'' 1 ''/m/l1.mkv'', plain_episode ''Heroes'' 2 ''/m/l2.mkv'']
      = [plain_episode ''Heroes'' 1 ''/m/l1.mkv'', plain_episode ''Heroes'' 2 ''/m/l2.mkv'']"
    "map en_path [plain_episode ''Heroes'' 1 ''/m/l1.mkv'', plain_episode ''Heroes'' 2 ''/m/l2.mkv''] = [lit ''/m/l1.mkv'', lit ''/m/l2.mkv'']"
    by (simp_all add: entries_ordered_for_local_metadata_def plain_episode_def plain_entry_def Let_def)
  moreover have "played_files_ok heroes_catalog"
    by (simp add: played_files_ok_def heroes_catalog_def sample_eval)
  ultimately show ?thesis
    using demo_advanced heroes_written
    by (auto simp: upsert_library_media_entries_by_file_path_internal_def commit_group_def demo_lock and_then_def map_err_def
        entries_count_def should_preserve_existing_parent_def commit_def)
qed

theorem orphans_go_unannounced_witness:
  "\<exists>st' out. sync_library_media_changes plain_env 1 1 [lit ''/m/a.mkv'', lit ''/m/l1.mkv'', lit ''/m/l2.mkv''] [] [] None [] 0
     demo_holder 10 demo_processing heroes_catalog = Inr (st', out, False) \<and> find_item 2 st' = None"
proof -
  obtain js' scan where "upsert_library_media_entries_by_file_path_internal (\<lambda>_ _. 0) plain_env 1 1 (lit ''k'') LocalStage
     [plain_episode ''Heroes'' 1 ''/m/l1.mkv'', plain_episode ''Heroes'' 2 ''/m/l2.mkv''] demo_holder False 10 (small_catalog, demo_processing)
     = Inr ((heroes_catalog, js'), scan)"
    using heroes_committed by blast
  then have reach: "media_reachable heroes_catalog"
    by (rule media_reachable.step [OF small_catalog_reachable media_step.group_written])
  have "list_all (\<lambda>r. \<not> fileless_episode 1 heroes_catalog r) (md_items heroes_catalog)"
    by (simp add: fileless_episode_def read_eval heroes_catalog_def sample_eval)
  moreover have "missing_in_sync [lit ''/m/a.mkv'', lit ''/m/l1.mkv'', lit ''/m/l2.mkv''] [] None
      (map mf_path (List.filter (\<lambda>f. mf_library f = 1) (md_files heroes_catalog))) = []"
    by (simp add: missing_in_sync_def heroes_catalog_def sample_eval)
  moreover have "find_item 2 (fst (cleanup_orphan_series_structure 1 heroes_catalog)) = None"
    by (simp add: heroes_catalog_def media_eval Let_def cong: media_first)
  ultimately show ?thesis
    using orphans_go_unannounced [OF reach demo_lock, of "[lit ''/m/a.mkv'', lit ''/m/l1.mkv'', lit ''/m/l2.mkv'']" "[]" None plain_env 0]
    by simp
qed

text \<open>A directory with an underscore stands for others too.\<close>

lemma prefix_matches_more: "sql_like (lit ''/m/a_b'' @ lit ''/%'') (lit ''/m/axb/c.mkv'')"
  by (simp add: lit_def sql_like.simps)

end
