(* ===== verification/Discovery.thy ===== *)
theory Discovery
  imports Library_Storage Media_Stream Media_Name
begin

text \<open>
  The walk of a scan through a library (\<open>mova-scan/src/discover.rs\<close>): which directories are entered,
  which files are taken, and what a failure below the root does. Links may lead anywhere, also back
  into the library. Names are text; the calls that report progress are left out.
\<close>

subsection \<open>What the walk asks of its environment\<close>

text \<open>
  \<open>de_read_dir\<close> lists a directory, with failures in between; \<open>de_symlink_metadata\<close> does not follow a
  link and says whether there is one; \<open>de_modified\<close> is the time of the last change, if it can be told,
  in milliseconds of Unix time; \<open>de_cancelled n\<close> is the answer to the question after \<open>n\<close> others.
\<close>

record 'u discovery_env =
  de_fs :: file_system
  de_read_dir :: "path \<Rightarrow> io_error + (io_error + ustr) list"
  de_symlink_metadata :: "path \<Rightarrow> io_error + bool"
  de_modified :: "path \<Rightarrow> int option"
  de_cancelled :: "nat \<Rightarrow> bool"
  de_urls :: "'u url_crate"
  de_names :: name_env

record media_inventory =
  iv_path :: path
  iv_kind :: media_source_kind
  iv_reference_hash :: "ustr option"
  iv_size :: nat
  iv_modified :: "int option"
  iv_fingerprint :: ustr

record discovery_issue =
  is_path :: path
  is_reason :: string
  is_message :: ustr

text \<open>Before the epoch and beyond 64 bits there is no time.\<close>

definition metadata_modified_at_ms :: "'u discovery_env \<Rightarrow> path \<Rightarrow> int option" where
  "metadata_modified_at_ms E p =
     (case de_modified E p of None \<Rightarrow> None | Some t \<Rightarrow> if 0 \<le> t \<and> t < 2 ^ 63 then Some t else None)"

definition is_strm_file :: "path \<Rightarrow> bool" where
  "is_strm_file p = (extension_lowercase p = Some (lit ''strm''))"

definition build_discovered_media_file_inventory ::
  "'u discovery_env \<Rightarrow> path \<Rightarrow> nat \<Rightarrow> int option \<Rightarrow> io_error + (discovery_issue + media_inventory)" where
  "build_discovered_media_file_inventory E p len modified =
     (let inventory = (\<lambda>kind hash. Inr (Inr \<lparr>iv_path = p, iv_kind = kind, iv_reference_hash = hash, iv_size = len,
        iv_modified = modified, iv_fingerprint = []\<rparr>)) in
      if is_strm_file p then
        (case read_http_strm_reference (de_urls E) (fs_open (de_fs E) p) of
           Inr r \<Rightarrow> inventory Strm (Some (reference_hash r))
         | Inl (ReadInvalid e) \<Rightarrow> Inr (Inl \<lparr>is_path = p, is_reason = strm_error_code e,
             is_message = lit ''Invalid STRM reference: '' @ lit (strm_error_code e)\<rparr>)
         | Inl (ReadIo e) \<Rightarrow> Inl e)
      else inventory LocalFile None)"

subsection \<open>The boundary\<close>

record discovery_boundary =
  bd_canonical_root :: path
  bd_excluded :: "path list"

text \<open>An excluded directory may not be reachable, then it keeps the path it has.\<close>

definition resolved_or_same :: "'u discovery_env \<Rightarrow> path \<Rightarrow> path" where
  "resolved_or_same E d = (case fs_canonicalize (de_fs E) d of Inr c \<Rightarrow> c | Inl _ \<Rightarrow> d)"

definition discovery_boundary ::
  "'u discovery_env \<Rightarrow> path \<Rightarrow> path list \<Rightarrow> io_error + discovery_boundary" where
  "discovery_boundary E root excluded =
     and_then (fs_canonicalize (de_fs E) root) (\<lambda>canonical_root.
     and_then (fs_metadata (de_fs E) canonical_root) (\<lambda>m.
       if fm_kind m \<noteq> Directory then Inl IoNotADirectory
       else Inr \<lparr>bd_canonical_root = canonical_root,
         bd_excluded = map (resolved_or_same E) excluded\<rparr>))"

definition is_symlink :: "'u discovery_env \<Rightarrow> path \<Rightarrow> bool" where
  "is_symlink E p = (de_symlink_metadata E p = Inr True)"

definition within_boundary :: "discovery_boundary \<Rightarrow> path \<Rightarrow> bool" where
  "within_boundary B c = (prefix (bd_canonical_root B) c \<and> \<not> list_ex (\<lambda>d. prefix d c) (bd_excluded B))"

definition canonical_path_if_allowed ::
  "'u discovery_env \<Rightarrow> discovery_boundary \<Rightarrow> path \<Rightarrow> io_error + path option" where
  "canonical_path_if_allowed E B p =
     (case fs_canonicalize (de_fs E) p of
        Inl e \<Rightarrow> if is_absent_entry_error e \<and> is_symlink E p then Inr None else Inl e
      | Inr c \<Rightarrow> Inr (if within_boundary B c then Some c else None))"

subsection \<open>Failures\<close>

text \<open>
  An error ends the walk as \<open>Interrupted\<close> (by a cancellation, or by the system), or because the policy
  has said so; the policy is told the path and the error.
\<close>

datatype walk_end = Interrupted | Aborted path io_error

definition tolerate ::
  "(path \<Rightarrow> io_error \<Rightarrow> discovery_failure_decision) \<Rightarrow> path \<Rightarrow> path \<Rightarrow> io_error \<Rightarrow> walk_end + unit" where
  "tolerate decide_on root p e =
     (if e = IoInterrupted then Inl Interrupted
      else if p \<noteq> root \<and> is_absent_entry_error e then Inr ()
      else case decide_on p e of SkipPath \<Rightarrow> Inr () | Abort \<Rightarrow> Inl (Aborted p e))"

subsection \<open>The walk\<close>

record discovery_state =
  ds_files :: "media_inventory list"
  ds_issues :: "discovery_issue list"
  ds_visited :: "path set"
  ds_asked :: nat

record 'u walk =
  wk_env :: "'u discovery_env"
  wk_root :: path
  wk_boundary :: discovery_boundary
  wk_policy :: "path \<Rightarrow> io_error \<Rightarrow> discovery_failure_decision"

text \<open>\<open>should_cancel()\<close> is asked; the walk goes on with the count of its questions.\<close>

definition checked_cancel :: "'u walk \<Rightarrow> discovery_state \<Rightarrow> walk_end + discovery_state" where
  "checked_cancel W st =
     (if de_cancelled (wk_env W) (ds_asked st) then Inl Interrupted else Inr (st\<lparr>ds_asked := ds_asked st + 1\<rparr>))"

definition skip :: "'u walk \<Rightarrow> path \<Rightarrow> io_error \<Rightarrow> discovery_state \<Rightarrow> (walk_end + discovery_state) option" where
  "skip W p e st = Some (map_ok (\<lambda>_. st) (tolerate (wk_policy W) (wk_root W) p e))"

definition take_file :: "'u walk \<Rightarrow> path \<Rightarrow> file_metadata \<Rightarrow> path \<Rightarrow> discovery_state \<Rightarrow> (walk_end + discovery_state) option" where
  "take_file W p m c st =
     (case build_discovered_media_file_inventory (wk_env W) p (fm_len m) (metadata_modified_at_ms (wk_env W) c) of
        Inr (Inr file) \<Rightarrow> Some (Inr (st\<lparr>ds_files := ds_files st @ [file]\<rparr>))
      | Inr (Inl issue) \<Rightarrow> Some (Inr (st\<lparr>ds_issues := ds_issues st @ [issue]\<rparr>))
      | Inl e \<Rightarrow> skip W p e st)"

text \<open>One entry of the directory \<open>d\<close>; \<open>go\<close> is the walk through a directory below.\<close>

definition visit_entry ::
  "'u walk \<Rightarrow> (path \<Rightarrow> discovery_state \<Rightarrow> (walk_end + discovery_state) option) \<Rightarrow> path \<Rightarrow> io_error + ustr \<Rightarrow>
     discovery_state \<Rightarrow> (walk_end + discovery_state) option" where
  "visit_entry W go d entry st =
     (case entry of
        Inl e \<Rightarrow> skip W d e st
      | Inr name \<Rightarrow>
          if is_ignored_entry_name (Some name) then Some (Inr st)
          else let p = d @ [name] in
            (case canonical_path_if_allowed (wk_env W) (wk_boundary W) p of
               Inl e \<Rightarrow> skip W p e st
             | Inr None \<Rightarrow> Some (Inr st)
             | Inr (Some c) \<Rightarrow>
                 (case fs_metadata (de_fs (wk_env W)) c of
                    Inl e \<Rightarrow> skip W p e st
                  | Inr m \<Rightarrow>
                      if fm_kind m = Directory then go p st
                      else if fm_kind m \<noteq> RegularFile \<or> \<not> is_supported_video p \<or> is_ignored_video_file_name name
                      then Some (Inr st)
                      else take_file W p m c st)))"

fun visit_entries ::
  "'u walk \<Rightarrow> (path \<Rightarrow> discovery_state \<Rightarrow> (walk_end + discovery_state) option) \<Rightarrow> path \<Rightarrow> (io_error + ustr) list \<Rightarrow>
     discovery_state \<Rightarrow> (walk_end + discovery_state) option" where
  "visit_entries W go d [] st = Some (Inr st)"
| "visit_entries W go d (entry # entries) st =
     (case checked_cancel W st of
        Inl e \<Rightarrow> Some (Inl e)
      | Inr st1 \<Rightarrow>
          (case visit_entry W go d entry st1 of
             None \<Rightarrow> None
           | Some (Inl e) \<Rightarrow> Some (Inl e)
           | Some (Inr st2) \<Rightarrow> visit_entries W go d entries st2))"

text \<open>\<open>None\<close>: the directories are nested deeper than the bound.\<close>

primrec visit_dir_inventory ::
  "'u walk \<Rightarrow> nat \<Rightarrow> path \<Rightarrow> discovery_state \<Rightarrow> (walk_end + discovery_state) option" where
  "visit_dir_inventory W 0 d st = None"
| "visit_dir_inventory W (Suc n) d st =
     (case checked_cancel W st of
        Inl e \<Rightarrow> Some (Inl e)
      | Inr st1 \<Rightarrow>
          (case canonical_path_if_allowed (wk_env W) (wk_boundary W) d of
             Inl e \<Rightarrow> skip W d e st1
           | Inr None \<Rightarrow> Some (Inr st1)
           | Inr (Some c) \<Rightarrow>
               if c \<in> ds_visited st1 then Some (Inr st1)
               else let st2 = st1\<lparr>ds_visited := insert c (ds_visited st1)\<rparr> in
                 (case de_read_dir (wk_env W) d of
                    Inl e \<Rightarrow> skip W d e st2
                  | Inr entries \<Rightarrow> visit_entries W (visit_dir_inventory W n) d entries st2)))"

end
