(* ===== verification/Discovery_Report.thy ===== *)
theory Discovery_Report
  imports Discovery "HOL-Library.Word" "HOL-Library.Product_Lexorder"
begin

unbundle bit_operations_syntax

text \<open>
  What the walk reports of a library (\<open>mova-scan/src/discover.rs\<close>): the files with a fingerprint of what
  lies beside them, by which a scan tells that a file must be read again; and how a scan asks for it
  (\<open>scan_jobs.rs\<close>, \<open>scan_jobs/incremental.rs\<close> of \<open>mova-application\<close>). A hash map is read in any order
  that is sorted afterwards.
\<close>

subsection \<open>Fingerprints\<close>

definition is_regular_file :: "'u discovery_env \<Rightarrow> path \<Rightarrow> bool" where
  "is_regular_file E p = (case fs_metadata (de_fs E) p of Inr m \<Rightarrow> fm_kind m = RegularFile | Inl _ \<Rightarrow> False)"

definition is_local_analysis_sidecar :: "path \<Rightarrow> bool" where
  "is_local_analysis_sidecar p =
     (case extension_lowercase p of
        None \<Rightarrow> False
      | Some e \<Rightarrow> e \<in> set (map lit
          [''nfo'', ''srt'', ''ass'', ''ssa'', ''vtt'', ''jpg'', ''jpeg'', ''png'', ''webp'', ''gif'', ''avif'']))"

definition LOCAL_ARTWORK_EXTENSIONS :: "ustr list" where
  "LOCAL_ARTWORK_EXTENSIONS = map lit [''jpg'', ''jpeg'', ''png'', ''webp'', ''avif'']"

datatype artwork_kind = Poster | Backdrop | Logo

fun generic_series_artwork_names :: "artwork_kind \<Rightarrow> ustr list" where
  "generic_series_artwork_names Poster = map lit [''poster'', ''folder'', ''cover'']"
| "generic_series_artwork_names Backdrop = map lit [''fanart'', ''backdrop'', ''background'']"
| "generic_series_artwork_names Logo = map lit [''clearlogo'', ''logo'']"

definition is_generic_series_artwork_path :: "path \<Rightarrow> bool" where
  "is_generic_series_artwork_path p =
     (case (extension_lowercase p, map_option to_ascii_lowercase (path_file_stem p)) of
        (Some e, Some stem) \<Rightarrow> e \<in> set LOCAL_ARTWORK_EXTENSIONS
          \<and> stem \<in> set (concat (map generic_series_artwork_names [Poster, Backdrop, Logo]))
      | _ \<Rightarrow> False)"

definition sidecar_file_fact :: "'u discovery_env \<Rightarrow> path \<Rightarrow> file_metadata \<Rightarrow> ustr" where
  "sidecar_file_fact E p m =
     path_text p @ [0] @ nat_text (fm_len m) @ [0]
       @ (case metadata_modified_at_ms E p of Some t \<Rightarrow> number_text t | None \<Rightarrow> lit ''-'')"

definition file_fact :: "'u discovery_env \<Rightarrow> path \<Rightarrow> ustr list" where
  "file_fact E p =
     (case fs_metadata (de_fs E) p of
        Inr m \<Rightarrow> if fm_kind m = RegularFile then [sidecar_file_fact E p m] else []
      | Inl _ \<Rightarrow> [])"

text \<open>What one entry of the directory adds: a fact, or an episode to be counted.\<close>

datatype entry_note = Fact ustr | Episode "int \<times> int"

definition entry_notes :: "'u discovery_env \<Rightarrow> path \<Rightarrow> io_error + ustr \<Rightarrow> entry_note list" where
  "entry_notes E d entry =
     (case entry of
        Inl _ \<Rightarrow> []
      | Inr name \<Rightarrow>
          let p = d @ [name] in
          if is_ignored_entry_name (Some name) then []
          else if is_supported_video p \<and> \<not> is_ignored_video_file_name name \<and> is_regular_file E p then
            (if is_strm_file p \<and> \<not> is_ok (read_http_strm_reference (de_urls E) (fs_open (de_fs E) p)) then []
             else case episode_identity_for_path (de_names E) p of Some i \<Rightarrow> [Episode i] | None \<Rightarrow> [])
          else if is_local_analysis_sidecar p then map Fact (file_fact E p) else [])"

definition facts_noted :: "entry_note list \<Rightarrow> ustr list" where
  "facts_noted ns = List.map_filter (\<lambda>n. case n of Fact f \<Rightarrow> Some f | Episode _ \<Rightarrow> None) ns"

definition episodes_noted :: "entry_note list \<Rightarrow> (int \<times> int) list" where
  "episodes_noted ns = List.map_filter (\<lambda>n. case n of Episode i \<Rightarrow> Some i | Fact _ \<Rightarrow> None) ns"

definition episode_video_counts :: "entry_note list \<Rightarrow> ((int \<times> int) \<times> nat) list" where
  "episode_video_counts ns =
     foldl (\<lambda>m i. btree_upsert i (\<lambda>old. case old of None \<Rightarrow> 1 | Some n \<Rightarrow> n + 1) m) [] (episodes_noted ns)"

definition count_fact :: "(int \<times> int) \<times> nat \<Rightarrow> ustr" where
  "count_fact c = lit ''episode-video-count'' @ [0] @ number_text (fst (fst c)) @ [0] @ number_text (snd (fst c))
     @ [0] @ nat_text (snd c)"

text \<open>\<open>Path::ancestors\<close>: the path itself first.\<close>

definition path_ancestors :: "path \<Rightarrow> path list" where
  "path_ancestors p = (let qs = rev (prefixes p) in if starts_with root_dir p then butlast qs else qs)"

definition has_only_names :: "path \<Rightarrow> bool" where
  "has_only_names p = list_all (\<lambda>c. c \<noteq> [47] \<and> c \<noteq> [46, 46]) p"

definition nearest_series_nfo :: "'u discovery_env \<Rightarrow> path \<Rightarrow> path option \<Rightarrow> path option" where
  "nearest_series_nfo E d root =
     List.find (is_regular_file E)
       (case root of
          Some r \<Rightarrow>
            (case opt_filter has_only_names (strip_prefix r d) of
               Some relative \<Rightarrow> map (\<lambda>a. r @ a @ [lit ''tvshow.nfo'']) (take 5 (path_ancestors relative))
             | None \<Rightarrow> [])
        | None \<Rightarrow> map (\<lambda>a. a @ [lit ''tvshow.nfo'']) (take 5 (path_ancestors d)))"

definition series_container_artwork_facts :: "'u discovery_env \<Rightarrow> path \<Rightarrow> path option \<Rightarrow> path option \<Rightarrow> ustr list" where
  "series_container_artwork_facts E d root series_nfo =
     (case Option.bind series_nfo path_parent of
        None \<Rightarrow> []
      | Some container \<Rightarrow>
          if container = d \<or> \<not> prefix container d \<or> (case root of Some r \<Rightarrow> \<not> prefix r container | None \<Rightarrow> False)
          then []
          else (case de_read_dir E container of
                  Inl _ \<Rightarrow> []
                | Inr entries \<Rightarrow> concat (map (\<lambda>entry. case entry of
                      Inl _ \<Rightarrow> []
                    | Inr name \<Rightarrow> let p = container @ [name] in
                        if is_generic_series_artwork_path p then file_fact E p else []) entries)))"

definition FNV_OFFSET :: "64 word" where
  "FNV_OFFSET = 0xcbf29ce484222325"

definition FNV_PRIME :: "64 word" where
  "FNV_PRIME = 0x100000001b3"

definition le_bytes_64 :: "nat \<Rightarrow> nat list" where
  "le_bytes_64 n = map (\<lambda>i. n div 256 ^ i mod 256) [0..<8]"

definition hash_byte :: "64 word \<Rightarrow> nat \<Rightarrow> 64 word" where
  "hash_byte h b = (h XOR word_of_nat b) * FNV_PRIME"

definition fact_bytes :: "ustr \<Rightarrow> nat list" where
  "fact_bytes f = le_bytes_64 (length (utf8_bytes f)) @ utf8_bytes f"

text \<open>\<open>{:016x}\<close>\<close>

definition hex16 :: "64 word \<Rightarrow> ustr" where
  "hex16 h = (let t = hex_text (unat h) in replicate (16 - length t) 48 @ t)"

definition stable_sidecar_fingerprint :: "ustr list \<Rightarrow> ustr" where
  "stable_sidecar_fingerprint facts = hex16 (foldl hash_byte FNV_OFFSET (concat (map fact_bytes facts)))"

definition sidecar_facts :: "'u discovery_env \<Rightarrow> path \<Rightarrow> path option \<Rightarrow> ustr list" where
  "sidecar_facts E d root =
     (let notes = (case de_read_dir E d of Inr entries \<Rightarrow> concat (map (entry_notes E d) entries) | Inl _ \<Rightarrow> []);
          series_nfo = nearest_series_nfo E d root in
      facts_noted notes @ map count_fact (episode_video_counts notes)
      @ (case series_nfo of
           None \<Rightarrow> []
         | Some p \<Rightarrow> (case fs_metadata (de_fs E) p of Inr m \<Rightarrow> [sidecar_file_fact E p m] | Inl _ \<Rightarrow> []))
      @ series_container_artwork_facts E d root series_nfo)"

definition sidecar_fingerprint_for_directory :: "'u discovery_env \<Rightarrow> path \<Rightarrow> path option \<Rightarrow> ustr" where
  "sidecar_fingerprint_for_directory E d root = stable_sidecar_fingerprint (sort (sidecar_facts E d root))"

definition populate_fingerprint :: "'u discovery_env \<Rightarrow> path \<Rightarrow> media_inventory \<Rightarrow> media_inventory" where
  "populate_fingerprint E root f =
     f\<lparr>iv_fingerprint := (case path_parent (iv_path f) of
        Some d \<Rightarrow> sidecar_fingerprint_for_directory E d (Some root) | None \<Rightarrow> [])\<rparr>"

subsection \<open>The report\<close>

record discovery_report =
  dr_files :: "media_inventory list"
  dr_issues :: "discovery_issue list"

definition no_media :: discovery_report where
  "no_media = \<lparr>dr_files = [], dr_issues = []\<rparr>"

definition initial_walk :: discovery_state where
  "initial_walk = \<lparr>ds_files = [], ds_issues = [], ds_visited = {}, ds_asked = 0\<rparr>"

definition visit_scope_directory ::
  "'u walk \<Rightarrow> nat \<Rightarrow> path \<Rightarrow> discovery_state \<Rightarrow> (walk_end + discovery_state) option" where
  "visit_scope_directory W n d st =
     (if \<not> prefix (wk_root W) d then Some (Inr st)
      else case de_symlink_metadata (wk_env W) d of
             Inr _ \<Rightarrow> visit_dir_inventory W n d st
           | Inl e \<Rightarrow> if is_absent_entry_error e then Some (Inr st) else skip W d e st)"

fun visit_scope ::
  "'u walk \<Rightarrow> nat \<Rightarrow> path list \<Rightarrow> discovery_state \<Rightarrow> (walk_end + discovery_state) option" where
  "visit_scope W n [] st = Some (Inr st)"
| "visit_scope W n (d # ds) st =
     (case visit_scope_directory W n d st of
        None \<Rightarrow> None
      | Some (Inl e) \<Rightarrow> Some (Inl e)
      | Some (Inr st1) \<Rightarrow> visit_scope W n ds st1)"

definition report_of :: "'u walk \<Rightarrow> discovery_state \<Rightarrow> discovery_report" where
  "report_of W st =
     \<lparr>dr_files = sort_key iv_path (map (populate_fingerprint (wk_env W) (wk_root W)) (ds_files st)),
      dr_issues = sort_key is_path (ds_issues st)\<rparr>"

definition discover_report_in_scope ::
  "'u discovery_env \<Rightarrow> nat \<Rightarrow> path \<Rightarrow> path list option \<Rightarrow> path list \<Rightarrow>
     (path \<Rightarrow> io_error \<Rightarrow> discovery_failure_decision) \<Rightarrow> (walk_end + discovery_report) option" where
  "discover_report_in_scope E n root scope excluded decide_on =
     (case discovery_boundary E root excluded of
        Inl e \<Rightarrow> Some (map_ok (\<lambda>_. no_media) (tolerate decide_on root root e))
      | Inr B \<Rightarrow>
          let W = \<lparr>wk_env = E, wk_root = root, wk_boundary = B, wk_policy = decide_on\<rparr> in
          map_option (map_ok (report_of W))
            (case scope of
               None \<Rightarrow> visit_dir_inventory W n root initial_walk
             | Some ds \<Rightarrow> visit_scope W n ds initial_walk))"

subsection \<open>The discovery of a scan\<close>

text \<open>\<open>None\<close> is the whole library. Directories inside another one of the scope are dropped.\<close>

definition keep_directory :: "ustr list \<Rightarrow> ustr \<Rightarrow> ustr list" where
  "keep_directory kept d = (if list_ex (path_is_under d) kept then kept else kept @ [d])"

definition from_requested :: "ustr \<Rightarrow> ustr list option \<Rightarrow> ustr list option" where
  "from_requested root_path requested =
     (case requested of
        None \<Rightarrow> None
      | Some ds \<Rightarrow>
          let root = trim_end_matches (\<lambda>c. c = 47) root_path;
              inside = List.filter (\<lambda>d. d \<noteq> [] \<and> d \<noteq> root \<and> path_is_under d root) (map (trim_end_matches (\<lambda>c. c = 47)) ds) in
          Some (foldl keep_directory [] (remdups_adj (sort inside))))"

datatype discovery_outcome = Discovered discovery_report | DiscoveryCancelled | StorageOutage "storage_issue option"

definition discover_media_files ::
  "(io_error \<Rightarrow> ustr) \<Rightarrow> 'u discovery_env \<Rightarrow> nat \<Rightarrow> ustr \<Rightarrow> storage_plan \<Rightarrow> ustr list option \<Rightarrow> discovery_outcome option" where
  "discover_media_files io_text E n root_path plan scope =
     (if skips_traversal plan then Some (Discovered no_media)
      else map_option (\<lambda>r. case r of
          Inr report \<Rightarrow> Discovered report
        | Inl Interrupted \<Rightarrow> DiscoveryCancelled
        | Inl (Aborted p e) \<Rightarrow> StorageOutage (outage_issue io_text plan p e))
       (discover_report_in_scope E n (path_of_text root_path) (map_option (map path_of_text) scope)
          (excluded_directories plan) (\<lambda>p e. failure_decision plan p)))"

end
