(* ===== verification/Discovery_Walk.thy ===== *)
theory Discovery_Walk
  imports Discovery_Report
begin

text \<open>
  The walk as a relation between the states before and after, with the reason for every step; what it
  visits and takes; that it comes to an end though links lead in circles.
\<close>

subsection \<open>The relation\<close>

datatype entry_target = SubDirectory path | MediaFile path path file_metadata

definition entry_target :: "'u walk \<Rightarrow> path \<Rightarrow> io_error + ustr \<Rightarrow> entry_target option" where
  "entry_target W d entry =
     (case entry of
        Inl _ \<Rightarrow> None
      | Inr name \<Rightarrow>
          if is_ignored_entry_name (Some name) then None
          else let p = d @ [name] in
            (case canonical_path_if_allowed (wk_env W) (wk_boundary W) p of
               Inr (Some c) \<Rightarrow>
                 (case fs_metadata (de_fs (wk_env W)) c of
                    Inr m \<Rightarrow>
                      if fm_kind m = Directory then Some (SubDirectory p)
                      else if fm_kind m = RegularFile \<and> is_supported_video p \<and> \<not> is_ignored_video_file_name name
                      then Some (MediaFile p c m) else None
                  | Inl _ \<Rightarrow> None)
             | _ \<Rightarrow> None))"

abbreviation canonical :: "'u walk \<Rightarrow> path \<Rightarrow> path option" where
  "canonical W p \<equiv> (case canonical_path_if_allowed (wk_env W) (wk_boundary W) p of Inr c \<Rightarrow> c | Inl _ \<Rightarrow> None)"

definition asked :: "discovery_state \<Rightarrow> discovery_state" where
  "asked st = st\<lparr>ds_asked := ds_asked st + 1\<rparr>"

definition entered :: "path \<Rightarrow> discovery_state \<Rightarrow> discovery_state" where
  "entered c st = st\<lparr>ds_visited := insert c (ds_visited st)\<rparr>"

abbreviation inventory_of :: "'u walk \<Rightarrow> path \<Rightarrow> path \<Rightarrow> file_metadata \<Rightarrow> io_error + (discovery_issue + media_inventory)" where
  "inventory_of W p c m \<equiv>
     build_discovered_media_file_inventory (wk_env W) p (fm_len m) (metadata_modified_at_ms (wk_env W) c)"

inductive walks :: "'u walk \<Rightarrow> path \<Rightarrow> discovery_state \<Rightarrow> discovery_state \<Rightarrow> bool"
  and reads :: "'u walk \<Rightarrow> path \<Rightarrow> (io_error + ustr) list \<Rightarrow> discovery_state \<Rightarrow> discovery_state \<Rightarrow> bool"
  for W where
  outside: "canonical W d = None \<Longrightarrow> walks W d st (asked st)"
| again: "canonical W d = Some c \<Longrightarrow> c \<in> ds_visited st \<Longrightarrow> walks W d st (asked st)"
| unreadable: "canonical W d = Some c \<Longrightarrow> c \<notin> ds_visited st \<Longrightarrow> de_read_dir (wk_env W) d = Inl e \<Longrightarrow>
    walks W d st (entered c (asked st))"
| inside: "canonical W d = Some c \<Longrightarrow> c \<notin> ds_visited st \<Longrightarrow> de_read_dir (wk_env W) d = Inr entries \<Longrightarrow>
    reads W d entries (entered c (asked st)) st' \<Longrightarrow> walks W d st st'"
| no_entry: "reads W d [] st st"
| passed: "entry_target W d entry = None \<Longrightarrow> reads W d entries (asked st) st' \<Longrightarrow> reads W d (entry # entries) st st'"
| below: "entry_target W d entry = Some (SubDirectory p) \<Longrightarrow> walks W p (asked st) st1 \<Longrightarrow>
    reads W d entries st1 st' \<Longrightarrow> reads W d (entry # entries) st st'"
| taken: "entry_target W d entry = Some (MediaFile p c m) \<Longrightarrow> inventory_of W p c m = Inr (Inr f) \<Longrightarrow>
    reads W d entries ((asked st)\<lparr>ds_files := ds_files st @ [f]\<rparr>) st' \<Longrightarrow> reads W d (entry # entries) st st'"
| rejected: "entry_target W d entry = Some (MediaFile p c m) \<Longrightarrow> inventory_of W p c m = Inr (Inl i) \<Longrightarrow>
    reads W d entries ((asked st)\<lparr>ds_issues := ds_issues st @ [i]\<rparr>) st' \<Longrightarrow> reads W d (entry # entries) st st'"
| unread: "entry_target W d entry = Some (MediaFile p c m) \<Longrightarrow> inventory_of W p c m = Inl e \<Longrightarrow>
    reads W d entries (asked st) st' \<Longrightarrow> reads W d (entry # entries) st st'"

lemma skip_Inr: "skip W p e st = Some (Inr st') \<Longrightarrow> st' = st"
  by (auto simp: skip_def map_ok_def split: sum.splits)

lemma checked_cancel_Inr: "checked_cancel W st = Inr st1 \<Longrightarrow> st1 = asked st"
  by (auto simp: checked_cancel_def asked_def split: if_splits)

text \<open>One entry either goes on with the state as it is, or is a directory, or a file.\<close>

lemma visit_entry_cases:
  assumes "visit_entry W go d entry st = Some (Inr st')"
  obtains "entry_target W d entry = None" "st' = st"
  | p where "entry_target W d entry = Some (SubDirectory p)" "go p st = Some (Inr st')"
  | p c m where "entry_target W d entry = Some (MediaFile p c m)" "take_file W p m c st = Some (Inr st')"
  using assms
  by (auto simp: visit_entry_def entry_target_def Let_def dest: skip_Inr split: sum.splits option.splits if_splits)

lemma take_file_cases:
  assumes "take_file W p m c st = Some (Inr st')"
  obtains f where "inventory_of W p c m = Inr (Inr f)" "st' = st\<lparr>ds_files := ds_files st @ [f]\<rparr>"
  | i where "inventory_of W p c m = Inr (Inl i)" "st' = st\<lparr>ds_issues := ds_issues st @ [i]\<rparr>"
  | e where "inventory_of W p c m = Inl e" "st' = st"
  using assms by (auto simp: take_file_def dest: skip_Inr split: sum.splits)

lemma visit_entries_reads:
  assumes "\<And>p st st'. go p st = Some (Inr st') \<Longrightarrow> walks W p st st'"
  shows "visit_entries W go d entries st = Some (Inr st') \<Longrightarrow> reads W d entries st st'"
proof (induction entries arbitrary: st)
  case (Cons entry entries)
  obtain st1 st2 where "checked_cancel W st = Inr st1" and entry: "visit_entry W go d entry st1 = Some (Inr st2)"
    and rest: "visit_entries W go d entries st2 = Some (Inr st')"
    using Cons.prems by (auto split: sum.splits option.splits)
  then have st1: "st1 = asked st" by (simp add: checked_cancel_Inr)
  note IH = Cons.IH [OF rest]
  from entry show ?case
  proof (cases rule: visit_entry_cases)
    case 1
    then show ?thesis using IH st1 by (simp add: passed)
  next
    case (2 p)
    then show ?thesis using IH st1 assms by (blast intro: below)
  next
    case (3 p c m)
    from 3(2) show ?thesis
      by (cases rule: take_file_cases) (use 3(1) IH st1 in \<open>auto simp: asked_def intro: taken rejected unread\<close>)
  qed
qed (simp add: no_entry)

lemma visit_dir_walks: "visit_dir_inventory W n d st = Some (Inr st') \<Longrightarrow> walks W d st st'"
proof (induction n arbitrary: d st st')
  case (Suc n)
  obtain st1 where "checked_cancel W st = Inr st1" using Suc.prems by (auto split: sum.splits)
  then have go: "checked_cancel W st = Inr (asked st)" by (simp add: checked_cancel_Inr)
  have visited: "ds_visited (asked st) = ds_visited st" by (simp add: asked_def)
  have into: "(asked st)\<lparr>ds_visited := insert c (ds_visited st)\<rparr> = entered c (asked st)" for c
    by (simp add: entered_def asked_def)
  have deeper: "visit_entries W (visit_dir_inventory W n) d entries st1 = Some (Inr st') \<Longrightarrow> reads W d entries st1 st'" for entries st1
    using Suc.IH by (rule visit_entries_reads)
  show ?case
    using Suc.prems
    by (auto simp: go visited into Let_def intro: outside again unreadable inside deeper
        dest!: skip_Inr split: sum.splits option.splits if_splits)
qed simp

lemma visit_scope_induct:
  assumes "visit_scope W n ds st = Some (Inr st')" and "P st"
    and "\<And>d st st'. d \<in> set ds \<Longrightarrow> prefix (wk_root W) d \<Longrightarrow> walks W d st st' \<Longrightarrow> P st \<Longrightarrow> P st'"
  shows "P st'"
  using assms
proof (induction ds arbitrary: st)
  case (Cons d ds)
  obtain st1 where d: "visit_scope_directory W n d st = Some (Inr st1)" and rest: "visit_scope W n ds st1 = Some (Inr st')"
    using Cons.prems(1) by (auto split: option.splits sum.splits)
  have "P st1"
    using d Cons.prems(2) Cons.prems(3) [of d] by (auto simp: visit_scope_directory_def dest: skip_Inr visit_dir_walks split: if_splits sum.splits)
  with rest show ?case by (rule Cons.IH) (use Cons.prems(3) in auto)
qed simp


inductive_cases entry_is_read: "reads W d [] st st'"

subsection \<open>What is never undone\<close>

lemma asked_simps [simp]:
  "ds_files (asked st) = ds_files st" "ds_visited (asked st) = ds_visited st" "ds_issues (asked st) = ds_issues st"
  "ds_files (entered c st) = ds_files st" "ds_visited (entered c st) = insert c (ds_visited st)"
  by (simp_all add: asked_def entered_def)

definition grows :: "discovery_state \<Rightarrow> discovery_state \<Rightarrow> bool" where
  "grows st st' = (ds_visited st \<subseteq> ds_visited st' \<and> set (ds_files st) \<subseteq> set (ds_files st'))"

lemma walks_grow:
  "walks W d st st' \<Longrightarrow> grows st st'"
  "reads W d entries st st' \<Longrightarrow> grows st st'"
  by (induction rule: walks_reads.inducts) (auto simp: grows_def)

subsection \<open>What is taken\<close>

text \<open>\<open>f\<close> is a video below \<open>d\<close>, reached by names that are not ignored, and its file is inside the boundary.\<close>

definition video_below :: "'u walk \<Rightarrow> path \<Rightarrow> media_inventory \<Rightarrow> bool" where
  "video_below W d f =
     (\<exists>names c m. iv_path f = d @ names \<and> names \<noteq> [] \<and> list_all (\<lambda>n. \<not> is_ignored_entry_name (Some n)) names
        \<and> \<not> is_ignored_video_file_name (last names) \<and> is_supported_video (iv_path f)
        \<and> canonical W (iv_path f) = Some c \<and> fs_metadata (de_fs (wk_env W)) c = Inr m \<and> fm_kind m = RegularFile)"

lemma inventory_path: "inventory_of W p c m = Inr (Inr f) \<Longrightarrow> iv_path f = p"
  by (auto simp: build_discovered_media_file_inventory_def Let_def split: if_splits sum.splits read_reference_error.splits)

lemma target_of_file:
  assumes "entry_target W d entry = Some (MediaFile p c m)"
  obtains name where "entry = Inr name" "p = d @ [name]" "\<not> is_ignored_entry_name (Some name)"
    "\<not> is_ignored_video_file_name name" "is_supported_video p" "canonical W p = Some c"
    "fs_metadata (de_fs (wk_env W)) c = Inr m" "fm_kind m = RegularFile"
  using assms by (auto simp: entry_target_def Let_def split: sum.splits option.splits if_splits)

lemma target_of_directory:
  assumes "entry_target W d entry = Some (SubDirectory p)"
  obtains name where "entry = Inr name" "p = d @ [name]" "\<not> is_ignored_entry_name (Some name)"
  using assms by (auto simp: entry_target_def Let_def split: sum.splits option.splits if_splits)

lemma video_here:
  assumes "entry_target W d entry = Some (MediaFile p c m)" and "inventory_of W p c m = Inr (Inr f)"
  shows "video_below W d f"
  using assms(1)
proof (cases rule: target_of_file)
  case (1 name)
  then show ?thesis using inventory_path [OF assms(2)] unfolding video_below_def by (intro exI [of _ "[name]"] exI [of _ c] exI [of _ m]) auto
qed

lemma video_deeper:
  assumes "entry_target W d entry = Some (SubDirectory p)" and "video_below W p f"
  shows "video_below W d f"
proof -
  from assms(1) obtain name where p: "p = d @ [name]" and name: "\<not> is_ignored_entry_name (Some name)"
    by (rule target_of_directory)
  from assms(2) obtain names c m where "iv_path f = p @ names" "names \<noteq> []" and rest:
    "list_all (\<lambda>n. \<not> is_ignored_entry_name (Some n)) names" "\<not> is_ignored_video_file_name (last names)"
    "is_supported_video (iv_path f)" "canonical W (iv_path f) = Some c" "fs_metadata (de_fs (wk_env W)) c = Inr m"
    "fm_kind m = RegularFile"
    unfolding video_below_def by blast
  then show ?thesis
    using p name unfolding video_below_def by (intro exI [of _ "name # names"] exI [of _ c] exI [of _ m]) simp
qed

lemma walks_sound:
  "walks W d st st' \<Longrightarrow> f \<in> set (ds_files st') \<Longrightarrow> f \<in> set (ds_files st) \<or> video_below W d f"
  "reads W d entries st st' \<Longrightarrow> f \<in> set (ds_files st') \<Longrightarrow> f \<in> set (ds_files st) \<or> video_below W d f"
  by (induction rule: walks_reads.inducts) (auto intro: video_here video_deeper)

text \<open>Below the root of the library such a path is not an ignored one.\<close>

lemma names_not_ignored:
  "list_all (\<lambda>n. \<not> is_ignored_entry_name (Some n)) names \<Longrightarrow> names \<noteq> [] \<Longrightarrow>
   \<not> is_ignored_video_file_name (last names) \<Longrightarrow> \<not> ignored_components names"
  by (induction names) (auto split: if_splits)

lemma video_not_ignored: "video_below W (wk_root W) f \<Longrightarrow> \<not> is_ignored_media_path (wk_root W) (iv_path f)"
  by (auto simp: video_below_def is_ignored_media_path_def strip_prefix_def names_not_ignored split: option.splits if_splits)

subsection \<open>What is found\<close>

text \<open>What a directory has is found, if not under its name in \<open>d\<close> then under another one.\<close>

definition covered :: "'u walk \<Rightarrow> path \<Rightarrow> io_error + ustr \<Rightarrow> discovery_state \<Rightarrow> bool" where
  "covered W d entry st =
     (case entry_target W d entry of
        None \<Rightarrow> True
      | Some (SubDirectory p) \<Rightarrow> (\<forall>c. canonical W p = Some c \<longrightarrow> c \<in> ds_visited st)
      | Some (MediaFile p c m) \<Rightarrow> (\<forall>f. inventory_of W p c m = Inr (Inr f) \<longrightarrow> f \<in> set (ds_files st)))"

lemma covered_grows: "covered W d entry st \<Longrightarrow> grows st st' \<Longrightarrow> covered W d entry st'"
  by (auto simp: covered_def grows_def split: option.splits entry_target.splits)

definition listed :: "'u walk \<Rightarrow> path \<Rightarrow> discovery_state \<Rightarrow> bool" where
  "listed W c st = (\<exists>d. canonical W d = Some c \<and>
     (\<forall>entries. de_read_dir (wk_env W) d = Inr entries \<longrightarrow> (\<forall>entry\<in>set entries. covered W d entry st)))"

lemma listed_grows: "listed W c st \<Longrightarrow> grows st st' \<Longrightarrow> listed W c st'"
  unfolding listed_def by (blast intro: covered_grows)

lemma walks_complete:
  "walks W d st st' \<Longrightarrow> (\<forall>c\<in>ds_visited st' - ds_visited st. listed W c st') \<and> (\<forall>c. canonical W d = Some c \<longrightarrow> c \<in> ds_visited st')"
  "reads W d entries st st' \<Longrightarrow> (\<forall>c\<in>ds_visited st' - ds_visited st. listed W c st') \<and> (\<forall>entry\<in>set entries. covered W d entry st')"
proof (induction rule: walks_reads.inducts)
  case (unreadable d c st e)
  then show ?case by (auto simp: listed_def)
next
  case (inside d c st entries st')
  have "c \<in> ds_visited st'" using walks_grow(2) [OF inside(3)] by (auto simp: grows_def)
  moreover have "listed W c st'" using inside unfolding listed_def by (intro exI [of _ d]) auto
  ultimately show ?case using inside by auto
next
  case (below d entry p st st1 entries st')
  have "covered W d entry st1" using below(1,3) by (auto simp: covered_def)
  then have "covered W d entry st'" using walks_grow(2) [OF below(4)] by (rule covered_grows)
  moreover have "listed W c st'" if "c \<in> ds_visited st' - ds_visited st" for c
  proof (cases "c \<in> ds_visited st1")
    case True
    then have "listed W c st1" using that below(3) by simp
    then show ?thesis using walks_grow(2) [OF below(4)] by (rule listed_grows)
  qed (use that below(5) in simp)
  ultimately show ?case using below(5) by simp
next
  case (taken d entry p c m f entries st st')
  have "f \<in> set (ds_files st')" using walks_grow(2) [OF taken(3)] by (auto simp: grows_def)
  then show ?case using taken by (auto simp: covered_def)
qed (auto simp: covered_def)


text \<open>
  A directory that is reached by listing from \<open>root\<close>, and the law of path names by which it may be
  reached under another one: a path is resolved name by name, and what is at the end of a link is what
  it leads to.
\<close>

inductive reached :: "'u walk \<Rightarrow> path \<Rightarrow> path \<Rightarrow> bool" for W root where
  start: "canonical W root = Some c \<Longrightarrow> reached W root root"
| deeper: "reached W root d \<Longrightarrow> de_read_dir (wk_env W) d = Inr entries \<Longrightarrow> entry \<in> set entries \<Longrightarrow>
    entry_target W d entry = Some (SubDirectory p) \<Longrightarrow> reached W root p"

definition resolves_stepwise :: "'u discovery_env \<Rightarrow> (path \<Rightarrow> ustr \<Rightarrow> io_error + path) \<Rightarrow> bool" where
  "resolves_stepwise E child =
     ((\<forall>d name. fs_canonicalize (de_fs E) (d @ [name]) = and_then (fs_canonicalize (de_fs E) d) (\<lambda>c. child c name))
      \<and> (\<forall>p c. fs_canonicalize (de_fs E) p = Inr c \<longrightarrow>
           de_read_dir E p = de_read_dir E c \<and> fs_open (de_fs E) p = fs_open (de_fs E) c))"

lemma canonical_Some:
  "canonical W p = Some c \<longleftrightarrow> fs_canonicalize (de_fs (wk_env W)) p = Inr c \<and> within_boundary (wk_boundary W) c"
  by (auto simp: canonical_path_if_allowed_def split: sum.splits)

lemma video_name: "is_supported_video (d @ [n]) = is_supported_video [n]" "is_strm_file (d @ [n]) = is_strm_file [n]"
  by (simp_all add: is_supported_video_def is_strm_file_def extension_lowercase_def path_file_name_def)

lemma inventory_same:
  assumes "fs_open (de_fs (wk_env W)) (d @ [n]) = fs_open (de_fs (wk_env W)) (d' @ [n])" and "inventory_of W (d @ [n]) c m = Inr (Inr f)"
  shows "inventory_of W (d' @ [n]) c m = Inr (Inr (f\<lparr>iv_path := d' @ [n]\<rparr>))"
  using assms
  by (auto simp: build_discovered_media_file_inventory_def Let_def video_name split: if_splits sum.splits read_reference_error.splits)

text \<open>Two names of one directory have the same entries.\<close>

lemma same_targets:
  assumes law: "resolves_stepwise (wk_env W) child" and same: "canonical W d = Some c" "canonical W d' = Some c"
  shows "entry_target W d (Inr n) = Some (SubDirectory p) \<Longrightarrow> p = d @ [n] \<and> entry_target W d' (Inr n) = Some (SubDirectory (d' @ [n]))
      \<and> canonical W (d' @ [n]) = canonical W (d @ [n])"
    and "entry_target W d (Inr n) = Some (MediaFile p k m) \<Longrightarrow> p = d @ [n] \<and> entry_target W d' (Inr n) = Some (MediaFile (d' @ [n]) k m)"
proof -
  have at: "fs_canonicalize (de_fs (wk_env W)) (d @ [n]) = child c n" "fs_canonicalize (de_fs (wk_env W)) (d' @ [n]) = child c n"
    using law same by (simp_all add: resolves_stepwise_def canonical_Some)
  show "entry_target W d (Inr n) = Some (SubDirectory p) \<Longrightarrow> p = d @ [n] \<and> entry_target W d' (Inr n) = Some (SubDirectory (d' @ [n]))
      \<and> canonical W (d' @ [n]) = canonical W (d @ [n])"
    and "entry_target W d (Inr n) = Some (MediaFile p k m) \<Longrightarrow> p = d @ [n] \<and> entry_target W d' (Inr n) = Some (MediaFile (d' @ [n]) k m)"
    using at
    by (auto simp: entry_target_def Let_def canonical_path_if_allowed_def video_name split: sum.splits option.splits if_splits)
qed

lemma reached_visited:
  assumes law: "resolves_stepwise (wk_env W) child" and walk: "walks W root st st'" and start: "ds_visited st = {}"
  shows "reached W root d \<Longrightarrow> \<exists>c. canonical W d = Some c \<and> c \<in> ds_visited st'"
proof (induction rule: reached.induct)
  case (start c)
  then show ?case using walks_complete(1) [OF walk] by auto
next
  case (deeper d entries entry p)
  then obtain c where c: "canonical W d = Some c" "c \<in> ds_visited st'" by blast
  then have "listed W c st'" using walks_complete(1) [OF walk] start by simp
  then obtain d' where d': "canonical W d' = Some c" and
    all: "\<And>es entry. de_read_dir (wk_env W) d' = Inr es \<Longrightarrow> entry \<in> set es \<Longrightarrow> covered W d' entry st'"
    unfolding listed_def by blast
  have "de_read_dir (wk_env W) d' = Inr entries"
    using law c(1) d' deeper(2) by (simp add: resolves_stepwise_def canonical_Some)
  then have covered: "covered W d' entry st'" using all deeper(3) by blast
  obtain n where n: "entry = Inr n" using deeper(4) by (rule target_of_directory)
  have "canonical W p \<noteq> None"
    using deeper(4) by (auto simp: entry_target_def Let_def split: sum.splits option.splits if_splits)
  moreover note same_targets(1) [OF law c(1) d'] covered deeper(4) n
  ultimately show ?case by (auto simp: covered_def)
qed

text \<open>Every video of a reached directory is found, if not there then under another name of its directory.\<close>

lemma walk_finds_all:
  assumes law: "resolves_stepwise (wk_env W) child" and walk: "walks W root st st'" and start: "ds_visited st = {}"
    and d: "reached W root d" and es: "de_read_dir (wk_env W) d = Inr entries" "entry \<in> set entries"
    and target: "entry_target W d entry = Some (MediaFile p c m)" and f: "inventory_of W p c m = Inr (Inr f)"
  shows "\<exists>f'\<in>set (ds_files st'). canonical W (iv_path f') = Some c \<and> f' = f\<lparr>iv_path := iv_path f'\<rparr>"
proof -
  obtain c0 where c0: "canonical W d = Some c0" "c0 \<in> ds_visited st'"
    using reached_visited [OF law walk start d] by blast
  then have "listed W c0 st'" using walks_complete(1) [OF walk] start by simp
  then obtain d' where d': "canonical W d' = Some c0" and
    all: "\<And>es entry. de_read_dir (wk_env W) d' = Inr es \<Longrightarrow> entry \<in> set es \<Longrightarrow> covered W d' entry st'"
    unfolding listed_def by blast
  have "de_read_dir (wk_env W) d' = Inr entries"
    using law c0(1) d' es(1) by (simp add: resolves_stepwise_def canonical_Some)
  then have covered: "covered W d' entry st'" using all es(2) by blast
  obtain n where n: "entry = Inr n" "p = d @ [n]" and at: "canonical W p = Some c" using target by (rule target_of_file)
  have t': "entry_target W d' (Inr n) = Some (MediaFile (d' @ [n]) c m)"
    using same_targets(2) [OF law c0(1) d'] target n by blast
  then have at': "canonical W (d' @ [n]) = Some c" by (blast elim: target_of_file)
  have "fs_open (de_fs (wk_env W)) (d @ [n]) = fs_open (de_fs (wk_env W)) (d' @ [n])"
    using law at at' n(2) by (simp add: resolves_stepwise_def canonical_Some)
  from inventory_same [OF this] f n(2) have "inventory_of W (d' @ [n]) c m = Inr (Inr (f\<lparr>iv_path := d' @ [n]\<rparr>))" by simp
  then have "f\<lparr>iv_path := d' @ [n]\<rparr> \<in> set (ds_files st')" using covered t' n(1) by (simp add: covered_def)
  then show ?thesis using at' by (intro bexI) simp_all
qed

end
