(* ===== verification/Discovery_Ends.thy ===== *)
theory Discovery_Ends
  imports Discovery_Walk
begin

text \<open>
  The walk takes each file once and comes to an end: every directory below is entered with fewer left
  that it has not visited.
\<close>

subsection \<open>Each file once\<close>

abbreviation names_in :: "(io_error + ustr) list \<Rightarrow> ustr list" where
  "names_in entries \<equiv> List.map_filter (\<lambda>entry. case entry of Inr n \<Rightarrow> Some n | Inl _ \<Rightarrow> None) entries"

definition lists_once :: "'u discovery_env \<Rightarrow> bool" where
  "lists_once E = (\<forall>d entries. de_read_dir E d = Inr entries \<longrightarrow> distinct (names_in entries))"

text \<open>What is new lies in \<open>d\<close> under one of the names \<open>ns\<close>, or in a directory that is visited on the way.\<close>

definition adds :: "'u walk \<Rightarrow> path \<Rightarrow> ustr set \<Rightarrow> discovery_state \<Rightarrow> discovery_state \<Rightarrow> bool" where
  "adds W d ns st st' =
     (\<exists>new. ds_files st' = ds_files st @ new \<and> distinct (map iv_path new)
        \<and> (\<forall>f\<in>set new. (\<exists>n\<in>ns. iv_path f = d @ [n])
             \<or> (\<exists>c\<in>ds_visited st' - ds_visited st. canonical W (butlast (iv_path f)) = Some c)))"

lemma adds_nothing: "ds_files st' = ds_files st \<Longrightarrow> adds W d ns st st'"
  unfolding adds_def by (intro exI [of _ "[]"]) simp

lemma adds_trans:
  assumes first: "adds W d ns st st1" and second: "adds W d ns' st1 st'" and "ns \<inter> ns' = {}"
    and d: "canonical W d = Some c" "c \<in> ds_visited st" and grow: "grows st st1" "grows st1 st'"
  shows "adds W d (ns \<union> ns') st st'"
proof -
  from first obtain new where new: "ds_files st1 = ds_files st @ new" "distinct (map iv_path new)"
    "\<And>f. f \<in> set new \<Longrightarrow> (\<exists>n\<in>ns. iv_path f = d @ [n])
       \<or> (\<exists>c\<in>ds_visited st1 - ds_visited st. canonical W (butlast (iv_path f)) = Some c)"
    unfolding adds_def by blast
  from second obtain new' where new': "ds_files st' = ds_files st1 @ new'" "distinct (map iv_path new')"
    "\<And>f. f \<in> set new' \<Longrightarrow> (\<exists>n\<in>ns'. iv_path f = d @ [n])
       \<or> (\<exists>c\<in>ds_visited st' - ds_visited st1. canonical W (butlast (iv_path f)) = Some c)"
    unfolding adds_def by blast
  have "iv_path f \<noteq> iv_path f'" if "f \<in> set new" "f' \<in> set new'" for f f'
  proof
    assume eq: "iv_path f = iv_path f'"
    note f = new(3) [OF that(1)] and f' = new'(3) [OF that(2)]
    consider n where "n \<in> ns" "iv_path f' = d @ [n]"
      | k where "k \<in> ds_visited st1" "k \<notin> ds_visited st" "canonical W (butlast (iv_path f')) = Some k"
      using f eq by auto
    then show False
    proof cases
      case 1
      then have "canonical W (butlast (iv_path f')) = Some c" using d(1) by simp
      then show False using f' 1 assms(3) d(2) grow(1) by (auto simp: grows_def)
    next
      case 2
      then show False using f' d by auto
    qed
  qed
  then have "distinct (map iv_path (new @ new'))" using new(2) new'(2) by fastforce
  moreover have "(\<exists>n\<in>ns \<union> ns'. iv_path f = d @ [n])
      \<or> (\<exists>c\<in>ds_visited st' - ds_visited st. canonical W (butlast (iv_path f)) = Some c)" if "f \<in> set (new @ new')" for f
  proof (cases "f \<in> set new")
    case True
    have "ds_visited st1 \<subseteq> ds_visited st'" using grow(2) by (simp add: grows_def)
    then show ?thesis using new(3) [OF True] by blast
  next
    case False
    have "ds_visited st \<subseteq> ds_visited st1" using grow(1) by (simp add: grows_def)
    then show ?thesis using False that new'(3) [of f] by auto
  qed
  ultimately show ?thesis
    unfolding adds_def using new(1) new'(1) by (intro exI [of _ "new @ new'"]) simp
qed

lemma adds_inside:
  assumes "adds W d ns (entered c (asked st)) st'" and "canonical W d = Some c" and "c \<notin> ds_visited st"
    and "grows (entered c (asked st)) st'"
  shows "adds W d' {} st st'"
proof -
  from assms(1) obtain new where new: "ds_files st' = ds_files st @ new" "distinct (map iv_path new)"
    "\<And>f. f \<in> set new \<Longrightarrow> (\<exists>n\<in>ns. iv_path f = d @ [n])
       \<or> (\<exists>k\<in>ds_visited st' - insert c (ds_visited st). canonical W (butlast (iv_path f)) = Some k)"
    unfolding adds_def by auto
  then have "\<exists>k\<in>ds_visited st' - ds_visited st. canonical W (butlast (iv_path f)) = Some k" if "f \<in> set new" for f
    using that assms(2-4) by (fastforce simp: grows_def)
  then show ?thesis unfolding adds_def using new(1,2) by (intro exI [of _ new]) simp
qed

lemma adds_one:
  "ds_files st1 = ds_files st @ [f] \<Longrightarrow> iv_path f = d @ [n] \<Longrightarrow> adds W d {n} st st1"
  unfolding adds_def by (intro exI [of _ "[f]"]) simp

lemma names_in_Cons [simp]:
  "names_in (Inr n # entries) = n # names_in entries" "names_in (Inl e # entries) = names_in entries" "names_in [] = []"
  by (simp_all add: map_filter_simps)

lemma distinct_names: "distinct (names_in (entry # entries)) \<Longrightarrow> distinct (names_in entries)"
  by (cases entry) auto

lemma adds_more: "adds W d ns st st' \<Longrightarrow> ns \<subseteq> ns' \<Longrightarrow> adds W d ns' st st'"
  unfolding adds_def by blast

lemma names_in_tail: "set (names_in entries) \<subseteq> set (names_in (entry # entries))"
  by (cases entry) auto

lemma walks_add:
  assumes once: "lists_once (wk_env W)"
  shows "walks W d st st' \<Longrightarrow> adds W d {} st st'"
    and "reads W d entries st st' \<Longrightarrow> distinct (names_in entries) \<longrightarrow>
      (\<forall>c. canonical W d = Some c \<longrightarrow> c \<in> ds_visited st \<longrightarrow> adds W d (set (names_in entries)) st st')"
proof (induction rule: walks_reads.inducts)
  case (inside d c st entries st')
  have "distinct (names_in entries)" using once inside(2) by (simp add: lists_once_def)
  then have "adds W d (set (names_in entries)) (entered c (asked st)) st'" using inside(1,4) by simp
  then show ?case using inside(1,5) walks_grow(2) [OF inside(3)] by (rule adds_inside)
next
  case (passed d entry entries st st')
  show ?case
  proof (intro impI allI)
    fix c assume d: "distinct (names_in (entry # entries))" and k: "canonical W d = Some c" "c \<in> ds_visited st"
    then have "adds W d (set (names_in entries)) (asked st) st'" using passed(3) k distinct_names [OF d] by simp
    then have "adds W d (set (names_in entries)) st st'" by (simp add: adds_def)
    then show "adds W d (set (names_in (entry # entries))) st st'" using names_in_tail by (rule adds_more)
  qed
next
  case (below d entry p st st1 entries st')
  show ?case
  proof (intro impI allI)
    fix c assume d: "distinct (names_in (entry # entries))" and c: "canonical W d = Some c" "c \<in> ds_visited st"
    have sub: "adds W d {} st st1" using below(3) by (simp add: adds_def)
    have grow: "grows st st1" "grows st1 st'"
      using walks_grow(1) [OF below(2)] walks_grow(2) [OF below(4)] by (simp_all add: grows_def)
    then have "c \<in> ds_visited st1" using c by (auto simp: grows_def)
    then have "adds W d (set (names_in entries)) st1 st'" using below(5) c(1) distinct_names [OF d] by blast
    from adds_trans [OF sub this _ c grow] have "adds W d (set (names_in entries)) st st'" by simp
    then show "adds W d (set (names_in (entry # entries))) st st'" using names_in_tail by (rule adds_more)
  qed
next
  case (taken d entry p c m f entries st st')
  obtain n where n: "entry = Inr n" "p = d @ [n]" using taken(1) by (rule target_of_file)
  show ?case
  proof (intro impI allI)
    fix k assume d: "distinct (names_in (entry # entries))" and k: "canonical W d = Some k" "k \<in> ds_visited st"
    let ?st1 = "(asked st)\<lparr>ds_files := ds_files st @ [f]\<rparr>"
    have one: "adds W d {n} st ?st1" using inventory_path [OF taken(2)] n(2) by (intro adds_one) simp_all
    have rest: "adds W d (set (names_in entries)) ?st1 st'" using taken(4) distinct_names [OF d] k by simp
    have "{n} \<inter> set (names_in entries) = {}" using d n(1) by simp
    from adds_trans [OF one rest this k _ walks_grow(2) [OF taken(3)]]
    show "adds W d (set (names_in (entry # entries))) st st'" using n(1) by (auto simp: grows_def)
  qed
next
  case (rejected d entry p c m i entries st st')
  show ?case
  proof (intro impI allI)
    fix k assume d: "distinct (names_in (entry # entries))" and k: "canonical W d = Some k" "k \<in> ds_visited st"
    then have "adds W d (set (names_in entries)) st st'" using rejected(4) k distinct_names [OF d] by (simp add: adds_def)
    then show "adds W d (set (names_in (entry # entries))) st st'" using names_in_tail by (rule adds_more)
  qed
next
  case (unread d entry p c m e entries st st')
  show ?case
  proof (intro impI allI)
    fix k assume d: "distinct (names_in (entry # entries))" and k: "canonical W d = Some k" "k \<in> ds_visited st"
    then have "adds W d (set (names_in entries)) st st'" using unread(4) k distinct_names [OF d] by (simp add: adds_def)
    then show "adds W d (set (names_in (entry # entries))) st st'" using names_in_tail by (rule adds_more)
  qed
qed (simp_all add: adds_nothing)

lemma walks_distinct:
  assumes "lists_once (wk_env W)" and "walks W d st st'" and "ds_files st = []"
  shows "distinct (map iv_path (ds_files st'))"
  using walks_add(1) [OF assms(1,2)] assms(3) by (auto simp: adds_def)

subsection \<open>The end\<close>

text \<open>The directories that may be entered.\<close>

definition enterable :: "'u walk \<Rightarrow> path set" where
  "enterable W = {c. \<exists>d. canonical W d = Some c}"

definition left_over :: "'u walk \<Rightarrow> discovery_state \<Rightarrow> nat" where
  "left_over W st = card (enterable W - ds_visited st)"

lemma left_over_grows: "finite (enterable W) \<Longrightarrow> ds_visited st \<subseteq> ds_visited st' \<Longrightarrow> left_over W st' \<le> left_over W st"
  unfolding left_over_def by (intro card_mono) auto

lemma visit_entries_ends:
  assumes fin: "finite (enterable W)"
    and go: "\<And>p st. left_over W st < k \<Longrightarrow> go p st \<noteq> None"
    and walk: "\<And>p st st'. go p st = Some (Inr st') \<Longrightarrow> walks W p st st'"
  shows "left_over W st < k \<Longrightarrow> visit_entries W go d entries st \<noteq> None"
proof (induction entries arbitrary: st)
  case (Cons entry entries)
  show ?case
  proof (cases "checked_cancel W st")
    case (Inr st1)
    then have st1: "st1 = asked st" by (simp add: checked_cancel_Inr)
    then have small: "left_over W st1 < k" using Cons.prems by (simp add: left_over_def)
    have "visit_entry W go d entry st1 \<noteq> None"
      using go [OF small] by (auto simp: visit_entry_def take_file_def skip_def Let_def split: sum.splits option.splits)
    moreover have "left_over W st2 < k" if "visit_entry W go d entry st1 = Some (Inr st2)" for st2
    proof -
      have "ds_visited st1 \<subseteq> ds_visited st2"
        using that
      proof (cases rule: visit_entry_cases)
        case (2 p)
        then show ?thesis using walks_grow(1) [OF walk] by (auto simp: grows_def)
      next
        case (3 p c m)
        from 3(2) show ?thesis by (cases rule: take_file_cases) auto
      qed simp
      then show ?thesis using left_over_grows [OF fin] small by (meson le_less_trans)
    qed
    ultimately show ?thesis using Inr Cons.IH by (auto split: sum.splits option.splits)
  qed simp
qed simp

lemma visit_dir_ends: "finite (enterable W) \<Longrightarrow> left_over W st < n \<Longrightarrow> visit_dir_inventory W n d st \<noteq> None"
proof (induction n arbitrary: d st)
  case (Suc n)
  show ?case
  proof (cases "checked_cancel W st")
    case (Inr st1)
    then have st1: "st1 = asked st" by (simp add: checked_cancel_Inr)
    have less: "left_over W (entered c (asked st)) < n" if "canonical W d = Some c" "c \<notin> ds_visited st" for c
    proof -
      have "enterable W - insert c (ds_visited st) \<subset> enterable W - ds_visited st"
        using that by (auto simp: enterable_def)
      then have "left_over W (entered c (asked st)) < left_over W st"
        using Suc.prems(1) unfolding left_over_def by (simp add: psubset_card_mono)
      then show ?thesis using Suc.prems(2) by simp
    qed
    have into: "(asked st)\<lparr>ds_visited := insert c (ds_visited st)\<rparr> = entered c (asked st)" for c
      by (simp add: entered_def)
    have "visit_entries W (visit_dir_inventory W n) d entries (entered c (asked st)) \<noteq> None"
      if "canonical W d = Some c" "c \<notin> ds_visited st" for c entries
      using Suc.prems(1) Suc.IH [OF Suc.prems(1)] visit_dir_walks less [OF that] by (rule visit_entries_ends)
    then show ?thesis
      using Inr by (auto simp: skip_def Let_def into st1 split: sum.splits option.splits)
  qed simp
qed simp

text \<open>A result does not depend on the bound.\<close>

lemma visit_entries_same:
  assumes "\<And>p st r. go p st = Some r \<Longrightarrow> go' p st = Some r"
  shows "visit_entries W go d entries st = Some r \<Longrightarrow> visit_entries W go' d entries st = Some r"
proof (induction entries arbitrary: st)
  case (Cons entry entries)
  have "visit_entry W go d entry st1 = Some q \<Longrightarrow> visit_entry W go' d entry st1 = Some q" for st1 q
    using assms by (auto simp: visit_entry_def Let_def split: sum.splits option.splits if_splits)
  then show ?case using Cons by (auto split: sum.splits option.splits)
qed simp

lemma visit_dir_deeper: "visit_dir_inventory W n d st = Some r \<Longrightarrow> visit_dir_inventory W (Suc n) d st = Some r"
proof (induction n arbitrary: d st r)
  case (Suc n)
  have same: "visit_entries W (visit_dir_inventory W n) d entries st = Some r \<Longrightarrow>
      visit_entries W (visit_dir_inventory W (Suc n)) d entries st = Some r" for entries st r
    using Suc.IH by (rule visit_entries_same)
  show ?case
    using Suc.prems by (simp only: visit_dir_inventory.simps) (auto simp del: visit_dir_inventory.simps simp: Let_def
        intro: same split: sum.splits option.splits if_splits)
qed simp

lemma visit_dir_same: "visit_dir_inventory W n d st = Some r \<Longrightarrow> n \<le> m \<Longrightarrow> visit_dir_inventory W m d st = Some r"
  by (induction m) (auto simp: le_Suc_eq intro: visit_dir_deeper simp del: visit_dir_inventory.simps)

lemma visit_scope_ends:
  "finite (enterable W) \<Longrightarrow> left_over W st < n \<Longrightarrow> visit_scope W n ds st \<noteq> None"
proof (induction ds arbitrary: st)
  case (Cons d ds)
  have now: "visit_scope_directory W n d st \<noteq> None"
    using visit_dir_ends [OF Cons.prems] by (auto simp: visit_scope_directory_def skip_def split: sum.splits)
  have "left_over W st1 < n" if "visit_scope_directory W n d st = Some (Inr st1)" for st1
  proof -
    have "ds_visited st \<subseteq> ds_visited st1"
      using that walks_grow(1) by (fastforce simp: visit_scope_directory_def grows_def dest: skip_Inr visit_dir_walks
          split: if_splits sum.splits)
    then show ?thesis using left_over_grows [OF Cons.prems(1)] Cons.prems(2) by (meson le_less_trans)
  qed
  then show ?case using now Cons.IH [OF Cons.prems(1)] by (auto split: option.splits sum.splits)
qed simp

lemma visit_scope_same: "visit_scope W n ds st = Some r \<Longrightarrow> n \<le> m \<Longrightarrow> visit_scope W m ds st = Some r"
proof (induction ds arbitrary: st)
  case (Cons d ds)
  have "visit_scope_directory W n d st = Some q \<Longrightarrow> visit_scope_directory W m d st = Some q" for q
    using visit_dir_same [OF _ Cons.prems(2)] by (auto simp: visit_scope_directory_def split: if_splits sum.splits)
  then show ?case using Cons by (auto split: option.splits sum.splits)
qed simp

end

