(* ===== verification/Discovery_Facts.thy ===== *)
theory Discovery_Facts
  imports Discovery_Ends "HOL-Library.Multiset"
begin

text \<open>What the discovery of a scan reports, derived from its walk.\<close>

lemma canonical_split: "prefix (bd_canonical_root B) c \<Longrightarrow> \<not> list_ex (\<lambda>d. prefix d c) (bd_excluded B) \<Longrightarrow> within_boundary B c"
  by (simp add: within_boundary_def)

definition walk_of :: "'u discovery_env \<Rightarrow> path \<Rightarrow> storage_plan \<Rightarrow> discovery_boundary \<Rightarrow> 'u walk" where
  "walk_of E root plan B =
     \<lparr>wk_env = E, wk_root = root, wk_boundary = B, wk_policy = (\<lambda>p e. failure_decision plan p)\<rparr>"

lemma walk_of_simps [simp]:
  "wk_env (walk_of E root plan B) = E" "wk_root (walk_of E root plan B) = root" "wk_boundary (walk_of E root plan B) = B"
  "wk_policy (walk_of E root plan B) = (\<lambda>p e. failure_decision plan p)"
  by (simp_all add: walk_of_def)

lemma initial_walk_simps [simp]: "ds_files initial_walk = []" "ds_visited initial_walk = {}" "ds_issues initial_walk = []"
  by (simp_all add: initial_walk_def)

lemma discovered_nothing:
  assumes "discover_media_files io_text E n root_path plan scope = Some (Discovered report)"
    and "skips_traversal plan \<or> \<not> is_ok (discovery_boundary E (path_of_text root_path) (excluded_directories plan))"
  shows "report = no_media"
  using assms
  by (auto simp: discover_media_files_def discover_report_in_scope_def is_ok_def map_ok_def split: if_splits sum.splits walk_end.splits)

lemma discover_walk:
  assumes "\<not> skips_traversal plan" and "discovery_boundary E (path_of_text root_path) (excluded_directories plan) = Inr B"
  shows "discover_media_files io_text E n root_path plan None =
    map_option (\<lambda>r. case r of
        Inr st \<Rightarrow> Discovered (report_of (walk_of E (path_of_text root_path) plan B) st)
      | Inl Interrupted \<Rightarrow> DiscoveryCancelled
      | Inl (Aborted p e) \<Rightarrow> StorageOutage (outage_issue io_text plan p e))
    (visit_dir_inventory (walk_of E (path_of_text root_path) plan B) n (path_of_text root_path) initial_walk)"
  using assms
  by (auto simp: discover_media_files_def discover_report_in_scope_def walk_of_def Let_def map_ok_def option.map_comp comp_def
      intro!: option.map_cong split: sum.splits walk_end.splits)

text \<open>A report is that of a walk, or it is empty.\<close>

lemma discovered_cases:
  assumes "discover_media_files io_text E n root_path plan None = Some (Discovered report)"
  obtains "report = no_media" "skips_traversal plan \<or> \<not> is_ok (discovery_boundary E (path_of_text root_path) (excluded_directories plan))"
  | B st where "\<not> skips_traversal plan" "discovery_boundary E (path_of_text root_path) (excluded_directories plan) = Inr B"
      "visit_dir_inventory (walk_of E (path_of_text root_path) plan B) n (path_of_text root_path) initial_walk = Some (Inr st)"
      "report = report_of (walk_of E (path_of_text root_path) plan B) st"
proof (cases "skips_traversal plan \<or> \<not> is_ok (discovery_boundary E (path_of_text root_path) (excluded_directories plan))")
  case True
  then show ?thesis using that(1) discovered_nothing [OF assms] by blast
next
  case False
  then obtain B where B: "\<not> skips_traversal plan" "discovery_boundary E (path_of_text root_path) (excluded_directories plan) = Inr B"
    by (auto simp: is_ok_def split: sum.splits)
  from assms obtain r where r: "visit_dir_inventory (walk_of E (path_of_text root_path) plan B) n (path_of_text root_path) initial_walk = Some r"
    unfolding discover_walk [OF B] by auto
  then obtain st where "r = Inr st" using assms unfolding discover_walk [OF B] by (auto split: sum.splits walk_end.splits)
  then show ?thesis using that(2) B r assms unfolding discover_walk [OF B] by simp
qed

lemma populate_path [simp]: "iv_path (populate_fingerprint E r f) = iv_path f"
  by (simp add: populate_fingerprint_def)

lemma report_files:
  "iv_path ` set (dr_files (report_of W st)) = iv_path ` set (ds_files st)"
  "distinct (map iv_path (dr_files (report_of W st))) = distinct (map iv_path (ds_files st))"
proof -
  show "iv_path ` set (dr_files (report_of W st)) = iv_path ` set (ds_files st)"
    by (simp add: report_of_def image_image)
  have "mset (map iv_path (dr_files (report_of W st))) = mset (map iv_path (ds_files st))"
    by (simp add: report_of_def multiset.map_comp comp_def)
  then show "distinct (map iv_path (dr_files (report_of W st))) = distinct (map iv_path (ds_files st))"
    by (rule mset_eq_imp_distinct_iff)
qed

end
