(* ===== verification/Discovery_Properties.thy ===== *)
theory Discovery_Properties
  imports Discovery_Facts Media_Identity
begin

text \<open>
  The properties of the discovery (\<open>mova-scan/src/discover.rs\<close>, \<open>discover_media_files\<close> of
  \<open>scan_jobs/incremental.rs\<close>), with a small tree in which a link leads back to the root.
\<close>

subsection \<open>A tree with a circle\<close>

text \<open>\<open>/m\<close> has a video, an ignored folder and the folder \<open>s\<close>, which has a video and the link \<open>up\<close> to \<open>/m\<close>.\<close>

definition demo_m :: path where
  "demo_m = [[47], [109]]"

definition demo_s :: path where
  "demo_s = [[47], [109], [115]]"

definition demo_a :: ustr where "demo_a = lit ''a.mkv''"

definition demo_b :: ustr where "demo_b = lit ''b.mkv''"

definition demo_up :: ustr where "demo_up = lit ''up''"

definition demo_extras :: ustr where "demo_extras = lit ''extras''"

lemmas demo_entries_def = demo_a_def demo_b_def demo_up_def demo_extras_def

definition demo_child :: "path \<Rightarrow> ustr \<Rightarrow> io_error + path" where
  "demo_child c n =
     (if c = demo_s \<and> n = demo_up then Inr demo_m
      else if (c, n) \<in> set [([], [47]), ([[47]], [109]), (demo_m, demo_a), (demo_m, [115]), (demo_s, demo_b)]
      then Inr (c @ [n]) else Inl IoNotFound)"

definition demo_resolve :: "path \<Rightarrow> io_error + path" where
  "demo_resolve p = foldl (\<lambda>r n. and_then r (\<lambda>c. demo_child c n)) (Inr []) p"

definition demo_listing :: "path \<Rightarrow> io_error + (io_error + ustr) list" where
  "demo_listing c =
     (if c = demo_m then Inr [Inr demo_extras, Inr [115], Inr demo_a]
      else if c = demo_s then Inr [Inr demo_up, Inr demo_b] else Inl IoNotADirectory)"

definition demo_metadata :: "path \<Rightarrow> io_error + file_metadata" where
  "demo_metadata p = map_ok (\<lambda>c. \<lparr>fm_kind = (if is_supported_video c then RegularFile else Directory), fm_len = 5\<rparr>) (demo_resolve p)"

definition demo_tree :: "(ustr \<times> ustr \<times> nat) discovery_env" where
  "demo_tree = \<lparr>de_fs = \<lparr>fs_canonicalize = demo_resolve, fs_metadata = demo_metadata,
       fs_open = (\<lambda>p. map_ok (\<lambda>_. []) (demo_resolve p)), fs_read_first = (\<lambda>p. map_ok (\<lambda>_. ()) (demo_resolve p))\<rparr>,
     de_read_dir = (\<lambda>p. and_then (demo_resolve p) demo_listing),
     de_symlink_metadata = (\<lambda>p. Inr (p \<noteq> [] \<and> last p = demo_up)), de_modified = (\<lambda>_. None),
     de_cancelled = (\<lambda>_. False), de_urls = demo_crate, de_names = demo_names\<rparr>"

lemmas tree_eval = demo_tree_def demo_resolve_def demo_child_def demo_listing_def demo_entries_def demo_metadata_def demo_m_def demo_s_def
  and_then_def map_ok_def

lemmas walk_eval = checked_cancel_def visit_entry_def take_file_def canonical_path_if_allowed_def within_boundary_def
  build_discovered_media_file_inventory_def metadata_modified_at_ms_def is_ignored_entry_name_def is_ignored_video_file_name_def
  IGNORED_DIRECTORY_NAMES_def IGNORED_FILE_NAMES_def IGNORED_VIDEO_STEMS_def IGNORED_VIDEO_STEM_SUFFIXES_def
  is_supported_video_def is_strm_file_def extension_lowercase_def path_file_name_def is_normal_component_def file_extension_def
  file_stem_def rsplit_once_def to_ascii_lowercase_def to_ascii_lower_def is_ascii_upper_def str_eval

lemma demo_resolved: "demo_resolve p = Inr c \<Longrightarrow>
  c \<in> {[], [[47]], demo_m, demo_m @ [demo_a], demo_s, demo_s @ [demo_b]} \<and> demo_resolve c = Inr c"
proof (induction p arbitrary: c rule: rev_induct)
  case Nil
  then show ?case by (simp add: demo_resolve_def)
next
  case (snoc n p)
  then obtain k where k: "demo_resolve p = Inr k" "demo_child k n = Inr c"
    by (auto simp: demo_resolve_def and_then_def split: sum.splits)
  then have "k \<in> {[], [[47]], demo_m, demo_m @ [demo_a], demo_s, demo_s @ [demo_b]}" using snoc.IH by blast
  then show ?case
    using k(2) by (auto simp: demo_child_def demo_m_def demo_s_def demo_entries_def demo_resolve_def and_then_def lit_def split: if_splits)
qed

lemma demo_law: "resolves_stepwise demo_tree demo_child"
  using demo_resolved by (auto simp: resolves_stepwise_def demo_tree_def demo_resolve_def map_ok_def)

lemma demo_once: "lists_once demo_tree"
  by (auto simp: lists_once_def demo_tree_def demo_listing_def demo_entries_def and_then_def map_filter_simps lit_def split: sum.splits if_splits)

lemma demo_boundary: "discovery_boundary demo_tree demo_m [] = Inr \<lparr>bd_canonical_root = demo_m, bd_excluded = []\<rparr>"
  by (simp add: discovery_boundary_def tree_eval walk_eval)

lemma demo_root_text: "path_of_text [47, 109] = demo_m"
  by (simp add: demo_root_path demo_m_def)

lemma demo_plan_walks: "\<not> skips_traversal demo_plan" "excluded_directories demo_plan = []"
  by (simp_all add: skips_traversal_def excluded_directories_def root_region_def demo_plan_def demo_root_region_def)

definition demo_walk :: "(ustr \<times> ustr \<times> nat) walk" where
  "demo_walk = walk_of demo_tree demo_m demo_plan \<lparr>bd_canonical_root = demo_m, bd_excluded = []\<rparr>"

definition demo_found :: "path \<Rightarrow> media_inventory" where
  "demo_found p = \<lparr>iv_path = p, iv_kind = LocalFile, iv_reference_hash = None, iv_size = 5, iv_modified = None, iv_fingerprint = []\<rparr>"

definition demo_end :: discovery_state where
  "demo_end = \<lparr>ds_files = [demo_found (demo_s @ [demo_b]), demo_found (demo_m @ [demo_a])], ds_issues = [],
     ds_visited = {demo_m, demo_s}, ds_asked = 8\<rparr>"

lemma demo_paths:
  "demo_resolve demo_m = Inr demo_m" "demo_resolve demo_s = Inr demo_s" "demo_resolve (demo_s @ [demo_up]) = Inr demo_m"
  "demo_resolve (demo_m @ [demo_a]) = Inr (demo_m @ [demo_a])"
  "demo_resolve (demo_s @ [demo_b]) = Inr (demo_s @ [demo_b])"
  "demo_s = demo_m @ [[115]]" "prefix demo_m demo_s"
  by (simp_all add: tree_eval lit_def)

lemma demo_kinds:
  "demo_metadata demo_m = Inr \<lparr>fm_kind = Directory, fm_len = 5\<rparr>" "demo_metadata demo_s = Inr \<lparr>fm_kind = Directory, fm_len = 5\<rparr>"
  "demo_metadata (demo_m @ [demo_a]) = Inr \<lparr>fm_kind = RegularFile, fm_len = 5\<rparr>"
  "demo_metadata (demo_s @ [demo_b]) = Inr \<lparr>fm_kind = RegularFile, fm_len = 5\<rparr>"
  by (simp_all add: demo_metadata_def demo_paths(1-5) map_ok_def)
    (simp_all add: demo_m_def demo_s_def demo_entries_def walk_eval)

lemma demo_names_kept:
  "is_ignored_entry_name (Some demo_extras)" "\<not> is_ignored_entry_name (Some [115])" "\<not> is_ignored_entry_name (Some demo_up)"
  "\<not> is_ignored_entry_name (Some demo_a)" "\<not> is_ignored_entry_name (Some demo_b)"
  "\<not> is_ignored_video_file_name demo_a" "\<not> is_ignored_video_file_name demo_b"
  "is_supported_video (d @ [demo_a])" "is_supported_video (d @ [demo_b])"
  "\<not> is_strm_file (d @ [demo_a])" "\<not> is_strm_file (d @ [demo_b])"
  by (simp_all add: demo_entries_def walk_eval)

lemma demo_walk_parts:
  "wk_env demo_walk = demo_tree" "wk_boundary demo_walk = \<lparr>bd_canonical_root = demo_m, bd_excluded = []\<rparr>"
  "fs_canonicalize (de_fs demo_tree) = demo_resolve" "fs_metadata (de_fs demo_tree) = demo_metadata"
  "de_cancelled demo_tree n = False" "de_modified demo_tree p = None"
  "de_read_dir demo_tree p = and_then (demo_resolve p) demo_listing"
  by (simp_all add: demo_walk_def demo_tree_def)

lemmas demo_steps = demo_walk_parts demo_paths(1-5) demo_kinds demo_names_kept visit_entry_def canonical_path_if_allowed_def
  within_boundary_def take_file_def build_discovered_media_file_inventory_def metadata_modified_at_ms_def demo_found_def

lemma demo_entries:
  "visit_entry demo_walk go demo_m (Inr demo_extras) st = Some (Inr st)"
  "visit_entry demo_walk go demo_m (Inr [115]) st = go demo_s st"
  "visit_entry demo_walk go demo_m (Inr demo_a) st = Some (Inr (st\<lparr>ds_files := ds_files st @ [demo_found (demo_m @ [demo_a])]\<rparr>))"
  "visit_entry demo_walk go demo_s (Inr demo_up) st = go (demo_s @ [demo_up]) st"
  "visit_entry demo_walk go demo_s (Inr demo_b) st = Some (Inr (st\<lparr>ds_files := ds_files st @ [demo_found (demo_s @ [demo_b])]\<rparr>))"
  by (simp_all add: demo_steps demo_paths(6) [symmetric] demo_paths(7) Let_def)

lemma demo_walked: "visit_dir_inventory demo_walk 4 demo_m initial_walk = Some (Inr demo_end)"
proof -
  have differ: "demo_s \<noteq> demo_m" "demo_m \<noteq> demo_s" by (simp_all add: demo_m_def demo_s_def)
  have list: "demo_listing demo_m = Inr [Inr demo_extras, Inr [115], Inr demo_a]"
    "demo_listing demo_s = Inr [Inr demo_up, Inr demo_b]"
    using differ by (simp_all add: demo_listing_def)
  have "visit_dir_inventory demo_walk (Suc (Suc (Suc (Suc 0)))) demo_m initial_walk = Some (Inr demo_end)"
    by (simp add: demo_entries checked_cancel_def canonical_path_if_allowed_def within_boundary_def demo_walk_parts demo_paths(1-3)
        demo_paths(7) list differ Let_def demo_end_def initial_walk_def insert_commute)
  then show ?thesis by (simp add: eval_nat_numeral del: visit_dir_inventory.simps)
qed


lemma demo_discovered:
  "discover_media_files io_text demo_tree 4 [47, 109] demo_plan None = Some (Discovered (report_of demo_walk demo_end))"
proof -
  have "discovery_boundary demo_tree (path_of_text [47, 109]) (excluded_directories demo_plan)
      = Inr \<lparr>bd_canonical_root = demo_m, bd_excluded = []\<rparr>"
    using demo_boundary by (simp add: demo_plan_walks demo_root_text)
  from discover_walk [OF demo_plan_walks(1) this] show ?thesis
    using demo_walked unfolding demo_walk_def demo_root_text by simp
qed

subsection \<open>What is reported\<close>

text \<open>A path that belongs in a report: inside the library and outside what is excluded, a video that is not ignored.\<close>

definition belongs :: "'u discovery_env \<Rightarrow> path \<Rightarrow> storage_plan \<Rightarrow> path \<Rightarrow> bool" where
  "belongs E root plan p =
     (case (fs_canonicalize (de_fs E) root, fs_canonicalize (de_fs E) p) of
        (Inr r, Inr c) \<Rightarrow>
          prefix r c
          \<and> list_all (\<lambda>d. \<not> prefix (resolved_or_same E d) c) (excluded_directories plan)
          \<and> is_regular_file E c \<and> is_supported_video p \<and> \<not> is_ignored_media_path root p
      | _ \<Rightarrow> False)"

lemma video_belongs:
  assumes "discovery_boundary E root (excluded_directories plan) = Inr B" and "video_below (walk_of E root plan B) root f"
  shows "belongs E root plan (iv_path f)"
proof -
  let ?W = "walk_of E root plan B"
  from assms(2) obtain c m where c: "canonical ?W (iv_path f) = Some c" "fs_metadata (de_fs E) c = Inr m" "fm_kind m = RegularFile"
    and v: "is_supported_video (iv_path f)"
    unfolding video_below_def by auto
  have "\<not> is_ignored_media_path root (iv_path f)" using video_not_ignored [of ?W f] assms(2) by simp
  moreover have "fs_canonicalize (de_fs E) (iv_path f) = Inr c" "within_boundary B c"
    using c(1) canonical_Some [of ?W] by simp_all
  ultimately show ?thesis
    using assms(1) c v
    by (auto simp: belongs_def discovery_boundary_def within_boundary_def is_regular_file_def list_all_iff list_ex_iff and_then_def
        split: sum.splits if_splits)
qed

text \<open>
  C17. The discovery of a whole library reports each path once, and only videos that lie, with all links
  followed, inside the library and outside the directories of dead storage, none of them under an
  ignored name.
\<close>

theorem discovery_sound:
  assumes "discover_media_files io_text E n root_path plan None = Some (Discovered report)" and "lists_once E"
  shows "distinct (map iv_path (dr_files report))
    \<and> list_all (\<lambda>f. belongs E (path_of_text root_path) plan (iv_path f)) (dr_files report)"
  using assms(1)
proof (cases rule: discovered_cases)
  case 1
  then show ?thesis by (simp add: no_media_def)
next
  case (2 B st)
  let ?W = "walk_of E (path_of_text root_path) plan B"
  note walk = visit_dir_walks [OF 2(3)]
  have "belongs E (path_of_text root_path) plan (iv_path f)" if "f \<in> set (ds_files st)" for f
    using walks_sound(1) [OF walk that] video_belongs [OF 2(2)] by simp
  then have "\<forall>p\<in>iv_path ` set (dr_files report). belongs E (path_of_text root_path) plan p"
    unfolding 2(4) report_files(1) by blast
  moreover have "distinct (map iv_path (dr_files report))"
    using walks_distinct [OF _ walk] assms(2) by (simp add: 2(4) report_files(2))
  ultimately show ?thesis by (simp add: list_all_iff)
qed

theorem discovery_sound_witness:
  "\<exists>report. discover_media_files (\<lambda>_. []) demo_tree 4 [47, 109] demo_plan None = Some (Discovered report)
     \<and> distinct (map iv_path (dr_files report)) \<and> demo_s @ [demo_b] \<in> iv_path ` set (dr_files report)
     \<and> belongs demo_tree demo_m demo_plan (demo_s @ [demo_b])"
proof -
  let ?r = "report_of demo_walk demo_end"
  have found: "demo_s @ [demo_b] \<in> iv_path ` set (dr_files ?r)"
    by (simp add: report_files(1) demo_end_def demo_found_def)
  moreover note discovery_sound [OF demo_discovered demo_once]
  ultimately show ?thesis
    unfolding demo_root_text by (intro exI [of _ ?r]) (auto simp: demo_discovered list_all_iff)
qed

text \<open>
  C18. Nothing is lost: a video in a directory that listing reaches from the root is reported with its
  size, its time and its reference, if not under that path then under another one that leads to the
  same file; links in circles and failures elsewhere do not matter.
\<close>

theorem discovery_complete:
  assumes "discover_media_files io_text E n root_path plan None = Some (Discovered report)" and "\<not> skips_traversal plan"
    and "discovery_boundary E (path_of_text root_path) (excluded_directories plan) = Inr B"
    and "resolves_stepwise E child"
    and "reached (walk_of E (path_of_text root_path) plan B) (path_of_text root_path) d"
    and "de_read_dir E d = Inr entries" and "entry \<in> set entries"
    and "entry_target (walk_of E (path_of_text root_path) plan B) d entry = Some (MediaFile p c m)"
    and "build_discovered_media_file_inventory E p (fm_len m) (metadata_modified_at_ms E c) = Inr (Inr f)"
  shows "\<exists>f'\<in>set (dr_files report). fs_canonicalize (de_fs E) (iv_path f') = Inr c
    \<and> iv_size f' = iv_size f \<and> iv_modified f' = iv_modified f \<and> iv_kind f' = iv_kind f \<and> iv_reference_hash f' = iv_reference_hash f"
  using assms(1)
proof (cases rule: discovered_cases)
  case 1
  then show ?thesis using assms(2,3) by (simp add: is_ok_def)
next
  case (2 B' st)
  let ?W = "walk_of E (path_of_text root_path) plan B"
  have B: "B' = B" using 2(2) assms(3) by simp
  have walk: "walks ?W (path_of_text root_path) initial_walk st" using visit_dir_walks [OF 2(3)] B by simp
  obtain f' where f': "f' \<in> set (ds_files st)" "canonical ?W (iv_path f') = Some c" "f' = f\<lparr>iv_path := iv_path f'\<rparr>"
    using walk_finds_all [OF _ walk _ assms(5), of child entries entry p c m f] assms(4,6-9) by auto
  have "populate_fingerprint E (path_of_text root_path) f' \<in> set (dr_files report)"
    using f'(1) by (simp add: 2(4) B report_of_def)
  moreover have "fs_canonicalize (de_fs E) (iv_path f') = Inr c" using f'(2) canonical_Some [of ?W] by simp
  moreover have "iv_size f' = iv_size f" "iv_modified f' = iv_modified f" "iv_kind f' = iv_kind f"
    "iv_reference_hash f' = iv_reference_hash f"
    by (subst f'(3), simp)+
  ultimately show ?thesis by (intro bexI) (auto simp: populate_fingerprint_def)
qed


lemma demo_targets:
  "entry_target demo_walk demo_m (Inr [115]) = Some (SubDirectory demo_s)"
  "entry_target demo_walk demo_s (Inr demo_up) = Some (SubDirectory (demo_s @ [demo_up]))"
  "demo_resolve (demo_s @ [demo_up, demo_a]) = Inr (demo_m @ [demo_a])"
proof -
  show "entry_target demo_walk demo_m (Inr [115]) = Some (SubDirectory demo_s)"
    "entry_target demo_walk demo_s (Inr demo_up) = Some (SubDirectory (demo_s @ [demo_up]))"
    by (simp_all add: entry_target_def demo_steps demo_paths(6) [symmetric] demo_paths(7) Let_def)
  show "demo_resolve (demo_s @ [demo_up, demo_a]) = Inr (demo_m @ [demo_a])" by (simp add: tree_eval lit_def)
qed

lemma demo_target_up:
  "entry_target demo_walk (demo_s @ [demo_up]) (Inr demo_a)
    = Some (MediaFile (demo_s @ [demo_up, demo_a]) (demo_m @ [demo_a]) \<lparr>fm_kind = RegularFile, fm_len = 5\<rparr>)"
  using demo_names_kept(8) [of "demo_s @ [demo_up]"]
  by (simp add: entry_target_def demo_steps demo_targets(3) Let_def)

lemma demo_lists:
  "de_read_dir demo_tree demo_m = Inr [Inr demo_extras, Inr [115], Inr demo_a]"
  "de_read_dir demo_tree demo_s = Inr [Inr demo_up, Inr demo_b]"
  "de_read_dir demo_tree (demo_s @ [demo_up]) = Inr [Inr demo_extras, Inr [115], Inr demo_a]"
proof -
  have "demo_s \<noteq> demo_m" by (simp add: demo_m_def demo_s_def)
  then show "de_read_dir demo_tree demo_m = Inr [Inr demo_extras, Inr [115], Inr demo_a]"
    "de_read_dir demo_tree demo_s = Inr [Inr demo_up, Inr demo_b]"
    "de_read_dir demo_tree (demo_s @ [demo_up]) = Inr [Inr demo_extras, Inr [115], Inr demo_a]"
    by (simp_all add: demo_walk_parts(7) demo_paths(1-3) demo_listing_def)
qed

lemma demo_reached: "reached demo_walk demo_m (demo_s @ [demo_up])"
proof -
  have env: "wk_env demo_walk = demo_tree" by (simp add: demo_walk_def)
  have "reached demo_walk demo_m demo_m"
    by (rule reached.start [of _ _ demo_m]) (simp add: demo_walk_parts demo_paths(1) canonical_path_if_allowed_def within_boundary_def)
  from reached.deeper [OF this demo_lists(1) [folded env] _ demo_targets(1)] have "reached demo_walk demo_m demo_s" by simp
  from reached.deeper [OF this demo_lists(2) [folded env] _ demo_targets(2)] show ?thesis by simp
qed

text \<open>\<open>/m/s/up/a.mkv\<close> is there too, as \<open>/m/a.mkv\<close>.\<close>

theorem discovery_complete_witness:
  "\<exists>f\<in>set (dr_files (report_of demo_walk demo_end)). demo_resolve (iv_path f) = Inr (demo_m @ [demo_a])
     \<and> demo_resolve (demo_s @ [demo_up, demo_a]) = Inr (demo_m @ [demo_a]) \<and> iv_size f = 5"
proof -
  let ?f = "demo_found (demo_s @ [demo_up, demo_a])"
  have B: "discovery_boundary demo_tree (path_of_text [47, 109]) (excluded_directories demo_plan)
      = Inr \<lparr>bd_canonical_root = demo_m, bd_excluded = []\<rparr>"
    using demo_boundary by (simp add: demo_plan_walks demo_root_text)
  have "build_discovered_media_file_inventory demo_tree (demo_s @ [demo_up, demo_a]) 5 (metadata_modified_at_ms demo_tree (demo_m @ [demo_a]))
      = Inr (Inr ?f)"
    using demo_names_kept(10) [of "demo_s @ [demo_up]"]
    by (simp add: build_discovered_media_file_inventory_def metadata_modified_at_ms_def demo_walk_parts demo_found_def)
  then have built: "build_discovered_media_file_inventory demo_tree (demo_s @ [demo_up, demo_a]) (fm_len \<lparr>fm_kind = RegularFile, fm_len = 5\<rparr>)
      (metadata_modified_at_ms demo_tree (demo_m @ [demo_a])) = Inr (Inr ?f)" by simp
  have W: "walk_of demo_tree (path_of_text [47, 109]) demo_plan \<lparr>bd_canonical_root = demo_m, bd_excluded = []\<rparr> = demo_walk"
    by (simp add: demo_walk_def demo_root_text)
  from discovery_complete [OF demo_discovered demo_plan_walks(1) B demo_law, unfolded W, unfolded demo_root_text,
      OF demo_reached demo_lists(3) _ demo_target_up built]
  show ?thesis by (simp add: demo_walk_parts(3) demo_found_def demo_targets(3)) blast
qed

subsection \<open>The end of the walk\<close>

text \<open>
  C20. In a file system with finitely many directories the discovery of a scan ends, however its links
  lead back into the library, and with one result for every bound on the depth that is larger than
  their number.
\<close>

theorem discovery_ends:
  assumes "finite {c. \<exists>p. fs_canonicalize (de_fs E) p = Inr c}"
  shows "\<exists>r. list_all (\<lambda>k. discover_media_files io_text E (card {c. \<exists>p. fs_canonicalize (de_fs E) p = Inr c} + 1 + k) root_path plan scope
    = Some r) ks"
proof (cases "skips_traversal plan")
  case True
  then show ?thesis by (intro exI [of _ "Discovered no_media"]) (simp add: discover_media_files_def list_all_iff)
next
  case False
  let ?N = "card {c. \<exists>p. fs_canonicalize (de_fs E) p = Inr c} + 1"
  have "\<exists>r. \<forall>k. discover_report_in_scope E (?N + k) root sc excluded decide_on = Some r" for root sc excluded decide_on
  proof (cases "discovery_boundary E root excluded")
    case (Inl e)
    then show ?thesis by (simp add: discover_report_in_scope_def)
  next
    case (Inr B)
    let ?W = "\<lparr>wk_env = E, wk_root = root, wk_boundary = B, wk_policy = decide_on\<rparr>"
    have sub: "enterable ?W \<subseteq> {c. \<exists>p. fs_canonicalize (de_fs E) p = Inr c}"
      using canonical_Some [of ?W] by (auto simp: enterable_def)
    then have fin: "finite (enterable ?W)" using assms finite_subset by blast
    have "left_over ?W initial_walk < ?N"
      using card_mono [OF assms sub] by (simp add: left_over_def)
    then obtain r r' where r: "visit_dir_inventory ?W ?N root initial_walk = Some r" "visit_scope ?W ?N (the sc) initial_walk = Some r'"
      using visit_dir_ends [OF fin] visit_scope_ends [OF fin] by blast
    have "visit_dir_inventory ?W (?N + k) root initial_walk = Some r" "visit_scope ?W (?N + k) (the sc) initial_walk = Some r'" for k
      using visit_dir_same [OF r(1), of "?N + k"] visit_scope_same [OF r(2), of "?N + k"] by linarith+
    then show ?thesis using Inr by (cases sc) (auto simp: discover_report_in_scope_def Let_def simp del: visit_dir_inventory.simps)
  qed
  then obtain r where "\<And>k. discover_report_in_scope E (?N + k) (path_of_text root_path) (map_option (map path_of_text) scope)
      (excluded_directories plan) (\<lambda>p e. failure_decision plan p) = Some r"
    by blast
  then show ?thesis using False by (simp add: discover_media_files_def list_all_iff del: add_Suc add_Suc_right)
qed

lemma demo_finite: "finite {c. \<exists>p. fs_canonicalize (de_fs demo_tree) p = Inr c}"
  by (rule finite_subset [of _ "{[], [[47]], demo_m, demo_m @ [demo_a], demo_s, demo_s @ [demo_b]}"])
    (use demo_resolved in \<open>auto simp: demo_walk_parts(3)\<close>)

theorem discovery_ends_witness:
  "\<exists>r. discover_media_files (\<lambda>_. []) demo_tree (card {c. \<exists>p. fs_canonicalize (de_fs demo_tree) p = Inr c} + 1 + 7) [47, 109]
     demo_plan (Some [[47, 109, 47, 115]]) = Some r"
  using discovery_ends [OF demo_finite, of "\<lambda>_. []" "[47, 109]" demo_plan "Some [[47, 109, 47, 115]]" "[7]"] by simp


subsection \<open>A share that cannot be read\<close>

text \<open>The scan is cancelled, or the system interrupts one of the calls of the walk.\<close>

definition disturbed :: "'u discovery_env \<Rightarrow> bool" where
  "disturbed E \<longleftrightarrow> (\<exists>k. de_cancelled E k)
     \<or> (\<exists>p. fs_canonicalize (de_fs E) p = Inl IoInterrupted \<or> fs_metadata (de_fs E) p = Inl IoInterrupted
        \<or> fs_open (de_fs E) p = Inl IoInterrupted \<or> de_read_dir E p = Inl IoInterrupted
        \<or> (\<exists>entries. de_read_dir E p = Inr entries \<and> Inl IoInterrupted \<in> set entries))"

definition end_explained :: "'u discovery_env \<Rightarrow> (path \<Rightarrow> io_error \<Rightarrow> discovery_failure_decision) \<Rightarrow> walk_end \<Rightarrow> bool" where
  "end_explained E decide_on x \<longleftrightarrow>
     (case x of Interrupted \<Rightarrow> disturbed E | Aborted p e \<Rightarrow> decide_on p e = Abort)"

lemma tolerate_explained:
  assumes "tolerate decide_on root p e = Inl x" and "e = IoInterrupted \<Longrightarrow> disturbed E"
  shows "end_explained E decide_on x"
  using assms by (auto simp: tolerate_def end_explained_def split: if_splits discovery_failure_decision.splits)

lemma skip_explained:
  assumes "skip W p e st = Some (Inl x)" and "e = IoInterrupted \<Longrightarrow> disturbed (wk_env W)"
  shows "end_explained (wk_env W) (wk_policy W) x"
  using assms tolerate_explained [of "wk_policy W" "wk_root W" p e x "wk_env W"] by (auto simp: skip_def map_ok_def split: sum.splits)

lemma checked_cancel_explained: "checked_cancel W st = Inl x \<Longrightarrow> end_explained (wk_env W) (wk_policy W) x"
  by (auto simp: checked_cancel_def end_explained_def disturbed_def split: if_splits)

lemma canonical_explained: "canonical_path_if_allowed E B p = Inl e \<Longrightarrow> e = IoInterrupted \<Longrightarrow> disturbed E"
  by (auto simp: canonical_path_if_allowed_def disturbed_def split: sum.splits if_splits)

lemma take_file_explained:
  assumes "take_file W p m c st = Some (Inl x)"
  shows "end_explained (wk_env W) (wk_policy W) x"
proof -
  obtain e where e: "build_discovered_media_file_inventory (wk_env W) p (fm_len m) (metadata_modified_at_ms (wk_env W) c) = Inl e"
      "skip W p e st = Some (Inl x)"
    using assms by (auto simp: take_file_def split: sum.splits)
  have "e = IoInterrupted \<Longrightarrow> disturbed (wk_env W)"
    using e(1) by (auto simp: build_discovered_media_file_inventory_def read_http_strm_reference_def disturbed_def map_err_def
        split: if_splits sum.splits read_reference_error.splits)
  then show ?thesis by (rule skip_explained [OF e(2)])
qed

lemma visit_entry_explained:
  assumes "visit_entry W go d entry st = Some (Inl x)" and "entry = Inl IoInterrupted \<Longrightarrow> disturbed (wk_env W)"
    and "\<And>p st. go p st = Some (Inl x) \<Longrightarrow> end_explained (wk_env W) (wk_policy W) x"
  shows "end_explained (wk_env W) (wk_policy W) x"
proof (cases entry)
  case (Inl e)
  then show ?thesis using assms(1,2) skip_explained [of W d e st x] by (simp add: visit_entry_def)
next
  case (Inr name)
  have metadata: "fs_metadata (de_fs (wk_env W)) c = Inl e \<Longrightarrow> e = IoInterrupted \<Longrightarrow> disturbed (wk_env W)" for c e
    by (auto simp: disturbed_def)
  show ?thesis
    using assms(1,3) skip_explained canonical_explained metadata take_file_explained unfolding Inr visit_entry_def
    by (auto simp: Let_def split: sum.splits option.splits if_splits) blast+
qed

lemma visit_entries_explained:
  "visit_entries W go d entries st = Some (Inl x) \<Longrightarrow> (Inl IoInterrupted \<in> set entries \<Longrightarrow> disturbed (wk_env W)) \<Longrightarrow>
     (\<And>p st. go p st = Some (Inl x) \<Longrightarrow> end_explained (wk_env W) (wk_policy W) x) \<Longrightarrow>
     end_explained (wk_env W) (wk_policy W) x"
proof (induction entries arbitrary: st)
  case (Cons entry entries)
  consider e where "checked_cancel W st = Inl e" "e = x"
    | st1 where "checked_cancel W st = Inr st1" "visit_entry W go d entry st1 = Some (Inl x)"
    | st1 st2 where "checked_cancel W st = Inr st1" "visit_entry W go d entry st1 = Some (Inr st2)"
        "visit_entries W go d entries st2 = Some (Inl x)"
    using Cons.prems(1) by (auto split: sum.splits option.splits)
  then show ?case
  proof cases
    case 1
    then show ?thesis using checked_cancel_explained by blast
  next
    case 2
    show ?thesis by (rule visit_entry_explained [OF 2(2)]) (use Cons.prems(2,3) in auto)
  next
    case 3
    show ?thesis by (rule Cons.IH [OF 3(3)]) (use Cons.prems(2,3) in auto)
  qed
qed simp

lemma visit_dir_explained:
  "visit_dir_inventory W n d st = Some (Inl x) \<Longrightarrow> end_explained (wk_env W) (wk_policy W) x"
proof (induction n arbitrary: d st)
  case (Suc n)
  consider e where "checked_cancel W st = Inl e" "e = x"
    | st1 e where "canonical_path_if_allowed (wk_env W) (wk_boundary W) d = Inl e" "skip W d e st1 = Some (Inl x)"
    | st2 e where "de_read_dir (wk_env W) d = Inl e" "skip W d e st2 = Some (Inl x)"
    | st2 entries where "de_read_dir (wk_env W) d = Inr entries"
        "visit_entries W (visit_dir_inventory W n) d entries st2 = Some (Inl x)"
    using Suc.prems by (auto simp: Let_def split: sum.splits option.splits if_splits)
  then show ?case
  proof cases
    case 1
    then show ?thesis using checked_cancel_explained by blast
  next
    case 2
    then show ?thesis using skip_explained canonical_explained by blast
  next
    case 3
    then show ?thesis by (intro skip_explained [OF 3(2)]) (auto simp: disturbed_def)
  next
    case 4
    show ?thesis by (rule visit_entries_explained [OF 4(2)]) (use 4(1) Suc.IH in \<open>auto simp: disturbed_def\<close>)
  qed
qed simp

lemma boundary_explained: "discovery_boundary E root excluded = Inl e \<Longrightarrow> e = IoInterrupted \<Longrightarrow> disturbed E"
  by (auto simp: discovery_boundary_def and_then_def disturbed_def split: sum.splits if_splits)

text \<open>A discovery that does not report has been disturbed, or is an outage of the path on which its plan gives up.\<close>

lemma discovery_explained:
  assumes "discover_media_files io_text E n root_path plan None = Some outcome"
  shows "case outcome of
      Discovered report \<Rightarrow> True
    | DiscoveryCancelled \<Rightarrow> disturbed E
    | StorageOutage issue \<Rightarrow> \<exists>p e. issue = outage_issue io_text plan p e \<and> failure_decision plan p = Abort"
proof (cases "skips_traversal plan")
  case True
  then show ?thesis using assms by (auto simp: discover_media_files_def)
next
  case False
  obtain r where r: "discover_report_in_scope E n (path_of_text root_path) None (excluded_directories plan) (\<lambda>p e. failure_decision plan p) = Some r"
    and outcome: "outcome = (case r of Inr report \<Rightarrow> Discovered report | Inl Interrupted \<Rightarrow> DiscoveryCancelled
        | Inl (Aborted p e) \<Rightarrow> StorageOutage (outage_issue io_text plan p e))"
    using assms False by (auto simp: discover_media_files_def)
  have "end_explained E (\<lambda>p e. failure_decision plan p) x" if x: "r = Inl x" for x
  proof (cases "discovery_boundary E (path_of_text root_path) (excluded_directories plan)")
    case (Inl e)
    then have "tolerate (\<lambda>p e. failure_decision plan p) (path_of_text root_path) (path_of_text root_path) e = Inl x"
      using r x by (auto simp: discover_report_in_scope_def map_ok_def split: sum.splits)
    then show ?thesis by (rule tolerate_explained) (use Inl boundary_explained in blast)
  next
    case (Inr B)
    let ?W = "\<lparr>wk_env = E, wk_root = path_of_text root_path, wk_boundary = B, wk_policy = (\<lambda>p e. failure_decision plan p)\<rparr>"
    have "visit_dir_inventory ?W n (path_of_text root_path) initial_walk = Some (Inl x)"
    proof -
      obtain z where z: "visit_dir_inventory ?W n (path_of_text root_path) initial_walk = Some z" "map_ok (report_of ?W) z = Inl x"
        using r x Inr by (auto simp: discover_report_in_scope_def Let_def)
      then show ?thesis by (cases z) simp_all
    qed
    from visit_dir_explained [OF this] show ?thesis by simp
  qed
  then show ?thesis by (auto simp: outcome end_explained_def split: sum.splits walk_end.splits)
qed

lemma failure_ends: "failure_decision plan root = Abort \<Longrightarrow> tolerate (\<lambda>p e. failure_decision plan p) root root e \<noteq> Inr u"
  by (auto simp: tolerate_def)

lemma failed_entry_ends:
  assumes "wk_root W = root" and "wk_policy W = (\<lambda>p e. failure_decision plan p)" and "failure_decision plan root = Abort"
  shows "visit_entries W go root entries st = Some (Inr st') \<Longrightarrow> list_all is_ok entries"
proof (induction entries arbitrary: st)
  case (Cons entry entries)
  have "is_ok entry" if "visit_entry W go root entry st1 = Some (Inr st2)" for st1 st2
    using that failure_ends [OF assms(3)] assms(1,2)
    by (cases entry) (auto simp: visit_entry_def skip_def map_ok_def is_ok_def split: sum.splits)
  then show ?case using Cons by (auto split: sum.splits option.splits)
qed simp

lemma root_was_read:
  assumes "discover_media_files io_text E n root_path plan None = Some (Discovered report)" and "\<not> skips_traversal plan"
    and "failure_decision plan (path_of_text root_path) = Abort"
    and "\<And>r. fs_canonicalize (de_fs E) (path_of_text root_path) = Inr r
      \<Longrightarrow> \<not> list_ex (\<lambda>d. prefix (resolved_or_same E d) r) (excluded_directories plan)"
  shows "\<exists>r m entries. fs_canonicalize (de_fs E) (path_of_text root_path) = Inr r
    \<and> fs_metadata (de_fs E) r = Inr m \<and> fm_kind m = Directory
    \<and> de_read_dir E (path_of_text root_path) = Inr entries \<and> list_all is_ok entries"
proof -
  let ?root = "path_of_text root_path"
  have boundary: "is_ok (discovery_boundary E ?root (excluded_directories plan))"
    using assms(1,2) failure_ends [OF assms(3)]
    by (auto simp: discover_media_files_def discover_report_in_scope_def map_ok_def is_ok_def split: sum.splits walk_end.splits if_splits)
  from assms(1) show ?thesis
  proof (cases rule: discovered_cases)
    case 1
    then show ?thesis using boundary assms(2) by simp
  next
    case (2 B st)
    let ?W = "walk_of E ?root plan B"
    obtain r m where r: "fs_canonicalize (de_fs E) ?root = Inr r" "fs_metadata (de_fs E) r = Inr m" "fm_kind m = Directory"
      using 2(2) by (auto simp: discovery_boundary_def and_then_def split: sum.splits if_splits)
    have at: "canonical_path_if_allowed E B ?root = Inr (Some r)"
      using 2(2) r(1) assms(4) [OF r(1)]
      by (auto simp: canonical_path_if_allowed_def discovery_boundary_def within_boundary_def and_then_def list_ex_iff
          split: sum.splits if_splits)
    obtain k where n: "n = Suc k" using 2(3) by (cases n) simp_all
    have skip: "skip ?W ?root e st1 \<noteq> Some (Inr st2)" for e st1 st2
      using failure_ends [OF assms(3)] by (auto simp: skip_def map_ok_def split: sum.splits)
    have "\<exists>entries. de_read_dir E ?root = Inr entries \<and> list_all is_ok entries"
      using 2(3) at skip failed_entry_ends [of ?W ?root plan] assms(3)
      by (auto simp: n Let_def dest!: checked_cancel_Inr split: sum.splits if_splits)
    then show ?thesis using r by blast
  qed
qed

text \<open>
  C19. The discovery of a library whose root lies on a connected network share counts as complete only
  when the root was resolved to a directory and read to the end of its listing. Otherwise, when the
  share is not reached, is no directory or its listing breaks off, the outcome is an outage of the root, and
  never an empty library; it may only be a cancellation instead when the scan was cancelled or the system interrupted
  a call. (No directory that the plan leaves out contains the root.)
\<close>

theorem share_was_read:
  assumes "discover_media_files io_text E n root_path plan None = Some outcome" and "\<not> sp_root_missing plan"
    and "sp_root_path plan = path_of_text root_path" and "root_is_network plan"
    and "map_option sr_verdict (root_region plan) = Some Healthy"
    and "\<And>r. fs_canonicalize (de_fs E) (path_of_text root_path) = Inr r
      \<Longrightarrow> \<not> list_ex (\<lambda>d. prefix (resolved_or_same E d) r) (excluded_directories plan)"
  shows "(\<exists>r m entries. fs_canonicalize (de_fs E) (path_of_text root_path) = Inr r
        \<and> fs_metadata (de_fs E) r = Inr m \<and> fm_kind m = Directory
        \<and> de_read_dir E (path_of_text root_path) = Inr entries \<and> list_all is_ok entries)
    \<or> (\<exists>e. outcome = StorageOutage (outage_issue io_text plan (path_of_text root_path) e))
    \<or> outcome = DiscoveryCancelled \<and> disturbed E"
proof (cases outcome)
  case (Discovered report)
  have "\<not> skips_traversal plan" using assms(2,5) by (auto simp: skips_traversal_def split: option.splits)
  moreover have "failure_decision plan (path_of_text root_path) = Abort" using assms(3-5) by (simp add: failure_decision_def)
  ultimately show ?thesis using root_was_read [OF assms(1) [unfolded Discovered]] assms(6) by blast
next
  case DiscoveryCancelled
  then show ?thesis using discovery_explained [OF assms(1)] by simp
next
  case (StorageOutage issue)
  then show ?thesis
    using discovery_explained [OF assms(1)] assms(3) by (auto simp: failure_decision_def split: if_splits)
qed

lemma demo_plan_root:
  "\<not> sp_root_missing demo_plan" "sp_root_path demo_plan = demo_m" "root_is_network demo_plan"
  "map_option sr_verdict (root_region demo_plan) = Some Healthy"
  by (simp_all add: demo_plan_def demo_m_def root_region_def demo_root_region_def root_is_network_def or_else_def demo_network)

lemma demo_plan_aborts: "failure_decision demo_plan demo_m = Abort"
  using demo_plan_root by (simp add: failure_decision_def)

theorem share_was_read_witness:
  "(\<exists>r m entries. demo_resolve demo_m = Inr r \<and> demo_metadata r = Inr m \<and> fm_kind m = Directory
      \<and> de_read_dir demo_tree demo_m = Inr entries \<and> list_all is_ok entries)
    \<and> discover_media_files (\<lambda>_. []) (demo_tree\<lparr>de_read_dir := (\<lambda>_. Inr [Inl IoOther])\<rparr>) (Suc 0) [47, 109] demo_plan None
      = Some (StorageOutage (outage_issue (\<lambda>_. []) demo_plan demo_m IoOther))"
proof -
  have "\<exists>r m entries. demo_resolve demo_m = Inr r \<and> demo_metadata r = Inr m \<and> fm_kind m = Directory
      \<and> de_read_dir demo_tree demo_m = Inr entries \<and> list_all is_ok entries"
    using share_was_read [OF demo_discovered demo_plan_root(1), unfolded demo_root_text, OF demo_plan_root(2-4)]
    by (simp add: demo_plan_walks(2) demo_walk_parts(3,4))
  moreover have "discover_media_files (\<lambda>_. []) (demo_tree\<lparr>de_read_dir := (\<lambda>_. Inr [Inl IoOther])\<rparr>) (Suc 0) [47, 109] demo_plan None
      = Some (StorageOutage (outage_issue (\<lambda>_. []) demo_plan demo_m IoOther))"
    by (simp add: discover_media_files_def discover_report_in_scope_def demo_plan_walks demo_root_text discovery_boundary_def
        demo_walk_parts(3,4,5) demo_paths(1) demo_kinds(1) and_then_def checked_cancel_def canonical_path_if_allowed_def
        within_boundary_def visit_entry_def skip_def tolerate_def demo_plan_aborts is_absent_entry_error_def map_ok_def Let_def
        initial_walk_def)
  ultimately show ?thesis by blast
qed

end
