(* ===== verification/Sidecar_Fingerprint.thy ===== *)
theory Sidecar_Fingerprint
  imports Discovery_Properties
begin

text \<open>
  What the fingerprint of a directory depends on (\<open>sidecar_fingerprint_for_directory\<close> in
  \<open>mova-scan/src/discover.rs\<close>): not on the order of its listing; and the bytes that are hashed tell the
  facts apart.
\<close>

subsection \<open>The order of a listing\<close>

definition same_listing :: "io_error + (io_error + ustr) list \<Rightarrow> io_error + (io_error + ustr) list \<Rightarrow> bool" where
  "same_listing a b =
     (case (a, b) of (Inr xs, Inr ys) \<Rightarrow> mset xs = mset ys | (Inl _, Inl _) \<Rightarrow> True | _ \<Rightarrow> False)"

lemma mset_map_filter: "mset xs = mset ys \<Longrightarrow> mset (List.map_filter f xs) = mset (List.map_filter f ys)"
  by (simp add: List.map_filter_def)

lemma mset_concat_map: "mset xs = mset ys \<Longrightarrow> mset (concat (map f xs)) = mset (concat (map f ys))"
  by (simp add: mset_concat sum_mset_sum_list [symmetric])

lemma sort_same: "mset xs = mset ys \<Longrightarrow> sort xs = sort ys"
  by (metis sorted_list_of_multiset_mset)

lemma btree_upsert_commute:
  fixes k l :: "'k::linorder"
  shows "btree_upsert k f (btree_upsert l f m) = btree_upsert l f (btree_upsert k f m)"
  by (induction m) auto

lemma counts_same:
  assumes "mset ns = mset ns'"
  shows "episode_video_counts ns = episode_video_counts ns'"
proof -
  have "mset (episodes_noted ns) = mset (episodes_noted ns')"
    unfolding episodes_noted_def using assms by (rule mset_map_filter)
  then have "fold (\<lambda>i. btree_upsert i (\<lambda>old. case old of None \<Rightarrow> 1 | Some n \<Rightarrow> n + 1)) (episodes_noted ns)
      = fold (\<lambda>i. btree_upsert i (\<lambda>old. case old of None \<Rightarrow> 1 | Some n \<Rightarrow> n + (1 :: nat))) (episodes_noted ns')"
    by (intro fold_multiset_equiv ext) (simp_all only: comp_apply btree_upsert_commute)
  then show ?thesis unfolding episode_video_counts_def foldl_conv_fold by (rule fun_cong)
qed

lemma unlisted:
  "is_regular_file (E\<lparr>de_read_dir := rd\<rparr>) = is_regular_file E" "sidecar_file_fact (E\<lparr>de_read_dir := rd\<rparr>) = sidecar_file_fact E"
  by (intro ext; simp add: is_regular_file_def sidecar_file_fact_def metadata_modified_at_ms_def)+

lemma file_fact_unlisted: "file_fact (E\<lparr>de_read_dir := rd\<rparr>) = file_fact E"
  by (intro ext) (simp add: file_fact_def unlisted split: sum.split)

lemma notes_unlisted:
  "entry_notes (E\<lparr>de_read_dir := rd\<rparr>) = entry_notes E" "nearest_series_nfo (E\<lparr>de_read_dir := rd\<rparr>) = nearest_series_nfo E"
  by (intro ext; simp add: entry_notes_def nearest_series_nfo_def unlisted file_fact_unlisted Let_def cong: sum.case_cong if_cong)+

definition artwork_notes :: "'u discovery_env \<Rightarrow> path \<Rightarrow> io_error + (io_error + ustr) list \<Rightarrow> ustr list" where
  "artwork_notes E container listing =
     (case listing of Inl _ \<Rightarrow> [] | Inr entries \<Rightarrow> concat (map (\<lambda>entry. case entry of
          Inl _ \<Rightarrow> []
        | Inr name \<Rightarrow> let p = container @ [name] in if is_generic_series_artwork_path p then file_fact E p else []) entries))"

lemma artwork_facts: "series_container_artwork_facts E d root nfo =
  (case Option.bind nfo path_parent of
     None \<Rightarrow> []
   | Some container \<Rightarrow>
       if container = d \<or> \<not> prefix container d \<or> (case root of Some r \<Rightarrow> \<not> prefix r container | None \<Rightarrow> False)
       then [] else artwork_notes E container (de_read_dir E container))"
  unfolding series_container_artwork_facts_def artwork_notes_def by (rule refl)

lemma artwork_same:
  assumes "\<And>d. same_listing (de_read_dir E d) (rd d)"
  shows "mset (series_container_artwork_facts (E\<lparr>de_read_dir := rd\<rparr>) d root nfo) = mset (series_container_artwork_facts E d root nfo)"
proof -
  have "mset (artwork_notes (E\<lparr>de_read_dir := rd\<rparr>) c (rd c)) = mset (artwork_notes E c (de_read_dir E c))" for c
  proof (cases "rd c")
    case (Inl e)
    then show ?thesis using assms [of c] by (simp add: artwork_notes_def same_listing_def split: sum.splits)
  next
    case (Inr ys)
    then obtain xs where "de_read_dir E c = Inr xs" "mset ys = mset xs"
      using assms [of c] by (auto simp: same_listing_def split: sum.splits)
    then show ?thesis using Inr by (simp only: artwork_notes_def file_fact_unlisted sum.case) (rule mset_concat_map)
  qed
  then show ?thesis unfolding artwork_facts by (simp split: option.split)
qed

lemma facts_same:
  assumes "\<And>d. same_listing (de_read_dir E d) (rd d)"
  shows "mset (sidecar_facts (E\<lparr>de_read_dir := rd\<rparr>) d root) = mset (sidecar_facts E d root)"
proof -
  define noted where "noted l = (case l of Inr entries \<Rightarrow> concat (map (entry_notes E d) entries) | Inl _ \<Rightarrow> [])"
    for l :: "io_error + (io_error + ustr) list"
  have "mset (noted (rd d)) = mset (noted (de_read_dir E d))"
    using assms [of d] by (auto simp: noted_def same_listing_def intro!: mset_concat_map split: sum.splits)
  note mset_map_filter [OF this] counts_same [OF this]
  then show ?thesis
    using artwork_same [OF assms]
    by (simp add: sidecar_facts_def facts_noted_def Let_def unlisted notes_unlisted noted_def [symmetric] cong: sum.case_cong option.case_cong)
qed

subsection \<open>The bytes\<close>

lemma digits_256_unique:
  "(\<forall>i<k. n div 256 ^ i mod 256 = m div 256 ^ i mod (256 :: nat)) \<Longrightarrow> n < 256 ^ k \<Longrightarrow> m < 256 ^ k \<Longrightarrow> n = m"
proof (induction k arbitrary: n m)
  case (Suc k)
  have "\<forall>i<k. n div 256 div 256 ^ i mod 256 = m div 256 div 256 ^ i mod 256"
  proof (intro allI impI)
    fix i assume "i < k"
    then show "n div 256 div 256 ^ i mod 256 = m div 256 div 256 ^ i mod 256"
      using Suc.prems(1) [rule_format, of "Suc i"] by (simp add: div_mult2_eq)
  qed
  moreover have "n div 256 < 256 ^ k" "m div 256 < 256 ^ k"
    using Suc.prems(2,3) by (simp_all add: less_mult_imp_div_less mult.commute)
  ultimately have "n div 256 = m div 256" by (rule Suc.IH)
  moreover have "n mod 256 = m mod 256" using Suc.prems(1) [rule_format, of 0] by simp
  ultimately show ?case by (metis div_mult_mod_eq)
qed simp

lemma le_bytes_unique:
  assumes "le_bytes_64 n = le_bytes_64 m" and "n < 2 ^ 64" and "m < 2 ^ 64"
  shows "n = m"
proof (rule digits_256_unique)
  show "\<forall>i<8. n div 256 ^ i mod 256 = m div 256 ^ i mod 256"
    using assms(1) by (auto simp: le_bytes_64_def)
qed (use assms in simp_all)

lemma fact_bytes_cons:
  assumes "fact_bytes f @ xs = fact_bytes g @ ys"
    and "length (utf8_bytes f) < 2 ^ 64" and "length (utf8_bytes g) < 2 ^ 64"
  shows "utf8_bytes f = utf8_bytes g \<and> xs = ys"
proof -
  let ?F = "le_bytes_64 (length (utf8_bytes f))" and ?G = "le_bytes_64 (length (utf8_bytes g))"
  have "?F @ utf8_bytes f @ xs = ?G @ utf8_bytes g @ ys" using assms(1) by (simp add: fact_bytes_def)
  moreover have "length ?F = length ?G" by (simp add: le_bytes_64_def)
  ultimately have "?F = ?G" and rest: "utf8_bytes f @ xs = utf8_bytes g @ ys" by simp_all
  then have "length (utf8_bytes f) = length (utf8_bytes g)" using le_bytes_unique assms(2,3) by blast
  with rest show ?thesis by simp
qed

definition hashable :: "ustr \<Rightarrow> bool" where
  "hashable f = (list_all is_scalar f \<and> length (utf8_bytes f) < 2 ^ 64)"

lemma fact_bytes_nonempty: "fact_bytes f \<noteq> []"
  by (simp add: fact_bytes_def le_bytes_64_def)

lemma hashed_unique:
  "list_all hashable fs \<Longrightarrow> list_all hashable gs \<Longrightarrow> concat (map fact_bytes fs) = concat (map fact_bytes gs) \<Longrightarrow> fs = gs"
proof (induction fs arbitrary: gs)
  case Nil
  then show ?case by (cases gs) (simp_all add: fact_bytes_nonempty)
next
  case (Cons f fs)
  then have "gs \<noteq> []" using fact_bytes_nonempty [of f] by auto
  then obtain g gs' where gs: "gs = g # gs'" by (auto simp: neq_Nil_conv)
  have bytes: "fact_bytes f @ concat (map fact_bytes fs) = fact_bytes g @ concat (map fact_bytes gs')"
    using Cons.prems(3) by (simp only: gs list.map concat.simps)
  have ok: "hashable f" "list_all hashable fs" "hashable g" "list_all hashable gs'" using Cons.prems(1,2) gs by simp_all
  from fact_bytes_cons [OF bytes] ok(1,3) have same: "utf8_bytes f = utf8_bytes g"
    and rest: "concat (map fact_bytes fs) = concat (map fact_bytes gs')"
    unfolding hashable_def by blast+
  have "utf8_decode (utf8_bytes f) = Some f" "utf8_decode (utf8_bytes g) = Some g"
    using ok(1,3) utf8_roundtrip unfolding hashable_def by blast+
  then have "f = g" using same by (metis option.inject)
  then show ?case using Cons.IH [OF ok(2,4) rest] gs by (simp only:)
qed

text \<open>
  C37. The fingerprint by which a scan tells that something beside a video has changed does not depend on
  the order in which directories are listed.
\<close>

theorem fingerprint_order_free:
  assumes "\<And>d. same_listing (de_read_dir E d) (rd d)"
  shows "sidecar_fingerprint_for_directory (E\<lparr>de_read_dir := rd\<rparr>) d root = sidecar_fingerprint_for_directory E d root"
  using sort_same [OF facts_same [OF assms]] by (simp add: sidecar_fingerprint_for_directory_def)

theorem fingerprint_order_free_witness:
  "sidecar_fingerprint_for_directory (demo_tree\<lparr>de_read_dir := \<lambda>d. map_ok rev (de_read_dir demo_tree d)\<rparr>) demo_m (Some demo_m)
     = sidecar_fingerprint_for_directory demo_tree demo_m (Some demo_m)
   \<and> map_ok rev (de_read_dir demo_tree demo_m) \<noteq> de_read_dir demo_tree demo_m"
proof -
  have "same_listing a (map_ok rev a)" for a :: "io_error + (io_error + ustr) list"
    by (cases a) (simp_all add: same_listing_def)
  from fingerprint_order_free [OF this] show ?thesis
    by (simp add: demo_lists(1)) (simp add: demo_entries_def lit_def)
qed

text \<open>
  Two lists of facts with the same bytes before the hash are equal: neither moving text from one
  fact to the next nor splitting a fact goes unnoticed, but for a collision of the hash.
\<close>

theorem fingerprint_input_unique:
  assumes "list_all hashable fs" and "list_all hashable gs"
  shows "concat (map fact_bytes fs) = concat (map fact_bytes gs) \<longleftrightarrow> fs = gs"
  using hashed_unique [OF assms] by blast

theorem fingerprint_input_unique_witness:
  "concat (map fact_bytes [lit ''ab'', lit ''c'']) \<noteq> concat (map fact_bytes [lit ''a'', lit ''bc''])"
proof -
  have short: "hashable f" if "list_all (\<lambda>c. c < 128) f" "length f < 128" for f
  proof -
    have "length (utf8_bytes f) = length f"
      using that(1) by (induction f) (simp_all add: utf8_bytes_def utf8_char_def)
    moreover have "list_all is_scalar f" using that(1) by (induction f) (simp_all add: is_scalar_def)
    moreover have "(128 :: nat) < 2 ^ 64" by simp
    ultimately show ?thesis unfolding hashable_def using that(2) by linarith
  qed
  have "list_all hashable [lit ''ab'', lit ''c'']" "list_all hashable [lit ''a'', lit ''bc'']"
    by (simp_all add: short lit_def)
  from fingerprint_input_unique [OF this] show ?thesis unfolding lit_def by simp
qed

end
