(* ===== verification/Subtitles.thy ===== *)
theory Subtitles
  imports Sidecar_Fingerprint
begin

text \<open>
  The subtitle files beside a video (\<open>mova-scan/src/subtitle.rs\<close>): what their names say, and which video
  they belong to.
\<close>

subsection \<open>Names of subtitle files\<close>

record subtitle_flags =
  sf_language :: "ustr option"
  sf_default :: bool
  sf_forced :: bool
  sf_hearing :: bool
  sf_labels :: "ustr list"

definition no_flags :: subtitle_flags where
  "no_flags = \<lparr>sf_language = None, sf_default = False, sf_forced = False, sf_hearing = False, sf_labels = []\<rparr>"

definition normalize_language_suffix :: "ustr \<Rightarrow> ustr option" where
  "normalize_language_suffix t =
     (if t \<in> set (map lit [''zh'', ''zho'', ''chi'', ''chs'', ''cht'', ''sc'', ''tc'', ''cn'', ''gb''])
         \<or> t \<in> set (map lit [''zh-cn'', ''zh-hans'', ''zh_sg'', ''zh-sg'']) then Some (lit ''zh-CN'')
      else if t \<in> set (map lit [''zh-tw'', ''zh-hant'', ''zh-hk'', ''zh_tw'', ''zh_hk'']) then Some (lit ''zh-TW'')
      else if t \<in> set (map lit [''en'', ''eng'']) then Some (lit ''en'')
      else if t \<in> set (map lit [''ja'', ''jpn'']) then Some (lit ''ja'')
      else if t \<in> set (map lit [''ko'', ''kor'']) then Some (lit ''ko'')
      else if t \<in> set (map lit [''fr'', ''fra'', ''fre'']) then Some (lit ''fr'')
      else if t \<in> set (map lit [''de'', ''ger'', ''deu'']) then Some (lit ''de'')
      else if t \<in> set (map lit [''es'', ''spa'']) then Some (lit ''es'') else None)"

text \<open>What a word at the end of the name adds; \<open>None\<close> is a word of the title.\<close>

definition flag_of_token :: "ustr \<Rightarrow> subtitle_flags \<Rightarrow> subtitle_flags option" where
  "flag_of_token token f =
     (let lowered = to_ascii_lowercase token in
      case normalize_language_suffix lowered of
        Some l \<Rightarrow> Some (f\<lparr>sf_language := Some l\<rparr>)
      | None \<Rightarrow>
          if lowered \<in> set (map lit [''default'', ''defaults'']) then Some (f\<lparr>sf_default := True\<rparr>)
          else if lowered \<in> set (map lit [''forced'', ''foreign'']) then Some (f\<lparr>sf_forced := True\<rparr>)
          else if lowered \<in> set (map lit [''sdh'', ''cc'', ''hi'', ''hearing'', ''hearing-impaired'', ''hearing_impaired''])
          then Some (f\<lparr>sf_hearing := True, sf_labels := sf_labels f @ [token]\<rparr>)
          else if lowered \<in> set (map lit [''sub'', ''subs'', ''subtitle'', ''subtitles''])
          then Some (f\<lparr>sf_labels := sf_labels f @ [token]\<rparr>)
          else None)"

text \<open>The words from the last one on.\<close>

fun strip_flags :: "ustr list \<Rightarrow> subtitle_flags \<Rightarrow> ustr list \<times> subtitle_flags" where
  "strip_flags [] f = ([], f)"
| "strip_flags (t # ts) f = (case flag_of_token t f of None \<Rightarrow> (t # ts, f) | Some f' \<Rightarrow> strip_flags ts f')"

record parsed_subtitle =
  ps_base_stem :: ustr
  ps_identity :: "(int \<times> int) option"
  ps_language :: "ustr option"
  ps_label :: "ustr option"
  ps_default :: bool
  ps_forced :: bool
  ps_hearing :: bool

definition parse_subtitle_sidecar :: "name_env \<Rightarrow> path \<Rightarrow> parsed_subtitle" where
  "parse_subtitle_sidecar N p =
     (let (rest, f) = strip_flags (rev (split_whitespace (humanize_file_stem p))) no_flags in
      \<lparr>ps_base_stem = to_ascii_lowercase (join [32] (rev rest)), ps_identity = episode_identity_for_path N p,
       ps_language = sf_language f,
       ps_label = (if sf_labels f = [] then None else Some (join [32] (rev (sf_labels f)))),
       ps_default = sf_default f, ps_forced = sf_forced f, ps_hearing = sf_hearing f\<rparr>)"

definition normalize_subtitle_comparison_stem :: "path \<Rightarrow> ustr" where
  "normalize_subtitle_comparison_stem p = to_ascii_lowercase (humanize_file_stem p)"

definition is_supported_subtitle :: "path \<Rightarrow> bool" where
  "is_supported_subtitle p =
     (case extension_lowercase p of None \<Rightarrow> False | Some e \<Rightarrow> e \<in> set (map lit [''srt'', ''ass'', ''ssa'', ''vtt'']))"

subsection \<open>The index of a directory\<close>

record indexed_subtitle =
  ix_path :: path
  ix_format :: ustr
  ix_parsed :: parsed_subtitle

record subtitle_directory =
  sd_subtitles :: "indexed_subtitle list"
  sd_counts :: "(int \<times> int) \<rightharpoonup> nat"
  sd_unreadable :: bool

definition count_identity :: "(int \<times> int) \<Rightarrow> ((int \<times> int) \<rightharpoonup> nat) \<Rightarrow> (int \<times> int) \<rightharpoonup> nat" where
  "count_identity i m = m(i \<mapsto> (case m i of None \<Rightarrow> 1 | Some n \<Rightarrow> n + 1))"

definition index_path :: "'u discovery_env \<Rightarrow> path \<Rightarrow> subtitle_directory \<Rightarrow> subtitle_directory" where
  "index_path E p sd =
     (if \<not> is_regular_file E p then sd
      else if is_supported_video p then
        (if is_strm_file p \<and> \<not> is_ok (read_http_strm_reference (de_urls E) (fs_open (de_fs E) p)) then sd
         else case episode_identity_for_path (de_names E) p of
                Some i \<Rightarrow> sd\<lparr>sd_counts := count_identity i (sd_counts sd)\<rparr>
              | None \<Rightarrow> sd)
      else if is_supported_subtitle p then
        sd\<lparr>sd_subtitles := sd_subtitles sd @ [\<lparr>ix_path = p,
          ix_format = (case extension_lowercase p of Some e \<Rightarrow> e | None \<Rightarrow> lit ''srt''),
          ix_parsed = parse_subtitle_sidecar (de_names E) p\<rparr>]\<rparr>
      else sd)"

definition index_subtitle_directory :: "'u discovery_env \<Rightarrow> path \<Rightarrow> subtitle_directory" where
  "index_subtitle_directory E d =
     (case de_read_dir E d of
        Inl _ \<Rightarrow> \<lparr>sd_subtitles = [], sd_counts = Map.empty, sd_unreadable = True\<rparr>
      | Inr entries \<Rightarrow>
          let sd = fold (index_path E) (map (\<lambda>n. d @ [n])
              (List.map_filter (\<lambda>entry. case entry of Inr n \<Rightarrow> Some n | Inl _ \<Rightarrow> None) entries))
            \<lparr>sd_subtitles = [], sd_counts = Map.empty, sd_unreadable = False\<rparr> in
          sd\<lparr>sd_subtitles := sort_key ix_path (sd_subtitles sd)\<rparr>)"

type_synonym subtitle_index = "path \<rightharpoonup> subtitle_directory"

definition build_subtitle_index :: "'u discovery_env \<Rightarrow> path list \<Rightarrow> subtitle_index" where
  "build_subtitle_index E videos =
     map_of (map (\<lambda>d. (d, index_subtitle_directory E d)) (remdups (List.map_filter path_parent videos)))"

definition is_video_directory_unreadable :: "subtitle_index \<Rightarrow> path \<Rightarrow> bool" where
  "is_video_directory_unreadable index video =
     (case Option.bind (path_parent video) index of Some sd \<Rightarrow> sd_unreadable sd | None \<Rightarrow> False)"

subsection \<open>The subtitles of a video\<close>

definition episode_count :: "((int \<times> int) \<rightharpoonup> nat) \<Rightarrow> int \<times> int \<Rightarrow> nat" where
  "episode_count counts i = (case counts i of Some n \<Rightarrow> n | None \<Rightarrow> 0)"

definition subtitle_matches_video ::
  "ustr \<Rightarrow> (int \<times> int) option \<Rightarrow> ((int \<times> int) \<rightharpoonup> nat) \<Rightarrow> parsed_subtitle \<Rightarrow> bool" where
  "subtitle_matches_video stem identity counts s =
     (ps_base_stem s = stem
      \<or> (case (identity, ps_identity s) of
           (Some i, Some j) \<Rightarrow> j = i \<and> episode_count counts i \<le> 1
         | _ \<Rightarrow> False))"

record subtitle_track =
  tr_source_kind :: string
  tr_file :: "path option"
  tr_stream :: "int option"
  tr_language :: "ustr option"
  tr_format :: ustr
  tr_label :: "ustr option"
  tr_default :: bool
  tr_forced :: bool
  tr_hearing :: bool

record embedded_stream =
  em_stream :: int
  em_language :: "ustr option"
  em_format :: ustr
  em_label :: "ustr option"
  em_default :: bool
  em_forced :: bool
  em_hearing :: bool

definition track_of_subtitle :: "indexed_subtitle \<Rightarrow> subtitle_track" where
  "track_of_subtitle s =
     \<lparr>tr_source_kind = ''external'', tr_file = Some (ix_path s), tr_stream = None, tr_language = ps_language (ix_parsed s),
      tr_format = ix_format s, tr_label = ps_label (ix_parsed s), tr_default = ps_default (ix_parsed s),
      tr_forced = ps_forced (ix_parsed s), tr_hearing = ps_hearing (ix_parsed s)\<rparr>"

definition track_of_stream :: "embedded_stream \<Rightarrow> subtitle_track" where
  "track_of_stream e =
     \<lparr>tr_source_kind = ''embedded'', tr_file = None, tr_stream = Some (em_stream e), tr_language = em_language e,
      tr_format = em_format e, tr_label = em_label e, tr_default = em_default e, tr_forced = em_forced e,
      tr_hearing = em_hearing e\<rparr>"

definition discover_external_subtitle_tracks :: "name_env \<Rightarrow> path \<Rightarrow> subtitle_index \<Rightarrow> subtitle_track list" where
  "discover_external_subtitle_tracks N video index =
     (case Option.bind (path_parent video) index of
        None \<Rightarrow> []
      | Some sd \<Rightarrow>
          map track_of_subtitle (List.filter (\<lambda>s. subtitle_matches_video (normalize_subtitle_comparison_stem video)
            (episode_identity_for_path N video) (sd_counts sd) (ix_parsed s)) (sd_subtitles sd)))"

definition discover_subtitle_tracks_with_index ::
  "name_env \<Rightarrow> path \<Rightarrow> embedded_stream list \<Rightarrow> subtitle_index \<Rightarrow> subtitle_track list" where
  "discover_subtitle_tracks_with_index N video streams index =
     map track_of_stream streams @ discover_external_subtitle_tracks N video index"

subsection \<open>What is counted and what is found\<close>

definition counted_video :: "'u discovery_env \<Rightarrow> int \<times> int \<Rightarrow> path \<Rightarrow> bool" where
  "counted_video E i p =
     (is_regular_file E p \<and> is_supported_video p
      \<and> (is_strm_file p \<longrightarrow> is_ok (read_http_strm_reference (de_urls E) (fs_open (de_fs E) p)))
      \<and> episode_identity_for_path (de_names E) p = Some i)"

definition found_subtitle :: "'u discovery_env \<Rightarrow> path \<Rightarrow> bool" where
  "found_subtitle E p = (is_regular_file E p \<and> \<not> is_supported_video p \<and> is_supported_subtitle p)"

lemma index_step:
  "episode_count (sd_counts (index_path E p sd)) i = episode_count (sd_counts sd) i + (if counted_video E i p then 1 else 0)"
  "map ix_path (sd_subtitles (index_path E p sd)) = map ix_path (sd_subtitles sd) @ (if found_subtitle E p then [p] else [])"
  "(\<forall>s\<in>set (sd_subtitles sd). ix_parsed s = parse_subtitle_sidecar (de_names E) (ix_path s)) \<Longrightarrow>
    \<forall>s\<in>set (sd_subtitles (index_path E p sd)). ix_parsed s = parse_subtitle_sidecar (de_names E) (ix_path s)"
  by (auto simp: index_path_def counted_video_def found_subtitle_def count_identity_def episode_count_def split: option.splits)

lemma index_count: "episode_count (sd_counts (fold (index_path E) ps sd)) i
    = episode_count (sd_counts sd) i + length (List.filter (counted_video E i) ps)"
  by (induction ps arbitrary: sd) (simp_all add: index_step(1))

lemma index_subtitles: "map ix_path (sd_subtitles (fold (index_path E) ps sd))
    = map ix_path (sd_subtitles sd) @ List.filter (found_subtitle E) ps"
  by (induction ps arbitrary: sd) (simp_all add: index_step(2))

lemma index_parsed: "(\<forall>s\<in>set (sd_subtitles sd). ix_parsed s = parse_subtitle_sidecar (de_names E) (ix_path s)) \<Longrightarrow>
    \<forall>s\<in>set (sd_subtitles (fold (index_path E) ps sd)). ix_parsed s = parse_subtitle_sidecar (de_names E) (ix_path s)"
proof (induction ps arbitrary: sd)
  case (Cons p ps)
  from Cons.IH [OF index_step(3) [OF Cons.prems]] show ?case by simp
qed simp

definition listed_paths :: "path \<Rightarrow> (io_error + ustr) list \<Rightarrow> path list" where
  "listed_paths d entries = map (\<lambda>n. d @ [n]) (names_in entries)"

text \<open>The subtitle \<open>p\<close> belongs to \<open>video\<close> by its words, or as the only one with its episode.\<close>

definition belongs_to :: "'u discovery_env \<Rightarrow> path list \<Rightarrow> path \<Rightarrow> path \<Rightarrow> bool" where
  "belongs_to E ps video p =
     (ps_base_stem (parse_subtitle_sidecar (de_names E) p) = normalize_subtitle_comparison_stem video
      \<or> (case (episode_identity_for_path (de_names E) video, episode_identity_for_path (de_names E) p) of
           (Some i, Some j) \<Rightarrow> j = i \<and> length (List.filter (counted_video E i) ps) \<le> 1
         | _ \<Rightarrow> False))"

lemma indexed:
  assumes "video \<in> set videos" and "path_parent video = Some d"
  shows "build_subtitle_index E videos d = Some (index_subtitle_directory E d)"
proof -
  have "d \<in> set (List.map_filter path_parent videos)"
    using assms by (force simp: List.map_filter_def)
  then show ?thesis by (auto simp: build_subtitle_index_def map_of_map_restrict restrict_map_def)
qed

lemma index_of_listing:
  assumes "de_read_dir E d = Inr entries"
  shows "episode_count (sd_counts (index_subtitle_directory E d)) i
      = length (List.filter (counted_video E i) (listed_paths d entries))"
    and "ix_path ` set (sd_subtitles (index_subtitle_directory E d)) = set (List.filter (found_subtitle E) (listed_paths d entries))"
    and "s \<in> set (sd_subtitles (index_subtitle_directory E d)) \<Longrightarrow> ix_parsed s = parse_subtitle_sidecar (de_names E) (ix_path s)"
proof -
  let ?sd = "\<lparr>sd_subtitles = [], sd_counts = Map.empty, sd_unreadable = False\<rparr>"
  show "episode_count (sd_counts (index_subtitle_directory E d)) i
      = length (List.filter (counted_video E i) (listed_paths d entries))"
    using assms index_count [of E "listed_paths d entries" ?sd i]
    by (simp add: index_subtitle_directory_def listed_paths_def episode_count_def Let_def)
  show "ix_path ` set (sd_subtitles (index_subtitle_directory E d)) = set (List.filter (found_subtitle E) (listed_paths d entries))"
    using assms arg_cong [OF index_subtitles [of E "listed_paths d entries" ?sd], of set]
    by (simp add: index_subtitle_directory_def listed_paths_def Let_def)
  show "s \<in> set (sd_subtitles (index_subtitle_directory E d)) \<Longrightarrow> ix_parsed s = parse_subtitle_sidecar (de_names E) (ix_path s)"
    using assms index_parsed [of ?sd E "listed_paths d entries"] by (simp add: index_subtitle_directory_def listed_paths_def Let_def)
qed

lemma parsed_identity [simp]: "ps_identity (parse_subtitle_sidecar N p) = episode_identity_for_path N p"
  by (simp add: parse_subtitle_sidecar_def split: prod.split)

lemma matches_belongs:
  assumes "de_read_dir E d = Inr entries"
  shows "subtitle_matches_video (normalize_subtitle_comparison_stem video) (episode_identity_for_path (de_names E) video)
      (sd_counts (index_subtitle_directory E d)) (parse_subtitle_sidecar (de_names E) p) = belongs_to E (listed_paths d entries) video p"
  unfolding subtitle_matches_video_def belongs_to_def parsed_identity index_of_listing(1) [OF assms] by (rule refl)

text \<open>
  C35. The subtitle files of a video are those of its directory whose words are the video's, or whose
  episode is the video's while no other readable video there has that episode.
\<close>

theorem subtitles_exact:
  assumes "video \<in> set videos" and "path_parent video = Some d" and "de_read_dir E d = Inr entries"
  shows "Some p \<in> tr_file ` set (discover_external_subtitle_tracks (de_names E) video (build_subtitle_index E videos))
    \<longleftrightarrow> p \<in> set (listed_paths d entries) \<and> found_subtitle E p \<and> belongs_to E (listed_paths d entries) video p"
proof -
  let ?sd = "index_subtitle_directory E d"
  have "tr_file ` set (discover_external_subtitle_tracks (de_names E) video (build_subtitle_index E videos))
      = Some ` ix_path ` {s \<in> set (sd_subtitles ?sd). subtitle_matches_video (normalize_subtitle_comparison_stem video)
          (episode_identity_for_path (de_names E) video) (sd_counts ?sd) (ix_parsed s)}"
  proof -
    have "discover_external_subtitle_tracks (de_names E) video (build_subtitle_index E videos)
        = map track_of_subtitle (List.filter (\<lambda>s. subtitle_matches_video (normalize_subtitle_comparison_stem video)
            (episode_identity_for_path (de_names E) video) (sd_counts ?sd) (ix_parsed s)) (sd_subtitles ?sd))"
      using assms(2) indexed [OF assms(1,2), of E] by (simp add: discover_external_subtitle_tracks_def)
    then show ?thesis by (simp add: image_image track_of_subtitle_def)
  qed
  also have "{s \<in> set (sd_subtitles ?sd). subtitle_matches_video (normalize_subtitle_comparison_stem video)
          (episode_identity_for_path (de_names E) video) (sd_counts ?sd) (ix_parsed s)}
      = {s \<in> set (sd_subtitles ?sd). belongs_to E (listed_paths d entries) video (ix_path s)}"
    using index_of_listing(3) [OF assms(3)] matches_belongs [OF assms(3)] by auto
  also have "ix_path ` \<dots> = {p \<in> ix_path ` set (sd_subtitles ?sd). belongs_to E (listed_paths d entries) video p}" by blast
  finally show ?thesis unfolding index_of_listing(2) [OF assms(3)] by auto
qed


subsection \<open>A sample beside an episode\<close>

definition without_entry :: "'u discovery_env \<Rightarrow> path \<Rightarrow> (io_error + ustr) list \<Rightarrow> ustr \<Rightarrow> 'u discovery_env" where
  "without_entry E d entries w = E\<lparr>de_read_dir := (de_read_dir E)(d := Inr (remove1 (Inr w) entries))\<rparr>"

lemma without_entry_same [simp]:
  "is_regular_file (without_entry E d entries w) = is_regular_file E" "de_names (without_entry E d entries w) = de_names E"
  "de_read_dir (without_entry E d entries w) d = Inr (remove1 (Inr w) entries)"
  by (simp_all add: without_entry_def unlisted)

lemma counted_without: "counted_video (without_entry E d entries w) = counted_video E" "found_subtitle (without_entry E d entries w) = found_subtitle E"
  by (intro ext; simp add: counted_video_def found_subtitle_def; simp add: without_entry_def)+

lemma belongs_without: "belongs_to (without_entry E d entries w) = belongs_to E"
  by (intro ext) (simp add: belongs_to_def counted_without cong: option.case_cong)

lemma concat_remove1: "f x = [] \<Longrightarrow> concat (map f (remove1 x xs)) = concat (map f xs)"
  by (induction xs) auto

lemma ignored_video_no_note:
  assumes "is_ignored_video_file_name w" and "is_supported_video (d @ [w])"
  shows "entry_notes E d (Inr w) = []"
proof -
  have "\<not> is_local_analysis_sidecar (d @ [w])"
    using assms(2) by (auto simp: is_supported_video_def is_local_analysis_sidecar_def lit_def split: option.splits)
  then show ?thesis using assms by (simp add: entry_notes_def Let_def)
qed

lemma ignored_video_same_facts:
  assumes "de_read_dir E d = Inr entries" and "is_ignored_video_file_name w" and "is_supported_video (d @ [w])"
  shows "sidecar_facts (without_entry E d entries w) d root = sidecar_facts E d root"
proof -
  have noted: "concat (map (entry_notes E d) (remove1 (Inr w) entries)) = concat (map (entry_notes E d) entries)"
    by (rule concat_remove1) (rule ignored_video_no_note [OF assms(2,3)])
  have above: "series_container_artwork_facts (without_entry E d entries w) d root nfo = series_container_artwork_facts E d root nfo" for nfo
  proof -
    have "artwork_notes (without_entry E d entries w) = artwork_notes E"
      unfolding artwork_notes_def [abs_def] without_entry_def file_fact_unlisted by (rule refl)
    then show ?thesis unfolding artwork_facts by (simp add: without_entry_def split: option.split)
  qed
  show ?thesis
    unfolding sidecar_facts_def above without_entry_same(3) assms(1)
    by (simp add: without_entry_def notes_unlisted unlisted noted Let_def cong: option.case_cong sum.case_cong)
qed

lemma two_counted:
  assumes "Inr v \<in> set entries" and "Inr w \<in> set entries" and "v \<noteq> w" and "counted_video E i (d @ [v])" and "counted_video E i (d @ [w])"
  shows "\<not> length (List.filter (counted_video E i) (listed_paths d entries)) \<le> 1"
proof -
  let ?ps = "List.filter (counted_video E i) (listed_paths d entries)"
  have names: "Inr n \<in> set entries \<Longrightarrow> n \<in> set (names_in entries)" for n
    by (force simp: List.map_filter_def image_iff)
  have "{d @ [v], d @ [w]} \<subseteq> set ?ps" using assms names by (auto simp: listed_paths_def)
  then have "card {d @ [v], d @ [w]} \<le> card (set ?ps)" by (rule card_mono [rotated]) simp
  also have "\<dots> \<le> length ?ps" by (rule card_length)
  finally show ?thesis using assms(3) by simp
qed

text \<open>
  C36. A sample that carries the episode of a video keeps from the video every subtitle that names it by
  the episode alone, though samples are ignored elsewhere; and when the sample goes, the fingerprint
  does not change, so that no scan attaches them.
\<close>

theorem sample_takes_subtitles:
  assumes "de_read_dir E d = Inr entries" and "path_parent (d @ [v]) = Some d"
    and "Inr v \<in> set entries" and "Inr w \<in> set entries" and "v \<noteq> w" and "is_ignored_video_file_name w"
    and "counted_video E i (d @ [v])" and "counted_video E i (d @ [w])"
    and "length (List.filter (counted_video E i) (listed_paths d (remove1 (Inr w) entries))) \<le> 1"
    and "Inr s \<in> set entries" and "s \<noteq> w" and "found_subtitle E (d @ [s])" and "episode_identity_for_path (de_names E) (d @ [s]) = Some i"
    and "ps_base_stem (parse_subtitle_sidecar (de_names E) (d @ [s])) \<noteq> normalize_subtitle_comparison_stem (d @ [v])"
  shows "Some (d @ [s]) \<notin> tr_file ` set (discover_external_subtitle_tracks (de_names E) (d @ [v]) (build_subtitle_index E [d @ [v]]))
    \<and> Some (d @ [s]) \<in> tr_file ` set (discover_external_subtitle_tracks (de_names E) (d @ [v])
        (build_subtitle_index (without_entry E d entries w) [d @ [v]]))
    \<and> sidecar_fingerprint_for_directory (without_entry E d entries w) d root = sidecar_fingerprint_for_directory E d root"
proof -
  have i: "episode_identity_for_path (de_names E) (d @ [v]) = Some i" using assms(7) by (simp add: counted_video_def)
  have "Inr s \<in> set (remove1 (Inr w) entries)" using assms(10,11) by simp
  then have s: "d @ [s] \<in> set (listed_paths d (remove1 (Inr w) entries))"
    by (force simp: listed_paths_def List.map_filter_def image_iff)
  have "\<not> belongs_to E (listed_paths d entries) (d @ [v]) (d @ [s])"
    using two_counted [OF assms(3,4,5,7,8)] assms(13,14) i by (simp add: belongs_to_def)
  moreover have "belongs_to E (listed_paths d (remove1 (Inr w) entries)) (d @ [v]) (d @ [s])"
    using assms(9,13) i by (simp add: belongs_to_def)
  moreover have "is_supported_video (d @ [w])" using assms(8) by (simp add: counted_video_def)
  from ignored_video_same_facts [OF assms(1,6) this]
  have "sidecar_fingerprint_for_directory (without_entry E d entries w) d root = sidecar_fingerprint_for_directory E d root"
    by (simp add: sidecar_fingerprint_for_directory_def)
  ultimately show ?thesis
    using subtitles_exact [of "d @ [v]" "[d @ [v]]" d E entries "d @ [s]"]
      subtitles_exact [of "d @ [v]" "[d @ [v]]" d "without_entry E d entries w" "remove1 (Inr w) entries" "d @ [s]"] assms(1,2,12) s
    by (simp add: counted_without belongs_without)
qed


text \<open>\<open>Show.S01E01.mkv\<close> with a sample and \<open>Pilot.1x01.srt\<close>.\<close>

definition shelf_video :: ustr where "shelf_video = lit ''Show.S01E01.mkv''"

definition shelf_sample :: ustr where "shelf_sample = lit ''Show.S01E01.sample.mkv''"

definition shelf_subtitle :: ustr where "shelf_subtitle = lit ''Pilot.1x01.srt''"

lemmas shelf_names = shelf_video_def shelf_sample_def shelf_subtitle_def

definition demo_shelf :: "(ustr \<times> ustr \<times> nat) discovery_env" where
  "demo_shelf = demo_tree\<lparr>de_fs := \<lparr>fs_canonicalize = Inr, fs_metadata = (\<lambda>_. Inr \<lparr>fm_kind = RegularFile, fm_len = 5\<rparr>),
       fs_open = (\<lambda>_. Inr []), fs_read_first = (\<lambda>_. Inr ())\<rparr>,
     de_read_dir := (\<lambda>_. Inr [Inr shelf_video, Inr shelf_sample, Inr shelf_subtitle])\<rparr>"

lemma shelf_identities:
  "episode_identity_for_path demo_names (demo_m @ [shelf_video]) = Some (1, 1)"
  "episode_identity_for_path demo_names (demo_m @ [shelf_sample]) = Some (1, 1)"
  "episode_identity_for_path demo_names (demo_m @ [shelf_subtitle]) = Some (1, 1)"
proof -
  let ?m = "\<lparr>title_prefix = None, season_number = 1, episode_number = 1\<rparr>"
  note first = identity_of_first_marker [where N = demo_names and m = ?m]
  show "episode_identity_for_path demo_names (demo_m @ [shelf_video]) = Some (1, 1)"
    using first [where a = "[lit ''Show'']" and b = "[]" and t = "lit ''S01E01''" and p = "demo_m @ [shelf_video]"]
    by (simp add: shelf_names demo_m_def name_eval marker_eval demo_names_def)
  show "episode_identity_for_path demo_names (demo_m @ [shelf_sample]) = Some (1, 1)"
    using first [where a = "[lit ''Show'']" and b = "[lit ''sample'']" and t = "lit ''S01E01''" and p = "demo_m @ [shelf_sample]"]
    by (simp add: shelf_names demo_m_def name_eval marker_eval demo_names_def)
  show "episode_identity_for_path demo_names (demo_m @ [shelf_subtitle]) = Some (1, 1)"
    using first [where a = "[lit ''Pilot'']" and b = "[]" and t = "lit ''1x01''" and p = "demo_m @ [shelf_subtitle]"]
    by (simp add: shelf_names demo_m_def name_eval marker_eval demo_names_def)
qed

lemma shelf_kinds:
  "is_supported_video (demo_m @ [shelf_video])" "is_supported_video (demo_m @ [shelf_sample])" "\<not> is_supported_video (demo_m @ [shelf_subtitle])"
  "is_supported_subtitle (demo_m @ [shelf_subtitle])" "\<not> is_strm_file (demo_m @ [shelf_video])" "\<not> is_strm_file (demo_m @ [shelf_sample])"
  "is_ignored_video_file_name shelf_sample"
  by (simp_all add: walk_eval shelf_names is_supported_subtitle_def)

lemma shelf_words:
  "ps_base_stem (parse_subtitle_sidecar demo_names (demo_m @ [shelf_subtitle])) \<noteq> normalize_subtitle_comparison_stem (demo_m @ [shelf_video])"
proof -
  have "split_whitespace (humanize_file_stem (demo_m @ [shelf_subtitle])) = [lit ''Pilot'', lit ''1x01'']"
    "humanize_file_stem (demo_m @ [shelf_video]) = lit ''Show S01E01''"
    by (simp_all add: shelf_names demo_m_def name_eval)
  then show ?thesis
    by (simp add: parse_subtitle_sidecar_def normalize_subtitle_comparison_stem_def flag_of_token_def normalize_language_suffix_def
        walk_eval Let_def)
qed

lemma shelf_differ: "shelf_video \<noteq> shelf_sample" "shelf_subtitle \<noteq> shelf_sample" "shelf_video \<noteq> shelf_subtitle"
  by (simp_all add: shelf_names lit_def)

lemma shelf_counted:
  "counted_video demo_shelf (1, 1) (demo_m @ [shelf_video])" "counted_video demo_shelf (1, 1) (demo_m @ [shelf_sample])"
  "\<not> counted_video demo_shelf i (demo_m @ [shelf_subtitle])" "found_subtitle demo_shelf (demo_m @ [shelf_subtitle])"
  using shelf_identities shelf_kinds
  by (simp_all add: counted_video_def found_subtitle_def is_regular_file_def demo_shelf_def demo_tree_def)

theorem sample_takes_subtitles_witness:
  "Some (demo_m @ [shelf_subtitle]) \<notin> tr_file ` set (discover_external_subtitle_tracks demo_names (demo_m @ [shelf_video])
      (build_subtitle_index demo_shelf [demo_m @ [shelf_video]]))
   \<and> Some (demo_m @ [shelf_subtitle]) \<in> tr_file ` set (discover_external_subtitle_tracks demo_names (demo_m @ [shelf_video])
      (build_subtitle_index (without_entry demo_shelf demo_m [Inr shelf_video, Inr shelf_sample, Inr shelf_subtitle] shelf_sample)
        [demo_m @ [shelf_video]]))"
proof -
  have listing: "de_read_dir demo_shelf demo_m = Inr [Inr shelf_video, Inr shelf_sample, Inr shelf_subtitle]"
    and names: "de_names demo_shelf = demo_names"
    by (simp_all add: demo_shelf_def demo_tree_def)
  have parent: "path_parent (demo_m @ [shelf_video]) = Some demo_m" by (simp add: path_parent_def demo_m_def root_dir_def)
  have "length (List.filter (counted_video demo_shelf (1, 1))
      (listed_paths demo_m (remove1 (Inr shelf_sample) [Inr shelf_video, Inr shelf_sample, Inr shelf_subtitle]))) \<le> 1"
    using shelf_counted shelf_differ by (simp add: listed_paths_def)
  from sample_takes_subtitles [OF listing parent _ _ shelf_differ(1) shelf_kinds(7) shelf_counted(1,2) this _ shelf_differ(2) shelf_counted(4)]
  show ?thesis using shelf_identities(3) shelf_words names by simp
qed

theorem subtitles_exact_witness:
  "Some (demo_m @ [shelf_subtitle]) \<notin> tr_file ` set (discover_external_subtitle_tracks demo_names (demo_m @ [shelf_video])
      (build_subtitle_index demo_shelf [demo_m @ [shelf_video]]))
   \<and> found_subtitle demo_shelf (demo_m @ [shelf_subtitle])"
proof -
  have "de_read_dir demo_shelf demo_m = Inr [Inr shelf_video, Inr shelf_sample, Inr shelf_subtitle]"
    and names: "de_names demo_shelf = demo_names"
    by (simp_all add: demo_shelf_def demo_tree_def)
  from subtitles_exact [OF _ _ this(1), of "demo_m @ [shelf_video]" "[demo_m @ [shelf_video]]" "demo_m @ [shelf_subtitle]"]
  show ?thesis
    using shelf_counted shelf_words shelf_identities names
    by (simp add: path_parent_def demo_m_def [symmetric] root_dir_def belongs_to_def listed_paths_def) (simp add: demo_m_def)
qed

end
