(* ===== verification/Spec2Isabelle.thy ===== *)
theory Spec2Isabelle
  imports Target_Policy Stream_Limits Strm_Reference Remote_Request Remote_Response Remote_Stream
    Api_Errors Auth_Rate_Limit Media_Stream Mount_Table Library_Storage User_Access Library_Access
    Media_Identity Job_Progress Realtime_Streams Realtime_Events Playback_Requests Catalog_Properties
    Sidecar_Fingerprint Subtitles
begin

text \<open>
  Verification of the Mova media server (Rust, workspace of \<open>apps/mova-server\<close> and the crates
  \<open>mova-application\<close>, \<open>mova-scan\<close>, \<open>mova-domain\<close>, \<open>mova-db\<close>).

  The server catalogs the files of media libraries and streams them. The development models
  the parts whose mistakes cost most: the gate between the server and hosts named by untrusted
  carrier files, the streaming of local files out of a library, accounts, sessions and the access
  to the catalog, the login rate limit, the error protocol, the names that make a file an episode,
  the queue of background jobs, the events that tell clients of changes, the walk that finds
  files, the decision that they are gone, the catalog that scans write and what it does to what users have watched.

  \<^bold>\<open>Theories.\<close>
  \<^item> \<open>Mova_Prelude\<close>: results and options of the Rust code, generic list facts.
    \<open>Rust_Text\<close>, \<open>Rust_Path\<close>, \<open>Std_Net\<close>: what the program uses of the Rust standard library:
    text as lists of code points, integers parsed from text with their width as a bound,
    UTF-8, path components, the file system as a record of the answers it gives, \<open>BTreeMap\<close>
    as a sorted list, IP addresses as machine words with their parser and printer.
  \<^item> Remote streams (\<open>mova-application/src/remote_stream\<close>, \<open>mova-scan/src/strm.rs\<close>):
    \<open>Remote_Errors\<close>; \<open>Target_Policy\<close> (\<open>policy.rs\<close>, \<open>resolver.rs\<close>: which hosts may be contacted);
    \<open>Stream_Limits\<close> (\<open>limits.rs\<close>: semaphores, weak references and interleaved calls as a step
    relation, the admission contract as a locale); \<open>Strm_Reference\<close> (\<open>strm.rs\<close>: carrier files);
    \<open>Remote_Request\<close> and \<open>Remote_Response\<close> (\<open>mod.rs\<close>, \<open>client.rs\<close>: what is asked and what is passed
    on); \<open>Remote_Stream\<close> (\<open>mod.rs\<close>: the redirect loop and a whole call, the policy check of a
    hop as a locale).
  \<^item> The HTTP side (\<open>apps/mova-server\<close>): \<open>Api_Errors\<close> (\<open>error.rs\<close> of server and application),
    \<open>Auth_Rate_Limit\<close> (\<open>auth_rate_limit.rs\<close>, \<open>handlers/auth.rs\<close>), \<open>Media_Stream\<close>
    (\<open>handlers/media_files.rs\<close>, \<open>media_path.rs\<close>).
  \<^item> Accounts (\<open>mova-domain/src/user.rs\<close>, \<open>mova-db/src/users.rs\<close>, \<open>mova-application/src/users.rs\<close>,
    \<open>apps/mova-server/src/auth.rs\<close>, \<open>handlers/auth.rs\<close>, \<open>handlers/users.rs\<close>,
    \<open>session_housekeeping.rs\<close>): \<open>Db_Program\<close> (a request as a program of database statements,
    interleaved runs as \<open>reach\<close>, guarantees over them as the locale \<open>evolution\<close>); \<open>User_Store\<close> (the
    tables of users and sessions and each statement on them), \<open>User_Management\<close>, \<open>User_Sessions\<close>,
    \<open>User_Requests\<close> (the operations, up to the handlers and the periodic cleanup). \<open>User_Invariants\<close>
    interprets \<open>evolution\<close> on the tables and proves that there is one enabled owner under any
    interleaving; \<open>User_Ranks\<close>: who may change which account; \<open>User_Access\<close>: which credentials are
    served, and what ends them; \<open>Library_Access\<close> (\<open>access.rs\<close> and the visibility queries of
    \<open>mova-db\<close>): who sees which part of the catalog.
  \<^item> Names (\<open>mova-scan/src/parse.rs\<close>): \<open>Name_Tokens\<close> (tokens, titles and years), \<open>Media_Name\<close> (files
    and folders), \<open>Media_Identity\<close> (when a file is an episode, and which).
  \<^item> Discovery (\<open>mova-scan/src/discover.rs\<close>, \<open>subtitle.rs\<close>, \<open>scan_jobs/incremental.rs\<close>): \<open>Discovery\<close> (the walk
    through a library: its boundary, links, failures), \<open>Discovery_Report\<close> (fingerprints of what lies beside a
    video, scopes, the outcome of a scan's discovery); \<open>Discovery_Walk\<close>: a run as an inductive relation, what it finds
    and that nothing is lost; \<open>Discovery_Ends\<close>: each file once, and the end of the walk; \<open>Discovery_Facts\<close> and
    \<open>Discovery_Properties\<close>: the same of whole discoveries, on a small tree with a link to its root;
    \<open>Sidecar_Fingerprint\<close>: what a fingerprint depends on; \<open>Subtitles\<close> (\<open>subtitle.rs\<close>): which subtitle
    files belong to a video.
  \<^item> Storage: \<open>Mount_Table\<close> (\<open>mova-scan/src/storage.rs\<close>, \<open>ignore.rs\<close>), \<open>Library_Storage\<close>
    (\<open>mova-application/src/library_storage.rs\<close>, the finalization in \<open>scan_jobs.rs\<close>, the missing
    paths of \<open>mova-db/src/media_items/sync.rs\<close>).

  \<^item> Jobs (\<open>mova-db\<close>: \<open>background_jobs.rs\<close>, \<open>scan_jobs.rs\<close>, the inserts and cancellations in
    \<open>tmdb_revalidation.rs\<close>, \<open>intro_detection.rs\<close>, \<open>libraries.rs\<close>, the checkpoints in
    \<open>media_items/sync.rs\<close>): \<open>Job_Store\<close> (the tables with their constraints), \<open>Scan_Jobs\<close> (fences,
    the states and the progress of a scan), \<open>Job_Queue\<close> (claims, leases, retries, abandoned jobs,
    inserts). \<open>Job_Rows\<close>: how each transaction moves rows; \<open>Job_Invariants\<close>: jobs that exclude
    each other and do not wait for each other; \<open>Job_Runs\<close>: the step relation of all transactions and
    its runs; \<open>Job_Ownership\<close>: a lost fence stays lost; \<open>Job_Progress\<close>: workers fail for a lost fence
    only, and the queue is never stuck.
  \<^item> Realtime events (\<open>apps/mova-server/src/realtime.rs\<close>, \<open>handlers/realtime.rs\<close>): \<open>Realtime_Hub\<close>
    (broadcast channels, subscriptions, the stream of a client); \<open>Realtime_Delivery\<close> (the step relation of
    connecting clients, open streams and publishers, each step as small as the locks make it, and its invariant),
    \<open>Realtime_Streams\<close>: what each stream is handed; \<open>Realtime_Dispatch\<close>
    (the dispatcher between database and hub), \<open>Realtime_Events\<close>: what is announced, to whom (the resources that a user may
    know of are defined apart from the code's reading of their keys), and what is final.

  \<^item> Catalog and playback (\<open>mova-db/src/media_items/sync.rs\<close>, \<open>series.rs\<close>,
    \<open>mova-db/src/playback_progress.rs\<close>, \<open>mova-application/src/playback_progress.rs\<close>): \<open>Media_Store\<close>
    (the tables of items, files, seasons, episodes and progress, with their constraints and cascades);
    \<open>Playback_State\<close> (storing and merging how far users have watched, the list of what they are
    watching); \<open>Media_Rows\<close> (the statements of a scan on items and files), \<open>Media_Entries\<close> (how a movie or
    an episode is written, and its remote half), \<open>Media_Sync\<close> (the transactions of a group of files, the
    deletions by path), \<open>Media_Reconcile\<close> (the last transaction of a scan, renamed files).
    \<open>Media_Steps\<close>: the locale \<open>media_relation\<close>, what holds of every transaction because it holds of
    every statement, interpreted as \<open>sound\<close> in \<open>Media_Invariants\<close>; \<open>User_Records\<close>: the locale
    \<open>user_table\<close>, interpreted as \<open>progress\<close> and \<open>watching\<close>, for what a merge does to the records of
    users; \<open>Media_Runs\<close>: the step relation of all transactions and the invariant of its runs;
    \<open>Media_Samples\<close>: a small catalog made by transactions; \<open>Playback_Requests\<close>: valid requests are
    stored and read back; \<open>Catalog_Changes\<close> and \<open>Catalog_Properties\<close>: what a scan removes, what it
    leaves, and where it goes wrong.

  \<^bold>\<open>Conventions.\<close> A \<open>Result\<close> is a sum with \<open>Inl\<close> for the error, \<open>?\<close> is \<open>and_then\<close>. Effects are
  arguments and results: what the environment answers (name service, upstream servers, file
  system, mount table, database, clock) are functions or records, state is returned updated.
  A database statement or transaction is one atomic step of a program; between two steps of one
  request the others may run. Rows that \<open>skip locked\<close> passes over are an argument of the claim; times
  of jobs are microseconds, counters of files unbounded integers. A channel keeps 32 messages for
  each receiver and counts what it skips; a hash map is read in the order of its insertions; a
  subscription takes, for each channel, one step that looks up the sender and one that subscribes to it, and a client that
  leaves drops its receivers before \<open>unsubscribe_session\<close> is called; so a message for a session can be lost, as
  \<open>session_message_lost\<close> shows. These requests make several accesses to the database and are one step here: storing a
  progress (the item, the file, the insert), looking up a web session and noting its use, changing a nickname;
  so is the return of both semaphores of a stream permit. The folder that a name with an episode number alone is
  compared with (\<open>files_in\<close>) and the directories that a walk lists (\<open>de_read_dir\<close>) are two arguments, as the code reads
  them at two times. The constants whose names begin with \<open>demo\<close> are concrete environments
  and tables on which the properties are evaluated.
  Constraints of the catalog's tables are checked after each statement, the reference of a progress to
  the last file played at the commit, as it is declared deferred. What the local documents beside a file make of the
  fields of an item is an argument (\<open>sync_env\<close>). The catalog and the jobs are two stores; a transaction on both takes
  the fence of its job from \<open>Scan_Jobs\<close>.
  A panic is \<open>None\<close> where the code has one. Third-party code (the \<open>url\<close> and \<open>http\<close> crates, SHA-256,
  Unicode lower case) is a parameter; where a property needs a fact of it, the fact is a named
  hypothesis of documented behaviour.

  \<^bold>\<open>Bounds.\<close> The walk of a discovery has a bound on the depth of nested directories, \<open>None\<close> when it is too
  small; \<open>discovery_ends\<close> shows that one more than the number of directories is enough, and that larger bounds give the
  same. No other fuel is used: the redirect loop is a function whose termination is proved by the
  number of redirects left and the one switch to a probe; polling the channels of a stream is bounded by the number of
  messages in its queues, each turn takes one; all other loops are structural.

  \<^bold>\<open>Not modelled.\<close> The SQL of the tables other than users, sessions, scans, jobs, items, files, seasons,
  episodes and progress, but for the visibility queries; of the catalog the queries that list and search it,
  the tracks, documents and ratings of an item, the checks on probed columns and the rows of remote metadata; of jobs the notifications, the backoff of a
  revalidation and the rows of a failed intro analysis; failures of the database on accounts other than violated constraints and column bounds; the
  HTTP clients of metadata providers and the mapping of their answers; ffmpeg, ffprobe and signal
  processing; the documents beside videos (their names and times are in the fingerprints), the inspection of
  found files and the older walks of \<open>discover.rs\<close>; front ends, logging.
\<close>

end
